(* ===== verification/PyPrelude.thy ===== *)
theory PyPrelude
  imports Complex_Main "HOL-Library.Sublist"
begin

text \<open>
  Shared vocabulary of the development: the Python built-ins that the modelled code calls, on
  HOL types, with the lemmas the component theories share.

  \<^item> A Python \<open>str\<close> is a \<open>string\<close>; a character stands for one code point of the Latin-1
    range, and the character classes below (\<open>isspace\<close>, \<open>lower\<close>, \<open>\w\<close>) are Python's
    own restricted to that range.
  \<^item> A Python \<open>int\<close> is an \<open>int\<close>, or a \<open>nat\<close> where it counts or indexes.
    A finite \<open>float\<close> is a rational number: rounding errors of binary floating point are
    outside the model, the special values are constructors of their own.
  \<^item> A JSON document, which is what \<open>json.loads\<close> returns and what a JSONB column holds, is a
    value of the type \<open>json\<close>; an object is an association list in insertion order.
  \<^item> A raised exception is the left value of a sum.  The collection \<open>try_simps\<close> evaluates
    the sequencing of steps that may raise, \<open>str_simps\<close> the string functions.
\<close>

named_theorems try_simps "sequencing of computations that may raise"
named_theorems str_simps "Python string functions"

section \<open>Steps that may raise\<close>

text \<open>The sequencing \<open>x = m; k(x)\<close> where \<open>m\<close> may raise.\<close>

definition try_bind :: "'e + 'a \<Rightarrow> ('a \<Rightarrow> 'e + 'b) \<Rightarrow> 'e + 'b" where
  "try_bind m k = (case m of Inl e \<Rightarrow> Inl e | Inr x \<Rightarrow> k x)"

lemma try_bind_Inl [simp, try_simps]: "try_bind (Inl e) k = Inl e"
  by (simp add: try_bind_def)

lemma try_bind_Inr [simp, try_simps]: "try_bind (Inr x) k = k x"
  by (simp add: try_bind_def)

lemma try_bind_eq_Inr:
  "try_bind m k = Inr y \<longleftrightarrow> (\<exists>x. m = Inr x \<and> k x = Inr y)"
  by (cases m) simp_all

lemma try_bind_eq_Inl:
  "try_bind m k = Inl e \<longleftrightarrow> m = Inl e \<or> (\<exists>x. m = Inr x \<and> k x = Inl e)"
  by (cases m) auto

lemma try_bind_cong [fundef_cong]:
  "m = m' \<Longrightarrow> (\<And>x. m' = Inr x \<Longrightarrow> k x = k' x) \<Longrightarrow> try_bind m k = try_bind m' k'"
  by (cases m') simp_all

text \<open>A list comprehension whose element expression may raise: the first exception wins.\<close>

fun try_map :: "('a \<Rightarrow> 'e + 'b) \<Rightarrow> 'a list \<Rightarrow> 'e + 'b list" where
  "try_map f [] = Inr []"
| "try_map f (x # xs) =
     try_bind (f x) (\<lambda>y. try_bind (try_map f xs) (\<lambda>ys. Inr (y # ys)))"

lemma try_map_length: "try_map f xs = Inr ys \<Longrightarrow> length ys = length xs"
  by (induction xs arbitrary: ys) (auto simp: try_bind_eq_Inr)

lemma try_map_total: "(\<And>x. x \<in> set xs \<Longrightarrow> f x = Inr (g x)) \<Longrightarrow> try_map f xs = Inr (map g xs)"
  by (induction xs) auto

section \<open>Characters\<close>

definition code :: "char \<Rightarrow> nat" where
  "code c = of_char c"

definition is_space :: "char \<Rightarrow> bool" where
  "is_space c =
     (let n = code c in (9 \<le> n \<and> n \<le> 13) \<or> (28 \<le> n \<and> n \<le> 32) \<or> n = 133 \<or> n = 160)"

definition is_digit :: "char \<Rightarrow> bool" where
  "is_digit c = (48 \<le> code c \<and> code c \<le> 57)"

definition digit_val :: "char \<Rightarrow> nat" where
  "digit_val c = code c - 48"

definition is_ascii_alpha :: "char \<Rightarrow> bool" where
  "is_ascii_alpha c =
     ((65 \<le> code c \<and> code c \<le> 90) \<or> (97 \<le> code c \<and> code c \<le> 122))"

text \<open>\<open>\w\<close>: letters, digits, numerics and the underscore of the Latin-1 range.\<close>

definition is_word :: "char \<Rightarrow> bool" where
  "is_word c =
     (let n = code c in
       is_ascii_alpha c \<or> is_digit c \<or> n = 95 \<or> n = 170 \<or> n = 178 \<or> n = 179 \<or> n = 181 \<or>
       n = 185 \<or> n = 186 \<or> (188 \<le> n \<and> n \<le> 190) \<or>
       (192 \<le> n \<and> n \<noteq> 215 \<and> n \<noteq> 247))"

definition lower_char :: "char \<Rightarrow> char" where
  "lower_char c =
     (let n = code c in
       if (65 \<le> n \<and> n \<le> 90) \<or> (192 \<le> n \<and> n \<le> 222 \<and> n \<noteq> 215)
       then char_of (n + 32) else c)"

lemma code_less: "code c < 256"
  by (simp add: code_def)

lemma code_char_of: "n < 256 \<Longrightarrow> code (char_of n) = n"
  by (simp add: code_def)

lemma code_lower_char:
  "code (lower_char c) =
     (if (65 \<le> code c \<and> code c \<le> 90) \<or> (192 \<le> code c \<and> code c \<le> 222 \<and> code c \<noteq> 215)
      then code c + 32 else code c)"
  using code_less [of c] by (auto simp: lower_char_def Let_def code_char_of)

lemma lower_char_idem [simp]: "lower_char (lower_char c) = lower_char c"
  by (auto simp: lower_char_def [of "lower_char c"] Let_def code_lower_char)

lemma is_space_lower [simp]: "is_space (lower_char c) = is_space c"
  by (auto simp: is_space_def Let_def code_lower_char)

section \<open>Strings\<close>

definition lower :: "string \<Rightarrow> string" where
  "lower s = map lower_char s"

definition startswith :: "'a list \<Rightarrow> 'a list \<Rightarrow> bool" where
  "startswith p s = (take (length p) s = p)"

definition endswith :: "'a list \<Rightarrow> 'a list \<Rightarrow> bool" where
  "endswith p s = startswith (rev p) (rev s)"

text \<open>\<open>s.lstrip(chars)\<close> and its kin, for the set of characters that satisfy \<open>P\<close>.\<close>

definition lstrip_of :: "('a \<Rightarrow> bool) \<Rightarrow> 'a list \<Rightarrow> 'a list" where
  "lstrip_of P s = dropWhile P s"

definition rstrip_of :: "('a \<Rightarrow> bool) \<Rightarrow> 'a list \<Rightarrow> 'a list" where
  "rstrip_of P s = rev (dropWhile P (rev s))"

definition strip_of :: "('a \<Rightarrow> bool) \<Rightarrow> 'a list \<Rightarrow> 'a list" where
  "strip_of P s = rstrip_of P (lstrip_of P s)"

definition strip :: "string \<Rightarrow> string" where
  "strip s = strip_of is_space s"

text \<open>\<open>s.find(p)\<close>: the index of the first occurrence, \<open>None\<close> for \<open>-1\<close>.\<close>

fun find_sub :: "'a list \<Rightarrow> 'a list \<Rightarrow> nat option" where
  "find_sub p [] = (if p = [] then Some 0 else None)"
| "find_sub p (c # s) =
     (if startswith p (c # s) then Some 0 else map_option Suc (find_sub p s))"

definition contains :: "'a list \<Rightarrow> 'a list \<Rightarrow> bool" where
  "contains p s = (find_sub p s \<noteq> None)"

text \<open>\<open>s.find(p, start)\<close> for a start inside the string.\<close>

definition find_from :: "'a list \<Rightarrow> 'a list \<Rightarrow> nat \<Rightarrow> nat option" where
  "find_from p s start =
     (if start \<le> length s then map_option (\<lambda>i. start + i) (find_sub p (drop start s)) else None)"

text \<open>\<open>s.rfind(c)\<close> for one character.\<close>

fun rfind_char :: "'a \<Rightarrow> 'a list \<Rightarrow> nat option" where
  "rfind_char c [] = None"
| "rfind_char c (d # s) =
     (case rfind_char c s of
        Some i \<Rightarrow> Some (Suc i)
      | None \<Rightarrow> if d = c then Some 0 else None)"

text \<open>\<open>s.rsplit(c, 1)\<close> as a pair: \<open>[0]\<close> and \<open>[-1]\<close> of the result.\<close>

definition rsplit_head :: "'a \<Rightarrow> 'a list \<Rightarrow> 'a list" where
  "rsplit_head c s = (case rfind_char c s of None \<Rightarrow> s | Some i \<Rightarrow> take i s)"

definition rsplit_last :: "'a \<Rightarrow> 'a list \<Rightarrow> 'a list" where
  "rsplit_last c s = (case rfind_char c s of None \<Rightarrow> s | Some i \<Rightarrow> drop (Suc i) s)"

definition replace_char :: "char \<Rightarrow> string \<Rightarrow> string \<Rightarrow> string" where
  "replace_char c r s = concat (map (\<lambda>d. if d = c then r else [d]) s)"

fun join :: "'a list \<Rightarrow> 'a list list \<Rightarrow> 'a list" where
  "join sep [] = []"
| "join sep [x] = x"
| "join sep (x # y # xs) = x @ sep @ join sep (y # xs)"

fun nat_str :: "nat \<Rightarrow> string" where
  "nat_str n =
     (if n < 10 then [char_of (48 + n)] else nat_str (n div 10) @ [char_of (48 + n mod 10)])"

declare nat_str.simps [simp del]

definition int_str :: "int \<Rightarrow> string" where
  "int_str i = (if i < 0 then ''-'' @ nat_str (nat (- i)) else nat_str (nat i))"

text \<open>\<open>xs[-k:]\<close>: for \<open>k = 0\<close> this is \<open>xs[0:]\<close>, the whole list.\<close>

definition slice_last :: "nat \<Rightarrow> 'a list \<Rightarrow> 'a list" where
  "slice_last k xs = (if k = 0 then xs else drop (length xs - k) xs)"

text \<open>An optional string in a boolean position: \<open>None\<close> and \<open>""\<close> are false.\<close>

definition str_true :: "string option \<Rightarrow> bool" where
  "str_true x = (case x of None \<Rightarrow> False | Some s \<Rightarrow> s \<noteq> [])"

text \<open>\<open>x or None\<close>, for a string \<open>x\<close>.\<close>

definition or_none :: "string \<Rightarrow> string option" where
  "or_none s = (if s = [] then None else Some s)"

definition nl :: string where
  "nl = [CHR 0x0A]"

definition nl2 :: string where
  "nl2 = [CHR 0x0A, CHR 0x0A]"

subsection \<open>Lemmas on strings\<close>

lemma lower_Nil [simp]: "lower [] = []"
  by (simp add: lower_def)

lemma length_lower [simp]: "length (lower s) = length s"
  by (simp add: lower_def)

lemma lower_idem [simp]: "lower (lower s) = lower s"
  by (simp add: lower_def)

lemma startswith_iff: "startswith p s \<longleftrightarrow> (\<exists>t. s = p @ t)"
  by (metis append_eq_conv_conj startswith_def)

lemma find_sub_Some:
  "find_sub p s = Some i \<Longrightarrow> \<exists>t. s = take i s @ p @ t \<and> i \<le> length s"
proof (induction s arbitrary: i)
  case Nil
  then show ?case by (simp split: if_splits)
next
  case (Cons c s)
  show ?case
  proof (cases "startswith p (c # s)")
    case True
    with Cons.prems have "i = 0" by simp
    with True show ?thesis by (simp add: startswith_iff)
  next
    case False
    with Cons.prems obtain j where j: "find_sub p s = Some j" "i = Suc j" by auto
    then show ?thesis using Cons.IH [OF j(1)] by auto
  qed
qed

lemma find_sub_char:
  assumes "find_sub [c] s = Some i"
  shows "s = take i s @ c # drop (Suc i) s"
proof -
  from find_sub_Some [OF assms] obtain t where t: "s = take i s @ [c] @ t" by blast
  then have "drop i s = c # t" by (metis append_Cons append_Nil append_take_drop_id same_append_eq)
  then have "drop (Suc i) s = t" by (metis drop_Suc list.sel(3) tl_drop)
  with t show ?thesis by simp
qed

lemma find_sub_append: "find_sub p (u @ p @ t) \<noteq> None"
proof (induction u)
  case Nil
  have "startswith p (p @ t)" by (auto simp: startswith_iff)
  then show ?case by (cases "p @ t") auto
next
  case (Cons a u)
  then show ?case by auto
qed

lemma contains_iff: "contains p s \<longleftrightarrow> (\<exists>u t. s = u @ p @ t)"
  by (metis contains_def find_sub_Some find_sub_append not_None_eq)

lemma rfind_char_None: "rfind_char c s = None \<longleftrightarrow> c \<notin> set s"
  by (induction s) (auto split: option.splits)

lemma rfind_char_Some:
  "rfind_char c s = Some i \<Longrightarrow> i < length s \<and> s ! i = c \<and> c \<notin> set (drop (Suc i) s)"
  by (induction s arbitrary: i) (auto split: option.splits if_splits simp: rfind_char_None)

lemma rsplit_last_no_sep: "c \<notin> set (rsplit_last c s)"
  by (auto simp: rsplit_last_def rfind_char_None dest: rfind_char_Some split: option.split)

lemma set_strip_of: "set (strip_of P s) \<subseteq> set s"
proof
  fix x
  assume "x \<in> set (strip_of P s)"
  then have "x \<in> set (dropWhile P (rev (dropWhile P s)))"
    by (simp add: strip_of_def rstrip_of_def lstrip_of_def)
  then have "x \<in> set (rev (dropWhile P s))" by (metis set_dropWhileD)
  then have "x \<in> set (dropWhile P s)" by simp
  then show "x \<in> set s" by (metis set_dropWhileD)
qed

lemma set_strip: "set (strip s) \<subseteq> set s"
  by (simp add: strip_def set_strip_of)

lemma strip_of_ends:
  "strip_of P s \<noteq> [] \<Longrightarrow> \<not> P (hd (strip_of P s)) \<and> \<not> P (last (strip_of P s))"
proof -
  assume ne: "strip_of P s \<noteq> []"
  let ?t = "dropWhile P s"
  have "?t \<noteq> []"
    using ne by (metis dropWhile.simps(1) lstrip_of_def rev.simps(1) rstrip_of_def strip_of_def)
  then have hd: "\<not> P (hd ?t)" by (rule hd_dropWhile)
  have r: "dropWhile P (rev ?t) \<noteq> []"
    using ne by (metis lstrip_of_def rev.simps(1) rstrip_of_def strip_of_def)
  obtain u where u: "rev ?t = u @ dropWhile P (rev ?t)"
    by (metis takeWhile_dropWhile_id)
  then have "?t = strip_of P s @ rev u"
    by (metis lstrip_of_def rev_append rev_rev_ident rstrip_of_def strip_of_def)
  then have "hd ?t = hd (strip_of P s)" using ne by (metis hd_append2)
  with hd have a: "\<not> P (hd (strip_of P s))" by simp
  have "last (strip_of P s) = hd (dropWhile P (rev ?t))"
    using r by (simp add: strip_of_def rstrip_of_def lstrip_of_def last_rev)
  with hd_dropWhile [OF r] a show ?thesis by simp
qed

lemma strip_of_id:
  "s \<noteq> [] \<Longrightarrow> \<not> P (hd s) \<Longrightarrow> \<not> P (last s) \<Longrightarrow> strip_of P s = s"
proof -
  assume s: "s \<noteq> []" "\<not> P (hd s)" "\<not> P (last s)"
  have "dropWhile P s = s" using s(1,2) by (cases s) auto
  moreover have "dropWhile P (rev s) = rev s" using s(1,3) by (cases s rule: rev_cases) auto
  ultimately show ?thesis by (simp add: strip_of_def rstrip_of_def lstrip_of_def)
qed

lemma strip_of_Nil [simp]: "strip_of P [] = []"
  by (simp add: strip_of_def rstrip_of_def lstrip_of_def)

lemma strip_of_idem [simp]: "strip_of P (strip_of P s) = strip_of P s"
proof (cases "strip_of P s = []")
  case True
  then show ?thesis by (simp only: strip_of_Nil)
next
  case False
  then show ?thesis using strip_of_ends [OF False] by (simp add: strip_of_id)
qed

lemma strip_idem [simp]: "strip (strip s) = strip s"
  by (simp add: strip_def)

lemma strip_Nil [simp]: "strip [] = []"
  by (simp add: strip_def strip_of_def rstrip_of_def lstrip_of_def)

lemma length_strip: "length (strip s) \<le> length s"
  using length_dropWhile_le [of is_space "rev (dropWhile is_space s)"]
    length_dropWhile_le [of is_space s]
  by (simp add: strip_def strip_of_def rstrip_of_def lstrip_of_def)

lemma length_slice_last: "k > 0 \<Longrightarrow> length (slice_last k xs) \<le> k"
  by (simp add: slice_last_def)

lemma or_none_eq_Some [simp]: "or_none s = Some t \<longleftrightarrow> s = t \<and> t \<noteq> []"
  by (auto simp: or_none_def)

lemma str_true_simps [simp]:
  "\<not> str_true None" "str_true (Some s) \<longleftrightarrow> s \<noteq> []"
  by (simp_all add: str_true_def)

lemma join_append:
  "xs \<noteq> [] \<Longrightarrow> ys \<noteq> [] \<Longrightarrow> join sep (xs @ ys) = join sep xs @ sep @ join sep ys"
proof (induction sep xs rule: join.induct)
  case (2 sep x)
  then obtain y ys' where "ys = y # ys'" by (cases ys) auto
  then show ?case by simp
qed auto

lemma join_Cons: "xs \<noteq> [] \<Longrightarrow> join sep (x # xs) = x @ sep @ join sep xs"
  by (cases xs) auto

lemma nat_str_digits: "\<forall>c \<in> set (nat_str n). is_digit c"
proof (induction n rule: nat_str.induct)
  case (1 n)
  have d: "is_digit (char_of (48 + m :: nat))" if "m < 10" for m :: nat
    using that by (simp add: is_digit_def code_char_of)
  show ?case
  proof (cases "n < 10")
    case True
    then show ?thesis by (subst nat_str.simps) (simp add: d)
  next
    case False
    with 1 show ?thesis by (subst nat_str.simps) (auto simp: d)
  qed
qed

lemma nat_str_nonempty [simp]: "nat_str n \<noteq> []"
  by (subst nat_str.simps) simp

section \<open>Rounding\<close>

text \<open>\<open>round(x, n)\<close>: the nearest multiple of \<open>10^-n\<close>, halves to the even neighbour.\<close>

definition round_int :: "rat \<Rightarrow> int" where
  "round_int x =
     (let f = \<lfloor>x\<rfloor>; d = x - of_int f in
       if d < 1/2 then f else if d > 1/2 then f + 1 else if even f then f else f + 1)"

definition py_round :: "rat \<Rightarrow> nat \<Rightarrow> rat" where
  "py_round x n = of_int (round_int (x * 10 ^ n)) / 10 ^ n"

lemma round_int_near: "\<bar>of_int (round_int x) - x\<bar> \<le> 1/2"
proof -
  have "of_int \<lfloor>x\<rfloor> \<le> x" "x < of_int \<lfloor>x\<rfloor> + 1" by linarith+
  then show ?thesis by (auto simp: round_int_def Let_def abs_le_iff)
qed

lemma round_int_of_int [simp]: "round_int (of_int k) = k"
  by (simp add: round_int_def)

lemma round_int_mono_bounds: "of_int lo \<le> x \<Longrightarrow> x \<le> of_int hi \<Longrightarrow> lo \<le> round_int x \<and> round_int x \<le> hi"
proof -
  assume b: "of_int lo \<le> x" "x \<le> of_int hi"
  have lo: "lo \<le> \<lfloor>x\<rfloor>" using b(1) by (simp add: le_floor_iff)
  have hi: "\<lfloor>x\<rfloor> \<le> hi" using b(2) floor_mono [OF b(2)] by simp
  have "\<lfloor>x\<rfloor> + 1 \<le> hi" if "x \<noteq> of_int \<lfloor>x\<rfloor>"
    using that b(2) by (smt (verit, best) floor_less_iff floor_of_int hi less_le not_less of_int_floor_le)
  then show ?thesis using lo hi
    by (cases "x = of_int \<lfloor>x\<rfloor>") (auto simp: round_int_def Let_def)
qed

lemma round_int_nonneg: "0 \<le> x \<Longrightarrow> 0 \<le> round_int x"
proof -
  assume "0 \<le> x"
  then have "0 \<le> \<lfloor>x\<rfloor>" by simp
  then show ?thesis by (simp add: round_int_def Let_def)
qed

lemma round_int_mono: "x \<le> y \<Longrightarrow> round_int x \<le> round_int y"
proof -
  assume le: "x \<le> y"
  show ?thesis
  proof (cases "\<lfloor>x\<rfloor> = \<lfloor>y\<rfloor>")
    case True
    then show ?thesis using le by (auto simp: round_int_def Let_def)
  next
    case False
    then have "\<lfloor>x\<rfloor> + 1 \<le> \<lfloor>y\<rfloor>" using floor_mono [OF le] by linarith
    moreover have "round_int x \<le> \<lfloor>x\<rfloor> + 1" "\<lfloor>y\<rfloor> \<le> round_int y" by (auto simp: round_int_def Let_def)
    ultimately show ?thesis by linarith
  qed
qed

lemma py_round_mono: "x \<le> y \<Longrightarrow> py_round x n \<le> py_round y n"
  by (simp add: py_round_def divide_right_mono round_int_mono mult_right_mono)

section \<open>Lookup by key\<close>

lemma find_by_key: "distinct (map f xs) \<Longrightarrow> x \<in> set xs \<Longrightarrow> find (\<lambda>y. f y = f x) xs = Some x"
  by (induction xs) auto

end
