(* ===== verification/Rx.thy ===== *)
theory Rx
  imports PyPrelude
begin

text \<open>
  Regular expressions, for the patterns the code hands to Python's \<open>re\<close> module.  A position
  in a text is the character before it (if any) and the text from it on.  \<open>rx_match\<close> says
  declaratively which positions a match can lead to; \<open>rx_ends\<close> computes them, and
  \<open>rx_search\<close>, \<open>rx_fullmatch\<close> are the two ways the code asks for a match.  The order
  in which a backtracking matcher tries the alternatives does not matter for the question
  whether there is a match at all, which is all these patterns are used for.
\<close>

datatype rx =
    REps
  | RRep "char \<Rightarrow> bool" nat "nat option"
  | RSeq rx rx
  | RAlt rx rx
  | RBnd
  | REnd

type_synonym pos = "char option \<times> string"

section \<open>Semantics\<close>

definition wordish :: "char option \<Rightarrow> bool" where
  "wordish x = (case x of None \<Rightarrow> False | Some c \<Rightarrow> is_word c)"

definition before :: "string \<Rightarrow> char option" where
  "before s = (case s of [] \<Rightarrow> None | c # _ \<Rightarrow> Some c)"

text \<open>\<open>\b\<close>: exactly one side is a word character.\<close>

definition at_boundary :: "pos \<Rightarrow> bool" where
  "at_boundary p = (wordish (fst p) \<noteq> wordish (before (snd p)))"

text \<open>\<open>$\<close>: the end, or just before a final line break.\<close>

definition at_end :: "pos \<Rightarrow> bool" where
  "at_end p = (snd p = [] \<or> snd p = nl)"

text \<open>\<open>step_over w p q\<close>: reading the text \<open>w\<close> leads from \<open>p\<close> to \<open>q\<close>.\<close>

definition step_over :: "string \<Rightarrow> pos \<Rightarrow> pos \<Rightarrow> bool" where
  "step_over w p q \<longleftrightarrow>
     snd p = w @ snd q \<and> fst q = (if w = [] then fst p else Some (last w))"

inductive rx_match :: "rx \<Rightarrow> pos \<Rightarrow> pos \<Rightarrow> bool" where
  eps: "rx_match REps p p"
| rep: "step_over w p q \<Longrightarrow> list_all C w \<Longrightarrow> lo \<le> length w \<Longrightarrow>
     (case hi of None \<Rightarrow> True | Some h \<Rightarrow> length w \<le> h) \<Longrightarrow> rx_match (RRep C lo hi) p q"
| seq: "rx_match r p q \<Longrightarrow> rx_match s q t \<Longrightarrow> rx_match (RSeq r s) p t"
| altl: "rx_match r p q \<Longrightarrow> rx_match (RAlt r s) p q"
| altr: "rx_match s p q \<Longrightarrow> rx_match (RAlt r s) p q"
| bnd: "at_boundary p \<Longrightarrow> rx_match RBnd p p"
| end_of: "at_end p \<Longrightarrow> rx_match REnd p p"

inductive_simps rx_match_simps:
  "rx_match REps p q" "rx_match (RRep C lo hi) p q" "rx_match (RSeq r s) p q"
  "rx_match (RAlt r s) p q" "rx_match RBnd p q" "rx_match REnd p q"

section \<open>The matcher\<close>

text \<open>\<open>rep_ends C lo hi p\<close>: every position after \<open>lo\<close> to \<open>hi\<close> characters of \<open>C\<close>.\<close>

fun rep_ends :: "(char \<Rightarrow> bool) \<Rightarrow> nat \<Rightarrow> nat option \<Rightarrow> char option \<Rightarrow> string \<Rightarrow> pos list" where
  "rep_ends C lo hi b [] = (if lo = 0 then [(b, [])] else [])"
| "rep_ends C lo hi b (c # s) =
     (if lo = 0 then [(b, c # s)] else []) @
     (if C c \<and> hi \<noteq> Some 0
      then rep_ends C (lo - Suc 0) (map_option (\<lambda>h. h - Suc 0) hi) (Some c) s else [])"

fun rx_ends :: "rx \<Rightarrow> pos \<Rightarrow> pos list" where
  "rx_ends REps p = [p]"
| "rx_ends (RRep C lo hi) p = rep_ends C lo hi (fst p) (snd p)"
| "rx_ends (RSeq r s) p = concat (map (rx_ends s) (rx_ends r p))"
| "rx_ends (RAlt r s) p = rx_ends r p @ rx_ends s p"
| "rx_ends RBnd p = (if at_boundary p then [p] else [])"
| "rx_ends REnd p = (if at_end p then [p] else [])"

text \<open>\<open>rx.search(s)\<close>, from the position \<open>(b, s)\<close> on.\<close>

fun rx_search_from :: "rx \<Rightarrow> char option \<Rightarrow> string \<Rightarrow> bool" where
  "rx_search_from r b [] = (rx_ends r (b, []) \<noteq> [])"
| "rx_search_from r b (c # s) =
     (rx_ends r (b, c # s) \<noteq> [] \<or> rx_search_from r (Some c) s)"

definition rx_search :: "rx \<Rightarrow> string \<Rightarrow> bool" where
  "rx_search r s = rx_search_from r None s"

text \<open>\<open>rx.match(s)\<close> and \<open>rx.fullmatch(s)\<close>.\<close>

definition rx_matches :: "rx \<Rightarrow> string \<Rightarrow> bool" where
  "rx_matches r s = (rx_ends r (None, s) \<noteq> [])"

definition rx_fullmatch :: "rx \<Rightarrow> string \<Rightarrow> bool" where
  "rx_fullmatch r s = (\<exists>p \<in> set (rx_ends r (None, s)). snd p = [])"

section \<open>Correctness of the matcher\<close>

lemma step_over_Nil [simp]: "step_over [] p q \<longleftrightarrow> q = p"
  by (cases p; cases q) (auto simp: step_over_def)

lemma step_over_Cons:
  "step_over (c # w) (b, s) q \<longleftrightarrow> (\<exists>t. s = c # t \<and> step_over w (Some c, t) q)"
  by (cases q) (auto simp: step_over_def)

lemma rep_ends_iff:
  "q \<in> set (rep_ends C lo hi b s) \<longleftrightarrow>
     (\<exists>w. step_over w (b, s) q \<and> list_all C w \<and> lo \<le> length w \<and>
          (case hi of None \<Rightarrow> True | Some h \<Rightarrow> length w \<le> h))"
proof (induction C lo hi b s rule: rep_ends.induct)
  case (1 C lo hi b)
  show ?case (is "?L \<longleftrightarrow> (\<exists>w. ?R w)")
  proof
    assume "?L"
    then have "?R []" by (auto split: if_splits option.split)
    then show "\<exists>w. ?R w" ..
  next
    assume "\<exists>w. ?R w"
    then obtain w where w: "?R w" ..
    then have "w = []" by (cases w) (auto simp: step_over_Cons)
    with w show "?L" by simp
  qed
next
  case (2 C lo hi b c s)
  have shift: "(lo - Suc 0 \<le> length w \<and>
        (case map_option (\<lambda>h. h - Suc 0) hi of None \<Rightarrow> True | Some h \<Rightarrow> length w \<le> h)) \<longleftrightarrow>
      (lo \<le> Suc (length w) \<and> (case hi of None \<Rightarrow> True | Some h \<Rightarrow> Suc (length w) \<le> h))"
    if "hi \<noteq> Some 0" for w :: string
    using that by (cases hi) auto
  have split: "(\<exists>w. P w) \<longleftrightarrow> P [] \<or> (\<exists>d w. P (d # w))" for P :: "string \<Rightarrow> bool"
    by (metis list.exhaust)
  show ?case
  proof (cases "C c \<and> hi \<noteq> Some 0")
    case True
    have "q \<in> set (rep_ends C (lo - Suc 0) (map_option (\<lambda>h. h - Suc 0) hi) (Some c) s) \<longleftrightarrow>
      (\<exists>w. step_over w (Some c, s) q \<and> list_all C w \<and> lo \<le> Suc (length w) \<and>
        (case hi of None \<Rightarrow> True | Some h \<Rightarrow> Suc (length w) \<le> h))"
      by (simp only: 2 [OF True] shift [OF conjunct2 [OF True]])
    with True show ?thesis
      by (subst split) (auto simp: step_over_Cons split: option.split)
  next
    case False
    then show ?thesis
      by (subst split) (auto simp: step_over_Cons split: option.splits)
  qed
qed

theorem rx_ends_iff: "q \<in> set (rx_ends r p) \<longleftrightarrow> rx_match r p q"
proof (induction r arbitrary: p q)
  case (RRep C lo hi)
  show ?case using rep_ends_iff [of q C lo hi "fst p" "snd p"] by (simp add: rx_match_simps)
next
  case (RSeq r s)
  show ?case by (simp add: rx_match_simps Bex_def RSeq.IH)
qed (simp_all add: rx_match_simps)

lemma rx_ends_nonempty: "rx_ends r p \<noteq> [] \<longleftrightarrow> (\<exists>q. rx_match r p q)"
  using rx_ends_iff [of _ r p] by (metis ex_in_conv set_empty)

text \<open>A search succeeds iff the pattern matches at some position of the text.\<close>

definition rx_occurs :: "rx \<Rightarrow> string \<Rightarrow> bool" where
  "rx_occurs r s \<longleftrightarrow> (\<exists>u p q. step_over u (None, s) p \<and> rx_match r p q)"

lemma rx_search_from_iff:
  "rx_search_from r b s \<longleftrightarrow> (\<exists>u p q. step_over u (b, s) p \<and> rx_match r p q)"
proof (induction r b s rule: rx_search_from.induct)
  case (1 r b)
  have "step_over u (b, []) p \<longleftrightarrow> u = [] \<and> p = (b, [])" for u p
    by (cases u) (auto simp: step_over_Cons)
  then show ?case by (simp add: rx_ends_nonempty)
next
  case (2 r b c s)
  have split: "(\<exists>w. P w) \<longleftrightarrow> P [] \<or> (\<exists>d w. P (d # w))" for P :: "string \<Rightarrow> bool"
    by (metis list.exhaust)
  show ?case
    by (subst split) (auto simp: rx_ends_nonempty 2 step_over_Cons)
qed

theorem rx_search_iff: "rx_search r s \<longleftrightarrow> rx_occurs r s"
  by (simp add: rx_search_def rx_occurs_def rx_search_from_iff)

lemma rx_matches_iff: "rx_matches r s \<longleftrightarrow> (\<exists>q. rx_match r (None, s) q)"
  by (simp add: rx_matches_def rx_ends_nonempty)

section \<open>Building patterns\<close>

text \<open>A literal character and a literal word, compared without case.\<close>

definition rchr :: "char \<Rightarrow> rx" where
  "rchr c = RRep (\<lambda>d. lower_char d = lower_char c) 1 (Some 1)"

fun rword :: "string \<Rightarrow> rx" where
  "rword [] = REps"
| "rword [c] = rchr c"
| "rword (c # d # s) = RSeq (rchr c) (rword (d # s))"

fun rseq :: "rx list \<Rightarrow> rx" where
  "rseq [] = REps"
| "rseq [r] = r"
| "rseq (r # s # rs) = RSeq r (rseq (s # rs))"

text \<open>An alternation; the empty one matches nothing.\<close>

fun ralt :: "rx list \<Rightarrow> rx" where
  "ralt [] = RRep (\<lambda>c. False) 1 None"
| "ralt [r] = r"
| "ralt (r # s # rs) = RAlt r (ralt (s # rs))"

definition rwords :: "string list \<Rightarrow> rx" where
  "rwords ws = ralt (map rword ws)"

definition ropt :: "rx \<Rightarrow> rx" where
  "ropt r = RAlt r REps"

text \<open>\<open>\s+\<close>, \<open>\s*\<close>, and \<open>.\<close> repeated up to \<open>n\<close> times.\<close>

definition rsp :: rx where
  "rsp = RRep is_space 1 None"

definition rsp0 :: rx where
  "rsp0 = RRep is_space 0 None"

definition rdot_upto :: "nat \<Rightarrow> rx" where
  "rdot_upto n = RRep (\<lambda>c. code c \<noteq> 10) 0 (Some n)"

lemmas rx_build = rchr_def rwords_def ropt_def rsp_def rsp0_def rdot_upto_def

end
