(* ===== verification/GatewayGuard.thy ===== *)
theory GatewayGuard
  imports Rx
begin

text \<open>
  The jailbreak guard (\<open>packages/core/src/faastlab_askai_core/gateway/guard.py\<close>): the pattern
  table, translated pattern by pattern into regular expressions, and the rule-based screen.
  The interface \<open>JailbreakGuard\<close>, behind which a model-based guard can be dropped in, is the
  locale \<open>guard_protocol\<close>.
\<close>

record guard_result =
  flagged :: bool
  reason :: string
  score :: rat

section \<open>The pattern table\<close>

definition rplural :: "string \<Rightarrow> rx" where
  "rplural w = RSeq (rword w) (ropt (rchr (CHR ''s'')))"

text \<open>\<open>(?:w1\s+|w2\s+ ...)?\<close>\<close>

definition ropt_words :: "string list \<Rightarrow> rx" where
  "ropt_words ws = ropt (ralt (map (\<lambda>w. RSeq (rword w) rsp) ws))"

definition sys_prompt_words :: "rx list" where
  "sys_prompt_words =
     [rseq [rword ''system'', rsp, rword ''prompt''],
      rseq [rword ''initial'', rsp, rplural ''instruction''],
      rseq [rword ''original'', rsp, rplural ''instruction'']]"

definition PATTERNS :: "(rx \<times> string) list" where
  "PATTERNS =
   [(rseq [RBnd, rword ''ignore'', rsp, ropt_words [''all'', ''any''], ropt_words [''the''],
       rwords [''previous'', ''prior'', ''above'', ''earlier'', ''preceding''], rsp,
       ralt (map rplural [''instruction'', ''prompt'', ''rule'', ''message''] @ [rword ''context'']),
       RBnd],
     ''instruction-override''),
    (rseq [RBnd, rword ''disregard'', rsp, ropt_words [''all'', ''the'', ''any''],
       rwords [''previous'', ''prior'', ''above'', ''earlier'', ''your''], rsp,
       ralt (map rplural [''instruction'', ''rule'', ''guideline'']), RBnd],
     ''instruction-override''),
    (rseq [RBnd, rword ''forget'', rsp, rwords [''everything'', ''all'', ''your'', ''the''], rsp,
       ralt (map rplural [''instruction'', ''rule''] @ map rword [''previous'', ''prior'']), RBnd],
     ''instruction-override''),
    (rseq [RBnd, rwords [''reveal'', ''show'', ''print'', ''repeat'', ''output'', ''tell me''], rsp,
       ropt_words [''me''], ropt_words [''your'', ''the''],
       ralt (sys_prompt_words @ [rseq [rword ''the'', rsp, rword ''prompt above'']]), RBnd],
     ''system-prompt-exfiltration''),
    (rseq [RBnd, rword ''what'', rsp, rwords [''is'', ''are'', ''were''], rsp, rword ''your'', rsp,
       ralt sys_prompt_words, RBnd],
     ''system-prompt-exfiltration''),
    (rseq [RBnd,
       ralt [rseq [rword ''you'', rsp, rword ''are'', rsp, rword ''now''],
             rseq [rword ''act'', rsp, rword ''as''],
             rseq [rword ''pretend'', rsp,
               ralt [rseq [rword ''you'', rsp, rword ''are''],
                     rseq [rword ''to'', rsp, rword ''be'']]],
             rseq [rword ''roleplay'', rsp, rword ''as'']],
       RBnd, rdot_upto 40, RBnd,
       ralt [rword ''DAN'', rword ''unrestricted'', rword ''jailbroken'',
             rseq [rword ''no'', rsp, rplural ''restriction''], rword ''amoral'', rword ''evil'',
             rword ''uncensored''],
       RBnd],
     ''persona-jailbreak''),
    (rseq [RBnd,
       ralt [rseq [rword ''developer'', rsp, rword ''mode''],
             rseq [rword ''do'', rsp, rword ''anything'', rsp, rword ''now''],
             rseq [rword ''DAN'', rsp, rword ''mode''],
             RSeq (rword ''jailbreak'') (ropt (rwords [''ing'', ''en'']))],
       RBnd],
     ''persona-jailbreak''),
    (rseq [RBnd,
       ralt [rword ''bypass'', rword ''ignore'', rword ''disable'',
             rseq [rword ''turn'', rsp, rword ''off''], rword ''override''],
       rsp, ropt_words [''your'', ''the'', ''any'', ''all''],
       ralt [rword ''safety'', rplural ''guideline'', rplural ''restriction'', rplural ''filter'',
             rplural ''guardrail'',
             rseq [rword ''content'', rsp, rword ''polic'', rwords [''y'', ''ies'']],
             rplural ''rule''],
       RBnd],
     ''safety-bypass''),
    (rseq [RBnd, ralt [rword ''without'', rseq [rword ''with'', rsp, rword ''no'']], rsp,
       ropt_words [''any''],
       ralt [rplural ''restriction'', rplural ''filter'', rplural ''rule'', rplural ''ethic'',
             rplural ''guideline'', rword ''censorship''],
       RBnd],
     ''safety-bypass''),
    (rseq [RBnd, rword ''act'', rsp, rword ''as'', rsp,
       ropt (rseq [rword ''if'', rsp, rword ''you'', rsp, rwords [''have'', ''had''], rsp]),
       rword ''no'', rsp,
       ralt (map rplural [''restriction'', ''rule'', ''guideline'', ''filter'']), RBnd],
     ''safety-bypass'')]"

section \<open>The screen\<close>

text \<open>\<open>for h in hits: if h not in seen: seen.append(h)\<close>\<close>

fun uniq_from :: "'a list \<Rightarrow> 'a list \<Rightarrow> 'a list" where
  "uniq_from seen [] = seen"
| "uniq_from seen (h # hs) = uniq_from (if h \<in> set seen then seen else seen @ [h]) hs"

definition not_flagged :: guard_result where
  "not_flagged = \<lparr> flagged = False, reason = [], score = 0 \<rparr>"

definition screen :: "string \<Rightarrow> guard_result" where
  "screen text' =
     (if text' = [] \<or> strip text' = [] then not_flagged
      else
        let hits = map snd (filter (\<lambda>(rx, label). rx_search rx text') PATTERNS) in
        if hits = [] then not_flagged
        else
          let seen = uniq_from [] hits in
          \<lparr> flagged = True, reason = join '', '' seen,
            score = min 1 (of_nat (length seen) / 2) \<rparr>)"

lemma set_uniq_from: "set (uniq_from seen hs) = set seen \<union> set hs"
  by (induction seen hs rule: uniq_from.induct) auto

lemma distinct_uniq_from: "distinct seen \<Longrightarrow> distinct (uniq_from seen hs)"
  by (induction seen hs rule: uniq_from.induct) auto

lemma uniq_from_Nil_iff [simp]: "uniq_from [] hs = [] \<longleftrightarrow> hs = []"
  by (metis set_empty set_uniq_from sup_bot_left)

section \<open>The guard interface\<close>

text \<open>
  What the gateway relies on: a blank prompt is never blocked, and a verdict's confidence stays
  in the unit interval.
\<close>

locale guard_protocol =
  fixes run_screen :: "string \<Rightarrow> guard_result"
  assumes blank_passes: "strip t = [] \<Longrightarrow> \<not> flagged (run_screen t)"
    and score_range: "0 \<le> score (run_screen t) \<and> score (run_screen t) \<le> 1"
begin

lemma flagged_not_blank: "flagged (run_screen t) \<Longrightarrow> strip t \<noteq> [] \<and> t \<noteq> []"
  using blank_passes [of t] blank_passes [of "[]"] by auto

end

lemma screen_score_range: "0 \<le> score (screen t) \<and> score (screen t) \<le> 1"
  by (simp add: screen_def not_flagged_def Let_def)

interpretation heuristic: guard_protocol screen
  by unfold_locales (simp_all add: screen_def not_flagged_def screen_score_range, simp add: Let_def)

lemma flagged_screen:
  "flagged (screen t) \<longleftrightarrow> strip t \<noteq> [] \<and> (\<exists>(rx, label) \<in> set PATTERNS. rx_search rx t)"
proof -
  have "map snd (filter (\<lambda>(rx, label). rx_search rx t) PATTERNS) = [] \<longleftrightarrow>
      \<not> (\<exists>(rx, label) \<in> set PATTERNS. rx_search rx t)"
    by (auto simp: filter_empty_conv)
  then show ?thesis
    by (cases "t = []") (auto simp: screen_def not_flagged_def Let_def)
qed

section \<open>Properties\<close>

text \<open>
  C21. The screen is exact against the declarative meaning of its table: a prompt is flagged iff
  it is not blank and one of the ten patterns occurs in it.  The confidence of a verdict is in
  the unit interval, and positive exactly for a flagged one.
\<close>

theorem screen_exact:
  "(flagged (screen t) \<longleftrightarrow>
      strip t \<noteq> [] \<and> (\<exists>(rx, label) \<in> set PATTERNS. rx_occurs rx t)) \<and>
   0 \<le> score (screen t) \<and> score (screen t) \<le> 1 \<and> (0 < score (screen t) \<longleftrightarrow> flagged (screen t))"
proof -
  have "0 < score (screen t) \<longleftrightarrow> flagged (screen t)"
    by (simp add: screen_def not_flagged_def Let_def min_def)
  then show ?thesis
    using heuristic.score_range [of t] flagged_screen [of t] by (simp add: rx_search_iff)
qed

end
