(* ===== verification/Errors.thy ===== *)
theory Errors
  imports PyPrelude
begin

text \<open>
  The exceptions (\<open>packages/core/src/faastlab_askai_core/exceptions.py\<close>): one constructor
  per class that the code raises, with the data it carries, one more for the HTTP errors of the
  API layer, one for the built-in Python exceptions the modelled code can run into, and one for the
  exceptions of third-party libraries, with their text.  An
  \<open>except C\<close> clause is the predicate \<open>is_C\<close>, which follows the class hierarchy.
\<close>

datatype py_exc =
    TypeError | ValueError | KeyError string | IndexError | AttributeError | OverflowError
  | ZeroDivisionError

record quota_info =
  limit_kind :: string
  limit :: int
  used :: int

datatype exn =
    AskAiError string
  | ConfigurationError string
  | AdapterNotFoundError string
  | TenantError string
  | TenantNotFoundError string
  | CrossTenantAccessError string
  | AuthenticationError string
  | AuthorizationError string
  | IndexingError string
  | ParserError string
  | EmbeddingError string
  | SearchError string
  | RerankerError string
  | LLMError string
  | LLMTimeoutError string
  | LLMRateLimitError string
  | GatewayError string
  | PolicyViolation string
  | GuardViolation string
  | PromptNotFoundError string
  | PromptRenderError string
  | QuotaExceeded string quota_info
  | HTTPError nat string
  | PyExc py_exc
  | OtherExc string

section \<open>The class hierarchy\<close>

fun is_ConfigurationError :: "exn \<Rightarrow> bool" where
  "is_ConfigurationError (ConfigurationError _) = True"
| "is_ConfigurationError (AdapterNotFoundError _) = True"
| "is_ConfigurationError _ = False"

fun is_TenantError :: "exn \<Rightarrow> bool" where
  "is_TenantError (TenantError _) = True"
| "is_TenantError (TenantNotFoundError _) = True"
| "is_TenantError (CrossTenantAccessError _) = True"
| "is_TenantError _ = False"

fun is_IndexingError :: "exn \<Rightarrow> bool" where
  "is_IndexingError (IndexingError _) = True"
| "is_IndexingError (ParserError _) = True"
| "is_IndexingError (EmbeddingError _) = True"
| "is_IndexingError _ = False"

fun is_SearchError :: "exn \<Rightarrow> bool" where
  "is_SearchError (SearchError _) = True"
| "is_SearchError (RerankerError _) = True"
| "is_SearchError _ = False"

fun is_LLMError :: "exn \<Rightarrow> bool" where
  "is_LLMError (LLMError _) = True"
| "is_LLMError (LLMTimeoutError _) = True"
| "is_LLMError (LLMRateLimitError _) = True"
| "is_LLMError _ = False"

fun is_PolicyViolation :: "exn \<Rightarrow> bool" where
  "is_PolicyViolation (PolicyViolation _) = True"
| "is_PolicyViolation (GuardViolation _) = True"
| "is_PolicyViolation _ = False"

fun is_QuotaExceeded :: "exn \<Rightarrow> bool" where
  "is_QuotaExceeded (QuotaExceeded _ _) = True"
| "is_QuotaExceeded _ = False"

fun is_GatewayError :: "exn \<Rightarrow> bool" where
  "is_GatewayError (GatewayError _) = True"
| "is_GatewayError (PromptNotFoundError _) = True"
| "is_GatewayError (PromptRenderError _) = True"
| "is_GatewayError e = (is_PolicyViolation e \<or> is_QuotaExceeded e)"

text \<open>Everything the packages raise themselves is an \<open>AskAiError\<close>.\<close>

fun is_AskAiError :: "exn \<Rightarrow> bool" where
  "is_AskAiError (HTTPError _ _) = False"
| "is_AskAiError (PyExc _) = False"
| "is_AskAiError (OtherExc _) = False"
| "is_AskAiError _ = True"

text \<open>\<open>str(exc)\<close> of an exception that carries a message.\<close>

fun exn_message :: "exn \<Rightarrow> string" where
  "exn_message (AskAiError m) = m"
| "exn_message (ConfigurationError m) = m"
| "exn_message (AdapterNotFoundError m) = m"
| "exn_message (TenantError m) = m"
| "exn_message (TenantNotFoundError m) = m"
| "exn_message (CrossTenantAccessError m) = m"
| "exn_message (AuthenticationError m) = m"
| "exn_message (AuthorizationError m) = m"
| "exn_message (IndexingError m) = m"
| "exn_message (ParserError m) = m"
| "exn_message (EmbeddingError m) = m"
| "exn_message (SearchError m) = m"
| "exn_message (RerankerError m) = m"
| "exn_message (LLMError m) = m"
| "exn_message (LLMTimeoutError m) = m"
| "exn_message (LLMRateLimitError m) = m"
| "exn_message (GatewayError m) = m"
| "exn_message (PolicyViolation m) = m"
| "exn_message (GuardViolation m) = m"
| "exn_message (PromptNotFoundError m) = m"
| "exn_message (PromptRenderError m) = m"
| "exn_message (QuotaExceeded m _) = m"
| "exn_message (HTTPError _ m) = m"
| "exn_message (PyExc _) = []"
| "exn_message (OtherExc m) = m"

text \<open>Catching \<open>LLMError\<close> never swallows a governance decision, and the other way round.\<close>

lemma LLMError_not_GatewayError: "is_LLMError e \<Longrightarrow> \<not> is_GatewayError e"
  by (cases e) auto

lemma GuardViolation_is_PolicyViolation: "is_PolicyViolation (GuardViolation m)"
  by simp

lemma subclass_AskAiError:
  "is_ConfigurationError e \<Longrightarrow> is_AskAiError e"
  "is_TenantError e \<Longrightarrow> is_AskAiError e"
  "is_IndexingError e \<Longrightarrow> is_AskAiError e"
  "is_SearchError e \<Longrightarrow> is_AskAiError e"
  "is_LLMError e \<Longrightarrow> is_AskAiError e"
  "is_GatewayError e \<Longrightarrow> is_AskAiError e"
  by (cases e; simp)+

end
