(* ===== verification/PyJson.thy ===== *)
theory PyJson
  imports Errors
begin

text \<open>
  JSON documents as Python values, and the built-ins the code applies to them:
  truth value, \<open>.get\<close>, \<open>bool\<close>, \<open>int\<close>, \<open>float\<close>, \<open>str\<close>, \<open>isinstance\<close>.
  A float carries its value and the text that \<open>str\<close> prints for it, so that no definition
  has to compute a shortest decimal representation.
\<close>

datatype pyfloat = Fin rat | PosInf | NegInf | NaN

datatype json =
    JNull
  | JBool bool
  | JInt int
  | JFloat pyfloat string
  | JStr string
  | JList "json list"
  | JObj "(string \<times> json) list"

type_synonym jdict = "(string \<times> json) list"

section \<open>Truth value and attribute access\<close>

fun truthy :: "json \<Rightarrow> bool" where
  "truthy JNull = False"
| "truthy (JBool b) = b"
| "truthy (JInt i) = (i \<noteq> 0)"
| "truthy (JFloat x _) = (x \<noteq> Fin 0)"
| "truthy (JStr s) = (s \<noteq> [])"
| "truthy (JList xs) = (xs \<noteq> [])"
| "truthy (JObj d) = (d \<noteq> [])"

text \<open>\<open>a or b\<close>\<close>

definition por :: "json \<Rightarrow> json \<Rightarrow> json" where
  "por a b = (if truthy a then a else b)"

text \<open>\<open>d.get(k, default)\<close> and \<open>d.get(k)\<close> on a dict.\<close>

definition dget_or :: "jdict \<Rightarrow> string \<Rightarrow> json \<Rightarrow> json" where
  "dget_or d k v = (case map_of d k of None \<Rightarrow> v | Some x \<Rightarrow> x)"

definition dget :: "jdict \<Rightarrow> string \<Rightarrow> json" where
  "dget d k = dget_or d k JNull"

text \<open>\<open>x.get(k)\<close> on any value: only a dict has the method.\<close>

fun jget :: "json \<Rightarrow> string \<Rightarrow> exn + json" where
  "jget (JObj d) k = Inr (dget d k)"
| "jget _ k = Inl (PyExc AttributeError)"

text \<open>\<open>d[k] = v\<close>: an existing key keeps its place, a new one goes to the end.\<close>

fun dset :: "jdict \<Rightarrow> string \<Rightarrow> json \<Rightarrow> jdict" where
  "dset [] k v = [(k, v)]"
| "dset ((l, w) # d) k v = (if l = k then (k, v) # d else (l, w) # dset d k v)"

text \<open>\<open>{**d, **e}\<close>\<close>

definition dmerge :: "jdict \<Rightarrow> jdict \<Rightarrow> jdict" where
  "dmerge d e = foldl (\<lambda>acc (k, v). dset acc k v) d e"

lemma map_of_dset: "map_of (dset d k v) = (map_of d)(k \<mapsto> v)"
  by (induction d k v rule: dset.induct) (auto simp: fun_eq_iff)

lemma dget_or_dset [simp]:
  "dget_or (dset d k v) l w = (if l = k then v else dget_or d l w)"
  by (simp add: dget_or_def map_of_dset)

lemma dget_dset [simp]: "dget (dset d k v) l = (if l = k then v else dget d l)"
  by (simp add: dget_def)

lemma keys_dset: "fst ` set (dset d k v) \<subseteq> insert k (fst ` set d)"
  by (induction d k v rule: dset.induct) auto

lemma distinct_dset: "distinct (map fst d) \<Longrightarrow> distinct (map fst (dset d k v))"
proof (induction d k v rule: dset.induct)
  case (2 l w d k v)
  then show ?case using keys_dset [of d k v] by auto
qed simp

lemma map_of_dmerge:
  "distinct (map fst e) \<Longrightarrow> map_of (dmerge d e) = map_of d ++ map_of e"
proof (induction e arbitrary: d)
  case Nil
  then show ?case by (simp add: dmerge_def)
next
  case (Cons p e)
  obtain k v where p: "p = (k, v)" by (cases p)
  from Cons have "k \<notin> dom (map_of e)" by (auto simp: p dom_map_of_conv_image_fst)
  moreover have "map_of (dmerge (dset d k v) e) = map_of (dset d k v) ++ map_of e"
    using Cons by (simp add: p)
  ultimately show ?case
    by (auto simp: p dmerge_def map_of_dset map_add_def fun_eq_iff split: option.splits)
qed

section \<open>Conversions\<close>

definition is_bool :: "json \<Rightarrow> bool" where
  "is_bool j = (case j of JBool _ \<Rightarrow> True | _ \<Rightarrow> False)"

definition is_str :: "json \<Rightarrow> bool" where
  "is_str j = (case j of JStr _ \<Rightarrow> True | _ \<Rightarrow> False)"

definition is_dict :: "json \<Rightarrow> bool" where
  "is_dict j = (case j of JObj _ \<Rightarrow> True | _ \<Rightarrow> False)"

definition is_list :: "json \<Rightarrow> bool" where
  "is_list j = (case j of JList _ \<Rightarrow> True | _ \<Rightarrow> False)"

text \<open>\<open>isinstance(x, int)\<close>, which holds of a \<open>bool\<close> too.\<close>

definition is_int :: "json \<Rightarrow> bool" where
  "is_int j = (case j of JInt _ \<Rightarrow> True | JBool _ \<Rightarrow> True | _ \<Rightarrow> False)"

text \<open>
  \<open>int(s)\<close> of a string: surrounding white space, a sign, digits with single underscores
  between them; at most 4300 digits, the interpreter's limit.
\<close>

fun digits_int :: "int \<Rightarrow> bool \<Rightarrow> string \<Rightarrow> int option" where
  "digits_int acc prev [] = (if prev then Some acc else None)"
| "digits_int acc prev (c # cs) =
     (if is_digit c then digits_int (10 * acc + int (digit_val c)) True cs
      else if c = CHR ''_'' \<and> prev then digits_int acc False cs else None)"

definition str_int :: "string \<Rightarrow> int option" where
  "str_int s =
     (let t = strip s in
       if length (filter is_digit t) > 4300 then None
       else case t of
         [] \<Rightarrow> None
       | c # cs \<Rightarrow>
           if c = CHR ''-'' then map_option uminus (digits_int 0 False cs)
           else if c = CHR ''+'' then digits_int 0 False cs
           else digits_int 0 False t)"

definition trunc :: "rat \<Rightarrow> int" where
  "trunc x = (if 0 \<le> x then \<lfloor>x\<rfloor> else \<lceil>x\<rceil>)"

fun py_int :: "json \<Rightarrow> exn + int" where
  "py_int (JBool b) = Inr (if b then 1 else 0)"
| "py_int (JInt i) = Inr i"
| "py_int (JFloat (Fin x) _) = Inr (trunc x)"
| "py_int (JFloat NaN _) = Inl (PyExc ValueError)"
| "py_int (JFloat _ _) = Inl (PyExc OverflowError)"
| "py_int (JStr s) = (case str_int s of Some i \<Rightarrow> Inr i | None \<Rightarrow> Inl (PyExc ValueError))"
| "py_int _ = Inl (PyExc TypeError)"

text \<open>
  \<open>repr(s)\<close>: single quotes unless the text has a single and no double quote, the usual
  escapes, and \<open>\xNN\<close> for the other characters that are not printable.
\<close>

definition hex_digit :: "nat \<Rightarrow> char" where
  "hex_digit n = char_of (if n < 10 then 48 + n else 87 + n)"

definition repr_char :: "char \<Rightarrow> char \<Rightarrow> string" where
  "repr_char q c =
     (let n = code c in
       if c = q \<or> n = 92 then [CHR 0x5C, c]
       else if n = 9 then [CHR 0x5C, CHR ''t'']
       else if n = 10 then [CHR 0x5C, CHR ''n'']
       else if n = 13 then [CHR 0x5C, CHR ''r'']
       else if n < 32 \<or> (127 \<le> n \<and> n \<le> 160) \<or> n = 173
       then [CHR 0x5C, CHR ''x'', hex_digit (n div 16), hex_digit (n mod 16)]
       else [c])"

definition str_repr :: "string \<Rightarrow> string" where
  "str_repr s =
     (let q = (if CHR 0x27 \<in> set s \<and> CHR 0x22 \<notin> set s then CHR 0x22 else CHR 0x27)
      in [q] @ concat (map (repr_char q) s) @ [q])"

fun py_repr :: "json \<Rightarrow> string" where
  "py_repr JNull = ''None''"
| "py_repr (JBool b) = (if b then ''True'' else ''False'')"
| "py_repr (JInt i) = int_str i"
| "py_repr (JFloat _ t) = t"
| "py_repr (JStr s) = str_repr s"
| "py_repr (JList xs) = ''['' @ join '', '' (map py_repr xs) @ '']''"
| "py_repr (JObj d) =
     ''{'' @ join '', '' (map (\<lambda>(k, v). str_repr k @ '': '' @ py_repr v) d) @ ''}''"

fun py_str :: "json \<Rightarrow> string" where
  "py_str (JStr s) = s"
| "py_str j = py_repr j"

text \<open>Iterating over a value: lists by element, dicts by key, strings by character.\<close>

fun py_iter :: "json \<Rightarrow> exn + json list" where
  "py_iter (JList xs) = Inr xs"
| "py_iter (JObj d) = Inr (map (\<lambda>(k, v). JStr k) d)"
| "py_iter (JStr s) = Inr (map (\<lambda>c. JStr [c]) s)"
| "py_iter _ = Inl (PyExc TypeError)"

section \<open>Arithmetic on floats with special values\<close>

text \<open>\<open>a < b\<close>: false whenever a NaN is involved.\<close>

fun flt :: "pyfloat \<Rightarrow> pyfloat \<Rightarrow> bool" where
  "flt (Fin x) (Fin y) = (x < y)"
| "flt NaN _ = False"
| "flt _ NaN = False"
| "flt PosInf _ = False"
| "flt _ NegInf = False"
| "flt _ PosInf = True"
| "flt NegInf _ = True"

text \<open>\<open>max(a, b)\<close> and \<open>min(a, b)\<close>: the first argument unless the second beats it.\<close>

definition fmax :: "pyfloat \<Rightarrow> pyfloat \<Rightarrow> pyfloat" where
  "fmax a b = (if flt a b then b else a)"

definition fmin :: "pyfloat \<Rightarrow> pyfloat \<Rightarrow> pyfloat" where
  "fmin a b = (if flt b a then b else a)"

lemma clamp_between:
  assumes "0 \<le> m"
  shows "\<exists>y. fmax (Fin 0) (fmin x (Fin m)) = Fin y \<and> 0 \<le> y \<and> y \<le> m"
  using assms by (cases x) (auto simp: fmax_def fmin_def)

end
