(* ===== verification/GatewayPolicy.thy ===== *)
theory GatewayPolicy
  imports PyJson
begin

text \<open>
  The policy engine (\<open>packages/core/src/faastlab_askai_core/gateway/policy.py\<close>): the
  declarative policy read from \<open>tenant.settings["gateway"]["policy"]\<close>, its enforcement
  against a model name, and the clamp of the generation length.  \<open>tenant_settings\<close> is the
  JSONB column: \<open>None\<close>, or a dict whose nested values can have any JSON type.
\<close>

type_synonym tenant_settings = "jdict option"

record policy =
  pol_enabled :: bool
  allowed_models :: "string list"
  max_tokens_per_request :: int
  allow_cloud :: bool
  jailbreak_guard :: bool

definition default_policy :: policy where
  "default_policy = \<lparr> pol_enabled = True, allowed_models = [], max_tokens_per_request = 0,
     allow_cloud = True, jailbreak_guard = True \<rparr>"

definition has_restrictions :: "policy \<Rightarrow> bool" where
  "has_restrictions p =
     (\<not> pol_enabled p \<or> allowed_models p \<noteq> [] \<or> max_tokens_per_request p > 0 \<or>
      \<not> allow_cloud p \<or> \<not> jailbreak_guard p)"

text \<open>\<open>_coerce_int\<close>: only \<open>TypeError\<close> and \<open>ValueError\<close> are caught.\<close>

definition coerce_int :: "json \<Rightarrow> exn + int" where
  "coerce_int v =
     (case py_int v of
        Inr i \<Rightarrow> Inr (max 0 i)
      | Inl (PyExc TypeError) \<Rightarrow> Inr 0
      | Inl (PyExc ValueError) \<Rightarrow> Inr 0
      | Inl e \<Rightarrow> Inl e)"

text \<open>\<open>(tenant_settings.get("gateway") or {}).get(key)\<close>\<close>

definition gateway_get :: "jdict \<Rightarrow> string \<Rightarrow> exn + json" where
  "gateway_get ts key = jget (por (dget ts ''gateway'') (JObj [])) key"

text \<open>The block \<open>key\<close> of the gateway settings, \<open>{}\<close> when anything on the way is missing.\<close>

definition gateway_block :: "tenant_settings \<Rightarrow> string \<Rightarrow> exn + json" where
  "gateway_block ts key =
     (case ts of
        None \<Rightarrow> Inr (JObj [])
      | Some d \<Rightarrow>
          if d = [] then Inr (JObj [])
          else try_bind (gateway_get d key) (\<lambda>v. Inr (por v (JObj []))))"

definition jget_or :: "json \<Rightarrow> string \<Rightarrow> json \<Rightarrow> exn + json" where
  "jget_or j k v = (case j of JObj d \<Rightarrow> Inr (dget_or d k v) | _ \<Rightarrow> Inl (PyExc AttributeError))"

definition clean_models :: "json list \<Rightarrow> string list" where
  "clean_models ms = map (\<lambda>m. strip (py_str m)) (filter (\<lambda>m. strip (py_str m) \<noteq> []) ms)"

definition resolve_policy :: "tenant_settings \<Rightarrow> exn + policy" where
  "resolve_policy ts =
     try_bind (gateway_block ts ''policy'') (\<lambda>p.
     try_bind (jget p ''allowed_models'') (\<lambda>m.
     try_bind (jget_or p ''enabled'' (JBool True)) (\<lambda>en.
     try_bind (py_iter (por m (JList []))) (\<lambda>models.
     try_bind (jget p ''max_tokens_per_request'') (\<lambda>mt.
     try_bind (coerce_int mt) (\<lambda>cap.
     try_bind (jget_or p ''allow_cloud'' (JBool True)) (\<lambda>ac.
     try_bind (jget_or p ''jailbreak_guard'' (JBool True)) (\<lambda>jg.
       Inr \<lparr> pol_enabled = truthy en, allowed_models = clean_models models,
         max_tokens_per_request = cap, allow_cloud = truthy ac,
         jailbreak_guard = truthy jg \<rparr>))))))))"

text \<open>\<open>PolicyEngine.enforce\<close> and \<open>PolicyEngine.effective_max_tokens\<close>.\<close>

definition enforce :: "policy \<Rightarrow> string option \<Rightarrow> exn + unit" where
  "enforce p model =
     (if \<not> pol_enabled p
      then Inl (PolicyViolation ''AI access is suspended for this tenant by policy.'')
      else case model of
        None \<Rightarrow> Inr ()
      | Some m \<Rightarrow>
          if allowed_models p \<noteq> [] \<and> m \<notin> set (allowed_models p)
          then Inl (PolicyViolation
            (''Model '' @ str_repr m @ '' is not on this tenant's allowed-models list.''))
          else Inr ())"

definition effective_max_tokens :: "policy \<Rightarrow> int option \<Rightarrow> int option" where
  "effective_max_tokens p requested =
     (let cap = max_tokens_per_request p in
       if cap \<le> 0 then requested
       else case requested of None \<Rightarrow> Some cap | Some r \<Rightarrow> Some (min r cap))"

section \<open>Lemmas\<close>

lemma coerce_int_nonneg: "coerce_int v = Inr n \<Longrightarrow> 0 \<le> n"
  by (auto simp: coerce_int_def split: sum.splits exn.splits py_exc.splits)

lemma enforce_ok_iff:
  "enforce p (Some m) = Inr () \<longleftrightarrow>
     pol_enabled p \<and> (allowed_models p = [] \<or> m \<in> set (allowed_models p))"
  by (auto simp: enforce_def)

lemma enforce_Inl: "enforce p m = Inl e \<Longrightarrow> is_PolicyViolation e"
  by (auto simp: enforce_def split: if_splits option.splits)

lemma resolve_policy_none: "resolve_policy None = Inr default_policy"
  by (simp add: resolve_policy_def gateway_block_def dget_def dget_or_def por_def jget_or_def
      coerce_int_def clean_models_def default_policy_def)

lemma resolve_policy_wf:
  "resolve_policy ts = Inr p \<Longrightarrow>
     0 \<le> max_tokens_per_request p \<and> (\<forall>m \<in> set (allowed_models p). m \<noteq> [] \<and> strip m = m)"
  by (auto simp: resolve_policy_def try_bind_eq_Inr clean_models_def dest: coerce_int_nonneg)

section \<open>Properties\<close>

text \<open>
  The policy is fail-safe in the direction the code documents: a tenant without settings is
  unrestricted, and a resolved policy is always well formed, with a non-negative cap and an
  allow-list of stripped, non-empty model names.
\<close>

theorem resolve_policy_sound:
  "resolve_policy None = Inr default_policy \<and> \<not> has_restrictions default_policy \<and>
   (case resolve_policy ts of
      Inl e \<Rightarrow> e \<in> {PyExc AttributeError, PyExc TypeError, PyExc OverflowError}
    | Inr p \<Rightarrow> 0 \<le> max_tokens_per_request p \<and>
        list_all (\<lambda>m. m \<noteq> [] \<and> strip m = m) (allowed_models p))"
proof -
  have iter: "py_iter j = Inl e \<Longrightarrow> e = PyExc TypeError" for j e
    by (cases j) auto
  have get: "jget j k = Inl e \<Longrightarrow> e = PyExc AttributeError" for j k e
    by (cases j) auto
  have getor: "jget_or j k v = Inl e \<Longrightarrow> e = PyExc AttributeError" for j k v e
    by (cases j) (auto simp: jget_or_def)
  have int: "py_int j = Inl e \<Longrightarrow>
      e \<in> {PyExc TypeError, PyExc ValueError, PyExc OverflowError}" for j e
    by (cases j rule: py_int.cases) (auto split: option.splits)
  have coerce: "coerce_int j = Inl e \<Longrightarrow> e = PyExc OverflowError" for j e
    by (auto simp: coerce_int_def split: sum.splits exn.splits py_exc.splits dest!: int)
  have block: "gateway_block ts k = Inl e \<Longrightarrow> e = PyExc AttributeError" for k e
    by (auto simp: gateway_block_def gateway_get_def try_bind_eq_Inl split: option.splits if_splits
        dest: get)
  have err: "resolve_policy ts = Inl e \<Longrightarrow>
      e \<in> {PyExc AttributeError, PyExc TypeError, PyExc OverflowError}" for e
    unfolding resolve_policy_def try_bind_eq_Inl
    using block get getor iter coerce by blast
  show ?thesis
  proof (cases "resolve_policy ts")
    case (Inl e)
    then show ?thesis using err by (simp add: resolve_policy_none has_restrictions_def default_policy_def)
  next
    case (Inr p)
    then show ?thesis using resolve_policy_wf [OF Inr]
      by (simp add: resolve_policy_none has_restrictions_def default_policy_def list_all_iff)
  qed
qed

end
