(* ===== verification/Config.thy ===== *)
theory Config
  imports PyPrelude
begin

text \<open>
  The configuration (\<open>packages/core/src/faastlab_askai_core/config/settings.py\<close>): the fields
  of \<open>Settings\<close> that the modelled components read, with the defaults of the class.  The
  provider literals are their texts.  The code reads the memoised \<open>get_settings()\<close>; the
  model passes the record explicitly.
\<close>

record settings =
  storage_provider :: string
  llm_provider :: string
  llm_model :: string
  summarisation_model :: string
  summarise_on_ingest :: bool
  openai_api_key :: "string option"
  azure_openai_endpoint :: "string option"
  azure_openai_api_key :: "string option"
  azure_openai_api_version :: string
  ollama_base_url :: string
  llm_base_url :: "string option"
  openai_cloud_model :: string
  openai_cloud_base_url :: "string option"
  embeddings_provider :: string
  embeddings_model :: string
  embeddings_dim :: nat
  embeddings_base_url :: "string option"
  reranker_provider :: string
  cohere_api_key :: "string option"
  reranker_base_url :: "string option"
  reranker_max_batch_size :: int
  vector_store :: string
  jwt_audience :: string
  jwt_issuer :: string
  jwt_token_ttl_seconds :: int
  trial_default_days :: int
  public_corpus_tenant_slug :: "string option"
  api_cors_origins :: string
  gateway_enabled :: bool
  gateway_default_requests_per_day :: int
  gateway_default_tokens_per_day :: int
  gateway_price_per_1k_tokens :: rat
  chunk_size_tokens :: nat
  chunk_overlap_tokens :: nat
  watcher_enabled :: bool
  watcher_tenant_slug :: string
  watcher_poll_interval_seconds :: int
  fos_ingest_enabled :: bool
  fos_ingest_interval_seconds :: int
  watcher_webhook_url :: "string option"
  watcher_fca_url :: string
  watcher_boe_url :: string
  watcher_pra_url :: string
  watcher_fos_url :: string
  watcher_tpr_url :: string
  watcher_ico_url :: string
  watcher_hmrc_url :: string
  watcher_auto_ingest :: bool

definition default_settings :: settings where
  "default_settings = \<lparr>
     storage_provider = ''minio'',
     llm_provider = ''openai'',
     llm_model = ''gpt-4o'',
     summarisation_model = ''gpt-4o-mini'',
     summarise_on_ingest = True,
     openai_api_key = None,
     azure_openai_endpoint = None,
     azure_openai_api_key = None,
     azure_openai_api_version = ''2024-08-01-preview'',
     ollama_base_url = ''http://localhost:11434'',
     llm_base_url = None,
     openai_cloud_model = ''gpt-4o-mini'',
     openai_cloud_base_url = None,
     embeddings_provider = ''openai'',
     embeddings_model = ''text-embedding-3-small'',
     embeddings_dim = 1536,
     embeddings_base_url = None,
     reranker_provider = ''bge'',
     cohere_api_key = None,
     reranker_base_url = None,
     reranker_max_batch_size = 32,
     vector_store = ''pgvector'',
     jwt_audience = ''askai'',
     jwt_issuer = ''faastlab-askai'',
     jwt_token_ttl_seconds = 60 * 60 * 24 * 7,
     trial_default_days = 14,
     public_corpus_tenant_slug = Some ''demo-public'',
     api_cors_origins = ''http://localhost:3000'',
     gateway_enabled = True,
     gateway_default_requests_per_day = 0,
     gateway_default_tokens_per_day = 0,
     gateway_price_per_1k_tokens = 0,
     chunk_size_tokens = 700,
     chunk_overlap_tokens = 100,
     watcher_enabled = False,
     watcher_tenant_slug = ''demo-public'',
     watcher_poll_interval_seconds = 3600,
     fos_ingest_enabled = False,
     fos_ingest_interval_seconds = 24 * 3600,
     watcher_webhook_url = None,
     watcher_fca_url = ''https://www.fca.org.uk/news/rss.xml'',
     watcher_boe_url = ''https://www.bankofengland.co.uk/rss/news'',
     watcher_pra_url = ''https://www.bankofengland.co.uk/rss/publications'',
     watcher_fos_url = '''',
     watcher_tpr_url = ''https://www.gov.uk/government/organisations/the-pensions-regulator.atom'',
     watcher_ico_url =
       ''https://www.gov.uk/government/organisations/information-commissioner-s-office.atom'',
     watcher_hmrc_url = ''https://www.gov.uk/government/organisations/hm-revenue-customs.atom'',
     watcher_auto_ingest = False \<rparr>"

text \<open>\<open>s.split(c)\<close>\<close>

fun split_char :: "'a \<Rightarrow> 'a list \<Rightarrow> 'a list list" where
  "split_char c [] = [[]]"
| "split_char c (d # s) =
     (case split_char c s of
        [] \<Rightarrow> [[d]]
      | w # ws \<Rightarrow> if d = c then [] # w # ws else (d # w) # ws)"

definition cors_origins_list :: "settings \<Rightarrow> string list" where
  "cors_origins_list s =
     filter (\<lambda>o'. o' \<noteq> []) (map strip (split_char (CHR '','') (api_cors_origins s)))"

lemma split_char_nonempty [simp]: "split_char c s \<noteq> []"
  by (induction s) (auto split: list.split)

lemma split_char_append:
  "c \<notin> set w \<Longrightarrow> split_char c (w @ c # s) = w # split_char c s"
proof (induction w)
  case Nil
  obtain v vs where "split_char c s = v # vs" by (cases "split_char c s") auto
  then show ?case by simp
next
  case (Cons d w)
  then have "d \<noteq> c" "split_char c (w @ c # s) = w # split_char c s" by auto
  then show ?case by simp
qed

lemma split_char_word: "c \<notin> set w \<Longrightarrow> split_char c w = [w]"
  by (induction w) auto

lemma split_char_join: "ws \<noteq> [] \<Longrightarrow> \<forall>w \<in> set ws. c \<notin> set w \<Longrightarrow> split_char c (join [c] ws) = ws"
proof (induction ws)
  case (Cons w ws)
  then show ?case by (cases "ws = []") (simp_all add: join_Cons split_char_word split_char_append)
qed simp

lemma join_split_char: "join [c] (split_char c s) = s"
proof (induction s)
  case (Cons d s)
  obtain w ws where "split_char c s = w # ws" by (cases "split_char c s") auto
  with Cons show ?case by (cases ws) auto
qed simp

end
