(* ===== verification/GatewayRouting.thy ===== *)
theory GatewayRouting
  imports GatewayPolicy Config
begin

text \<open>
  Which model serves a call: the target chain of a tenant
  (\<open>core/gateway/targets.py\<close>), the route of a purpose (\<open>core/gateway/router.py\<close>), and
  the adapters that the factory builds for them (\<open>core/factory.py\<close>).
\<close>

section \<open>Targets\<close>

record model_target =
  tgt_name :: string
  tgt_label :: string
  tgt_provider :: string
  tgt_model :: string
  tgt_base_url :: "string option"
  tgt_api_key :: "string option"
  configured :: bool
  sovereign :: bool

definition TARGET_NAMES :: "string list" where
  "TARGET_NAMES = [''qwen'', ''openai'']"

definition available_targets :: "settings \<Rightarrow> (string \<times> model_target) list" where
  "available_targets s =
     [(''qwen'', \<lparr> tgt_name = ''qwen'', tgt_label = ''Qwen (sovereign)'',
         tgt_provider = ''openai'', tgt_model = llm_model s, tgt_base_url = llm_base_url s,
         tgt_api_key = (if str_true (openai_api_key s) then openai_api_key s
                        else Some ''sk-sovereign-local''),
         configured = str_true (llm_base_url s), sovereign = True \<rparr>),
      (''openai'', \<lparr> tgt_name = ''openai'', tgt_label = ''OpenAI (cloud)'',
         tgt_provider = ''openai'', tgt_model = openai_cloud_model s,
         tgt_base_url = openai_cloud_base_url s, tgt_api_key = openai_api_key s,
         configured = str_true (openai_api_key s), sovereign = False \<rparr>)]"

definition default_order :: "settings \<Rightarrow> string list" where
  "default_order s = (if str_true (llm_base_url s) then [''qwen''] else [''openai''])"

text \<open>\<open>[avail[name] for name in order if name in avail]\<close>\<close>

definition pick_targets :: "settings \<Rightarrow> string list \<Rightarrow> model_target list" where
  "pick_targets s order = List.map_filter (map_of (available_targets s)) order"

definition resolve_target_chain :: "tenant_settings \<Rightarrow> settings \<Rightarrow> exn + model_target list" where
  "resolve_target_chain ts s =
     try_bind
       (case ts of
          None \<Rightarrow> Inr []
        | Some d \<Rightarrow>
            if d = [] then Inr []
            else try_bind (gateway_get d ''routing'') (\<lambda>raw.
              Inr (case raw of JList ns \<Rightarrow> map py_str ns | _ \<Rightarrow> [])))
       (\<lambda>order0.
          let order = (if order0 = [] then default_order s else order0);
              chain = pick_targets s order
          in Inr (if chain = [] then pick_targets s (default_order s) else chain))"

section \<open>Routes\<close>

definition KNOWN_PROVIDERS :: "string list" where
  "KNOWN_PROVIDERS =
     [''openai'', ''azure'', ''anthropic'', ''bedrock'', ''ollama'', ''cohere'', ''huggingface'']"

record model_route =
  rt_provider :: string
  rt_model :: string
  rt_purpose :: string

definition defaults_for :: "string \<Rightarrow> settings \<Rightarrow> string \<times> string" where
  "defaults_for purpose s =
     (if purpose = ''embed'' then (embeddings_provider s, embeddings_model s)
      else if purpose = ''summarise'' then (llm_provider s, summarisation_model s)
      else (llm_provider s, llm_model s))"

text \<open>\<open>s.partition(":")\<close>: the head, whether there was a separator, and the tail.\<close>

definition partition_colon :: "string \<Rightarrow> string \<times> bool \<times> string" where
  "partition_colon s =
     (case find_sub [CHR '':''] s of
        None \<Rightarrow> (s, False, [])
      | Some i \<Rightarrow> (take i s, True, drop (Suc i) s))"

definition parse_override :: "string \<Rightarrow> string \<Rightarrow> string \<times> string" where
  "parse_override override default_provider =
     (case partition_colon override of (head, sep, tail) \<Rightarrow>
       if sep \<and> head \<in> set KNOWN_PROVIDERS \<and> tail \<noteq> [] then (head, tail)
       else (default_provider, override))"

definition resolve_route :: "tenant_settings \<Rightarrow> string \<Rightarrow> settings \<Rightarrow> exn + model_route" where
  "resolve_route ts purpose s =
     (case defaults_for purpose s of (provider, model) \<Rightarrow>
       try_bind
         (case ts of
            None \<Rightarrow> Inr JNull
          | Some d \<Rightarrow>
              if d = [] then Inr JNull
              else try_bind (gateway_get d ''models'') (\<lambda>ms. jget (por ms (JObj [])) purpose))
         (\<lambda>override.
            Inr (if truthy override
                 then (case parse_override (py_str override) provider of (pr, mo) \<Rightarrow>
                         \<lparr> rt_provider = pr, rt_model = mo, rt_purpose = purpose \<rparr>)
                 else \<lparr> rt_provider = provider, rt_model = model, rt_purpose = purpose \<rparr>)))"

text \<open>
  \<open>ModelRouter.route\<close>: the caller's settings, or the row of the tenant's table.
  \<open>load_tenant_settings\<close> is a lookup in the table \<open>db\<close>.
\<close>

definition load_tenant_settings :: "(string \<rightharpoonup> tenant_settings) \<Rightarrow> string \<Rightarrow> tenant_settings" where
  "load_tenant_settings db tid = (case db tid of None \<Rightarrow> None | Some ts \<Rightarrow> ts)"

definition route ::
  "(string \<rightharpoonup> tenant_settings) \<Rightarrow> settings \<Rightarrow> string \<Rightarrow> string \<Rightarrow> tenant_settings \<Rightarrow> exn + model_route"
where
  "route db s tid purpose ts =
     resolve_route (case ts of None \<Rightarrow> load_tenant_settings db tid | Some _ \<Rightarrow> ts) purpose s"

section \<open>The adapter factory\<close>

text \<open>
  The adapters are third-party clients; what the factory decides is which class is built from
  which settings.
\<close>

datatype llm_adapter = OpenAIChatLLM settings | OllamaLLM settings

datatype embeddings_adapter = OpenAIEmbeddings settings | OllamaEmbeddings settings

datatype store_adapter = PgVectorStore settings | MinIOStorage settings

datatype reranker_adapter = NoOpReranker | CohereReranker settings | BgeReranker settings
  | TeiReranker settings

definition llm_unsupported :: "string \<Rightarrow> exn" where
  "llm_unsupported provider =
     AdapterNotFoundError (''LLM provider '' @ str_repr provider @
       '' not yet wired up (supported: openai, azure, ollama)'')"

definition get_llm :: "settings \<Rightarrow> exn + llm_adapter" where
  "get_llm s =
     (if llm_provider s \<in> {''openai'', ''azure''} then Inr (OpenAIChatLLM s)
      else if llm_provider s = ''ollama'' then Inr (OllamaLLM s)
      else Inl (llm_unsupported (llm_provider s)))"

definition get_llm_for :: "settings \<Rightarrow> string \<Rightarrow> exn + llm_adapter" where
  "get_llm_for s provider =
     (if provider \<in> {''openai'', ''azure''}
      then Inr (OpenAIChatLLM (s\<lparr>llm_provider := provider\<rparr>))
      else if provider = ''ollama'' then Inr (OllamaLLM s)
      else Inl (llm_unsupported provider))"

definition get_llm_for_target :: "settings \<Rightarrow> model_target \<Rightarrow> llm_adapter" where
  "get_llm_for_target s t =
     OpenAIChatLLM (s\<lparr> llm_provider := ''openai'', llm_base_url := tgt_base_url t,
       openai_api_key := tgt_api_key t, llm_model := tgt_model t \<rparr>)"

definition get_embeddings :: "settings \<Rightarrow> exn + embeddings_adapter" where
  "get_embeddings s =
     (if embeddings_provider s \<in> {''openai'', ''azure''} then Inr (OpenAIEmbeddings s)
      else if embeddings_provider s = ''ollama'' then Inr (OllamaEmbeddings s)
      else Inl (AdapterNotFoundError (''Embeddings provider '' @
        str_repr (embeddings_provider s) @
        '' not yet wired up (supported: openai, azure, ollama)'')))"

definition get_vector_store :: "settings \<Rightarrow> exn + store_adapter" where
  "get_vector_store s =
     (if vector_store s = ''pgvector'' then Inr (PgVectorStore s)
      else Inl (AdapterNotFoundError (''Vector store '' @ str_repr (vector_store s) @
        '' not yet wired up (supported: pgvector)'')))"

definition get_storage :: "settings \<Rightarrow> exn + store_adapter" where
  "get_storage s =
     (if storage_provider s \<in> {''minio'', ''s3''} then Inr (MinIOStorage s)
      else Inl (AdapterNotFoundError (''Storage provider '' @ str_repr (storage_provider s) @
        '' not yet wired up (supported: minio, s3)'')))"

definition get_reranker :: "settings \<Rightarrow> exn + reranker_adapter" where
  "get_reranker s =
     (let provider = reranker_provider s in
       if provider = ''none'' then Inr NoOpReranker
       else if provider = ''cohere'' then Inr (CohereReranker s)
       else if provider = ''bge'' then Inr (BgeReranker s)
       else if provider = ''tei'' then Inr (TeiReranker s)
       else Inl (AdapterNotFoundError (''Reranker provider '' @ str_repr provider @
         '' not yet wired up (supported: none, cohere, bge, tei)'')))"

section \<open>Lemmas\<close>

lemma map_filter_append:
  "List.map_filter f (xs @ ys) = List.map_filter f xs @ List.map_filter f ys"
  by (simp add: List.map_filter_def)

lemma pick_targets_subset: "set (pick_targets s order) \<subseteq> set (map snd (available_targets s))"
  by (force simp: pick_targets_def List.map_filter_def dest: map_of_SomeD)

lemma pick_default_nonempty: "pick_targets s (default_order s) \<noteq> []"
  by (simp add: pick_targets_def List.map_filter_def default_order_def available_targets_def)

lemma sovereign_target_iff:
  "t \<in> set (map snd (available_targets s)) \<Longrightarrow> sovereign t \<longleftrightarrow> tgt_name t = ''qwen''"
  by (auto simp: available_targets_def)

lemma partition_colon_split:
  "partition_colon s = (h, True, t) \<Longrightarrow> s = h @ '':'' @ t"
  using find_sub_char [of "CHR '':''" s] by (auto simp: partition_colon_def split: option.splits)

lemma target_chain_facts:
  assumes "resolve_target_chain ts s = Inr chain"
  shows "chain \<noteq> []" and "set chain \<subseteq> set (map snd (available_targets s))"
  using assms pick_targets_subset pick_default_nonempty
  by (auto simp: resolve_target_chain_def try_bind_eq_Inr Let_def split: if_splits)

section \<open>Properties\<close>

text \<open>
  A resolved chain is never empty, and holds only targets of this deployment, in the order
  of the tenant's routing list.
\<close>

theorem target_chain_sound:
  assumes "resolve_target_chain ts s = Inr chain"
  shows "chain \<noteq> [] \<and> set chain \<subseteq> set (map snd (available_targets s)) \<and>
    (\<forall>t \<in> set chain. sovereign t \<longleftrightarrow> tgt_name t = ''qwen'')"
  using target_chain_facts [OF assms] sovereign_target_iff by blast

theorem target_chain_sound_witness:
  "\<exists>chain. resolve_target_chain
       (Some [(''gateway'', JObj [(''routing'', JList [JStr ''openai'', JStr ''x''])])])
       default_settings = Inr chain \<and> chain \<noteq> []"
proof -
  have h: "resolve_target_chain
       (Some [(''gateway'', JObj [(''routing'', JList [JStr ''openai'', JStr ''x''])])])
       default_settings = Inr (pick_targets default_settings [''openai'', ''x''])"
    by (simp add: resolve_target_chain_def gateway_get_def dget_def dget_or_def por_def
        pick_targets_def List.map_filter_def available_targets_def)
  show ?thesis using h target_chain_sound [OF h] by blast
qed

text \<open>
  An override names a provider only when its prefix is a known provider followed by a
  non-empty model id; then nothing of the text is lost.  Any other override, an Ollama tag such
  as \<open>qwen2.5:32b\<close> included, stays a model id of the default provider, unchanged.
\<close>

theorem parse_override_cases:
  "(case parse_override override dp of (p, m) \<Rightarrow>
     (p = dp \<and> m = override) \<or>
     (p \<in> set KNOWN_PROVIDERS \<and> m \<noteq> [] \<and> override = p @ '':'' @ m))"
proof (cases "partition_colon override")
  case (fields h sep t)
  show ?thesis
  proof (cases "sep \<and> h \<in> set KNOWN_PROVIDERS \<and> t \<noteq> []")
    case True
    with fields have "override = h @ '':'' @ t"
      by (intro partition_colon_split) simp
    with True fields show ?thesis by (simp add: parse_override_def)
  next
    case False
    then show ?thesis by (auto simp: parse_override_def fields)
  qed
qed

end
