(* ===== verification/GatewayUsage.thy ===== *)
theory GatewayUsage
  imports GatewayRouting
begin

text \<open>
  The usage ledger (\<open>core/gateway/usage.py\<close>), the call context (\<open>core/gateway/context.py\<close>)
  and the quota service that aggregates the ledger (\<open>core/gateway/quota.py\<close>).  The table
  \<open>llm_usage\<close> is the list of its rows; times are microseconds since the epoch.
\<close>

type_synonym uuid = string

record gateway_context =
  ctx_tenant_id :: uuid
  ctx_tenant_slug :: string
  ctx_user_id :: "string option"
  ctx_plan :: "string option"
  ctx_purpose :: string
  ctx_request_id :: "string option"

section \<open>Token and cost estimates\<close>

text \<open>
  \<open>tik\<close> is the optional \<open>tiktoken\<close> encoder: \<open>None\<close> where it is not installed or raises.
\<close>

definition estimate_tokens :: "(string \<Rightarrow> nat option) \<Rightarrow> string \<Rightarrow> nat" where
  "estimate_tokens tik text' =
     (if text' = [] then 0
      else case tik text' of Some n \<Rightarrow> n | None \<Rightarrow> max 1 (length text' div 4))"

definition estimate_cost_usd :: "settings \<Rightarrow> nat \<Rightarrow> rat" where
  "estimate_cost_usd s n =
     (if gateway_price_per_1k_tokens s \<le> 0 then 0
      else py_round (of_nat n / 1000 * gateway_price_per_1k_tokens s) 6)"

record usage_record =
  prompt_tokens :: nat
  completion_tokens :: nat
  total_tokens :: nat
  cost_usd :: rat
  ur_provider :: "string option"
  ur_model :: "string option"
  latency_ms :: "rat option"
  ur_status :: string
  ur_error :: "string option"

definition usage_from_text ::
  "settings \<Rightarrow> (string \<Rightarrow> nat option) \<Rightarrow> string \<Rightarrow> string \<Rightarrow> string option \<Rightarrow> string option \<Rightarrow>
   rat option \<Rightarrow> string \<Rightarrow> string option \<Rightarrow> usage_record"
where
  "usage_from_text s tik prompt completion provider model latency status error =
     (let pt = estimate_tokens tik prompt; ct = estimate_tokens tik completion; tot = pt + ct in
       \<lparr> prompt_tokens = pt, completion_tokens = ct, total_tokens = tot,
         cost_usd = estimate_cost_usd s tot, ur_provider = provider, ur_model = model,
         latency_ms = latency, ur_status = status, ur_error = error \<rparr>)"

section \<open>The ledger\<close>

record llm_usage =
  us_tenant_id :: uuid
  us_user_id :: "string option"
  us_request_id :: "string option"
  us_purpose :: string
  us_record :: usage_record
  us_created_at :: int

type_synonym ledger = "llm_usage list"

definition usage_row :: "gateway_context \<Rightarrow> int \<Rightarrow> usage_record \<Rightarrow> llm_usage" where
  "usage_row ctx now u =
     \<lparr> us_tenant_id = ctx_tenant_id ctx, us_user_id = ctx_user_id ctx,
       us_request_id = ctx_request_id ctx, us_purpose = ctx_purpose ctx,
       us_record = u, us_created_at = now \<rparr>"

text \<open>
  \<open>record_usage\<close> swallows a failing write: \<open>ok\<close> says whether the database accepts it.
\<close>

definition record_usage :: "bool \<Rightarrow> int \<Rightarrow> gateway_context \<Rightarrow> usage_record \<Rightarrow> ledger \<Rightarrow> ledger" where
  "record_usage ok now ctx u l = (if ok then l @ [usage_row ctx now u] else l)"

section \<open>Quota\<close>

record quota_limits =
  requests_per_day :: int
  tokens_per_day :: int

record quota_usage =
  q_requests :: int
  q_tokens :: int

record quota_status =
  q_allowed :: bool
  q_limits :: quota_limits
  q_usage :: quota_usage
  q_reason :: "string option"

definition has_any :: "quota_limits \<Rightarrow> bool" where
  "has_any l = (requests_per_day l > 0 \<or> tokens_per_day l > 0)"

definition requests_remaining :: "quota_status \<Rightarrow> int option" where
  "requests_remaining st =
     (if requests_per_day (q_limits st) \<le> 0 then None
      else Some (max 0 (requests_per_day (q_limits st) - q_requests (q_usage st))))"

definition tokens_remaining :: "quota_status \<Rightarrow> int option" where
  "tokens_remaining st =
     (if tokens_per_day (q_limits st) \<le> 0 then None
      else Some (max 0 (tokens_per_day (q_limits st) - q_tokens (q_usage st))))"

definition int_or :: "int \<Rightarrow> int \<Rightarrow> int" where
  "int_or a b = (if a \<noteq> 0 then a else b)"

definition resolve_limits :: "settings \<Rightarrow> tenant_settings \<Rightarrow> exn + quota_limits" where
  "resolve_limits s ts =
     try_bind (gateway_block ts ''quota'') (\<lambda>quota.
     try_bind (jget quota ''requests_per_day'') (\<lambda>r.
     try_bind (coerce_int r) (\<lambda>req.
     try_bind (jget quota ''tokens_per_day'') (\<lambda>t.
     try_bind (coerce_int t) (\<lambda>tok.
       Inr \<lparr> requests_per_day = int_or req (gateway_default_requests_per_day s),
         tokens_per_day = int_or tok (gateway_default_tokens_per_day s) \<rparr>)))))"

definition WINDOW :: int where
  "WINDOW = 24 * 60 * 60 * 1000000"

definition in_window :: "int \<Rightarrow> uuid \<Rightarrow> llm_usage \<Rightarrow> bool" where
  "in_window now tid r =
     (us_tenant_id r = tid \<and> us_created_at r \<ge> now - WINDOW \<and>
      ur_status (us_record r) \<noteq> ''quota_denied'')"

definition window_usage :: "int \<Rightarrow> ledger \<Rightarrow> uuid \<Rightarrow> quota_usage" where
  "window_usage now l tid =
     (let rows = filter (in_window now tid) l in
       \<lparr> q_requests = int (length rows),
         q_tokens = int (sum_list (map (\<lambda>r. total_tokens (us_record r)) rows)) \<rparr>)"

text \<open>
  \<open>_resolve_tenant_limits\<close> reads the tenants table; \<open>check\<close> uses it when the caller gives
  no settings (\<open>Unset\<close>, the sentinel \<open>_UNSET\<close>).
\<close>

datatype settings_arg = Unset | Given tenant_settings

definition resolve_tenant_limits ::
  "settings \<Rightarrow> (uuid \<rightharpoonup> tenant_settings) \<Rightarrow> uuid \<Rightarrow> exn + quota_limits" where
  "resolve_tenant_limits s db tid =
     (case db tid of None \<Rightarrow> resolve_limits s None | Some ts \<Rightarrow> resolve_limits s ts)"

definition over_requests :: "quota_limits \<Rightarrow> quota_usage \<Rightarrow> bool" where
  "over_requests l u = (requests_per_day l > 0 \<and> q_requests u \<ge> requests_per_day l)"

definition over_tokens :: "quota_limits \<Rightarrow> quota_usage \<Rightarrow> bool" where
  "over_tokens l u = (tokens_per_day l > 0 \<and> q_tokens u \<ge> tokens_per_day l)"

definition check ::
  "settings \<Rightarrow> (uuid \<rightharpoonup> tenant_settings) \<Rightarrow> int \<Rightarrow> ledger \<Rightarrow> gateway_context \<Rightarrow> settings_arg \<Rightarrow>
   exn + quota_status"
where
  "check s db now l ctx arg =
     try_bind
       (case arg of
          Unset \<Rightarrow> resolve_tenant_limits s db (ctx_tenant_id ctx)
        | Given ts \<Rightarrow> resolve_limits s ts)
       (\<lambda>limits.
          if \<not> gateway_enabled s \<or> \<not> has_any limits
          then Inr \<lparr> q_allowed = True, q_limits = limits,
                 q_usage = \<lparr> q_requests = 0, q_tokens = 0 \<rparr>, q_reason = None \<rparr>
          else
            let usage = window_usage now l (ctx_tenant_id ctx) in
            if over_requests limits usage
            then Inr \<lparr> q_allowed = False, q_limits = limits, q_usage = usage,
                   q_reason = Some (''requests:'' @ int_str (q_requests usage) @ ''/'' @
                     int_str (requests_per_day limits)) \<rparr>
            else if over_tokens limits usage
            then Inr \<lparr> q_allowed = False, q_limits = limits, q_usage = usage,
                   q_reason = Some (''tokens:'' @ int_str (q_tokens usage) @ ''/'' @
                     int_str (tokens_per_day limits)) \<rparr>
            else Inr \<lparr> q_allowed = True, q_limits = limits, q_usage = usage,
                   q_reason = None \<rparr>)"

definition enforce_quota_service ::
  "settings \<Rightarrow> (uuid \<rightharpoonup> tenant_settings) \<Rightarrow> int \<Rightarrow> ledger \<Rightarrow> gateway_context \<Rightarrow> settings_arg \<Rightarrow>
   exn + quota_status"
where
  "enforce_quota_service s db now l ctx arg =
     try_bind (check s db now l ctx arg) (\<lambda>st.
       if q_allowed st then Inr st
       else if over_requests (q_limits st) (q_usage st)
       then Inl (QuotaExceeded ''Daily request quota exhausted.''
              \<lparr> limit_kind = ''requests'', limit = requests_per_day (q_limits st),
                used = q_requests (q_usage st) \<rparr>)
       else Inl (QuotaExceeded ''Daily token quota exhausted.''
              \<lparr> limit_kind = ''tokens'', limit = tokens_per_day (q_limits st),
                used = q_tokens (q_usage st) \<rparr>))"

section \<open>Lemmas\<close>

lemma estimate_tokens_zero:
  "tik x \<noteq> Some 0 \<Longrightarrow> (estimate_tokens tik x = 0) = (x = [])"
  by (auto simp: estimate_tokens_def split: option.split)

lemma usage_from_text_total:
  "total_tokens (usage_from_text s tik p c pr mo la st er) =
   prompt_tokens (usage_from_text s tik p c pr mo la st er) +
   completion_tokens (usage_from_text s tik p c pr mo la st er)"
  by (simp add: usage_from_text_def Let_def)

lemma usage_from_text_sel [simp]:
  "ur_status (usage_from_text s tik p c pr mo la st er) = st"
  "ur_model (usage_from_text s tik p c pr mo la st er) = mo"
  "ur_provider (usage_from_text s tik p c pr mo la st er) = pr"
  "ur_error (usage_from_text s tik p c pr mo la st er) = er"
  by (simp_all add: usage_from_text_def Let_def)

lemma usage_row_sel [simp]:
  "us_record (usage_row ctx now u) = u" "us_tenant_id (usage_row ctx now u) = ctx_tenant_id ctx"
  "us_created_at (usage_row ctx now u) = now" "us_purpose (usage_row ctx now u) = ctx_purpose ctx"
  by (simp_all add: usage_row_def)

lemma record_usage_prefix: "\<exists>new. record_usage ok now ctx u l = l @ new"
  by (simp add: record_usage_def)

lemma window_usage_append:
  "q_requests (window_usage now (l @ l') tid) =
     q_requests (window_usage now l tid) + q_requests (window_usage now l' tid)"
  "q_tokens (window_usage now (l @ l') tid) =
     q_tokens (window_usage now l tid) + q_tokens (window_usage now l' tid)"
  by (simp_all add: window_usage_def Let_def)

lemma window_usage_ignored:
  "(\<And>r. r \<in> set l' \<Longrightarrow> \<not> in_window now tid r) \<Longrightarrow>
     window_usage now (l @ l') tid = window_usage now l tid"
  by (simp add: window_usage_def Let_def filter_False)

lemma check_Inr_iff:
  "check s db now l ctx (Given ts) = Inr st \<Longrightarrow>
     (\<exists>limits. resolve_limits s ts = Inr limits \<and> q_limits st = limits \<and>
       (q_allowed st \<longleftrightarrow> \<not> gateway_enabled s \<or>
         (\<not> over_requests limits (window_usage now l (ctx_tenant_id ctx)) \<and>
          \<not> over_tokens limits (window_usage now l (ctx_tenant_id ctx)))) \<and>
       (\<not> q_allowed st \<longrightarrow> q_usage st = window_usage now l (ctx_tenant_id ctx)))"
  by (auto simp: check_def try_bind_eq_Inr Let_def has_any_def over_requests_def over_tokens_def
      split: if_splits)

section \<open>Properties\<close>

text \<open>
  C3. The quota decision, in terms of the ledger: with caps resolved for the tenant, a call passes exactly when
  the gateway is off, or the tenant's own rows of the last 24 hours, denied attempts left out, are fewer than
  the request cap and sum up to fewer tokens than the token cap (a cap of 0 never binds); a refusal names
  the cap that is exhausted, the request cap first, with the limit and the usage.
\<close>

theorem quota_enforced:
  assumes "resolve_limits s ts = Inr limits"
  shows "let mine = filter (\<lambda>r. us_tenant_id r = ctx_tenant_id ctx \<and>
        now - 24 * 60 * 60 * 1000000 \<le> us_created_at r \<and> ur_status (us_record r) \<noteq> ''quota_denied'') l;
      n = int (length mine); k = int (sum_list (map (\<lambda>r. total_tokens (us_record r)) mine));
      requests_left = (requests_per_day limits \<le> 0 \<or> n < requests_per_day limits);
      tokens_left = (tokens_per_day limits \<le> 0 \<or> k < tokens_per_day limits)
    in case enforce_quota_service s db now l ctx (Given ts) of
      Inr st \<Rightarrow> \<not> gateway_enabled s \<or> requests_left \<and> tokens_left
    | Inl e \<Rightarrow> gateway_enabled s \<and>
        ((\<exists>m. e = QuotaExceeded m \<lparr> limit_kind = ''requests'', limit = requests_per_day limits, used = n \<rparr>) \<and>
           \<not> requests_left \<or>
         (\<exists>m. e = QuotaExceeded m \<lparr> limit_kind = ''tokens'', limit = tokens_per_day limits, used = k \<rparr>) \<and>
           requests_left \<and> \<not> tokens_left)"
proof -
  have w: "filter (\<lambda>r. us_tenant_id r = ctx_tenant_id ctx \<and> now - 24 * 60 * 60 * 1000000 \<le> us_created_at r \<and>
      ur_status (us_record r) \<noteq> ''quota_denied'') l = filter (in_window now (ctx_tenant_id ctx)) l"
    by (rule filter_cong) (simp_all add: in_window_def WINDOW_def)
  show ?thesis unfolding w using assms
    by (auto simp: enforce_quota_service_def check_def Let_def has_any_def over_requests_def
        over_tokens_def window_usage_def split: sum.split)
qed

definition sample_ctx :: gateway_context where
  "sample_ctx = \<lparr> ctx_tenant_id = ''t1'', ctx_tenant_slug = ''acme'', ctx_user_id = Some ''u1'',
     ctx_plan = None, ctx_purpose = ''chat'', ctx_request_id = None \<rparr>"

definition sample_usage :: "nat \<Rightarrow> string \<Rightarrow> usage_record" where
  "sample_usage n st = \<lparr> prompt_tokens = n, completion_tokens = 0, total_tokens = n, cost_usd = 0,
     ur_provider = None, ur_model = None, latency_ms = None, ur_status = st, ur_error = None \<rparr>"

definition sample_quota :: "int \<Rightarrow> tenant_settings" where
  "sample_quota n =
     Some [(''gateway'', JObj [(''quota'', JObj [(''requests_per_day'', JInt n)])])]"

lemma sample_quota_limits:
  "0 < n \<Longrightarrow> resolve_limits default_settings (sample_quota n) =
     Inr \<lparr> requests_per_day = n, tokens_per_day = 0 \<rparr>"
  by (simp add: resolve_limits_def gateway_block_def gateway_get_def sample_quota_def dget_def
      dget_or_def por_def coerce_int_def int_or_def default_settings_def)

theorem quota_enforced_witness:
  "\<exists>e. enforce_quota_service default_settings Map.empty 0
       [usage_row sample_ctx 0 (sample_usage 7 ''ok'')] sample_ctx (Given (sample_quota 1)) = Inl e \<and>
     is_QuotaExceeded e"
proof -
  have lim: "resolve_limits default_settings (sample_quota 1) =
      Inr \<lparr> requests_per_day = 1, tokens_per_day = 0 \<rparr>"
    by (simp add: sample_quota_limits)
  show ?thesis
    using quota_enforced [OF lim, of sample_ctx 0 "[usage_row sample_ctx 0 (sample_usage 7 ''ok'')]" Map.empty]
    by (auto simp: Let_def default_settings_def usage_row_def sample_ctx_def sample_usage_def split: sum.splits)
qed

text \<open>
  What the window does not hold cannot change the verdict: rows of other tenants, rows older
  than 24 hours and the audit rows of denied attempts leave the quota decision as it was.
\<close>

theorem quota_ignores_other_rows:
  assumes "\<And>r. r \<in> set l' \<Longrightarrow>
      us_tenant_id r \<noteq> ctx_tenant_id ctx \<or> us_created_at r < now - WINDOW \<or>
      ur_status (us_record r) = ''quota_denied''"
  shows "check s db now (l @ l') ctx arg = check s db now l ctx arg"
proof -
  have eq: "window_usage now (l @ l') (ctx_tenant_id ctx) =
      window_usage now l (ctx_tenant_id ctx)"
    by (rule window_usage_ignored) (use assms in \<open>force simp: in_window_def\<close>)
  show ?thesis unfolding check_def eq by (rule refl)
qed

theorem quota_ignores_other_rows_witness:
  "check default_settings Map.empty 0 ([] @ [usage_row sample_ctx 0 (sample_usage 9 ''quota_denied'')])
     sample_ctx (Given (sample_quota 1)) =
   check default_settings Map.empty 0 [] sample_ctx (Given (sample_quota 1))"
  by (rule quota_ignores_other_rows) (simp add: sample_usage_def)

end
