(* ===== verification/LlmAdapters.thy ===== *)
theory LlmAdapters
  imports GatewayUsage
begin

text \<open>
  The chat adapters (\<open>packages/askai/src/faastlab_askai_askai/adapters/llm_openai.py\<close> and
  \<open>llm_ollama.py\<close>, with the request-scoped keys of \<open>core/byok.py\<close>).  The OpenAI SDK and
  the HTTP client are parameters: the SDK answers the \<open>n\<close>-th request with an exception text
  or a reply.  The trace of requests is part of the state, so that the endpoint and the key each
  prompt was sent to can be stated.
\<close>

section \<open>Messages\<close>

record llm_message =
  msg_role :: string
  msg_content :: string

text \<open>The typed messages of \<open>complete\<close> and the raw dicts of the tool-calling path.\<close>

datatype message = Typed llm_message | RawMsg jdict

fun role_of :: "message \<Rightarrow> json" where
  "role_of (Typed m) = JStr (msg_role m)"
| "role_of (RawMsg d) = dget d ''role''"

fun content_of :: "message \<Rightarrow> json" where
  "content_of (Typed m) = JStr (msg_content m)"
| "content_of (RawMsg d) = dget d ''content''"

text \<open>\<open>{"role": m.role, "content": m.content}\<close>\<close>

definition message_dict :: "llm_message \<Rightarrow> jdict" where
  "message_dict m = [(''role'', JStr (msg_role m)), (''content'', JStr (msg_content m))]"

record tool_call =
  tc_id :: string
  tc_name :: string
  tc_arguments :: string

record assistant_message =
  am_content :: "string option"
  am_tool_calls :: "tool_call list"

section \<open>Request-scoped keys\<close>

record request_secrets =
  rs_openai_api_key :: "string option"
  rs_cohere_api_key :: "string option"

definition secrets_has_any :: "request_secrets \<Rightarrow> bool" where
  "secrets_has_any rs = (str_true (rs_openai_api_key rs) \<or> str_true (rs_cohere_api_key rs))"

section \<open>The OpenAI adapter\<close>

datatype client =
    AzureClient (cl_endpoint: "string option") (cl_key: "string option") string
  | OpenAIClient (cl_key: "string option") (cl_base_url: "string option")

text \<open>
  The endpoint of a client.  \<open>dflt\<close> is the SDK's own default, which it takes when it is given no base URL:
  \<open>api.openai.com\<close> unless the environment says otherwise.
\<close>

fun client_endpoint :: "string \<Rightarrow> client \<Rightarrow> string" where
  "client_endpoint dflt (AzureClient e k v) = (case e of None \<Rightarrow> [] | Some u \<Rightarrow> u)"
| "client_endpoint dflt (OpenAIClient k u) = (case u of None \<Rightarrow> dflt | Some u' \<Rightarrow> u')"

record sdk_call =
  call_client :: client
  call_model :: string
  call_messages :: "jdict list"
  call_temperature :: json
  call_max_tokens :: "int option"
  call_tools :: "json list"

text \<open>\<open>a or b\<close> on optional strings.\<close>

definition sor :: "string option \<Rightarrow> string option \<Rightarrow> string option" where
  "sor a b = (if str_true a then a else b)"

definition build_client :: "settings \<Rightarrow> string option \<Rightarrow> exn + client" where
  "build_client s api_key =
     (if llm_provider s = ''azure''
      then if \<not> (str_true (azure_openai_endpoint s) \<and>
                 str_true (sor api_key (azure_openai_api_key s)))
           then Inl (LLMError (''AZURE_OPENAI_ENDPOINT and a key must be set '' @
                  ''(via Settings or X-OpenAI-API-Key header)''))
           else Inr (AzureClient (azure_openai_endpoint s) (sor api_key (azure_openai_api_key s))
                  (azure_openai_api_version s))
      else if \<not> str_true api_key
      then Inl (LLMError (''No OpenAI API key - set OPENAI_API_KEY in env or send '' @
             ''X-OpenAI-API-Key header (BYOK).''))
      else Inr (OpenAIClient api_key (llm_base_url s)))"

text \<open>
  \<open>_active_client\<close>.  The cached default client is built from the adapter's own settings,
  which never change, so building it anew gives the same client.
\<close>

definition active_client :: "settings \<Rightarrow> request_secrets option \<Rightarrow> exn + client" where
  "active_client s secrets =
     (case secrets of
        Some rs \<Rightarrow>
          if str_true (rs_openai_api_key rs) then build_client s (rs_openai_api_key rs)
          else build_client s (openai_api_key s)
      | None \<Rightarrow> build_client s (openai_api_key s))"

text \<open>\<open>_reraise\<close>, applied to the text of the exception.\<close>

definition llm_reraise :: "string \<Rightarrow> exn" where
  "llm_reraise msg =
     (if contains ''rate limit'' (lower msg) \<or> contains ''429'' (lower msg)
      then LLMRateLimitError msg
      else LLMError (''OpenAI chat completion failed: '' @ msg))"

definition is_rate_limit :: "exn \<Rightarrow> bool" where
  "is_rate_limit e = (case e of LLMRateLimitError _ \<Rightarrow> True | _ \<Rightarrow> False)"

type_synonym sdk_trace = "sdk_call list"

text \<open>
  One request: the client is built inside the \<open>try\<close>, so its configuration errors are
  re-raised like those of the SDK; \<open>choices[0]\<close> and what follows are outside it.
\<close>

definition sdk_request ::
  "(nat \<Rightarrow> sdk_call \<Rightarrow> string + 'r) \<Rightarrow> settings \<Rightarrow> request_secrets option \<Rightarrow>
   (client \<Rightarrow> sdk_call) \<Rightarrow> sdk_trace \<Rightarrow> sdk_trace \<times> (exn + 'r)"
where
  "sdk_request sdk s secrets mk tr =
     (case active_client s secrets of
        Inl e \<Rightarrow> (tr, Inl (llm_reraise (exn_message e)))
      | Inr cl \<Rightarrow>
          (tr @ [mk cl],
           case sdk (length tr) (mk cl) of
             Inl msg \<Rightarrow> Inl (llm_reraise msg)
           | Inr r \<Rightarrow> Inr r))"

text \<open>
  The \<open>tenacity\<close> decorator: up to three attempts, another one only after a rate limit, the last
  exception re-raised.
\<close>

fun retry :: "nat \<Rightarrow> (sdk_trace \<Rightarrow> sdk_trace \<times> (exn + 'a)) \<Rightarrow> sdk_trace \<Rightarrow> sdk_trace \<times> (exn + 'a)" where
  "retry 0 f tr = f tr"
| "retry (Suc n) f tr =
     (case f tr of
        (tr', Inl e) \<Rightarrow> if is_rate_limit e then retry n f tr' else (tr', Inl e)
      | (tr', Inr x) \<Rightarrow> (tr', Inr x))"

record chat_request =
  rq_model :: string
  rq_temperature :: json
  rq_max_tokens :: "int option"

definition mk_call ::
  "settings \<Rightarrow> chat_request \<Rightarrow> jdict list \<Rightarrow> json list \<Rightarrow> client \<Rightarrow> sdk_call" where
  "mk_call s rq ms tools cl =
     \<lparr> call_client = cl,
       call_model = (if rq_model rq = [] then llm_model s else rq_model rq),
       call_messages = ms, call_temperature = rq_temperature rq,
       call_max_tokens = rq_max_tokens rq, call_tools = tools \<rparr>"

definition first_choice :: "string option list \<Rightarrow> exn + string" where
  "first_choice choices =
     (case choices of
        [] \<Rightarrow> Inl (PyExc IndexError)
      | c # _ \<Rightarrow> Inr (case c of None \<Rightarrow> [] | Some t \<Rightarrow> t))"

definition openai_complete ::
  "(nat \<Rightarrow> sdk_call \<Rightarrow> string + string option list) \<Rightarrow> settings \<Rightarrow> request_secrets option \<Rightarrow>
   llm_message list \<Rightarrow> chat_request \<Rightarrow> sdk_trace \<Rightarrow> sdk_trace \<times> (exn + string)"
where
  "openai_complete sdk s secrets ms rq =
     retry 2 (\<lambda>tr.
       case sdk_request sdk s secrets (mk_call s rq (map message_dict ms) []) tr of
         (tr', res) \<Rightarrow> (tr', try_bind res first_choice))"

text \<open>
  Streaming: the deltas (\<open>None\<close> for a chunk without choice or content), then the exception
  that ended the iteration, if one did.  That loop is outside the \<open>try\<close>, so its exceptions
  arrive as the SDK raised them.
\<close>

definition deltas :: "string option list \<Rightarrow> string list" where
  "deltas cs = filter (\<lambda>t. t \<noteq> []) (List.map_filter id cs)"

definition openai_stream ::
  "(nat \<Rightarrow> sdk_call \<Rightarrow> string + (string option list \<times> string option)) \<Rightarrow> settings \<Rightarrow>
   request_secrets option \<Rightarrow> llm_message list \<Rightarrow> chat_request \<Rightarrow> sdk_trace \<Rightarrow>
   sdk_trace \<times> string list \<times> exn option"
where
  "openai_stream sdk s secrets ms rq tr =
     (case sdk_request sdk s secrets (mk_call s rq (map message_dict ms) []) tr of
        (tr', Inl e) \<Rightarrow> (tr', [], Some e)
      | (tr', Inr (cs, err)) \<Rightarrow> (tr', deltas cs, map_option OtherExc err))"

definition openai_chat_with_tools ::
  "(nat \<Rightarrow> sdk_call \<Rightarrow> string + assistant_message list) \<Rightarrow> settings \<Rightarrow> request_secrets option \<Rightarrow>
   jdict list \<Rightarrow> json list \<Rightarrow> chat_request \<Rightarrow> sdk_trace \<Rightarrow> sdk_trace \<times> (exn + assistant_message)"
where
  "openai_chat_with_tools sdk s secrets ms tools rq tr =
     (case sdk_request sdk s secrets (mk_call s rq ms tools) tr of
        (tr', res) \<Rightarrow> (tr', try_bind res (\<lambda>choices.
           case choices of [] \<Rightarrow> Inl (PyExc IndexError) | m # _ \<Rightarrow> Inr m)))"

section \<open>The Ollama adapter\<close>

datatype http_failure = HTimeout string | HTransport string

record http_response =
  hr_status :: nat
  hr_text :: string
  hr_json :: "json option"

definition ollama_url :: "settings \<Rightarrow> string" where
  "ollama_url s = rstrip_of (\<lambda>c. c = CHR ''/'') (ollama_base_url s)"

definition ollama_payload :: "settings \<Rightarrow> llm_message list \<Rightarrow> chat_request \<Rightarrow> bool \<Rightarrow> jdict" where
  "ollama_payload s ms rq streaming =
     [(''model'', JStr (if rq_model rq = [] then llm_model s else rq_model rq)),
      (''messages'', JList (map (JObj \<circ> message_dict) ms)),
      (''stream'', JBool streaming),
      (''options'', JObj ((''temperature'', rq_temperature rq) #
         (case rq_max_tokens rq of None \<Rightarrow> [] | Some n \<Rightarrow> [(''num_predict'', JInt n)])))]"

definition ollama_check_status :: "http_response \<Rightarrow> exn + unit" where
  "ollama_check_status r =
     (if hr_status r = 429 then Inl (LLMRateLimitError ''Ollama 429 - server overloaded'')
      else if hr_status r \<ge> 400
      then let detail =
             (case hr_json r of
                None \<Rightarrow> hr_text r
              | Some j \<Rightarrow>
                  (case jget j ''error'' of
                     Inl _ \<Rightarrow> hr_text r
                   | Inr v \<Rightarrow> if truthy v then py_str v else hr_text r))
           in Inl (LLMError (''Ollama HTTP '' @ nat_str (hr_status r) @ '': '' @ detail))
      else Inr ())"

fun ollama_failure :: "http_failure \<Rightarrow> exn" where
  "ollama_failure (HTimeout m) = LLMTimeoutError (''Ollama timed out: '' @ m)"
| "ollama_failure (HTransport m) = LLMError (''Ollama transport error: '' @ m)"

definition ollama_once :: "http_failure + http_response \<Rightarrow> exn + string" where
  "ollama_once resp =
     (case resp of
        Inl f \<Rightarrow> Inl (ollama_failure f)
      | Inr r \<Rightarrow>
          try_bind (ollama_check_status r) (\<lambda>_.
          try_bind (case hr_json r of None \<Rightarrow> Inl (PyExc ValueError) | Some j \<Rightarrow> Inr j) (\<lambda>data.
          try_bind (jget data ''message'') (\<lambda>m.
          try_bind (jget (por m (JObj [])) ''content'') (\<lambda>c.
            Inr (py_str (por c (JStr [])))))))) "

fun ollama_attempts :: "nat \<Rightarrow> (nat \<Rightarrow> http_failure + http_response) \<Rightarrow> nat \<Rightarrow> exn + string" where
  "ollama_attempts 0 http i = ollama_once (http i)"
| "ollama_attempts (Suc n) http i =
     (case ollama_once (http i) of
        Inl e \<Rightarrow> if is_rate_limit e then ollama_attempts n http (Suc i) else Inl e
      | Inr t \<Rightarrow> Inr t)"

definition ollama_complete ::
  "(nat \<Rightarrow> jdict \<Rightarrow> http_failure + http_response) \<Rightarrow> settings \<Rightarrow> llm_message list \<Rightarrow> chat_request \<Rightarrow>
   exn + string"
where
  "ollama_complete post s ms rq =
     ollama_attempts 2 (\<lambda>i. post i (ollama_payload s ms rq False)) 0"

text \<open>The NDJSON stream: the lines received, then the failure that ended them, if any.\<close>

fun ollama_lines ::
  "(string \<Rightarrow> json option) \<Rightarrow> string list \<Rightarrow> http_failure option \<Rightarrow> json list \<times> exn option" where
  "ollama_lines loads [] fin = ([], map_option ollama_failure fin)"
| "ollama_lines loads (line # rest) fin =
     (if strip line = [] then ollama_lines loads rest fin
      else case loads line of
        None \<Rightarrow> ollama_lines loads rest fin
      | Some (JObj chunk) \<Rightarrow>
          if truthy (dget chunk ''error'')
          then ([], Some (LLMError (''Ollama error: '' @ py_str (dget chunk ''error''))))
          else
            (case jget (por (dget chunk ''message'') (JObj [])) ''content'' of
               Inl e \<Rightarrow> ([], Some e)
             | Inr delta \<Rightarrow>
                 let here = (if truthy delta then [delta] else []) in
                 if truthy (dget chunk ''done'') then (here, None)
                 else (case ollama_lines loads rest fin of (ts, e) \<Rightarrow> (here @ ts, e)))
      | Some _ \<Rightarrow> ([], Some (PyExc AttributeError)))"

definition ollama_stream ::
  "(string \<Rightarrow> json option) \<Rightarrow> (jdict \<Rightarrow> http_failure + (http_response \<times> string list \<times> http_failure option)) \<Rightarrow>
   settings \<Rightarrow> llm_message list \<Rightarrow> chat_request \<Rightarrow> json list \<times> exn option"
where
  "ollama_stream loads post s ms rq =
     (case post (ollama_payload s ms rq True) of
        Inl f \<Rightarrow> ([], Some (ollama_failure f))
      | Inr (r, lines, fin) \<Rightarrow>
          (case ollama_check_status r of
             Inl e \<Rightarrow> ([], Some e)
           | Inr _ \<Rightarrow> ollama_lines loads lines fin))"

section \<open>Lemmas\<close>

text \<open>\<open>extends P tr tr'\<close>: the trace grew, by requests that satisfy \<open>P\<close>.\<close>

definition extends :: "('a \<Rightarrow> bool) \<Rightarrow> 'a list \<Rightarrow> 'a list \<Rightarrow> bool" where
  "extends P tr tr' \<longleftrightarrow> (\<exists>new. tr' = tr @ new \<and> list_all P new)"

lemma extends_refl [simp, intro]: "extends P tr tr"
  by (simp add: extends_def)

lemma extends_snoc: "P c \<Longrightarrow> extends P tr (tr @ [c])"
  by (simp add: extends_def)

lemma extends_trans [trans]: "extends P a b \<Longrightarrow> extends P b c \<Longrightarrow> extends P a c"
  by (auto simp: extends_def)

lemma extends_mono: "extends P a b \<Longrightarrow> (\<And>c. P c \<Longrightarrow> Q c) \<Longrightarrow> extends Q a b"
  by (auto simp: extends_def list_all_iff)

lemma extends_drop: "extends P a b \<Longrightarrow> c \<in> set (drop (length a) b) \<Longrightarrow> P c"
  by (auto simp: extends_def list_all_iff)

lemma build_client_base_url:
  "build_client s k = Inr cl \<Longrightarrow> llm_provider s \<noteq> ''azure'' \<Longrightarrow>
     cl = OpenAIClient k (llm_base_url s)"
  by (auto simp: build_client_def split: if_splits)

lemma active_client_base_url:
  "active_client s secrets = Inr cl \<Longrightarrow> llm_provider s \<noteq> ''azure'' \<Longrightarrow>
     \<exists>k. cl = OpenAIClient k (llm_base_url s)"
  by (auto simp: active_client_def split: option.splits if_splits dest: build_client_base_url)

text \<open>What a request of an adapter with settings \<open>s\<close> looks like: where it goes, model and cap.\<close>

definition sent_by :: "settings \<Rightarrow> chat_request \<Rightarrow> sdk_call \<Rightarrow> bool" where
  "sent_by s rq c \<longleftrightarrow>
     (\<exists>k. call_client c = OpenAIClient k (llm_base_url s)) \<and>
     call_model c = (if rq_model rq = [] then llm_model s else rq_model rq) \<and>
     call_max_tokens c = rq_max_tokens rq"

lemma sdk_request_extends:
  assumes "llm_provider s \<noteq> ''azure''"
  shows "extends (sent_by s rq) tr (fst (sdk_request sdk s secrets (mk_call s rq ms tools) tr))"
  using assms active_client_base_url [of s secrets]
  by (auto simp: sdk_request_def sent_by_def mk_call_def split: sum.split intro!: extends_snoc)

lemma retry_extends:
  assumes "\<And>tr. extends P tr (fst (f tr))"
  shows "extends P tr (fst (retry n f tr))"
proof (induction n arbitrary: tr)
  case (Suc n)
  then show ?case using assms [of tr]
    by (auto split: prod.split sum.split intro: extends_trans)
qed (simp add: assms)

lemma openai_complete_extends:
  "llm_provider s \<noteq> ''azure'' \<Longrightarrow>
     extends (sent_by s rq) tr (fst (openai_complete sdk s secrets ms rq tr))"
  unfolding openai_complete_def
  by (rule retry_extends) (simp add: split_beta sdk_request_extends)

lemma openai_stream_extends:
  "llm_provider s \<noteq> ''azure'' \<Longrightarrow>
     extends (sent_by s rq) tr (fst (openai_stream sdk s secrets ms rq tr))"
  using sdk_request_extends [of s rq tr sdk secrets "map message_dict ms" "[]"]
  by (auto simp: openai_stream_def split: prod.split sum.split)

lemma openai_tools_extends:
  "llm_provider s \<noteq> ''azure'' \<Longrightarrow>
     extends (sent_by s rq) tr
       (fst (openai_chat_with_tools sdk s secrets ms tools rq tr))"
  by (simp add: openai_chat_with_tools_def split_beta sdk_request_extends)

lemma llm_reraise_LLMError [simp]: "is_LLMError (llm_reraise m)"
  by (simp add: llm_reraise_def)

lemma sdk_request_Inl: "sdk_request sdk s secrets mk tr = (tr', Inl e) \<Longrightarrow> is_LLMError e"
  by (auto simp: sdk_request_def split: sum.splits)

lemma retry_Inl:
  assumes "\<And>tr tr' e. f tr = (tr', Inl e) \<Longrightarrow> P e"
  shows "retry n f tr = (tr', Inl e) \<Longrightarrow> P e"
  by (induction n arbitrary: tr) (auto split: prod.splits sum.splits if_splits dest: assms)

lemma retry_requests:
  assumes "\<And>tr. length (fst (f tr)) \<le> length tr + 1"
  shows "length (fst (retry n f tr)) \<le> length tr + n + 1"
proof (induction n arbitrary: tr)
  case (Suc n)
  show ?case
  proof (cases "f tr")
    case (Pair tr' r)
    then have "length tr' \<le> length tr + 1" using assms [of tr] by simp
    then show ?thesis using Suc.IH [of tr'] Pair by (auto split: sum.split)
  qed
qed (use assms in simp)

lemma sdk_request_length: "length (fst (sdk_request sdk s secrets mk tr)) \<le> length tr + 1"
  by (simp add: sdk_request_def split: sum.split)

section \<open>Properties\<close>

text \<open>
  A completion costs at most three requests; every exception of it is an \<open>LLMError\<close>, or
  the \<open>IndexError\<close> of a reply without choices.\<close>

theorem openai_complete_bounded:
  "case openai_complete sdk s secrets ms rq tr of (tr', res) \<Rightarrow>
     length tr' \<le> length tr + 3 \<and>
     (case res of Inl e \<Rightarrow> is_LLMError e \<or> e = PyExc IndexError | Inr _ \<Rightarrow> True)"
proof -
  let ?f = "\<lambda>tr. case sdk_request sdk s secrets (mk_call s rq (map message_dict ms) []) tr of
      (tr', res) \<Rightarrow> (tr', try_bind res first_choice)"
  have choice: "first_choice cs = Inl e \<Longrightarrow> e = PyExc IndexError" for cs e
    by (simp add: first_choice_def split: list.splits)
  have once: "is_LLMError e \<or> e = PyExc IndexError" if "?f t = (t', Inl e)" for t t' e
  proof (cases "sdk_request sdk s secrets (mk_call s rq (map message_dict ms) []) t")
    case (Pair u r)
    then show ?thesis using that sdk_request_Inl [of sdk s secrets _ t u] choice
      by (cases r) auto
  qed
  have len: "length (fst (?f t)) \<le> length t + 1" for t
    using sdk_request_length [of sdk s secrets _ t] by (simp add: split_beta)
  obtain tr' res where r: "retry 2 ?f tr = (tr', res)" by fastforce
  have "length tr' \<le> length tr + 3" using retry_requests [of ?f 2 tr, OF len] r by simp
  moreover have "is_LLMError e \<or> e = PyExc IndexError" if "res = Inl e" for e
    by (rule retry_Inl [of ?f _ 2 tr tr' e]) (fact once, use r that in simp)
  ultimately show ?thesis by (simp add: openai_complete_def r split: sum.split)
qed

end
