(* ===== verification/GatewayService.thy ===== *)
theory GatewayService
  imports GatewayGuard LlmAdapters
begin

text \<open>
  The gateway (\<open>core/gateway/service.py\<close>): quota, guard, sovereign lock, the failover loop of
  the three entry points \<open>complete\<close>, \<open>stream\<close> and \<open>complete_with_tools\<close>, and the metering of
  each call; and the adapter that other services hold (\<open>core/gateway/llm_adapter.py\<close>).

  The environment \<open>gw_env\<close> holds what the gateway reads: settings, the tenants table, the request
  secrets, the answers of the SDK, the clock of the ledger, the timer and whether the database
  accepts a write.  The state holds what it changes: the ledger, the number of ledger writes
  tried so far, and the trace of the requests sent to model servers.
\<close>

record gw_env =
  e_settings :: settings
  e_db :: "uuid \<rightharpoonup> tenant_settings"
  e_secrets :: "request_secrets option"
  e_tik :: "string \<Rightarrow> nat option"
  e_now :: "nat \<Rightarrow> int"
  e_latency :: "nat \<Rightarrow> rat"
  e_write_ok :: "nat \<Rightarrow> bool"
  e_complete :: "nat \<Rightarrow> sdk_call \<Rightarrow> string + string option list"
  e_stream :: "nat \<Rightarrow> sdk_call \<Rightarrow> string + (string option list \<times> string option)"
  e_tools :: "nat \<Rightarrow> sdk_call \<Rightarrow> string + assistant_message list"

record gw_state =
  gs_ledger :: ledger
  gs_writes :: nat
  gs_trace :: sdk_trace

record gateway_result =
  gr_text :: string
  gr_route :: model_route
  gr_usage :: usage_record

text \<open>The arguments shared by the entry points.\<close>

record gw_request =
  gq_ctx :: gateway_context
  gq_temperature :: json
  gq_max_tokens :: "int option"

section \<open>Prompt texts\<close>

definition prompt_text :: "llm_message list \<Rightarrow> string" where
  "prompt_text ms = join nl (map msg_content ms)"

definition user_text :: "message list \<Rightarrow> string" where
  "user_text ms =
     join nl (map (\<lambda>m. py_str (content_of m))
       (filter (\<lambda>m. role_of m = JStr ''user'' \<and> truthy (content_of m)) ms))"

definition tools_prompt :: "jdict list \<Rightarrow> string" where
  "tools_prompt ms = join nl (map (\<lambda>m. py_str (por (dget m ''content'') (JStr []))) ms)"

section \<open>Metering\<close>

definition meter :: "gw_env \<Rightarrow> gateway_context \<Rightarrow> usage_record \<Rightarrow> gw_state \<Rightarrow> gw_state" where
  "meter E ctx u st =
     st\<lparr> gs_ledger := record_usage (e_write_ok E (gs_writes st)) (e_now E (gs_writes st)) ctx u
           (gs_ledger st),
         gs_writes := Suc (gs_writes st) \<rparr>"

definition target_usage ::
  "gw_env \<Rightarrow> gw_state \<Rightarrow> model_target \<Rightarrow> string \<Rightarrow> string \<Rightarrow> string \<Rightarrow> string option \<Rightarrow> usage_record"
where
  "target_usage E st t prompt completion status error =
     usage_from_text (e_settings E) (e_tik E) prompt completion (Some (tgt_provider t))
       (Some (tgt_model t)) (Some (e_latency E (gs_writes st))) status error"

definition meter_ok ::
  "gw_env \<Rightarrow> gateway_context \<Rightarrow> model_target \<Rightarrow> string \<Rightarrow> string \<Rightarrow> gw_state \<Rightarrow> gw_state" where
  "meter_ok E ctx t prompt completion st =
     meter E ctx (target_usage E st t prompt completion ''ok'' None) st"

definition meter_error ::
  "gw_env \<Rightarrow> gateway_context \<Rightarrow> model_target \<Rightarrow> string \<Rightarrow> string \<Rightarrow> exn \<Rightarrow> gw_state \<Rightarrow> gw_state" where
  "meter_error E ctx t prompt completion e st =
     meter E ctx (target_usage E st t prompt completion ''error'' (Some (take 500 (exn_message e)))) st"

section \<open>The gate and the screen\<close>

text \<open>
  The tail of \<open>_gate\<close>: drop the cloud targets of a cloud-locked tenant, failing closed when
  nothing is left; then the targets that are not configured, unless that leaves nothing.
\<close>

definition lock_chain :: "policy \<Rightarrow> model_target list \<Rightarrow> exn + model_target list" where
  "lock_chain pol chain0 =
     (let chain = (if allow_cloud pol then chain0 else filter sovereign chain0);
          usable = filter configured chain in
       if \<not> allow_cloud pol \<and> chain = []
       then Inl (PolicyViolation
         (''Cloud models are disabled for this tenant (sovereign lock) '' @
          ''and no sovereign model is configured.''))
       else Inr (if usable = [] then chain else usable))"

definition gate :: "gw_env \<Rightarrow> gw_state \<Rightarrow> gateway_context \<Rightarrow> exn + (model_target list \<times> policy)" where
  "gate E st ctx =
     (let ts = load_tenant_settings (e_db E) (ctx_tenant_id ctx); s = e_settings E in
       try_bind (resolve_policy ts) (\<lambda>pol.
       try_bind (enforce_quota_service s (e_db E) (e_now E (gs_writes st)) (gs_ledger st) ctx
                   (Given (Some (case ts of None \<Rightarrow> [] | Some d \<Rightarrow> d)))) (\<lambda>_.
       try_bind (resolve_target_chain ts s) (\<lambda>chain0.
       try_bind (lock_chain pol chain0) (\<lambda>chain. Inr (chain, pol))))))"

definition screen_step ::
  "gw_env \<Rightarrow> gateway_context \<Rightarrow> message list \<Rightarrow> policy \<Rightarrow> gw_state \<Rightarrow> gw_state \<times> (exn + unit)" where
  "screen_step E ctx ms pol st =
     (if \<not> jailbreak_guard pol then (st, Inr ())
      else
        let text' = user_text ms; verdict = screen text' in
        if \<not> flagged verdict then (st, Inr ())
        else
          (meter E ctx
             (usage_from_text (e_settings E) (e_tik E) text' [] (Some ''guard'')
               (Some ''jailbreak-guard'') (Some 0) ''blocked''
               (Some (take 500 (''jailbreak guard: '' @ reason verdict)))) st,
           Inl (GuardViolation (''This request was blocked by the safety guard '' @
             ''(possible prompt-injection / jailbreak: '' @ reason verdict @ '').''))))"

section \<open>The loops over the target chain\<close>

definition no_target :: exn where
  "no_target = LLMError ''No usable model target for this request''"

text \<open>What happens after the loop: the last failure is re-raised.\<close>

definition give_up :: "exn option \<Rightarrow> exn" where
  "give_up last_exc = (case last_exc of Some e \<Rightarrow> e | None \<Rightarrow> no_target)"

fun adapter_settings :: "llm_adapter \<Rightarrow> settings" where
  "adapter_settings (OpenAIChatLLM s) = s"
| "adapter_settings (OllamaLLM s) = s"

text \<open>\<open>hasattr(adapter, "chat_with_tools")\<close>\<close>

fun has_chat_with_tools :: "llm_adapter \<Rightarrow> bool" where
  "has_chat_with_tools (OpenAIChatLLM s) = True"
| "has_chat_with_tools (OllamaLLM s) = False"

definition bound :: "gw_env \<Rightarrow> model_target \<Rightarrow> settings" where
  "bound E t = adapter_settings (get_llm_for_target (e_settings E) t)"

definition target_request :: "gw_request \<Rightarrow> policy \<Rightarrow> model_target \<Rightarrow> chat_request" where
  "target_request rq pol t =
     \<lparr> rq_model = tgt_model t, rq_temperature = gq_temperature rq,
       rq_max_tokens = effective_max_tokens pol (gq_max_tokens rq) \<rparr>"

fun complete_loop ::
  "gw_env \<Rightarrow> gw_request \<Rightarrow> llm_message list \<Rightarrow> policy \<Rightarrow> exn option \<Rightarrow> model_target list \<Rightarrow>
   gw_state \<Rightarrow> gw_state \<times> (exn + gateway_result)"
where
  "complete_loop E rq ms pol last_exc [] st = (st, Inl (give_up last_exc))"
| "complete_loop E rq ms pol last_exc (t # rest) st =
     (case enforce pol (Some (tgt_model t)) of
        Inl e \<Rightarrow> complete_loop E rq ms pol (Some e) rest st
      | Inr _ \<Rightarrow>
          (case openai_complete (e_complete E) (bound E t) (e_secrets E) ms
                  (target_request rq pol t) (gs_trace st) of
             (tr, Inl e) \<Rightarrow>
               let st1 = st\<lparr> gs_trace := tr \<rparr> in
               if \<not> is_LLMError e then (st1, Inl e)
               else
                 let st2 = meter_error E (gq_ctx rq) t (prompt_text ms) [] e st1 in
                 if rest \<noteq> [] then complete_loop E rq ms pol (Some e) rest st2
                 else (st2, Inl e)
           | (tr, Inr text') \<Rightarrow>
               let st1 = st\<lparr> gs_trace := tr \<rparr> in
               (meter_ok E (gq_ctx rq) t (prompt_text ms) text' st1,
                Inr \<lparr> gr_text = text',
                  gr_route = \<lparr> rt_provider = tgt_provider t, rt_model = tgt_model t,
                    rt_purpose = ctx_purpose (gq_ctx rq) \<rparr>,
                  gr_usage = target_usage E st1 t (prompt_text ms) text' ''ok'' None \<rparr>)))"

text \<open>The stream: the tokens that reach the client, and the exception that ended it, if any.\<close>

fun stream_loop ::
  "gw_env \<Rightarrow> gw_request \<Rightarrow> llm_message list \<Rightarrow> policy \<Rightarrow> exn option \<Rightarrow> model_target list \<Rightarrow>
   gw_state \<Rightarrow> gw_state \<times> string list \<times> exn option"
where
  "stream_loop E rq ms pol last_exc [] st = (st, [], Some (give_up last_exc))"
| "stream_loop E rq ms pol last_exc (t # rest) st =
     (case enforce pol (Some (tgt_model t)) of
        Inl e \<Rightarrow> stream_loop E rq ms pol (Some e) rest st
      | Inr _ \<Rightarrow>
          (case openai_stream (e_stream E) (bound E t) (e_secrets E) ms
                  (target_request rq pol t) (gs_trace st) of
             (tr, parts, Some e) \<Rightarrow>
               let st1 = st\<lparr> gs_trace := tr \<rparr> in
               if \<not> is_LLMError e then (st1, parts, Some e)
               else if parts = [] \<and> rest \<noteq> [] then stream_loop E rq ms pol (Some e) rest st1
               else (meter_error E (gq_ctx rq) t (prompt_text ms) (concat parts) e st1, parts, Some e)
           | (tr, parts, None) \<Rightarrow>
               (meter_ok E (gq_ctx rq) t (prompt_text ms) (concat parts) (st\<lparr> gs_trace := tr \<rparr>),
                parts, None)))"

fun tools_loop ::
  "gw_env \<Rightarrow> gw_request \<Rightarrow> jdict list \<Rightarrow> json list \<Rightarrow> policy \<Rightarrow> exn option \<Rightarrow> model_target list \<Rightarrow>
   gw_state \<Rightarrow> gw_state \<times> (exn + assistant_message)"
where
  "tools_loop E rq ms tools pol last_exc [] st = (st, Inl (give_up last_exc))"
| "tools_loop E rq ms tools pol last_exc (t # rest) st =
     (case enforce pol (Some (tgt_model t)) of
        Inl e \<Rightarrow> tools_loop E rq ms tools pol (Some e) rest st
      | Inr _ \<Rightarrow>
          if \<not> has_chat_with_tools (get_llm_for_target (e_settings E) t)
          then tools_loop E rq ms tools pol
                 (Some (LLMError (''target '' @ tgt_name t @ '' adapter does not support tool-calling'')))
                 rest st
          else
            (case openai_chat_with_tools (e_tools E) (bound E t) (e_secrets E) ms tools
                    (target_request rq pol t) (gs_trace st) of
               (tr, Inl e) \<Rightarrow>
                 let st1 = st\<lparr> gs_trace := tr \<rparr> in
                 if \<not> is_LLMError e then (st1, Inl e)
                 else
                   let st2 = meter_error E (gq_ctx rq) t (tools_prompt ms) [] e st1 in
                   if rest \<noteq> [] then tools_loop E rq ms tools pol (Some e) rest st2
                   else (st2, Inl e)
             | (tr, Inr msg) \<Rightarrow>
                 (meter_ok E (gq_ctx rq) t (tools_prompt ms)
                    (case am_content msg of None \<Rightarrow> [] | Some c \<Rightarrow> c) (st\<lparr> gs_trace := tr \<rparr>),
                  Inr msg)))"

section \<open>The entry points\<close>

definition complete ::
  "gw_env \<Rightarrow> gw_request \<Rightarrow> llm_message list \<Rightarrow> gw_state \<Rightarrow> gw_state \<times> (exn + gateway_result)" where
  "complete E rq ms st =
     (case gate E st (gq_ctx rq) of
        Inl e \<Rightarrow> (st, Inl e)
      | Inr (chain, pol) \<Rightarrow>
          (case screen_step E (gq_ctx rq) (map Typed ms) pol st of
             (st1, Inl e) \<Rightarrow> (st1, Inl e)
           | (st1, Inr _) \<Rightarrow> complete_loop E rq ms pol None chain st1))"

definition stream ::
  "gw_env \<Rightarrow> gw_request \<Rightarrow> llm_message list \<Rightarrow> gw_state \<Rightarrow> gw_state \<times> string list \<times> exn option" where
  "stream E rq ms st =
     (case gate E st (gq_ctx rq) of
        Inl e \<Rightarrow> (st, [], Some e)
      | Inr (chain, pol) \<Rightarrow>
          (case screen_step E (gq_ctx rq) (map Typed ms) pol st of
             (st1, Inl e) \<Rightarrow> (st1, [], Some e)
           | (st1, Inr _) \<Rightarrow> stream_loop E rq ms pol None chain st1))"

definition complete_with_tools ::
  "gw_env \<Rightarrow> gw_request \<Rightarrow> jdict list \<Rightarrow> json list \<Rightarrow> gw_state \<Rightarrow>
   gw_state \<times> (exn + assistant_message)"
where
  "complete_with_tools E rq ms tools st =
     (case gate E st (gq_ctx rq) of
        Inl e \<Rightarrow> (st, Inl e)
      | Inr (chain, pol) \<Rightarrow>
          (case screen_step E (gq_ctx rq) (map RawMsg ms) pol st of
             (st1, Inl e) \<Rightarrow> (st1, Inl e)
           | (st1, Inr _) \<Rightarrow> tools_loop E rq ms tools pol None chain st1))"

text \<open>\<open>GatewayLLMAdapter\<close>: the adapter bound to a tenant and a purpose; model arguments are ignored.\<close>

record gateway_adapter =
  ga_tenant_id :: uuid
  ga_purpose :: string
  ga_user_id :: "string option"
  ga_request_id :: "string option"
  ga_tenant_slug :: string

definition adapter_ctx :: "gateway_adapter \<Rightarrow> gateway_context" where
  "adapter_ctx a =
     \<lparr> ctx_tenant_id = ga_tenant_id a, ctx_tenant_slug = ga_tenant_slug a,
       ctx_user_id = ga_user_id a, ctx_plan = None, ctx_purpose = ga_purpose a,
       ctx_request_id = ga_request_id a \<rparr>"

definition adapter_request :: "gateway_adapter \<Rightarrow> json \<Rightarrow> int option \<Rightarrow> gw_request" where
  "adapter_request a temp mt =
     \<lparr> gq_ctx = adapter_ctx a, gq_temperature = temp, gq_max_tokens = mt \<rparr>"

definition adapter_complete ::
  "gw_env \<Rightarrow> gateway_adapter \<Rightarrow> llm_message list \<Rightarrow> json \<Rightarrow> int option \<Rightarrow> gw_state \<Rightarrow>
   gw_state \<times> (exn + string)"
where
  "adapter_complete E a ms temp mt st =
     (case complete E (adapter_request a temp mt) ms st of
        (st', res) \<Rightarrow> (st', try_bind res (\<lambda>r. Inr (gr_text r))))"

definition adapter_stream ::
  "gw_env \<Rightarrow> gateway_adapter \<Rightarrow> llm_message list \<Rightarrow> json \<Rightarrow> int option \<Rightarrow> gw_state \<Rightarrow>
   gw_state \<times> string list \<times> exn option"
where
  "adapter_stream E a ms temp mt st = stream E (adapter_request a temp mt) ms st"

definition adapter_chat_with_tools ::
  "gw_env \<Rightarrow> gateway_adapter \<Rightarrow> jdict list \<Rightarrow> json list \<Rightarrow> json \<Rightarrow> int option \<Rightarrow> gw_state \<Rightarrow>
   gw_state \<times> (exn + assistant_message)"
where
  "adapter_chat_with_tools E a ms tools temp mt st =
     complete_with_tools E (adapter_request a temp mt) ms tools st"

section \<open>The gate\<close>

lemma sovereign_base_url:
  "t \<in> set (map snd (available_targets s)) \<Longrightarrow> sovereign t \<Longrightarrow> tgt_base_url t = llm_base_url s"
  by (auto simp: available_targets_def)

lemma lock_chain_Inr:
  "lock_chain pol chain0 = Inr chain \<Longrightarrow> chain0 \<noteq> [] \<Longrightarrow>
     chain \<noteq> [] \<and> set chain \<subseteq> set chain0 \<and> (\<not> allow_cloud pol \<longrightarrow> (\<forall>t \<in> set chain. sovereign t))"
  by (auto simp: lock_chain_def Let_def split: if_splits)

lemma gate_InrD:
  assumes "gate E st ctx = Inr (chain, pol)"
  shows "resolve_policy (load_tenant_settings (e_db E) (ctx_tenant_id ctx)) = Inr pol"
    and "chain \<noteq> []"
    and "set chain \<subseteq> set (map snd (available_targets (e_settings E)))"
    and "\<not> allow_cloud pol \<Longrightarrow> t \<in> set chain \<Longrightarrow> sovereign t"
proof -
  let ?ts = "load_tenant_settings (e_db E) (ctx_tenant_id ctx)"
  obtain chain0 where c0: "resolve_target_chain ?ts (e_settings E) = Inr chain0"
    and pol: "resolve_policy ?ts = Inr pol" and lock: "lock_chain pol chain0 = Inr chain"
    using assms unfolding gate_def Let_def try_bind_eq_Inr by blast
  note facts = lock_chain_Inr [OF lock target_chain_facts(1) [OF c0]]
  show "resolve_policy ?ts = Inr pol" by (rule pol)
  show "chain \<noteq> []" using facts by simp
  show "set chain \<subseteq> set (map snd (available_targets (e_settings E)))"
    using facts target_chain_facts(2) [OF c0] by blast
  show "sovereign t" if "\<not> allow_cloud pol" "t \<in> set chain" using facts that by blast
qed

lemma screen_step_pass: "screen_step E ctx ms pol st = (st1, Inr u) \<Longrightarrow> st1 = st"
  by (auto simp: screen_step_def Let_def split: if_splits)

lemma meter_sel [simp]:
  "gs_trace (meter E ctx u st) = gs_trace st"
  "gs_writes (meter E ctx u st) = Suc (gs_writes st)"
  "gs_ledger (meter E ctx u st) =
     record_usage (e_write_ok E (gs_writes st)) (e_now E (gs_writes st)) ctx u (gs_ledger st)"
  by (simp_all add: meter_def)

lemma meter_sel_target [simp]:
  "gs_trace (meter_ok E ctx t p c st) = gs_trace st"
  "gs_trace (meter_error E ctx t p c e st) = gs_trace st"
  by (simp_all add: meter_ok_def meter_error_def)

lemma screen_step_block:
  assumes "screen_step E ctx ms pol st = (st1, Inl e)"
  shows "jailbreak_guard pol" and "flagged (screen (user_text ms))"
    and "\<exists>m. e = GuardViolation m" and "\<exists>u. st1 = meter E ctx u st \<and> ur_status u = ''blocked''"
proof -
  have b: "jailbreak_guard pol \<and> flagged (screen (user_text ms))"
    using assms by (simp add: screen_step_def Let_def split: if_splits)
  then show "jailbreak_guard pol" "flagged (screen (user_text ms))" by simp_all
  show "\<exists>m. e = GuardViolation m"
    using assms b by (simp add: screen_step_def Let_def) blast
  have "st1 = meter E ctx (usage_from_text (e_settings E) (e_tik E) (user_text ms) []
      (Some ''guard'') (Some ''jailbreak-guard'') (Some 0) ''blocked''
      (Some (take 500 (''jailbreak guard: '' @ reason (screen (user_text ms)))))) st"
    using assms b by (simp add: screen_step_def Let_def)
  then show "\<exists>u. st1 = meter E ctx u st \<and> ur_status u = ''blocked''"
    by (intro exI conjI, assumption) simp
qed

end
