(* ===== verification/GatewayGovernance.thy ===== *)
theory GatewayGovernance
  imports GatewayService
begin

text \<open>
  What the gateway promises, for its three entry points alike.  The contract is the locale
  \<open>governed_entry\<close>: a loop over the target chain whose requests all go to an allowed target of
  the chain and which only appends to the ledger, behind the gate and the screen.  The three
  loops are its interpretations, and the promises are proved once, inside it.
\<close>

section \<open>The loops meet the contract\<close>

definition served_by :: "gw_env \<Rightarrow> gw_request \<Rightarrow> policy \<Rightarrow> model_target set \<Rightarrow> sdk_call \<Rightarrow> bool" where
  "served_by E rq pol C c \<longleftrightarrow>
     (\<exists>t \<in> C. enforce pol (Some (tgt_model t)) = Inr () \<and>
        sent_by (bound E t) (target_request rq pol t) c)"

lemma bound_sel [simp]:
  "llm_provider (bound E t) = ''openai''" "llm_base_url (bound E t) = tgt_base_url t"
  "llm_model (bound E t) = tgt_model t"
  by (simp_all add: bound_def get_llm_for_target_def)

lemma served_byI:
  assumes "enforce pol (Some (tgt_model t)) = Inr u" "t \<in> C"
    and "extends (sent_by (bound E t) (target_request rq pol t)) a b"
  shows "extends (served_by E rq pol C) a b"
  using assms(3) by (rule extends_mono) (use assms(1,2) in \<open>auto simp: served_by_def\<close>)

lemma record_usage_extends: "prefix l (record_usage ok now ctx u l)"
  by (simp add: record_usage_def)

lemma meter_prefix [simp]: "prefix (gs_ledger st) (gs_ledger (meter E ctx u st))"
  by (simp add: record_usage_extends)

lemma meter_prefix_target [simp]:
  "prefix (gs_ledger st) (gs_ledger (meter_ok E ctx t p c st))"
  "prefix (gs_ledger st) (gs_ledger (meter_error E ctx t p c e st))"
  by (simp_all only: meter_ok_def meter_error_def meter_prefix)

text \<open>What a loop does to the state: the requests it adds, and the ledger it extends.\<close>

definition evolves :: "(sdk_call \<Rightarrow> bool) \<Rightarrow> gw_state \<Rightarrow> gw_state \<Rightarrow> bool" where
  "evolves P st st' \<longleftrightarrow>
     extends P (gs_trace st) (gs_trace st') \<and> prefix (gs_ledger st) (gs_ledger st')"

lemma evolves_refl [simp]: "evolves P st st"
  by (simp add: evolves_def)

lemma evolves_trans: "evolves P a b \<Longrightarrow> evolves P b c \<Longrightarrow> evolves P a c"
  unfolding evolves_def by (blast intro: extends_trans prefix_order.trans)

lemma evolves_trace: "extends P (gs_trace st) tr \<Longrightarrow> evolves P st (st\<lparr> gs_trace := tr \<rparr>)"
  by (simp add: evolves_def)

lemma evolves_meter:
  "evolves P st (st1) \<Longrightarrow> evolves P st (meter_ok E ctx t p c st1)"
  "evolves P st (st1) \<Longrightarrow> evolves P st (meter_error E ctx t p c e st1)"
  unfolding evolves_def
  by (auto intro: prefix_order.trans [OF _ meter_prefix_target(1)]
      prefix_order.trans [OF _ meter_prefix_target(2)])

lemmas evolves_intros = evolves_refl evolves_trace evolves_meter

lemma complete_request_served:
  assumes "openai_complete sdk (bound E t) secrets ms (target_request rq pol t) tr = (tr', r)"
    and "enforce pol (Some (tgt_model t)) = Inr u" "t \<in> C"
  shows "extends (served_by E rq pol C) tr tr'"
  using openai_complete_extends [of "bound E t" "target_request rq pol t" tr sdk secrets ms]
    served_byI [OF assms(2,3)] assms(1) by simp

lemma stream_request_served:
  assumes "openai_stream sdk (bound E t) secrets ms (target_request rq pol t) tr = (tr', r)"
    and "enforce pol (Some (tgt_model t)) = Inr u" "t \<in> C"
  shows "extends (served_by E rq pol C) tr tr'"
  using openai_stream_extends [of "bound E t" "target_request rq pol t" tr sdk secrets ms]
    served_byI [OF assms(2,3)] assms(1) by simp

lemma tools_request_served:
  assumes "openai_chat_with_tools sdk (bound E t) secrets ms tools (target_request rq pol t) tr =
      (tr', r)"
    and "enforce pol (Some (tgt_model t)) = Inr u" "t \<in> C"
  shows "extends (served_by E rq pol C) tr tr'"
  using openai_tools_extends [of "bound E t" "target_request rq pol t" tr sdk secrets ms tools]
    served_byI [OF assms(2,3)] assms(1) by simp

lemma complete_loop_evolves:
  "set chain \<subseteq> C \<Longrightarrow>
     evolves (served_by E rq pol C) st (fst (complete_loop E rq ms pol last_exc chain st))"
proof (induction E rq ms pol last_exc chain st rule: complete_loop.induct)
  case (2 E rq ms pol last_exc t rest st)
  show ?case
  proof (cases "enforce pol (Some (tgt_model t))")
    case (Inl e)
    then show ?thesis using 2 by simp
  next
    case (Inr u)
    obtain tr r where call: "openai_complete (e_complete E) (bound E t) (e_secrets E) ms
        (target_request rq pol t) (gs_trace st) = (tr, r)" by fastforce
    have step: "evolves (served_by E rq pol C) st (st\<lparr> gs_trace := tr \<rparr>)"
      using complete_request_served [OF call Inr, of C] 2(3) by (simp add: evolves_trace)
    show ?thesis
    proof (cases r)
      case (Inl e)
      have err: "evolves (served_by E rq pol C) st
          (meter_error E (gq_ctx rq) t (prompt_text ms) [] e (st\<lparr> gs_trace := tr \<rparr>))"
        by (rule evolves_meter(2) [OF step])
      then have "evolves (served_by E rq pol C) st (fst (complete_loop E rq ms pol (Some e) rest
          (meter_error E (gq_ctx rq) t (prompt_text ms) [] e (st\<lparr> gs_trace := tr \<rparr>))))"
        if "is_LLMError e" "rest \<noteq> []"
        using evolves_trans [OF err 2(2) [OF Inr call [symmetric] Inl refl]] that 2(3) by simp
      then show ?thesis using Inr call Inl step err by (simp add: Let_def)
    next
      case (Inr r')
      then show ?thesis using \<open>enforce pol (Some (tgt_model t)) = Inr u\<close> call
          evolves_meter(1) [OF step] by (simp add: Let_def)
    qed
  qed
qed simp

lemma stream_loop_evolves:
  "set chain \<subseteq> C \<Longrightarrow>
     evolves (served_by E rq pol C) st (fst (stream_loop E rq ms pol last_exc chain st))"
proof (induction E rq ms pol last_exc chain st rule: stream_loop.induct)
  case (2 E rq ms pol last_exc t rest st)
  show ?case
  proof (cases "enforce pol (Some (tgt_model t))")
    case (Inl e)
    then show ?thesis using 2 by simp
  next
    case (Inr u)
    obtain tr parts r where call: "openai_stream (e_stream E) (bound E t) (e_secrets E) ms
        (target_request rq pol t) (gs_trace st) = (tr, parts, r)" using prod_cases3 by blast
    have step: "evolves (served_by E rq pol C) st (st\<lparr> gs_trace := tr \<rparr>)"
      using stream_request_served [OF call Inr, of C] 2(3) by (simp add: evolves_trace)
    show ?thesis
    proof (cases r)
      case None
      then show ?thesis using Inr call evolves_meter(1) [OF step] by simp
    next
      case (Some e)
      have "evolves (served_by E rq pol C) st
          (fst (stream_loop E rq ms pol (Some e) rest (st\<lparr> gs_trace := tr \<rparr>)))"
        if "is_LLMError e" "parts = []" "rest \<noteq> []"
        using evolves_trans [OF step 2(2) [OF Inr call [symmetric] refl Some refl]] that 2(3)
        by simp
      then show ?thesis using Inr call Some step evolves_meter(2) [OF step] by (simp add: Let_def)
    qed
  qed
qed simp

lemma tools_loop_evolves:
  "set chain \<subseteq> C \<Longrightarrow>
     evolves (served_by E rq pol C) st (fst (tools_loop E rq ms tools pol last_exc chain st))"
proof (induction E rq ms tools pol last_exc chain st rule: tools_loop.induct)
  case (2 E rq ms tools pol last_exc t rest st)
  have has: "has_chat_with_tools (get_llm_for_target (e_settings E) t)"
    by (simp add: get_llm_for_target_def)
  show ?case
  proof (cases "enforce pol (Some (tgt_model t))")
    case (Inl e)
    then show ?thesis using 2 by simp
  next
    case (Inr u)
    obtain tr r where call: "openai_chat_with_tools (e_tools E) (bound E t) (e_secrets E) ms tools
        (target_request rq pol t) (gs_trace st) = (tr, r)" by fastforce
    have step: "evolves (served_by E rq pol C) st (st\<lparr> gs_trace := tr \<rparr>)"
      using tools_request_served [OF call Inr, of C] 2(4) by (simp add: evolves_trace)
    show ?thesis
    proof (cases r)
      case (Inl e)
      have err: "evolves (served_by E rq pol C) st
          (meter_error E (gq_ctx rq) t (tools_prompt ms) [] e (st\<lparr> gs_trace := tr \<rparr>))"
        by (rule evolves_meter(2) [OF step])
      then have "evolves (served_by E rq pol C) st (fst (tools_loop E rq ms tools pol (Some e) rest
          (meter_error E (gq_ctx rq) t (tools_prompt ms) [] e (st\<lparr> gs_trace := tr \<rparr>))))"
        if "is_LLMError e" "rest \<noteq> []"
        using evolves_trans [OF err 2(3) [OF Inr _ call [symmetric] Inl refl]] that 2(4) has by simp
      then show ?thesis using Inr call Inl step err has by (simp add: Let_def)
    next
      case (Inr r')
      then show ?thesis using \<open>enforce pol (Some (tgt_model t)) = Inr u\<close> call has
          evolves_meter(1) [OF step] by (simp add: Let_def)
    qed
  qed
qed simp

section \<open>The contract\<close>

locale governed_entry =
  fixes E :: gw_env
    and rq :: gw_request
    and msgs :: "message list"
    and run :: "policy \<Rightarrow> model_target list \<Rightarrow> gw_state \<Rightarrow> gw_state"
    and entry :: "gw_state \<Rightarrow> gw_state"
  assumes run_evolves: "evolves (served_by E rq pol (set chain)) st (run pol chain st)"
    and entry_refused: "gate E st (gq_ctx rq) = Inl e \<Longrightarrow> entry st = st"
    and entry_blocked: "gate E st (gq_ctx rq) = Inr (chain, pol) \<Longrightarrow>
      screen_step E (gq_ctx rq) msgs pol st = (st1, Inl e) \<Longrightarrow> entry st = st1"
    and entry_run: "gate E st (gq_ctx rq) = Inr (chain, pol) \<Longrightarrow>
      screen_step E (gq_ctx rq) msgs pol st = (st1, Inr u) \<Longrightarrow> entry st = run pol chain st1"
begin

lemma entry_cases:
  obtains (refused) e where "gate E st (gq_ctx rq) = Inl e" "entry st = st"
  | (blocked) chain pol u where "gate E st (gq_ctx rq) = Inr (chain, pol)"
      "jailbreak_guard pol" "flagged (screen (user_text msgs))"
      "entry st = meter E (gq_ctx rq) u st" "ur_status u = ''blocked''"
  | (ran) chain pol where "gate E st (gq_ctx rq) = Inr (chain, pol)"
      "entry st = run pol chain st"
proof (cases "gate E st (gq_ctx rq)")
  case (Inl e)
  then show ?thesis using that(1) entry_refused by blast
next
  case (Inr cp)
  obtain chain pol where cp: "cp = (chain, pol)" by (cases cp)
  obtain st1 r where s: "screen_step E (gq_ctx rq) msgs pol st = (st1, r)" by fastforce
  show ?thesis
  proof (cases r)
    case (Inl e)
    then show ?thesis
      using that(2) [of chain pol] screen_step_block [of E "gq_ctx rq" msgs pol st st1 e] s
        entry_blocked [of st chain pol st1 e] \<open>gate E st (gq_ctx rq) = Inr cp\<close> cp by blast
  next
    case (Inr u)
    then show ?thesis
      using that(3) [of chain pol] screen_step_pass [of E "gq_ctx rq" msgs pol st st1 u] s
        entry_run [of st chain pol st1 u] \<open>gate E st (gq_ctx rq) = Inr cp\<close> cp by blast
  qed
qed

lemma ledger_grows: "prefix (gs_ledger st) (gs_ledger (entry st))"
  by (cases rule: entry_cases [of st]) (use run_evolves in \<open>auto simp: evolves_def record_usage_def\<close>)

text \<open>Requests of an entry go to an allowed target of the deployment, with the capped length.\<close>

lemma requests_governed:
  assumes "resolve_policy (load_tenant_settings (e_db E) (ctx_tenant_id (gq_ctx rq))) = Inr pol"
    and "c \<in> set (drop (length (gs_trace st)) (gs_trace (entry st)))"
  shows "\<exists>t \<in> set (map snd (available_targets (e_settings E))).
    enforce pol (Some (tgt_model t)) = Inr () \<and> (\<not> allow_cloud pol \<longrightarrow> sovereign t) \<and>
    sent_by (bound E t) (target_request rq pol t) c"
proof (cases rule: entry_cases [of st])
  case (ran chain pol')
  then have pol: "pol' = pol" using gate_InrD(1) assms(1) by fastforce
  have "served_by E rq pol (set chain) c"
    using run_evolves [of pol chain st] ran(2) pol assms(2)
    by (auto simp: evolves_def dest: extends_drop)
  then show ?thesis
    using gate_InrD(3,4) [OF ran(1)] pol unfolding served_by_def by blast
qed (use assms(2) in simp_all)

lemma sovereign_locked:
  assumes "resolve_policy (load_tenant_settings (e_db E) (ctx_tenant_id (gq_ctx rq))) = Inr pol"
    and "\<not> allow_cloud pol"
    and "c \<in> set (drop (length (gs_trace st)) (gs_trace (entry st)))"
  shows "\<exists>k. call_client c = OpenAIClient k (llm_base_url (e_settings E))"
  using requests_governed [OF assms(1,3)] assms(2) sovereign_base_url
  by (fastforce simp: sent_by_def)

lemma nothing_sent:
  assumes "(\<exists>e. gate E st (gq_ctx rq) = Inl e) \<or>
      (\<exists>chain pol. gate E st (gq_ctx rq) = Inr (chain, pol) \<and> jailbreak_guard pol \<and>
        flagged (screen (user_text msgs)))"
  shows "gs_trace (entry st) = gs_trace st"
proof (cases rule: entry_cases [of st])
  case (ran chain pol)
  obtain st1 r where s: "screen_step E (gq_ctx rq) msgs pol st = (st1, r)" by fastforce
  then have "\<exists>e. r = Inl e" using assms ran(1)
    by (auto simp: screen_step_def Let_def split: if_splits)
  then show ?thesis
    using s entry_blocked [OF ran(1)] screen_step_block(4) by fastforce
qed simp_all

end

section \<open>The three entry points are governed\<close>

interpretation completing: governed_entry E rq "map Typed ms"
    "\<lambda>pol chain st. fst (complete_loop E rq ms pol None chain st)" "\<lambda>st. fst (complete E rq ms st)"
  for E rq ms
  by unfold_locales (simp_all add: complete_loop_evolves complete_def)

interpretation streaming: governed_entry E rq "map Typed ms"
    "\<lambda>pol chain st. fst (stream_loop E rq ms pol None chain st)" "\<lambda>st. fst (stream E rq ms st)"
  for E rq ms
  by unfold_locales (simp_all add: stream_loop_evolves stream_def)

interpretation tool_calling: governed_entry E rq "map RawMsg ms"
    "\<lambda>pol chain st. fst (tools_loop E rq ms tools pol None chain st)"
    "\<lambda>st. fst (complete_with_tools E rq ms tools st)"
  for E rq ms tools
  by unfold_locales (simp_all add: tools_loop_evolves complete_with_tools_def)

section \<open>Metering of a completion\<close>

text \<open>The row of a target that failed: of the tenant, for the target's provider and model.\<close>

definition failure_row :: "gateway_context \<Rightarrow> model_target \<Rightarrow> llm_usage \<Rightarrow> bool" where
  "failure_row ctx t r \<longleftrightarrow>
     us_tenant_id r = ctx_tenant_id ctx \<and> ur_status (us_record r) = ''error'' \<and>
     ur_provider (us_record r) = Some (tgt_provider t) \<and> ur_model (us_record r) = Some (tgt_model t)"

lemma meter_error_ledger:
  "(\<And>n. e_write_ok E n) \<Longrightarrow>
     \<exists>r. gs_ledger (meter_error E ctx t p c e st) = gs_ledger st @ [r] \<and> failure_row ctx t r"
  by (simp add: meter_error_def record_usage_def failure_row_def target_usage_def usage_row_def usage_from_text_def Let_def)

lemma target_usage_trace [simp]:
  "target_usage E (st\<lparr> gs_trace := tr \<rparr>) t p c st' er = target_usage E st t p c st' er"
  by (simp add: target_usage_def)

text \<open>The rows a completion owes: one per allowed target before the one that served, and the row of that.\<close>

definition owed_rows :: "gateway_context \<Rightarrow> policy \<Rightarrow> model_target list \<Rightarrow> gateway_result \<Rightarrow> ledger \<Rightarrow> bool" where
  "owed_rows ctx pol chain g rows \<longleftrightarrow>
     (\<exists>before t after errs now. chain = before @ t # after \<and> rows = errs @ [usage_row ctx now (gr_usage g)] \<and>
       list_all2 (failure_row ctx) (filter (\<lambda>t. enforce pol (Some (tgt_model t)) = Inr ()) before) errs \<and>
       ur_status (gr_usage g) = ''ok'' \<and> ur_model (gr_usage g) = Some (tgt_model t) \<and>
       ur_provider (gr_usage g) = Some (tgt_provider t))"

lemma owed_rows_skip:
  "owed_rows ctx pol rest g rows \<Longrightarrow> enforce pol (Some (tgt_model t)) \<noteq> Inr () \<Longrightarrow> owed_rows ctx pol (t # rest) g rows"
  unfolding owed_rows_def by (elim exE conjE, rule_tac x = "t # before" in exI) auto

lemma owed_rows_failed:
  "owed_rows ctx pol rest g rows \<Longrightarrow> enforce pol (Some (tgt_model t)) = Inr () \<Longrightarrow> failure_row ctx t r \<Longrightarrow>
     owed_rows ctx pol (t # rest) g (r # rows)"
  unfolding owed_rows_def
  by (elim exE conjE, rule_tac x = "t # before" in exI, rule_tac x = ta in exI, rule_tac x = after in exI,
    rule_tac x = "r # errs" in exI) auto

lemma complete_loop_metered:
  assumes ok: "\<And>n. e_write_ok E n"
  shows "complete_loop E rq ms pol last_exc chain st = (st', Inr g) \<Longrightarrow>
    \<exists>rows. gs_ledger st' = gs_ledger st @ rows \<and> owed_rows (gq_ctx rq) pol chain g rows"
proof (induction chain arbitrary: last_exc st)
  case (Cons t rest)
  obtain tr r where call: "openai_complete (e_complete E) (bound E t) (e_secrets E) ms
      (target_request rq pol t) (gs_trace st) = (tr, r)" by fastforce
  let ?st1 = "st\<lparr> gs_trace := tr \<rparr>"
  consider (denied) e where "enforce pol (Some (tgt_model t)) = Inl e"
    | (failed) e where "enforce pol (Some (tgt_model t)) = Inr ()" "r = Inl e"
    | (served) x where "enforce pol (Some (tgt_model t)) = Inr ()" "r = Inr x"
    by (cases "enforce pol (Some (tgt_model t))"; cases r) auto
  then show ?case
  proof cases
    case denied
    then show ?thesis using Cons.IH [of "Some e" st] Cons.prems owed_rows_skip by fastforce
  next
    case failed
    let ?st2 = "meter_error E (gq_ctx rq) t (prompt_text ms) [] e ?st1"
    obtain row where row: "gs_ledger ?st2 = gs_ledger st @ [row]" "failure_row (gq_ctx rq) t row"
      using meter_error_ledger [OF ok, of "gq_ctx rq" t "prompt_text ms" "[]" e ?st1] by auto
    have "complete_loop E rq ms pol (Some e) rest ?st2 = (st', Inr g)"
      using Cons.prems call failed by (simp add: Let_def split: if_splits)
    from Cons.IH [OF this] show ?thesis using row owed_rows_failed failed(1) by fastforce
  next
    case served
    then have "st' = meter_ok E (gq_ctx rq) t (prompt_text ms) x ?st1"
      "gr_usage g = target_usage E ?st1 t (prompt_text ms) x ''ok'' None"
      using Cons.prems call by (auto simp: Let_def)
    then show ?thesis unfolding owed_rows_def
      by (intro exI [of _ "[usage_row (gq_ctx rq) (e_now E (gs_writes st)) (gr_usage g)]"] conjI
          exI [of _ "[]"] exI [of _ t] exI [of _ rest])
        (auto simp: meter_ok_def record_usage_def meter_def ok target_usage_def usage_from_text_def Let_def)
  qed
qed simp

section \<open>Streams\<close>

text \<open>The tokens that the answer to the \<open>i\<close>-th request of a trace carries.\<close>

definition tokens_of :: "gw_env \<Rightarrow> sdk_trace \<Rightarrow> nat \<Rightarrow> string list" where
  "tokens_of E tr i =
     (case e_stream E i (tr ! i) of Inl _ \<Rightarrow> [] | Inr (cs, _) \<Rightarrow> deltas cs)"

lemma openai_stream_cases:
  assumes "openai_stream (e_stream E) s secrets ms rq tr = (tr', parts, r)"
  shows "(tr' = tr \<and> parts = []) \<or>
     (\<exists>c. tr' = tr @ [c] \<and> parts = tokens_of E tr' (length tr))"
  using assms
  by (auto simp: openai_stream_def sdk_request_def tokens_of_def split: sum.splits prod.splits)

lemma tokens_of_prefix:
  "i < length tr \<Longrightarrow> prefix tr tr' \<Longrightarrow> tokens_of E tr' i = tokens_of E tr i"
  by (auto simp: tokens_of_def prefix_def nth_append)

definition silent_between :: "gw_env \<Rightarrow> sdk_trace \<Rightarrow> nat \<Rightarrow> nat \<Rightarrow> bool" where
  "silent_between E tr a b \<longleftrightarrow> (\<forall>i. a \<le> i \<and> i < b \<longrightarrow> tokens_of E tr i = [])"

lemma silent_between_self [simp]: "silent_between E tr n n"
  by (auto simp add: silent_between_def)

lemma stream_loop_source:
  "stream_loop E rq ms pol last_exc chain st = (st', parts, err) \<Longrightarrow>
     prefix (gs_trace st) (gs_trace st') \<and>
     ((parts = [] \<and> silent_between E (gs_trace st') (length (gs_trace st)) (length (gs_trace st'))) \<or>
      (\<exists>i. Suc i = length (gs_trace st') \<and> length (gs_trace st) \<le> i \<and>
         parts = tokens_of E (gs_trace st') i \<and>
         silent_between E (gs_trace st') (length (gs_trace st)) i))"
proof (induction chain arbitrary: last_exc st)
  case Nil
  then show ?case by (auto simp: silent_between_def)
next
  case (Cons t rest)
  obtain tr ps r where call: "openai_stream (e_stream E) (bound E t) (e_secrets E) ms
      (target_request rq pol t) (gs_trace st) = (tr, ps, r)" using prod_cases3 by blast
  let ?st1 = "st\<lparr> gs_trace := tr \<rparr>"
  have src: "(tr = gs_trace st \<and> ps = []) \<or>
      (\<exists>c. tr = gs_trace st @ [c] \<and> ps = tokens_of E tr (length (gs_trace st)))"
    using openai_stream_cases [OF call] .
  show ?case
  proof (cases "(\<exists>e. enforce pol (Some (tgt_model t)) = Inl e) \<or>
      (\<exists>e. enforce pol (Some (tgt_model t)) = Inr () \<and> r = Some e \<and> is_LLMError e \<and> ps = [] \<and> rest \<noteq> [])")
    case True
    then consider (denied) e where "stream_loop E rq ms pol (Some e) rest st = (st', parts, err)"
      | (failover) e where "stream_loop E rq ms pol (Some e) rest ?st1 = (st', parts, err)" "ps = []"
      using Cons.prems call by (auto simp: Let_def)
    then show ?thesis
    proof cases
      case denied
      then show ?thesis by (rule Cons.IH)
    next
      case failover
      note ih = Cons.IH [OF failover(1)]
      have pre: "prefix (gs_trace st) tr" "prefix tr (gs_trace st')" using src ih by auto
      have "tokens_of E (gs_trace st') i = []" if "length (gs_trace st) \<le> i" "i < length tr" for i
      proof -
        have "i = length (gs_trace st)" using src that by auto
        then show ?thesis
          using tokens_of_prefix [OF that(2) pre(2), of E] src that failover(2) by auto
      qed
      then have ext: "silent_between E (gs_trace st') (length (gs_trace st)) b"
        if "silent_between E (gs_trace st') (length tr) b" for b
        using that unfolding silent_between_def by (metis not_le)
      have "length (gs_trace st) \<le> length tr" using pre(1) prefix_length_le by blast
      then show ?thesis using ih ext pre prefix_order.trans by fastforce
    qed
  next
    case False
    then have "gs_trace st' = tr \<and> parts = ps"
      using Cons.prems call
      by (cases "enforce pol (Some (tgt_model t))"; cases r) (auto simp: Let_def split: if_splits)
    then show ?thesis using src by (auto simp: silent_between_def)
  qed
qed

section \<open>A sample deployment\<close>

definition sample_policy :: "jdict \<Rightarrow> tenant_settings" where
  "sample_policy p =
     Some [(''gateway'', JObj [(''policy'', JObj p), (''routing'', JList [JStr ''qwen''])])]"

definition sample_env :: "string option \<Rightarrow> jdict \<Rightarrow> gw_env" where
  "sample_env url p =
     \<lparr> e_settings = default_settings\<lparr> llm_base_url := url, openai_api_key := Some ''sk'' \<rparr>,
       e_db = [''t1'' \<mapsto> sample_policy p], e_secrets = None, e_tik = (\<lambda>_. None),
       e_now = (\<lambda>_. 0), e_latency = (\<lambda>_. 1), e_write_ok = (\<lambda>_. True),
       e_complete = (\<lambda>_ _. Inr [Some ''hello'']),
       e_stream = (\<lambda>_ _. Inr ([Some ''hel'', None, Some ''lo''], None)),
       e_tools = (\<lambda>_ _. Inr [\<lparr> am_content = Some ''hi'', am_tool_calls = [] \<rparr>]) \<rparr>"

definition sample_request :: gw_request where
  "sample_request = \<lparr> gq_ctx = sample_ctx, gq_temperature = JInt 0, gq_max_tokens = None \<rparr>"

definition sample_state :: gw_state where
  "sample_state = \<lparr> gs_ledger = [], gs_writes = 0, gs_trace = [] \<rparr>"

definition sample_messages :: "llm_message list" where
  "sample_messages = [\<lparr> msg_role = ''user'', msg_content = ''hi'' \<rparr>]"

lemma load_sample:
  "load_tenant_settings (e_db (sample_env url p)) (ctx_tenant_id (gq_ctx sample_request)) =
     sample_policy p"
  by (simp add: sample_env_def sample_request_def sample_ctx_def load_tenant_settings_def)

definition no_cloud :: jdict where
  "no_cloud = [(''allow_cloud'', JBool False), (''jailbreak_guard'', JBool False)]"

definition no_cloud_policy :: policy where
  "no_cloud_policy = \<lparr> pol_enabled = True, allowed_models = [], max_tokens_per_request = 0,
     allow_cloud = False, jailbreak_guard = False \<rparr>"

lemma no_cloud_resolved: "resolve_policy (sample_policy no_cloud) = Inr no_cloud_policy"
  by (simp add: resolve_policy_def sample_policy_def no_cloud_def no_cloud_policy_def
      gateway_block_def gateway_get_def dget_def dget_or_def por_def jget_or_def coerce_int_def
      clean_models_def)

lemma sample_complete:
  "\<exists>st' g. complete (sample_env url no_cloud) sample_request sample_messages sample_state =
       (st', Inr g) \<and> map call_client (gs_trace st') = [OpenAIClient (Some ''sk'') url]"
proof -
  let ?E = "sample_env url no_cloud"
  let ?q = "snd (hd (available_targets (e_settings ?E)))"
  have chain: "resolve_target_chain (sample_policy no_cloud) (e_settings ?E) = Inr [?q]"
    by (simp add: resolve_target_chain_def sample_policy_def gateway_get_def dget_def dget_or_def
        por_def pick_targets_def List.map_filter_def available_targets_def sample_env_def)
  have lock: "lock_chain no_cloud_policy [?q] = Inr [?q]"
    by (simp add: lock_chain_def no_cloud_policy_def available_targets_def)
  have quota: "\<exists>x. enforce_quota_service (e_settings ?E) (e_db ?E) (e_now ?E (gs_writes sample_state))
      (gs_ledger sample_state) (gq_ctx sample_request)
      (Given (Some (case sample_policy no_cloud of None \<Rightarrow> [] | Some d \<Rightarrow> d))) = Inr x"
    by (simp add: enforce_quota_service_def check_def resolve_limits_def gateway_block_def
        gateway_get_def sample_policy_def dget_def dget_or_def por_def coerce_int_def int_or_def
        sample_env_def default_settings_def has_any_def)
  have gate: "gate ?E sample_state (gq_ctx sample_request) = Inr ([?q], no_cloud_policy)"
    using quota by (auto simp: gate_def Let_def load_sample no_cloud_resolved chain lock)
  have scr: "screen_step ?E (gq_ctx sample_request) (map Typed sample_messages) no_cloud_policy
      sample_state = (sample_state, Inr ())"
    by (simp add: screen_step_def no_cloud_policy_def)
  have run: "complete ?E sample_request sample_messages sample_state =
      complete_loop ?E sample_request sample_messages no_cloud_policy None [?q] sample_state"
    by (simp add: complete_def gate scr)
  have client: "active_client (bound ?E ?q) (e_secrets ?E) = Inr (OpenAIClient (Some ''sk'') url)"
    by (simp add: active_client_def build_client_def bound_def get_llm_for_target_def
        available_targets_def sample_env_def)
  have req: "sdk_request (e_complete ?E) (bound ?E ?q) (e_secrets ?E) mk tr =
      (tr @ [mk (OpenAIClient (Some ''sk'') url)], Inr [Some ''hello''])" for mk tr
    by (simp add: sdk_request_def client) (simp add: sample_env_def)
  have call: "openai_complete (e_complete ?E) (bound ?E ?q) (e_secrets ?E) ms rq (gs_trace sample_state) =
      ([mk_call (bound ?E ?q) rq (map message_dict ms) [] (OpenAIClient (Some ''sk'') url)],
       Inr ''hello'')" for ms rq
    by (simp add: openai_complete_def numeral_2_eq_2 req first_choice_def)
      (simp add: sample_state_def)
  have ok: "enforce no_cloud_policy (Some (tgt_model ?q)) = Inr ()"
    by (simp add: enforce_def no_cloud_policy_def)
  show ?thesis by (simp add: run ok call Let_def mk_call_def)
qed

section \<open>Properties\<close>

text \<open>
  C1. The sovereign lock: when the tenant's policy forbids cloud models, every request that any of
  the three entry points sends, failover included, goes to one endpoint: \<open>LLM_BASE_URL\<close> where it is set,
  whatever endpoint the SDK has by default; where it is not set, it is that default.
\<close>

theorem sovereign_lock:
  assumes "resolve_policy (load_tenant_settings (e_db E) (ctx_tenant_id (gq_ctx rq))) = Inr pol"
    and "\<not> allow_cloud pol"
  shows "\<forall>c \<in> set (drop (length (gs_trace st)) (gs_trace (fst (complete E rq ms st)))) \<union>
      set (drop (length (gs_trace st)) (gs_trace (fst (stream E rq ms st)))) \<union>
      set (drop (length (gs_trace st)) (gs_trace (fst (complete_with_tools E rq ds tools st)))).
    client_endpoint dflt (call_client c) =
      (case llm_base_url (e_settings E) of Some url \<Rightarrow> url | None \<Rightarrow> dflt)"
proof
  fix c assume "c \<in> set (drop (length (gs_trace st)) (gs_trace (fst (complete E rq ms st)))) \<union>
      set (drop (length (gs_trace st)) (gs_trace (fst (stream E rq ms st)))) \<union>
      set (drop (length (gs_trace st)) (gs_trace (fst (complete_with_tools E rq ds tools st))))"
  then have "\<exists>k. call_client c = OpenAIClient k (llm_base_url (e_settings E))"
    using completing.sovereign_locked [OF assms] streaming.sovereign_locked [OF assms]
      tool_calling.sovereign_locked [OF assms] by blast
  then show "client_endpoint dflt (call_client c) =
      (case llm_base_url (e_settings E) of Some url \<Rightarrow> url | None \<Rightarrow> dflt)" by auto
qed

theorem sovereign_lock_witness:
  "\<exists>c. c \<in> set (gs_trace (fst (complete (sample_env (Some ''http://vllm/v1'') no_cloud)
       sample_request sample_messages sample_state))) \<and>
     client_endpoint ''https://api.openai.com/v1'' (call_client c) = ''http://vllm/v1''"
proof -
  let ?E = "sample_env (Some ''http://vllm/v1'') no_cloud"
  have pol: "resolve_policy (load_tenant_settings (e_db ?E) (ctx_tenant_id (gq_ctx sample_request))) =
      Inr no_cloud_policy"
    by (simp add: load_sample no_cloud_resolved)
  have no: "\<not> allow_cloud no_cloud_policy" by (simp add: no_cloud_policy_def)
  have url: "llm_base_url (e_settings ?E) = Some ''http://vllm/v1''" "gs_trace sample_state = []"
    by (simp_all add: sample_env_def sample_state_def)
  obtain st' g where r: "complete ?E sample_request sample_messages sample_state = (st', Inr g)"
    "map call_client (gs_trace st') = [OpenAIClient (Some ''sk'') (Some ''http://vllm/v1'')]"
    using sample_complete [of "Some ''http://vllm/v1''"] by (elim exE conjE)
  then obtain c where c: "c \<in> set (gs_trace st')" by (cases "gs_trace st'") auto
  then show ?thesis
    using sovereign_lock [OF pol no, where st = sample_state and ms = sample_messages and
        dflt = "''https://api.openai.com/v1''"] r url
    by (intro exI [of _ c]) simp
qed

text \<open>
  Where the lock does not hold: with \<open>LLM_BASE_URL\<close> unset the sovereign target has no endpoint of
  its own, yet it is used when the routing list names only it, since a chain without configured
  targets falls back to itself.  The prompt of a cloud-locked tenant then goes out with no base URL,
  which the adapter documents as \<open>api.openai.com\<close>.
\<close>

theorem sovereign_lock_unset_url:
  "resolve_policy (load_tenant_settings (e_db (sample_env None no_cloud))
       (ctx_tenant_id (gq_ctx sample_request))) = Inr no_cloud_policy \<and>
   \<not> allow_cloud no_cloud_policy \<and>
   map call_client (gs_trace (fst (complete (sample_env None no_cloud) sample_request
      sample_messages sample_state))) = [OpenAIClient (Some ''sk'') None]"
  using sample_complete [of None]
  by (auto simp: load_sample no_cloud_resolved no_cloud_policy_def)

text \<open>
  C2. Every request of the gateway is governed: a tenant that is not suspended, a model of its
  allow-list (if it has one), and at most the tokens per request that the policy caps.
\<close>

theorem requests_within_policy:
  assumes "resolve_policy (load_tenant_settings (e_db E) (ctx_tenant_id (gq_ctx rq))) = Inr pol"
    and "c \<in> set (drop (length (gs_trace st)) (gs_trace (fst (complete E rq ms st)))) \<union>
      set (drop (length (gs_trace st)) (gs_trace (fst (stream E rq ms st)))) \<union>
      set (drop (length (gs_trace st)) (gs_trace (fst (complete_with_tools E rq ds tools st))))"
  shows "pol_enabled pol \<and> (allowed_models pol = [] \<or> call_model c \<in> set (allowed_models pol)) \<and>
    call_max_tokens c = effective_max_tokens pol (gq_max_tokens rq) \<and>
    (max_tokens_per_request pol \<le> 0 \<or>
      (\<exists>n. call_max_tokens c = Some n \<and> n \<le> max_tokens_per_request pol))"
proof -
  obtain t where t: "enforce pol (Some (tgt_model t)) = Inr ()"
    "sent_by (bound E t) (target_request rq pol t) c"
    using assms completing.requests_governed [OF assms(1)] streaming.requests_governed [OF assms(1)]
      tool_calling.requests_governed [OF assms(1)] by blast
  have "call_model c = tgt_model t" using t(2) by (auto simp: sent_by_def target_request_def)
  moreover have "call_max_tokens c = effective_max_tokens pol (gq_max_tokens rq)"
    using t(2) by (simp add: sent_by_def target_request_def)
  ultimately show ?thesis using t(1)
    by (auto simp: enforce_ok_iff effective_max_tokens_def Let_def split: option.splits)
qed

theorem requests_within_policy_witness:
  "\<exists>c. c \<in> set (gs_trace (fst (complete (sample_env None no_cloud) sample_request sample_messages
       sample_state))) \<and> call_max_tokens c = effective_max_tokens no_cloud_policy None"
proof -
  obtain st' g where r: "complete (sample_env None no_cloud) sample_request sample_messages sample_state =
      (st', Inr g)" "map call_client (gs_trace st') = [OpenAIClient (Some ''sk'') None]"
    using sample_complete [of None] by (elim exE conjE)
  then obtain c where c: "c \<in> set (gs_trace st')" by (cases "gs_trace st'") auto
  have "call_max_tokens c = effective_max_tokens no_cloud_policy (gq_max_tokens sample_request)"
    using requests_within_policy [of "sample_env None no_cloud" sample_request no_cloud_policy c
        sample_state sample_messages] r c
    by (simp add: load_sample no_cloud_resolved) (simp add: sample_state_def)
  then show ?thesis using r c by (auto simp: sample_request_def)
qed

text \<open>
  A call over quota goes nowhere: in each of the three entry points the exception of the quota
  service is what the caller gets, no request is sent and nothing is metered.
\<close>

theorem quota_refusal_stops:
  assumes "resolve_policy (load_tenant_settings (e_db E) (ctx_tenant_id (gq_ctx rq))) = Inr pol"
    and "enforce_quota_service (e_settings E) (e_db E) (e_now E (gs_writes st)) (gs_ledger st) (gq_ctx rq)
      (Given (Some (case load_tenant_settings (e_db E) (ctx_tenant_id (gq_ctx rq)) of
         None \<Rightarrow> [] | Some d \<Rightarrow> d))) = Inl e"
  shows "complete E rq ms st = (st, Inl e) \<and> stream E rq ms st = (st, [], Some e) \<and>
    complete_with_tools E rq ds tools st = (st, Inl e)"
proof -
  have "gate E st (gq_ctx rq) = Inl e" using assms by (simp add: gate_def Let_def)
  then show ?thesis by (simp add: complete_def stream_def complete_with_tools_def)
qed

definition capped_env :: gw_env where
  "capped_env = (sample_env None [])\<lparr> e_db := [''t1'' \<mapsto> sample_quota 1] \<rparr>"

definition used_state :: gw_state where
  "used_state = sample_state\<lparr> gs_ledger := [usage_row sample_ctx 0 (sample_usage 7 ''ok'')] \<rparr>"

theorem quota_refusal_stops_witness:
  "\<exists>e. complete capped_env sample_request sample_messages used_state = (used_state, Inl e) \<and>
     is_QuotaExceeded e"
proof -
  have load: "load_tenant_settings (e_db capped_env) (ctx_tenant_id (gq_ctx sample_request)) =
      sample_quota 1"
    by (simp add: capped_env_def load_tenant_settings_def sample_request_def sample_ctx_def)
  have pol: "resolve_policy (sample_quota 1) = Inr default_policy"
    by (simp add: resolve_policy_def sample_quota_def default_policy_def
      gateway_block_def gateway_get_def dget_def dget_or_def por_def jget_or_def coerce_int_def
      clean_models_def)
  have lim: "resolve_limits (e_settings capped_env) (sample_quota 1) =
      Inr \<lparr> requests_per_day = 1, tokens_per_day = 0 \<rparr>"
    by (simp add: resolve_limits_def gateway_block_def gateway_get_def sample_quota_def dget_def
      dget_or_def por_def coerce_int_def int_or_def default_settings_def capped_env_def sample_env_def)
  have win: "window_usage 0 (gs_ledger used_state) ''t1'' = \<lparr> q_requests = 1, q_tokens = 7 \<rparr>"
    by (simp add: window_usage_def in_window_def sample_ctx_def sample_usage_def WINDOW_def
        usage_row_def used_state_def)
  have ctx: "ctx_tenant_id (gq_ctx sample_request) = ''t1''" "\<And>n. e_now capped_env n = 0"
    "gateway_enabled (e_settings capped_env)"
    by (simp_all add: sample_request_def sample_ctx_def capped_env_def sample_env_def default_settings_def)
  have arg: "Some (case sample_quota 1 of None \<Rightarrow> [] | Some d \<Rightarrow> d) = sample_quota 1"
    by (simp add: sample_quota_def)
  obtain e where e: "enforce_quota_service (e_settings capped_env) (e_db capped_env)
      (e_now capped_env (gs_writes used_state)) (gs_ledger used_state) (gq_ctx sample_request)
      (Given (sample_quota 1)) = Inl e" "is_QuotaExceeded e"
    by (simp add: enforce_quota_service_def check_def lim Let_def has_any_def win ctx over_requests_def)
  show ?thesis
    using quota_refusal_stops [of capped_env sample_request default_policy used_state e] e
    by (auto simp: load pol arg)
qed

text \<open>
  C13. The ledger of a served completion, when the database accepts its writes: it gains one \<open>error\<close> row for
  each target of the chain that the policy allows and that stands before the one that served, in their order and
  with their provider and model, then the \<open>ok\<close> row of the usage it returns, for the target that
  served; and nothing else.
\<close>

theorem complete_metered:
  assumes "\<And>n. e_write_ok E n" and "complete E rq ms st = (st', Inr g)"
  shows "\<exists>chain pol before t after errs now. gate E st (gq_ctx rq) = Inr (chain, pol) \<and> chain = before @ t # after \<and>
    gs_ledger st' = gs_ledger st @ errs @ [usage_row (gq_ctx rq) now (gr_usage g)] \<and>
    list_all2 (\<lambda>t r. us_tenant_id r = ctx_tenant_id (gq_ctx rq) \<and> ur_status (us_record r) = ''error'' \<and>
        ur_provider (us_record r) = Some (tgt_provider t) \<and> ur_model (us_record r) = Some (tgt_model t))
      (filter (\<lambda>t. enforce pol (Some (tgt_model t)) = Inr ()) before) errs \<and>
    ur_status (gr_usage g) = ''ok'' \<and> ur_model (gr_usage g) = Some (tgt_model t) \<and>
    ur_provider (gr_usage g) = Some (tgt_provider t)"
proof (cases "gate E st (gq_ctx rq)")
  case (Inr cp)
  obtain chain pol where cp: "cp = (chain, pol)" by (cases cp)
  obtain st1 r where scr: "screen_step E (gq_ctx rq) (map Typed ms) pol st = (st1, r)" by fastforce
  then have "st1 = st" "complete_loop E rq ms pol None chain st = (st', Inr g)"
    using assms(2) Inr cp by (auto simp: complete_def split: sum.splits dest: screen_step_pass)
  then obtain rows where "gs_ledger st' = gs_ledger st @ rows" "owed_rows (gq_ctx rq) pol chain g rows"
    using complete_loop_metered [OF assms(1)] by blast
  moreover have "failure_row (gq_ctx rq) = (\<lambda>t r. us_tenant_id r = ctx_tenant_id (gq_ctx rq) \<and>
      ur_status (us_record r) = ''error'' \<and> ur_provider (us_record r) = Some (tgt_provider t) \<and>
      ur_model (us_record r) = Some (tgt_model t))"
    by (simp add: fun_eq_iff failure_row_def)
  ultimately show ?thesis using Inr cp unfolding owed_rows_def by (elim exE conjE) (intro exI conjI; assumption?; simp)
qed (use assms(2) in \<open>simp add: complete_def\<close>)

theorem complete_metered_witness:
  "\<exists>st' g now. complete (sample_env None no_cloud) sample_request sample_messages sample_state =
       (st', Inr g) \<and> last (gs_ledger st') = usage_row sample_ctx now (gr_usage g)"
proof -
  obtain st' g where r: "complete (sample_env None no_cloud) sample_request sample_messages sample_state =
      (st', Inr g)" using sample_complete [of None] by (elim exE conjE)
  have "e_write_ok (sample_env None no_cloud) n" for n by (simp add: sample_env_def)
  from complete_metered [OF this r] r show ?thesis by (auto simp: sample_request_def)
qed

text \<open>
  C17. A client never sees a mixture of two models: the tokens of a stream are those of its last
  request, and every earlier request of the call, one for each target that failed, produced none.
\<close>

theorem stream_single_source:
  "case stream E rq ms st of (st', parts, err) \<Rightarrow>
     prefix (gs_trace st) (gs_trace st') \<and>
     ((parts = [] \<and> silent_between E (gs_trace st') (length (gs_trace st)) (length (gs_trace st'))) \<or>
      (\<exists>i. Suc i = length (gs_trace st') \<and> length (gs_trace st) \<le> i \<and>
         parts = tokens_of E (gs_trace st') i \<and>
         silent_between E (gs_trace st') (length (gs_trace st)) i))"
proof (cases "gate E st (gq_ctx rq)")
  case (Inl e)
  then show ?thesis by (simp add: stream_def)
next
  case (Inr cp)
  obtain chain pol where cp: "cp = (chain, pol)" by (cases cp)
  obtain st1 r where s: "screen_step E (gq_ctx rq) (map Typed ms) pol st = (st1, r)" by fastforce
  show ?thesis
  proof (cases r)
    case (Inl e)
    then show ?thesis using \<open>gate E st (gq_ctx rq) = Inr cp\<close> cp s screen_step_block(4)
      by (fastforce simp: stream_def)
  next
    case (Inr u)
    then have "stream E rq ms st = stream_loop E rq ms pol None chain st"
      using \<open>gate E st (gq_ctx rq) = Inr cp\<close> cp s screen_step_pass by (fastforce simp: stream_def)
    moreover obtain st' parts err where "stream_loop E rq ms pol None chain st = (st', parts, err)"
      using prod_cases3 by blast
    ultimately show ?thesis using stream_loop_source by simp
  qed
qed

text \<open>
  C12. A prompt that the guard flags never reaches a model: the caller gets a \<open>GuardViolation\<close>, no
  request is sent, and the ledger gains one \<open>blocked\<close> row of the tenant, if the write succeeds.
\<close>

theorem guard_blocks:
  assumes "gate E st (gq_ctx rq) = Inr (chain, pol)" and "jailbreak_guard pol"
    and "flagged (screen (user_text (map Typed ms)))"
  shows "\<exists>st' m u. complete E rq ms st = (st', Inl (GuardViolation m)) \<and>
    stream E rq ms st = (st', [], Some (GuardViolation m)) \<and>
    gs_trace st' = gs_trace st \<and> ur_status u = ''blocked'' \<and>
    gs_ledger st' = record_usage (e_write_ok E (gs_writes st)) (e_now E (gs_writes st)) (gq_ctx rq) u
      (gs_ledger st)"
proof -
  obtain st1 r where s: "screen_step E (gq_ctx rq) (map Typed ms) pol st = (st1, r)" by fastforce
  moreover obtain e where r: "r = Inl e"
    using s assms(2,3) by (auto simp: screen_step_def Let_def)
  ultimately show ?thesis
    using screen_step_block [of E "gq_ctx rq" "map Typed ms" pol st st1 e] assms(1)
    by (auto simp: complete_def stream_def intro!: exI)
qed

definition attack_messages :: "llm_message list" where
  "attack_messages = [\<lparr> msg_role = ''user'', msg_content = ''DAN mode'' \<rparr>]"

lemma attack_flagged: "flagged (screen (user_text (map Typed attack_messages)))"
proof -
  have t: "user_text (map Typed attack_messages) = ''DAN mode''"
    by (simp add: user_text_def attack_messages_def)
  have eq: "fst (PATTERNS ! 6) = rseq [RBnd,
       ralt [rseq [rword ''developer'', rsp, rword ''mode''],
             rseq [rword ''do'', rsp, rword ''anything'', rsp, rword ''now''],
             rseq [rword ''DAN'', rsp, rword ''mode''],
             RSeq (rword ''jailbreak'') (ropt (rwords [''ing'', ''en'']))], RBnd]"
    (is "_ = ?rx") by (simp add: PATTERNS_def)
  have "rx_search ?rx ''DAN mode''" by code_simp
  then have "rx_search (fst (PATTERNS ! 6)) ''DAN mode''" by (simp only: eq)
  moreover have "PATTERNS ! 6 \<in> set PATTERNS" by (simp add: PATTERNS_def)
  moreover have "strip ''DAN mode'' \<noteq> []" by code_simp
  ultimately show ?thesis unfolding t flagged_screen by (auto simp: split_beta)
qed

theorem guard_blocks_witness:
  "\<exists>st' m. complete (sample_env None []) sample_request attack_messages sample_state =
     (st', Inl (GuardViolation m)) \<and> gs_trace st' = gs_trace sample_state"
proof -
  let ?E = "sample_env None []"
  have pol: "resolve_policy (sample_policy []) = Inr default_policy"
    by (simp add: resolve_policy_def sample_policy_def default_policy_def
      gateway_block_def gateway_get_def dget_def dget_or_def por_def jget_or_def coerce_int_def
      clean_models_def)
  have quota: "\<exists>x. enforce_quota_service (e_settings ?E) (e_db ?E) (e_now ?E (gs_writes sample_state))
      (gs_ledger sample_state) (gq_ctx sample_request)
      (Given (Some (case sample_policy [] of None \<Rightarrow> [] | Some d \<Rightarrow> d))) = Inr x"
    by (simp add: enforce_quota_service_def check_def resolve_limits_def gateway_block_def
        gateway_get_def sample_policy_def dget_def dget_or_def por_def coerce_int_def int_or_def
        sample_env_def default_settings_def has_any_def)
  have chain: "resolve_target_chain (sample_policy []) (e_settings ?E) =
      Inr [snd (hd (available_targets (e_settings ?E)))]"
    by (simp add: resolve_target_chain_def sample_policy_def gateway_get_def dget_def dget_or_def
        por_def pick_targets_def List.map_filter_def available_targets_def sample_env_def)
  obtain chain' where gate: "gate ?E sample_state (gq_ctx sample_request) = Inr (chain', default_policy)"
    using quota by (auto simp: gate_def Let_def load_sample pol chain lock_chain_def default_policy_def)
  have "jailbreak_guard default_policy" by (simp add: default_policy_def)
  from guard_blocks [OF gate this attack_flagged] show ?thesis by blast
qed

end
