(* ===== verification/Prompts.thy ===== *)
theory Prompts
  imports PyJson "HOL-Library.List_Lexorder"
begin

text \<open>
  The prompt registry (\<open>core/gateway/prompts.py\<close>): the table of versioned templates with at most
  one active version per name, the code defaults below it, and the rendering of a template.
  The table is the list of its rows in the order of insertion.
\<close>

section \<open>Rendering\<close>

text \<open>
  \<open>str.format_map\<close>: literal text, doubled braces, and replacement fields.  A field that is a plain
  name is looked up; the other forms (attributes, indices, conversions, format specs) are left to
  the parameter \<open>rich\<close>, the formatting machinery of the values.
\<close>

datatype template_part = Lit char | Field string

text \<open>The text of a field up to its closing brace, nested braces included.\<close>

fun field_text :: "nat \<Rightarrow> string \<Rightarrow> string \<Rightarrow> (string \<times> string) option" where
  "field_text d acc [] = None"
| "field_text d acc (c # s) =
     (if c = CHR ''}''
      then if d = 0 then Some (rev acc, s) else field_text (d - 1) (c # acc) s
      else if c = CHR ''{'' then field_text (Suc d) (c # acc) s
      else field_text d (c # acc) s)"

lemma field_text_shorter: "field_text d acc s = Some (f, t) \<Longrightarrow> length t < length s"
  by (induction d acc s rule: field_text.induct) (auto split: if_splits)

function parse_template :: "string \<Rightarrow> exn + template_part list" where
  "parse_template [] = Inr []"
| "parse_template (c # s) =
     (if c = CHR ''{'' then
        (case s of
           [] \<Rightarrow> Inl (PyExc ValueError)
         | d # s' \<Rightarrow>
             if d = CHR ''{'' then try_bind (parse_template s') (\<lambda>ps. Inr (Lit c # ps))
             else case field_text 0 [] s of
               None \<Rightarrow> Inl (PyExc ValueError)
             | Some (f, t) \<Rightarrow> try_bind (parse_template t) (\<lambda>ps. Inr (Field f # ps)))
      else if c = CHR ''}'' then
        (case s of
           [] \<Rightarrow> Inl (PyExc ValueError)
         | d # s' \<Rightarrow>
             if d = CHR ''}'' then try_bind (parse_template s') (\<lambda>ps. Inr (Lit c # ps))
             else Inl (PyExc ValueError))
      else try_bind (parse_template s) (\<lambda>ps. Inr (Lit c # ps)))"
  by pat_completeness auto
termination
  by (relation "measure length") (auto dest: field_text_shorter simp del: field_text.simps)

text \<open>A field name with none of the characters that the format language gives a meaning to.\<close>

definition plain_field :: "string \<Rightarrow> bool" where
  "plain_field f \<longleftrightarrow> (\<forall>c \<in> set f. c \<notin> {CHR ''{'', CHR ''}'', CHR ''.'', CHR ''['', CHR ''!'', CHR '':''})"

text \<open>An empty or numeric name is a positional field, which \<open>format_map\<close> rejects.\<close>

definition positional :: "string \<Rightarrow> bool" where
  "positional f \<longleftrightarrow> list_all is_digit f"

definition render_part ::
  "(string \<Rightarrow> (string \<rightharpoonup> string) \<Rightarrow> exn + string) \<Rightarrow> (string \<rightharpoonup> string) \<Rightarrow> template_part \<Rightarrow> exn + string"
where
  "render_part rich vars p =
     (case p of
        Lit c \<Rightarrow> Inr [c]
      | Field f \<Rightarrow>
          if \<not> plain_field f then rich f vars
          else if positional f then Inl (PyExc ValueError)
          else (case vars f of
             None \<Rightarrow> Inl (PyExc (KeyError f))
           | Some v \<Rightarrow> Inr v))"

definition format_map ::
  "(string \<Rightarrow> (string \<rightharpoonup> string) \<Rightarrow> exn + string) \<Rightarrow> string \<Rightarrow> (string \<rightharpoonup> string) \<Rightarrow> exn + string"
where
  "format_map rich t vars =
     try_bind (parse_template t) (\<lambda>ps.
     try_bind (try_map (render_part rich vars) ps) (\<lambda>ts. Inr (concat ts)))"

definition render_template ::
  "(string \<Rightarrow> (string \<rightharpoonup> string) \<Rightarrow> exn + string) \<Rightarrow> string \<Rightarrow> (string \<rightharpoonup> string) \<Rightarrow> exn + string"
where
  "render_template rich t vars =
     (case format_map rich t vars of
        Inl (PyExc (KeyError k)) \<Rightarrow>
          Inl (PromptRenderError (''prompt template missing variable: '' @ str_repr k))
      | r \<Rightarrow> r)"

section \<open>The registry\<close>

record prompt_row =
  pr_name :: string
  pr_version :: string
  pr_template :: string
  pr_description :: "string option"
  pr_active :: bool
  pr_created_at :: int

type_synonym prompt_table = "prompt_row list"

text \<open>The code defaults, in the order of their registration.\<close>

type_synonym prompt_defaults = "(string \<times> string) list"

fun register_default :: "string \<Rightarrow> string \<Rightarrow> prompt_defaults \<Rightarrow> prompt_defaults" where
  "register_default n t [] = [(n, t)]"
| "register_default n t ((m, u) # ds) = (if m = n then (n, t) # ds else (m, u) # register_default n t ds)"

record prompt_record =
  pc_name :: string
  pc_version :: string
  pc_template :: string
  pc_source :: string

text \<open>\<open>ORDER BY created_at DESC LIMIT 1\<close>\<close>

definition fetch_active :: "prompt_table \<Rightarrow> string \<Rightarrow> prompt_row option" where
  "fetch_active tab name =
     (case rev (sort_key pr_created_at (filter (\<lambda>r. pr_name r = name \<and> pr_active r) tab)) of
        [] \<Rightarrow> None
      | r # _ \<Rightarrow> Some r)"

text \<open>\<open>scalar_one_or_none\<close> raises when there are two rows.\<close>

definition one_or_none :: "'a list \<Rightarrow> exn + 'a option" where
  "one_or_none rows =
     (case rows of
        [] \<Rightarrow> Inr None
      | [r] \<Rightarrow> Inr (Some r)
      | _ \<Rightarrow> Inl (OtherExc ''MultipleResultsFound''))"

definition version_rows :: "prompt_table \<Rightarrow> string \<Rightarrow> string \<Rightarrow> prompt_row list" where
  "version_rows tab name v = filter (\<lambda>r. pr_name r = name \<and> pr_version r = v) tab"

definition fetch_version :: "prompt_table \<Rightarrow> string \<Rightarrow> string \<Rightarrow> exn + prompt_row option" where
  "fetch_version tab name v = one_or_none (version_rows tab name v)"

definition prompt_get ::
  "prompt_defaults \<Rightarrow> prompt_table \<Rightarrow> string \<Rightarrow> string option \<Rightarrow> exn + prompt_record" where
  "prompt_get ds tab name version =
     try_bind
       (case version of
          Some v \<Rightarrow> fetch_version tab name v
        | None \<Rightarrow> Inr (fetch_active tab name))
       (\<lambda>row. case row of
          Some r \<Rightarrow> Inr \<lparr> pc_name = pr_name r, pc_version = pr_version r, pc_template = pr_template r,
                      pc_source = ''db'' \<rparr>
        | None \<Rightarrow>
            (case (version, map_of ds name) of
               (None, Some t) \<Rightarrow>
                 Inr \<lparr> pc_name = name, pc_version = ''default'', pc_template = t,
                   pc_source = ''default'' \<rparr>
             | _ \<Rightarrow> Inl (PromptNotFoundError (''no prompt '' @ str_repr name @
                 (case version of
                    Some (c # v) \<Rightarrow> '' version '' @ str_repr (c # v)
                  | _ \<Rightarrow> '' (no active version or default)'')))))"

definition prompt_render ::
  "(string \<Rightarrow> (string \<rightharpoonup> string) \<Rightarrow> exn + string) \<Rightarrow> prompt_defaults \<Rightarrow> prompt_table \<Rightarrow> string \<Rightarrow>
   string option \<Rightarrow> (string \<rightharpoonup> string) \<Rightarrow> exn + string"
where
  "prompt_render rich ds tab name version vars =
     try_bind (prompt_get ds tab name version) (\<lambda>r. render_template rich (pc_template r) vars)"

section \<open>Management\<close>

definition deactivate_all :: "string \<Rightarrow> prompt_table \<Rightarrow> prompt_table" where
  "deactivate_all name tab = map (\<lambda>r. if pr_name r = name then r\<lparr> pr_active := False \<rparr> else r) tab"

definition next_version :: "prompt_table \<Rightarrow> string \<Rightarrow> string" where
  "next_version tab name = ''v'' @ nat_str (length (filter (\<lambda>r. pr_name r = name) tab) + 1)"

text \<open>
  The insertion fails on a value too long for its column (\<open>models.py\<close>), and on the unique constraint over name and
  version.
\<close>

definition prompt_row_fits :: "string \<Rightarrow> string \<Rightarrow> string option \<Rightarrow> bool" where
  "prompt_row_fits name v descr \<longleftrightarrow>
     length name \<le> 128 \<and> length v \<le> 32 \<and> (case descr of None \<Rightarrow> True | Some x \<Rightarrow> length x \<le> 512)"

definition save_version ::
  "int \<Rightarrow> string \<Rightarrow> string \<Rightarrow> string option \<Rightarrow> bool \<Rightarrow> prompt_table \<Rightarrow> exn + (prompt_table \<times> string)"
where
  "save_version now name template descr act tab =
     (let v = next_version tab name;
          tab' = (if act then deactivate_all name tab else tab) in
       if \<not> prompt_row_fits name v descr then Inl (OtherExc ''DBAPIError'')
       else if version_rows tab name v \<noteq> [] then Inl (OtherExc ''IntegrityError'')
       else Inr (tab' @ [\<lparr> pr_name = name, pr_version = v, pr_template = template,
                     pr_description = descr, pr_active = act, pr_created_at = now \<rparr>], v))"

definition activate :: "string \<Rightarrow> string \<Rightarrow> prompt_table \<Rightarrow> exn + prompt_table" where
  "activate name v tab =
     try_bind (one_or_none (version_rows tab name v)) (\<lambda>found.
       case found of
         None \<Rightarrow> Inl (PromptNotFoundError (''no prompt '' @ str_repr name @ '' version '' @ str_repr v))
       | Some _ \<Rightarrow>
           Inr (map (\<lambda>r. if pr_name r = name \<and> pr_version r = v then r\<lparr> pr_active := True \<rparr> else r)
                  (deactivate_all name tab)))"

record prompt_summary =
  ps_name :: string
  ps_template :: string
  ps_version :: string
  ps_source :: string
  ps_default :: "string option"
  ps_versions :: "prompt_row list"

definition prompt_names :: "prompt_defaults \<Rightarrow> prompt_table \<Rightarrow> string list" where
  "prompt_names ds tab =
     sort_key (map code) (remdups (map pr_name tab @ map fst ds))"

definition summarise_prompt :: "prompt_defaults \<Rightarrow> prompt_table \<Rightarrow> string \<Rightarrow> prompt_summary" where
  "summarise_prompt ds tab name =
     (let versions = filter (\<lambda>r. pr_name r = name) (sort_key pr_created_at tab) in
       case filter pr_active versions of
         r # _ \<Rightarrow> \<lparr> ps_name = name, ps_template = pr_template r, ps_version = pr_version r,
                    ps_source = ''db'', ps_default = map_of ds name, ps_versions = rev versions \<rparr>
       | [] \<Rightarrow> \<lparr> ps_name = name,
                 ps_template = (case map_of ds name of None \<Rightarrow> [] | Some t \<Rightarrow> t),
                 ps_version = ''default'', ps_source = ''default'',
                 ps_default = map_of ds name, ps_versions = rev versions \<rparr>)"

definition list_prompts :: "prompt_defaults \<Rightarrow> prompt_table \<Rightarrow> prompt_summary list" where
  "list_prompts ds tab = map (summarise_prompt ds tab) (prompt_names ds tab)"

section \<open>The registry as a state machine\<close>

datatype prompt_op =
    OpRegister string string
  | OpSave int string string "string option" bool
  | OpActivate string string

type_synonym prompt_state = "prompt_defaults \<times> prompt_table"

inductive prompt_step :: "prompt_state \<Rightarrow> prompt_op \<Rightarrow> prompt_state \<Rightarrow> bool" where
  step_register: "prompt_step (ds, tab) (OpRegister n t) (register_default n t ds, tab)"
| step_save: "save_version now n t d act tab = Inr (tab', v) \<Longrightarrow>
    prompt_step (ds, tab) (OpSave now n t d act) (ds, tab')"
| step_activate: "activate n v tab = Inr tab' \<Longrightarrow>
    prompt_step (ds, tab) (OpActivate n v) (ds, tab')"

inductive prompt_reachable :: "prompt_state \<Rightarrow> bool" where
  reach_init: "prompt_reachable ([], [])"
| reach_step: "prompt_reachable s \<Longrightarrow> prompt_step s oper s' \<Longrightarrow> prompt_reachable s'"

inductive_cases prompt_step_cases: "prompt_step (ds, tab) oper (ds', tab')"

section \<open>Version numbers\<close>

definition str_nat :: "string \<Rightarrow> nat" where
  "str_nat s = foldl (\<lambda>acc c. 10 * acc + digit_val c) 0 s"

lemma str_nat_nat_str: "str_nat (nat_str n) = n"
proof (induction n rule: nat_str.induct)
  case (1 n)
  have d: "digit_val (char_of (48 + m :: nat)) = m" if "m < 10" for m :: nat
    using that by (simp add: digit_val_def code_char_of)
  show ?case
  proof (cases "n < 10")
    case True
    then show ?thesis by (subst nat_str.simps) (simp add: str_nat_def d)
  next
    case False
    with 1 have "str_nat (nat_str (n div 10)) = n div 10" by simp
    with False show ?thesis by (subst nat_str.simps) (simp add: str_nat_def d)
  qed
qed

lemma nat_str_inj: "nat_str m = nat_str n \<longleftrightarrow> m = n"
  by (metis str_nat_nat_str)

section \<open>The invariant\<close>

definition named :: "string \<Rightarrow> prompt_table \<Rightarrow> prompt_table" where
  "named n tab = filter (\<lambda>r. pr_name r = n) tab"

definition version_labels :: "nat \<Rightarrow> string list" where
  "version_labels k = map (\<lambda>i. ''v'' @ nat_str (Suc i)) [0..<k]"

definition table_ok :: "prompt_table \<Rightarrow> bool" where
  "table_ok tab \<longleftrightarrow>
     (\<forall>n. map pr_version (named n tab) = version_labels (length (named n tab)) \<and>
          length (filter pr_active (named n tab)) \<le> 1)"

lemma version_labels_Suc: "version_labels (Suc k) = version_labels k @ [''v'' @ nat_str (Suc k)]"
  by (simp add: version_labels_def)

lemma distinct_version_labels: "distinct (version_labels k)"
  by (simp add: version_labels_def distinct_map inj_on_def nat_str_inj)

lemma fresh_version: "''v'' @ nat_str (Suc k) \<notin> set (version_labels k)"
  by (auto simp: version_labels_def nat_str_inj)

lemma named_append [simp]: "named n (a @ b) = named n a @ named n b"
  by (simp add: named_def)

lemma named_single [simp]: "named n [r] = (if pr_name r = n then [r] else [])"
  by (simp add: named_def)

text \<open>An update that keeps names filters like the table it updates.\<close>

lemma named_map: "(\<And>r. pr_name (f r) = pr_name r) \<Longrightarrow> named n (map f tab) = map f (named n tab)"
  by (simp add: named_def filter_map o_def)

lemma named_deactivate:
  "named n (deactivate_all m tab) =
     (if n = m then map (\<lambda>r. r\<lparr> pr_active := False \<rparr>) (named n tab) else named n tab)"
  by (auto simp: deactivate_all_def named_def filter_map o_def if_distrib cong: if_cong
      intro!: map_idI)

lemma next_version_named: "next_version tab n = ''v'' @ nat_str (Suc (length (named n tab)))"
  by (simp add: next_version_def named_def)

lemma version_rows_named: "version_rows tab n v = filter (\<lambda>r. pr_version r = v) (named n tab)"
  by (simp add: version_rows_def named_def conj_commute)

lemma version_rows_Nil: "version_rows tab n v = [] \<longleftrightarrow> v \<notin> set (map pr_version (named n tab))"
  by (auto simp: version_rows_named filter_empty_conv)

lemma filter_label:
  assumes "map pr_version rs = version_labels (length rs)" "k < length rs"
  shows "filter (\<lambda>r. pr_version r = ''v'' @ nat_str (Suc k)) rs = [rs ! k]"
proof -
  have nth: "pr_version (rs ! i) = ''v'' @ nat_str (Suc i)" if "i < length rs" for i
  proof -
    have "pr_version (rs ! i) = map pr_version rs ! i" using that by simp
    then show ?thesis using that by (simp add: assms(1) version_labels_def)
  qed
  let ?P = "\<lambda>r. pr_version r = ''v'' @ nat_str (Suc k)"
  have "filter ?P rs = filter ?P (take k rs @ rs ! k # drop (Suc k) rs)"
    by (rule arg_cong [OF id_take_nth_drop [OF assms(2)]])
  moreover have "filter ?P (take k rs) = []"
    by (auto simp: filter_empty_conv in_set_conv_nth nth nat_str_inj)
  moreover have "filter ?P (drop (Suc k) rs) = []"
    by (auto simp: filter_empty_conv in_set_conv_nth nth nat_str_inj)
  ultimately show ?thesis by (simp only: filter_append filter.simps nth [OF assms(2)] simp_thms if_True append_Nil)
qed

lemma table_ok_version_rows:
  assumes "table_ok tab"
  shows "version_rows tab n v = [] \<or>
    (\<exists>k < length (named n tab). v = ''v'' @ nat_str (Suc k) \<and> version_rows tab n v = [named n tab ! k])"
proof (cases "v \<in> set (map pr_version (named n tab))")
  case True
  then have "v \<in> set (version_labels (length (named n tab)))"
    using assms by (metis table_ok_def)
  then obtain k where k: "k < length (named n tab)" "v = ''v'' @ nat_str (Suc k)"
    by (auto simp: version_labels_def)
  then show ?thesis using filter_label [of "named n tab" k] assms
    by (auto simp: version_rows_named table_ok_def)
next
  case False
  then show ?thesis by (auto simp: version_rows_named filter_empty_conv)
qed

lemma no_active_deactivated: "filter pr_active (map (\<lambda>r. r\<lparr> pr_active := False \<rparr>) rs) = []"
  by (induction rs) auto

lemma save_version_fits: "save_version now n t d act tab = Inr r \<Longrightarrow> prompt_row_fits n (next_version tab n) d"
  by (simp add: save_version_def Let_def split: if_splits)

lemma save_version_ok:
  assumes "table_ok tab" and fits: "prompt_row_fits n (next_version tab n) d"
  obtains tab' where "save_version now n t d act tab = Inr (tab', next_version tab n)"
    and "\<And>m. named m tab' = named m (if act then deactivate_all n tab else tab) @
      (if m = n then [\<lparr> pr_name = n, pr_version = next_version tab n, pr_template = t,
         pr_description = d, pr_active = act, pr_created_at = now \<rparr>] else [])"
    and "table_ok tab'"
proof -
  let ?row = "\<lparr> pr_name = n, pr_version = next_version tab n, pr_template = t,
     pr_description = d, pr_active = act, pr_created_at = now \<rparr>"
  let ?tab' = "(if act then deactivate_all n tab else tab) @ [?row]"
  have labels: "map pr_version (named n tab) = version_labels (length (named n tab))" for n
    using assms(1) by (simp add: table_ok_def)
  have "next_version tab n \<notin> set (map pr_version (named n tab))"
    by (simp only: labels next_version_named fresh_version not_False_eq_True)
  then have free: "version_rows tab n (next_version tab n) = []"
    by (simp only: version_rows_Nil not_False_eq_True)
  have named: "named m ?tab' = named m (if act then deactivate_all n tab else tab) @
      (if m = n then [?row] else [])" for m
    by simp
  have "map pr_version (named m ?tab') = version_labels (length (named m ?tab'))" for m
    unfolding named by (simp add: named_deactivate o_def labels version_labels_Suc next_version_named)
  moreover have "length (filter pr_active (named m ?tab')) \<le> 1" for m
  proof (cases "act")
    case True
    then show ?thesis using assms unfolding named
      by (simp add: named_deactivate no_active_deactivated table_ok_def)
  next
    case False
    then show ?thesis using assms by (simp add: table_ok_def)
  qed
  ultimately have "table_ok ?tab'" by (simp add: table_ok_def)
  moreover have "save_version now n t d act tab = Inr (?tab', next_version tab n)"
    by (simp add: save_version_def Let_def free fits)
  ultimately show ?thesis using that named by blast
qed

definition flip :: "string \<Rightarrow> prompt_row \<Rightarrow> prompt_row" where
  "flip v r = r\<lparr> pr_active := (pr_version r = v) \<rparr>"

lemma activate_ok:
  assumes "table_ok tab" "k < length (named n tab)"
  obtains tab' where "activate n (''v'' @ nat_str (Suc k)) tab = Inr tab'"
    and "\<And>m. named m tab' = (if m = n then map (flip (''v'' @ nat_str (Suc k))) (named n tab)
      else named m tab)"
    and "table_ok tab'"
proof -
  let ?v = "''v'' @ nat_str (Suc k)"
  let ?tab' = "map (\<lambda>r. if pr_name r = n \<and> pr_version r = ?v then r\<lparr> pr_active := True \<rparr> else r)
    (deactivate_all n tab)"
  have labels: "map pr_version (named n tab) = version_labels (length (named n tab))" for n
    using assms(1) by (simp add: table_ok_def)
  have found: "version_rows tab n ?v = [named n tab ! k]"
    using filter_label [OF labels assms(2)] by (simp add: version_rows_named)
  have nm: "named m ?tab' = map (\<lambda>r. if pr_name r = n \<and> pr_version r = ?v
      then r\<lparr> pr_active := True \<rparr> else r) (named m (deactivate_all n tab))" for m
    by (rule named_map) simp
  have named: "named m ?tab' = (if m = n then map (flip ?v) (named n tab) else named m tab)" for m
    unfolding nm named_deactivate
    by (auto simp: named_def flip_def o_def intro!: map_cong map_idI)
  have vers: "map pr_version (map (flip ?v) rs) = map pr_version rs" for rs
    by (simp add: flip_def o_def)
  have "filter pr_active (map (flip ?v) (named n tab)) =
      map (flip ?v) (filter (\<lambda>r. pr_version r = ?v) (named n tab))"
    by (simp add: filter_map o_def flip_def)
  then have one: "length (filter pr_active (map (flip ?v) (named n tab))) \<le> 1"
    using filter_label [OF labels assms(2)] by simp
  have "map pr_version (named m ?tab') = version_labels (length (named m ?tab'))" for m
    unfolding named using labels vers by (metis length_map)
  moreover have "length (filter pr_active (named m ?tab')) \<le> 1" for m
    unfolding named using one assms(1) by (simp add: table_ok_def)
  ultimately have "table_ok ?tab'" by (simp add: table_ok_def)
  moreover have "activate n ?v tab = Inr ?tab'"
    unfolding activate_def found by (simp add: one_or_none_def)
  ultimately show ?thesis using that named by blast
qed

lemma activate_unknown:
  assumes "table_ok tab" "v \<notin> set (version_labels (length (named n tab)))"
  shows "\<exists>m. activate n v tab = Inl (PromptNotFoundError m)"
proof -
  have "v \<notin> set (map pr_version (named n tab))" using assms by (simp add: table_ok_def)
  then have "version_rows tab n v = []" by (simp only: version_rows_Nil not_False_eq_True)
  then show ?thesis by (simp add: activate_def one_or_none_def)
qed

lemma activate_Inr:
  assumes "table_ok tab" "activate n v tab = Inr tab'"
  obtains k where "k < length (named n tab)" "v = ''v'' @ nat_str (Suc k)"
proof (cases "v \<in> set (version_labels (length (named n tab)))")
  case True
  then show ?thesis using that by (auto simp: version_labels_def)
next
  case False
  then show ?thesis using activate_unknown [OF assms(1)] assms(2) by fastforce
qed

lemma reachable_table_ok: "prompt_reachable s \<Longrightarrow> table_ok (snd s)"
proof (induction rule: prompt_reachable.induct)
  case reach_init
  then show ?case by (simp add: table_ok_def named_def version_labels_def)
next
  case (reach_step s oper s')
  from reach_step.hyps(2) reach_step.IH show ?case
  proof cases
    case (step_save now n t d act tab tab' v ds)
    then show ?thesis
      using save_version_ok [OF _ save_version_fits [OF step_save(4)], of now t act] reach_step.IH by auto
  next
    case (step_activate n v tab tab' ds)
    then show ?thesis
      using reach_step.IH activate_Inr [of tab n v tab'] activate_ok by (metis Inr_inject snd_conv)
  qed simp
qed

lemma fetch_active_ok:
  assumes "table_ok tab"
  shows "fetch_active tab n =
    (case filter pr_active (named n tab) of [] \<Rightarrow> None | r # _ \<Rightarrow> Some r)"
proof -
  have "filter (\<lambda>r. pr_name r = n \<and> pr_active r) tab = filter pr_active (named n tab)"
    by (simp add: named_def conj_commute)
  moreover have "length (filter pr_active (named n tab)) \<le> 1"
    using assms by (simp add: table_ok_def)
  ultimately show ?thesis
    by (cases "filter pr_active (named n tab)") (simp_all add: fetch_active_def)
qed

text \<open>What a reader of the registry sees: the templates ever saved under a name.\<close>

definition prompt_history :: "prompt_table \<Rightarrow> string \<Rightarrow> string list" where
  "prompt_history tab n = map pr_template (named n tab)"

lemma prompt_get_active:
  "table_ok tab \<Longrightarrow> filter pr_active (named n tab) = [r] \<Longrightarrow>
     prompt_get ds tab n None = Inr \<lparr> pc_name = pr_name r, pc_version = pr_version r,
       pc_template = pr_template r, pc_source = ''db'' \<rparr>"
  by (simp add: prompt_get_def fetch_active_ok)

lemma prompt_get_cong:
  "table_ok tab \<Longrightarrow> table_ok tab' \<Longrightarrow> named m tab = named m tab' \<Longrightarrow>
     prompt_get ds tab m None = prompt_get ds tab' m None"
  by (simp add: prompt_get_def fetch_active_ok)

lemma prompt_get_no_active:
  "table_ok tab \<Longrightarrow> filter pr_active (named n tab) = [] \<Longrightarrow> map_of ds n = Some t \<Longrightarrow>
     prompt_get ds tab n None = Inr \<lparr> pc_name = n, pc_version = ''default'', pc_template = t,
       pc_source = ''default'' \<rparr>"
  by (simp add: prompt_get_def fetch_active_ok)

lemma history_deactivate [simp]:
  "map pr_template (named m (deactivate_all n tab)) = map pr_template (named m tab)"
  by (simp add: named_deactivate o_def)

section \<open>Rendering is inverse to quoting\<close>

definition quote_part :: "template_part \<Rightarrow> string" where
  "quote_part p =
     (case p of
        Lit c \<Rightarrow> if c = CHR ''{'' \<or> c = CHR ''}'' then [c, c] else [c]
      | Field f \<Rightarrow> [CHR ''{''] @ f @ [CHR ''}''])"

definition simple_part :: "template_part \<Rightarrow> bool" where
  "simple_part p = (case p of Lit _ \<Rightarrow> True | Field f \<Rightarrow> plain_field f \<and> \<not> positional f)"

lemma field_text_plain:
  "plain_field f \<Longrightarrow> field_text 0 acc (f @ CHR ''}'' # t) = Some (rev acc @ f, t)"
  by (induction f arbitrary: acc) (auto simp: plain_field_def)

lemma parse_quote:
  "list_all simple_part ps \<Longrightarrow> parse_template (concat (map quote_part ps)) = Inr ps"
proof (induction ps)
  case (Cons p ps)
  show ?case
  proof (cases p)
    case (Lit c)
    then show ?thesis using Cons by (simp add: quote_part_def)
  next
    case (Field f)
    then have f: "plain_field f" "f \<noteq> []" using Cons.prems
      by (auto simp: simple_part_def positional_def)
    then obtain d f' where fd: "f = d # f'" "d \<noteq> CHR ''{''" by (cases f) (auto simp: plain_field_def)
    show ?thesis using Cons Field fd field_text_plain [OF f(1), of "[]"]
      by (simp add: quote_part_def del: field_text.simps)
  qed
qed simp

fun part_value :: "(string \<rightharpoonup> string) \<Rightarrow> template_part \<Rightarrow> string" where
  "part_value vars (Lit c) = [c]"
| "part_value vars (Field f) = the (vars f)"

section \<open>Properties\<close>

text \<open>
  C7. In every reachable state of the registry the versions of a name are \<open>v1\<close> to \<open>vk\<close> in the order
  they were saved, at most one of them is active, and saving another one never hits the unique
  constraint: it appends the next version, and only a value too long for its column is refused.
\<close>

theorem registry_invariant:
  assumes "prompt_reachable (ds, tab)"
  shows "map pr_version (named n tab) = map (\<lambda>i. ''v'' @ nat_str (Suc i)) [0..<length (named n tab)] \<and>
    length (filter pr_active (named n tab)) \<le> 1 \<and>
    (let v = ''v'' @ nat_str (Suc (length (named n tab))) in
      \<exists>tab'. save_version now n t d act tab =
        (if length n \<le> 128 \<and> length v \<le> 32 \<and> (case d of None \<Rightarrow> True | Some x \<Rightarrow> length x \<le> 512)
         then Inr (tab', v) else Inl (OtherExc ''DBAPIError'')))"
proof -
  have ok: "table_ok tab" using reachable_table_ok [OF assms] by simp
  have "\<exists>tab'. save_version now n t d act tab =
      (if prompt_row_fits n (next_version tab n) d then Inr (tab', next_version tab n) else Inl (OtherExc ''DBAPIError''))"
  proof (cases "prompt_row_fits n (next_version tab n) d")
    case True
    show ?thesis by (rule save_version_ok [OF ok True, of now t act]) (use True in auto)
  qed (simp add: save_version_def Let_def)
  moreover have "next_version tab n = ''v'' @ nat_str (Suc (length (named n tab)))" by (simp add: next_version_named)
  ultimately show ?thesis using ok
    by (simp only: table_ok_def version_labels_def prompt_row_fits_def Let_def simp_thms)
qed

definition sample_table :: prompt_table where
  "sample_table =
     [\<lparr> pr_name = ''p'', pr_version = ''v1'', pr_template = ''A'', pr_description = None,
        pr_active = True, pr_created_at = 0 \<rparr>]"

lemma sample_registry: "prompt_reachable ([], sample_table)"
proof -
  have v: "next_version [] ''p'' = ''v1''" by code_simp
  have "save_version 0 ''p'' ''A'' None True [] = Inr (sample_table, ''v1'')"
    by (simp add: save_version_def prompt_row_fits_def v version_rows_def deactivate_all_def Let_def sample_table_def)
  from reach_step [OF reach_init step_save [OF this]] show ?thesis .
qed

theorem registry_invariant_witness:
  "\<exists>tab'. save_version 1 ''p'' ''B'' None True sample_table = Inr (tab', ''v'' @ nat_str 2)"
proof -
  have "length (named ''p'' sample_table) = 1" by (simp add: named_def sample_table_def)
  moreover have "length (nat_str 2) = 1" by code_simp
  ultimately show ?thesis
    using registry_invariant [OF sample_registry, of "''p''" 1 "''B''" None True]
    by (simp add: numeral_2_eq_2 Let_def)
qed

text \<open>
  Saving adds one version at the end of the history of its name and rewrites nothing; an activated
  save is what readers get next, and no other name is affected.
\<close>

theorem save_version_visible:
  assumes "prompt_reachable (ds, tab)" and "save_version now n t d act tab = Inr (tab', v)"
  shows "prompt_history tab' m = prompt_history tab m @ (if m = n then [t] else []) \<and>
    prompt_get ds tab' m None =
      (if m = n \<and> act
       then Inr \<lparr> pc_name = n, pc_version = v, pc_template = t, pc_source = ''db'' \<rparr>
       else prompt_get ds tab m None)"
proof -
  have ok: "table_ok tab" using reachable_table_ok [OF assms(1)] by simp
  obtain tab'' where s: "save_version now n t d act tab = Inr (tab'', next_version tab n)"
    and nm: "\<And>m. named m tab'' = named m (if act then deactivate_all n tab else tab) @
      (if m = n then [\<lparr> pr_name = n, pr_version = next_version tab n, pr_template = t,
         pr_description = d, pr_active = act, pr_created_at = now \<rparr>] else [])"
    and ok': "table_ok tab''"
    using save_version_ok [OF ok save_version_fits [OF assms(2)]] by blast
  then have eq: "tab' = tab''" "v = next_version tab n" using assms(2) by auto
  have "prompt_history tab' m = prompt_history tab m @ (if m = n then [t] else [])"
    by (simp add: prompt_history_def eq nm)
  moreover have "prompt_get ds tab' m None = prompt_get ds tab m None" if "m \<noteq> n"
    using prompt_get_cong [OF ok' ok, of m] that nm by (simp add: eq named_deactivate)
  moreover have "prompt_get ds tab' n None = prompt_get ds tab n None" if "\<not> act"
    using that by (simp add: prompt_get_def fetch_active_ok [OF ok'] fetch_active_ok [OF ok] eq nm)
  moreover have "prompt_get ds tab' n None =
      Inr \<lparr> pc_name = n, pc_version = v, pc_template = t, pc_source = ''db'' \<rparr>" if "act"
    using prompt_get_active [OF ok', of n] that by (simp add: nm named_deactivate
        no_active_deactivated eq)
  ultimately show ?thesis by auto
qed

theorem save_version_visible_witness:
  "\<exists>tab' v. save_version 0 ''p'' ''A'' None True [] = Inr (tab', v) \<and>
     prompt_history tab' ''p'' = [''A'']"
proof -
  obtain tab' v where s: "save_version 0 ''p'' ''A'' None True [] = Inr (tab', v)"
  proof -
    have "next_version [] ''p'' = ''v1''" by code_simp
    then show thesis using that by (simp add: save_version_def prompt_row_fits_def Let_def version_rows_def)
  qed
  then show ?thesis
    using save_version_visible [OF reach_init s, of "''p''"] by (simp add: prompt_history_def named_def)
qed

text \<open>
  C20. Rollback: activating the \<open>k\<close>-th version makes its template the one readers get, keeps every
  history, touches no other name, and an unknown version is refused.
\<close>

theorem activate_rolls_back:
  assumes "prompt_reachable (ds, tab)"
  shows "case activate n v tab of
      Inr tab' \<Rightarrow> \<exists>k < length (prompt_history tab n). v = ''v'' @ nat_str (Suc k) \<and>
        prompt_history tab' m = prompt_history tab m \<and>
        prompt_get ds tab' m None =
          (if m = n then Inr \<lparr> pc_name = n, pc_version = v, pc_template = prompt_history tab n ! k,
             pc_source = ''db'' \<rparr>
           else prompt_get ds tab m None)
    | Inl e \<Rightarrow> (\<exists>msg. e = PromptNotFoundError msg) \<and> v \<notin> set (map pr_version (named n tab))"
proof -
  have ok: "table_ok tab" using reachable_table_ok [OF assms] by simp
  have labels: "map pr_version (named n tab) = version_labels (length (named n tab))"
    using ok by (simp add: table_ok_def)
  show ?thesis
  proof (cases "v \<in> set (version_labels (length (named n tab)))")
    case False
    then show ?thesis using activate_unknown [OF ok, of v n] labels by (auto simp del: set_map)
  next
    case True
    then obtain k where k: "k < length (named n tab)" "v = ''v'' @ nat_str (Suc k)"
      by (auto simp: version_labels_def)
    obtain tab' where a: "activate n v tab = Inr tab'"
      and nm: "\<And>m. named m tab' = (if m = n then map (flip v) (named n tab) else named m tab)"
      and ok': "table_ok tab'"
      using activate_ok [OF ok k(1)] k(2) by blast
    have "filter pr_active (named n tab') = map (flip v) (filter (\<lambda>r. pr_version r = v) (named n tab))"
      by (simp add: nm filter_map o_def flip_def)
    then have act: "filter pr_active (named n tab') = [flip v (named n tab ! k)]"
      using filter_label [OF labels k(1)] k(2) by simp
    have row: "pr_name (named n tab ! k) = n" "pr_version (named n tab ! k) = v"
      using nth_mem [OF k(1)] filter_label [OF labels k(1)] k(2)
      by (auto simp: named_def filter_eq_Cons_iff)
    have "prompt_get ds tab' n None = Inr \<lparr> pc_name = n, pc_version = v,
        pc_template = prompt_history tab n ! k, pc_source = ''db'' \<rparr>"
      using prompt_get_active [OF ok' act, of ds] row k(1) by (simp add: flip_def prompt_history_def)
    moreover have "prompt_get ds tab' m None = prompt_get ds tab m None" if "m \<noteq> n"
      using prompt_get_cong [OF ok' ok, of m] that nm by simp
    moreover have "prompt_history tab' m = prompt_history tab m"
      by (simp add: prompt_history_def nm flip_def)
    ultimately show ?thesis using a k by (auto simp: prompt_history_def)
  qed
qed

theorem activate_rolls_back_witness: "\<exists>e. activate ''p'' ''v9'' sample_table = Inl e"
proof (cases "activate ''p'' ''v9'' sample_table")
  case (Inr tab')
  have "nat_str (Suc 0) = ''1''" by code_simp
  moreover have "length (prompt_history sample_table ''p'') = 1"
    by (simp add: prompt_history_def named_def sample_table_def)
  ultimately show ?thesis
    using activate_rolls_back [OF sample_registry, where n = "''p''" and v = "''v9''" and m = "''p''"]
      Inr by auto
qed simp

text \<open>
  Rendering is faithful: a template written with doubled braces around literal text and plain
  placeholders renders to that text with the values in place, in one pass, so that braces inside a
  value are never interpreted; and a missing variable is reported by name.
\<close>

theorem render_template_roundtrip:
  assumes "list_all simple_part ps"
  shows "render_template rich (concat (map quote_part ps)) vars =
    (case filter (\<lambda>p. case p of Lit _ \<Rightarrow> False | Field f \<Rightarrow> vars f = None) ps of
       Field f # _ \<Rightarrow> Inl (PromptRenderError (''prompt template missing variable: '' @ str_repr f))
     | _ \<Rightarrow> Inr (concat (map (part_value vars) ps)))"
proof -
  let ?missing = "\<lambda>p. case p of Lit _ \<Rightarrow> False | Field f \<Rightarrow> vars f = None"
  have "try_map (render_part rich vars) ps =
      (case filter ?missing ps of
         Field f # _ \<Rightarrow> Inl (PyExc (KeyError f))
       | _ \<Rightarrow> Inr (map (part_value vars) ps))"
    using assms
  proof (induction ps)
    case (Cons p ps)
    then show ?case
      by (cases p; cases "filter ?missing ps")
        (auto simp: render_part_def simple_part_def split: template_part.splits option.splits)
  qed simp
  moreover have "?missing p \<Longrightarrow> \<exists>f. p = Field f" for p by (cases p) auto
  ultimately show ?thesis
    by (cases "filter ?missing ps")
      (auto simp: render_template_def format_map_def parse_quote [OF assms]
        dest!: Cons_eq_filterD [OF sym] split: template_part.splits)
qed

theorem render_template_roundtrip_witness:
  "render_template (\<lambda>_ _. Inr []) ''Q: {q}'' [''q'' \<mapsto> ''{x}''] = Inr ''Q: {x}''"
proof -
  have "list_all simple_part [Lit (CHR ''Q''), Lit (CHR '':''), Lit (CHR '' ''), Field ''q'']"
    by code_simp
  from render_template_roundtrip [OF this, of "\<lambda>_ _. Inr []" "[''q'' \<mapsto> ''{x}'']"]
  show ?thesis by (simp add: quote_part_def)
qed

end
