(* ===== verification/Auth.thy ===== *)
theory Auth
  imports GatewayUsage
begin

text \<open>
  Authentication and the route guards: tokens and principals
  (\<open>packages/api/.../middleware/principal.py\<close>), passwords (\<open>security.py\<close>), the trial, quota
  and policy guards (\<open>middleware/trial.py\<close>, \<open>quota.py\<close>, \<open>policy.py\<close>), the request-scoped keys
  (\<open>middleware/byok.py\<close>) and the audit helper (\<open>audit_helper.py\<close>).

  The JWT library is a parameter: \<open>encode\<close> signs claims, \<open>decode\<close> checks a token against an
  audience, an issuer and the time.  What the code relies on is \<open>jwt_laws\<close>, what PyJWT documents of a token this server
  signed whose registered claims have their registered types: it is accepted exactly when its audience is, or its list of
  audiences holds, the one asked for, its issuer is the one asked for, and of \<open>exp\<close>, \<open>iat\<close> and \<open>nbf\<close> those that
  are there fit the time.  Of other claims the laws say nothing.
\<close>

section \<open>The JWT library\<close>

record 'tok jwt =
  jwt_encode :: "jdict \<Rightarrow> 'tok"
  jwt_decode :: "'tok \<Rightarrow> string \<Rightarrow> string \<Rightarrow> int \<Rightarrow> string + jdict"

definition claim_is :: "(json \<Rightarrow> bool) \<Rightarrow> jdict \<Rightarrow> string \<Rightarrow> bool" where
  "claim_is P c k = (case map_of c k of None \<Rightarrow> True | Some v \<Rightarrow> P v)"

fun is_plain_int :: "json \<Rightarrow> bool" where
  "is_plain_int (JInt _) = True"
| "is_plain_int _ = False"

definition claims_regular :: "jdict \<Rightarrow> bool" where
  "claims_regular c \<longleftrightarrow>
     list_all (claim_is is_plain_int c) [''exp'', ''iat'', ''nbf''] \<and>
     list_all (claim_is is_str c) [''iss'', ''sub'', ''jti''] \<and>
     claim_is (\<lambda>v. is_str v \<or> (case v of JList vs \<Rightarrow> list_all is_str vs | _ \<Rightarrow> False)) c ''aud''"

definition int_claim :: "(int \<Rightarrow> bool) \<Rightarrow> jdict \<Rightarrow> string \<Rightarrow> bool" where
  "int_claim P c k = claim_is (\<lambda>v. case v of JInt i \<Rightarrow> P i | _ \<Rightarrow> False) c k"

definition claims_valid :: "jdict \<Rightarrow> string \<Rightarrow> string \<Rightarrow> int \<Rightarrow> bool" where
  "claims_valid c aud iss now \<longleftrightarrow>
     (case dget c ''aud'' of JStr a \<Rightarrow> a = aud | JList vs \<Rightarrow> JStr aud \<in> set vs | _ \<Rightarrow> False) \<and>
     dget c ''iss'' = JStr iss \<and>
     int_claim (\<lambda>e. now < e) c ''exp'' \<and> int_claim (\<lambda>i. i \<le> now) c ''iat'' \<and> int_claim (\<lambda>n. n \<le> now) c ''nbf''"

definition jwt_laws :: "'tok jwt \<Rightarrow> bool" where
  "jwt_laws J \<longleftrightarrow>
     (\<forall>c aud iss now. claims_regular c \<longrightarrow>
        (if claims_valid c aud iss now then jwt_decode J (jwt_encode J c) aud iss now = Inr c
         else \<exists>m. jwt_decode J (jwt_encode J c) aud iss now = Inl m))"

text \<open>A library that satisfies the laws: the token is its claims.\<close>

definition plain_jwt :: "jdict jwt" where
  "plain_jwt = \<lparr> jwt_encode = (\<lambda>c. c),
     jwt_decode = (\<lambda>c aud iss now. if claims_valid c aud iss now then Inr c else Inl ''invalid token'') \<rparr>"

lemma plain_jwt_laws: "jwt_laws plain_jwt"
  by (simp add: jwt_laws_def plain_jwt_def)

lemmas claim_simps = claims_valid_def claims_regular_def claim_is_def int_claim_def is_str_def dget_def dget_or_def

section \<open>Tenants and principals\<close>

record tenant =
  tn_id :: uuid
  tn_slug :: string
  tn_name :: string
  tn_active :: bool
  tn_settings :: tenant_settings
  tn_trial :: "int option"
  tn_plan :: "string option"

record principal =
  pp_user_id :: string
  pp_tenant_id :: uuid
  pp_tenant_slug :: string
  pp_scopes :: "string set"
  pp_email :: json

text \<open>\<open>s.split()\<close>: the words between runs of white space.\<close>

function py_split :: "string \<Rightarrow> string list" where
  "py_split s =
     (let t = dropWhile is_space s in
       if t = [] then []
       else takeWhile (\<lambda>c. \<not> is_space c) t # py_split (dropWhile (\<lambda>c. \<not> is_space c) t))"
  by pat_completeness auto
termination
proof (relation "measure length")
  fix s t :: string
  assume t: "t = dropWhile is_space s" "t \<noteq> []"
  then have "\<not> is_space (hd t)" by (metis hd_dropWhile)
  with t(2) have "length (dropWhile (\<lambda>c. \<not> is_space c) t) < length t"
    by (cases t) (auto simp: le_imp_less_Suc length_dropWhile_le)
  also have "\<dots> \<le> length s" by (simp add: t(1) length_dropWhile_le)
  finally show "(dropWhile (\<lambda>c. \<not> is_space c) t, s) \<in> measure length" by simp
qed simp

declare py_split.simps [simp del]

definition resolve_tenant_id :: "tenant list \<Rightarrow> string \<Rightarrow> exn + uuid" where
  "resolve_tenant_id ts slug =
     (case filter (\<lambda>t. tn_slug t = slug) ts of
        [] \<Rightarrow> Inl (TenantNotFoundError slug)
      | [t] \<Rightarrow> Inr (tn_id t)
      | _ \<Rightarrow> Inl (OtherExc ''MultipleResultsFound''))"

definition as_text :: "json \<Rightarrow> exn + string" where
  "as_text j = (case j of JStr s \<Rightarrow> Inr s | _ \<Rightarrow> Inl (OtherExc ''DataError''))"

definition claim_scopes :: "jdict \<Rightarrow> exn + string set" where
  "claim_scopes c =
     (if truthy (dget c ''scopes'')
      then case dget c ''scopes'' of
        JStr s \<Rightarrow> Inr (set (py_split s))
      | _ \<Rightarrow> Inl (PyExc AttributeError)
      else Inr {})"

definition principal_from_jwt ::
  "'tok jwt \<Rightarrow> settings \<Rightarrow> tenant list \<Rightarrow> int \<Rightarrow> 'tok \<Rightarrow> exn + principal" where
  "principal_from_jwt J s ts now tok =
     (case jwt_decode J tok (jwt_audience s) (jwt_issuer s) now of
        Inl m \<Rightarrow> Inl (AuthenticationError m)
      | Inr c \<Rightarrow>
          let slug = por (dget c ''tenant'') (dget c ''tenant_slug'');
              user = por (dget c ''sub'') (dget c ''user_id'') in
          try_bind (claim_scopes c) (\<lambda>scopes.
            if \<not> truthy slug \<or> \<not> truthy user
            then Inl (AuthenticationError ''token missing 'tenant' or 'sub' claim'')
            else
              try_bind (as_text slug) (\<lambda>sl.
              try_bind (resolve_tenant_id ts sl) (\<lambda>tid.
                Inr \<lparr> pp_user_id = py_str user, pp_tenant_id = tid, pp_tenant_slug = sl,
                  pp_scopes = scopes, pp_email = dget c ''email'' \<rparr>))))"

definition get_principal ::
  "'tok jwt \<Rightarrow> settings \<Rightarrow> tenant list \<Rightarrow> int \<Rightarrow> 'tok option \<Rightarrow> exn + principal" where
  "get_principal J s ts now creds =
     (case creds of
        None \<Rightarrow> Inl (HTTPError 401 ''Missing bearer token'')
      | Some tok \<Rightarrow>
          (case principal_from_jwt J s ts now tok of
             Inl (AuthenticationError m) \<Rightarrow> Inl (HTTPError 401 m)
           | Inl (TenantNotFoundError m) \<Rightarrow> Inl (HTTPError 403 m)
           | r \<Rightarrow> r))"

definition require_scope :: "string \<Rightarrow> principal \<Rightarrow> exn + principal" where
  "require_scope scope p =
     (if ''*'' \<in> pp_scopes p \<or> scope \<in> pp_scopes p then Inr p
      else Inl (HTTPError 403 (''missing scope: '' @ scope)))"

text \<open>The bucket of the rate limiter; the address is \<open>None\<close> when the client is unknown.\<close>

definition rate_limit_key :: "principal option \<Rightarrow> string option \<Rightarrow> string" where
  "rate_limit_key p host =
     (case p of
        Some pr \<Rightarrow> ''tenant:'' @ pp_tenant_slug pr
      | None \<Rightarrow> ''ip:'' @ (case host of None \<Rightarrow> ''unknown'' | Some h \<Rightarrow> h))"

section \<open>Tokens\<close>

definition FILE_TOKEN_AUDIENCE :: string where
  "FILE_TOKEN_AUDIENCE = ''askai-file''"

definition FILE_TOKEN_TTL_SECONDS :: int where
  "FILE_TOKEN_TTL_SECONDS = 300"

definition file_claims :: "settings \<Rightarrow> int \<Rightarrow> string \<Rightarrow> string \<Rightarrow> uuid \<Rightarrow> int \<Rightarrow> jdict" where
  "file_claims s now user slug doc ttl =
     [(''sub'', JStr user), (''tenant'', JStr slug), (''doc'', JStr doc), (''iat'', JInt now),
      (''exp'', JInt (now + ttl)), (''aud'', JStr FILE_TOKEN_AUDIENCE), (''iss'', JStr (jwt_issuer s))]"

definition mint_file_token ::
  "'tok jwt \<Rightarrow> settings \<Rightarrow> int \<Rightarrow> string \<Rightarrow> string \<Rightarrow> uuid \<Rightarrow> int \<Rightarrow> 'tok" where
  "mint_file_token J s now user slug doc ttl = jwt_encode J (file_claims s now user slug doc ttl)"

definition verify_file_token ::
  "'tok jwt \<Rightarrow> settings \<Rightarrow> tenant list \<Rightarrow> int \<Rightarrow> 'tok \<Rightarrow> uuid \<Rightarrow> exn + (string \<times> uuid)" where
  "verify_file_token J s ts now tok doc =
     (case jwt_decode J tok FILE_TOKEN_AUDIENCE (jwt_issuer s) now of
        Inl m \<Rightarrow> Inl (HTTPError 401 (''invalid file token: '' @ m))
      | Inr c \<Rightarrow>
          if dget c ''doc'' \<noteq> JStr doc
          then Inl (HTTPError 403 ''file token does not match this document'')
          else if \<not> truthy (dget c ''tenant'') \<or> \<not> truthy (dget c ''sub'')
          then Inl (HTTPError 401 (''file token missing 'tenant' or 'sub'' @ [CHR 0x27]))
          else
            (case resolve_tenant_id ts (py_str (dget c ''tenant'')) of
               Inl (TenantNotFoundError m) \<Rightarrow> Inl (HTTPError 403 m)
             | Inl e \<Rightarrow> Inl e
             | Inr tid \<Rightarrow> Inr (py_str (dget c ''sub''), tid)))"

definition session_claims ::
  "settings \<Rightarrow> int \<Rightarrow> string \<Rightarrow> string \<Rightarrow> string list \<Rightarrow> int \<Rightarrow> string option \<Rightarrow> jdict" where
  "session_claims s now user slug scopes ttl email =
     [(''sub'', JStr user), (''tenant'', JStr slug), (''scopes'', JStr (join '' '' scopes)),
      (''iat'', JInt now), (''exp'', JInt (now + ttl)), (''aud'', JStr (jwt_audience s)),
      (''iss'', JStr (jwt_issuer s)),
      (''email'', case email of None \<Rightarrow> JNull | Some e \<Rightarrow> JStr e)]"

definition mint_jwt ::
  "'tok jwt \<Rightarrow> settings \<Rightarrow> int \<Rightarrow> string \<Rightarrow> string \<Rightarrow> string list \<Rightarrow> int \<Rightarrow> string option \<Rightarrow> 'tok" where
  "mint_jwt J s now user slug scopes ttl email =
     jwt_encode J (session_claims s now user slug scopes ttl email)"

section \<open>Passwords\<close>

text \<open>bcrypt is a parameter: the hash of a password and the check, both of which may raise.\<close>

record bcrypt =
  bc_hash :: "string \<Rightarrow> exn + string"
  bc_check :: "string \<Rightarrow> string \<Rightarrow> exn + bool"

definition validate_password :: "string \<Rightarrow> string + unit" where
  "validate_password pw =
     (if length pw < 8 then Inl ''password must be at least 8 characters''
      else if list_all is_digit pw \<or> list_all is_ascii_alpha pw
      then Inl ''password too weak - mix letters and numbers/symbols''
      else Inr ())"

text \<open>\<open>WeakPasswordError\<close>, which the callers catch, or what the library raises on a password it does not take.\<close>

datatype password_error = WeakPasswordError string | HashError exn

definition hash_password :: "bcrypt \<Rightarrow> string \<Rightarrow> password_error + string" where
  "hash_password B pw =
     (case validate_password pw of
        Inl m \<Rightarrow> Inl (WeakPasswordError m)
      | Inr _ \<Rightarrow> (case bc_hash B pw of Inl e \<Rightarrow> Inl (HashError e) | Inr h \<Rightarrow> Inr h))"

definition verify_password :: "bcrypt \<Rightarrow> string \<Rightarrow> string \<Rightarrow> exn + bool" where
  "verify_password B pw h =
     (if pw = [] \<or> h = [] then Inr False
      else case bc_check B pw h of
        Inl (PyExc ValueError) \<Rightarrow> Inr False
      | Inl (PyExc TypeError) \<Rightarrow> Inr False
      | r \<Rightarrow> r)"

section \<open>Guards\<close>

definition NON_PAID_PLANS :: "string option list" where
  "NON_PAID_PLANS = [None, Some ''trial'', Some ''demo'']"

definition NEVER_PAYWALLED :: "string list" where
  "NEVER_PAYWALLED = [''demo-public'', ''demo-template'']"

definition require_active_trial :: "tenant list \<Rightarrow> int \<Rightarrow> principal \<Rightarrow> exn + principal" where
  "require_active_trial ts now p =
     (if pp_tenant_slug p \<in> set NEVER_PAYWALLED then Inr p
      else case find (\<lambda>t. tn_id t = pp_tenant_id p) ts of
        None \<Rightarrow> Inr p
      | Some t \<Rightarrow>
          if tn_plan t \<notin> set NON_PAID_PLANS then Inr p
          else (case tn_trial t of
             None \<Rightarrow> Inr p
           | Some until \<Rightarrow>
               if until < now
               then Inl (HTTPError 402 (''Your free trial has ended. Subscribe to continue, or '' @
                      ''contact support if you'd like an extension.''))
               else Inr p))"

definition tenant_db :: "tenant list \<Rightarrow> uuid \<rightharpoonup> tenant_settings" where
  "tenant_db ts tid = map_option tn_settings (find (\<lambda>t. tn_id t = tid) ts)"

definition quota_context :: "string option \<Rightarrow> principal \<Rightarrow> string \<Rightarrow> gateway_context" where
  "quota_context request_id p purpose =
     \<lparr> ctx_tenant_id = pp_tenant_id p, ctx_tenant_slug = pp_tenant_slug p,
       ctx_user_id = Some (pp_user_id p), ctx_plan = None, ctx_purpose = purpose,
       ctx_request_id = request_id \<rparr>"

definition denied_usage :: "quota_info \<Rightarrow> usage_record" where
  "denied_usage q =
     \<lparr> prompt_tokens = 0, completion_tokens = 0, total_tokens = 0, cost_usd = 0,
       ur_provider = None, ur_model = None, latency_ms = None, ur_status = ''quota_denied'',
       ur_error = Some (limit_kind q @ '':'' @ int_str (used q) @ ''/'' @ int_str (limit q)) \<rparr>"

definition quota_guard ::
  "settings \<Rightarrow> tenant list \<Rightarrow> bool \<Rightarrow> int \<Rightarrow> string \<Rightarrow> string option \<Rightarrow> principal \<Rightarrow> ledger \<Rightarrow>
   ledger \<times> (exn + principal)"
where
  "quota_guard s ts ok now purpose request_id p l =
     (let ctx = quota_context request_id p purpose in
       case enforce_quota_service s (tenant_db ts) now l ctx Unset of
         Inl (QuotaExceeded m q) \<Rightarrow>
           (record_usage ok now ctx (denied_usage q) l, Inl (HTTPError 429 m))
       | Inl e \<Rightarrow> (l, Inl e)
       | Inr _ \<Rightarrow> (l, Inr p))"

definition policy_guard :: "settings \<Rightarrow> tenant list \<Rightarrow> string \<Rightarrow> principal \<Rightarrow> exn + principal" where
  "policy_guard s ts purpose p =
     (let st = load_tenant_settings (tenant_db ts) (pp_tenant_id p) in
       try_bind (resolve_policy st) (\<lambda>pol.
       try_bind (resolve_route st purpose s) (\<lambda>r.
         case enforce pol (Some (rt_model r)) of
           Inl e \<Rightarrow> if is_PolicyViolation e then Inl (HTTPError 403 (exn_message e)) else Inl e
         | Inr _ \<Rightarrow> Inr p)))"

section \<open>Request-scoped keys\<close>

fun pick_header :: "(string \<rightharpoonup> string) \<Rightarrow> string list \<Rightarrow> string option" where
  "pick_header headers [] = None"
| "pick_header headers (n # ns) =
     (case headers n of
        None \<Rightarrow> pick_header headers ns
      | Some v \<Rightarrow>
          let cleaned = filter (\<lambda>c. 32 \<le> code c \<and> code c < 127) (strip v) in
          if v = [] \<or> cleaned = [] then pick_header headers ns else Some cleaned)"

section \<open>Audit\<close>

record audit_row =
  au_tenant_id :: uuid
  au_user_id :: string
  au_action :: string
  au_resource :: "string option"
  au_query :: "string option"
  au_summary :: "string option"
  au_sources :: "json list"
  au_extra :: jdict
  au_created_at :: int

type_synonym audit_log = "audit_row list"

definition none_if_empty :: "string option \<Rightarrow> string option" where
  "none_if_empty x = (case x of Some [] \<Rightarrow> None | _ \<Rightarrow> x)"

text \<open>\<open>record_action\<close>, best effort: \<open>ok\<close> says whether the database accepts the row.\<close>

definition record_action ::
  "bool \<Rightarrow> int \<Rightarrow> principal \<Rightarrow> string \<Rightarrow> string option \<Rightarrow> string option \<Rightarrow> string option \<Rightarrow>
   json list \<Rightarrow> jdict \<Rightarrow> audit_log \<Rightarrow> audit_log"
where
  "record_action ok now p action resource query summary sources extra rows =
     (if ok then rows @ [\<lparr> au_tenant_id = pp_tenant_id p, au_user_id = pp_user_id p,
         au_action = action, au_resource = resource, au_query = none_if_empty query,
         au_summary = none_if_empty summary, au_sources = sources, au_extra = extra,
         au_created_at = now \<rparr>]
      else rows)"

section \<open>Lemmas\<close>

lemma jwt_accept: "jwt_laws J \<Longrightarrow> claims_regular c \<Longrightarrow> claims_valid c aud iss now \<Longrightarrow>
    jwt_decode J (jwt_encode J c) aud iss now = Inr c"
  by (simp add: jwt_laws_def)

lemma jwt_reject: "jwt_laws J \<Longrightarrow> claims_regular c \<Longrightarrow> \<not> claims_valid c aud iss now \<Longrightarrow>
    \<exists>m. jwt_decode J (jwt_encode J c) aud iss now = Inl m"
  unfolding jwt_laws_def by (drule spec [of _ c], drule spec [of _ aud], drule spec [of _ iss],
    drule spec [of _ now]) simp

lemma file_claims_valid:
  "claims_valid (file_claims s now user slug doc ttl) aud iss t \<longleftrightarrow>
     aud = FILE_TOKEN_AUDIENCE \<and> iss = jwt_issuer s \<and> now \<le> t \<and> t < now + ttl"
  by (auto simp: file_claims_def claim_simps)

lemma file_claims_regular [simp]: "claims_regular (file_claims s now user slug doc ttl)"
  by (simp add: file_claims_def claim_simps)

lemma file_claims_get [simp]:
  "dget (file_claims s now user slug doc ttl) ''tenant'' = JStr slug"
  "dget (file_claims s now user slug doc ttl) ''sub'' = JStr user"
  "dget (file_claims s now user slug doc ttl) ''doc'' = JStr doc"
  by (simp_all add: file_claims_def dget_def dget_or_def)

lemma session_claims_valid:
  "claims_valid (session_claims s now user slug scopes ttl email) aud iss t \<longleftrightarrow>
     aud = jwt_audience s \<and> iss = jwt_issuer s \<and> now \<le> t \<and> t < now + ttl"
  by (auto simp: session_claims_def claim_simps)

lemma session_claims_regular [simp]: "claims_regular (session_claims s now user slug scopes ttl email)"
  by (simp add: session_claims_def claim_simps)

definition word_ok :: "string \<Rightarrow> bool" where
  "word_ok w \<longleftrightarrow> w \<noteq> [] \<and> list_all (\<lambda>c. \<not> is_space c) w"

lemma dropWhile_word: "list_all (\<lambda>c. \<not> P c) w \<Longrightarrow> dropWhile (\<lambda>c. \<not> P c) (w @ t) = dropWhile (\<lambda>c. \<not> P c) t"
  by (induction w) auto

lemma takeWhile_word: "list_all (\<lambda>c. \<not> P c) w \<Longrightarrow> takeWhile (\<lambda>c. \<not> P c) (w @ t) = w @ takeWhile (\<lambda>c. \<not> P c) t"
  by (induction w) auto

lemma py_split_word:
  assumes "word_ok w" "t = [] \<or> is_space (hd t)"
  shows "py_split (w @ t) = w # py_split t"
proof -
  obtain c w' where w: "w = c # w'" "\<not> is_space c" using assms(1) by (cases w) (auto simp: word_ok_def)
  have "dropWhile is_space (w @ t) = w @ t" by (simp add: w)
  moreover have "dropWhile (\<lambda>c. \<not> is_space c) t = t" "takeWhile (\<lambda>c. \<not> is_space c) t = []"
    using assms(2) by (cases t; auto)+
  ultimately show ?thesis
    using assms(1) py_split.simps [of "w @ t"]
    by (simp add: word_ok_def dropWhile_word takeWhile_word)
qed

lemma py_split_space: "is_space c \<Longrightarrow> py_split (c # s) = py_split s"
  by (subst (1 2) py_split.simps) simp

lemma py_split_Nil [simp]: "py_split [] = []"
  by (subst py_split.simps) simp

lemma py_split_join: "list_all word_ok ws \<Longrightarrow> py_split (join '' '' ws) = ws"
proof (induction "'' ''" ws rule: join.induct)
  case (2 x)
  then show ?case using py_split_word [of x "[]"] by simp
next
  case (3 x y xs)
  have sp: "is_space (CHR '' '')" by (simp add: is_space_def code_def)
  from 3 show ?case using py_split_word [of x "'' '' @ join '' '' (y # xs)"] sp
    by (simp add: py_split_space)
qed simp

lemma denied_not_counted: "ur_status (denied_usage q) = ''quota_denied''"
  by (simp add: denied_usage_def)

lemma check_record_denied:
  "check s db now (record_usage ok t ctx (denied_usage q) l) ctx' arg = check s db now l ctx' arg"
proof -
  have "window_usage now (record_usage ok t ctx (denied_usage q) l) (ctx_tenant_id ctx') =
      window_usage now l (ctx_tenant_id ctx')"
    by (cases ok) (auto simp: record_usage_def in_window_def denied_not_counted
        intro!: window_usage_ignored)
  then show ?thesis by (simp only: check_def)
qed

section \<open>Properties\<close>

text \<open>
  C18. A session token authenticates exactly its user: presented while it is valid it yields the
  principal it was minted for, with the tenant looked up by slug and the set of its scopes; later
  it is a 401.
\<close>

theorem session_token_roundtrip:
  assumes "jwt_laws J" and "user \<noteq> []" and "slug \<noteq> []" and "list_all word_ok scopes"
    and "filter (\<lambda>t. tn_slug t = slug) ts = [tn]" and "now \<le> t"
  shows "\<exists>m. get_principal J s ts t (Some (mint_jwt J s now user slug scopes ttl email)) =
    (if t < now + ttl
     then Inr \<lparr> pp_user_id = user, pp_tenant_id = tn_id tn, pp_tenant_slug = slug,
       pp_scopes = set scopes, pp_email = (case email of None \<Rightarrow> JNull | Some e \<Rightarrow> JStr e) \<rparr>
     else Inl (HTTPError 401 m))"
proof (cases "t < now + ttl")
  case True
  let ?c = "session_claims s now user slug scopes ttl email"
  have dec: "jwt_decode J (jwt_encode J ?c) (jwt_audience s) (jwt_issuer s) t = Inr ?c"
    using assms(1,6) True by (intro jwt_accept) (simp_all add: session_claims_valid)
  have sc: "claim_scopes ?c = Inr (set scopes)"
    using py_split_join [OF assms(4)]
    by (cases "join '' '' scopes = []") (auto simp: claim_scopes_def session_claims_def dget_def dget_or_def)
  have fields: "dget ?c ''tenant'' = JStr slug" "dget ?c ''sub'' = JStr user"
    "dget ?c ''email'' = (case email of None \<Rightarrow> JNull | Some e \<Rightarrow> JStr e)"
    by (simp_all add: session_claims_def dget_def dget_or_def)
  show ?thesis using True assms(2,3,5)
    by (simp add: get_principal_def principal_from_jwt_def mint_jwt_def dec sc fields por_def
        Let_def as_text_def resolve_tenant_id_def)
next
  case False
  then obtain m where "jwt_decode J (mint_jwt J s now user slug scopes ttl email)
      (jwt_audience s) (jwt_issuer s) t = Inl m"
    using jwt_reject [OF assms(1) session_claims_regular] unfolding mint_jwt_def by (metis session_claims_valid)
  with False show ?thesis by (simp add: get_principal_def principal_from_jwt_def)
qed

definition sample_tenant :: tenant where
  "sample_tenant = \<lparr> tn_id = ''t1'', tn_slug = ''acme'', tn_name = ''Acme'', tn_active = True,
     tn_settings = None, tn_trial = None, tn_plan = None \<rparr>"

theorem session_token_roundtrip_witness:
  "\<exists>p. get_principal plain_jwt default_settings [sample_tenant] 5
     (Some (mint_jwt plain_jwt default_settings 0 ''u1'' ''acme'' [''owner'', ''*''] 3600 None)) = Inr p \<and>
     pp_scopes p = {''owner'', ''*''} \<and> pp_tenant_id p = ''t1''"
proof -
  have "list_all word_ok [''owner'', ''*'']" by code_simp
  moreover have "filter (\<lambda>t. tn_slug t = ''acme'') [sample_tenant] = [sample_tenant]"
    by (simp add: sample_tenant_def)
  ultimately show ?thesis
    using session_token_roundtrip [OF plain_jwt_laws, where user = "''u1''" and slug = "''acme''"
        and scopes = "[''owner'', ''*'']" and ts = "[sample_tenant]" and tn = sample_tenant
        and now = 0 and t = 5 and s = default_settings and ttl = 3600 and email = None]
    by (simp add: sample_tenant_def)
qed

text \<open>
  C11. Tokens do not cross over, as long as the configured \<open>JWT_AUDIENCE\<close> is not \<open>askai-file\<close>: a download token that
  the server minted is never a session, and a session token that it minted never opens a download.
\<close>

theorem tokens_separated:
  assumes "jwt_laws J" and "jwt_audience s \<noteq> FILE_TOKEN_AUDIENCE"
  shows "(\<exists>m. get_principal J s ts t (Some (mint_file_token J s now user slug doc ttl)) =
      Inl (HTTPError 401 m)) \<and>
    (\<exists>m. verify_file_token J s ts t (mint_jwt J s now user slug scopes ttl email) doc' =
      Inl (HTTPError 401 m))"
proof -
  obtain m where m: "jwt_decode J (mint_file_token J s now user slug doc ttl) (jwt_audience s)
      (jwt_issuer s) t = Inl m"
    using jwt_reject [OF assms(1) file_claims_regular] assms(2) unfolding mint_file_token_def
    by (metis file_claims_valid)
  obtain n where n: "jwt_decode J (mint_jwt J s now user slug scopes ttl email) FILE_TOKEN_AUDIENCE
      (jwt_issuer s) t = Inl n"
    using jwt_reject [OF assms(1) session_claims_regular] assms(2) unfolding mint_jwt_def by (metis session_claims_valid)
  show ?thesis by (simp add: get_principal_def principal_from_jwt_def verify_file_token_def m n)
qed

theorem tokens_separated_witness:
  "\<exists>m. get_principal plain_jwt default_settings [sample_tenant] 5
     (Some (mint_file_token plain_jwt default_settings 0 ''u1'' ''acme'' ''d1'' 300)) =
     Inl (HTTPError 401 m)"
proof -
  have "jwt_audience default_settings \<noteq> FILE_TOKEN_AUDIENCE"
    by (simp add: default_settings_def FILE_TOKEN_AUDIENCE_def)
  from tokens_separated [OF plain_jwt_laws this] show ?thesis by blast
qed

text \<open>
  A download token opens the document it was minted for, until it expires, and no other one.
\<close>

theorem file_token_pinned:
  assumes "jwt_laws J" and "user \<noteq> []" and "slug \<noteq> []"
    and "filter (\<lambda>t. tn_slug t = slug) ts = [tn]" and "now \<le> t"
  shows "case verify_file_token J s ts t (mint_file_token J s now user slug doc ttl) doc' of
      Inr r \<Rightarrow> doc' = doc \<and> t < now + ttl \<and> r = (user, tn_id tn)
    | Inl e \<Rightarrow> (doc' \<noteq> doc \<or> now + ttl \<le> t) \<and> (\<exists>m. e = HTTPError 401 m \<or> e = HTTPError 403 m)"
proof (cases "t < now + ttl")
  case True
  let ?c = "file_claims s now user slug doc ttl"
  have dec: "jwt_decode J (jwt_encode J ?c) FILE_TOKEN_AUDIENCE (jwt_issuer s) t = Inr ?c"
    using assms(1,5) True by (intro jwt_accept) (simp_all add: file_claims_valid)
  show ?thesis using True assms(2,3,4)
    by (auto simp: verify_file_token_def mint_file_token_def dec resolve_tenant_id_def)
next
  case False
  then obtain m where "jwt_decode J (mint_file_token J s now user slug doc ttl)
      FILE_TOKEN_AUDIENCE (jwt_issuer s) t = Inl m"
    using jwt_reject [OF assms(1) file_claims_regular] unfolding mint_file_token_def by (metis file_claims_valid)
  with False show ?thesis by (simp add: verify_file_token_def)
qed

theorem file_token_pinned_witness:
  "\<exists>e. verify_file_token plain_jwt default_settings [sample_tenant] 5
     (mint_file_token plain_jwt default_settings 0 ''u1'' ''acme'' ''d1'' 300) ''d2'' = Inl e"
proof -
  have "filter (\<lambda>t. tn_slug t = ''acme'') [sample_tenant] = [sample_tenant]"
    by (simp add: sample_tenant_def)
  from file_token_pinned [OF plain_jwt_laws _ _ this, where user = "''u1''"
      and now = 0 and t = 5 and s = default_settings and doc = "''d1''" and ttl = 300
      and doc' = "''d2''"]
  show ?thesis by (auto split: sum.splits)
qed

text \<open>
  Denied attempts are free: whatever the quota guard of a route does to the ledger, no later quota
  decision changes, for any tenant and at any time; and a caller over quota gets a 429.
\<close>

theorem quota_guard_free:
  "case quota_guard s ts ok now purpose rid p l of (l', r) \<Rightarrow>
     check s' db t l' ctx arg = check s' db t l ctx arg \<and>
     (case enforce_quota_service s (tenant_db ts) now l (quota_context rid p purpose) Unset of
        Inr st \<Rightarrow> r = Inr p
      | Inl (QuotaExceeded m q) \<Rightarrow> r = Inl (HTTPError 429 m)
      | Inl e \<Rightarrow> r = Inl e)"
proof (cases "enforce_quota_service s (tenant_db ts) now l (quota_context rid p purpose) Unset")
  case (Inl e)
  then show ?thesis by (cases e) (simp_all add: quota_guard_def Let_def check_record_denied)
next
  case (Inr st)
  then show ?thesis by (simp add: quota_guard_def Let_def)
qed

text \<open>
  The trial guard refuses exactly the tenants it means to: not a public slug, a plan that is not paid,
  and a trial that has ended.
\<close>

theorem trial_guard_exact:
  "require_active_trial ts now p =
     (case find (\<lambda>t. tn_id t = pp_tenant_id p) ts of
        Some t \<Rightarrow>
          if pp_tenant_slug p \<notin> {''demo-public'', ''demo-template''} \<and>
             (tn_plan t = None \<or> tn_plan t = Some ''trial'' \<or> tn_plan t = Some ''demo'') \<and>
             (\<exists>until. tn_trial t = Some until \<and> until < now)
          then Inl (HTTPError 402 (''Your free trial has ended. Subscribe to continue, or '' @
             ''contact support if you'd like an extension.''))
          else Inr p
      | None \<Rightarrow> Inr p)"
  by (auto simp: require_active_trial_def NEVER_PAYWALLED_def NON_PAID_PLANS_def
      split: option.splits)

definition cloud_settings :: settings where
  "cloud_settings = default_settings\<lparr> openai_api_key := Some ''sk'' \<rparr>"

definition allow_only :: "string \<Rightarrow> tenant" where
  "allow_only m = sample_tenant\<lparr> tn_settings := Some [(''gateway'',
     JObj [(''policy'', JObj [(''allowed_models'', JList [JStr m])])])] \<rparr>"

definition sample_principal :: principal where
  "sample_principal = \<lparr> pp_user_id = ''u1'', pp_tenant_id = ''t1'', pp_tenant_slug = ''acme'',
     pp_scopes = {}, pp_email = JNull \<rparr>"

definition chain_allowed :: "settings \<Rightarrow> tenant \<Rightarrow> bool" where
  "chain_allowed s t =
     (case (resolve_policy (tn_settings t), resolve_target_chain (tn_settings t) s) of
        (Inr pol, Inr chain) \<Rightarrow> list_ex (\<lambda>g. configured g \<and> enforce pol (Some (tgt_model g)) = Inr ()) chain
      | _ \<Rightarrow> False)"

lemma allow_only_policy:
  "resolve_policy (tn_settings (allow_only m)) =
     Inr (default_policy\<lparr> allowed_models := (if strip m = [] then [] else [strip m]) \<rparr>)"
  by (simp add: resolve_policy_def allow_only_def default_policy_def gateway_block_def
      gateway_get_def dget_def dget_or_def por_def jget_or_def coerce_int_def clean_models_def)

lemma allow_only_chain:
  "resolve_target_chain (tn_settings (allow_only m)) cloud_settings =
     Inr [snd (available_targets cloud_settings ! 1)]"
  by (simp add: resolve_target_chain_def allow_only_def gateway_get_def dget_def dget_or_def
      por_def pick_targets_def List.map_filter_def available_targets_def default_order_def
      cloud_settings_def default_settings_def)

lemma allow_only_route:
  "resolve_route (tn_settings (allow_only m)) ''chat'' cloud_settings =
     Inr \<lparr> rt_provider = ''openai'', rt_model = ''gpt-4o'', rt_purpose = ''chat'' \<rparr>"
  by (simp add: resolve_route_def defaults_for_def allow_only_def gateway_get_def dget_def dget_or_def
      por_def cloud_settings_def default_settings_def)

text \<open>
  The early policy guard judges the model of the route, the gateway the model of the target: on a
  default deployment with an OpenAI key, a tenant whose allow-list names the cloud model that the gateway
  would call is refused with 403, and one whose allow-list names the route's model passes the guard
  although no target of its chain is allowed.
\<close>

theorem policy_guard_judges_other_model:
  "(\<exists>msg. policy_guard cloud_settings [allow_only ''gpt-4o-mini''] ''chat'' sample_principal =
      Inl (HTTPError 403 msg)) \<and>
   chain_allowed cloud_settings (allow_only ''gpt-4o-mini'') \<and>
   policy_guard cloud_settings [allow_only ''gpt-4o''] ''chat'' sample_principal = Inr sample_principal \<and>
   \<not> chain_allowed cloud_settings (allow_only ''gpt-4o'')"
proof -
  have strip: "strip ''gpt-4o-mini'' = ''gpt-4o-mini''" "strip ''gpt-4o'' = ''gpt-4o''" by code_simp+
  have load: "load_tenant_settings (tenant_db [allow_only m]) (pp_tenant_id sample_principal) =
      tn_settings (allow_only m)" for m
    by (simp add: load_tenant_settings_def tenant_db_def allow_only_def sample_tenant_def
        sample_principal_def)
  have model: "tgt_model (snd (available_targets cloud_settings ! 1)) = ''gpt-4o-mini''"
    "configured (snd (available_targets cloud_settings ! 1))"
    by (simp_all add: available_targets_def cloud_settings_def default_settings_def)
  show ?thesis using model
    by (simp add: policy_guard_def Let_def load allow_only_policy allow_only_route enforce_def
        default_policy_def strip chain_allowed_def allow_only_chain)
qed

end
