(* ===== verification/Accounts.thy ===== *)
theory Accounts
  imports Auth
begin

text \<open>
  Accounts: sign-up, login and the current user (\<open>packages/api/.../routes/auth.py\<close>), invites and the
  user list (\<open>routes/admin.py\<close>).  The database is the tables of tenants, users and audit rows; fresh
  identifiers and the random part of a slug are arguments of the operation that draws them.
\<close>

record user =
  us_id :: uuid
  us_tenant :: uuid
  us_email :: string
  us_password_hash :: string
  us_full_name :: "string option"
  us_role :: string
  us_active :: bool
  us_last_login :: "int option"
  us_created :: int

record accounts =
  ac_tenants :: "tenant list"
  ac_users :: "user list"
  ac_audit :: audit_log

record user_read =
  ur_id :: string
  ur_email :: string
  ur_full_name :: "string option"
  ur_role :: string
  ur_tenant_id :: uuid
  ur_tenant_slug :: string
  ur_tenant_name :: string
  ur_plan :: "string option"
  ur_trial :: "int option"
  ur_remaining_days :: "int option"

record 'tok auth_response =
  ar_token :: 'tok
  ar_expires_in :: int
  ar_user :: user_read

section \<open>Slugs\<close>

text \<open>
  \<open>unicodedata.normalize("NFKD", c).encode("ascii", "ignore")\<close> of one character of the Latin-1
  range: the base letter of an accented one, the digits of superscripts and fractions, and nothing for
  the characters without an ASCII part.
\<close>

definition nfkd_ascii :: "char \<Rightarrow> string" where
  "nfkd_ascii c =
     (let n = code c; btw = (\<lambda>a b. a \<le> n \<and> n \<le> b) in
       if n < 128 then [c]
       else if n \<in> {160, 168, 175, 180, 184} then '' ''
       else if n = 170 then ''a'' else if n = 178 then ''2'' else if n = 179 then ''3''
       else if n = 185 then ''1'' else if n = 186 then ''o''
       else if n = 188 then ''14'' else if n = 189 then ''12'' else if n = 190 then ''34''
       else if btw 192 197 then ''A'' else if n = 199 then ''C'' else if btw 200 203 then ''E''
       else if btw 204 207 then ''I'' else if n = 209 then ''N'' else if btw 210 214 then ''O''
       else if btw 217 220 then ''U'' else if n = 221 then ''Y''
       else if btw 224 229 then ''a'' else if n = 231 then ''c'' else if btw 232 235 then ''e''
       else if btw 236 239 then ''i'' else if n = 241 then ''n'' else if btw 242 246 then ''o''
       else if btw 249 252 then ''u'' else if n = 253 \<or> n = 255 then ''y''
       else [])"

definition is_alnum_ascii :: "char \<Rightarrow> bool" where
  "is_alnum_ascii c = (is_ascii_alpha c \<or> is_digit c)"

text \<open>\<open>re.sub(r"[^a-zA-Z0-9]+", "-", s)\<close>: \<open>inrun\<close> says that the run before was replaced already.\<close>

fun dash_runs :: "bool \<Rightarrow> string \<Rightarrow> string" where
  "dash_runs inrun [] = []"
| "dash_runs inrun (c # s) =
     (if is_alnum_ascii c then c # dash_runs False s
      else if inrun then dash_runs True s else CHR ''-'' # dash_runs True s)"

definition slugify :: "string \<Rightarrow> string" where
  "slugify name =
     (let s = lower (strip_of (\<lambda>c. c = CHR ''-'') (dash_runs False (concat (map nfkd_ascii name))))
      in if s = [] then ''tenant'' else take 32 s)"

section \<open>Responses\<close>

definition DAY :: int where
  "DAY = 24 * 60 * 60"

definition user_view :: "int \<Rightarrow> user \<Rightarrow> tenant \<Rightarrow> user_read" where
  "user_view now u t =
     \<lparr> ur_id = us_id u, ur_email = us_email u, ur_full_name = us_full_name u, ur_role = us_role u,
       ur_tenant_id = tn_id t, ur_tenant_slug = tn_slug t, ur_tenant_name = tn_name t,
       ur_plan = tn_plan t, ur_trial = tn_trial t,
       ur_remaining_days = map_option (\<lambda>e. max 0 ((e - now) div DAY)) (tn_trial t) \<rparr>"

definition role_scopes :: "string \<Rightarrow> string list" where
  "role_scopes role = (if role = ''owner'' then [role, ''*''] else [role])"

definition make_auth_response ::
  "'tok jwt \<Rightarrow> settings \<Rightarrow> int \<Rightarrow> user \<Rightarrow> tenant \<Rightarrow> 'tok auth_response" where
  "make_auth_response J s now u t =
     \<lparr> ar_token = mint_jwt J s now (us_id u) (tn_slug t) (role_scopes (us_role u))
         (jwt_token_ttl_seconds s) (Some (us_email u)),
       ar_expires_in = jwt_token_ttl_seconds s, ar_user = user_view now u t \<rparr>"

definition audit_event :: "bool \<Rightarrow> int \<Rightarrow> uuid \<Rightarrow> string \<Rightarrow> string \<Rightarrow> string \<Rightarrow> accounts \<Rightarrow> accounts" where
  "audit_event ok now tid uid action summary db =
     (if ok then db\<lparr> ac_audit := ac_audit db @ [\<lparr> au_tenant_id = tid, au_user_id = uid,
         au_action = action, au_resource = Some ''/v1/auth'', au_query = None,
         au_summary = Some summary, au_sources = [], au_extra = [], au_created_at = now \<rparr>] \<rparr>
      else db)"

section \<open>Sign-up\<close>

record signup_request =
  su_email :: string
  su_password :: string
  su_full_name :: "string option"
  su_organisation :: string

text \<open>What sign-up draws: the identifiers of the rows and the suffix of the slug.\<close>

record signup_draw =
  sd_tenant_id :: uuid
  sd_user_id :: uuid
  sd_suffix :: string
  sd_audit_ok :: bool
  sd_summary :: string

definition new_tenant :: "settings \<Rightarrow> int \<Rightarrow> signup_draw \<Rightarrow> signup_request \<Rightarrow> tenant" where
  "new_tenant s now d r =
     \<lparr> tn_id = sd_tenant_id d, tn_slug = slugify (su_organisation r) @ ''-'' @ sd_suffix d,
       tn_name = strip (su_organisation r), tn_active = True, tn_settings = Some [],
       tn_trial = (if trial_default_days s > 0 then Some (now + trial_default_days s * DAY) else None),
       tn_plan = Some ''trial'' \<rparr>"

definition signup ::
  "'tok jwt \<Rightarrow> bcrypt \<Rightarrow> settings \<Rightarrow> int \<Rightarrow> signup_draw \<Rightarrow> signup_request \<Rightarrow> accounts \<Rightarrow>
   accounts \<times> (exn + 'tok auth_response)"
where
  "signup J B s now d r db =
     (if lower (su_email r) \<in> us_email ` set (ac_users db)
      then (db, Inl (HTTPError 409 ''email already registered''))
      else case hash_password B (su_password r) of
        Inl (WeakPasswordError m) \<Rightarrow> (db, Inl (HTTPError 400 m))
      | Inl (HashError e) \<Rightarrow> (db, Inl e)
      | Inr h \<Rightarrow>
          let t = new_tenant s now d r;
              u = \<lparr> us_id = sd_user_id d, us_tenant = tn_id t, us_email = lower (su_email r),
                us_password_hash = h, us_full_name = su_full_name r, us_role = ''owner'',
                us_active = True, us_last_login = Some now, us_created = now \<rparr>
          in if tn_id t \<in> tn_id ` set (ac_tenants db) \<or> tn_slug t \<in> tn_slug ` set (ac_tenants db) \<or>
                us_id u \<in> us_id ` set (ac_users db)
             then (db, Inl (OtherExc ''IntegrityError''))
             else
               (audit_event (sd_audit_ok d) now (tn_id t) (us_id u) ''signup'' (sd_summary d)
                  (db\<lparr> ac_tenants := ac_tenants db @ [t], ac_users := ac_users db @ [u] \<rparr>),
                Inr (make_auth_response J s now u t)))"

section \<open>Login\<close>

definition login_failed :: exn where
  "login_failed = HTTPError 401 ''invalid email or password''"

text \<open>The first row of the join of users and tenants.\<close>

definition user_with_tenant :: "accounts \<Rightarrow> string \<Rightarrow> (user \<times> tenant) option" where
  "user_with_tenant db email =
     (case filter (\<lambda>(u, t). us_tenant u = tn_id t \<and> us_email u = email)
             (List.product (ac_users db) (ac_tenants db)) of
        [] \<Rightarrow> None
      | p # _ \<Rightarrow> Some p)"

definition touch_login :: "int \<Rightarrow> uuid \<Rightarrow> accounts \<Rightarrow> accounts" where
  "touch_login now uid db =
     db\<lparr> ac_users := map (\<lambda>u. if us_id u = uid then u\<lparr> us_last_login := Some now \<rparr> else u) (ac_users db) \<rparr>"

definition login ::
  "'tok jwt \<Rightarrow> bcrypt \<Rightarrow> settings \<Rightarrow> int \<Rightarrow> bool \<Rightarrow> string \<Rightarrow> string \<Rightarrow> string \<Rightarrow> accounts \<Rightarrow>
   accounts \<times> (exn + 'tok auth_response)"
where
  "login J B s now audit_ok host email password db =
     (case user_with_tenant db (lower email) of
        None \<Rightarrow> (db, Inl login_failed)
      | Some (u, t) \<Rightarrow>
          if \<not> us_active u \<or> \<not> tn_active t then (db, Inl login_failed)
          else
            (case verify_password B password (us_password_hash u) of
               Inl e \<Rightarrow> (db, Inl e)
             | Inr False \<Rightarrow> (db, Inl login_failed)
             | Inr True \<Rightarrow>
                 let u' = u\<lparr> us_last_login := Some now \<rparr> in
                 (audit_event audit_ok now (tn_id t) (us_id u) ''login''
                    (''Login from '' @ host @ '' as '' @ us_email u) (touch_login now (us_id u) db),
                  Inr (make_auth_response J s now u' t))))"

definition me :: "int \<Rightarrow> principal \<Rightarrow> accounts \<Rightarrow> user_read" where
  "me now p db =
     (let email = (case pp_email p of JStr e \<Rightarrow> e | _ \<Rightarrow> []) in
       case user_with_tenant db email of
         Some (u, t) \<Rightarrow> user_view now u t
       | None \<Rightarrow>
           \<lparr> ur_id = ''anonymous'', ur_email = (if email = [] then ''demo@local'' else email),
             ur_full_name = None, ur_role = ''member'', ur_tenant_id = pp_tenant_id p,
             ur_tenant_slug = pp_tenant_slug p, ur_tenant_name = pp_tenant_slug p,
             ur_plan = Some ''demo'', ur_trial = None, ur_remaining_days = None \<rparr>)"

section \<open>Invites\<close>

definition require_owner :: "principal \<Rightarrow> exn + principal" where
  "require_owner p =
     (if ''*'' \<in> pp_scopes p \<or> ''owner'' \<in> pp_scopes p then Inr p
      else Inl (HTTPError 403 ''owner role required''))"

definition list_users :: "principal \<Rightarrow> accounts \<Rightarrow> user list" where
  "list_users p db =
     rev (sort_key us_created (filter (\<lambda>u. us_tenant u = pp_tenant_id p) (ac_users db)))"

record invite_create =
  ic_email :: "string option"
  ic_role :: string
  ic_ttl_hours :: int

text \<open>The request model admits the roles \<open>member\<close> and \<open>admin\<close> only.\<close>

definition invite_ok :: "invite_create \<Rightarrow> bool" where
  "invite_ok i \<longleftrightarrow> ic_role i \<in> {''member'', ''admin''} \<and> 1 \<le> ic_ttl_hours i \<and> ic_ttl_hours i \<le> 720"

definition INVITE_AUD :: string where
  "INVITE_AUD = ''askai-invite''"

definition invite_claims :: "settings \<Rightarrow> int \<Rightarrow> invite_create \<Rightarrow> principal \<Rightarrow> jdict" where
  "invite_claims s now i p =
     [(''invite'', JBool True), (''tenant'', JStr (pp_tenant_slug p)),
      (''tenant_id'', JStr (pp_tenant_id p)), (''role'', JStr (ic_role i)),
      (''invited_email'', case ic_email i of None \<Rightarrow> JNull | Some e \<Rightarrow> JStr e),
      (''invited_by'', JStr (pp_user_id p)), (''iat'', JInt now),
      (''exp'', JInt (now + ic_ttl_hours i * 3600)), (''aud'', JStr INVITE_AUD),
      (''iss'', JStr (jwt_issuer s))]"

lemma invite_claims_regular [simp]: "claims_regular (invite_claims s now i p)"
  by (simp add: invite_claims_def claim_simps)

definition create_invite ::
  "'tok jwt \<Rightarrow> settings \<Rightarrow> int \<Rightarrow> invite_create \<Rightarrow> principal \<Rightarrow> exn + 'tok" where
  "create_invite J s now i p =
     try_bind (require_owner p) (\<lambda>_. Inr (jwt_encode J (invite_claims s now i p)))"

record 'tok accept_request =
  aq_token :: 'tok
  aq_password :: string
  aq_full_name :: "string option"
  aq_email :: string

text \<open>
  \<open>accept_invite\<close>; \<open>is_uuid\<close> is the parser of \<open>uuid.UUID\<close>, \<open>uid\<close> the identifier of the new row.
\<close>

definition accept_invite ::
  "'tok jwt \<Rightarrow> bcrypt \<Rightarrow> (string \<Rightarrow> bool) \<Rightarrow> settings \<Rightarrow> int \<Rightarrow> uuid \<Rightarrow> 'tok accept_request \<Rightarrow>
   accounts \<Rightarrow> accounts \<times> (exn + user)"
where
  "accept_invite J B is_uuid s now uid r db =
     (case jwt_decode J (aq_token r) INVITE_AUD (jwt_issuer s) now of
        Inl m \<Rightarrow> (db, Inl (HTTPError 400 (''invalid or expired invite: '' @ m)))
      | Inr c \<Rightarrow>
          if \<not> truthy (dget c ''invite'') then (db, Inl (HTTPError 400 ''not an invite token''))
          else if \<not> truthy (dget c ''tenant'') \<or> \<not> truthy (dget c ''tenant_id'')
          then (db, Inl (HTTPError 400 ''malformed invite token''))
          else
            (case dget c ''tenant_id'' of
               JStr tid \<Rightarrow>
                 if \<not> is_uuid tid then (db, Inl (HTTPError 400 ''malformed tenant id''))
                 else
                   (case hash_password B (aq_password r) of
                      Inl (WeakPasswordError m) \<Rightarrow> (db, Inl (HTTPError 400 m))
                    | Inl (HashError e) \<Rightarrow> (db, Inl e)
                    | Inr h \<Rightarrow>
                        (case find (\<lambda>t. tn_id t = tid) (ac_tenants db) of
                           None \<Rightarrow> (db, Inl (HTTPError 410 ''workspace no longer available''))
                         | Some t \<Rightarrow>
                             if \<not> tn_active t
                             then (db, Inl (HTTPError 410 ''workspace no longer available''))
                             else if lower (aq_email r) \<in> us_email ` set (ac_users db)
                             then (db, Inl (HTTPError 409 ''email already registered''))
                             else if uid \<in> us_id ` set (ac_users db)
                             then (db, Inl (OtherExc ''IntegrityError''))
                             else
                               (let u = \<lparr> us_id = uid, us_tenant = tn_id t,
                                  us_email = lower (aq_email r), us_password_hash = h,
                                  us_full_name = aq_full_name r,
                                  us_role = py_str (dget_or c ''role'' (JStr ''member'')),
                                  us_active = True, us_last_login = None, us_created = now \<rparr>
                                in (db\<lparr> ac_users := ac_users db @ [u] \<rparr>, Inr u))))
             | _ \<Rightarrow> (db, Inl (PyExc AttributeError))))"

section \<open>Accounts as a state machine\<close>

inductive account_step :: "'tok jwt \<Rightarrow> bcrypt \<Rightarrow> settings \<Rightarrow> accounts \<Rightarrow> accounts \<Rightarrow> bool"
  for J B s where
  step_signup: "signup J B s now d r db = (db', Inr resp) \<Longrightarrow> account_step J B s db db'"
| step_login: "login J B s now ok host email pw db = (db', res) \<Longrightarrow> account_step J B s db db'"
| step_accept: "accept_invite J B is_uuid s now uid r db = (db', Inr u) \<Longrightarrow> account_step J B s db db'"

definition empty_accounts :: accounts where
  "empty_accounts = \<lparr> ac_tenants = [], ac_users = [], ac_audit = [] \<rparr>"

inductive accounts_reachable :: "'tok jwt \<Rightarrow> bcrypt \<Rightarrow> settings \<Rightarrow> accounts \<Rightarrow> bool"
  for J B s where
  accounts_init: "accounts_reachable J B s empty_accounts"
| accounts_next: "accounts_reachable J B s db \<Longrightarrow> account_step J B s db db' \<Longrightarrow>
    accounts_reachable J B s db'"

definition accounts_ok :: "accounts \<Rightarrow> bool" where
  "accounts_ok db \<longleftrightarrow>
     distinct (map us_id (ac_users db)) \<and> distinct (map us_email (ac_users db)) \<and>
     distinct (map tn_id (ac_tenants db)) \<and> distinct (map tn_slug (ac_tenants db)) \<and>
     list_all (\<lambda>u. lower (us_email u) = us_email u \<and> us_tenant u \<in> tn_id ` set (ac_tenants db))
       (ac_users db)"

lemma audit_event_sel [simp]:
  "ac_tenants (audit_event ok now tid uid a sm db) = ac_tenants db"
  "ac_users (audit_event ok now tid uid a sm db) = ac_users db"
  by (simp_all add: audit_event_def)

lemma touch_login_sel [simp]:
  "ac_tenants (touch_login now uid db) = ac_tenants db"
  "map us_id (ac_users (touch_login now uid db)) = map us_id (ac_users db)"
  "map us_email (ac_users (touch_login now uid db)) = map us_email (ac_users db)"
  by (auto simp: touch_login_def)

lemma touch_login_ok: "accounts_ok db \<Longrightarrow> accounts_ok (touch_login now uid db)"
  unfolding accounts_ok_def by (auto simp: list_all_iff) (auto simp: touch_login_def)

lemma accounts_ok_audit [simp]:
  "accounts_ok (audit_event ok now tid uid a sm db) = accounts_ok db"
  by (simp add: accounts_ok_def)

lemma signup_Inr:
  assumes "signup J B s now d r db = (db', Inr resp)"
  obtains h u where "hash_password B (su_password r) = Inr h"
    and "u = \<lparr> us_id = sd_user_id d, us_tenant = sd_tenant_id d, us_email = lower (su_email r),
       us_password_hash = h, us_full_name = su_full_name r, us_role = ''owner'',
       us_active = True, us_last_login = Some now, us_created = now \<rparr>"
    and "resp = make_auth_response J s now u (new_tenant s now d r)"
    and "db' = audit_event (sd_audit_ok d) now (sd_tenant_id d) (sd_user_id d) ''signup'' (sd_summary d)
      (db\<lparr> ac_tenants := ac_tenants db @ [new_tenant s now d r], ac_users := ac_users db @ [u] \<rparr>)"
    and "lower (su_email r) \<notin> us_email ` set (ac_users db)"
    and "sd_tenant_id d \<notin> tn_id ` set (ac_tenants db)" "sd_user_id d \<notin> us_id ` set (ac_users db)"
    and "tn_slug (new_tenant s now d r) \<notin> tn_slug ` set (ac_tenants db)"
proof -
  have id: "tn_id (new_tenant s now d r) = sd_tenant_id d" by (simp add: new_tenant_def)
  obtain h where h: "hash_password B (su_password r) = Inr h"
    using assms
    by (cases "hash_password B (su_password r)") (auto simp: signup_def split: if_splits password_error.splits)
  show ?thesis
    by (rule that [OF h refl]) (use assms in \<open>auto simp: signup_def Let_def h id split: if_splits\<close>)
qed

lemma accept_Inr:
  assumes "accept_invite J B is_uuid s now uid r db = (db', Inr u)"
  obtains c tid t where "jwt_decode J (aq_token r) INVITE_AUD (jwt_issuer s) now = Inr c"
    and "dget c ''tenant_id'' = JStr tid" and "find (\<lambda>t. tn_id t = tid) (ac_tenants db) = Some t"
    and "tn_active t" and "us_tenant u = tn_id t"
    and "us_role u = py_str (dget_or c ''role'' (JStr ''member''))"
    and "us_email u = lower (aq_email r)" and "us_id u = uid"
    and "lower (aq_email r) \<notin> us_email ` set (ac_users db)" and "uid \<notin> us_id ` set (ac_users db)"
    and "db' = db\<lparr> ac_users := ac_users db @ [u] \<rparr>"
proof -
  obtain c where c: "jwt_decode J (aq_token r) INVITE_AUD (jwt_issuer s) now = Inr c"
    using assms by (cases "jwt_decode J (aq_token r) INVITE_AUD (jwt_issuer s) now")
      (simp_all add: accept_invite_def)
  obtain tid where tid: "dget c ''tenant_id'' = JStr tid"
    using assms c by (cases "dget c ''tenant_id''") (auto simp: accept_invite_def split: if_splits)
  obtain h where h: "hash_password B (aq_password r) = Inr h"
    using assms c tid
    by (cases "hash_password B (aq_password r)")
      (auto simp: accept_invite_def split: if_splits password_error.splits)
  obtain t where t: "find (\<lambda>t. tn_id t = tid) (ac_tenants db) = Some t"
    using assms c tid h by (cases "find (\<lambda>t. tn_id t = tid) (ac_tenants db)")
      (auto simp: accept_invite_def split: if_splits)
  show ?thesis
    by (rule that [OF c tid t])
      (use assms in \<open>auto simp: accept_invite_def c tid h t Let_def split: if_splits\<close>)
qed

lemma login_cases:
  assumes "login J B s now ok host email pw db = (db', res)"
  obtains (failed) e where "db' = db" "res = Inl e"
    "e = login_failed \<or> (\<exists>h. bc_check B pw h = Inl e)"
  | (entered) u t where "user_with_tenant db (lower email) = Some (u, t)" "us_active u" "tn_active t"
    "verify_password B pw (us_password_hash u) = Inr True"
    "res = Inr (make_auth_response J s now (u\<lparr> us_last_login := Some now \<rparr>) t)"
    "db' = audit_event ok now (tn_id t) (us_id u) ''login'' (''Login from '' @ host @ '' as '' @ us_email u)
      (touch_login now (us_id u) db)"
proof (cases "user_with_tenant db (lower email)")
  case None
  then show ?thesis using assms failed [of login_failed] by (auto simp: login_def)
next
  case (Some ut)
  obtain u t where ut: "ut = (u, t)" by (cases ut)
  consider (e) e where "verify_password B pw (us_password_hash u) = Inl e"
    | (f) "verify_password B pw (us_password_hash u) = Inr False"
    | (t) "verify_password B pw (us_password_hash u) = Inr True"
    by (cases "verify_password B pw (us_password_hash u)") auto
  then show ?thesis
  proof cases
    case e
    then have "\<exists>h. bc_check B pw h = Inl e"
      by (auto simp: verify_password_def split: if_splits sum.splits exn.splits py_exc.splits)
    then show ?thesis using assms failed [of e] failed [of login_failed] Some ut e by (auto simp: login_def split: if_splits)
  next
    case f
    then show ?thesis using assms failed [of login_failed] Some ut by (auto simp: login_def split: if_splits)
  next
    case t
    then show ?thesis using assms failed [of login_failed] entered [of u t] Some ut
      by (auto simp: login_def Let_def split: if_splits)
  qed
qed

lemma reachable_accounts_ok: "accounts_reachable J B s db \<Longrightarrow> accounts_ok db"
proof (induction rule: accounts_reachable.induct)
  case accounts_init
  then show ?case by (simp add: accounts_ok_def empty_accounts_def)
next
  case (accounts_next db db')
  from accounts_next.hyps(2) accounts_next.IH show ?case
  proof cases
    case (step_signup now d r resp)
    from step_signup accounts_next.IH show ?thesis
      by (elim signup_Inr) (auto simp: accounts_ok_def list_all_iff new_tenant_def)
  next
    case (step_login now ok host email pw res)
    from step_login accounts_next.IH show ?thesis
      by (elim login_cases) (auto simp: touch_login_ok)
  next
    case (step_accept is_uuid now uid r u)
    from step_accept accounts_next.IH show ?thesis
      by (elim accept_Inr) (auto simp: accounts_ok_def list_all_iff dest: find_Some_iff [THEN iffD1])
  qed
qed

lemma product_snoc: "List.product (xs @ [x]) ys = List.product xs ys @ map (Pair x) ys"
  by (induction xs) simp_all

section \<open>Slug characters\<close>

definition slug_char :: "char \<Rightarrow> bool" where
  "slug_char c \<longleftrightarrow> c = CHR ''-'' \<or> is_digit c \<or> (97 \<le> code c \<and> code c \<le> 122)"

lemma dash_runs_chars: "c \<in> set (dash_runs b s) \<Longrightarrow> c = CHR ''-'' \<or> is_alnum_ascii c"
  by (induction b s rule: dash_runs.induct) (auto split: if_splits)

lemma lower_slug_char:
  "c = CHR ''-'' \<or> is_alnum_ascii c \<Longrightarrow> slug_char (lower_char c)"
proof (elim disjE)
  assume "c = CHR ''-''"
  moreover have "lower_char (CHR ''-'') = CHR ''-''" by code_simp
  ultimately show ?thesis by (simp add: slug_char_def)
next
  assume c: "is_alnum_ascii c"
  show ?thesis
  proof (cases "65 \<le> code c \<and> code c \<le> 90")
    case True
    then have "code (lower_char c) = code c + 32" by (simp add: code_lower_char)
    with True show ?thesis by (simp add: slug_char_def)
  next
    case False
    with c have "lower_char c = c"
      by (auto simp: is_alnum_ascii_def is_ascii_alpha_def is_digit_def lower_char_def Let_def)
    with c False show ?thesis by (auto simp: slug_char_def is_alnum_ascii_def is_ascii_alpha_def)
  qed
qed

lemma lower_char_dash: "lower_char c = CHR ''-'' \<longleftrightarrow> c = CHR ''-''"
proof
  assume eq: "lower_char c = CHR ''-''"
  then have "code (lower_char c) = 45" by (simp add: code_def)
  then have "\<not> ((65 \<le> code c \<and> code c \<le> 90) \<or> (192 \<le> code c \<and> code c \<le> 222 \<and> code c \<noteq> 215))"
    by (auto simp only: code_lower_char split: if_splits)
  then have "lower_char c = c" by (simp only: lower_char_def Let_def if_False)
  with eq show "c = CHR ''-''" by simp
next
  show "c = CHR ''-'' \<Longrightarrow> lower_char c = CHR ''-''" by (simp, code_simp)
qed

section \<open>Properties\<close>

text \<open>
  A slug is never empty, at most 32 characters long, of lower-case letters, digits and hyphens, and
  does not begin with a hyphen.
\<close>

theorem slugify_wf:
  "slugify name \<noteq> [] \<and> length (slugify name) \<le> 32 \<and> list_all slug_char (slugify name) \<and>
   hd (slugify name) \<noteq> CHR ''-''"
proof -
  let ?d = "strip_of (\<lambda>c. c = CHR ''-'') (dash_runs False (concat (map nfkd_ascii name)))"
  have chars: "list_all slug_char (lower ?d)"
    using set_strip_of dash_runs_chars lower_slug_char
    by (fastforce simp: list_all_iff lower_def)
  show ?thesis
  proof (cases "lower ?d = []")
    case True
    then show ?thesis by (simp add: slugify_def Let_def slug_char_def code_def)
  next
    case False
    then have d: "?d \<noteq> []" by auto
    have "hd (lower ?d) \<noteq> CHR ''-''"
      using strip_of_ends [OF d] d by (simp add: lower_def hd_map lower_char_dash)
    moreover have "list_all slug_char (take 32 (lower ?d))"
      using chars by (auto simp: list_all_iff dest: in_set_takeD)
    ultimately show ?thesis using False by (simp add: slugify_def Let_def)
  qed
qed

text \<open>
  C10. In every reachable database users have distinct identifiers and distinct lower-case addresses,
  tenants distinct identifiers and slugs, and each user belongs to a tenant that exists.
\<close>

theorem accounts_invariant:
  assumes "accounts_reachable J B s db"
  shows "distinct (map us_email (ac_users db)) \<and> distinct (map us_id (ac_users db)) \<and>
    distinct (map tn_slug (ac_tenants db)) \<and> distinct (map tn_id (ac_tenants db)) \<and>
    list_all (\<lambda>u. lower (us_email u) = us_email u \<and> list_ex (\<lambda>t. tn_id t = us_tenant u) (ac_tenants db))
      (ac_users db)"
  using reachable_accounts_ok [OF assms]
  by (fastforce simp: accounts_ok_def list_all_iff list_ex_iff)

definition sample_bcrypt :: bcrypt where
  "sample_bcrypt = \<lparr> bc_hash = (\<lambda>pw. Inr (CHR ''$'' # pw)), bc_check = (\<lambda>pw h. Inr (h = CHR ''$'' # pw)) \<rparr>"

definition sample_signup :: signup_request where
  "sample_signup = \<lparr> su_email = ''Ann@x.org'', su_password = ''secret-12'', su_full_name = None,
     su_organisation = ''Acme'' \<rparr>"

definition sample_draw :: signup_draw where
  "sample_draw = \<lparr> sd_tenant_id = ''t1'', sd_user_id = ''u1'', sd_suffix = ''abc123'',
     sd_audit_ok = True, sd_summary = [] \<rparr>"

lemma sample_signup_ok:
  "\<exists>db resp. signup plain_jwt sample_bcrypt default_settings 0 sample_draw sample_signup empty_accounts =
     (db, Inr resp) \<and> map us_email (ac_users db) = [lower ''Ann@x.org'']"
proof -
  have "hash_password sample_bcrypt ''secret-12'' = Inr (CHR ''$'' # ''secret-12'')" by code_simp
  then show ?thesis
    by (simp add: signup_def sample_signup_def empty_accounts_def Let_def)
qed

theorem accounts_invariant_witness:
  "\<exists>db. accounts_reachable plain_jwt sample_bcrypt default_settings db \<and>
     distinct (map us_email (ac_users db)) \<and> ac_users db \<noteq> []"
proof -
  obtain db resp where su: "signup plain_jwt sample_bcrypt default_settings 0 sample_draw sample_signup
      empty_accounts = (db, Inr resp)" and ne: "map us_email (ac_users db) = [lower ''Ann@x.org'']"
    using sample_signup_ok by (elim exE conjE)
  have r: "accounts_reachable plain_jwt sample_bcrypt default_settings db"
    by (rule accounts_next [OF accounts_init step_signup [OF su]])
  from accounts_invariant [OF r] r ne show ?thesis by auto
qed

text \<open>
  Whoever signs up can log in: with the same password and the address in any case, login succeeds, as
  the owner of the new workspace, provided the password check accepts a hash it made.
\<close>

theorem login_after_signup:
  assumes "accounts_reachable J B s db" and "signup J B s now d r db = (db', Inr resp)"
    and "bc_hash B (su_password r) = Inr hash" and "hash \<noteq> []" and "bc_check B (su_password r) hash = Inr True"
    and "lower email = lower (su_email r)"
  shows "\<exists>db'' resp'. login J B s now' ok host email (su_password r) db' = (db'', Inr resp') \<and>
    ur_role (ar_user resp') = ''owner'' \<and> ur_tenant_id (ar_user resp') = sd_tenant_id d \<and>
    ur_id (ar_user resp') = sd_user_id d"
  using assms(2)
proof (rule signup_Inr)
  fix h u
  assume h: "hash_password B (su_password r) = Inr h"
    and u: "u = \<lparr> us_id = sd_user_id d, us_tenant = sd_tenant_id d, us_email = lower (su_email r),
       us_password_hash = h, us_full_name = su_full_name r, us_role = ''owner'',
       us_active = True, us_last_login = Some now, us_created = now \<rparr>"
    and db': "db' = audit_event (sd_audit_ok d) now (sd_tenant_id d) (sd_user_id d) ''signup'' (sd_summary d)
      (db\<lparr> ac_tenants := ac_tenants db @ [new_tenant s now d r], ac_users := ac_users db @ [u] \<rparr>)"
    and fresh: "lower (su_email r) \<notin> us_email ` set (ac_users db)"
    and tid: "sd_tenant_id d \<notin> tn_id ` set (ac_tenants db)"
  let ?t = "new_tenant s now d r"
  have id: "tn_id ?t = sd_tenant_id d" "tn_active ?t" by (simp_all add: new_tenant_def)
  have hash: "h = hash" "validate_password (su_password r) = Inr ()"
    using h assms(3) by (auto simp: hash_password_def split: sum.splits)
  let ?P = "\<lambda>(u, t). us_tenant u = tn_id t \<and> us_email u = lower email"
  have old: "filter ?P (List.product (ac_users db) (ac_tenants db @ [?t])) = []"
    using fresh assms(6) by (force simp: filter_empty_conv)
  have new: "filter ?P (map (Pair u) (ac_tenants db @ [?t])) = [(u, ?t)]"
    using tid by (force simp: u id assms(6) filter_empty_conv)
  have "user_with_tenant db' (lower email) = Some (u, ?t)"
    unfolding user_with_tenant_def db' by (simp add: product_snoc old new del: map_append)
  moreover have "verify_password B (su_password r) (us_password_hash u) = Inr True"
    using assms(4,5) hash by (auto simp: u verify_password_def validate_password_def)
  ultimately show ?thesis
    by (simp add: login_def Let_def make_auth_response_def user_view_def id) (simp add: u)
qed

theorem login_after_signup_witness:
  "\<exists>db db' resp. accounts_reachable plain_jwt sample_bcrypt default_settings db \<and>
     login plain_jwt sample_bcrypt default_settings 9 True ''host'' ''ann@X.ORG'' ''secret-12'' db =
       (db', Inr resp)"
proof -
  obtain db resp where su: "signup plain_jwt sample_bcrypt default_settings 0 sample_draw sample_signup
      empty_accounts = (db, Inr resp)"
    using sample_signup_ok by (elim exE conjE)
  have r: "accounts_reachable plain_jwt sample_bcrypt default_settings db"
    by (rule accounts_next [OF accounts_init step_signup [OF su]])
  have lower: "lower ''ann@X.ORG'' = lower (su_email sample_signup)"
    unfolding sample_signup_def by code_simp
  have pw: "su_password sample_signup = ''secret-12''" by (simp add: sample_signup_def)
  have h: "bc_hash sample_bcrypt (su_password sample_signup) = Inr (CHR ''$'' # ''secret-12'')"
    "bc_check sample_bcrypt (su_password sample_signup) (CHR ''$'' # ''secret-12'') = Inr True"
    by (simp_all add: pw sample_bcrypt_def)
  show ?thesis
    using login_after_signup [OF accounts_init su h(1) _ h(2) lower, of 9 True "''host''"] r by (auto simp: pw)
qed

text \<open>
  A failed login tells nothing and changes nothing: it is the same 401 for an unknown address, an
  inactive user, an inactive workspace and a wrong password, unless the password check itself raises.
\<close>

theorem login_failure_uniform:
  "case login J B s now ok host email pw db of
     (db', Inl e) \<Rightarrow> db' = db \<and>
       (e = HTTPError 401 ''invalid email or password'' \<or> (\<exists>h. bc_check B pw h = Inl e))
   | (db', Inr resp) \<Rightarrow> ac_tenants db' = ac_tenants db \<and>
       map us_email (ac_users db') = map us_email (ac_users db)"
proof -
  obtain db' res where l: "login J B s now ok host email pw db = (db', res)" by fastforce
  show ?thesis
    by (rule login_cases [OF l]) (auto simp: l login_failed_def)
qed

text \<open>
  An invite leads to its own workspace only, with the role it names, which is never the owner's: the
  account it creates belongs to the tenant of the principal who issued it.
\<close>

theorem invite_lands_in_tenant:
  assumes "jwt_laws J" and "create_invite J s now i p = Inr tok" and "invite_ok i"
    and "accept_invite J B is_uuid s t uid \<lparr> aq_token = tok, aq_password = pw, aq_full_name = nm,
      aq_email = em \<rparr> db = (db', Inr u)"
  shows "us_tenant u = pp_tenant_id p \<and> us_role u = ic_role i \<and> us_role u \<noteq> ''owner'' \<and>
    t < now + ic_ttl_hours i * 3600 \<and> ac_users db' = ac_users db @ [u] \<and>
    ac_tenants db' = ac_tenants db"
  using assms(4)
proof (rule accept_Inr)
  fix c tid tn
  let ?i = "invite_claims s now i p"
  assume dec: "jwt_decode J (aq_token \<lparr> aq_token = tok, aq_password = pw, aq_full_name = nm,
      aq_email = em \<rparr>) INVITE_AUD (jwt_issuer s) t = Inr c"
    and tid: "dget c ''tenant_id'' = JStr tid"
    and tn: "find (\<lambda>t. tn_id t = tid) (ac_tenants db) = Some tn"
    and u: "us_tenant u = tn_id tn" "us_role u = py_str (dget_or c ''role'' (JStr ''member''))"
    and db': "db' = db\<lparr> ac_users := ac_users db @ [u] \<rparr>"
  have tok: "tok = jwt_encode J ?i"
    using assms(2) by (auto simp: create_invite_def try_bind_eq_Inr)
  have valid: "claims_valid ?i INVITE_AUD (jwt_issuer s) t"
  proof (rule ccontr)
    assume "\<not> ?thesis"
    from jwt_reject [OF assms(1) invite_claims_regular this] dec tok show False by auto
  qed
  then have "c = ?i" using jwt_accept [OF assms(1) invite_claims_regular] dec tok by simp
  moreover have "dget ?i ''tenant_id'' = JStr (pp_tenant_id p)"
    "dget_or ?i ''role'' (JStr ''member'') = JStr (ic_role i)"
    by (simp_all add: invite_claims_def dget_def dget_or_def)
  moreover have "t < now + ic_ttl_hours i * 3600"
    using valid by (simp add: invite_claims_def claim_simps)
  moreover have "tn_id tn = tid" using tn by (auto simp: find_Some_iff)
  ultimately show ?thesis using u tid db' assms(3) by (auto simp: invite_ok_def)
qed

definition sample_owner :: principal where
  "sample_owner = sample_principal\<lparr> pp_scopes := {''owner''} \<rparr>"

definition sample_invite :: invite_create where
  "sample_invite = \<lparr> ic_email = Some ''bob@x.org'', ic_role = ''member'', ic_ttl_hours = 1 \<rparr>"

definition sample_workspace :: accounts where
  "sample_workspace = empty_accounts\<lparr> ac_tenants := [sample_tenant] \<rparr>"

definition sample_accept :: "string \<Rightarrow> jdict accept_request" where
  "sample_accept em = \<lparr> aq_token = invite_claims default_settings 0 sample_invite sample_owner,
     aq_password = ''secret-12'', aq_full_name = None, aq_email = em \<rparr>"

lemma sample_invite_valid:
  "claims_valid (invite_claims default_settings 0 sample_invite sample_owner) INVITE_AUD
     (jwt_issuer default_settings) 5"
  by (simp add: invite_claims_def claim_simps sample_invite_def)

lemma sample_accept_ok:
  assumes "ac_tenants db = [sample_tenant]" "lower em \<notin> us_email ` set (ac_users db)"
    "uid \<notin> us_id ` set (ac_users db)"
  shows "\<exists>u. accept_invite plain_jwt sample_bcrypt (\<lambda>_. True) default_settings 5 uid (sample_accept em) db =
    (db\<lparr> ac_users := ac_users db @ [u] \<rparr>, Inr u) \<and> us_email u = lower em \<and> us_id u = uid"
proof -
  let ?c = "invite_claims default_settings 0 sample_invite sample_owner"
  have pw: "hash_password sample_bcrypt ''secret-12'' = Inr (CHR ''$'' # ''secret-12'')" by code_simp
  have dec: "jwt_decode plain_jwt ?c INVITE_AUD (jwt_issuer default_settings) 5 = Inr ?c"
    using sample_invite_valid by (simp add: plain_jwt_def)
  have get: "dget ?c ''invite'' = JBool True" "dget ?c ''tenant'' = JStr ''acme''"
    "dget ?c ''tenant_id'' = JStr ''t1''"
    by (simp_all add: invite_claims_def dget_def dget_or_def sample_owner_def sample_principal_def)
  show ?thesis using assms
    by (simp add: accept_invite_def sample_accept_def dec get pw Let_def) (simp add: sample_tenant_def)
qed

theorem invite_lands_in_tenant_witness:
  "\<exists>db u. accept_invite plain_jwt sample_bcrypt (\<lambda>_. True) default_settings 5 ''u2''
     (sample_accept ''bob@x.org'') sample_workspace = (db, Inr u) \<and> us_tenant u = ''t1'' \<and>
     us_role u = ''member''"
proof -
  obtain u where a: "accept_invite plain_jwt sample_bcrypt (\<lambda>_. True) default_settings 5 ''u2''
      (sample_accept ''bob@x.org'') sample_workspace =
      (sample_workspace\<lparr> ac_users := ac_users sample_workspace @ [u] \<rparr>, Inr u)"
    using sample_accept_ok [of sample_workspace "''bob@x.org''" "''u2''"]
    by (auto simp: sample_workspace_def empty_accounts_def)
  have c: "create_invite plain_jwt default_settings 0 sample_invite sample_owner =
      Inr (invite_claims default_settings 0 sample_invite sample_owner)"
    by (simp add: create_invite_def require_owner_def sample_owner_def plain_jwt_def)
  have "invite_ok sample_invite" by (simp add: invite_ok_def sample_invite_def)
  from invite_lands_in_tenant [OF plain_jwt_laws c this a [unfolded sample_accept_def]] a
  show ?thesis by (auto simp: sample_owner_def sample_principal_def sample_invite_def)
qed

text \<open>
  An invite link is not single-use, nor bound to the address it was issued for: the same token creates
  two accounts for two other addresses, one after the other.
\<close>

theorem invite_reusable:
  "\<exists>u v. ic_email sample_invite = Some ''bob@x.org'' \<and>
     (case accept_invite plain_jwt sample_bcrypt (\<lambda>_. True) default_settings 5 ''u2''
        (sample_accept ''eve@x.org'') sample_workspace of (db, _) \<Rightarrow>
      ac_users (fst (accept_invite plain_jwt sample_bcrypt (\<lambda>_. True) default_settings 5 ''u3''
        (sample_accept ''mal@x.org'') db)) = [u, v] \<and>
      us_email u = lower ''eve@x.org'' \<and> us_email v = lower ''mal@x.org'')"
proof -
  obtain u where a: "accept_invite plain_jwt sample_bcrypt (\<lambda>_. True) default_settings 5 ''u2''
      (sample_accept ''eve@x.org'') sample_workspace = (sample_workspace\<lparr> ac_users := [u] \<rparr>, Inr u)"
    and u: "us_email u = lower ''eve@x.org''" "us_id u = ''u2''"
    using sample_accept_ok [of sample_workspace "''eve@x.org''" "''u2''"]
    by (auto simp: sample_workspace_def empty_accounts_def)
  let ?db = "sample_workspace\<lparr> ac_users := [u] \<rparr>"
  have ne: "lower ''mal@x.org'' \<noteq> lower ''eve@x.org''" by code_simp
  obtain v where b: "accept_invite plain_jwt sample_bcrypt (\<lambda>_. True) default_settings 5 ''u3''
      (sample_accept ''mal@x.org'') ?db = (?db\<lparr> ac_users := ac_users ?db @ [v] \<rparr>, Inr v)"
    and v: "us_email v = lower ''mal@x.org''"
    using sample_accept_ok [of ?db "''mal@x.org''" "''u3''"] u ne
    by (auto simp: sample_workspace_def empty_accounts_def)
  show ?thesis unfolding a prod.case b using u v by (simp add: sample_invite_def)
qed

end
