(* ===== verification/Retrieval.thy ===== *)
theory Retrieval
  imports Auth "HOL-Library.Multiset"
begin

text \<open>
  Retrieval (\<open>packages/search/src/faastlab_askai_search\<close>): the filters and the SQL conditions they
  turn into (\<open>filters.py\<close>, \<open>retrievers/vector.py\<close>, \<open>routes/search.py\<close>), the vector and keyword
  retrievers, their fusion (\<open>retrievers/hybrid.py\<close>) and the rerankers.

  PostgreSQL is modelled on the list of joined rows of \<open>chunks\<close> and \<open>documents\<close>: a query
  selects the rows its conditions hold for, orders them by the key (rows with equal keys in table
  order) and cuts the list.  Embedding model, vector distance, full-text match and rank, and the
  scoring services of the rerankers are parameters.
\<close>

record hit =
  h_chunk_id :: uuid
  h_document_id :: uuid
  h_tenant_id :: uuid
  h_title :: string
  h_content :: string
  h_score :: rat
  h_rank :: nat
  h_page :: "int option"
  h_section :: "string option"
  h_active :: bool
  h_metadata :: jdict

section \<open>Filters\<close>

record search_filters =
  f_doc_types :: "string list option"
  f_effective_after :: "int option"
  f_effective_before :: "int option"
  f_only_active :: bool
  f_metadata :: "(string \<times> string) list"
  f_document_ids :: "string list option"

definition no_filters :: search_filters where
  "no_filters = \<lparr> f_doc_types = None, f_effective_after = None, f_effective_before = None,
     f_only_active = True, f_metadata = [], f_document_ids = None \<rparr>"

text \<open>\<open>d[k] = v\<close> on an association list in insertion order.\<close>

fun aset :: "('k \<times> 'v) list \<Rightarrow> 'k \<Rightarrow> 'v \<Rightarrow> ('k \<times> 'v) list" where
  "aset [] k v = [(k, v)]"
| "aset ((l, w) # d) k v = (if l = k then (k, v) # d else (l, w) # aset d k v)"

definition strings_of :: "json \<Rightarrow> exn + string list" where
  "strings_of j = try_bind (py_iter j) (\<lambda>xs. Inr (map py_str xs))"

text \<open>\<open>_build_filters\<close> of the search route: the filters of the request body.\<close>

definition build_filters :: "jdict \<Rightarrow> exn + search_filters" where
  "build_filters raw =
     try_bind
       (case map_of raw ''doc_types'' of
          None \<Rightarrow> Inr None
        | Some j \<Rightarrow> try_bind (strings_of j) (\<lambda>ts. Inr (Some ts))) (\<lambda>types.
     try_bind
       (case map_of raw ''metadata'' of
          None \<Rightarrow> Inr []
        | Some j \<Rightarrow>
            (case por j (JObj []) of
               JObj d \<Rightarrow> Inr (foldl (\<lambda>acc (k, v). aset acc k (py_str v)) [] d)
             | _ \<Rightarrow> Inl (PyExc AttributeError))) (\<lambda>md.
       Inr (no_filters\<lparr> f_doc_types := types,
         f_only_active := (case map_of raw ''only_active'' of None \<Rightarrow> True | Some j \<Rightarrow> truthy j),
         f_metadata := md \<rparr>)))"

datatype sql_param = PText string | PTexts "string list" | PTime int

text \<open>The conditions, the SQL text of each and what it means on a row.\<close>

datatype condition =
    TenantIs uuid
  | TenantIn "uuid list"
  | ActiveOnly
  | DocTypes "string list"
  | EffectiveFrom int
  | EffectiveTo int
  | DocumentIds "string list"
  | Metadata string string

definition condition_text :: "condition \<Rightarrow> string" where
  "condition_text c =
     (case c of
        TenantIs _ \<Rightarrow> ''c.tenant_id = :tenant_id''
      | TenantIn ids \<Rightarrow>
          ''c.tenant_id IN ('' @ join '', '' (map (\<lambda>i. '':tenant_id_'' @ nat_str i) [0..<length ids]) @ '')''
      | ActiveOnly \<Rightarrow> ''d.is_active = true''
      | DocTypes _ \<Rightarrow> ''d.doc_type = ANY(:doc_types)''
      | EffectiveFrom _ \<Rightarrow> ''d.effective_date >= :effective_after''
      | EffectiveTo _ \<Rightarrow> ''d.effective_date <= :effective_before''
      | DocumentIds _ \<Rightarrow> ''d.id = ANY(:document_ids)''
      | Metadata k _ \<Rightarrow> ''d.metadata ->> :md_'' @ k @ ''_k = :md_'' @ k @ ''_v'')"

definition condition_params :: "condition \<Rightarrow> (string \<times> sql_param) list" where
  "condition_params c =
     (case c of
        TenantIs t \<Rightarrow> [(''tenant_id'', PText t)]
      | TenantIn ids \<Rightarrow> map (\<lambda>(i, t). (''tenant_id_'' @ nat_str i, PText t)) (enumerate 0 ids)
      | ActiveOnly \<Rightarrow> []
      | DocTypes ts \<Rightarrow> [(''doc_types'', PTexts ts)]
      | EffectiveFrom t \<Rightarrow> [(''effective_after'', PTime t)]
      | EffectiveTo t \<Rightarrow> [(''effective_before'', PTime t)]
      | DocumentIds ds \<Rightarrow> [(''document_ids'', PTexts ds)]
      | Metadata k v \<Rightarrow> [(''md_'' @ k @ ''_k'', PText k), (''md_'' @ k @ ''_v'', PText v)])"

definition some_list :: "'a list option \<Rightarrow> 'a list" where
  "some_list x = (case x of None \<Rightarrow> [] | Some xs \<Rightarrow> xs)"

definition filter_conditions :: "uuid list \<Rightarrow> search_filters \<Rightarrow> condition list" where
  "filter_conditions ids f =
     (case ids of [t] \<Rightarrow> [TenantIs t] | _ \<Rightarrow> [TenantIn ids]) @
     (if f_only_active f then [ActiveOnly] else []) @
     (if some_list (f_doc_types f) = [] then [] else [DocTypes (some_list (f_doc_types f))]) @
     (case f_effective_after f of None \<Rightarrow> [] | Some t \<Rightarrow> [EffectiveFrom t]) @
     (case f_effective_before f of None \<Rightarrow> [] | Some t \<Rightarrow> [EffectiveTo t]) @
     (if some_list (f_document_ids f) = [] then [] else [DocumentIds (some_list (f_document_ids f))]) @
     map (\<lambda>(k, v). Metadata k v) (f_metadata f)"

definition build_filter_clauses ::
  "uuid list \<Rightarrow> search_filters \<Rightarrow> string \<times> (string \<times> sql_param) list" where
  "build_filter_clauses ids f =
     (let cs = filter_conditions ids f in
       (join '' AND '' (map condition_text cs),
        foldl (\<lambda>ps (k, v). aset ps k v) [] (concat (map condition_params cs))))"

section \<open>Rows and retrievers\<close>

record chunk_row =
  cr_hit :: hit
  cr_doc_type :: "string option"
  cr_effective :: "int option"
  cr_doc_id :: string
  cr_doc_metadata :: "(string \<times> string) list"

definition condition_holds :: "chunk_row \<Rightarrow> condition \<Rightarrow> bool" where
  "condition_holds r c =
     (case c of
        TenantIs t \<Rightarrow> h_tenant_id (cr_hit r) = t
      | TenantIn ids \<Rightarrow> h_tenant_id (cr_hit r) \<in> set ids
      | ActiveOnly \<Rightarrow> h_active (cr_hit r)
      | DocTypes ts \<Rightarrow> (case cr_doc_type r of None \<Rightarrow> False | Some t \<Rightarrow> t \<in> set ts)
      | EffectiveFrom t \<Rightarrow> (case cr_effective r of None \<Rightarrow> False | Some e \<Rightarrow> t \<le> e)
      | EffectiveTo t \<Rightarrow> (case cr_effective r of None \<Rightarrow> False | Some e \<Rightarrow> e \<le> t)
      | DocumentIds ds \<Rightarrow> cr_doc_id r \<in> set ds
      | Metadata k v \<Rightarrow> map_of (cr_doc_metadata r) k = Some v)"

definition row_selected :: "uuid list \<Rightarrow> search_filters \<Rightarrow> chunk_row \<Rightarrow> bool" where
  "row_selected ids f r = list_all (condition_holds r) (filter_conditions ids f)"

definition row_to_hit :: "chunk_row \<Rightarrow> nat \<Rightarrow> rat \<Rightarrow> hit" where
  "row_to_hit r rank score = (cr_hit r)\<lparr> h_rank := rank, h_score := score \<rparr>"

text \<open>\<open>enumerate(rows)\<close> with ranks from 1.\<close>

definition ranked_hits :: "(chunk_row \<times> rat) list \<Rightarrow> hit list" where
  "ranked_hits rs = map (\<lambda>(i, r, s). row_to_hit r i s) (enumerate 1 rs)"

text \<open>
  A metadata key stands in the SQL text of its condition.  Where every key is a word, the text is the condition it is
  meant to be; otherwise it is whatever the caller wrote, and the answer is the database's: \<open>db_raw\<close>, of which
  nothing is known.
\<close>

definition plain_keys :: "search_filters \<Rightarrow> bool" where
  "plain_keys f \<longleftrightarrow> list_all (\<lambda>(k, v). list_all is_word k) (f_metadata f)"

text \<open>The database and the models a retriever reads.\<close>

record 'v search_db =
  db_rows :: "chunk_row list"
  db_embed :: "string \<Rightarrow> exn + 'v"
  db_distance :: "'v \<Rightarrow> chunk_row \<Rightarrow> rat"
  db_matches :: "string \<Rightarrow> chunk_row \<Rightarrow> bool"
  db_ts_rank :: "string \<Rightarrow> chunk_row \<Rightarrow> rat"
  db_query_error :: "string \<Rightarrow> exn option"
  db_raw :: "string \<Rightarrow> (string \<times> sql_param) list \<Rightarrow> string \<Rightarrow> nat \<Rightarrow> exn + (chunk_row \<times> rat) list"

definition vector_retrieve ::
  "'v search_db \<Rightarrow> uuid list \<Rightarrow> search_filters \<Rightarrow> string \<Rightarrow> nat \<Rightarrow> exn + hit list" where
  "vector_retrieve db ids f q k =
     try_bind (db_embed db q) (\<lambda>v.
       if plain_keys f
       then
         let rows = take k (sort_key (db_distance db v) (filter (row_selected ids f) (db_rows db)))
         in Inr (ranked_hits (map (\<lambda>r. (r, 1 - db_distance db v r)) rows))
       else try_bind (db_raw db (fst (build_filter_clauses ids f)) (snd (build_filter_clauses ids f)) q k)
         (\<lambda>rs. Inr (ranked_hits rs)))"

text \<open>Min-max normalisation; \<open>hi - lo or 1.0\<close> keeps the division defined.\<close>

definition normalise_scores :: "rat list \<Rightarrow> rat list" where
  "normalise_scores ss =
     (if ss = [] then []
      else
        let lo = Min (set ss); hi = Max (set ss); span = (if hi - lo \<noteq> 0 then hi - lo else 1)
        in map (\<lambda>s. (s - lo) / span) ss)"

definition keyword_retrieve ::
  "'v search_db \<Rightarrow> uuid list \<Rightarrow> search_filters \<Rightarrow> string \<Rightarrow> nat \<Rightarrow> exn + hit list" where
  "keyword_retrieve db ids f q k =
     (case db_query_error db q of
        Some e \<Rightarrow> Inl e
      | None \<Rightarrow>
          if plain_keys f
          then
            let rows = take k (sort_key (\<lambda>r. - db_ts_rank db q r)
                  (filter (\<lambda>r. row_selected ids f r \<and> db_matches db q r) (db_rows db)))
            in Inr (ranked_hits (zip rows (normalise_scores (map (db_ts_rank db q) rows))))
          else try_bind (db_raw db (fst (build_filter_clauses ids f)) (snd (build_filter_clauses ids f)) q k)
            (\<lambda>rs. Inr (ranked_hits (zip (map fst rs) (normalise_scores (map snd rs))))))"

section \<open>Reciprocal rank fusion\<close>

definition RRF_CONSTANT :: nat where
  "RRF_CONSTANT = 60"

text \<open>The first hit for each chunk, in order.\<close>

fun merge_hits :: "uuid list \<Rightarrow> hit list \<Rightarrow> hit list" where
  "merge_hits seen [] = []"
| "merge_hits seen (h # hs) =
     (if h_chunk_id h \<in> set seen then merge_hits seen hs
      else h # merge_hits (h_chunk_id h # seen) hs)"

definition rrf_part :: "nat \<Rightarrow> hit list \<Rightarrow> uuid \<Rightarrow> rat" where
  "rrf_part c hs i = sum_list (map (\<lambda>h. if h_chunk_id h = i then 1 / of_nat (c + h_rank h) else 0) hs)"

definition rrf_score :: "nat \<Rightarrow> hit list \<Rightarrow> hit list \<Rightarrow> uuid \<Rightarrow> rat" where
  "rrf_score c vs ks i = rrf_part c vs i + rrf_part c ks i"

definition fuse :: "nat \<Rightarrow> hit list \<Rightarrow> hit list \<Rightarrow> hit list" where
  "fuse c vs ks =
     map (\<lambda>(i, h). h\<lparr> h_score := rrf_score c vs ks (h_chunk_id h), h_rank := i \<rparr>)
       (enumerate 1 (sort_key (\<lambda>h. - rrf_score c vs ks (h_chunk_id h)) (merge_hits [] (vs @ ks))))"

text \<open>A failing retriever contributes no hits.\<close>

definition hits_or_none :: "exn + hit list \<Rightarrow> hit list" where
  "hits_or_none r = (case r of Inl _ \<Rightarrow> [] | Inr hs \<Rightarrow> hs)"

definition hybrid_retrieve ::
  "nat \<Rightarrow> 'v search_db \<Rightarrow> uuid list \<Rightarrow> search_filters \<Rightarrow> string \<Rightarrow> nat \<Rightarrow> hit list" where
  "hybrid_retrieve c db ids f q k =
     (let n = max (k * 2) 12 in
       take k (fuse c (hits_or_none (vector_retrieve db ids f q n))
                      (hits_or_none (keyword_retrieve db ids f q n))))"

section \<open>Rerankers\<close>

text \<open>\<open>xs[:top_n] if top_n else xs\<close>\<close>

definition cut :: "nat option \<Rightarrow> 'a list \<Rightarrow> 'a list" where
  "cut n xs = (case n of None \<Rightarrow> xs | Some m \<Rightarrow> if m = 0 then xs else take m xs)"

definition rescore :: "(hit \<times> rat) list \<Rightarrow> hit list" where
  "rescore xs = map (\<lambda>(i, h, s). h\<lparr> h_score := s, h_rank := i \<rparr>) (enumerate 1 xs)"

definition noop_rerank :: "string \<Rightarrow> hit list \<Rightarrow> nat option \<Rightarrow> exn + hit list" where
  "noop_rerank q hits n = Inr (cut n hits)"

text \<open>The cross-encoder scores each pair; \<open>None\<close> where its library is not installed.\<close>

definition bge_rerank ::
  "(string \<Rightarrow> string \<Rightarrow> rat) option \<Rightarrow> string \<Rightarrow> hit list \<Rightarrow> nat option \<Rightarrow> exn + hit list" where
  "bge_rerank model q hits n =
     (if hits = [] then Inr []
      else case model of
        None \<Rightarrow> Inl (RerankerError (''sentence-transformers is not installed. Install with: '' @
          ''uv pip install -e 'packages/search[bge-reranker]'' @ [CHR 0x27]))
      | Some predict \<Rightarrow>
          Inr (rescore (cut n (sort_key (\<lambda>(h, s). - s) (map (\<lambda>h. (h, predict q (h_content h))) hits)))))"

text \<open>Cohere answers with positions in the list it was given, best first.\<close>

definition cohere_rerank ::
  "(string \<Rightarrow> string list \<Rightarrow> nat \<Rightarrow> string + (nat \<times> rat) list) \<Rightarrow> string \<Rightarrow> hit list \<Rightarrow> nat option \<Rightarrow>
   exn + hit list"
where
  "cohere_rerank service q hits n =
     (if hits = [] then Inr []
      else
        let top = (case n of Some (Suc m) \<Rightarrow> Suc m | _ \<Rightarrow> length hits) in
        case service q (map h_content hits) top of
          Inl m \<Rightarrow> Inl (RerankerError (''Cohere rerank failed: '' @ m))
        | Inr items \<Rightarrow>
            try_bind (try_map (\<lambda>(i, s). if i < length hits then Inr (hits ! i, s)
                                        else Inl (PyExc IndexError)) items)
              (\<lambda>xs. Inr (rescore xs)))"

text \<open>TEI answers per batch; anything that goes wrong inside is a \<open>RerankerError\<close>.\<close>

function tei_batches ::
  "(string list \<Rightarrow> string + (nat \<times> rat) list) \<Rightarrow> nat \<Rightarrow> hit list \<Rightarrow> string + (hit \<times> rat) list" where
  "tei_batches post b hits =
     (if hits = [] then Inr []
      else
        let batch = take (max 1 b) hits in
        try_bind (post (map h_content batch)) (\<lambda>items.
        try_bind (try_map (\<lambda>(i, s). if i < length batch then Inr (batch ! i, s)
                                    else Inl ''list index out of range'') items) (\<lambda>xs.
        try_bind (tei_batches post b (drop (max 1 b) hits)) (\<lambda>ys. Inr (xs @ ys)))))"
  by pat_completeness auto
termination
  by (relation "measure (\<lambda>(_, _, hits). length hits)") auto

declare tei_batches.simps [simp del]

definition tei_rerank ::
  "settings \<Rightarrow> (string \<Rightarrow> string list \<Rightarrow> string + (nat \<times> rat) list) \<Rightarrow> string \<Rightarrow> hit list \<Rightarrow> nat option \<Rightarrow>
   exn + hit list"
where
  "tei_rerank s service q hits n =
     (if hits = [] then Inr []
      else case tei_batches (service q) (nat (reranker_max_batch_size s)) hits of
        Inl m \<Rightarrow> Inl (RerankerError (''TEI rerank failed: '' @ m))
      | Inr scored \<Rightarrow> Inr (rescore (cut n (sort_key (\<lambda>(h, s). - s) scored))))"

section \<open>Lemmas\<close>

lemma row_selected_tenant: "row_selected ids f r \<Longrightarrow> h_tenant_id (cr_hit r) \<in> set ids"
  by (cases ids rule: remdups_adj.cases)
    (auto simp: row_selected_def filter_conditions_def condition_holds_def)

lemma row_selected_active: "row_selected ids f r \<Longrightarrow> f_only_active f \<Longrightarrow> h_active (cr_hit r)"
  by (auto simp: row_selected_def filter_conditions_def condition_holds_def)

text \<open>What a hit is, up to its score and its rank.\<close>

definition core :: "hit \<Rightarrow> hit" where
  "core h = h\<lparr> h_score := 0, h_rank := 0 \<rparr>"

lemma core_sel [simp]:
  "h_chunk_id (core h) = h_chunk_id h" "h_tenant_id (core h) = h_tenant_id h"
  "h_active (core h) = h_active h" "h_document_id (core h) = h_document_id h"
  by (simp_all add: core_def)

lemma core_update [simp]: "core (h\<lparr> h_score := s, h_rank := n \<rparr>) = core h"
  by (simp add: core_def)

lemma core_row_to_hit [simp]: "core (row_to_hit r n s) = core (cr_hit r)"
  by (simp add: core_def row_to_hit_def)

lemma core_ranked_hits: "map core (ranked_hits rs) = map (\<lambda>(r, s). core (cr_hit r)) rs"
proof -
  have "map core (map (\<lambda>(i, r, s). row_to_hit r i s) (enumerate n rs)) =
      map (\<lambda>(r, s). core (cr_hit r)) rs" for n
    by (induction rs arbitrary: n) auto
  then show ?thesis by (simp add: ranked_hits_def)
qed

definition retrieved_ok :: "uuid list \<Rightarrow> search_filters \<Rightarrow> hit \<Rightarrow> bool" where
  "retrieved_ok ids f h \<longleftrightarrow> h_tenant_id h \<in> set ids \<and> (f_only_active f \<longrightarrow> h_active h)"

lemma retrieved_ok_core [simp]: "retrieved_ok ids f (core h) = retrieved_ok ids f h"
  by (simp add: retrieved_ok_def)

lemma list_all_core:
  "list_all P (map core hs) \<Longrightarrow> (\<And>h. P (core h) \<Longrightarrow> P h) \<Longrightarrow> list_all P hs"
  by (auto simp: list_all_iff)

lemma ranked_hits_ok:
  assumes "\<And>r s. (r, s) \<in> set rs \<Longrightarrow> row_selected ids f r"
  shows "list_all (retrieved_ok ids f) (ranked_hits rs)"
proof (rule list_all_core)
  show "list_all (retrieved_ok ids f) (map core (ranked_hits rs))"
    unfolding core_ranked_hits using assms row_selected_tenant row_selected_active
    by (force simp: list_all_iff retrieved_ok_def)
qed simp

lemma vector_retrieve_ok:
  "plain_keys f \<Longrightarrow> vector_retrieve db ids f q k = Inr hs \<Longrightarrow> list_all (retrieved_ok ids f) hs"
  by (auto simp: vector_retrieve_def try_bind_eq_Inr Let_def intro!: ranked_hits_ok
      dest!: in_set_takeD)

lemma keyword_retrieve_ok:
  "plain_keys f \<Longrightarrow> keyword_retrieve db ids f q k = Inr hs \<Longrightarrow> list_all (retrieved_ok ids f) hs"
  by (auto simp: keyword_retrieve_def Let_def intro!: ranked_hits_ok
      split: option.splits dest!: set_zip_leftD in_set_takeD)

lemma merge_hits_set:
  "h_chunk_id ` set (merge_hits seen hs) = h_chunk_id ` set hs - set seen"
  by (induction seen hs rule: merge_hits.induct) auto

lemma merge_hits_subset: "set (merge_hits seen hs) \<subseteq> set hs"
  by (induction seen hs rule: merge_hits.induct) auto

lemma merge_hits_distinct: "distinct (map h_chunk_id (merge_hits seen hs))"
proof (induction seen hs rule: merge_hits.induct)
  case (2 seen h hs)
  then show ?case using merge_hits_set [of "h_chunk_id h # seen" hs] by auto
qed simp

lemma map_enumerate:
  "(\<And>i h. F (G i h) = F' h) \<Longrightarrow> map F (map (\<lambda>(i, h). G i h) (enumerate n hs)) = map F' hs"
  by (induction hs arbitrary: n) auto

lemma fuse_ids: "map h_chunk_id (fuse c vs ks) =
    map h_chunk_id (sort_key (\<lambda>h. - rrf_score c vs ks (h_chunk_id h)) (merge_hits [] (vs @ ks)))"
  unfolding fuse_def by (rule map_enumerate) simp

lemma fuse_core: "map core (fuse c vs ks) =
    map core (sort_key (\<lambda>h. - rrf_score c vs ks (h_chunk_id h)) (merge_hits [] (vs @ ks)))"
  unfolding fuse_def by (rule map_enumerate) simp

lemma fuse_scores: "map h_score (fuse c vs ks) =
    map (\<lambda>h. rrf_score c vs ks (h_chunk_id h))
      (sort_key (\<lambda>h. - rrf_score c vs ks (h_chunk_id h)) (merge_hits [] (vs @ ks)))"
  unfolding fuse_def by (rule map_enumerate) simp

lemma map_enumerate_rank:
  "(\<And>i h. F (G i h) = i) \<Longrightarrow> map F (map (\<lambda>(i, h). G i h) (enumerate n hs)) = [n..<n + length hs]"
proof -
  assume a: "\<And>i h. F (G i h) = i"
  have "map F (map (\<lambda>(i, h). G i h) (enumerate n hs)) = map fst (enumerate n hs)"
    by (simp add: a o_def split_beta)
  also have "\<dots> = [n..<n + length hs]" by simp
  finally show ?thesis .
qed

lemma fuse_ranks: "map h_rank (fuse c vs ks) = [1..<Suc (length (fuse c vs ks))]"
proof -
  have "map h_rank (fuse c vs ks) = [1..<1 + length (sort_key
      (\<lambda>h. - rrf_score c vs ks (h_chunk_id h)) (merge_hits [] (vs @ ks)))]"
    unfolding fuse_def by (rule map_enumerate_rank) simp
  then show ?thesis by (simp add: fuse_def)
qed

lemma fuse_ok:
  assumes "list_all P vs" "list_all P ks" "\<And>h. P (core h) = P h"
  shows "list_all P (fuse c vs ks)"
proof (rule list_all_core)
  show "list_all P (map core (fuse c vs ks))"
    unfolding fuse_core using assms merge_hits_subset [of "[]" "vs @ ks"]
    by (auto simp: list_all_iff)
qed (use assms(3) in simp)

lemma hybrid_retrieve_ok:
  assumes "plain_keys f"
  shows "list_all (retrieved_ok ids f) (hybrid_retrieve c db ids f q k)"
proof -
  let ?n = "max (k * 2) 12"
  have "list_all (retrieved_ok ids f) (hits_or_none (vector_retrieve db ids f q ?n))"
    "list_all (retrieved_ok ids f) (hits_or_none (keyword_retrieve db ids f q ?n))"
    by (auto simp: hits_or_none_def split: sum.split
        dest: vector_retrieve_ok [OF assms] keyword_retrieve_ok [OF assms])
  from fuse_ok [OF this, of c] show ?thesis
    by (auto simp: hybrid_retrieve_def Let_def list_all_iff dest: in_set_takeD)
qed

lemma distinct_submset: "mset xs \<subseteq># mset ys \<Longrightarrow> distinct ys \<Longrightarrow> distinct xs"
proof -
  assume sub: "mset xs \<subseteq># mset ys" and d: "distinct ys"
  have "count (mset xs) a \<le> 1" for a
  proof -
    have "count (mset ys) a \<le> 1" using d by (simp add: distinct_count_atmost_1)
    then show ?thesis using mset_subset_eq_count [OF sub, of a] by simp
  qed
  then have "count (mset xs) a = (if a \<in> set xs then 1 else 0)" for a
    by (metis count_eq_zero_iff le_antisym le_zero_eq less_one not_le set_mset_mset)
  then show "distinct xs" by (simp add: distinct_count_atmost_1)
qed

section \<open>The reranker interface\<close>

text \<open>
  What search relies on: a reranker returns only chunks it was given, each at most as often, and
  respects the cap.
\<close>

locale reranker =
  fixes rerank :: "string \<Rightarrow> hit list \<Rightarrow> nat option \<Rightarrow> exn + hit list"
  assumes rerank_sub: "rerank q hits n = Inr hits' \<Longrightarrow> mset (map core hits') \<subseteq># mset (map core hits)"
    and rerank_cap: "rerank q hits (Some (Suc k)) = Inr hits' \<Longrightarrow> length hits' \<le> Suc k"
begin

lemma rerank_preserves:
  assumes "rerank q hits n = Inr hits'" "list_all P hits" "\<And>h. P (core h) = P h"
  shows "list_all P hits'"
  unfolding list_all_iff
proof
  fix h
  assume "h \<in> set hits'"
  then have "core h \<in># mset (map core hits')" by simp
  then have "core h \<in># mset (map core hits)"
    by (rule mset_subset_eqD [OF rerank_sub [OF assms(1)]])
  then obtain g where "g \<in> set hits" "core h = core g" by auto
  then show "P h" using assms(2,3) by (metis list_all_iff)
qed

lemma rerank_distinct:
  assumes "rerank q hits n = Inr hits'" "distinct (map h_chunk_id hits)"
  shows "distinct (map h_chunk_id hits')"
proof -
  have m: "mset (map h_chunk_id hs) = image_mset h_chunk_id (mset (map core hs))" for hs
    by (simp add: multiset.map_comp o_def)
  have "mset (map h_chunk_id hits') \<subseteq># mset (map h_chunk_id hits)"
    unfolding m by (rule image_mset_subseteq_mono [OF rerank_sub [OF assms(1)]])
  then show ?thesis using assms(2) by (rule distinct_submset)
qed

end

lemma mset_cut: "mset (cut n xs) \<subseteq># mset xs"
proof -
  have "mset (take m xs) \<subseteq># mset xs" for m
    by (metis append_take_drop_id mset_append mset_subset_eq_add_left)
  then show ?thesis by (auto simp: cut_def split: option.split)
qed

lemma core_rescore: "map core (rescore xs) = map (\<lambda>(h, s). core h) xs"
  unfolding rescore_def by (rule map_enumerate) (auto split: prod.split)

lemma length_rescore [simp]: "length (rescore xs) = length xs"
  by (simp add: rescore_def)

lemma length_cut: "length (cut (Some (Suc k)) xs) \<le> Suc k"
  by (simp add: cut_def)

lemma core_map_mset: "mset xs \<subseteq># mset ys \<Longrightarrow> mset (map f xs) \<subseteq># mset (map f ys)"
  by (simp add: image_mset_subseteq_mono)

interpretation noop: reranker noop_rerank
  by unfold_locales (auto simp: noop_rerank_def length_cut intro: core_map_mset [OF mset_cut, simplified])

lemma bge_rerank_Inr:
  assumes "bge_rerank model q hits n = Inr hits'"
  shows "mset (map core hits') \<subseteq># mset (map core hits)"
    and "n = Some (Suc k) \<Longrightarrow> length hits' \<le> Suc k"
proof -
  consider "hits = []" "hits' = []"
    | predict where "hits' = rescore (cut n (sort_key (\<lambda>(h, s). - s)
        (map (\<lambda>h. (h, predict q (h_content h))) hits)))"
    using assms by (auto simp: bge_rerank_def split: if_splits option.splits)
  then have "mset (map core hits') \<subseteq># mset (map core hits) \<and>
      (n = Some (Suc k) \<longrightarrow> length hits' \<le> Suc k)"
  proof cases
    case (2 predict)
    let ?xs = "map (\<lambda>h. (h, predict q (h_content h))) hits"
    have "mset (cut n (sort_key (\<lambda>(h, s). - s) ?xs)) \<subseteq># mset (sort_key (\<lambda>(h, s). - s) ?xs)"
      by (rule mset_cut)
    then have "mset (map (\<lambda>(h, s). core h) (cut n (sort_key (\<lambda>(h, s). - s) ?xs))) \<subseteq>#
        mset (map (\<lambda>(h, s). core h) ?xs)"
      by (intro core_map_mset) simp
    moreover have "map (\<lambda>(h, s). core h) ?xs = map core hits" by simp
    ultimately have "mset (map core hits') \<subseteq># mset (map core hits)"
      unfolding 2 core_rescore by (simp only:)
    then show ?thesis by (auto simp: 2 length_cut)
  qed simp
  then show "mset (map core hits') \<subseteq># mset (map core hits)"
    "n = Some (Suc k) \<Longrightarrow> length hits' \<le> Suc k" by blast+
qed

interpretation bge: reranker "bge_rerank model" for model
  by unfold_locales (use bge_rerank_Inr in blast)+

section \<open>Properties\<close>

text \<open>
  C4. Where the keys of the metadata filter are words, retrieval never leaves the tenants it was given, and never
  returns a superseded document while it is asked for active ones, in either retriever and in the fusion of both.  A key that is no word is SQL text, and no such promise holds of it
  (\<open>metadata_key_injected\<close>).
\<close>

theorem retrieval_isolated:
  assumes "list_all (\<lambda>(k, v). list_all is_word k) (f_metadata f)"
  shows "list_all (\<lambda>h. h_tenant_id h \<in> set ids) (hybrid_retrieve c db ids f q k) \<and>
    list_all (\<lambda>h. h_tenant_id h \<in> set ids) (hits_or_none (vector_retrieve db ids f q k)) \<and>
    list_all (\<lambda>h. h_tenant_id h \<in> set ids) (hits_or_none (keyword_retrieve db ids f q k)) \<and>
    (f_only_active f \<longrightarrow> list_all h_active (hybrid_retrieve c db ids f q k))"
proof -
  have p: "plain_keys f" using assms by (simp add: plain_keys_def)
  have "list_all (retrieved_ok ids f) (hits_or_none (vector_retrieve db ids f q k))"
    "list_all (retrieved_ok ids f) (hits_or_none (keyword_retrieve db ids f q k))"
    by (auto simp: hits_or_none_def split: sum.split
        dest: vector_retrieve_ok [OF p] keyword_retrieve_ok [OF p])
  then show ?thesis using hybrid_retrieve_ok [OF p, of ids c db q k]
    by (auto simp: list_all_iff retrieved_ok_def)
qed

definition two_tenants_db :: "unit search_db" where
  "two_tenants_db =
     (let row = (\<lambda>c t. \<lparr> cr_hit = \<lparr> h_chunk_id = c, h_document_id = ''d'', h_tenant_id = t, h_title = ''D'',
          h_content = ''text'', h_score = 0, h_rank = 0, h_page = None, h_section = None, h_active = True,
          h_metadata = [] \<rparr>, cr_doc_type = None, cr_effective = None, cr_doc_id = ''d'',
        cr_doc_metadata = [(''topic'', ''aml'')] \<rparr>)
      in \<lparr> db_rows = [row ''c1'' ''t1'', row ''c2'' ''t2''], db_embed = (\<lambda>q. Inr ()), db_distance = (\<lambda>v r. 0),
        db_matches = (\<lambda>q r. True), db_ts_rank = (\<lambda>q r. 0), db_query_error = (\<lambda>q. None),
        db_raw = (\<lambda>w ps q k. Inl (OtherExc w)) \<rparr>)"

theorem retrieval_isolated_witness:
  "map h_chunk_id (hits_or_none (vector_retrieve two_tenants_db [''t1'']
       (no_filters\<lparr> f_metadata := [(''topic'', ''aml'')] \<rparr>) ''q'' 5)) = [''c1''] \<and>
   list_all (\<lambda>h. h_tenant_id h = ''t1'') (hybrid_retrieve RRF_CONSTANT two_tenants_db [''t1'']
       (no_filters\<lparr> f_metadata := [(''topic'', ''aml'')] \<rparr>) ''q'' 5)"
proof
  let ?f = "no_filters\<lparr> f_metadata := [(''topic'', ''aml'')] \<rparr>"
  have "list_all is_word ''topic''" by code_simp
  then have k: "is_word CHR ''t''" "is_word CHR ''o''" "is_word CHR ''p''" "is_word CHR ''i''" "is_word CHR ''c''"
    by simp_all
  show "map h_chunk_id (hits_or_none (vector_retrieve two_tenants_db [''t1''] ?f ''q'' 5)) = [''c1'']"
    by (simp add: vector_retrieve_def plain_keys_def k two_tenants_db_def Let_def row_selected_def filter_conditions_def
        condition_holds_def no_filters_def some_list_def ranked_hits_def row_to_hit_def hits_or_none_def)
  show "list_all (\<lambda>h. h_tenant_id h = ''t1'') (hybrid_retrieve RRF_CONSTANT two_tenants_db [''t1''] ?f ''q'' 5)"
    using retrieval_isolated [of ?f "[''t1'']" RRF_CONSTANT two_tenants_db "''q''" 5] k by simp
qed

text \<open>
  Where isolation ends: the key of a metadata filter goes into the SQL text as it is.  The request body
  of a search chooses that key freely, so any text can be placed in the condition, after the tenant
  restriction and outside every bound parameter.
\<close>

theorem metadata_key_injected:
  "case build_filters [(''metadata'', JObj [(payload, JStr v)])] of
     Inl e \<Rightarrow> False
   | Inr f \<Rightarrow> fst (build_filter_clauses [t] f) =
       ''c.tenant_id = :tenant_id AND d.is_active = true AND d.metadata ->> :md_'' @ payload @
       ''_k = :md_'' @ payload @ ''_v''"
  by (simp add: build_filters_def por_def no_filters_def build_filter_clauses_def
      filter_conditions_def some_list_def condition_text_def Let_def)

text \<open>
  Fusion: every chunk found by a retriever appears exactly once, with the sum of its reciprocal ranks as
  its score, best first, and ranks counting from 1.
\<close>

theorem fuse_spec:
  "distinct (map h_chunk_id (fuse c vs ks)) \<and>
   set (map h_chunk_id (fuse c vs ks)) = set (map h_chunk_id vs) \<union> set (map h_chunk_id ks) \<and>
   map h_score (fuse c vs ks) = map (rrf_score c vs ks) (map h_chunk_id (fuse c vs ks)) \<and>
   sorted (rev (map h_score (fuse c vs ks))) \<and>
   map h_rank (fuse c vs ks) = [1..<Suc (length (fuse c vs ks))]"
proof -
  let ?s = "sort_key (\<lambda>h. - rrf_score c vs ks (h_chunk_id h)) (merge_hits [] (vs @ ks))"
  have "distinct (map h_chunk_id (fuse c vs ks))"
    unfolding fuse_ids using merge_hits_distinct [of "[]" "vs @ ks"]
    by (rule distinct_submset [rotated]) (simp add: multiset.map_comp)
  moreover have "set (map h_chunk_id (fuse c vs ks)) = set (map h_chunk_id vs) \<union> set (map h_chunk_id ks)"
    unfolding fuse_ids using merge_hits_set [of "[]" "vs @ ks"] by (simp add: image_Un)
  moreover have "map h_score (fuse c vs ks) = map (rrf_score c vs ks) (map h_chunk_id (fuse c vs ks))"
    unfolding fuse_ids fuse_scores by simp
  moreover have "sorted (rev (map h_score (fuse c vs ks)))"
  proof -
    have "sorted (map (\<lambda>h. - rrf_score c vs ks (h_chunk_id h)) ?s)" by simp
    then have "sorted_wrt (\<ge>) (map (\<lambda>h. rrf_score c vs ks (h_chunk_id h)) ?s)"
      by (simp add: sorted_map sorted_wrt_map)
    then show ?thesis unfolding fuse_scores sorted_wrt_rev .
  qed
  ultimately show ?thesis using fuse_ranks by simp
qed

end
