(* ===== verification/SearchService.thy ===== *)
theory SearchService
  imports Retrieval
begin

text \<open>
  The search service (\<open>packages/search/.../service.py\<close>), the feedback loop on the ranking
  (\<open>feedback.py\<close>, with the scores over the reals and \<open>tanh\<close> of HOL) and the tenants a caller can
  read (\<open>core/tenancy.py\<close>).
\<close>

section \<open>Visible tenants\<close>

text \<open>The process cache only memoises this lookup.\<close>

definition public_corpus_tenant_id :: "settings \<Rightarrow> tenant list \<Rightarrow> uuid option" where
  "public_corpus_tenant_id s ts =
     (let slug = strip (case public_corpus_tenant_slug s of None \<Rightarrow> [] | Some x \<Rightarrow> x) in
       if slug = [] then None else map_option tn_id (find (\<lambda>t. tn_slug t = slug) ts))"

definition visible_tenant_ids :: "settings \<Rightarrow> tenant list \<Rightarrow> uuid \<Rightarrow> uuid list" where
  "visible_tenant_ids s ts caller =
     (case public_corpus_tenant_id s ts of
        None \<Rightarrow> [caller]
      | Some p \<Rightarrow> if p = caller then [caller] else [caller, p])"

section \<open>Feedback\<close>

fun collapse_ws :: "bool \<Rightarrow> string \<Rightarrow> string" where
  "collapse_ws inrun [] = []"
| "collapse_ws inrun (c # s) =
     (if is_space c then (if inrun then collapse_ws True s else CHR '' '' # collapse_ws True s)
      else c # collapse_ws False s)"

definition normalize_query :: "string \<Rightarrow> string" where
  "normalize_query q = collapse_ws False (lower (strip q))"

record feedback_row =
  fb_tenant_id :: uuid
  fb_query :: string
  fb_normalized :: string
  fb_rating :: int
  fb_correction :: "string option"
  fb_document_ids :: "json list"
  fb_created_at :: int

record document_signal =
  global_net :: int
  query_net :: int

definition signal_score :: "document_signal \<Rightarrow> real" where
  "signal_score s = tanh (0.15 * of_int (global_net s) + 0.45 * of_int (query_net s))"

definition NUDGE_STRENGTH :: real where
  "NUDGE_STRENGTH = 2"

definition nudge_key :: "(uuid \<times> document_signal) list \<Rightarrow> nat \<times> hit \<Rightarrow> real" where
  "nudge_key sigs p =
     of_nat (fst p) - (case map_of sigs (h_document_id (snd p)) of
        None \<Rightarrow> 0
      | Some g \<Rightarrow> NUDGE_STRENGTH * signal_score g)"

definition nudge_order :: "hit list \<Rightarrow> (uuid \<times> document_signal) list \<Rightarrow> (nat \<times> hit) list" where
  "nudge_order hits sigs = sort_key (nudge_key sigs) (enumerate 0 hits)"

definition apply_feedback_nudge :: "hit list \<Rightarrow> (uuid \<times> document_signal) list \<Rightarrow> hit list" where
  "apply_feedback_nudge hits sigs =
     (if sigs = [] \<or> hits = [] then hits
      else map (\<lambda>(r, _, h). h\<lparr> h_rank := r \<rparr>) (enumerate 1 (nudge_order hits sigs)))"

text \<open>\<open>parse\<close> is the constructor \<open>uuid.UUID\<close> on a text: the canonical identifier, if it is one.\<close>

definition add_votes ::
  "(string \<Rightarrow> uuid option) \<Rightarrow> string \<Rightarrow> (uuid \<times> document_signal) list \<Rightarrow> feedback_row \<Rightarrow>
   (uuid \<times> document_signal) list"
where
  "add_votes parse nq acc r =
     foldl (\<lambda>acc raw.
        case parse (py_str raw) of
          None \<Rightarrow> acc
        | Some d \<Rightarrow>
            let g = (case map_of acc d of None \<Rightarrow> \<lparr> global_net = 0, query_net = 0 \<rparr> | Some g \<Rightarrow> g) in
            aset acc d \<lparr> global_net = global_net g + fb_rating r,
              query_net = query_net g + (if fb_normalized r = nq then fb_rating r else 0) \<rparr>)
       acc (fb_document_ids r)"

definition MAX_ROWS :: nat where
  "MAX_ROWS = 4000"

text \<open>\<open>ok\<close> says whether the database answers; the newest rows come first.\<close>

definition signals_for ::
  "(string \<Rightarrow> uuid option) \<Rightarrow> bool \<Rightarrow> feedback_row list \<Rightarrow> uuid list \<Rightarrow> string \<Rightarrow>
   (uuid \<times> document_signal) list"
where
  "signals_for parse ok table ids q =
     (if ids = [] \<or> \<not> ok then []
      else foldl (add_votes parse (normalize_query q)) []
             (take MAX_ROWS (rev (filter (\<lambda>r. fb_tenant_id r \<in> set ids) table))))"

section \<open>The service\<close>

record search_outcome =
  so_query :: string
  so_hits :: "hit list"
  so_confidence :: rat
  so_latency_ms :: rat

definition default_confidence :: "hit list \<Rightarrow> rat" where
  "default_confidence hits =
     (if hits = [] then 0
      else
        let top = take (min 3 (length hits)) hits in
        max 0 (min 1 (sum_list (map h_score top) / of_nat (length top))))"

text \<open>The environment of a search.\<close>

record 'v search_env =
  se_settings :: settings
  se_tenants :: "tenant list"
  se_db :: "'v search_db"
  se_rerank :: "string \<Rightarrow> hit list \<Rightarrow> nat option \<Rightarrow> exn + hit list"
  se_retrieve_k :: nat
  se_feedback :: "feedback_row list"
  se_feedback_ok :: bool
  se_parse_uuid :: "string \<Rightarrow> uuid option"
  se_elapsed_ms :: rat

record search_options =
  sp_k :: nat
  sp_filters :: search_filters
  sp_public :: bool
  sp_rerank :: bool
  sp_feedback :: bool

text \<open>\<open>_apply_feedback\<close>\<close>

definition feedback_step :: "'v search_env \<Rightarrow> uuid list \<Rightarrow> string \<Rightarrow> hit list \<Rightarrow> hit list" where
  "feedback_step E ids q hits =
     (if hits = [] then hits
      else apply_feedback_nudge hits
             (signals_for (se_parse_uuid E) (se_feedback_ok E) (se_feedback E) ids q))"

definition search ::
  "'v search_env \<Rightarrow> uuid \<Rightarrow> string \<Rightarrow> search_options \<Rightarrow> exn + search_outcome" where
  "search E tid q opts =
     (let ids = (if sp_public opts then visible_tenant_ids (se_settings E) (se_tenants E) tid else [tid]);
          n = (if sp_rerank opts then max (se_retrieve_k E) (sp_k opts * 3) else sp_k opts);
          retrieved = hybrid_retrieve RRF_CONSTANT (se_db E) ids (sp_filters opts) q n
      in try_bind (if sp_rerank opts then se_rerank E q retrieved (Some (sp_k opts))
                   else Inr (take (sp_k opts) retrieved)) (\<lambda>hits.
         let hits' = (if sp_feedback opts then feedback_step E ids q hits else hits)
         in Inr \<lparr> so_query = q, so_hits = hits', so_confidence = default_confidence hits',
              so_latency_ms = py_round (se_elapsed_ms E) 2 \<rparr>))"

definition search_usage :: "'v search_env \<Rightarrow> (string \<Rightarrow> nat option) \<Rightarrow> string \<Rightarrow> usage_record" where
  "search_usage E tik q =
     usage_from_text (se_settings E) tik q [] (Some (embeddings_provider (se_settings E)))
       (Some (embeddings_model (se_settings E))) (Some (py_round (se_elapsed_ms E) 2)) ''ok'' None"

section \<open>The bound of the nudge\<close>

text \<open>In a stably sorted enumeration, earlier entries have a smaller key, or the same and a smaller index.\<close>

definition before :: "('b \<Rightarrow> 'k::linorder) \<Rightarrow> ('b \<Rightarrow> nat) \<Rightarrow> 'b \<Rightarrow> 'b \<Rightarrow> bool" where
  "before f ix x y \<longleftrightarrow> f x < f y \<or> (f x = f y \<and> ix x < ix y)"

lemma insort_before:
  assumes "sorted_wrt (before f ix) ys" "\<And>y. y \<in> set ys \<Longrightarrow> ix x < ix y"
  shows "sorted_wrt (before f ix) (insort_key f x ys)"
  using assms
proof (induction ys)
  case (Cons y ys)
  show ?case
  proof (cases "f x \<le> f y")
    case True
    then have "before f ix x z" if "z \<in> set (y # ys)" for z
      using Cons.prems that by (fastforce simp: before_def)
    then show ?thesis using Cons.prems True by simp
  next
    case False
    then have "before f ix y x" by (auto simp: before_def)
    then show ?thesis using Cons False by (auto simp: set_insort_key)
  qed
qed simp

lemma sort_before:
  "sorted_wrt (\<lambda>x y. ix x < ix y) xs \<Longrightarrow> sorted_wrt (before f ix) (sort_key f xs)"
proof (induction xs)
  case (Cons x xs)
  then show ?case by (auto intro!: insort_before)
qed simp

text \<open>
  A list that is sorted so, by keys within \<open>d\<close> of the index, moves nothing by \<open>2 d\<close> positions or more.
\<close>

lemma displacement:
  fixes f :: "nat \<Rightarrow> real"
  assumes ixs: "set is = {..<n}" "distinct is" and sorted: "sorted_wrt (before f id) is"
    and near: "\<And>i. \<bar>f i - real i\<bar> \<le> 2" and p: "p < n"
  shows "\<bar>int p - int (is ! p)\<bar> \<le> 3"
proof -
  let ?i = "is ! p"
  have len: "length is = n" using ixs by (metis card_lessThan distinct_card)
  have i: "?i < n" using ixs(1) p len nth_mem by fastforce
  have ord: "before f id (is ! a) (is ! b)" if "a < b" "b < n" for a b
    using sorted that len by (simp add: sorted_wrt_iff_nth_less)
  have asym: "\<not> (before f id j k \<and> before f id k j)" for j k by (auto simp: before_def)
  have far: "before f id j k" if "j + 4 \<le> k" for j k
  proof -
    have "f j \<le> real j + 2" "real k - 2 \<le> f k"
      using near [of j] near [of k] by (simp_all add: abs_le_iff)
    moreover have "real j + 4 \<le> real k" using that by linarith
    ultimately have "f j \<le> f k" by linarith
    then show ?thesis using that by (auto simp: before_def)
  qed
  let ?A = "(!) is ` {..<p}"
  have card: "card ?A = p"
    using ixs(2) p len by (subst card_image) (auto simp: inj_on_def nth_eq_iff_index_eq)
  have up: "?A \<subseteq> {..<?i + 4} - {?i}"
  proof
    fix j
    assume "j \<in> ?A"
    then obtain a where a: "a < p" "j = is ! a" by auto
    have "j \<noteq> ?i" using a p len ixs(2) by (simp add: nth_eq_iff_index_eq)
    moreover have "j < ?i + 4" using ord [OF a(1) p] far [of ?i j] asym a(2) by fastforce
    ultimately show "j \<in> {..<?i + 4} - {?i}" by simp
  qed
  have down: "{..<?i - 3} \<subseteq> ?A"
  proof
    fix j
    assume "j \<in> {..<?i - 3}"
    then have j: "j + 4 \<le> ?i" by auto
    then have "j \<in> set is" using ixs(1) i by simp
    then obtain b where b: "b < n" "j = is ! b" using len by (auto simp: in_set_conv_nth)
    have "b \<noteq> p" using b(2) j by auto
    moreover have "\<not> p < b" using ord [of p b] b far [OF j] asym by blast
    ultimately show "j \<in> ?A" using b by auto
  qed
  have "p \<le> ?i + 3" using card_mono [OF _ up] card by simp
  moreover have "?i - 3 \<le> p" using card_mono [OF _ down] card by simp
  ultimately show ?thesis by linarith
qed

lemma signal_score_bound: "\<bar>signal_score g\<bar> \<le> 1"
  using tanh_real_bounds [of "0.15 * of_int (global_net g) + 0.45 * of_int (query_net g)"]
  by (simp add: signal_score_def abs_le_iff)

lemma nudge_key_near: "\<bar>nudge_key sigs p - real (fst p)\<bar> \<le> 2"
proof (cases "map_of sigs (h_document_id (snd p))")
  case None
  then show ?thesis by (simp add: nudge_key_def)
next
  case (Some g)
  then show ?thesis using signal_score_bound [of g]
    by (simp add: nudge_key_def NUDGE_STRENGTH_def abs_mult)
qed

lemma nudge_order_mset: "mset (nudge_order hits sigs) = mset (enumerate 0 hits)"
  by (simp add: nudge_order_def)

lemma nudge_order_snd:
  "x \<in> set (nudge_order hits sigs) \<Longrightarrow> fst x < length hits \<and> snd x = hits ! fst x"
  by (auto simp: nudge_order_def enumerate_eq_zip set_zip)

lemma length_nudge_order [simp]: "length (nudge_order hits sigs) = length hits"
  by (simp add: nudge_order_def)

lemma nudge_order_near:
  assumes "p < length hits"
  shows "\<bar>int p - int (fst (nudge_order hits sigs ! p))\<bar> \<le> 3"
proof -
  let ?o = "nudge_order hits sigs"
  let ?f = "\<lambda>i. if i < length hits then nudge_key sigs (i, hits ! i) else real i"
  have m: "mset (map fst ?o) = mset [0..<length hits]"
    by (simp only: mset_map nudge_order_mset) (simp flip: mset_map)
  have "set (map fst ?o) = {..<length hits}"
    using mset_eq_setD [OF m] by (simp only: set_upt atLeast0LessThan)
  moreover have "distinct (map fst ?o)"
    using mset_eq_imp_distinct_iff [OF m] by simp
  moreover have "sorted_wrt (before ?f id) (map fst ?o)"
  proof -
    have "sorted_wrt (<) (map fst (enumerate 0 hits))" by simp
    then have "sorted_wrt (\<lambda>x y. fst x < fst y) (enumerate 0 hits)" by (simp only: sorted_wrt_map)
    then have "sorted_wrt (before (nudge_key sigs) fst) ?o"
      unfolding nudge_order_def by (rule sort_before)
    then have "sorted_wrt (\<lambda>x y. before ?f id (fst x) (fst y)) ?o"
    proof (rule sorted_wrt_mono_rel [rotated])
      fix x y
      assume "x \<in> set ?o" "y \<in> set ?o" "before (nudge_key sigs) fst x y"
      moreover have "?f (fst z) = nudge_key sigs z" if "z \<in> set ?o" for z
        using nudge_order_snd [OF that] by (metis prod.collapse)
      ultimately show "before ?f id (fst x) (fst y)" by (simp add: before_def)
    qed
    then show ?thesis by (simp add: sorted_wrt_map)
  qed
  moreover have "\<bar>?f i - real i\<bar> \<le> 2" for i using nudge_key_near [of sigs "(i, hits ! i)"] by simp
  ultimately have "\<bar>int p - int (map fst ?o ! p)\<bar> \<le> 3" using assms by (rule displacement)
  then show ?thesis using assms by simp
qed

lemma apply_nudge_nth:
  assumes "p < length hits" "sigs \<noteq> []"
  shows "apply_feedback_nudge hits sigs ! p =
    (hits ! fst (nudge_order hits sigs ! p))\<lparr> h_rank := Suc p \<rparr>"
proof -
  have "nudge_order hits sigs ! p \<in> set (nudge_order hits sigs)" using assms by simp
  from nudge_order_snd [OF this] assms show ?thesis
    by (auto simp: apply_feedback_nudge_def nth_enumerate_eq split_beta)
qed

lemma length_apply_nudge [simp]: "length (apply_feedback_nudge hits sigs) = length hits"
  by (simp add: apply_feedback_nudge_def)

lemma apply_nudge_core: "mset (map core (apply_feedback_nudge hits sigs)) = mset (map core hits)"
proof -
  have drop: "map core (map (\<lambda>(r, _, h). h\<lparr> h_rank := r \<rparr>) (enumerate 1 xs)) = map (core \<circ> snd) xs"
    for xs :: "(nat \<times> hit) list"
    by (rule trans [OF map_enumerate [where F' = "core \<circ> snd"]])
      (auto simp: core_def split: prod.split)
  have "mset (map (core \<circ> snd) (nudge_order hits sigs)) = mset (map core (map snd (enumerate 0 hits)))"
    unfolding map_map mset_map nudge_order_mset ..
  then have "mset (map (core \<circ> snd) (nudge_order hits sigs)) = mset (map core hits)" by simp
  then have "mset (map core (map (\<lambda>(r, _, h). h\<lparr> h_rank := r \<rparr>) (enumerate 1 (nudge_order hits sigs)))) =
      mset (map core hits)" by (simp only: drop)
  then show ?thesis
    by (cases "sigs = [] \<or> hits = []") (auto simp: apply_feedback_nudge_def simp del: mset_map map_map)
qed

lemma tanh_3: "3 / 4 < tanh (3 :: real)"
proof -
  have "(3 :: real) \<le> exp 2" using exp_ge_add_one_self [of 2] by simp
  then have "(3 :: real) ^ 3 \<le> exp 2 ^ 3" by (rule power_mono) simp
  also have "exp 2 ^ 3 = exp (6 :: real)" by (simp flip: exp_of_nat_mult)
  finally have e: "7 < exp (6 :: real)" by simp
  have t: "tanh (3 :: real) = (1 - exp (- 6)) / (1 + exp (- 6))" by (simp add: tanh_real_altdef)
  have y: "exp (- 6) < (1 / 7 :: real)" using e by (simp add: exp_minus field_simps)
  have pos: "0 < 1 + exp (- 6 :: real)" by (simp add: add_pos_pos)
  show ?thesis unfolding t using y pos by (simp add: field_simps)
qed

section \<open>What a search returns\<close>

lemma visible_subset:
  "set (visible_tenant_ids s ts tid) \<subseteq> insert tid (set_option (public_corpus_tenant_id s ts))"
  by (auto simp: visible_tenant_ids_def split: option.splits if_splits)

lemma confidence_range: "0 \<le> default_confidence hits \<and> default_confidence hits \<le> 1"
  by (simp add: default_confidence_def Let_def)

lemma hybrid_distinct: "distinct (map h_chunk_id (hybrid_retrieve c db ids f q k))"
proof -
  have "distinct (map h_chunk_id (fuse c vs ks))" for vs ks
    unfolding fuse_ids using merge_hits_distinct [of "[]" "vs @ ks"]
    by (rule distinct_submset [rotated]) (simp add: multiset.map_comp)
  then show ?thesis unfolding hybrid_retrieve_def Let_def take_map [symmetric]
    by (rule distinct_take)
qed

lemma hybrid_length: "length (hybrid_retrieve c db ids f q k) \<le> k"
  by (simp add: hybrid_retrieve_def Let_def)

definition readable :: "'v search_env \<Rightarrow> uuid \<Rightarrow> search_filters \<Rightarrow> hit \<Rightarrow> bool" where
  "readable E tid f h \<longleftrightarrow>
     (h_tenant_id h = tid \<or> public_corpus_tenant_id (se_settings E) (se_tenants E) = Some (h_tenant_id h)) \<and>
     (f_only_active f \<longrightarrow> h_active h)"

lemma readable_core: "readable E tid f (core h) = readable E tid f h"
  by (simp add: readable_def)

lemma hybrid_readable:
  assumes "plain_keys f"
  shows "list_all (readable E tid f) (hybrid_retrieve c db
     (if b then visible_tenant_ids (se_settings E) (se_tenants E) tid else [tid]) f q n)"
proof (rule list.pred_mono_strong [OF hybrid_retrieve_ok [OF assms]])
  fix h
  assume "retrieved_ok (if b then visible_tenant_ids (se_settings E) (se_tenants E) tid else [tid]) f h"
  then show "readable E tid f h"
    using visible_subset [of "se_settings E" "se_tenants E" tid]
    by (auto simp: retrieved_ok_def readable_def split: if_splits)
qed

text \<open>The nudge keeps the hits, up to their ranks.\<close>

lemma nudge_preserves:
  assumes "list_all P hits" "\<And>h. P (core h) = P h"
  shows "list_all P (apply_feedback_nudge hits sigs)"
  unfolding list_all_iff
proof
  fix h
  assume "h \<in> set (apply_feedback_nudge hits sigs)"
  then have "core h \<in> set (map core (apply_feedback_nudge hits sigs))" by simp
  then have "core h \<in> set (map core hits)" using mset_eq_setD [OF apply_nudge_core] by blast
  then obtain g where "g \<in> set hits" "core h = core g" by auto
  then show "P h" using assms by (metis list_all_iff)
qed

lemma nudge_distinct:
  "distinct (map h_chunk_id hits) \<Longrightarrow> distinct (map h_chunk_id (apply_feedback_nudge hits sigs))"
proof -
  have m: "mset (map h_chunk_id hs) = image_mset h_chunk_id (mset (map core hs))" for hs
    by (simp add: multiset.map_comp o_def)
  have "mset (map h_chunk_id (apply_feedback_nudge hits sigs)) = mset (map h_chunk_id hits)"
    unfolding m apply_nudge_core ..
  then show "distinct (map h_chunk_id hits) \<Longrightarrow> ?thesis"
    using mset_eq_imp_distinct_iff by blast
qed

definition outcome_ok :: "'v search_env \<Rightarrow> uuid \<Rightarrow> search_options \<Rightarrow> search_outcome \<Rightarrow> bool" where
  "outcome_ok E tid opts out \<longleftrightarrow>
     list_all (readable E tid (sp_filters opts)) (so_hits out) \<and>
     distinct (map h_chunk_id (so_hits out)) \<and> length (so_hits out) \<le> sp_k opts \<and>
     0 \<le> so_confidence out \<and> so_confidence out \<le> 1"

context reranker
begin

lemma search_outcome_ok:
  assumes "se_rerank E = rerank" "search E tid q opts = Inr out" "0 < sp_k opts" "plain_keys (sp_filters opts)"
  shows "outcome_ok E tid opts out"
proof -
  obtain k where k: "sp_k opts = Suc k" using assms(3) gr0_implies_Suc by blast
  let ?ids = "if sp_public opts then visible_tenant_ids (se_settings E) (se_tenants E) tid else [tid]"
  let ?n = "if sp_rerank opts then max (se_retrieve_k E) (sp_k opts * 3) else sp_k opts"
  let ?r = "hybrid_retrieve RRF_CONSTANT (se_db E) ?ids (sp_filters opts) q ?n"
  obtain hits where h: "(if sp_rerank opts then rerank q ?r (Some (sp_k opts))
      else Inr (take (sp_k opts) ?r)) = Inr hits"
    and o: "out = (let hits' = (if sp_feedback opts then feedback_step E ?ids q hits else hits)
      in \<lparr> so_query = q, so_hits = hits', so_confidence = default_confidence hits',
        so_latency_ms = py_round (se_elapsed_ms E) 2 \<rparr>)"
    using assms(1,2) by (auto simp: search_def Let_def try_bind_eq_Inr)
  define final where "final = (if sp_feedback opts then feedback_step E ?ids q hits else hits)"
  have o': "so_hits out = final" "so_confidence out = default_confidence final"
    by (simp_all add: o Let_def final_def)
  have nudged: "final = hits \<or> (\<exists>sigs. final = apply_feedback_nudge hits sigs)"
    by (auto simp: final_def feedback_step_def)
  have read: "list_all (readable E tid (sp_filters opts)) ?r" using assms(4) by (rule hybrid_readable)
  have "list_all (readable E tid (sp_filters opts)) hits \<and> distinct (map h_chunk_id hits) \<and>
      length hits \<le> sp_k opts"
  proof (cases "sp_rerank opts")
    case True
    then have rr: "rerank q ?r (Some (Suc k)) = Inr hits" using h k by simp
    show ?thesis
      using rerank_preserves [OF rr read readable_core] rerank_distinct [OF rr hybrid_distinct]
        rerank_cap [OF rr] k by simp
  next
    case False
    then have "hits = take (sp_k opts) ?r" using h by simp
    then show ?thesis using read hybrid_distinct [of RRF_CONSTANT "se_db E" ?ids "sp_filters opts" q ?n]
      by (auto simp: list_all_iff take_map [symmetric] distinct_take dest: in_set_takeD)
  qed
  then have "list_all (readable E tid (sp_filters opts)) final \<and> distinct (map h_chunk_id final) \<and>
      length final \<le> sp_k opts"
    using nudged nudge_preserves [of "readable E tid (sp_filters opts)", OF _ readable_core]
      nudge_distinct by (metis length_apply_nudge)
  then show ?thesis using confidence_range [of final] by (simp add: outcome_ok_def o')
qed

end

section \<open>Properties\<close>

text \<open>
  Whatever reranker of the package serves it, a search returns at most \<open>k\<close> distinct chunks, of the caller's
  tenant or the public corpus only, active ones when asked, with a confidence in the unit interval.
\<close>

theorem search_sound:
  assumes "se_rerank E = noop_rerank \<or> se_rerank E = bge_rerank model"
    and "search E tid q opts = Inr out" and "0 < sp_k opts" and "plain_keys (sp_filters opts)"
  shows "list_all (\<lambda>h. h_tenant_id h = tid \<or>
      public_corpus_tenant_id (se_settings E) (se_tenants E) = Some (h_tenant_id h)) (so_hits out) \<and>
    (f_only_active (sp_filters opts) \<longrightarrow> list_all h_active (so_hits out)) \<and>
    distinct (map h_chunk_id (so_hits out)) \<and> length (so_hits out) \<le> sp_k opts \<and>
    0 \<le> so_confidence out \<and> so_confidence out \<le> 1"
proof -
  have "outcome_ok E tid opts out"
    using assms noop.search_outcome_ok bge.search_outcome_ok by blast
  then show ?thesis by (auto simp: outcome_ok_def readable_def list_all_iff)
qed

definition sample_hit :: "string \<Rightarrow> string \<Rightarrow> hit" where
  "sample_hit c d = \<lparr> h_chunk_id = c, h_document_id = d, h_tenant_id = ''t1'', h_title = [],
     h_content = [], h_score = 0, h_rank = 0, h_page = None, h_section = None, h_active = True,
     h_metadata = [] \<rparr>"

definition sample_row :: "string \<Rightarrow> string \<Rightarrow> chunk_row" where
  "sample_row c t = \<lparr> cr_hit = (sample_hit c ''d'')\<lparr> h_tenant_id := t \<rparr>, cr_doc_type = None,
     cr_effective = None, cr_doc_id = ''d'', cr_doc_metadata = [] \<rparr>"

definition sample_search :: "unit search_env" where
  "sample_search = \<lparr> se_settings = default_settings\<lparr> public_corpus_tenant_slug := None \<rparr>,
     se_tenants = [], se_db = \<lparr> db_rows = [sample_row ''c1'' ''t1'', sample_row ''c2'' ''t2''],
       db_embed = (\<lambda>_. Inr ()), db_distance = (\<lambda>_ _. 0), db_matches = (\<lambda>_ _. True),
       db_ts_rank = (\<lambda>_ _. 0), db_query_error = (\<lambda>_. None), db_raw = (\<lambda>w ps q k. Inl (OtherExc w)) \<rparr>,
     se_rerank = noop_rerank, se_retrieve_k = 12, se_feedback = [], se_feedback_ok = True,
     se_parse_uuid = Some, se_elapsed_ms = 0 \<rparr>"

definition sample_options :: search_options where
  "sample_options = \<lparr> sp_k = 3, sp_filters = no_filters, sp_public = True, sp_rerank = True,
     sp_feedback = True \<rparr>"

theorem search_sound_witness:
  "\<exists>out. search sample_search ''t1'' ''q'' sample_options = Inr out \<and> length (so_hits out) \<le> 3"
proof -
  obtain out where s: "search sample_search ''t1'' ''q'' sample_options = Inr out"
    by (simp add: search_def Let_def sample_options_def) (simp add: sample_search_def noop_rerank_def)
  have "se_rerank sample_search = noop_rerank" "0 < sp_k sample_options" "sp_k sample_options = 3"
    "plain_keys (sp_filters sample_options)"
    by (simp_all add: sample_search_def sample_options_def plain_keys_def no_filters_def)
  then show ?thesis using search_sound [of sample_search "None" "''t1''" "''q''" sample_options out] s
    by auto
qed

text \<open>
  Feedback only re-orders: the hits stay the same up to their ranks, which are counted anew, and no hit
  moves by more than three positions, however many votes there are.
\<close>

theorem nudge_bounded:
  assumes "p < length hits" and "sigs \<noteq> []"
  shows "\<exists>i < length hits. apply_feedback_nudge hits sigs ! p = (hits ! i)\<lparr> h_rank := Suc p \<rparr> \<and>
    \<bar>int p - int i\<bar> \<le> 3 \<and>
    mset (map core (apply_feedback_nudge hits sigs)) = mset (map core hits)"
proof (intro exI conjI)
  show "fst (nudge_order hits sigs ! p) < length hits"
    using nudge_order_snd [of "nudge_order hits sigs ! p" hits sigs] assms(1) by simp
qed (use apply_nudge_nth [OF assms] nudge_order_near [OF assms(1)] apply_nudge_core in auto)

definition vote_hits :: "hit list" where
  "vote_hits = [sample_hit ''c0'' ''d0'', sample_hit ''c1'' ''d1'', sample_hit ''c2'' ''d2'',
     sample_hit ''c3'' ''d3'']"

definition votes :: "(uuid \<times> document_signal) list" where
  "votes = (let down = \<lparr> global_net = -5, query_net = -5 \<rparr> in
     [(''d0'', down), (''d1'', down), (''d2'', down), (''d3'', \<lparr> global_net = 5, query_net = 5 \<rparr>)])"

theorem nudge_bounded_witness:
  "\<exists>i < 4. apply_feedback_nudge vote_hits votes ! 0 = (vote_hits ! i)\<lparr> h_rank := 1 \<rparr>"
proof -
  have "0 < length vote_hits" "votes \<noteq> []" "length vote_hits = 4"
    by (simp_all add: vote_hits_def votes_def Let_def)
  then show ?thesis using nudge_bounded [of 0 vote_hits votes] by auto
qed

text \<open>
  The bound of three is reached: consistent votes lift the fourth hit to the top, past three hits that were
  voted down, although a hit is documented to move by a couple of positions at most.
\<close>

theorem nudge_moves_three:
  "map h_chunk_id (apply_feedback_nudge vote_hits votes) = [''c3'', ''c0'', ''c1'', ''c2'']"
proof -
  have up: "signal_score \<lparr> global_net = 5, query_net = 5 \<rparr> = tanh 3"
    and down: "signal_score \<lparr> global_net = -5, query_net = -5 \<rparr> = - tanh 3"
    by (simp_all add: signal_score_def flip: tanh_minus)
  have "map snd (nudge_order vote_hits votes) =
      [sample_hit ''c3'' ''d3'', sample_hit ''c0'' ''d0'', sample_hit ''c1'' ''d1'', sample_hit ''c2'' ''d2'']"
    using tanh_3
    by (simp add: nudge_order_def vote_hits_def nudge_key_def votes_def Let_def up down
        NUDGE_STRENGTH_def sample_hit_def)
  then have "map (h_chunk_id \<circ> snd) (nudge_order vote_hits votes) = [''c3'', ''c0'', ''c1'', ''c2'']"
    by (simp flip: map_map add: sample_hit_def)
  moreover have "map h_chunk_id (map (\<lambda>(r, _, h). h\<lparr> h_rank := r \<rparr>) (enumerate 1 xs)) =
      map (h_chunk_id \<circ> snd) xs" for xs :: "(nat \<times> hit) list"
    by (rule trans [OF map_enumerate [where F' = "h_chunk_id \<circ> snd"]]) (auto split: prod.split)
  moreover have "votes \<noteq> []" "vote_hits \<noteq> []" by (simp_all add: votes_def vote_hits_def Let_def)
  ultimately show ?thesis by (simp add: apply_feedback_nudge_def del: map_map)
qed

end
