(* ===== verification/GatewayAdmin.thy ===== *)
theory GatewayAdmin
  imports Auth Prompts
begin

text \<open>
  The owner's view of the gateway (\<open>packages/api/.../routes/gateway.py\<close>): usage and latency
  summaries, the request feed and the trace of one request, prompt management, the governance policy,
  the model routing, the governance feed and the feedback summary.  Each route runs behind
  \<open>require_scope "owner"\<close>; the model of a route takes the principal that guard returned.
\<close>

section \<open>Usage\<close>

record quota_view =
  qv_requests_per_day :: int
  qv_tokens_per_day :: int
  qv_requests_remaining :: "int option"
  qv_tokens_remaining :: "int option"

record usage_summary =
  sm_window_hours :: int
  sm_requests :: nat
  sm_ok :: nat
  sm_errors :: nat
  sm_denied :: nat
  sm_tokens :: nat
  sm_cost_usd :: rat
  sm_by_purpose :: "(string \<times> nat) list"
  sm_quota :: quota_view

fun count_in :: "(string \<times> nat) list \<Rightarrow> string \<Rightarrow> (string \<times> nat) list" where
  "count_in [] k = [(k, 1)]"
| "count_in ((l, n) # d) k = (if l = k then (l, n + 1) # d else (l, n) # count_in d k)"

record usage_tally =
  ty_ok :: nat
  ty_errors :: nat
  ty_denied :: nat
  ty_tokens :: nat
  ty_cost :: rat
  ty_by_purpose :: "(string \<times> nat) list"

definition tally_row :: "usage_tally \<Rightarrow> llm_usage \<Rightarrow> usage_tally" where
  "tally_row t r =
     (let u = us_record r; t1 = t\<lparr> ty_by_purpose := count_in (ty_by_purpose t) (us_purpose r) \<rparr> in
       if ur_status u = ''quota_denied'' then t1\<lparr> ty_denied := ty_denied t + 1 \<rparr>
       else
         (if ur_status u = ''error'' then t1\<lparr> ty_errors := ty_errors t + 1 \<rparr>
          else t1\<lparr> ty_ok := ty_ok t + 1 \<rparr>)
         \<lparr> ty_tokens := ty_tokens t + total_tokens u, ty_cost := ty_cost t + cost_usd u \<rparr>)"

definition no_tally :: usage_tally where
  "no_tally = \<lparr> ty_ok = 0, ty_errors = 0, ty_denied = 0, ty_tokens = 0, ty_cost = 0, ty_by_purpose = [] \<rparr>"

definition summarize_usage :: "int \<Rightarrow> llm_usage list \<Rightarrow> quota_status \<Rightarrow> usage_summary" where
  "summarize_usage hours rows q =
     (let t = foldl tally_row no_tally rows in
       \<lparr> sm_window_hours = hours, sm_requests = ty_ok t + ty_errors t, sm_ok = ty_ok t,
         sm_errors = ty_errors t, sm_denied = ty_denied t, sm_tokens = ty_tokens t,
         sm_cost_usd = py_round (ty_cost t) 6, sm_by_purpose = ty_by_purpose t,
         sm_quota = \<lparr> qv_requests_per_day = requests_per_day (q_limits q),
           qv_tokens_per_day = tokens_per_day (q_limits q),
           qv_requests_remaining = requests_remaining q, qv_tokens_remaining = tokens_remaining q \<rparr> \<rparr>)"

definition HOUR_US :: int where
  "HOUR_US = 3600 * 1000000"

definition since_rows :: "int \<Rightarrow> int \<Rightarrow> uuid \<Rightarrow> ledger \<Rightarrow> llm_usage list" where
  "since_rows now hours tid l =
     filter (\<lambda>r. us_tenant_id r = tid \<and> us_created_at r \<ge> now - hours * HOUR_US) l"

definition gateway_usage ::
  "settings \<Rightarrow> tenant list \<Rightarrow> int \<Rightarrow> int \<Rightarrow> principal \<Rightarrow> ledger \<Rightarrow> exn + usage_summary" where
  "gateway_usage s ts now hours p l =
     (let ctx = \<lparr> ctx_tenant_id = pp_tenant_id p, ctx_tenant_slug = pp_tenant_slug p,
            ctx_user_id = None, ctx_plan = None, ctx_purpose = ''chat'', ctx_request_id = None \<rparr>
      in try_bind (check s (tenant_db ts) now l ctx Unset) (\<lambda>q.
           Inr (summarize_usage hours (since_rows now hours (pp_tenant_id p) l) q)))"

section \<open>Latency\<close>

record latency_stats =
  ls_count :: nat
  ls_p50_ms :: "rat option"
  ls_p95_ms :: "rat option"
  ls_error_rate :: rat

definition percentile :: "rat list \<Rightarrow> rat \<Rightarrow> rat option" where
  "percentile values p =
     (if values = [] then None
      else
        let ordered = sort values in
        if length ordered = 1 then Some (py_round (ordered ! 0) 2)
        else
          let k = of_nat (length ordered - 1) * p;
              lo = nat \<lfloor>k\<rfloor>;
              hi = min (lo + 1) (length ordered - 1)
          in Some (py_round (ordered ! lo + (ordered ! hi - ordered ! lo) * (k - of_nat lo)) 2))"

definition compute_request_stats :: "(string \<times> rat option) list \<Rightarrow> latency_stats" where
  "compute_request_stats rows =
     (let attempts = filter (\<lambda>(st, lat). st \<noteq> ''quota_denied'') rows;
          latencies = List.map_filter snd attempts;
          errors = length (filter (\<lambda>(st, lat). st = ''error'') attempts);
          count = length attempts
      in \<lparr> ls_count = count, ls_p50_ms = percentile latencies (1 / 2),
           ls_p95_ms = percentile latencies (95 / 100),
           ls_error_rate = (if count \<noteq> 0 then py_round (of_nat errors / of_nat count) 4 else 0) \<rparr>)"

definition gateway_requests ::
  "int \<Rightarrow> int \<Rightarrow> nat \<Rightarrow> principal \<Rightarrow> ledger \<Rightarrow> latency_stats \<times> llm_usage list" where
  "gateway_requests now hours n p l =
     (let rows = take n (rev (since_rows now hours (pp_tenant_id p) l)) in
       (compute_request_stats (map (\<lambda>r. (ur_status (us_record r), latency_ms (us_record r))) rows), rows))"

record request_trace =
  rt_request_id :: string
  rt_query :: "string option"
  rt_summary :: "string option"
  rt_sources :: "json list"
  rt_calls :: "llm_usage list"

definition gateway_request_trace ::
  "string \<Rightarrow> principal \<Rightarrow> ledger \<Rightarrow> audit_log \<Rightarrow> exn + request_trace" where
  "gateway_request_trace rid p l rows =
     (let calls = filter (\<lambda>r. us_tenant_id r = pp_tenant_id p \<and> us_request_id r = Some rid) l;
          audit = rev (filter (\<lambda>a. au_tenant_id a = pp_tenant_id p \<and>
            dget (au_extra a) ''request_id'' = JStr rid) rows)
      in if calls = [] \<and> audit = [] then Inl (HTTPError 404 ''Unknown request_id'')
         else Inr (case audit of
             [] \<Rightarrow> \<lparr> rt_request_id = rid, rt_query = None, rt_summary = None, rt_sources = [],
                     rt_calls = calls \<rparr>
           | a # _ \<Rightarrow> \<lparr> rt_request_id = rid, rt_query = au_query a, rt_summary = au_summary a,
                     rt_sources = au_sources a, rt_calls = calls \<rparr>))"

section \<open>Prompts\<close>

definition save_prompt_version ::
  "bool \<Rightarrow> int \<Rightarrow> principal \<Rightarrow> string \<Rightarrow> string \<Rightarrow> string option \<Rightarrow> bool \<Rightarrow> prompt_table \<Rightarrow> audit_log \<Rightarrow>
   (prompt_table \<times> audit_log) \<times> (exn + string)"
where
  "save_prompt_version ok now p name template descr act tab rows =
     (case save_version now name template descr act tab of
        Inl e \<Rightarrow> ((tab, rows), Inl e)
      | Inr (tab', v) \<Rightarrow>
          ((tab', record_action ok now p ''prompt.update'' (Some (''/v1/gateway/prompts/'' @ name))
              None None [] [(''name'', JStr name), (''version'', JStr v), (''activated'', JBool act)] rows),
           Inr v))"

definition activate_prompt_version ::
  "bool \<Rightarrow> int \<Rightarrow> principal \<Rightarrow> string \<Rightarrow> string \<Rightarrow> prompt_table \<Rightarrow> audit_log \<Rightarrow>
   (prompt_table \<times> audit_log) \<times> (exn + string)"
where
  "activate_prompt_version ok now p name v tab rows =
     (case activate name v tab of
        Inl (PromptNotFoundError m) \<Rightarrow> ((tab, rows), Inl (HTTPError 404 m))
      | Inl e \<Rightarrow> ((tab, rows), Inl e)
      | Inr tab' \<Rightarrow>
          ((tab', record_action ok now p ''prompt.activate'' (Some (''/v1/gateway/prompts/'' @ name))
              None None [] [(''name'', JStr name), (''version'', JStr v)] rows),
           Inr v))"

section \<open>Policy\<close>

record policy_update =
  pu_enabled :: bool
  pu_allowed_models :: "string list"
  pu_max_tokens :: int
  pu_allow_cloud :: bool
  pu_jailbreak_guard :: bool

definition available_models :: "settings \<Rightarrow> string list" where
  "available_models s =
     foldl (\<lambda>seen m. if m \<noteq> [] \<and> m \<notin> set seen then seen @ [m] else seen) []
       [llm_model s, summarisation_model s]"

text \<open>
  \<open>dict(settings.get("gateway") or {})\<close>: a copy of the object; any other true value is refused
  (in Python a list of pairs would be converted).
\<close>

definition gateway_cfg :: "tenant_settings \<Rightarrow> exn + jdict" where
  "gateway_cfg ts =
     (case por (dget (case ts of None \<Rightarrow> [] | Some d \<Rightarrow> d) ''gateway'') (JObj []) of
        JObj d \<Rightarrow> Inr d
      | _ \<Rightarrow> Inl (PyExc TypeError))"

definition set_tenant_settings :: "uuid \<Rightarrow> jdict \<Rightarrow> tenant list \<Rightarrow> tenant list" where
  "set_tenant_settings tid d ts =
     map (\<lambda>t. if tn_id t = tid then t\<lparr> tn_settings := Some d \<rparr> else t) ts"

definition policy_dict :: "policy_update \<Rightarrow> jdict" where
  "policy_dict b =
     [(''enabled'', JBool (pu_enabled b)),
      (''allowed_models'', JList (map JStr (map strip (filter (\<lambda>m. strip m \<noteq> []) (pu_allowed_models b))))),
      (''max_tokens_per_request'', JInt (pu_max_tokens b)),
      (''allow_cloud'', JBool (pu_allow_cloud b)),
      (''jailbreak_guard'', JBool (pu_jailbreak_guard b))]"

text \<open>Both updates of a tenant's gateway settings: one key of the \<open>gateway\<close> object is replaced.\<close>

definition update_gateway_key ::
  "uuid \<Rightarrow> string \<Rightarrow> json \<Rightarrow> tenant list \<Rightarrow> exn + (tenant list \<times> jdict)" where
  "update_gateway_key tid key v ts =
     (case find (\<lambda>t. tn_id t = tid) ts of
        None \<Rightarrow> Inl (HTTPError 404 ''tenant not found'')
      | Some t \<Rightarrow>
          try_bind (gateway_cfg (tn_settings t)) (\<lambda>cfg.
            let cfg' = dset cfg key v;
                d = (case tn_settings t of None \<Rightarrow> [] | Some d \<Rightarrow> d)
            in Inr (set_tenant_settings tid (dset d ''gateway'' (JObj cfg')) ts, cfg')))"

definition get_policy :: "tenant list \<Rightarrow> principal \<Rightarrow> exn + policy" where
  "get_policy ts p = resolve_policy (load_tenant_settings (tenant_db ts) (pp_tenant_id p))"

definition update_policy ::
  "bool \<Rightarrow> int \<Rightarrow> principal \<Rightarrow> policy_update \<Rightarrow> tenant list \<Rightarrow> audit_log \<Rightarrow>
   (tenant list \<times> audit_log) \<times> (exn + policy)"
where
  "update_policy ok now p b ts rows =
     (case update_gateway_key (pp_tenant_id p) ''policy'' (JObj (policy_dict b)) ts of
        Inl e \<Rightarrow> ((ts, rows), Inl e)
      | Inr (ts', cfg) \<Rightarrow>
          ((ts', record_action ok now p ''policy.update'' (Some ''/v1/gateway/policy'') None None []
             (policy_dict b) rows),
           resolve_policy (Some [(''gateway'', JObj cfg)])))"

section \<open>Routing\<close>

record routing_view =
  rv_order :: "string list"
  rv_available :: "model_target list"

definition make_routing_view :: "settings \<Rightarrow> tenant_settings \<Rightarrow> exn + routing_view" where
  "make_routing_view s ts =
     try_bind (resolve_target_chain ts s) (\<lambda>chain.
       Inr \<lparr> rv_order = map tgt_name chain, rv_available = map snd (available_targets s) \<rparr>)"

definition get_routing :: "settings \<Rightarrow> tenant list \<Rightarrow> principal \<Rightarrow> exn + routing_view" where
  "get_routing s ts p = make_routing_view s (load_tenant_settings (tenant_db ts) (pp_tenant_id p))"

fun dedupe_targets :: "string list \<Rightarrow> string list \<Rightarrow> exn + string list" where
  "dedupe_targets seen [] = Inr seen"
| "dedupe_targets seen (n # ns) =
     (if n \<notin> set TARGET_NAMES
      then Inl (HTTPError 422 (''unknown model target '' @ str_repr n @ '' (allowed: '' @
             join '', '' TARGET_NAMES @ '')''))
      else dedupe_targets (if n \<in> set seen then seen else seen @ [n]) ns)"

definition update_routing ::
  "bool \<Rightarrow> int \<Rightarrow> settings \<Rightarrow> principal \<Rightarrow> string list \<Rightarrow> tenant list \<Rightarrow> audit_log \<Rightarrow>
   (tenant list \<times> audit_log) \<times> (exn + routing_view)"
where
  "update_routing ok now s p order ts rows =
     (case dedupe_targets [] order of
        Inl e \<Rightarrow> ((ts, rows), Inl e)
      | Inr seen \<Rightarrow>
          (case update_gateway_key (pp_tenant_id p) ''routing'' (JList (map JStr seen)) ts of
             Inl e \<Rightarrow> ((ts, rows), Inl e)
           | Inr (ts', cfg) \<Rightarrow>
               ((ts', record_action ok now p ''routing.update'' (Some ''/v1/gateway/routing'') None None []
                   [(''order'', JList (map JStr seen))] rows),
                make_routing_view s (Some [(''gateway'', JObj [(''routing'', JList (map JStr seen))])]))))"

section \<open>Governance feed and feedback\<close>

definition GOVERNANCE_ACTIONS :: "string list" where
  "GOVERNANCE_ACTIONS =
     [''policy.update'', ''routing.update'', ''prompt.update'', ''prompt.activate'', ''signup'',
      ''invite.create'']"

definition governance_events :: "nat \<Rightarrow> principal \<Rightarrow> audit_log \<Rightarrow> audit_log" where
  "governance_events n p rows =
     take n (rev (filter (\<lambda>a. au_tenant_id a = pp_tenant_id p \<and>
       au_action a \<in> set GOVERNANCE_ACTIONS) rows))"

record feedback_summary =
  fs_window_hours :: int
  fs_up :: nat
  fs_down :: nat
  fs_corrections :: nat
  fs_helpful_rate :: rat
  fs_recent :: "(int \<times> string \<times> int \<times> string option) list"

definition summarize_feedback ::
  "int \<Rightarrow> (int \<times> string \<times> int \<times> string option) list \<Rightarrow> feedback_summary" where
  "summarize_feedback hours rows =
     (let up = length (filter (\<lambda>(_, _, r, _). r \<ge> 0) rows);
          down = length (filter (\<lambda>(_, _, r, _). r < 0) rows);
          corrections = filter (\<lambda>(_, _, _, c). str_true c) rows;
          tot = up + down
      in \<lparr> fs_window_hours = hours, fs_up = up, fs_down = down,
           fs_corrections = length corrections,
           fs_helpful_rate = (if tot \<noteq> 0 then py_round (of_nat up / of_nat tot) 4 else 0),
           fs_recent = take 25 corrections \<rparr>)"

section \<open>Lemmas\<close>

lemma tally_fold:
  "ty_ok (foldl tally_row t rows) = ty_ok t + length (filter (\<lambda>r. ur_status (us_record r) \<noteq> ''quota_denied'' \<and>
       ur_status (us_record r) \<noteq> ''error'') rows) \<and>
   ty_errors (foldl tally_row t rows) = ty_errors t + length (filter (\<lambda>r. ur_status (us_record r) = ''error'') rows) \<and>
   ty_denied (foldl tally_row t rows) =
     ty_denied t + length (filter (\<lambda>r. ur_status (us_record r) = ''quota_denied'') rows)"
  by (induction rows arbitrary: t) (auto simp: tally_row_def Let_def)

lemma usage_counts:
  "sm_ok (summarize_usage h rows q) = length (filter (\<lambda>r. ur_status (us_record r) \<noteq> ''quota_denied'' \<and>
     ur_status (us_record r) \<noteq> ''error'') rows) \<and>
   sm_requests (summarize_usage h rows q) =
     length (filter (\<lambda>r. ur_status (us_record r) \<noteq> ''quota_denied'') rows)"
proof -
  have "length (filter (\<lambda>r. ur_status (us_record r) \<noteq> ''quota_denied'') rows) =
      length (filter (\<lambda>r. ur_status (us_record r) \<noteq> ''quota_denied'' \<and>
        ur_status (us_record r) \<noteq> ''error'') rows) +
      length (filter (\<lambda>r. ur_status (us_record r) = ''error'') rows)"
    by (induction rows) auto
  then show ?thesis
    using tally_fold [of no_tally rows] by (simp add: summarize_usage_def Let_def no_tally_def)
qed

text \<open>A prompt that the guard blocked counts as a request that reached the model, and as a success.\<close>

lemma blocked_counts_as_ok:
  "sm_ok (summarize_usage h [usage_row ctx t (sample_usage n ''blocked'')] q) = 1"
  using usage_counts [of h "[usage_row ctx t (sample_usage n ''blocked'')]" q]
  by (simp add: sample_usage_def)

lemma interpolate_between:
  fixes a b t :: rat
  assumes "a \<le> b" "0 \<le> t" "t \<le> 1"
  shows "a \<le> a + (b - a) * t \<and> a + (b - a) * t \<le> b"
proof -
  have "0 \<le> (b - a) * t" using assms by simp
  moreover have "(b - a) * t \<le> (b - a) * 1" using assms by (intro mult_left_mono) auto
  ultimately show ?thesis by simp
qed

lemma set_tenant_find:
  "find (\<lambda>t. tn_id t = i) (set_tenant_settings tid d ts) =
     (if i = tid then map_option (\<lambda>t. t\<lparr> tn_settings := Some d \<rparr>) (find (\<lambda>t. tn_id t = tid) ts)
      else find (\<lambda>t. tn_id t = i) ts)"
  by (induction ts) (auto simp: set_tenant_settings_def)

lemma update_gateway_key_Inr:
  assumes "update_gateway_key tid key v ts = Inr (ts', cfg)"
  shows "\<exists>d. load_tenant_settings (tenant_db ts') tid = Some d \<and> dget d ''gateway'' = JObj cfg \<and>
      dget cfg key = v \<and> d \<noteq> []"
    and "i \<noteq> tid \<Longrightarrow> load_tenant_settings (tenant_db ts') i = load_tenant_settings (tenant_db ts) i"
proof -
  obtain t cfg0 where t: "find (\<lambda>t. tn_id t = tid) ts = Some t"
    and c: "cfg = dset cfg0 key v"
    and ts': "ts' = set_tenant_settings tid
      (dset (case tn_settings t of None \<Rightarrow> [] | Some d \<Rightarrow> d) ''gateway'' (JObj cfg)) ts"
    using assms by (auto simp: update_gateway_key_def try_bind_eq_Inr Let_def split: option.splits)
  have ne: "dset d k w \<noteq> []" for d :: "(string \<times> json) list" and k w
    by (cases d) (auto split: if_splits)
  have db: "tenant_db ts' tid =
      Some (Some (dset (case tn_settings t of None \<Rightarrow> [] | Some d \<Rightarrow> d) ''gateway'' (JObj cfg)))"
    by (simp add: tenant_db_def ts' set_tenant_find t)
  show "\<exists>d. load_tenant_settings (tenant_db ts') tid = Some d \<and> dget d ''gateway'' = JObj cfg \<and>
      dget cfg key = v \<and> d \<noteq> []"
    by (intro exI [of _ "dset (case tn_settings t of None \<Rightarrow> [] | Some d \<Rightarrow> d) ''gateway'' (JObj cfg)"])
      (simp add: load_tenant_settings_def db ne c)
  show "load_tenant_settings (tenant_db ts') i = load_tenant_settings (tenant_db ts) i" if "i \<noteq> tid"
    using that by (simp add: load_tenant_settings_def tenant_db_def ts' set_tenant_find)
qed

definition policy_of :: "policy_update \<Rightarrow> policy" where
  "policy_of b = \<lparr> pol_enabled = pu_enabled b,
     allowed_models = map strip (filter (\<lambda>m. strip m \<noteq> []) (pu_allowed_models b)),
     max_tokens_per_request = pu_max_tokens b, allow_cloud = pu_allow_cloud b,
     jailbreak_guard = pu_jailbreak_guard b \<rparr>"

lemma clean_stripped: "clean_models (map JStr (map strip (filter (\<lambda>m. strip m \<noteq> []) ms))) =
    map strip (filter (\<lambda>m. strip m \<noteq> []) ms)"
  by (induction ms) (auto simp: clean_models_def)

lemma resolve_stored_policy:
  assumes "dget d ''gateway'' = JObj cfg" "dget cfg ''policy'' = JObj (policy_dict b)" "d \<noteq> []"
    and "0 \<le> pu_max_tokens b"
  shows "resolve_policy (Some d) = Inr (policy_of b)"
proof -
  have ne: "cfg \<noteq> []" using assms(2) by (auto simp: dget_def dget_or_def)
  have "gateway_block (Some d) ''policy'' = Inr (JObj (policy_dict b))"
    using assms(1-3) ne by (simp add: gateway_block_def gateway_get_def por_def policy_dict_def)
  then show ?thesis
    using assms(4) clean_stripped [of "pu_allowed_models b"]
    by (simp add: resolve_policy_def policy_dict_def jget_or_def dget_def dget_or_def por_def
        coerce_int_def policy_of_def) (simp add: clean_models_def)
qed

section \<open>Properties\<close>

text \<open>
  The policy an owner saves is the policy that governs: after a successful update, the stored settings
  resolve to exactly what was posted, with the model names stripped, and no other tenant is affected.
\<close>

theorem update_policy_roundtrip:
  assumes "update_policy ok now p b ts rows = ((ts', rows'), Inr pol)" and "0 \<le> pu_max_tokens b"
  shows "get_policy ts' p = Inr (policy_of b) \<and> pol = policy_of b \<and>
    (i = pp_tenant_id p \<or>
       load_tenant_settings (tenant_db ts') i = load_tenant_settings (tenant_db ts) i)"
proof -
  obtain cfg where u: "update_gateway_key (pp_tenant_id p) ''policy'' (JObj (policy_dict b)) ts = Inr (ts', cfg)"
    and pol: "resolve_policy (Some [(''gateway'', JObj cfg)]) = Inr pol"
    using assms(1) by (auto simp: update_policy_def split: sum.splits)
  obtain d where d: "load_tenant_settings (tenant_db ts') (pp_tenant_id p) = Some d"
    "dget d ''gateway'' = JObj cfg" "dget cfg ''policy'' = JObj (policy_dict b)" "d \<noteq> []"
    using update_gateway_key_Inr(1) [OF u] by blast
  have "resolve_policy (Some [(''gateway'', JObj cfg)]) = Inr (policy_of b)"
    using d assms(2) by (intro resolve_stored_policy) (simp_all add: dget_def dget_or_def)
  then show ?thesis
    using pol resolve_stored_policy [OF d(2,3,4) assms(2)] d(1) update_gateway_key_Inr(2) [OF u, of i]
    by (auto simp: get_policy_def)
qed

definition sample_policy_update :: policy_update where
  "sample_policy_update = \<lparr> pu_enabled = True, pu_allowed_models = [], pu_max_tokens = 100,
     pu_allow_cloud = False, pu_jailbreak_guard = True \<rparr>"

theorem update_policy_roundtrip_witness:
  "\<exists>ts'. get_policy ts' sample_principal = Inr (policy_of sample_policy_update) \<and>
     \<not> allow_cloud (policy_of sample_policy_update)"
proof -
  have f: "find (\<lambda>t. tn_id t = pp_tenant_id sample_principal) [sample_tenant] = Some sample_tenant"
    by (simp add: sample_principal_def sample_tenant_def)
  have s: "tn_settings sample_tenant = None" by (simp add: sample_tenant_def)
  have g: "gateway_cfg None = Inr []" by (simp add: gateway_cfg_def por_def dget_def dget_or_def)
  obtain ts' cfg where u: "update_gateway_key (pp_tenant_id sample_principal) ''policy''
      (JObj (policy_dict sample_policy_update)) [sample_tenant] = Inr (ts', cfg)"
    and c: "cfg = [(''policy'', JObj (policy_dict sample_policy_update))]"
    by (simp add: update_gateway_key_def f s g Let_def del: find.simps)
  have r: "resolve_policy (Some [(''gateway'', JObj cfg)]) = Inr (policy_of sample_policy_update)"
    by (rule resolve_stored_policy)
      (simp add: dget_def dget_or_def, simp add: dget_def dget_or_def c, simp, simp add: sample_policy_update_def)
  have "update_policy True 0 sample_principal sample_policy_update [sample_tenant] [] =
      ((ts', record_action True 0 sample_principal ''policy.update'' (Some ''/v1/gateway/policy'') None
         None [] (policy_dict sample_policy_update) []), Inr (policy_of sample_policy_update))"
    by (simp add: update_policy_def u r)
  from update_policy_roundtrip [OF this] show ?thesis
    by (auto simp: sample_policy_update_def policy_of_def)
qed

text \<open>
  A percentile lies between the smallest and the largest value, up to the rounding that is applied to it.
\<close>

theorem percentile_between:
  assumes "values \<noteq> []" and "0 \<le> p" and "p \<le> 1"
  shows "\<exists>x. percentile values p = Some x \<and>
    py_round (Min (set values)) 2 \<le> x \<and> x \<le> py_round (Max (set values)) 2"
proof -
  let ?o = "sort values" and ?k = "of_nat (length values - 1) * p"
  let ?lo = "nat \<lfloor>?k\<rfloor>"
  let ?hi = "min (?lo + 1) (length values - 1)"
  have k: "0 \<le> ?k" "?k \<le> of_nat (length values - 1)"
    using assms(2,3) by (simp_all add: mult_left_le)
  have lo: "?lo \<le> length values - 1"
    using floor_mono [OF k(2)] k(1) by (simp add: nat_le_iff)
  have in_set: "?o ! i \<in> set values" if "i \<le> length values - 1" for i
    using that assms(1) by (metis Suc_pred' length_greater_0_conv less_Suc_eq_le length_sort nth_mem set_sort)
  have bounds: "Min (set values) \<le> ?o ! i \<and> ?o ! i \<le> Max (set values)" if "i \<le> length values - 1" for i
    using in_set [OF that] by simp
  have mono: "?o ! ?lo \<le> ?o ! ?hi"
    using lo assms(1) by (intro sorted_nth_mono) (auto simp: min_def Suc_le_eq)
  have frac: "0 \<le> ?k - of_nat ?lo" "?k - of_nat ?lo \<le> 1"
    using k(1) by (simp_all add: of_nat_nat) linarith+
  let ?x = "?o ! ?lo + (?o ! ?hi - ?o ! ?lo) * (?k - of_nat ?lo)"
  have "?o ! ?lo \<le> ?x \<and> ?x \<le> ?o ! ?hi" by (rule interpolate_between [OF mono frac])
  moreover have "?hi \<le> length values - 1" by simp
  ultimately have x: "Min (set values) \<le> ?x" "?x \<le> Max (set values)"
    using bounds [OF lo] bounds [of ?hi] by linarith+
  show ?thesis
  proof (cases "length values = 1")
    case True
    then have "percentile values p = Some (py_round (?o ! 0) 2)"
      using assms(1) by (simp add: percentile_def Let_def)
    then show ?thesis using bounds [of 0] by (simp add: py_round_mono)
  next
    case False
    then have "percentile values p = Some (py_round ?x 2)"
      using assms(1) by (simp add: percentile_def Let_def)
    then show ?thesis using x by (simp add: py_round_mono)
  qed
qed

theorem percentile_between_witness:
  "\<exists>x. percentile [3, 1, 2] (95 / 100) = Some x \<and> x \<le> py_round (Max (set [3, 1, 2])) 2"
  using percentile_between [of "[3, 1, 2]" "95 / 100"] by auto

end
