(* ===== verification/PyValues.thy ===== *)
theory PyValues
  imports PyJson
begin

text \<open>
  Conversions to \<open>float\<close>, decimal texts of floats, and the ISO format of UTC times.
\<close>

section \<open>Floats\<close>

text \<open>
  The range of a double: a magnitude that rounds above the largest finite double is infinite.
\<close>

definition FLOAT_LIMIT :: rat where
  "FLOAT_LIMIT = 2 ^ 1024 - 2 ^ 970"

definition to_float :: "rat \<Rightarrow> pyfloat" where
  "to_float x = (if FLOAT_LIMIT \<le> x then PosInf else if x \<le> - FLOAT_LIMIT then NegInf else Fin x)"

text \<open>
  \<open>float(s)\<close> of a string: white space around it, a sign, \<open>inf\<close>, \<open>infinity\<close> or \<open>nan\<close>
  in any case, or digits with an optional point and exponent; single underscores between digits.
\<close>

definition digits_of :: "string \<Rightarrow> int option" where
  "digits_of s = digits_int 0 False s"

definition mantissa :: "string \<Rightarrow> rat option" where
  "mantissa s =
     (case find_sub ''.'' s of
        None \<Rightarrow> map_option of_int (digits_of s)
      | Some i \<Rightarrow>
          let a = take i s; b = drop (Suc i) s;
              frac = (\<lambda>n. of_int n / 10 ^ length (filter is_digit b)) in
          if a = [] then map_option frac (digits_of b)
          else if b = [] then map_option of_int (digits_of a)
          else (case (digits_of a, digits_of b) of
              (Some m, Some n) \<Rightarrow> Some (of_int m + frac n)
            | _ \<Rightarrow> None))"

definition exponent :: "string \<Rightarrow> int option" where
  "exponent s =
     (case s of
        [] \<Rightarrow> None
      | c # cs \<Rightarrow>
          if c = CHR ''-'' then map_option uminus (digits_of cs)
          else if c = CHR ''+'' then digits_of cs
          else digits_of s)"

definition scale10 :: "rat \<Rightarrow> int \<Rightarrow> rat" where
  "scale10 x e = (if 0 \<le> e then x * 10 ^ nat e else x / 10 ^ nat (- e))"

definition unsigned_float :: "string \<Rightarrow> pyfloat option" where
  "unsigned_float s =
     (let l = lower s in
       if l = ''inf'' \<or> l = ''infinity'' then Some PosInf
       else if l = ''nan'' then Some NaN
       else (case find_sub ''e'' l of
           None \<Rightarrow> map_option to_float (mantissa l)
         | Some i \<Rightarrow>
             (case (mantissa (take i l), exponent (drop (Suc i) l)) of
                (Some m, Some e) \<Rightarrow> Some (to_float (scale10 m e))
              | _ \<Rightarrow> None)))"

fun fneg :: "pyfloat \<Rightarrow> pyfloat" where
  "fneg (Fin x) = Fin (- x)"
| "fneg PosInf = NegInf"
| "fneg NegInf = PosInf"
| "fneg NaN = NaN"

definition str_float :: "string \<Rightarrow> pyfloat option" where
  "str_float s =
     (case strip s of
        [] \<Rightarrow> None
      | c # cs \<Rightarrow>
          if c = CHR ''-'' then map_option fneg (unsigned_float cs)
          else if c = CHR ''+'' then unsigned_float cs
          else unsigned_float (c # cs))"

fun py_float :: "json \<Rightarrow> exn + pyfloat" where
  "py_float (JBool b) = Inr (Fin (if b then 1 else 0))"
| "py_float (JInt i) =
     (case to_float (of_int i) of Fin x \<Rightarrow> Inr (Fin x) | _ \<Rightarrow> Inl (PyExc OverflowError))"
| "py_float (JFloat x _) = Inr x"
| "py_float (JStr s) = (case str_float s of Some x \<Rightarrow> Inr x | None \<Rightarrow> Inl (PyExc ValueError))"
| "py_float _ = Inl (PyExc TypeError)"

text \<open>
  The text of a float with at most \<open>n\<close> decimals: no trailing zeros, at least one decimal.
  This is what \<open>repr\<close> prints for a multiple of \<open>10^-n\<close> of at most fifteen significant digits
  whose magnitude is at least \<open>10^-4\<close>.
\<close>

fun pad_left :: "nat \<Rightarrow> string \<Rightarrow> string" where
  "pad_left n s = replicate (n - length s) (CHR ''0'') @ s"

definition decimal_text :: "nat \<Rightarrow> rat \<Rightarrow> string" where
  "decimal_text n x =
     (let k = round_int (\<bar>x\<bar> * 10 ^ n);
          whole = nat_str (nat (k div 10 ^ n));
          frac = rstrip_of (\<lambda>c. c = CHR ''0'') (pad_left n (nat_str (nat (k mod 10 ^ n))))
      in (if x < 0 then ''-'' else []) @ whole @ ''.'' @ (if frac = [] then ''0'' else frac))"

definition decimal_json :: "nat \<Rightarrow> rat \<Rightarrow> json" where
  "decimal_json n x = JFloat (Fin (py_round x n)) (decimal_text n x)"

section \<open>Times\<close>

text \<open>
  A time is a number of microseconds since 1970 in UTC.  \<open>isoformat\<close> prints it with the offset
  \<open>+00:00\<close>, the microseconds only when there are any.  The date is computed on years that start in
  March, in eras of 400 years.
\<close>

definition civil :: "int \<Rightarrow> int \<times> int \<times> int" where
  "civil days =
     (let z = days + 719468; era = z div 146097; doe = z mod 146097;
          yoe = (doe - doe div 1460 + doe div 36524 - doe div 146096) div 365;
          doy = doe - (365 * yoe + yoe div 4 - yoe div 100);
          mp = (5 * doy + 2) div 153;
          d = doy - (153 * mp + 2) div 5 + 1;
          m = (if mp < 10 then mp + 3 else mp - 9)
      in (yoe + era * 400 + (if m \<le> 2 then 1 else 0), m, d))"

definition pad_int :: "nat \<Rightarrow> int \<Rightarrow> string" where
  "pad_int n i = pad_left n (nat_str (nat i))"

definition isoformat :: "int \<Rightarrow> string" where
  "isoformat us =
     (let secs = us div 1000000; frac = us mod 1000000;
          (y, m, d) = civil (secs div 86400); t = secs mod 86400 in
       pad_int 4 y @ ''-'' @ pad_int 2 m @ ''-'' @ pad_int 2 d @ ''T'' @
       pad_int 2 (t div 3600) @ '':'' @ pad_int 2 (t div 60 mod 60) @ '':'' @ pad_int 2 (t mod 60) @
       (if frac = 0 then [] else ''.'' @ pad_int 6 frac) @ ''+00:00'')"

text \<open>\<open>t.timestamp()\<close>\<close>

definition timestamp :: "int \<Rightarrow> json" where
  "timestamp us = decimal_json 6 (of_int us / 1000000)"

lemma timestamp_float: "timestamp us = JFloat (Fin (of_int us / 1000000)) (decimal_text 6 (of_int us / 1000000))"
  by (simp add: timestamp_def decimal_json_def py_round_def)

lemma isoformat_examples:
  "isoformat 0 = ''1970-01-01T00:00:00+00:00''"
  "isoformat 951782400000001 = ''2000-02-29T00:00:00.000001+00:00''"
  by code_simp+

end
