(* ===== verification/Connectors.thy ===== *)
theory Connectors
  imports PyValues GatewayAdmin
begin

text \<open>
  Web connectors: the crawl sources an owner configures (\<open>core/connectors.py\<close>,
  \<open>api/routes/connectors.py\<close>), the worker that runs one and the scheduler tick that enqueues those
  that are due (\<open>indexing/tasks.py\<close>).  A connector is a JSON object in the tenant's settings.
  The crawl itself is a parameter: the outcome of each page, and the exception that ended it, if any.
\<close>

section \<open>Definitions of connectors\<close>

definition DEFAULT_MAX_PAGES :: int where "DEFAULT_MAX_PAGES = 50"
definition MAX_MAX_PAGES :: int where "MAX_MAX_PAGES = 2000"
definition DEFAULT_MAX_DEPTH :: int where "DEFAULT_MAX_DEPTH = 2"
definition MAX_MAX_DEPTH :: int where "MAX_MAX_DEPTH = 6"
definition RUN_HISTORY_LIMIT :: nat where "RUN_HISTORY_LIMIT = 20"

definition VALID_MODES :: "string list" where
  "VALID_MODES = [''page'', ''sitemap'', ''crawl'']"

definition clean_list :: "json \<Rightarrow> string list" where
  "clean_list v =
     (case v of
        JList vs \<Rightarrow> map (\<lambda>x. strip (py_str x)) (filter (\<lambda>x. strip (py_str x) \<noteq> []) vs)
      | _ \<Rightarrow> [])"

definition clamp :: "json \<Rightarrow> int \<Rightarrow> int \<Rightarrow> int \<Rightarrow> exn + int" where
  "clamp v dflt lo hi =
     (case py_int v of
        Inr n \<Rightarrow> Inr (max lo (min hi n))
      | Inl e \<Rightarrow> if e = PyExc TypeError \<or> e = PyExc ValueError then Inr dflt else Inl e)"

text \<open>\<open>interval not in (None, "", 0)\<close>: membership is by \<open>==\<close>, so \<open>False\<close> and \<open>0.0\<close> count as 0.\<close>

definition no_interval :: "json \<Rightarrow> bool" where
  "no_interval v = (v = JNull \<or> v = JStr [] \<or> v = JInt 0 \<or> v = JBool False \<or>
     (case v of JFloat x _ \<Rightarrow> x = Fin 0 | _ \<Rightarrow> False))"

definition str_or_null :: "string \<Rightarrow> json" where
  "str_or_null s = (if s = [] then JNull else JStr s)"

definition interval_minutes :: "json \<Rightarrow> exn + json" where
  "interval_minutes v =
     (if no_interval v then Inr JNull
      else try_bind (clamp v 60 5 (7 * 24 * 60)) (\<lambda>n. Inr (JInt n)))"

definition connector_mode :: "jdict \<Rightarrow> string" where
  "connector_mode raw =
     (let m = lower (py_str (por (dget raw ''mode'') (JStr ''crawl''))) in
       if m \<in> set VALID_MODES then m else ''crawl'')"

text \<open>Copying the fields of one dict that satisfy a test over another dict.\<close>

fun keep_fields :: "(string \<Rightarrow> bool) \<Rightarrow> jdict \<Rightarrow> jdict \<Rightarrow> string list \<Rightarrow> jdict" where
  "keep_fields P src out [] = out"
| "keep_fields P src out (k # ks) =
     keep_fields P src (if P k then dset out k (dget src k) else out) ks"

definition normalize_connector :: "jdict \<Rightarrow> exn + jdict" where
  "normalize_connector raw =
     try_bind (clamp (dget raw ''max_pages'') DEFAULT_MAX_PAGES 1 MAX_MAX_PAGES) (\<lambda>pages.
     try_bind (clamp (dget raw ''max_depth'') DEFAULT_MAX_DEPTH 0 MAX_MAX_DEPTH) (\<lambda>depth.
     try_bind (interval_minutes (dget raw ''schedule_interval_minutes'')) (\<lambda>interval.
     try_bind (py_iter (por (dget raw ''runs'') (JList []))) (\<lambda>runs.
       let out =
         [(''name'', JStr (take 128 (strip (py_str (por (dget raw ''name'') (JStr ''Untitled connector'')))))),
          (''mode'', JStr (connector_mode raw)),
          (''start_urls'', JList (map JStr (take 50 (clean_list (dget raw ''start_urls''))))),
          (''url_prefix'', if truthy (dget raw ''url_prefix'')
             then str_or_null (strip (py_str (dget raw ''url_prefix''))) else JNull),
          (''include'', JList (map JStr (take 50 (clean_list (dget raw ''include''))))),
          (''exclude'', JList (map JStr (take 50 (clean_list (dget raw ''exclude''))))),
          (''max_pages'', JInt pages),
          (''max_depth'', JInt depth),
          (''doc_type'', if truthy (dget raw ''doc_type'')
             then str_or_null (take 64 (lower (strip (py_str (dget raw ''doc_type''))))) else JNull),
          (''enabled'', JBool (truthy (dget_or raw ''enabled'' (JBool True)))),
          (''schedule_interval_minutes'', interval)];
         kept = keep_fields (\<lambda>k. dget raw k \<noteq> JNull) raw out [''id'', ''created_at'', ''last_run_at'']
       in Inr (dset kept ''runs'' (JList runs))))))"

definition list_connectors :: "tenant_settings \<Rightarrow> json list" where
  "list_connectors settings =
     (case settings of
        None \<Rightarrow> []
      | Some d \<Rightarrow>
          (case dget d ''connectors'' of
             JObj block \<Rightarrow> (case dget block ''items'' of JList items \<Rightarrow> items | _ \<Rightarrow> [])
           | _ \<Rightarrow> []))"

text \<open>The loops over the items raise at the first item that is not an object.\<close>

fun find_item :: "json list \<Rightarrow> string \<Rightarrow> exn + jdict option" where
  "find_item [] cid = Inr None"
| "find_item (JObj c # cs) cid = (if dget c ''id'' = JStr cid then Inr (Some c) else find_item cs cid)"
| "find_item (_ # cs) cid = Inl (PyExc AttributeError)"

definition find_connector :: "tenant_settings \<Rightarrow> string \<Rightarrow> exn + jdict option" where
  "find_connector settings cid = find_item (list_connectors settings) cid"

fun upsert_loop :: "jdict \<Rightarrow> bool \<Rightarrow> json list \<Rightarrow> exn + json list" where
  "upsert_loop con replaced [] = Inr (if replaced then [] else [JObj con])"
| "upsert_loop con replaced (JObj c # cs) =
     (if dget c ''id'' = dget con ''id''
      then try_bind (upsert_loop con True cs) (\<lambda>r. Inr (JObj con # r))
      else try_bind (upsert_loop con replaced cs) (\<lambda>r. Inr (JObj c # r)))"
| "upsert_loop con replaced (_ # cs) = Inl (PyExc AttributeError)"

definition upsert_connector :: "json list \<Rightarrow> jdict \<Rightarrow> exn + json list" where
  "upsert_connector items con = upsert_loop con False items"

fun remove_connector :: "json list \<Rightarrow> string \<Rightarrow> exn + json list" where
  "remove_connector [] cid = Inr []"
| "remove_connector (JObj c # cs) cid =
     try_bind (remove_connector cs cid) (\<lambda>r.
       Inr (if dget c ''id'' = JStr cid then r else JObj c # r))"
| "remove_connector (_ # cs) cid = Inl (PyExc AttributeError)"

definition append_run :: "jdict \<Rightarrow> jdict \<Rightarrow> exn + jdict" where
  "append_run con run =
     try_bind (py_iter (por (dget con ''runs'') (JList []))) (\<lambda>old.
       Inr (dset (dset con ''runs'' (JList (take RUN_HISTORY_LIMIT (JObj run # old))))
         ''last_run_at'' (por (dget run ''finished_at'') (dget run ''started_at''))))"

text \<open>The comparison of floats: with a special value it follows IEEE.\<close>

fun fle :: "pyfloat \<Rightarrow> pyfloat \<Rightarrow> bool" where
  "fle NaN _ = False"
| "fle _ NaN = False"
| "fle x y = (\<not> flt y x)"

fun fsub :: "pyfloat \<Rightarrow> pyfloat \<Rightarrow> pyfloat" where
  "fsub (Fin x) (Fin y) = to_float (x - y)"
| "fsub NaN _ = NaN"
| "fsub _ NaN = NaN"
| "fsub PosInf PosInf = NaN"
| "fsub NegInf NegInf = NaN"
| "fsub PosInf _ = PosInf"
| "fsub NegInf _ = NegInf"
| "fsub _ PosInf = NegInf"
| "fsub _ NegInf = PosInf"

fun fmul60 :: "pyfloat \<Rightarrow> pyfloat" where
  "fmul60 (Fin x) = to_float (x * 60)"
| "fmul60 x = x"

definition is_due :: "jdict \<Rightarrow> rat \<Rightarrow> exn + bool" where
  "is_due c now =
     (if \<not> truthy (dget_or c ''enabled'' (JBool True)) then Inr False
      else
        let interval = dget c ''schedule_interval_minutes''; prev = dget c ''last_run_epoch'' in
        if \<not> truthy interval then Inr False
        else if prev = JNull then Inr True
        else try_bind (py_float prev) (\<lambda>l. try_bind (py_float interval) (\<lambda>i.
          Inr (fle (fmul60 i) (fsub (Fin now) l)))))"

section \<open>Routes\<close>

record connector_body =
  cb_name :: string
  cb_mode :: string
  cb_start_urls :: "string list"
  cb_url_prefix :: "string option"
  cb_include :: "string list"
  cb_exclude :: "string list"
  cb_max_pages :: int
  cb_max_depth :: int
  cb_doc_type :: "string option"
  cb_enabled :: bool
  cb_interval :: "int option"

definition opt_str :: "string option \<Rightarrow> json" where
  "opt_str x = (case x of None \<Rightarrow> JNull | Some s \<Rightarrow> JStr s)"

definition model_dump :: "connector_body \<Rightarrow> jdict" where
  "model_dump b =
     [(''name'', JStr (cb_name b)), (''mode'', JStr (cb_mode b)),
      (''start_urls'', JList (map JStr (cb_start_urls b))), (''url_prefix'', opt_str (cb_url_prefix b)),
      (''include'', JList (map JStr (cb_include b))), (''exclude'', JList (map JStr (cb_exclude b))),
      (''max_pages'', JInt (cb_max_pages b)), (''max_depth'', JInt (cb_max_depth b)),
      (''doc_type'', opt_str (cb_doc_type b)), (''enabled'', JBool (cb_enabled b)),
      (''schedule_interval_minutes'', case cb_interval b of None \<Rightarrow> JNull | Some i \<Rightarrow> JInt i)]"

definition settings_dict :: "tenant_settings \<Rightarrow> jdict" where
  "settings_dict ts = (case ts of None \<Rightarrow> [] | Some d \<Rightarrow> d)"

text \<open>\<open>dict(x or {})\<close> of a JSON value: an object, or a \<open>TypeError\<close>.\<close>

definition dict_or_empty :: "json \<Rightarrow> exn + jdict" where
  "dict_or_empty v =
     (case por v (JObj []) of JObj d \<Rightarrow> Inr d | _ \<Rightarrow> Inl (PyExc TypeError))"

definition save_items :: "jdict \<Rightarrow> json list \<Rightarrow> exn + jdict" where
  "save_items settings items =
     try_bind (dict_or_empty (dget settings ''connectors'')) (\<lambda>block.
       Inr (dset settings ''connectors'' (JObj (dset block ''items'' (JList items)))))"

text \<open>\<open>session.get(Tenant, id)\<close>\<close>

definition get_tenant :: "tenant list \<Rightarrow> uuid \<Rightarrow> tenant option" where
  "get_tenant ts tid = find (\<lambda>t. tn_id t = tid) ts"

definition get_connectors :: "principal \<Rightarrow> tenant list \<Rightarrow> json list" where
  "get_connectors p ts = list_connectors (load_tenant_settings (tenant_db ts) (pp_tenant_id p))"

definition store_items ::
  "uuid \<Rightarrow> jdict \<Rightarrow> (exn + json list) \<Rightarrow> tenant list \<Rightarrow> exn + tenant list" where
  "store_items tid settings items ts =
     try_bind items (\<lambda>its. try_bind (save_items settings its) (\<lambda>s.
       Inr (set_tenant_settings tid s ts)))"

definition create_connector ::
  "bool \<Rightarrow> int \<Rightarrow> string \<Rightarrow> principal \<Rightarrow> connector_body \<Rightarrow> tenant list \<times> audit_log \<Rightarrow>
   (tenant list \<times> audit_log) \<times> (exn + jdict)"
where
  "create_connector ok now cid p b st =
     (case try_bind (normalize_connector (model_dump b)) (\<lambda>c.
         let con = dset (dset (dset c ''id'' (JStr cid)) ''created_at'' (JStr (isoformat now)))
               ''runs'' (JList [])
         in case get_tenant (fst st) (pp_tenant_id p) of
              None \<Rightarrow> Inl (HTTPError 404 ''tenant not found'')
            | Some t \<Rightarrow>
                let s = settings_dict (tn_settings t) in
                try_bind (store_items (pp_tenant_id p) s (upsert_connector (list_connectors (Some s)) con) (fst st))
                  (\<lambda>ts'. Inr (ts', con))) of
        Inl e \<Rightarrow> (st, Inl e)
      | Inr (ts', con) \<Rightarrow>
          ((ts', record_action ok now p ''connector.create'' (Some (''/v1/connectors/'' @ cid)) None None []
              [(''id'', dget con ''id''), (''name'', dget con ''name''), (''mode'', dget con ''mode'')]
              (snd st)),
           Inr con))"

definition merge_server_fields :: "jdict \<Rightarrow> jdict \<Rightarrow> jdict" where
  "merge_server_fields body old =
     keep_fields (\<lambda>k. k \<in> fst ` set old) old body
       [''created_at'', ''last_run_at'', ''last_run_epoch'', ''runs'']"

definition update_connector ::
  "bool \<Rightarrow> int \<Rightarrow> string \<Rightarrow> principal \<Rightarrow> connector_body \<Rightarrow> tenant list \<times> audit_log \<Rightarrow>
   (tenant list \<times> audit_log) \<times> (exn + jdict)"
where
  "update_connector ok now cid p b st =
     (case (case get_tenant (fst st) (pp_tenant_id p) of
         None \<Rightarrow> Inl (HTTPError 404 ''tenant not found'')
       | Some t \<Rightarrow>
           let s = settings_dict (tn_settings t) in
           try_bind (find_connector (Some s) cid) (\<lambda>found.
             case found of
               None \<Rightarrow> Inl (HTTPError 404 ''connector not found'')
             | Some old \<Rightarrow>
                 try_bind (normalize_connector
                     (merge_server_fields (dset (model_dump b) ''id'' (JStr cid)) old)) (\<lambda>con.
                 try_bind (store_items (pp_tenant_id p) s (upsert_connector (list_connectors (Some s)) con) (fst st))
                   (\<lambda>ts'. Inr (ts', con))))) of
        Inl e \<Rightarrow> (st, Inl e)
      | Inr (ts', con) \<Rightarrow>
          ((ts', record_action ok now p ''connector.update'' (Some (''/v1/connectors/'' @ cid)) None None []
              [(''id'', JStr cid), (''name'', dget con ''name'')] (snd st)),
           Inr con))"

definition delete_connector ::
  "bool \<Rightarrow> int \<Rightarrow> string \<Rightarrow> principal \<Rightarrow> tenant list \<times> audit_log \<Rightarrow>
   (tenant list \<times> audit_log) \<times> (exn + unit)"
where
  "delete_connector ok now cid p st =
     (case (case get_tenant (fst st) (pp_tenant_id p) of
         None \<Rightarrow> Inl (HTTPError 404 ''tenant not found'')
       | Some t \<Rightarrow>
           let s = settings_dict (tn_settings t) in
           try_bind (find_connector (Some s) cid) (\<lambda>found.
             case found of
               None \<Rightarrow> Inl (HTTPError 404 ''connector not found'')
             | Some old \<Rightarrow> store_items (pp_tenant_id p) s (remove_connector (list_connectors (Some s)) cid) (fst st))) of
        Inl e \<Rightarrow> (st, Inl e)
      | Inr ts' \<Rightarrow>
          ((ts', record_action ok now p ''connector.delete'' (Some (''/v1/connectors/'' @ cid)) None None []
              [(''id'', JStr cid)] (snd st)),
           Inr ()))"

text \<open>The broker: the queue of tasks, and what enqueuing the next one returns, an id or an exception.\<close>

datatype task = RunWebConnector uuid string | RunIndexer uuid | SummariseDocument uuid uuid

definition run_connector_now ::
  "bool \<Rightarrow> int \<Rightarrow> (string + string) \<Rightarrow> string \<Rightarrow> principal \<Rightarrow> tenant list \<Rightarrow> task list \<times> audit_log \<Rightarrow>
   (task list \<times> audit_log) \<times> (exn + string)"
where
  "run_connector_now ok now broker cid p ts st =
     (case get_tenant ts (pp_tenant_id p) of
        None \<Rightarrow> (st, Inl (HTTPError 404 ''tenant not found''))
      | Some t \<Rightarrow>
          (case find_connector (Some (settings_dict (tn_settings t))) cid of
             Inl e \<Rightarrow> (st, Inl e)
           | Inr None \<Rightarrow> (st, Inl (HTTPError 404 ''connector not found''))
           | Inr (Some _) \<Rightarrow>
               (case broker of
                  Inl m \<Rightarrow> (st, Inl (HTTPError 503 (''Could not enqueue crawl - the indexing worker/broker '' @
                    ''may be down: '' @ m)))
                | Inr tid \<Rightarrow>
                    ((fst st @ [RunWebConnector (pp_tenant_id p) cid],
                      record_action ok now p ''connector.run'' (Some (''/v1/connectors/'' @ cid @ ''/run''))
                        None None [] [(''id'', JStr cid), (''task_id'', JStr tid)] (snd st)),
                     Inr tid))))"

definition get_connector_runs :: "string \<Rightarrow> principal \<Rightarrow> tenant list \<Rightarrow> exn + json list" where
  "get_connector_runs cid p ts =
     try_bind (find_connector (load_tenant_settings (tenant_db ts) (pp_tenant_id p)) cid) (\<lambda>c.
       case c of
         None \<Rightarrow> Inl (HTTPError 404 ''connector not found'')
       | Some d \<Rightarrow> py_iter (por (dget d ''runs'') (JList [])))"

section \<open>Lemmas\<close>

lemma dget_keep_fields:
  "distinct ks \<Longrightarrow> dget (keep_fields P src out ks) k =
     (if k \<in> set ks \<and> P k then dget src k else dget out k)"
  by (induction ks arbitrary: out) auto

lemma dget_Nil [simp]: "dget [] k = JNull"
  by (simp add: dget_def dget_or_def)

lemma dget_Cons [simp]: "dget ((l, v) # d) k = (if l = k then v else dget d k)"
  by (simp add: dget_def dget_or_def)

lemma clamp_range: "clamp v d lo hi = Inr n \<Longrightarrow> lo \<le> d \<Longrightarrow> d \<le> hi \<Longrightarrow> lo \<le> n \<and> n \<le> hi"
  by (auto simp: clamp_def split: sum.splits if_splits)

lemma connector_mode_valid: "connector_mode raw \<in> set VALID_MODES"
  by (simp add: connector_mode_def Let_def VALID_MODES_def)

lemma normalize_fields:
  assumes "normalize_connector raw = Inr c"
  shows "\<exists>pages depth interval runs.
    clamp (dget raw ''max_pages'') DEFAULT_MAX_PAGES 1 MAX_MAX_PAGES = Inr pages \<and>
    clamp (dget raw ''max_depth'') DEFAULT_MAX_DEPTH 0 MAX_MAX_DEPTH = Inr depth \<and>
    interval_minutes (dget raw ''schedule_interval_minutes'') = Inr interval \<and>
    py_iter (por (dget raw ''runs'') (JList [])) = Inr runs \<and>
    dget c ''max_pages'' = JInt pages \<and> dget c ''max_depth'' = JInt depth \<and>
    dget c ''schedule_interval_minutes'' = interval \<and> dget c ''runs'' = JList runs \<and>
    dget c ''mode'' = JStr (connector_mode raw) \<and>
    dget c ''enabled'' = JBool (truthy (dget_or raw ''enabled'' (JBool True))) \<and>
    dget c ''start_urls'' = JList (map JStr (take 50 (clean_list (dget raw ''start_urls'')))) \<and>
    dget c ''id'' = dget raw ''id'' \<and> dget c ''last_run_at'' = dget raw ''last_run_at'' \<and>
    dget c ''last_run_epoch'' = JNull"
proof -
  let ?ks = "[''id'', ''created_at'', ''last_run_at'']"
  have k: "distinct ?ks" by simp
  from assms obtain pages depth interval runs out where
    r: "clamp (dget raw ''max_pages'') DEFAULT_MAX_PAGES 1 MAX_MAX_PAGES = Inr pages"
      "clamp (dget raw ''max_depth'') DEFAULT_MAX_DEPTH 0 MAX_MAX_DEPTH = Inr depth"
      "interval_minutes (dget raw ''schedule_interval_minutes'') = Inr interval"
      "py_iter (por (dget raw ''runs'') (JList [])) = Inr runs"
    and c: "c = dset (keep_fields (\<lambda>k. dget raw k \<noteq> JNull) raw out ?ks) ''runs'' (JList runs)"
    and out: "dget out ''max_pages'' = JInt pages" "dget out ''max_depth'' = JInt depth"
      "dget out ''schedule_interval_minutes'' = interval" "dget out ''mode'' = JStr (connector_mode raw)"
      "dget out ''enabled'' = JBool (truthy (dget_or raw ''enabled'' (JBool True)))"
      "dget out ''start_urls'' = JList (map JStr (take 50 (clean_list (dget raw ''start_urls''))))"
      "dget out ''id'' = JNull" "dget out ''last_run_at'' = JNull" "dget out ''last_run_epoch'' = JNull"
    unfolding normalize_connector_def try_bind_eq_Inr Let_def
    apply (elim exE conjE)
    apply (drule Inr_inject)
    by (rule that, assumption+, erule sym, simp_all)
  show ?thesis
    by (intro exI conjI, (rule r)+) (simp_all add: c dget_keep_fields [OF k] out del: keep_fields.simps)
qed
text \<open>Items that are objects, as the routes store them.\<close>

definition all_objects :: "json list \<Rightarrow> bool" where
  "all_objects items = list_all is_dict items"

definition item_ids :: "json list \<Rightarrow> json list" where
  "item_ids items = map (\<lambda>j. case j of JObj c \<Rightarrow> dget c ''id'' | _ \<Rightarrow> JNull) items"

lemma is_dict_obtain: "is_dict j \<Longrightarrow> \<exists>c. j = JObj c"
  by (cases j) (auto simp: is_dict_def)

lemma upsert_loop_spec:
  assumes "all_objects items"
  shows "\<exists>r. upsert_loop con b items = Inr r \<and> all_objects r \<and>
    item_ids r = item_ids items @
      (if b \<or> dget con ''id'' \<in> set (item_ids items) then [] else [dget con ''id'']) \<and>
    (\<forall>cid. JStr cid \<noteq> dget con ''id'' \<longrightarrow> find_item r cid = find_item items cid) \<and>
    (\<forall>cid. JStr cid = dget con ''id'' \<and> (\<not> b \<or> dget con ''id'' \<in> set (item_ids items)) \<longrightarrow>
       find_item r cid = Inr (Some con))"
  using assms
proof (induction items arbitrary: b)
  case Nil
  then show ?case by (auto simp: all_objects_def item_ids_def is_dict_def)
next
  case (Cons j items)
  obtain c where j: "j = JObj c" using Cons.prems is_dict_obtain by (auto simp: all_objects_def)
  have a: "all_objects items" using Cons.prems by (simp add: all_objects_def)
  show ?case
  proof (cases "dget c ''id'' = dget con ''id''")
    case True
    obtain r where "upsert_loop con True items = Inr r" "all_objects r"
      "item_ids r = item_ids items"
      "\<forall>cid. JStr cid \<noteq> dget con ''id'' \<longrightarrow> find_item r cid = find_item items cid"
      using Cons.IH [OF a, of True] by auto
    then show ?thesis using True j
      by (auto simp: all_objects_def item_ids_def is_dict_def)
  next
    case False
    obtain r where r: "upsert_loop con b items = Inr r" "all_objects r"
      "item_ids r = item_ids items @
        (if b \<or> dget con ''id'' \<in> set (item_ids items) then [] else [dget con ''id''])"
      "\<forall>cid. JStr cid \<noteq> dget con ''id'' \<longrightarrow> find_item r cid = find_item items cid"
      "\<forall>cid. JStr cid = dget con ''id'' \<and> (\<not> b \<or> dget con ''id'' \<in> set (item_ids items)) \<longrightarrow>
         find_item r cid = Inr (Some con)"
      using Cons.IH [OF a, of b] by blast
    show ?thesis
      using False j r by (auto simp: all_objects_def item_ids_def is_dict_def)
  qed
qed

lemma upsert_spec:
  assumes "all_objects items"
  obtains r where "upsert_connector items con = Inr r" "all_objects r"
    "item_ids r = (if dget con ''id'' \<in> set (item_ids items) then item_ids items
       else item_ids items @ [dget con ''id''])"
    "\<And>cid. find_item r cid = (if JStr cid = dget con ''id'' then Inr (Some con) else find_item items cid)"
  using upsert_loop_spec [OF assms, of con False] by (auto simp: upsert_connector_def)

lemma remove_spec:
  "all_objects items \<Longrightarrow> \<exists>r. remove_connector items cid = Inr r \<and> all_objects r \<and>
     item_ids r = filter (\<lambda>i. i \<noteq> JStr cid) (item_ids items) \<and> find_item r cid = Inr None"
proof (induction items)
  case (Cons j items)
  obtain c where j: "j = JObj c" using Cons.prems is_dict_obtain by (auto simp: all_objects_def)
  then show ?case using Cons by (auto simp: all_objects_def item_ids_def is_dict_def)
qed (simp add: all_objects_def item_ids_def)

end
