(* ===== verification/WebCrawl.thy ===== *)
theory WebCrawl
  imports PyJson "HOL-Library.Multiset"
begin

text \<open>
  The web connector (\<open>indexing/connectors/web.py\<close>, \<open>connectors/base.py\<close>): link extraction, the
  decision to follow, and the breadth-first crawl.  The network and the URL functions of the standard
  library are parameters: a fetch may depend on the number of requests made before it, and parsing a
  malformed URL raises.  The client follows redirects inside a fetch; the crawler sees only the page that
  arrives, under the URL it asked for.
\<close>

section \<open>Documents and configuration\<close>

record source_document =
  sd_uri :: string
  sd_data :: string
  sd_filename :: "string option"
  sd_content_type :: "string option"
  sd_title :: "string option"
  sd_metadata :: jdict

record crawl_config =
  cc_start_urls :: "string list"
  cc_mode :: string
  cc_url_prefix :: "string option"
  cc_include :: "string list"
  cc_exclude :: "string list"
  cc_max_pages :: int
  cc_max_depth :: int
  cc_doc_type :: json

text \<open>\<open>urllib.parse\<close> and \<open>html.unescape\<close>.\<close>

record urllib =
  ul_defrag :: "string \<Rightarrow> exn + string"
  ul_path :: "string \<Rightarrow> exn + string"
  ul_scheme :: "string \<Rightarrow> exn + string"
  ul_join :: "string \<Rightarrow> string \<Rightarrow> exn + string"
  ul_unescape :: "string \<Rightarrow> string"

record response =
  rs_content_type :: "string option"
  rs_content :: string
  rs_text :: string

section \<open>URLs and links\<close>

definition normalize_url :: "urllib \<Rightarrow> string \<Rightarrow> exn + string" where
  "normalize_url W url =
     try_bind (ul_defrag W (strip url)) (\<lambda>clean.
       if endswith ''/'' clean
       then try_bind (ul_path W clean) (\<lambda>p.
         Inr (if p \<noteq> [] \<and> p \<noteq> ''/'' then rstrip_of (\<lambda>c. c = CHR ''/'') clean else clean))
       else Inr clean)"

text \<open>
  The regular expressions, as functions from the text at a position to the captured group and the text
  after the match.  In each of them the repeated classes are disjoint from what follows, so the longest
  run is the only match.
\<close>

definition starts_ci :: "string \<Rightarrow> string \<Rightarrow> bool" where
  "starts_ci p s = (length p \<le> length s \<and> lower (take (length p) s) = p)"

definition skip_space :: "string \<Rightarrow> string" where
  "skip_space s = dropWhile is_space s"

definition is_quote :: "char \<Rightarrow> bool" where
  "is_quote c = (c = CHR 0x22 \<or> c = CHR 0x27)"

definition match_href :: "string \<Rightarrow> (string \<times> string) option" where
  "match_href s =
     (if \<not> starts_ci ''href'' s then None
      else case skip_space (drop 4 s) of
        [] \<Rightarrow> None
      | e # t \<Rightarrow>
          if e \<noteq> CHR ''='' then None
          else (case skip_space t of
              [] \<Rightarrow> None
            | q # u \<Rightarrow>
                if \<not> is_quote q then None
                else
                  let g = takeWhile (\<lambda>c. \<not> is_quote c \<and> c \<noteq> CHR ''#'') u; v = drop (length g) u in
                  if g \<noteq> [] \<and> v \<noteq> [] \<and> is_quote (hd v) then Some (g, tl v) else None))"

definition match_loc :: "string \<Rightarrow> (string \<times> string) option" where
  "match_loc s =
     (if \<not> starts_ci ''<loc>'' s then None
      else
        let t = skip_space (drop 5 s);
            g = takeWhile (\<lambda>c. c \<noteq> CHR ''<'' \<and> \<not> is_space c) t;
            v = skip_space (drop (length g) t)
        in if g \<noteq> [] \<and> starts_ci ''</loc>'' v then Some (g, drop 6 v) else None)"

lemma skip_space_length: "length (skip_space s) \<le> length s"
  by (simp add: skip_space_def length_dropWhile_le)

lemma match_href_shorter: "match_href s = Some (g, t) \<Longrightarrow> length t < length s"
proof -
  assume m: "match_href s = Some (g, t)"
  obtain e r where 1: "skip_space (drop 4 s) = e # r"
    using m by (auto simp: match_href_def split: if_splits list.splits)
  obtain q u where 2: "skip_space r = q # u"
    using m 1 by (auto simp: match_href_def split: if_splits list.splits)
  have "t = tl (drop (length (takeWhile (\<lambda>c. \<not> is_quote c \<and> c \<noteq> CHR ''#'') u)) u)"
    using m 1 2 by (auto simp: match_href_def Let_def split: if_splits)
  then show ?thesis using skip_space_length [of "drop 4 s"] skip_space_length [of r] 1 2 by simp
qed

lemma match_loc_shorter: "match_loc s = Some (g, t) \<Longrightarrow> length t < length s"
proof -
  assume m: "match_loc s = Some (g, t)"
  let ?t = "skip_space (drop 5 s)"
  let ?v = "skip_space (drop (length g) ?t)"
  have "t = drop 6 ?v" "starts_ci ''<loc>'' s" "starts_ci ''</loc>'' ?v"
    using m by (auto simp: match_loc_def Let_def split: if_splits)
  then show ?thesis
    using skip_space_length [of "drop 5 s"] skip_space_length [of "drop (length g) ?t"]
    by (auto simp: starts_ci_def)
qed

text \<open>\<open>findall\<close>: the matches from left to right, each search starting after the last match.\<close>

function find_hrefs :: "string \<Rightarrow> string list" where
  "find_hrefs [] = []"
| "find_hrefs (c # s) =
     (case match_href (c # s) of
        None \<Rightarrow> find_hrefs s
      | Some (g, t) \<Rightarrow> g # find_hrefs t)"
  by pat_completeness auto
termination by (relation "measure length") (auto dest: match_href_shorter)

function find_locs :: "string \<Rightarrow> string list" where
  "find_locs [] = []"
| "find_locs (c # s) =
     (case match_loc (c # s) of
        None \<Rightarrow> find_locs s
      | Some (g, t) \<Rightarrow> g # find_locs t)"
  by pat_completeness auto
termination by (relation "measure length") (auto dest: match_loc_shorter)

definition is_http :: "string \<Rightarrow> bool" where
  "is_http url = (startswith ''http://'' (lower url) \<or> startswith ''https://'' (lower url))"

fun link_loop :: "urllib \<Rightarrow> string \<Rightarrow> string list \<Rightarrow> string list \<Rightarrow> exn + string list" where
  "link_loop W base out [] = Inr out"
| "link_loop W base out (h # hs) =
     try_bind (try_bind (ul_join W base h) (normalize_url W)) (\<lambda>a.
       link_loop W base (if is_http a \<and> a \<notin> set out then out @ [a] else out) hs)"

definition extract_links :: "urllib \<Rightarrow> string \<Rightarrow> string \<Rightarrow> exn + string list" where
  "extract_links W html base = link_loop W base [] (find_hrefs html)"

fun loc_loop :: "urllib \<Rightarrow> string list \<Rightarrow> string list \<Rightarrow> exn + string list" where
  "loc_loop W out [] = Inr out"
| "loc_loop W out (l # ls) =
     try_bind (normalize_url W l) (\<lambda>u.
       loc_loop W (if u \<noteq> [] \<and> u \<notin> set out then out @ [u] else out) ls)"

definition extract_sitemap_urls :: "urllib \<Rightarrow> string \<Rightarrow> exn + string list" where
  "extract_sitemap_urls W xml = loc_loop W [] (find_locs xml)"

text \<open>The title: the text up to the first closing tag after the first opening tag that has one.\<close>

fun upto_ci :: "string \<Rightarrow> string \<Rightarrow> string option" where
  "upto_ci p [] = (if p = [] then Some [] else None)"
| "upto_ci p (c # s) = (if starts_ci p (c # s) then Some [] else map_option ((#) c) (upto_ci p s))"

definition match_title :: "string \<Rightarrow> string option" where
  "match_title s =
     (if \<not> starts_ci ''<title'' s then None
      else case dropWhile (\<lambda>c. c \<noteq> CHR ''>'') (drop 6 s) of
        [] \<Rightarrow> None
      | _ # t \<Rightarrow> upto_ci ''</title>'' t)"

fun find_title :: "string \<Rightarrow> string option" where
  "find_title [] = None"
| "find_title (c # s) = (case match_title (c # s) of None \<Rightarrow> find_title s | Some g \<Rightarrow> Some g)"

text \<open>\<open>re.sub(r"\s+", " ", s)\<close>\<close>

fun squeeze :: "bool \<Rightarrow> string \<Rightarrow> string" where
  "squeeze sp [] = []"
| "squeeze sp (c # s) =
     (if is_space c then (if sp then squeeze True s else CHR 0x20 # squeeze True s)
      else c # squeeze False s)"

definition extract_title :: "urllib \<Rightarrow> string \<Rightarrow> string option" where
  "extract_title W html =
     (case find_title html of
        None \<Rightarrow> None
      | Some g \<Rightarrow> or_none (ul_unescape W (strip (squeeze False g))))"

section \<open>What to follow\<close>

definition default_prefix :: "urllib \<Rightarrow> crawl_config \<Rightarrow> exn + string option" where
  "default_prefix W cfg =
     (case cc_start_urls cfg of
        [] \<Rightarrow> Inr None
      | first # _ \<Rightarrow>
          try_bind (ul_scheme W first) (\<lambda>scheme. try_bind (ul_path W first) (\<lambda>p.
            Inr (if scheme = [] then None
                 else Some (if CHR ''/'' \<in> set (lstrip_of (\<lambda>c. c = CHR ''/'') p)
                            then rsplit_head (CHR ''/'') first else first)))))"

definition crawl_prefix :: "urllib \<Rightarrow> crawl_config \<Rightarrow> exn + string option" where
  "crawl_prefix W cfg =
     (if str_true (cc_url_prefix cfg) then Inr (cc_url_prefix cfg) else default_prefix W cfg)"

definition should_follow :: "urllib \<Rightarrow> string \<Rightarrow> crawl_config \<Rightarrow> nat \<Rightarrow> exn + bool" where
  "should_follow W url cfg depth =
     (if \<not> is_http url then Inr False
      else if int depth > cc_max_depth cfg then Inr False
      else try_bind (crawl_prefix W cfg) (\<lambda>pre.
        Inr (\<not> (case pre of None \<Rightarrow> False | Some p \<Rightarrow> p \<noteq> [] \<and> \<not> startswith p url) \<and>
          \<not> list_ex (\<lambda>bad. contains bad url) (cc_exclude cfg) \<and>
          (cc_include cfg = [] \<or> list_ex (\<lambda>good. contains good url) (cc_include cfg)))))"

section \<open>The crawl\<close>

type_synonym fetcher = "nat \<Rightarrow> string \<Rightarrow> exn + response"

fun seed_sitemaps ::
  "urllib \<Rightarrow> fetcher \<Rightarrow> string list \<Rightarrow> (string \<times> nat) list \<Rightarrow> string list \<Rightarrow>
   (string \<times> nat) list \<times> string list" where
  "seed_sitemaps W net [] seeded reqs = (seeded, reqs)"
| "seed_sitemaps W net (sm # sms) seeded reqs =
     (case try_bind (net (length reqs) sm) (\<lambda>r. extract_sitemap_urls W (rs_text r)) of
        Inl _ \<Rightarrow> seed_sitemaps W net sms seeded (reqs @ [sm])
      | Inr urls \<Rightarrow> seed_sitemaps W net sms (seeded @ map (\<lambda>u. (u, 0)) urls) (reqs @ [sm]))"

definition seed_urls ::
  "urllib \<Rightarrow> fetcher \<Rightarrow> crawl_config \<Rightarrow> exn + ((string \<times> nat) list \<times> string list)" where
  "seed_urls W net cfg =
     try_bind (try_map (normalize_url W) (filter (\<lambda>u. strip u \<noteq> []) (cc_start_urls cfg))) (\<lambda>starts.
       Inr (if cc_mode cfg \<noteq> ''sitemap'' then (map (\<lambda>u. (u, 0)) starts, [])
            else seed_sitemaps W net starts [] []))"

text \<open>The links of a page that go to the frontier; the decision to follow may raise.\<close>

fun follow_links ::
  "urllib \<Rightarrow> crawl_config \<Rightarrow> string list \<Rightarrow> nat \<Rightarrow> string list \<Rightarrow> exn + (string \<times> nat) list" where
  "follow_links W cfg visited d [] = Inr []"
| "follow_links W cfg visited d (l # ls) =
     try_bind (if l \<in> set visited then Inr False else should_follow W l cfg d) (\<lambda>ok.
     try_bind (follow_links W cfg visited d ls) (\<lambda>rest.
       Inr (if ok then (l, d) # rest else rest)))"

definition page_type :: "response \<Rightarrow> string" where
  "page_type r = strip (takeWhile (\<lambda>c. c \<noteq> CHR '';'') (case rs_content_type r of None \<Rightarrow> [] | Some t \<Rightarrow> t))"

definition is_html_type :: "string \<Rightarrow> bool" where
  "is_html_type t = (contains ''html'' t \<or> t = [])"

definition indexable :: "string \<Rightarrow> bool" where
  "indexable t = (t = [] \<or> is_html_type t \<or> contains ''pdf'' t \<or> contains ''text'' t)"

definition page_document :: "urllib \<Rightarrow> crawl_config \<Rightarrow> string \<Rightarrow> nat \<Rightarrow> response \<Rightarrow> source_document" where
  "page_document W cfg url depth r =
     (let t = page_type r; name = rsplit_last (CHR ''/'') url in
       \<lparr> sd_uri = url, sd_data = rs_content r,
         sd_filename = Some (if name = [] then ''page'' else name),
         sd_content_type = Some (if t = [] then ''text/html'' else t),
         sd_title = (if is_html_type t then extract_title W (rs_text r) else None),
         sd_metadata = [(''connector'', JStr ''web''), (''doc_type'', cc_doc_type cfg),
           (''crawl_depth'', JInt (int depth))] \<rparr>)"

definition page_links ::
  "urllib \<Rightarrow> crawl_config \<Rightarrow> string list \<Rightarrow> string \<Rightarrow> nat \<Rightarrow> response \<Rightarrow> exn + (string \<times> nat) list" where
  "page_links W cfg visited url depth r =
     (if cc_mode cfg = ''crawl'' \<and> is_html_type (page_type r) \<and> int depth < cc_max_depth cfg
      then try_bind (extract_links W (rs_text r) url) (follow_links W cfg visited (Suc depth))
      else Inr [])"

record crawl_run =
  cr_docs :: "source_document list"
  cr_requests :: "string list"
  cr_error :: "exn option"

text \<open>How much of the crawl is left: the depths below the bound of the frontier's entries.\<close>

definition depth_left :: "crawl_config \<Rightarrow> string \<times> nat \<Rightarrow> nat" where
  "depth_left cfg e = nat (cc_max_depth cfg + 1 - int (snd e))"

lemma should_follow_depth: "should_follow W u cfg d = Inr True \<Longrightarrow> int d \<le> cc_max_depth cfg"
  by (auto simp: should_follow_def split: if_splits)

lemma follow_links_spec:
  "follow_links W cfg visited d ls = Inr es \<Longrightarrow> (u, e) \<in> set es \<Longrightarrow>
     e = d \<and> u \<in> set ls \<and> u \<notin> set visited \<and> should_follow W u cfg d = Inr True"
  by (induction ls arbitrary: es) (auto simp: try_bind_eq_Inr split: if_splits)

lemma page_links_deeper:
  assumes "page_links W cfg visited u d r = Inr es" and "e \<in> set es"
  shows "depth_left cfg e < depth_left cfg (u, d)"
proof -
  obtain l k where e: "e = (l, k)" by (cases e)
  obtain ls where "follow_links W cfg visited (Suc d) ls = Inr es"
    using assms by (auto simp: page_links_def try_bind_eq_Inr split: if_splits)
  from follow_links_spec [OF this, of l k] assms(2) e should_follow_depth [of W l cfg "Suc d"]
  show ?thesis by (simp add: depth_left_def)
qed

function crawl_loop ::
  "urllib \<Rightarrow> fetcher \<Rightarrow> crawl_config \<Rightarrow> string list \<Rightarrow> (string \<times> nat) list \<Rightarrow> crawl_run \<Rightarrow> crawl_run"
where
  "crawl_loop W net cfg visited [] run = run"
| "crawl_loop W net cfg visited ((url, depth) # rest) run =
     (if int (length (cr_docs run)) \<ge> cc_max_pages cfg then run
      else if url \<in> set visited then crawl_loop W net cfg visited rest run
      else
        let run1 = run\<lparr> cr_requests := cr_requests run @ [url] \<rparr>; seen = url # visited in
        case net (length (cr_requests run)) url of
          Inl _ \<Rightarrow> crawl_loop W net cfg seen rest run1
        | Inr r \<Rightarrow>
            if \<not> indexable (page_type r) then crawl_loop W net cfg seen rest run1
            else
              let run2 = run1\<lparr> cr_docs := cr_docs run @ [page_document W cfg url depth r] \<rparr> in
              case page_links W cfg seen url depth r of
                Inl e \<Rightarrow> run2\<lparr> cr_error := Some e \<rparr>
              | Inr new \<Rightarrow> crawl_loop W net cfg seen (rest @ new) run2)"
  by pat_completeness auto
termination
proof (relation "inv_image (mult less_than) (\<lambda>(W, net, cfg, visited, frontier, run).
    image_mset (depth_left cfg) (mset frontier))")
  show "wf (inv_image (mult less_than) (\<lambda>(W, net, cfg, visited, frontier, run).
    image_mset (depth_left cfg) (mset frontier)))"
    by (intro wf_inv_image wf_mult wf_less_than)
next
  fix W net cfg visited url depth rest and run :: crawl_run
    and run1 seen x2 r run2 and new :: "(string \<times> nat) list"
  assume new: "page_links W cfg seen url depth r = Inr new"
  have "(image_mset (depth_left cfg) (mset rest) + image_mset (depth_left cfg) (mset new),
      image_mset (depth_left cfg) (mset rest) + {#depth_left cfg (url, depth)#}) \<in> mult less_than"
    by (rule one_step_implies_mult) (auto dest: page_links_deeper [OF new])
  then show "((W, net, cfg, seen, rest @ new, run2), W, net, cfg, visited, (url, depth) # rest, run)
      \<in> inv_image (mult less_than) (\<lambda>(W, net, cfg, visited, frontier, run).
        image_mset (depth_left cfg) (mset frontier))"
    by (simp add: add.commute)
qed (simp_all add: subset_implies_mult)

definition crawl :: "urllib \<Rightarrow> fetcher \<Rightarrow> crawl_config \<Rightarrow> crawl_run" where
  "crawl W net cfg =
     (case seed_urls W net cfg of
        Inl e \<Rightarrow> \<lparr> cr_docs = [], cr_requests = [], cr_error = Some e \<rparr>
      | Inr (frontier, reqs) \<Rightarrow>
          crawl_loop W net cfg [] frontier \<lparr> cr_docs = [], cr_requests = reqs, cr_error = None \<rparr>)"

section \<open>Lemmas\<close>

text \<open>
  The documented scope of a followed URL, condition by condition: the scheme, the depth, the configured prefix or by
  default the text of the first start URL up to its last directory, the exclusions, and the inclusions.
\<close>

definition follow_scope :: "urllib \<Rightarrow> crawl_config \<Rightarrow> string \<Rightarrow> nat \<Rightarrow> bool" where
  "follow_scope W cfg u d \<longleftrightarrow>
     (startswith ''http://'' (lower u) \<or> startswith ''https://'' (lower u)) \<and>
     0 < d \<and> int d \<le> cc_max_depth cfg \<and>
     (\<forall>p. cc_url_prefix cfg = Some p \<and> p \<noteq> [] \<longrightarrow> startswith p u) \<and>
     (\<forall>start others scheme path. (cc_url_prefix cfg = None \<or> cc_url_prefix cfg = Some []) \<and>
        cc_start_urls cfg = start # others \<and> ul_scheme W start = Inr scheme \<and> scheme \<noteq> [] \<and> ul_path W start = Inr path \<longrightarrow>
        startswith (if CHR ''/'' \<in> set (lstrip_of (\<lambda>c. c = CHR ''/'') path) then rsplit_head (CHR ''/'') start else start) u) \<and>
     (\<forall>bad\<in>set (cc_exclude cfg). \<not> contains bad u) \<and>
     (cc_include cfg = [] \<or> (\<exists>good\<in>set (cc_include cfg). contains good u))"

text \<open>A URL that some fetch of a page links to.\<close>

definition links_to :: "urllib \<Rightarrow> fetcher \<Rightarrow> string \<Rightarrow> string \<Rightarrow> bool" where
  "links_to W net page u = (\<exists>i r ls. net i page = Inr r \<and> extract_links W (rs_text r) page = Inr ls \<and> u \<in> set ls)"

text \<open>A page is in scope when it is a seed, or when a page of the crawl links to it and it meets the conditions.\<close>

definition in_scope ::
  "urllib \<Rightarrow> fetcher \<Rightarrow> crawl_config \<Rightarrow> (string \<times> nat) list \<Rightarrow> string set \<Rightarrow> string \<Rightarrow> nat \<Rightarrow> bool" where
  "in_scope W net cfg seeds pages u d \<longleftrightarrow>
     (u, d) \<in> set seeds \<or>
     cc_mode cfg = ''crawl'' \<and> (\<exists>page\<in>pages. links_to W net page u) \<and> follow_scope W cfg u d"

definition doc_in_scope ::
  "urllib \<Rightarrow> fetcher \<Rightarrow> crawl_config \<Rightarrow> (string \<times> nat) list \<Rightarrow> string set \<Rightarrow> source_document \<Rightarrow> bool" where
  "doc_in_scope W net cfg seeds pages doc =
     (\<exists>d. dget (sd_metadata doc) ''crawl_depth'' = JInt (int d) \<and> in_scope W net cfg seeds pages (sd_uri doc) d)"

lemma in_scope_mono: "in_scope W net cfg seeds pages u d \<Longrightarrow> pages \<subseteq> pages' \<Longrightarrow> in_scope W net cfg seeds pages' u d"
  by (auto simp: in_scope_def)

lemma doc_in_scope_mono:
  "doc_in_scope W net cfg seeds pages doc \<Longrightarrow> pages \<subseteq> pages' \<Longrightarrow> doc_in_scope W net cfg seeds pages' doc"
  unfolding doc_in_scope_def using in_scope_mono by blast

lemma followed_in_scope: "should_follow W u cfg (Suc d) = Inr True \<Longrightarrow> follow_scope W cfg u (Suc d)"
  by (auto simp: should_follow_def follow_scope_def is_http_def crawl_prefix_def default_prefix_def try_bind_eq_Inr
      list_ex_iff str_true_def startswith_iff split: if_splits option.splits)

definition crawl_inv ::
  "urllib \<Rightarrow> fetcher \<Rightarrow> crawl_config \<Rightarrow> (string \<times> nat) list \<Rightarrow> string list \<Rightarrow> string list \<Rightarrow> crawl_run \<Rightarrow> bool" where
  "crawl_inv W net cfg seeds reqs visited run \<longleftrightarrow>
     int (length (cr_docs run)) \<le> max 0 (cc_max_pages cfg) \<and>
     distinct (map sd_uri (cr_docs run)) \<and> sd_uri ` set (cr_docs run) \<subseteq> set visited \<and>
     list_all (doc_in_scope W net cfg seeds (sd_uri ` set (cr_docs run))) (cr_docs run) \<and>
     (\<exists>rs. cr_requests run = reqs @ rs \<and> distinct rs \<and> set rs = set visited)"

lemma page_document_fields [simp]:
  "sd_uri (page_document W cfg u d r) = u"
  "dget (sd_metadata (page_document W cfg u d r)) ''crawl_depth'' = JInt (int d)"
  by (simp_all add: page_document_def Let_def dget_def dget_or_def)

lemma page_links_in_scope:
  assumes "page_links W cfg visited u d r = Inr es" and "e \<in> set es" and "net i u = Inr r" and "u \<in> pages"
  shows "in_scope W net cfg seeds pages (fst e) (snd e)"
proof -
  obtain ls where ls: "cc_mode cfg = ''crawl''" "extract_links W (rs_text r) u = Inr ls"
    "follow_links W cfg visited (Suc d) ls = Inr es"
    using assms(1,2) by (auto simp: page_links_def try_bind_eq_Inr split: if_splits)
  have e: "snd e = Suc d" "fst e \<in> set ls" "should_follow W (fst e) cfg (Suc d) = Inr True"
    using follow_links_spec [OF ls(3), of "fst e" "snd e"] assms(2) by simp_all
  have "links_to W net u (fst e)" using assms(3) ls(2) e(2) unfolding links_to_def by blast
  then show ?thesis using ls(1) assms(4) followed_in_scope [OF e(3)] e(1) unfolding in_scope_def by auto
qed

lemma crawl_inv_request:
  "crawl_inv W net cfg seeds reqs visited run \<Longrightarrow> u \<notin> set visited \<Longrightarrow>
     crawl_inv W net cfg seeds reqs (u # visited) (run\<lparr> cr_requests := cr_requests run @ [u] \<rparr>)"
  by (auto simp: crawl_inv_def)

lemma crawl_inv_emit:
  assumes "crawl_inv W net cfg seeds reqs visited run" "u \<notin> set visited"
    and "in_scope W net cfg seeds (sd_uri ` set (cr_docs run)) u d"
    and "int (length (cr_docs run)) < cc_max_pages cfg"
  shows "crawl_inv W net cfg seeds reqs (u # visited)
    (run\<lparr> cr_requests := cr_requests run @ [u], cr_docs := cr_docs run @ [page_document W cfg u d r] \<rparr>)"
proof -
  let ?pages = "insert u (sd_uri ` set (cr_docs run))"
  have "doc_in_scope W net cfg seeds ?pages (page_document W cfg u d r)"
    using in_scope_mono [OF assms(3), of ?pages] by (auto simp: doc_in_scope_def)
  moreover have "doc_in_scope W net cfg seeds ?pages x" if "x \<in> set (cr_docs run)" for x
    using assms(1) that doc_in_scope_mono [of W net cfg seeds "sd_uri ` set (cr_docs run)" x ?pages]
    by (auto simp: crawl_inv_def list_all_iff)
  ultimately show ?thesis using assms by (auto simp: crawl_inv_def list_all_iff)
qed

lemma crawl_inv_error: "crawl_inv W net cfg seeds reqs v run \<Longrightarrow>
    crawl_inv W net cfg seeds reqs v (run\<lparr> cr_error := e \<rparr>)"
  by (simp add: crawl_inv_def)

lemma crawl_loop_inv:
  assumes "crawl_inv W net cfg seeds reqs visited run"
    and "\<forall>e \<in> set frontier. in_scope W net cfg seeds (sd_uri ` set (cr_docs run)) (fst e) (snd e)"
  shows "\<exists>v. crawl_inv W net cfg seeds reqs v (crawl_loop W net cfg visited frontier run)"
  using assms
proof (induction W net cfg visited frontier run rule: crawl_loop.induct)
  case (1 W net cfg visited run)
  then show ?case by auto
next
  case (2 W net cfg visited url depth rest run)
  let ?run1 = "run\<lparr> cr_requests := cr_requests run @ [url] \<rparr>"
  consider (stop) "int (length (cr_docs run)) \<ge> cc_max_pages cfg"
    | (seen) "\<not> int (length (cr_docs run)) \<ge> cc_max_pages cfg" "url \<in> set visited"
    | (new) "int (length (cr_docs run)) < cc_max_pages cfg" "url \<notin> set visited"
    by linarith
  then show ?case
  proof cases
    case stop
    then show ?thesis using "2.prems" by auto
  next
    case seen
    then show ?thesis using "2.IH"(1) [OF seen] "2.prems" by simp
  next
    case new
    then have not: "\<not> int (length (cr_docs run)) \<ge> cc_max_pages cfg" by simp
    have req: "crawl_inv W net cfg seeds reqs (url # visited) ?run1"
      using crawl_inv_request [OF "2.prems"(1) new(2)] .
    show ?thesis
    proof (cases "net (length (cr_requests run)) url")
      case (Inl e)
      then show ?thesis using "2.IH"(2) [OF not new(2) refl refl Inl] req "2.prems"(2) new by simp
    next
      case (Inr r)
      show ?thesis
      proof (cases "indexable (page_type r)")
        case False
        then show ?thesis
          using "2.IH"(3) [OF not new(2) refl refl Inr False] req "2.prems"(2) new Inr by simp
      next
        case True
        let ?run2 = "?run1\<lparr> cr_docs := cr_docs run @ [page_document W cfg url depth r] \<rparr>"
        have emit: "crawl_inv W net cfg seeds reqs (url # visited) ?run2"
          using crawl_inv_emit [OF "2.prems"(1) new(2) _ new(1)] "2.prems"(2) by simp
        show ?thesis
        proof (cases "page_links W cfg (url # visited) url depth r")
          case (Inl e)
          have "crawl_inv W net cfg seeds reqs (url # visited) (?run2\<lparr> cr_error := Some e \<rparr>)"
            by (rule crawl_inv_error [OF emit])
          then show ?thesis using new True Inl Inr by (auto simp: Let_def)
        next
          case new2: (Inr es)
          have "in_scope W net cfg seeds (sd_uri ` set (cr_docs ?run2)) (fst e) (snd e)" if "e \<in> set es" for e
            by (rule page_links_in_scope [where net = net and i = "length (cr_requests run)", OF new2 that Inr]) simp
          moreover have "in_scope W net cfg seeds (sd_uri ` set (cr_docs ?run2)) (fst e) (snd e)" if "e \<in> set rest" for e
          proof -
            have "in_scope W net cfg seeds (sd_uri ` set (cr_docs run)) (fst e) (snd e)" using "2.prems"(2) that by simp
            then show ?thesis by (rule in_scope_mono) auto
          qed
          ultimately have "\<forall>e \<in> set (rest @ es). in_scope W net cfg seeds (sd_uri ` set (cr_docs ?run2)) (fst e) (snd e)"
            by auto
          from "2.IH"(4) [OF not new(2) refl refl Inr _ refl new2 emit this] True
          show ?thesis using new True Inr new2 by (simp add: Let_def)
        qed
      qed
    qed
  qed
qed

section \<open>Properties\<close>

text \<open>
  C32. A crawl, whatever the network answers: it ends with at most the configured number of pages, no page
  twice, no URL requested twice after the seeds; every page is a seed, or in the crawl mode a page of the crawl links to
  it, and its URL has a web scheme, is within the depth, begins with the configured prefix, or without one with the first
  start URL up to its last directory, holds no excluded text, and holds an included one when there are any.
\<close>

theorem crawl_sound:
  "case seed_urls W net cfg of
     Inl e \<Rightarrow> crawl W net cfg = \<lparr> cr_docs = [], cr_requests = [], cr_error = Some e \<rparr>
   | Inr (seeds, reqs) \<Rightarrow>
       (cc_mode cfg \<noteq> ''sitemap'' \<longrightarrow> reqs = [] \<and> set (map snd seeds) \<subseteq> {0} \<and>
         try_map (normalize_url W) (filter (\<lambda>u. strip u \<noteq> []) (cc_start_urls cfg)) = Inr (map fst seeds)) \<and>
       int (length (cr_docs (crawl W net cfg))) \<le> max 0 (cc_max_pages cfg) \<and>
       distinct (map sd_uri (cr_docs (crawl W net cfg))) \<and>
       (\<forall>doc\<in>set (cr_docs (crawl W net cfg)). \<exists>d. dget (sd_metadata doc) ''crawl_depth'' = JInt (int d) \<and>
          ((sd_uri doc, d) \<in> set seeds \<or>
           cc_mode cfg = ''crawl'' \<and> follow_scope W cfg (sd_uri doc) d \<and>
           (\<exists>page\<in>set (cr_docs (crawl W net cfg)). links_to W net (sd_uri page) (sd_uri doc)))) \<and>
       (\<exists>rs. cr_requests (crawl W net cfg) = reqs @ rs \<and> distinct rs)"
proof (cases "seed_urls W net cfg")
  case (Inl e)
  then show ?thesis by (simp add: crawl_def)
next
  case (Inr p)
  obtain seeds reqs where p: "p = (seeds, reqs)" by (cases p)
  have start: "cc_mode cfg \<noteq> ''sitemap'' \<longrightarrow> reqs = [] \<and> set (map snd seeds) \<subseteq> {0} \<and>
      try_map (normalize_url W) (filter (\<lambda>u. strip u \<noteq> []) (cc_start_urls cfg)) = Inr (map fst seeds)"
    using Inr p by (auto simp: seed_urls_def try_bind_eq_Inr o_def)
  have "crawl_inv W net cfg seeds reqs [] \<lparr> cr_docs = [], cr_requests = reqs, cr_error = None \<rparr>"
    by (simp add: crawl_inv_def)
  moreover have "\<forall>e \<in> set seeds. in_scope W net cfg seeds {} (fst e) (snd e)"
    by (auto simp: in_scope_def)
  ultimately obtain v where "crawl_inv W net cfg seeds reqs v (crawl W net cfg)"
    using crawl_loop_inv [of W net cfg seeds reqs "[]" "\<lparr> cr_docs = [], cr_requests = reqs, cr_error = None \<rparr>" seeds] Inr p
    by (auto simp: crawl_def)
  then show ?thesis using Inr p start
    by (simp add: crawl_inv_def list_all_iff doc_in_scope_def in_scope_def) blast
qed

text \<open>
  The scope of a crawl without a configured prefix: when the first start URL is a bare origin, every URL
  that merely begins with its text passes, hosts that extend its name included.
\<close>

theorem default_prefix_leaks:
  assumes "cc_url_prefix cfg = None" and "cc_start_urls cfg = start # others" and "is_http start"
    and "ul_scheme W start = Inr scheme" and "scheme \<noteq> []" and "ul_path W start = Inr []"
    and "cc_exclude cfg = []" and "cc_include cfg = []" and "int d \<le> cc_max_depth cfg"
  shows "should_follow W (start @ tail) cfg d = Inr True"
proof -
  have "is_http (start @ tail)"
    using assms(3) by (auto simp: is_http_def startswith_iff lower_def)
  then show ?thesis
    using assms
    by (auto simp: should_follow_def crawl_prefix_def default_prefix_def lstrip_of_def startswith_def)
qed

definition bare_urllib :: urllib where
  "bare_urllib = \<lparr> ul_defrag = Inr, ul_path = (\<lambda>u. Inr []), ul_scheme = (\<lambda>u. Inr ''https''),
     ul_join = (\<lambda>b u. Inr u), ul_unescape = (\<lambda>t. t) \<rparr>"

definition two_pages :: crawl_config where
  "two_pages = \<lparr> cc_start_urls = [''https://a.org''], cc_mode = ''crawl'', cc_url_prefix = Some ''https://a.org'',
     cc_include = [], cc_exclude = [''/x''], cc_max_pages = 5, cc_max_depth = 1, cc_doc_type = JNull \<rparr>"

definition small_site :: fetcher where
  "small_site n u = Inr \<lparr> rs_content_type = None, rs_content = ''body'',
     rs_text = ''href=\"https://b.org\" href=\"https://a.org/x\" href=\"https://a.org/y\"'' \<rparr>"

theorem crawl_sound_witness:
  "map sd_uri (cr_docs (crawl bare_urllib small_site two_pages)) = [''https://a.org'', ''https://a.org/y''] \<and>
   follow_scope bare_urllib two_pages ''https://a.org/y'' 1"
proof -
  have s: "seed_urls bare_urllib small_site two_pages = Inr ([(''https://a.org'', 0)], [])" by code_simp
  have d: "map (\<lambda>x. (sd_uri x, dget (sd_metadata x) ''crawl_depth'')) (cr_docs (crawl bare_urllib small_site two_pages)) =
      [(''https://a.org'', JInt 0), (''https://a.org/y'', JInt 1)]" by code_simp
  then have u: "map sd_uri (cr_docs (crawl bare_urllib small_site two_pages)) = [''https://a.org'', ''https://a.org/y'']"
    by (auto simp: map_eq_Cons_conv)
  have "(''https://a.org/y'', JInt 1) \<in> set (map (\<lambda>x. (sd_uri x, dget (sd_metadata x) ''crawl_depth''))
      (cr_docs (crawl bare_urllib small_site two_pages)))"
    unfolding d by simp
  then obtain y where y: "y \<in> set (cr_docs (crawl bare_urllib small_site two_pages))" "sd_uri y = ''https://a.org/y''"
    "dget (sd_metadata y) ''crawl_depth'' = JInt 1"
    by auto
  have "follow_scope bare_urllib two_pages ''https://a.org/y'' 1"
    using crawl_sound [of bare_urllib small_site two_pages] y by (auto simp: s)
  then show ?thesis using u by simp
qed

theorem default_prefix_leaks_witness:
  "\<exists>cfg. cc_start_urls cfg = [''https://fca.org.uk''] \<and> cc_max_depth cfg = 2 \<and>
     should_follow bare_urllib ''https://fca.org.uk.evil.example/'' cfg 1 = Inr True"
proof -
  let ?cfg = "\<lparr> cc_start_urls = [''https://fca.org.uk''], cc_mode = ''crawl'', cc_url_prefix = None,
    cc_include = [], cc_exclude = [], cc_max_pages = 50, cc_max_depth = 2, cc_doc_type = JNull \<rparr>"
  have "should_follow bare_urllib (''https://fca.org.uk'' @ ''.evil.example/'') ?cfg 1 = Inr True"
    by (rule default_prefix_leaks [where others = "[]" and scheme = "''https''"])
      (simp_all add: bare_urllib_def, code_simp)
  then show ?thesis by (intro exI [of _ ?cfg]) simp
qed

end
