(* ===== verification/Parsing.thy ===== *)
theory Parsing
  imports PyJson
begin

text \<open>
  Parsed documents (\<open>indexing/parsers/base.py\<close>), the Markdown parser (\<open>parsers/markdown.py\<close>), the
  router (\<open>parsers/router.py\<close>) and the detection of superseded documents (\<open>supersession.py\<close>).
  The PDF, Word and HTML parsers, which drive third-party libraries, have a theory of their own (\<open>Parsers\<close>).
\<close>

section \<open>Documents\<close>

datatype block_type = Title | Heading | Paragraph | ListItem | TableRow | Caption | Footer | Code

record parsed_block =
  pb_text :: string
  pb_type :: block_type
  pb_page :: "int option"
  pb_section :: "string option"
  pb_start :: "int option"
  pb_end :: "int option"

record parsed_document =
  pd_title :: "string option"
  pd_blocks :: "parsed_block list"
  pd_metadata :: jdict

definition has_text :: "parsed_block \<Rightarrow> bool" where
  "has_text b = (strip (pb_text b) \<noteq> [])"

definition doc_text :: "parsed_block list \<Rightarrow> string" where
  "doc_text blocks = join nl2 (map pb_text (filter has_text blocks))"

section \<open>Markdown\<close>

text \<open>\<open>str.splitlines\<close>: a carriage return and a line feed in sequence end one line.\<close>

definition line_end :: "char \<Rightarrow> bool" where
  "line_end c = (let n = code c in (10 \<le> n \<and> n \<le> 13) \<or> (28 \<le> n \<and> n \<le> 30) \<or> n = 133)"

fun splitlines_acc :: "string \<Rightarrow> string \<Rightarrow> string list" where
  "splitlines_acc acc [] = (if acc = [] then [] else [rev acc])"
| "splitlines_acc acc [c] = (if line_end c then [rev acc] else [rev (c # acc)])"
| "splitlines_acc acc (c # d # s) =
     (if code c = 13 \<and> code d = 10 then rev acc # splitlines_acc [] s
      else if line_end c then rev acc # splitlines_acc [] (d # s)
      else splitlines_acc (c # acc) (d # s))"

definition splitlines :: "string \<Rightarrow> string list" where
  "splitlines s = splitlines_acc [] s"

text \<open>
  The heading expression \<open>^(#{1,6})\s+(.*?)\s*#*\s*$\<close> on a line: as many hashes as the line starts with,
  at most six, then white space; the heading is the shortest text that leaves only white space, hashes and
  white space.
\<close>

definition is_hash :: "char \<Rightarrow> bool" where
  "is_hash c = (c = CHR ''#'')"

definition heading_tail :: "string \<Rightarrow> bool" where
  "heading_tail s = (dropWhile is_space (dropWhile is_hash (dropWhile is_space s)) = [])"

fun lazy_heading :: "string \<Rightarrow> string" where
  "lazy_heading [] = []"
| "lazy_heading (c # s) = (if heading_tail (c # s) then [] else c # lazy_heading s)"

definition match_heading :: "string \<Rightarrow> (nat \<times> string) option" where
  "match_heading line =
     (let n = length (takeWhile is_hash line); rest = drop n line in
       if 1 \<le> n \<and> n \<le> 6 \<and> rest \<noteq> [] \<and> is_space (hd rest)
       then Some (n, lazy_heading (dropWhile is_space rest)) else None)"

text \<open>\<open>^\s*([-*+]|\d+[.)])\s+\<close>\<close>

definition is_list_item :: "string \<Rightarrow> bool" where
  "is_list_item s =
     (let t = dropWhile is_space s; u = dropWhile is_digit t in
       (case t of
          c # d # _ \<Rightarrow> (c = CHR ''-'' \<or> c = CHR ''*'' \<or> c = CHR ''+'') \<and> is_space d
        | _ \<Rightarrow> False) \<or>
       (length u < length t \<and>
        (case u of c # d # _ \<Rightarrow> (c = CHR ''.'' \<or> c = CHR '')'') \<and> is_space d | _ \<Rightarrow> False)))"

definition classify_paragraph :: "string \<Rightarrow> block_type" where
  "classify_paragraph s =
     (if is_list_item s then ListItem
      else if startswith [CHR 0x60, CHR 0x60, CHR 0x60] s then Code else Paragraph)"

record md_state =
  md_blocks :: "parsed_block list"
  md_offset :: nat
  md_section :: "string list"
  md_title :: "string option"
  md_buffer :: "string list"

definition section_of :: "string list \<Rightarrow> string option" where
  "section_of path = (if path = [] then None else Some (join '' / '' path))"

definition md_block :: "string \<Rightarrow> block_type \<Rightarrow> md_state \<Rightarrow> parsed_block" where
  "md_block text' ty st = \<lparr> pb_text = text', pb_type = ty, pb_page = None,
     pb_section = section_of (md_section st), pb_start = Some (int (md_offset st)),
     pb_end = Some (int (md_offset st + length text')) \<rparr>"

definition add_block :: "string \<Rightarrow> block_type \<Rightarrow> md_state \<Rightarrow> md_state" where
  "add_block text' ty st = st\<lparr> md_blocks := md_blocks st @ [md_block text' ty st],
     md_offset := md_offset st + length text' + 2 \<rparr>"

definition flush_paragraph :: "md_state \<Rightarrow> md_state" where
  "flush_paragraph st =
     (if md_buffer st = [] then st
      else
        let p = strip (join nl (md_buffer st)); st1 = st\<lparr> md_buffer := [] \<rparr> in
        if p = [] then st1 else add_block p (classify_paragraph p) st1)"

definition md_line :: "md_state \<Rightarrow> string \<Rightarrow> md_state" where
  "md_line st line =
     (case match_heading line of
        Some (level, h) \<Rightarrow>
          let st1 = flush_paragraph st; t = strip h;
              st2 = st1\<lparr> md_section := take (level - 1) (md_section st1) @ [t],
                md_title := (if str_true (md_title st1) then md_title st1 else Some t) \<rparr>
          in add_block t Heading st2
      | None \<Rightarrow>
          if strip line = [] then flush_paragraph st
          else st\<lparr> md_buffer := md_buffer st @ [line] \<rparr>)"

definition md_init :: md_state where
  "md_init = \<lparr> md_blocks = [], md_offset = 0, md_section = [], md_title = None, md_buffer = [] \<rparr>"

text \<open>The parser, on the decoded text.\<close>

definition parse_markdown :: "string \<Rightarrow> string option \<Rightarrow> parsed_document" where
  "parse_markdown text' filename =
     (let st = flush_paragraph (foldl md_line md_init (splitlines text')) in
       \<lparr> pd_title =
           (if \<not> str_true (md_title st) \<and> str_true filename
            then Some (rsplit_head (CHR ''.'') (rsplit_last (CHR ''/'') (the filename)))
            else md_title st),
         pd_blocks = md_blocks st, pd_metadata = [(''parser'', JStr ''markdown'')] \<rparr>)"

section \<open>Router\<close>

datatype parser = PdfParser | DocxParser | HtmlParser | MarkdownParser

definition REGISTRY :: "(string \<times> parser) list" where
  "REGISTRY =
     [(''application/pdf'', PdfParser),
      (''application/vnd.openxmlformats-officedocument.wordprocessingml.document'', DocxParser),
      (''text/html'', HtmlParser), (''application/xhtml+xml'', HtmlParser),
      (''text/markdown'', MarkdownParser), (''text/x-markdown'', MarkdownParser)]"

definition EXTENSION_TO_MIME :: "(string \<times> string) list" where
  "EXTENSION_TO_MIME =
     [(''.pdf'', ''application/pdf''),
      (''.docx'', ''application/vnd.openxmlformats-officedocument.wordprocessingml.document''),
      (''.html'', ''text/html''), (''.htm'', ''text/html''),
      (''.md'', ''text/markdown''), (''.markdown'', ''text/markdown'')]"

text \<open>\<open>mimetypes.guess_type\<close> reads the tables of the host and is a parameter.\<close>

definition detect_content_type :: "(string \<Rightarrow> string option) \<Rightarrow> string option \<Rightarrow> string" where
  "detect_content_type guess filename =
     (case filename of
        None \<Rightarrow> ''application/pdf''
      | Some f \<Rightarrow>
          if f = [] then ''application/pdf''
          else
            let ext = (if CHR ''.'' \<in> set f then ''.'' @ lower (rsplit_last (CHR ''.'') f) else []) in
            case map_of EXTENSION_TO_MIME ext of
              Some m \<Rightarrow> m
            | None \<Rightarrow> (case guess f of
                Some m \<Rightarrow> if m = [] then ''application/pdf'' else m
              | None \<Rightarrow> ''application/pdf''))"

text \<open>The keys of the registry in sorted order, as the error message prints them.\<close>

definition SUPPORTED :: "string list" where
  "SUPPORTED =
     [''application/pdf'', ''application/vnd.openxmlformats-officedocument.wordprocessingml.document'',
      ''application/xhtml+xml'', ''text/html'', ''text/markdown'', ''text/x-markdown'']"

definition get_parser :: "string \<Rightarrow> exn + parser" where
  "get_parser ct =
     (case map_of REGISTRY ct of
        Some p \<Rightarrow> Inr p
      | None \<Rightarrow> Inl (ParserError (''No parser registered for content type '' @ str_repr ct @
          ''. Supported: '' @ py_repr (JList (map JStr SUPPORTED)))))"

section \<open>Superseded documents\<close>

definition SUPERSEDED_PHRASES :: "string list" where
  "SUPERSEDED_PHRASES =
     [''this document was superseded'', ''this document has been superseded'', ''superseded version'',
      ''no longer current'', ''no longer in force'', ''superseded by'']"

definition MONTHS :: "string list" where
  "MONTHS = [''january'', ''february'', ''march'', ''april'', ''may'', ''june'', ''july'', ''august'',
     ''september'', ''october'', ''november'', ''december'']"

text \<open>The number of the month whose name starts the text, and the text after it.\<close>

fun match_month :: "nat \<Rightarrow> string list \<Rightarrow> string \<Rightarrow> (nat \<times> string) option" where
  "match_month n [] s = None"
| "match_month n (m # ms) s =
     (if startswith m (lower s) then Some (n, drop (length m) s) else match_month (Suc n) ms s)"

definition digits_num :: "string \<Rightarrow> nat" where
  "digits_num s = foldl (\<lambda>a c. 10 * a + digit_val c) 0 s"

text \<open>
  The date expression at a position: one or two digits, white space, a month, white space, four digits.
  After a first digit a second one is always taken: leaving it to what follows cannot match.
\<close>

definition match_date :: "string \<Rightarrow> (nat \<times> nat \<times> nat) option" where
  "match_date s =
     (let d = takeWhile is_digit (take 2 s); t = drop (length d) s; u = dropWhile is_space t in
       if d = [] \<or> length u = length t then None
       else case match_month 1 MONTHS u of
         None \<Rightarrow> None
       | Some (m, v) \<Rightarrow>
           let w = dropWhile is_space v; y = takeWhile is_digit (take 4 w) in
           if length w = length v \<or> length y \<noteq> 4 then None
           else Some (digits_num y, m, digits_num d))"

fun find_date :: "string \<Rightarrow> (nat \<times> nat \<times> nat) option" where
  "find_date [] = None"
| "find_date (c # s) = (case match_date (c # s) of None \<Rightarrow> find_date s | Some d \<Rightarrow> Some d)"

definition leap_year :: "nat \<Rightarrow> bool" where
  "leap_year y = (4 dvd y \<and> (\<not> 100 dvd y \<or> 400 dvd y))"

definition days_in_month :: "nat \<Rightarrow> nat \<Rightarrow> nat" where
  "days_in_month y m =
     (if m = 2 then (if leap_year y then 29 else 28)
      else if m \<in> {4, 6, 9, 11} then 30 else 31)"

text \<open>\<open>datetime(year, month, day)\<close> raises outside of the calendar.\<close>

definition valid_date :: "nat \<times> nat \<times> nat \<Rightarrow> bool" where
  "valid_date dt =
     (case dt of (y, m, d) \<Rightarrow> 1 \<le> y \<and> 1 \<le> m \<and> m \<le> 12 \<and> 1 \<le> d \<and> d \<le> days_in_month y m)"

definition extract_date :: "string \<Rightarrow> (nat \<times> nat \<times> nat) option" where
  "extract_date s =
     (case find_date s of None \<Rightarrow> None | Some dt \<Rightarrow> if valid_date dt then Some dt else None)"

record supersession_result =
  ss_superseded :: bool
  ss_at :: "(nat \<times> nat \<times> nat) option"
  ss_reason :: "string option"

definition superseded_text :: "string \<Rightarrow> bool" where
  "superseded_text s = list_ex (\<lambda>p. contains p (lower s)) SUPERSEDED_PHRASES"

fun scan_blocks :: "parsed_block list \<Rightarrow> supersession_result" where
  "scan_blocks [] = \<lparr> ss_superseded = False, ss_at = None, ss_reason = None \<rparr>"
| "scan_blocks (b # bs) =
     (if \<not> superseded_text (pb_text b) then scan_blocks bs
      else \<lparr> ss_superseded = True, ss_at = extract_date (pb_text b),
        ss_reason = Some (''text marker on page '' @
          (case pb_page b of None \<Rightarrow> ''None'' | Some p \<Rightarrow> int_str p)) \<rparr>)"

definition superseded_uri :: "string \<Rightarrow> bool" where
  "superseded_uri uri = (let l = lower uri in
     contains ''/archive/'' l \<or> contains ''/superseded/'' l \<or> contains ''supersed'' l)"

definition detect_supersession :: "parsed_document \<Rightarrow> string option \<Rightarrow> supersession_result" where
  "detect_supersession doc uri =
     (if str_true uri \<and> superseded_uri (the uri)
      then \<lparr> ss_superseded = True, ss_at = None, ss_reason = Some (''url pattern: '' @ the uri) \<rparr>
      else scan_blocks (take 6 (pd_blocks doc)))"

section \<open>Lemmas\<close>

text \<open>Blocks laid out from an offset on, with two characters between them.\<close>

fun laid_out :: "nat \<Rightarrow> parsed_block list \<Rightarrow> bool" where
  "laid_out n [] = True"
| "laid_out n (b # bs) =
     (pb_start b = Some (int n) \<and> pb_end b = Some (int (n + length (pb_text b))) \<and>
      laid_out (n + length (pb_text b) + 2) bs)"

fun layout_end :: "nat \<Rightarrow> parsed_block list \<Rightarrow> nat" where
  "layout_end n [] = n"
| "layout_end n (b # bs) = layout_end (n + length (pb_text b) + 2) bs"

lemma laid_out_append:
  "laid_out n (bs @ cs) \<longleftrightarrow> laid_out n bs \<and> laid_out (layout_end n bs) cs"
  by (induction bs arbitrary: n) auto

lemma layout_end_append: "layout_end n (bs @ cs) = layout_end (layout_end n bs) cs"
  by (induction bs arbitrary: n) auto

definition md_ok :: "md_state \<Rightarrow> bool" where
  "md_ok st \<longleftrightarrow> laid_out 0 (md_blocks st) \<and> md_offset st = layout_end 0 (md_blocks st)"

lemma md_ok_add_block: "md_ok st \<Longrightarrow> md_ok (add_block t ty st)"
  by (simp add: md_ok_def add_block_def laid_out_append layout_end_append md_block_def)

lemma md_ok_frame:
  "md_ok (st\<lparr> md_buffer := b \<rparr>) = md_ok st"
  "md_ok (st\<lparr> md_section := s \<rparr>) = md_ok st"
  "md_ok (st\<lparr> md_section := s, md_title := t \<rparr>) = md_ok st"
  by (simp_all add: md_ok_def)

lemma md_ok_flush: "md_ok st \<Longrightarrow> md_ok (flush_paragraph st)"
  by (simp add: flush_paragraph_def Let_def md_ok_add_block md_ok_frame)

lemma md_ok_line: "md_ok st \<Longrightarrow> md_ok (md_line st line)"
  by (auto simp: md_line_def Let_def md_ok_frame intro!: md_ok_add_block md_ok_flush split: option.split)

lemma md_ok_lines: "md_ok st \<Longrightarrow> md_ok (foldl md_line st ls)"
  by (induction ls arbitrary: st) (simp_all add: md_ok_line)

lemma parse_markdown_laid_out: "laid_out 0 (pd_blocks (parse_markdown t f))"
proof -
  have "md_ok md_init" by (simp add: md_ok_def md_init_def)
  from md_ok_flush [OF md_ok_lines [OF this]] show ?thesis
    by (simp add: parse_markdown_def Let_def md_ok_def)
qed

lemma laid_out_located:
  assumes "laid_out n bs" and "b \<in> set bs"
  shows "\<exists>s. pb_start b = Some (int (n + s)) \<and> pb_end b = Some (int (n + s + length (pb_text b))) \<and>
    take (length (pb_text b)) (drop s (join nl2 (map pb_text bs))) = pb_text b"
  using assms
proof (induction bs arbitrary: n)
  case (Cons a bs)
  show ?case
  proof (cases "b = a")
    case True
    have "take (length (pb_text a)) (join nl2 (pb_text a # map pb_text bs)) = pb_text a"
      by (cases bs) auto
    then show ?thesis using True Cons.prems by (intro exI [of _ 0]) simp
  next
    case False
    with Cons.prems have b: "b \<in> set bs" by simp
    from Cons.IH [OF _ this, of "n + length (pb_text a) + 2"] Cons.prems(1)
    obtain s where s: "pb_start b = Some (int (n + length (pb_text a) + 2 + s))"
      "pb_end b = Some (int (n + length (pb_text a) + 2 + s + length (pb_text b)))"
      "take (length (pb_text b)) (drop s (join nl2 (map pb_text bs))) = pb_text b"
      by auto
    have "join nl2 (map pb_text (a # bs)) = (pb_text a @ nl2) @ join nl2 (map pb_text bs)"
      using b by (cases bs) auto
    moreover have "length (pb_text a @ nl2) = length (pb_text a) + 2" by (simp add: nl2_def)
    ultimately have "drop (length (pb_text a) + 2 + s) (join nl2 (map pb_text (a # bs))) =
        drop s (join nl2 (map pb_text bs))"
      by (metis add_diff_cancel_left' drop_drop add.commute append_eq_conv_conj drop_append)
    then show ?thesis using s
      by (intro exI [of _ "length (pb_text a) + 2 + s"]) (simp add: add.assoc)
  qed
qed simp

section \<open>Properties\<close>

text \<open>
  The offsets that the Markdown parser records are where the blocks stand in the text of the document,
  as long as no heading is blank.
\<close>

theorem markdown_offsets:
  assumes "list_all has_text (pd_blocks (parse_markdown t f))" and "b \<in> set (pd_blocks (parse_markdown t f))"
  shows "\<exists>s. pb_start b = Some (int s) \<and> pb_end b = Some (int (s + length (pb_text b))) \<and>
    take (length (pb_text b)) (drop s (doc_text (pd_blocks (parse_markdown t f)))) = pb_text b"
proof -
  have "filter has_text (pd_blocks (parse_markdown t f)) = pd_blocks (parse_markdown t f)"
    using assms(1) by (simp add: list_all_iff filter_id_conv)
  then show ?thesis
    using laid_out_located [OF parse_markdown_laid_out assms(2)] by (simp add: doc_text_def)
qed

text \<open>A blank heading is no part of the text, but it moves the offsets of what follows by two.\<close>

lemma blank_heading_drifts:
  "let bs = pd_blocks (parse_markdown (''# #'' @ nl @ ''abc'') None) in
     map pb_start bs = [Some 0, Some 2] \<and> doc_text bs = ''abc''"
  by code_simp

theorem markdown_offsets_witness:
  "\<exists>b :: parsed_block. pb_text b = ''Two'' \<and>
     (\<exists>s. pb_start b = Some (int s) \<and>
       take 3 (drop s (doc_text (pd_blocks (parse_markdown (''# One'' @ nl @ ''Two'') None)))) = ''Two'')"
proof -
  let ?bs = "pd_blocks (parse_markdown (''# One'' @ nl @ ''Two'') None)"
  have a: "list_all has_text ?bs" by code_simp
  have t: "pb_text (?bs ! 1) = ''Two''" by code_simp
  have m: "?bs ! 1 \<in> set ?bs" by (rule nth_mem) code_simp
  obtain s where "pb_start (?bs ! 1) = Some (int s)"
    "take (length (pb_text (?bs ! 1))) (drop s (doc_text ?bs)) = pb_text (?bs ! 1)"
    using markdown_offsets [OF a m] by blast
  then show ?thesis using t by - (intro exI [of _ "?bs ! 1"] exI [of _ s], auto simp: numeral_3_eq_3)
qed

end
