(* ===== verification/Chunking.thy ===== *)
theory Chunking
  imports Parsing
begin

text \<open>
  The chunkers (\<open>indexing/chunkers\<close>): the token-aware splitter with its reconstruction of offsets, the
  header-aware chunker, and the choice between them.  The text splitter and the token counter are
  third-party and are parameters.
\<close>

record chunk =
  ck_text :: string
  ck_section :: "string option"
  ck_page :: "int option"
  ck_start :: "int option"
  ck_end :: "int option"
  ck_tokens :: "nat option"
  ck_metadata :: jdict

text \<open>
  The splitter and the counter, and the two sizes in tokens.  Both measure with the tokenizer, which refuses a text that
  spells one of its special tokens.
\<close>

record chunk_env =
  ce_split :: "string \<Rightarrow> exn + string list"
  ce_count :: "string \<Rightarrow> exn + nat"
  ce_size :: nat
  ce_overlap :: nat

section \<open>The recursive chunker\<close>

definition int_or0 :: "int option \<Rightarrow> int" where
  "int_or0 x = (case x of None \<Rightarrow> 0 | Some i \<Rightarrow> i)"

definition overlap :: "int \<Rightarrow> int \<Rightarrow> parsed_block \<Rightarrow> int" where
  "overlap start end b = max 0 (min end (int_or0 (pb_end b)) - max start (int_or0 (pb_start b)))"

text \<open>The page and section of the block with the largest overlap, the first one among equals.\<close>

fun provenance_loop ::
  "int \<Rightarrow> int \<Rightarrow> int \<Rightarrow> int option \<times> string option \<Rightarrow> parsed_block list \<Rightarrow> int option \<times> string option" where
  "provenance_loop start end best prov [] = prov"
| "provenance_loop start end best prov (b # bs) =
     (if overlap start end b > best
      then provenance_loop start end (overlap start end b) (pb_page b, pb_section b) bs
      else provenance_loop start end best prov bs)"

definition provenance_for :: "parsed_block list \<Rightarrow> int \<Rightarrow> int \<Rightarrow> int option \<times> string option" where
  "provenance_for blocks start end = provenance_loop start end 0 (None, None) blocks"

definition piece_chunk :: "parsed_block list \<Rightarrow> nat \<Rightarrow> string \<Rightarrow> nat \<Rightarrow> chunk" where
  "piece_chunk blocks start piece n =
     (let (page, sec) = provenance_for blocks (int start) (int (start + length piece)) in
       \<lparr> ck_text = strip piece, ck_section = sec, ck_page = page, ck_start = Some (int start),
         ck_end = Some (int (start + length piece)), ck_tokens = Some n,
         ck_metadata = [(''chunker'', JStr ''recursive'')] \<rparr>)"

definition locate :: "string \<Rightarrow> string \<Rightarrow> nat \<Rightarrow> nat" where
  "locate text' piece cursor =
     (case find_from piece text' cursor of Some i \<Rightarrow> i | None \<Rightarrow> cursor)"

fun piece_loop ::
  "chunk_env \<Rightarrow> parsed_block list \<Rightarrow> string \<Rightarrow> nat \<Rightarrow> string list \<Rightarrow> exn + chunk list" where
  "piece_loop E blocks text' cursor [] = Inr []"
| "piece_loop E blocks text' cursor (p # ps) =
     (let start = locate text' p cursor in
       try_bind (ce_count E p) (\<lambda>n.
       try_bind (piece_loop E blocks text' (max (start + length p - ce_overlap E) (start + 1)) ps) (\<lambda>cs.
         Inr (piece_chunk blocks start p n # cs))))"

definition chunk_recursive :: "chunk_env \<Rightarrow> parsed_block list \<Rightarrow> exn + chunk list" where
  "chunk_recursive E blocks =
     (let text' = doc_text blocks in
       if strip text' = [] then Inr []
       else
         try_bind (ce_split E text') (\<lambda>pieces.
         try_bind (piece_loop E blocks text' 0 pieces) (\<lambda>cs. Inr (filter (\<lambda>c. ck_text c \<noteq> []) cs))))"

section \<open>The header chunker\<close>

definition is_heading :: "parsed_block \<Rightarrow> bool" where
  "is_heading b = (pb_type b = Heading)"

text \<open>The groups so far and the one that is open.\<close>

fun group_blocks :: "parsed_block list list \<Rightarrow> parsed_block list \<Rightarrow> parsed_block list \<Rightarrow>
    parsed_block list list" where
  "group_blocks groups cur [] = groups @ [cur]"
| "group_blocks groups cur (b # bs) =
     (if is_heading b \<and> cur \<noteq> [] then group_blocks (groups @ [cur]) [b] bs
      else group_blocks groups (cur @ [b]) bs)"

definition group_section :: "parsed_block list \<Rightarrow> string option" where
  "group_section g =
     (case find is_heading g of Some h \<Rightarrow> pb_section h | None \<Rightarrow> pb_section (hd g))"

definition section_chunk :: "parsed_block list \<Rightarrow> nat \<Rightarrow> chunk" where
  "section_chunk g n =
     \<lparr> ck_text = strip (doc_text g), ck_section = group_section g, ck_page = pb_page (hd g),
       ck_start = pb_start (hd g), ck_end = pb_end (last g), ck_tokens = Some n,
       ck_metadata = [(''chunker'', JStr ''markdown_header'')] \<rparr>"

text \<open>\<open>section_path or sub.section_path\<close> and \<open>page_number or sub.page_number\<close>\<close>

definition relabel :: "parsed_block list \<Rightarrow> chunk \<Rightarrow> chunk" where
  "relabel g c =
     c\<lparr> ck_section := (if str_true (group_section g) then group_section g else ck_section c),
        ck_page := (case pb_page (hd g) of
            Some p \<Rightarrow> if p \<noteq> 0 then Some p else ck_page c
          | None \<Rightarrow> ck_page c),
        ck_metadata := dset (ck_metadata c) ''chunker'' (JStr ''markdown_header+recursive'') \<rparr>"

definition chunk_group :: "chunk_env \<Rightarrow> parsed_block list \<Rightarrow> exn + chunk list" where
  "chunk_group E g =
     (if g = [] \<or> strip (doc_text g) = [] then Inr []
      else
        try_bind (ce_count E (doc_text g)) (\<lambda>n.
          if n \<le> ce_size E then Inr [section_chunk g n]
          else try_bind (chunk_recursive E g) (\<lambda>cs. Inr (map (relabel g) cs))))"

definition chunk_markdown :: "chunk_env \<Rightarrow> parsed_block list \<Rightarrow> exn + chunk list" where
  "chunk_markdown E blocks =
     (if blocks = [] then Inr []
      else try_bind (try_map (chunk_group E) (group_blocks [] [] blocks)) (\<lambda>css. Inr (concat css)))"

definition HEADING_AWARE_PARSERS :: "string list" where
  "HEADING_AWARE_PARSERS = [''markdown'', ''python-docx'', ''beautifulsoup4'']"

text \<open>\<open>get_chunker(doc).chunk(doc)\<close>\<close>

definition chunk_document :: "chunk_env \<Rightarrow> parsed_document \<Rightarrow> exn + chunk list" where
  "chunk_document E doc =
     (if dget_or (pd_metadata doc) ''parser'' (JStr []) \<in> JStr ` set HEADING_AWARE_PARSERS
      then chunk_markdown E (pd_blocks doc) else chunk_recursive E (pd_blocks doc))"

section \<open>Lemmas\<close>

lemma locate_ge: "cursor \<le> locate t p cursor"
  by (auto simp: locate_def find_from_def split: option.splits if_splits)

lemma locate_found:
  assumes "find_from p t cursor = Some i"
  shows "take (length p) (drop (locate t p cursor) t) = p"
proof -
  obtain j where j: "find_sub p (drop cursor t) = Some j" "i = cursor + j"
    using assms by (auto simp: find_from_def split: if_splits)
  from find_sub_Some [OF j(1)] obtain u where u: "drop cursor t = take j (drop cursor t) @ p @ u"
    "j \<le> length (drop cursor t)" by auto
  then have "drop j (drop cursor t) = p @ u" by (metis append_eq_conv_conj length_take min.absorb2)
  then show ?thesis using j assms by (simp add: locate_def add.commute)
qed

lemma piece_chunk_fields [simp]:
  "ck_text (piece_chunk bs s p n) = strip p" "ck_start (piece_chunk bs s p n) = Some (int s)"
  "ck_end (piece_chunk bs s p n) = Some (int (s + length p))"
  by (simp_all add: piece_chunk_def split: prod.split)

lemma piece_loop_from:
  "piece_loop E bs t cursor ps = Inr cs \<Longrightarrow> c \<in> set cs \<Longrightarrow>
     \<exists>s p n. p \<in> set ps \<and> cursor \<le> s \<and> c = piece_chunk bs s p n"
proof (induction ps arbitrary: cursor cs)
  case (Cons p ps)
  let ?s = "locate t p cursor"
  obtain n cs' where n: "cs = piece_chunk bs ?s p n # cs'"
    "piece_loop E bs t (max (?s + length p - ce_overlap E) (?s + 1)) ps = Inr cs'"
    using Cons.prems(1) by (auto simp: Let_def try_bind_eq_Inr)
  then consider "c = piece_chunk bs ?s p n" | "c \<in> set cs'" using Cons.prems(2) by auto
  then show ?case
  proof cases
    case 1
    then show ?thesis using locate_ge [of cursor t p] by auto
  next
    case 2
    from Cons.IH [OF n(2) this] obtain s q m where q: "q \<in> set ps"
      "max (?s + length p - ce_overlap E) (?s + 1) \<le> s" "c = piece_chunk bs s q m" by blast
    then have "cursor \<le> s" using locate_ge [of cursor t p] by linarith
    then show ?thesis using q by auto
  qed
qed simp

lemma piece_loop_starts:
  "piece_loop E bs t cursor ps = Inr cs \<Longrightarrow> sorted_wrt (\<lambda>c d. int_or0 (ck_start c) < int_or0 (ck_start d)) cs"
proof (induction ps arbitrary: cursor cs)
  case (Cons p ps)
  let ?s = "locate t p cursor"
  obtain n cs' where n: "cs = piece_chunk bs ?s p n # cs'"
    "piece_loop E bs t (max (?s + length p - ce_overlap E) (?s + 1)) ps = Inr cs'"
    using Cons.prems by (auto simp: Let_def try_bind_eq_Inr)
  have "?s < s" if "max (?s + length p - ce_overlap E) (?s + 1) \<le> s" for s using that by linarith
  then show ?case using Cons.IH [OF n(2)] piece_loop_from [OF n(2)] by (fastforce simp: n(1) int_or0_def)
qed simp

text \<open>The groups are the blocks again, cut before headings.\<close>

definition starts_section :: "parsed_block list \<Rightarrow> bool" where
  "starts_section g \<longleftrightarrow> g \<noteq> [] \<and> is_heading (hd g)"

definition one_heading :: "parsed_block list \<Rightarrow> bool" where
  "one_heading g \<longleftrightarrow> list_all (\<lambda>b. \<not> is_heading b) (tl g)"

lemma group_blocks_concat: "concat (group_blocks gs cur bs) = concat gs @ cur @ bs"
  by (induction gs cur bs rule: group_blocks.induct) simp_all

lemma group_blocks_cut:
  "list_all starts_section (tl gs) \<Longrightarrow> list_all one_heading gs \<Longrightarrow> one_heading cur \<Longrightarrow>
   gs \<noteq> [] \<Longrightarrow> starts_section cur \<Longrightarrow>
     list_all starts_section (tl (group_blocks gs cur bs)) \<and> list_all one_heading (group_blocks gs cur bs)"
proof (induction gs cur bs rule: group_blocks.induct)
  case (1 gs cur)
  then show ?case by simp
next
  case (2 gs cur b bs)
  have cur: "cur \<noteq> []" using 2 by (simp add: starts_section_def)
  show ?case
  proof (cases "is_heading b")
    case True
    have "starts_section [b]" "one_heading [b]" using True by (simp_all add: starts_section_def one_heading_def)
    then show ?thesis using 2 cur True by simp
  next
    case False
    have "starts_section (cur @ [b])" "one_heading (cur @ [b])"
      using 2 cur False by (simp_all add: starts_section_def one_heading_def)
    then show ?thesis using 2 False by simp
  qed
qed

lemma heading_group: "is_heading b \<Longrightarrow> starts_section [b] \<and> one_heading [b]"
  by (simp add: starts_section_def one_heading_def)

lemma group_blocks_first:
  "cur \<noteq> [] \<Longrightarrow> one_heading cur \<Longrightarrow>
     list_all starts_section (tl (group_blocks [] cur bs)) \<and> list_all one_heading (group_blocks [] cur bs)"
proof (induction bs arbitrary: cur)
  case (Cons b bs)
  show ?case
  proof (cases "is_heading b")
    case True
    then show ?thesis
      using Cons.prems group_blocks_cut [of "[cur]" "[b]" bs] heading_group [OF True] by simp
  next
    case False
    then show ?thesis using Cons.prems Cons.IH [of "cur @ [b]"]
      by (simp add: one_heading_def)
  qed
qed simp

lemma strip_cut:
  assumes "p \<noteq> []" "strip p = p"
  shows "contains p (strip (u @ p @ v))"
proof -
  have ends: "\<not> is_space (hd p)" "\<not> is_space (last p)"
    using strip_of_ends [of is_space p] assms by (simp_all add: strip_def)
  have l: "\<exists>u'. dropWhile is_space (u @ p @ v) = u' @ p @ v"
  proof (cases "\<forall>x \<in> set u. is_space x")
    case True
    then show ?thesis using ends(1) assms(1) by (cases p) auto
  next
    case False
    then show ?thesis by (metis dropWhile_append1)
  qed
  then obtain u' where u': "dropWhile is_space (u @ p @ v) = u' @ p @ v" by blast
  have r: "\<exists>v'. dropWhile is_space (rev v @ rev p @ rev u') = v' @ rev p @ rev u'"
  proof (cases "\<forall>x \<in> set (rev v). is_space x")
    case True
    moreover have "rev p \<noteq> []" "\<not> is_space (hd (rev p))" using ends(2) assms(1) by (simp_all add: hd_rev)
    moreover have "dropWhile is_space (rev v @ w) = dropWhile is_space w" for w
      using True by (intro dropWhile_append2) simp
    ultimately have "dropWhile is_space (rev v @ rev p @ rev u') = [] @ rev p @ rev u'"
      by (cases "rev p") simp_all
    then show ?thesis by blast
  next
    case False
    then show ?thesis by (metis dropWhile_append1)
  qed
  then obtain v' where v': "dropWhile is_space (rev v @ rev p @ rev u') = v' @ rev p @ rev u'" by blast
  have "strip (u @ p @ v) = rev (v' @ rev p @ rev u')"
    by (simp add: strip_def strip_of_def lstrip_of_def rstrip_of_def u' v')
  then have "strip (u @ p @ v) = u' @ p @ rev v'" by simp
  then show ?thesis by (auto simp: contains_iff)
qed

lemma strip_split: "\<exists>u v. s = u @ strip s @ v"
proof -
  have d: "\<exists>u. t = u @ dropWhile is_space t" for t by (metis takeWhile_dropWhile_id)
  obtain u where u: "s = u @ dropWhile is_space s" using d by blast
  obtain w where w: "rev (dropWhile is_space s) = w @ dropWhile is_space (rev (dropWhile is_space s))"
    using d by blast
  have "dropWhile is_space s = strip s @ rev w"
    using w by (metis lstrip_of_def rev_append rev_rev_ident rstrip_of_def strip_def strip_of_def)
  with u show ?thesis by metis
qed

lemma join_contains: "x \<in> set xs \<Longrightarrow> \<exists>u v. join sep xs = u @ x @ v"
proof (induction sep xs rule: join.induct)
  case (2 sep y)
  then show ?case by (intro exI [of _ "[]"]) simp
next
  case (3 sep y z zs)
  show ?case
  proof (cases "x = y")
    case True
    then show ?thesis by (intro exI [of _ "[]"] exI [of _ "sep @ join sep (z # zs)"]) simp
  next
    case False
    then obtain u v where "join sep (z # zs) = u @ x @ v" using 3 by auto
    then have "join sep (y # z # zs) = (y @ sep @ u) @ x @ v" by simp
    then show ?thesis by blast
  qed
qed simp

lemma doc_text_block:
  assumes "b \<in> set g" "has_text b"
  shows "contains (strip (pb_text b)) (strip (doc_text g))" "strip (doc_text g) \<noteq> []"
proof -
  have "pb_text b \<in> set (map pb_text (filter has_text g))" using assms by auto
  from join_contains [OF this, of nl2] obtain u v where 1: "doc_text g = u @ pb_text b @ v"
    by (auto simp: doc_text_def)
  obtain x y where 2: "pb_text b = x @ strip (pb_text b) @ y" using strip_split by blast
  have "doc_text g = (u @ x) @ strip (pb_text b) @ (y @ v)" using 1 2 by simp
  moreover have ne: "strip (pb_text b) \<noteq> []" using assms(2) by (simp add: has_text_def)
  ultimately show c: "contains (strip (pb_text b)) (strip (doc_text g))"
    using strip_cut [of "strip (pb_text b)" "u @ x" "y @ v"] by simp
  show "strip (doc_text g) \<noteq> []" using c ne by (auto simp: contains_iff)
qed

section \<open>Properties\<close>

text \<open>
  The recursive chunker: its chunks are pieces of the splitter, stripped and not blank, and their start
  offsets strictly increase.
\<close>

theorem recursive_spans:
  assumes "chunk_recursive E blocks = Inr cs"
  shows "sorted_wrt (\<lambda>c d. int_or0 (ck_start c) < int_or0 (ck_start d)) cs \<and>
    list_all (\<lambda>c. ck_text c \<noteq> [] \<and>
      (\<exists>pieces p s. ce_split E (doc_text blocks) = Inr pieces \<and> p \<in> set pieces \<and> ck_text c = strip p \<and>
        ck_start c = Some (int s) \<and> ck_end c = Some (int (s + length p)))) cs"
proof (cases "strip (doc_text blocks) = []")
  case True
  then show ?thesis using assms by (simp add: chunk_recursive_def)
next
  case False
  then obtain pieces all_cs where p: "ce_split E (doc_text blocks) = Inr pieces"
    "piece_loop E blocks (doc_text blocks) 0 pieces = Inr all_cs" "cs = filter (\<lambda>c. ck_text c \<noteq> []) all_cs"
    using assms by (auto simp: chunk_recursive_def Let_def try_bind_eq_Inr)
  have "sorted_wrt (\<lambda>c d. int_or0 (ck_start c) < int_or0 (ck_start d)) cs"
    using piece_loop_starts [OF p(2)] by (simp add: p(3) sorted_wrt_filter)
  moreover have "ck_text c \<noteq> [] \<and> (\<exists>p s. p \<in> set pieces \<and> ck_text c = strip p \<and>
      ck_start c = Some (int s) \<and> ck_end c = Some (int (s + length p)))" if "c \<in> set cs" for c
    using piece_loop_from [OF p(2), of c] that by (auto simp: p(3))
  ultimately show ?thesis using p(1) by (auto simp: list_all_iff)
qed

text \<open>
  The header chunker: the sections are the blocks in order, cut exactly before the headings, and when the
  sections fit the token budget the text of every block is found in the chunk of its section.
\<close>

theorem header_chunks_complete:
  assumes "list_all (\<lambda>g. \<exists>n. ce_count E (doc_text g) = Inr n \<and> n \<le> ce_size E) (group_blocks [] [] blocks)"
    and "b \<in> set blocks" and "has_text b" and "chunk_markdown E blocks = Inr cs"
  shows "concat (group_blocks [] [] blocks) = blocks \<and>
    list_all starts_section (tl (group_blocks [] [] blocks)) \<and>
    list_all one_heading (group_blocks [] [] blocks) \<and>
    (\<exists>g c. g \<in> set (group_blocks [] [] blocks) \<and> b \<in> set g \<and> c \<in> set cs \<and>
      ck_section c = group_section g \<and> contains (strip (pb_text b)) (ck_text c))"
proof -
  obtain b0 bs where bs: "blocks = b0 # bs" using assms(2) by (cases blocks) auto
  have cut: "list_all starts_section (tl (group_blocks [] [] blocks)) \<and>
      list_all one_heading (group_blocks [] [] blocks)"
    using group_blocks_first [of "[b0]" bs] by (simp add: bs one_heading_def)
  have cat: "concat (group_blocks [] [] blocks) = blocks" by (simp add: group_blocks_concat)
  then have "b \<in> set (concat (group_blocks [] [] blocks))" using assms(2) by simp
  then obtain g where g: "g \<in> set (group_blocks [] [] blocks)" "b \<in> set g" by auto
  then obtain n where n: "ce_count E (doc_text g) = Inr n" "n \<le> ce_size E" using assms(1) by (auto simp: list_all_iff)
  have group: "chunk_group E g = Inr [section_chunk g n]"
    using g(2) doc_text_block [OF g(2) assms(3)] n by (auto simp: chunk_group_def)
  obtain css where css: "try_map (chunk_group E) (group_blocks [] [] blocks) = Inr css" "cs = concat css"
    using assms(4) bs by (auto simp: chunk_markdown_def try_bind_eq_Inr)
  have "try_map f xs = Inr ys \<Longrightarrow> x \<in> set xs \<Longrightarrow> f x = Inr y \<Longrightarrow> y \<in> set ys" for f :: "'c \<Rightarrow> 'd + 'e" and xs ys x y
    by (induction xs arbitrary: ys) (auto simp: try_bind_eq_Inr)
  from this [OF css(1) g(1) group] have "section_chunk g n \<in> set cs"
    using css(2) by (auto intro!: bexI [of _ "[section_chunk g n]"])
  moreover have "ck_section (section_chunk g n) = group_section g"
    "contains (strip (pb_text b)) (ck_text (section_chunk g n))"
    using doc_text_block [OF g(2) assms(3)] by (simp_all add: section_chunk_def)
  ultimately show ?thesis using cut cat g by blast
qed

definition sample_chunk_env :: chunk_env where
  "sample_chunk_env = \<lparr> ce_split = (\<lambda>s. Inr [s]), ce_count = (\<lambda>s. Inr (length s)), ce_size = 8, ce_overlap = 2 \<rparr>"

definition sample_md :: string where
  "sample_md = ''# A'' @ nl @ ''one'' @ nl @ ''# B'' @ nl @ ''two''"

theorem header_chunks_complete_witness:
  "\<exists>cs g c. chunk_markdown sample_chunk_env (pd_blocks (parse_markdown sample_md None)) = Inr cs \<and>
     g \<in> set (group_blocks [] [] (pd_blocks (parse_markdown sample_md None))) \<and> c \<in> set cs \<and>
     ck_section c = group_section g \<and> contains ''two'' (ck_text c)"
proof -
  let ?bs = "pd_blocks (parse_markdown sample_md None)"
  have "list_all (\<lambda>g. length (doc_text g) \<le> ce_size sample_chunk_env) (group_blocks [] [] ?bs)" by code_simp
  then have a: "list_all (\<lambda>g. \<exists>n. ce_count sample_chunk_env (doc_text g) = Inr n \<and> n \<le> ce_size sample_chunk_env)
      (group_blocks [] [] ?bs)" by (simp add: sample_chunk_env_def list_all_iff)
  have m: "?bs ! 3 \<in> set ?bs" by (rule nth_mem) code_simp
  have h: "has_text (?bs ! 3)" "strip (pb_text (?bs ! 3)) = ''two''" by code_simp+
  have "case chunk_markdown sample_chunk_env ?bs of Inl e \<Rightarrow> False | Inr cs \<Rightarrow> True" by code_simp
  then obtain cs where cs: "chunk_markdown sample_chunk_env ?bs = Inr cs" by (auto split: sum.splits)
  show ?thesis using header_chunks_complete [OF a m h(1) cs] h(2) cs by metis
qed

text \<open>
  A section over the budget is split on its own text, so the offsets of its chunks count from the start of
  the section: here the second section starts at 8, its chunk at 0.
\<close>

lemma oversize_section_offsets:
  "let bs = pd_blocks (parse_markdown (''# A'' @ nl @ ''one'' @ nl @ ''# B'' @ nl @ ''two three four'') None) in
     map pb_start (filter is_heading bs) = [Some 0, Some 8] \<and>
     (case chunk_markdown sample_chunk_env bs of Inl e \<Rightarrow> False | Inr cs \<Rightarrow> map ck_start cs = [Some 0, Some 0])"
  by code_simp

end
