(* ===== verification/IngestPipeline.thy ===== *)
theory IngestPipeline
  imports Connectors WebCrawl Chunking
begin

text \<open>
  The ingestion pipeline (\<open>indexing/pipeline.py\<close>) with the enrichment toggle (\<open>core/enrichment.py\<close>):
  one source document goes through a database session, the vector store, the object storage, the parser,
  the chunker and the embeddings.  The session commits at the end or rolls back; the vector store and the
  object storage act at once, outside of it.  Hashing, the parsers, the embeddings and what the database
  and the storage answer to a write are parameters.
\<close>

section \<open>Enrichment\<close>

definition enrichment_enabled :: "tenant_settings \<Rightarrow> bool \<Rightarrow> bool" where
  "enrichment_enabled ts dflt =
     (case dget (settings_dict ts) ''enrichment'' of
        JObj block \<Rightarrow> (case dget block ''auto'' of JBool b \<Rightarrow> b | _ \<Rightarrow> dflt)
      | _ \<Rightarrow> dflt)"

definition with_enrichment :: "tenant_settings \<Rightarrow> bool \<Rightarrow> exn + jdict" where
  "with_enrichment ts auto =
     try_bind (dict_or_empty (dget (settings_dict ts) ''enrichment'')) (\<lambda>block.
       Inr (dset (settings_dict ts) ''enrichment'' (JObj (dset block ''auto'' (JBool auto)))))"

section \<open>Titles\<close>

definition TITLE_APPS :: "string list" where
  "TITLE_APPS = [''microsoft word'', ''microsoft powerpoint'', ''microsoft excel'']"

text \<open>\<open>^Microsoft (?:Word|PowerPoint|Excel)\s*-\s*\<close>, removed from the front.\<close>

definition strip_office :: "string \<Rightarrow> string" where
  "strip_office t =
     (case find (\<lambda>a. starts_ci a t) TITLE_APPS of
        None \<Rightarrow> t
      | Some a \<Rightarrow>
          (case skip_space (drop (length a) t) of
             [] \<Rightarrow> t
           | c # r \<Rightarrow> if c = CHR ''-'' then skip_space r else t))"

definition TITLE_EXTS :: "string list" where
  "TITLE_EXTS = [''.pdf'', ''.doc'', ''.docx'', ''.ppt'', ''.pptx'', ''.xls'', ''.xlsx'', ''.txt'',
     ''.md'', ''.htm'', ''.html'']"

definition strip_ext :: "string \<Rightarrow> string" where
  "strip_ext t =
     (case find (\<lambda>e. endswith e (lower t)) TITLE_EXTS of
        None \<Rightarrow> t
      | Some e \<Rightarrow> take (length t - length e) t)"

definition JUNK_WORDS :: "string list" where
  "JUNK_WORDS = [''untitled'', ''document'', ''presentation'', ''workbook'', ''book'', ''slide'']"

definition junk_title :: "string \<Rightarrow> bool" where
  "junk_title t =
     list_ex (\<lambda>w. starts_ci w t \<and>
       dropWhile is_digit (dropWhile (\<lambda>c. is_space c \<or> c = CHR ''-'' \<or> c = CHR ''_'')
         (drop (length w) t)) = []) JUNK_WORDS"

definition clean_doc_title :: "string option \<Rightarrow> string option" where
  "clean_doc_title title =
     (if \<not> str_true title then None
      else
        let c = strip (strip_ext (strip (strip_office (the title)))) in
        if c = [] \<or> junk_title c then None else Some c)"

definition filename_stem :: "string option \<Rightarrow> string option" where
  "filename_stem name =
     (if \<not> str_true name then None
      else or_none (strip (rsplit_head (CHR ''.'') (rsplit_last (CHR ''/'') (the name)))))"

section \<open>State\<close>

record document =
  dc_id :: uuid
  dc_tenant :: uuid
  dc_title :: string
  dc_uri :: string
  dc_storage_key :: "string option"
  dc_doc_type :: "string option"
  dc_superseded_at :: "(nat \<times> nat \<times> nat) option"
  dc_active :: bool
  dc_summary :: "string option"
  dc_hash :: "string option"
  dc_size :: nat
  dc_metadata :: jdict

record 'v stored_chunk =
  cw_id :: uuid
  cw_tenant :: uuid
  cw_document :: uuid
  cw_content :: string
  cw_embedding :: 'v
  cw_section :: "string option"
  cw_page :: "int option"
  cw_start :: "int option"
  cw_end :: "int option"
  cw_tokens :: "nat option"
  cw_metadata :: jdict

record ingestion_job =
  jb_id :: uuid
  jb_tenant :: uuid
  jb_document :: "uuid option"
  jb_uri :: string
  jb_status :: string
  jb_error :: "string option"
  jb_payload :: jdict
  jb_started :: int
  jb_finished :: int

text \<open>The database, the object storage, the task queue, and how many ids were drawn.\<close>

record 'v store =
  so_docs :: "document list"
  so_chunks :: "'v stored_chunk list"
  so_jobs :: "ingestion_job list"
  so_objects :: "string \<rightharpoonup> string \<times> string option"
  so_tasks :: "task list"
  so_drawn :: nat

record ingestion_result =
  ir_document_id :: uuid
  ir_job_id :: uuid
  ir_source_uri :: string
  ir_chunks_written :: nat
  ir_skipped :: bool
  ir_note :: string

text \<open>
  The environment of one run: the n-th random id, the time by the ids drawn, SHA-256, the parsers, the
  embeddings, and the exceptions the database and the storage raise on a write, if any.
\<close>

record 'v ingest_env =
  ie_uuid :: "nat \<Rightarrow> uuid"
  ie_clock :: "nat \<Rightarrow> int"
  ie_hash :: "string \<Rightarrow> string"
  ie_guess :: "string \<Rightarrow> string option"
  ie_parse :: "parser \<Rightarrow> string \<Rightarrow> string option \<Rightarrow> exn + parsed_document"
  ie_chunking :: chunk_env
  ie_embed :: "string list \<Rightarrow> exn + 'v list"
  ie_zero :: 'v
  ie_flush_doc :: "document \<Rightarrow> exn option"
  ie_flush_rows :: "'v stored_chunk list \<Rightarrow> exn option"
  ie_put :: "string \<Rightarrow> string \<Rightarrow> exn option"
  ie_broker_up :: bool
  ie_tenants :: "tenant list"
  ie_default_enrich :: bool

section \<open>The document row\<close>

definition docs_at :: "'v store \<Rightarrow> uuid \<Rightarrow> string \<Rightarrow> document list" where
  "docs_at st tid uri = filter (\<lambda>d. dc_tenant d = tid \<and> dc_uri d = uri) (so_docs st)"

definition or_str :: "string option \<Rightarrow> string \<Rightarrow> string" where
  "or_str x y = (if str_true x then the x else y)"

definition placeholder_title :: "source_document \<Rightarrow> string \<Rightarrow> bool" where
  "placeholder_title src t = (t = [] \<or> sd_filename src = Some t \<or> sd_uri src = t)"

definition new_document :: "uuid \<Rightarrow> uuid \<Rightarrow> source_document \<Rightarrow> document" where
  "new_document did tid src =
     \<lparr> dc_id = did, dc_tenant = tid,
       dc_title = or_str (sd_title src) (or_str (sd_filename src) (sd_uri src)),
       dc_uri = sd_uri src, dc_storage_key = None, dc_doc_type = None, dc_superseded_at = None,
       dc_active = True, dc_summary = None, dc_hash = None, dc_size = 0, dc_metadata = [] \<rparr>"

definition source_metadata :: "source_document \<Rightarrow> document \<Rightarrow> document" where
  "source_metadata src d =
     (let d1 =
        (if sd_metadata src = [] then d
         else
           let ty = dget (sd_metadata src) ''doc_type'' in
           d\<lparr> dc_metadata := dmerge (dc_metadata d) (sd_metadata src),
              dc_doc_type := (if truthy ty \<and> \<not> str_true (dc_doc_type d)
                then Some (take 64 (py_str ty)) else dc_doc_type d) \<rparr>);
          d2 = (if str_true (sd_filename src)
            then d1\<lparr> dc_metadata := dset (dc_metadata d1) ''original_filename'' (JStr (the (sd_filename src))) \<rparr>
            else d1)
      in if str_true (sd_content_type src)
         then d2\<lparr> dc_metadata := dset (dc_metadata d2) ''content_type'' (JStr (the (sd_content_type src))) \<rparr>
         else d2)"

text \<open>The row that \<open>_upsert_document\<close> flushes: a new one, or the old one with the new content.\<close>

definition upsert_document :: "uuid \<Rightarrow> uuid \<Rightarrow> source_document \<Rightarrow> string \<Rightarrow> document option \<Rightarrow> document" where
  "upsert_document did tid src digest found =
     (let d = (case found of
          None \<Rightarrow> new_document did tid src
        | Some d \<Rightarrow>
            if str_true (sd_title src) \<and> placeholder_title src (dc_title d)
            then d\<lparr> dc_title := the (sd_title src) \<rparr> else d)
      in source_metadata src
           (d\<lparr> dc_hash := Some digest, dc_size := length (sd_data src),
              dc_storage_key := Some (''tenants/'' @ tid @ ''/docs/'' @ dc_id d) \<rparr>))"

text \<open>What the parsed document adds to the row.\<close>

definition parsed_title :: "source_document \<Rightarrow> parsed_document \<Rightarrow> string \<Rightarrow> string" where
  "parsed_title src p t =
     (if placeholder_title src t
      then (case clean_doc_title (pd_title p) of
          Some b \<Rightarrow> b
        | None \<Rightarrow> (case filename_stem (sd_filename src) of Some b \<Rightarrow> b | None \<Rightarrow> t))
      else t)"

definition apply_parsed :: "source_document \<Rightarrow> parsed_document \<Rightarrow> document \<Rightarrow> document" where
  "apply_parsed src p d =
     (let s = detect_supersession p (Some (sd_uri src));
          d1 = d\<lparr> dc_title := parsed_title src p (dc_title d) \<rparr>;
          d2 = (if ss_superseded s then d1\<lparr> dc_active := False, dc_superseded_at := ss_at s \<rparr> else d1)
      in if pd_metadata p = [] then d2
         else d2\<lparr> dc_metadata := dmerge (dc_metadata d2) (pd_metadata p) \<rparr>)"

section \<open>Chunk rows\<close>

definition EMBED_BATCH_SIZE :: nat where
  "EMBED_BATCH_SIZE = 64"

definition strip_nul :: "string \<Rightarrow> string" where
  "strip_nul s = filter (\<lambda>c. c \<noteq> CHR 0x00) s"

definition row_of_chunk :: "'v ingest_env \<Rightarrow> uuid \<Rightarrow> document \<Rightarrow> nat \<Rightarrow> chunk \<Rightarrow> 'v stored_chunk" where
  "row_of_chunk E tid d n c =
     \<lparr> cw_id = ie_uuid E n, cw_tenant = tid, cw_document = dc_id d,
       cw_content = strip_nul (ck_text c), cw_embedding = ie_zero E,
       cw_section = map_option strip_nul (ck_section c), cw_page = ck_page c,
       cw_start = ck_start c, cw_end = ck_end c, cw_tokens = ck_tokens c,
       cw_metadata = ck_metadata c \<rparr>"

fun number_from :: "nat \<Rightarrow> 'a list \<Rightarrow> (nat \<times> 'a) list" where
  "number_from n [] = []"
| "number_from n (x # xs) = (n, x) # number_from (Suc n) xs"

text \<open>The embeddings of the rows, batch by batch; a batch must return as many vectors as it was given texts.\<close>

function embed_rows :: "'v ingest_env \<Rightarrow> 'v stored_chunk list \<Rightarrow> exn + 'v stored_chunk list" where
  "embed_rows E [] = Inr []"
| "embed_rows E (r # rs) =
     (let batch = take EMBED_BATCH_SIZE (r # rs) in
       try_bind (ie_embed E (map cw_content batch)) (\<lambda>vs.
         if length vs \<noteq> length batch then Inl (PyExc ValueError)
         else try_bind (embed_rows E (drop EMBED_BATCH_SIZE (r # rs))) (\<lambda>rest.
           Inr (map (\<lambda>(b, v). b\<lparr> cw_embedding := v \<rparr>) (zip batch vs) @ rest))))"
  by pat_completeness auto
termination by (relation "measure (\<lambda>(E, rs). length rs)") (auto simp: EMBED_BATCH_SIZE_def)

definition write_chunks ::
  "'v ingest_env \<Rightarrow> uuid \<Rightarrow> document \<Rightarrow> nat \<Rightarrow> chunk list \<Rightarrow> exn + 'v stored_chunk list" where
  "write_chunks E tid d n chunks =
     (let rows = map (\<lambda>(i, c). row_of_chunk E tid d i c) (number_from n chunks) in
       if chunks = [] then Inr []
       else case ie_flush_rows E rows of
         Some e \<Rightarrow> Inl e
       | None \<Rightarrow> embed_rows E rows)"

section \<open>One document\<close>

definition delete_chunks :: "uuid \<Rightarrow> uuid \<Rightarrow> 'v store \<Rightarrow> 'v store" where
  "delete_chunks tid did st =
     st\<lparr> so_chunks := filter (\<lambda>c. \<not> (cw_document c = did \<and> cw_tenant c = tid)) (so_chunks st) \<rparr>"

definition put_row :: "document \<Rightarrow> document list \<Rightarrow> document list" where
  "put_row d ds =
     (if dc_id d \<in> dc_id ` set ds then map (\<lambda>x. if dc_id x = dc_id d then d else x) ds else ds @ [d])"

definition add_job ::
  "'v ingest_env \<Rightarrow> uuid \<Rightarrow> source_document \<Rightarrow> nat \<Rightarrow> nat \<Rightarrow> uuid option \<Rightarrow> string \<Rightarrow> string option \<Rightarrow>
   'v store \<Rightarrow> 'v store" where
  "add_job E tid src n drawn did status err st =
     st\<lparr> so_jobs := so_jobs st @
          [\<lparr> jb_id = ie_uuid E n, jb_tenant = tid, jb_document = did, jb_uri = sd_uri src,
             jb_status = status, jb_error = (if str_true err then err else None),
             jb_payload = [(''filename'', opt_str (sd_filename src))],
             jb_started = ie_clock E n, jb_finished = ie_clock E drawn \<rparr>],
         so_drawn := drawn \<rparr>"

text \<open>
  The rollback: the rows of the session are gone, what the vector store and the storage did stays, and the
  job is written in a session of its own.
\<close>

definition fail ::
  "'v ingest_env \<Rightarrow> uuid \<Rightarrow> source_document \<Rightarrow> nat \<Rightarrow> exn \<Rightarrow> 'v store \<Rightarrow> 'v store \<times> (exn + ingestion_result)" where
  "fail E tid src n e st =
     (add_job E tid src n (n + 2) None ''failed'' (Some (exn_message e)) st, Inl e)"

definition parse_source :: "'v ingest_env \<Rightarrow> source_document \<Rightarrow> exn + parsed_document" where
  "parse_source E src =
     try_bind (get_parser (or_str (sd_content_type src) (detect_content_type (ie_guess E) (sd_filename src))))
       (\<lambda>p. ie_parse E p (sd_data src) (sd_filename src))"

definition should_enrich :: "'v ingest_env \<Rightarrow> uuid \<Rightarrow> bool" where
  "should_enrich E tid =
     enrichment_enabled (load_tenant_settings (tenant_db (ie_tenants E)) tid) (ie_default_enrich E)"

definition finish ::
  "'v ingest_env \<Rightarrow> uuid \<Rightarrow> source_document \<Rightarrow> nat \<Rightarrow> document \<Rightarrow> 'v stored_chunk list \<Rightarrow> 'v store \<Rightarrow>
   'v store \<times> (exn + ingestion_result)" where
  "finish E tid src n d rows st =
     (let st1 = add_job E tid src n (n + 2 + length rows) (Some (dc_id d)) ''success'' None
            (st\<lparr> so_docs := put_row d (so_docs st), so_chunks := so_chunks st @ rows \<rparr>);
          st2 = (if rows \<noteq> [] \<and> should_enrich E tid \<and> ie_broker_up E
                 then st1\<lparr> so_tasks := so_tasks st1 @ [SummariseDocument (dc_tenant d) (dc_id d)] \<rparr>
                 else st1)
      in (st2, Inr \<lparr> ir_document_id = dc_id d, ir_job_id = ie_uuid E n, ir_source_uri = sd_uri src,
            ir_chunks_written = length rows, ir_skipped = False, ir_note = [] \<rparr>))"

text \<open>After the row is flushed and the old chunks are deleted.\<close>

definition index_document ::
  "'v ingest_env \<Rightarrow> uuid \<Rightarrow> source_document \<Rightarrow> nat \<Rightarrow> document \<Rightarrow> 'v store \<Rightarrow>
   'v store \<times> (exn + ingestion_result)" where
  "index_document E tid src n d st =
     (let key = or_str (dc_storage_key d) [] in
       case ie_put E key (sd_data src) of
         Some e \<Rightarrow> fail E tid src n e st
       | None \<Rightarrow>
           let st1 = st\<lparr> so_objects := (so_objects st)(key \<mapsto> (sd_data src, sd_content_type src)) \<rparr> in
           (case parse_source E src of
              Inl e \<Rightarrow> fail E tid src n e st1
            | Inr p \<Rightarrow>
                let d' = apply_parsed src p d in
                (case try_bind (chunk_document (ie_chunking E) p) (write_chunks E tid d' (n + 2)) of
                   Inl e \<Rightarrow> fail E tid src n e st1
                 | Inr rows \<Rightarrow>
                     (case ie_flush_doc E d' of
                        Some e \<Rightarrow> fail E tid src n e st1
                      | None \<Rightarrow> finish E tid src n d' rows st1))))"

definition ingest_one ::
  "'v ingest_env \<Rightarrow> uuid \<Rightarrow> source_document \<Rightarrow> 'v store \<Rightarrow> 'v store \<times> (exn + ingestion_result)" where
  "ingest_one E tid src st =
     (let digest = ie_hash E (sd_data src); n = so_drawn st in
       case one_or_none (docs_at st tid (sd_uri src)) of
         Inl e \<Rightarrow> fail E tid src n e st
       | Inr found \<Rightarrow>
           if (case found of None \<Rightarrow> False | Some d \<Rightarrow> dc_hash d = Some digest)
           then (add_job E tid src n (n + 2) None ''skipped'' None st,
                 Inr \<lparr> ir_document_id = ie_uuid E (n + 1), ir_job_id = ie_uuid E n,
                   ir_source_uri = sd_uri src, ir_chunks_written = 0, ir_skipped = True,
                   ir_note = ''already up to date'' \<rparr>)
           else
             let d = upsert_document (ie_uuid E (n + 1)) tid src digest found in
             (case ie_flush_doc E d of
                Some e \<Rightarrow> fail E tid src n e st
              | None \<Rightarrow>
                  index_document E tid src n d
                    (if found = None then st else delete_chunks tid (dc_id d) st)))"

text \<open>The loop over the documents of a connector: a failed document becomes a result of its own.\<close>

fun ingest ::
  "'v ingest_env \<Rightarrow> uuid \<Rightarrow> source_document list \<Rightarrow> 'v store \<Rightarrow> 'v store \<times> ingestion_result list" where
  "ingest E tid [] st = (st, [])"
| "ingest E tid (src # srcs) st =
     (case ingest_one E tid src st of
        (st1, Inr r) \<Rightarrow> (case ingest E tid srcs st1 of (st2, rs) \<Rightarrow> (st2, r # rs))
      | (st1, Inl e) \<Rightarrow>
          let n = so_drawn st1;
              r = \<lparr> ir_document_id = ie_uuid E n, ir_job_id = ie_uuid E (n + 1),
                ir_source_uri = sd_uri src, ir_chunks_written = 0, ir_skipped = True,
                ir_note = ''error: '' @ exn_message e \<rparr>
          in (case ingest E tid srcs (st1\<lparr> so_drawn := n + 2 \<rparr>) of (st2, rs) \<Rightarrow> (st2, r # rs)))"

section \<open>Lemmas\<close>

lemma source_metadata_frame [simp]:
  "dc_id (source_metadata src d) = dc_id d" "dc_tenant (source_metadata src d) = dc_tenant d"
  "dc_uri (source_metadata src d) = dc_uri d" "dc_hash (source_metadata src d) = dc_hash d"
  "dc_storage_key (source_metadata src d) = dc_storage_key d"
  by (simp_all add: source_metadata_def Let_def)

lemma apply_parsed_frame [simp]:
  "dc_id (apply_parsed src p d) = dc_id d" "dc_tenant (apply_parsed src p d) = dc_tenant d"
  "dc_uri (apply_parsed src p d) = dc_uri d" "dc_hash (apply_parsed src p d) = dc_hash d"
  by (simp_all add: apply_parsed_def Let_def)

text \<open>Nothing in the pipeline makes an inactive document active again.\<close>

lemma apply_parsed_inactive: "\<not> dc_active d \<Longrightarrow> \<not> dc_active (apply_parsed src p d)"
  by (simp add: apply_parsed_def Let_def)

lemma upsert_frame:
  "dc_id (upsert_document did tid src g found) = (case found of None \<Rightarrow> did | Some d \<Rightarrow> dc_id d)"
  "dc_tenant (upsert_document did tid src g found) = (case found of None \<Rightarrow> tid | Some d \<Rightarrow> dc_tenant d)"
  "dc_uri (upsert_document did tid src g found) = (case found of None \<Rightarrow> sd_uri src | Some d \<Rightarrow> dc_uri d)"
  "dc_hash (upsert_document did tid src g found) = Some g"
  by (simp_all add: upsert_document_def new_document_def Let_def split: option.split)

lemma number_from_fst: "map fst (number_from n xs) = [n..<n + length xs]"
proof (induction xs arbitrary: n)
  case (Cons x xs)
  have "[n..<n + length (x # xs)] = n # [Suc n..<n + length (x # xs)]" by (rule upt_conv_Cons) simp
  then show ?case using Cons by simp
qed simp

lemma length_number_from [simp]: "length (number_from n xs) = length xs"
  by (induction xs arbitrary: n) simp_all

definition row_key :: "'v stored_chunk \<Rightarrow> uuid \<times> uuid \<times> uuid" where
  "row_key r = (cw_id r, cw_tenant r, cw_document r)"

lemma zip_row_keys: "length vs = length rs \<Longrightarrow>
    map row_key (map (\<lambda>(b, v). b\<lparr> cw_embedding := v \<rparr>) (zip rs vs)) = map row_key rs"
proof (induction rs arbitrary: vs)
  case (Cons r rs)
  then show ?case by (cases vs) (simp_all add: row_key_def)
qed simp

lemma embed_rows_keys: "embed_rows E rs = Inr out \<Longrightarrow> map row_key out = map row_key rs"
proof (induction E rs arbitrary: out rule: embed_rows.induct)
  case (2 E r rs)
  let ?b = "take EMBED_BATCH_SIZE (r # rs)" and ?d = "drop EMBED_BATCH_SIZE (r # rs)"
  obtain vs rest where vs: "ie_embed E (map cw_content ?b) = Inr vs" "length vs = length ?b"
    "embed_rows E ?d = Inr rest"
    "out = map (\<lambda>(b, v). b\<lparr> cw_embedding := v \<rparr>) (zip ?b vs) @ rest"
    using "2.prems" by (auto simp: try_bind_eq_Inr Let_def split: if_splits)
  have "map row_key rest = map row_key ?d" using "2.IH" [OF refl, of vs] vs by auto
  then have "map row_key out = map row_key ?b @ map row_key ?d"
    using zip_row_keys [OF vs(2)] vs(4) by (simp only: map_append)
  then show ?case by (simp only: map_append [symmetric] append_take_drop_id)
qed simp

lemma write_chunks_keys:
  assumes "write_chunks E tid d n cs = Inr rows"
  shows "map row_key rows = map (\<lambda>i. (ie_uuid E i, tid, dc_id d)) [n..<n + length cs]"
    and "length rows = length cs"
proof -
  let ?r = "map (\<lambda>(i, c). row_of_chunk E tid d i c) (number_from n cs)"
  have k: "map row_key ?r = map (\<lambda>i. (ie_uuid E i, tid, dc_id d)) (map fst (number_from n cs))"
    by (simp add: row_key_def row_of_chunk_def split_def comp_def)
  have "map row_key rows = map row_key ?r"
  proof (cases "cs = []")
    case True
    then show ?thesis using assms by (simp add: write_chunks_def)
  next
    case False
    then show ?thesis using assms embed_rows_keys [of E ?r rows]
      by (auto simp: write_chunks_def Let_def split: option.splits)
  qed
  then show keys: "map row_key rows = map (\<lambda>i. (ie_uuid E i, tid, dc_id d)) [n..<n + length cs]"
    using k by (simp only: number_from_fst)
  show "length rows = length cs" using arg_cong [OF keys, of length] by simp
qed

lemma add_job_frame [simp]:
  "so_docs (add_job E tid src n k did s e st) = so_docs st"
  "so_chunks (add_job E tid src n k did s e st) = so_chunks st"
  "so_objects (add_job E tid src n k did s e st) = so_objects st"
  "so_tasks (add_job E tid src n k did s e st) = so_tasks st"
  "so_drawn (add_job E tid src n k did s e st) = k"
  by (simp_all add: add_job_def)

lemma finish_frame:
  assumes "finish E tid src n d rows st = (st', r)"
  shows "so_docs st' = put_row d (so_docs st)" "so_chunks st' = so_chunks st @ rows"
    "so_drawn st' = n + 2 + length rows" "\<exists>res. r = Inr res \<and> \<not> ir_skipped res \<and>
      ir_chunks_written res = length rows \<and> ir_document_id res = dc_id d"
  using assms by (auto simp: finish_def Let_def)

text \<open>The three ways a document can go.\<close>

lemma one_or_none_Inr: "one_or_none xs = Inr found \<Longrightarrow> xs = (case found of None \<Rightarrow> [] | Some x \<Rightarrow> [x])"
  by (auto simp: one_or_none_def split: list.splits)

lemma index_document_cases:
  assumes "index_document E tid src n d st = (st', r)"
  obtains (failed) e where "r = Inl e" "so_docs st' = so_docs st" "so_chunks st' = so_chunks st"
      "so_drawn st' = n + 2"
  | (stored) p rows where "r = Inr \<lparr> ir_document_id = dc_id d, ir_job_id = ie_uuid E n,
        ir_source_uri = sd_uri src, ir_chunks_written = length rows, ir_skipped = False, ir_note = [] \<rparr>"
      "so_docs st' = put_row (apply_parsed src p d) (so_docs st)" "so_chunks st' = so_chunks st @ rows"
      "so_drawn st' = n + 2 + length rows"
      "map row_key rows = map (\<lambda>i. (ie_uuid E i, tid, dc_id d)) [n + 2..<n + 2 + length rows]"
proof -
  have "(\<exists>e. r = Inl e \<and> so_docs st' = so_docs st \<and> so_chunks st' = so_chunks st \<and> so_drawn st' = n + 2) \<or>
    (\<exists>p rows. r = Inr \<lparr> ir_document_id = dc_id d, ir_job_id = ie_uuid E n,
        ir_source_uri = sd_uri src, ir_chunks_written = length rows, ir_skipped = False, ir_note = [] \<rparr> \<and>
      so_docs st' = put_row (apply_parsed src p d) (so_docs st) \<and> so_chunks st' = so_chunks st @ rows \<and>
      so_drawn st' = n + 2 + length rows \<and>
      map row_key rows = map (\<lambda>i. (ie_uuid E i, tid, dc_id d)) [n + 2..<n + 2 + length rows])"
  proof (cases "ie_put E (or_str (dc_storage_key d) []) (sd_data src)")
    case (Some e)
    then show ?thesis using assms by (auto simp: index_document_def fail_def)
  next
    case put: None
    show ?thesis
    proof (cases "parse_source E src")
      case (Inl e)
      then show ?thesis using assms put by (auto simp: index_document_def fail_def Let_def)
    next
      case p: (Inr p)
      let ?d = "apply_parsed src p d"
      show ?thesis
      proof (cases "try_bind (chunk_document (ie_chunking E) p) (write_chunks E tid ?d (n + 2))")
        case (Inl e)
        then show ?thesis using assms put p by (auto simp: index_document_def fail_def Let_def)
      next
        case w: (Inr rows)
        obtain cs where cs: "write_chunks E tid ?d (n + 2) cs = Inr rows" using w by (auto simp: try_bind_eq_Inr)
        have k: "map row_key rows = map (\<lambda>i. (ie_uuid E i, tid, dc_id d)) [n + 2..<n + 2 + length rows]"
          using write_chunks_keys [OF cs] by simp
        show ?thesis
        proof (cases "ie_flush_doc E ?d")
          case (Some e)
          then show ?thesis using assms put p w by (auto simp: index_document_def fail_def Let_def)
        next
          case None
          then show ?thesis using assms put p w k
            by (auto simp: index_document_def finish_def Let_def intro!: exI [of _ p] exI [of _ rows])
        qed
      qed
    qed
  qed
  then show thesis using that by blast
qed

lemma docs_at_tenant: "docs_at st tid uri = [d] \<Longrightarrow> d \<in> set (so_docs st) \<and> dc_tenant d = tid \<and> dc_uri d = uri"
proof -
  assume "docs_at st tid uri = [d]"
  then have "d \<in> set (docs_at st tid uri)" by simp
  then show ?thesis by (simp add: docs_at_def)
qed

definition kept_chunks :: "uuid \<Rightarrow> document option \<Rightarrow> 'v store \<Rightarrow> 'v stored_chunk list" where
  "kept_chunks tid found st =
     (case found of None \<Rightarrow> so_chunks st | Some d \<Rightarrow> so_chunks (delete_chunks tid (dc_id d) st))"

lemma ingest_one_cases:
  assumes "ingest_one E tid src st = (st', r)"
  obtains (skipped) d where "docs_at st tid (sd_uri src) = [d]" "dc_hash d = Some (ie_hash E (sd_data src))"
      "st' = add_job E tid src (so_drawn st) (so_drawn st + 2) None ''skipped'' None st"
      "r = Inr \<lparr> ir_document_id = ie_uuid E (so_drawn st + 1), ir_job_id = ie_uuid E (so_drawn st),
         ir_source_uri = sd_uri src, ir_chunks_written = 0, ir_skipped = True,
         ir_note = ''already up to date'' \<rparr>"
  | (failed) e where "r = Inl e" "so_docs st' = so_docs st" "so_drawn st' = so_drawn st + 2"
      "so_chunks st' = so_chunks st \<or>
        (\<exists>d. docs_at st tid (sd_uri src) = [d] \<and> so_chunks st' = kept_chunks tid (Some d) st)"
  | (stored) found d rows where
      "docs_at st tid (sd_uri src) = (case found of None \<Rightarrow> [] | Some x \<Rightarrow> [x])"
      "dc_id d = (case found of None \<Rightarrow> ie_uuid E (so_drawn st + 1) | Some x \<Rightarrow> dc_id x)"
      "dc_tenant d = tid" "dc_uri d = sd_uri src" "dc_hash d = Some (ie_hash E (sd_data src))"
      "r = Inr \<lparr> ir_document_id = dc_id d, ir_job_id = ie_uuid E (so_drawn st),
         ir_source_uri = sd_uri src, ir_chunks_written = length rows, ir_skipped = False, ir_note = [] \<rparr>"
      "so_docs st' = put_row d (so_docs st)" "so_chunks st' = kept_chunks tid found st @ rows"
      "so_drawn st' = so_drawn st + 2 + length rows"
      "map row_key rows =
        map (\<lambda>i. (ie_uuid E i, tid, dc_id d)) [so_drawn st + 2..<so_drawn st + 2 + length rows]"
proof (cases "one_or_none (docs_at st tid (sd_uri src))")
  case (Inl e)
  show thesis
    by (rule failed [of e]) (use assms Inl in \<open>auto simp: ingest_one_def fail_def Let_def\<close>)
next
  case (Inr found)
  have at: "docs_at st tid (sd_uri src) = (case found of None \<Rightarrow> [] | Some x \<Rightarrow> [x])"
    using one_or_none_Inr [OF Inr] .
  let ?n = "so_drawn st" and ?g = "ie_hash E (sd_data src)"
  let ?d = "upsert_document (ie_uuid E (?n + 1)) tid src ?g found"
  let ?st = "if found = None then st else delete_chunks tid (dc_id ?d) st"
  have tu: "dc_tenant ?d = tid" "dc_uri ?d = sd_uri src"
    using at docs_at_tenant [of st tid "sd_uri src"] by (auto simp: upsert_frame split: option.split)
  have kept: "so_chunks ?st = kept_chunks tid found st" "so_docs ?st = so_docs st"
    by (auto simp: kept_chunks_def upsert_frame delete_chunks_def split: option.split)
  show thesis
  proof (cases "case found of None \<Rightarrow> False | Some d \<Rightarrow> dc_hash d = Some ?g")
    case True
    then obtain d where "found = Some d" "dc_hash d = Some ?g" by (auto split: option.splits)
    then show thesis using assms skipped [of d] at Inr by (simp add: ingest_one_def Let_def)
  next
    case new: False
    show thesis
    proof (cases "ie_flush_doc E ?d")
      case (Some e)
      show thesis
        by (rule failed [of e])
          (use assms Inr new Some in \<open>auto simp: ingest_one_def fail_def Let_def\<close>)
    next
      case None
      then have ix: "index_document E tid src ?n ?d ?st = (st', r)"
        using assms Inr new by (cases found) (auto simp: ingest_one_def Let_def)
      from ix show thesis
      proof (cases rule: index_document_cases)
        case (failed e)
        have "so_chunks st' = so_chunks st \<or>
            (\<exists>d. docs_at st tid (sd_uri src) = [d] \<and> so_chunks st' = kept_chunks tid (Some d) st)"
          using failed(3) kept(1) at by (cases found) (auto simp: kept_chunks_def)
        then show thesis using failed that(2) kept(2) by simp
      next
        case (stored p rows)
        show thesis
          by (rule that(3) [of found "apply_parsed src p ?d" rows])
            (use stored tu kept at in \<open>simp_all add: upsert_frame split: option.splits\<close>)
      qed
    qed
  qed
qed

text \<open>The invariant of the store, for a supply of ids.\<close>

definition drawn_ids :: "(nat \<Rightarrow> uuid) \<Rightarrow> 'v store \<Rightarrow> uuid set" where
  "drawn_ids u st = u ` {..<so_drawn st}"

definition store_ok :: "(nat \<Rightarrow> uuid) \<Rightarrow> 'v store \<Rightarrow> bool" where
  "store_ok u st \<longleftrightarrow>
     distinct (map dc_id (so_docs st)) \<and> distinct (map (\<lambda>d. (dc_tenant d, dc_uri d)) (so_docs st)) \<and>
     dc_id ` set (so_docs st) \<subseteq> drawn_ids u st \<and>
     distinct (map cw_id (so_chunks st)) \<and> cw_id ` set (so_chunks st) \<subseteq> drawn_ids u st \<and>
     (\<forall>c \<in> set (so_chunks st). \<exists>d \<in> set (so_docs st). cw_document c = dc_id d \<and> cw_tenant c = dc_tenant d)"

definition no_store :: "'v store" where
  "no_store = \<lparr> so_docs = [], so_chunks = [], so_jobs = [], so_objects = Map.empty, so_tasks = [], so_drawn = 0 \<rparr>"

inductive ingest_reachable :: "(nat \<Rightarrow> uuid) \<Rightarrow> 'v store \<Rightarrow> bool" for u where
  start: "ingest_reachable u no_store"
| step: "ingest_reachable u st \<Longrightarrow> ie_uuid E = u \<Longrightarrow> ingest_reachable u (fst (ingest_one E tid src st))"

lemma put_row_ids: "set (map dc_id (put_row d ds)) = insert (dc_id d) (dc_id ` set ds)"
  by (auto simp: put_row_def image_iff)

lemma put_row_set: "set (put_row d ds) = insert d {x \<in> set ds. dc_id x \<noteq> dc_id d}"
  by (auto simp: put_row_def image_iff)

lemma put_row_distinct_ids: "distinct (map dc_id ds) \<Longrightarrow> distinct (map dc_id (put_row d ds))"
proof (cases "dc_id d \<in> dc_id ` set ds")
  case True
  have "map dc_id (map (\<lambda>x. if dc_id x = dc_id d then d else x) ds) = map dc_id ds" by auto
  moreover assume "distinct (map dc_id ds)"
  ultimately show ?thesis using True by (simp only: put_row_def if_True)
next
  case False
  moreover assume "distinct (map dc_id ds)"
  ultimately show ?thesis by (simp add: put_row_def)
qed

lemma drawn_ids_mono: "so_drawn st \<le> so_drawn st' \<Longrightarrow> drawn_ids u st \<subseteq> drawn_ids u st'"
  by (auto simp: drawn_ids_def)

lemma store_ok_fewer_chunks:
  assumes "store_ok u st" "so_docs st' = so_docs st" "so_drawn st \<le> so_drawn st'"
    and "so_chunks st' = filter P (so_chunks st)"
  shows "store_ok u st'"
  using assms drawn_ids_mono [OF assms(3)] unfolding store_ok_def
  by (auto simp: distinct_map_filter subset_iff image_iff)

lemma store_ok_unique:
  "store_ok u st \<Longrightarrow> x \<in> set (so_docs st) \<Longrightarrow> y \<in> set (so_docs st) \<Longrightarrow> dc_id x = dc_id y \<Longrightarrow> x = y"
  by (auto simp: store_ok_def distinct_map dest: inj_onD)

lemma kept_chunks_filter: "\<exists>P. kept_chunks tid found st = filter P (so_chunks st)"
  by (cases found) (auto simp: kept_chunks_def delete_chunks_def intro: exI [of _ "\<lambda>c. True"])

lemma put_row_keys:
  assumes "store_ok u st" "inj u" "docs_at st tid uri = (case found of None \<Rightarrow> [] | Some x \<Rightarrow> [x])"
    and "dc_id d = (case found of None \<Rightarrow> u (so_drawn st + 1) | Some x \<Rightarrow> dc_id x)"
    and "dc_tenant d = tid" "dc_uri d = uri"
  shows "distinct (map (\<lambda>d. (dc_tenant d, dc_uri d)) (put_row d (so_docs st)))"
    and "\<forall>x \<in> set (so_docs st). dc_id x = dc_id d \<longrightarrow> dc_tenant x = tid"
proof -
  have keys: "distinct (map (\<lambda>d. (dc_tenant d, dc_uri d)) (so_docs st))"
    using assms(1) by (simp add: store_ok_def)
  have both: "distinct (map (\<lambda>d. (dc_tenant d, dc_uri d)) (put_row d (so_docs st))) \<and>
      (\<forall>x \<in> set (so_docs st). dc_id x = dc_id d \<longrightarrow> dc_tenant x = tid)"
  proof (cases found)
    case None
    have fresh: "dc_id d \<notin> dc_id ` set (so_docs st)"
    proof
      assume "dc_id d \<in> dc_id ` set (so_docs st)"
      then have "u (so_drawn st + 1) \<in> drawn_ids u st"
        using assms(1,4) None by (auto simp: store_ok_def)
      then show False using assms(2) by (auto simp: drawn_ids_def dest: injD)
    qed
    have "(tid, uri) \<notin> (\<lambda>d. (dc_tenant d, dc_uri d)) ` set (so_docs st)"
      using assms(3) None by (auto simp: docs_at_def filter_empty_conv)
    moreover have "dc_id x \<noteq> dc_id d" if "x \<in> set (so_docs st)" for x
      using fresh that by (metis image_eqI)
    ultimately show ?thesis using fresh keys assms(5,6) by (auto simp: put_row_def)
  next
    case (Some x)
    have x: "x \<in> set (so_docs st)" "dc_tenant x = tid" "dc_uri x = uri"
      using docs_at_tenant [of st tid uri x] assms(3) Some by auto
    have same: "y = x" if "y \<in> set (so_docs st)" "dc_id y = dc_id d" for y
      using store_ok_unique [OF assms(1) that(1) x(1)] that(2) assms(4) Some by simp
    have "map (\<lambda>d. (dc_tenant d, dc_uri d)) (map (\<lambda>y. if dc_id y = dc_id d then d else y) (so_docs st)) =
        map (\<lambda>d. (dc_tenant d, dc_uri d)) (so_docs st)"
      using same x assms(5,6) by auto
    moreover have "dc_id d \<in> dc_id ` set (so_docs st)" using x(1) assms(4) Some by auto
    ultimately have "distinct (map (\<lambda>d. (dc_tenant d, dc_uri d)) (put_row d (so_docs st)))"
      using keys by (simp only: put_row_def if_True)
    then show ?thesis using same x(2) by auto
  qed
  then show "distinct (map (\<lambda>d. (dc_tenant d, dc_uri d)) (put_row d (so_docs st)))"
    and "\<forall>x \<in> set (so_docs st). dc_id x = dc_id d \<longrightarrow> dc_tenant x = tid" by auto
qed

lemma row_keys_new:
  assumes "map row_key rows = map (\<lambda>i. (u i, tid, did)) [n + 2..<n + 2 + length rows]" and "inj u"
  shows "distinct (map cw_id rows)" "cw_id ` set rows = u ` {n + 2..<n + 2 + length rows}"
    and "r \<in> set rows \<Longrightarrow> cw_tenant r = tid \<and> cw_document r = did"
proof -
  have "map fst (map row_key rows) = map u [n + 2..<n + 2 + length rows]" by (simp only: assms(1)) (simp add: comp_def)
  then have ids: "map cw_id rows = map u [n + 2..<n + 2 + length rows]" by (simp add: row_key_def comp_def)
  have "inj_on u (set [n + 2..<n + 2 + length rows])" using assms(2) by (rule inj_on_subset) simp
  then show "distinct (map cw_id rows)" unfolding ids by (simp only: distinct_map distinct_upt simp_thms)
  have "set (map cw_id rows) = u ` {n + 2..<n + 2 + length rows}" unfolding ids by (simp only: set_map set_upt)
  then show "cw_id ` set rows = u ` {n + 2..<n + 2 + length rows}" by (simp only: set_map)
  have "row_key r \<in> (\<lambda>i. (u i, tid, did)) ` {n + 2..<n + 2 + length rows}" if "r \<in> set rows"
    using that arg_cong [OF assms(1), of set] by (metis atLeastLessThan_upt image_eqI image_set)
  then show "r \<in> set rows \<Longrightarrow> cw_tenant r = tid \<and> cw_document r = did" by (auto simp: row_key_def)
qed

lemma store_ok_stored:
  assumes ok: "store_ok u st" and inj: "inj u"
    and at: "docs_at st tid uri = (case found of None \<Rightarrow> [] | Some x \<Rightarrow> [x])"
    and id: "dc_id d = (case found of None \<Rightarrow> u (so_drawn st + 1) | Some x \<Rightarrow> dc_id x)"
    and tu: "dc_tenant d = tid" "dc_uri d = uri"
    and docs: "so_docs st' = put_row d (so_docs st)" and chunks: "so_chunks st' = kept_chunks tid found st @ rows"
    and drawn: "so_drawn st' = so_drawn st + 2 + length rows"
    and keys: "map row_key rows = map (\<lambda>i. (u i, tid, dc_id d)) [so_drawn st + 2..<so_drawn st + 2 + length rows]"
  shows "store_ok u st'"
proof -
  obtain P where P: "kept_chunks tid found st = filter P (so_chunks st)" using kept_chunks_filter by blast
  have mono: "drawn_ids u st \<subseteq> drawn_ids u st'" using drawn by (intro drawn_ids_mono) simp
  have "dc_id d \<in> drawn_ids u st'"
  proof (cases found)
    case None
    then show ?thesis using id drawn by (simp add: drawn_ids_def)
  next
    case (Some x)
    then show ?thesis using id docs_at_tenant [of st tid uri x] at ok mono by (auto simp: store_ok_def)
  qed
  then have ids: "dc_id ` set (so_docs st') \<subseteq> drawn_ids u st'"
    using ok mono docs by (auto simp: put_row_set store_ok_def)
  have new: "cw_id ` set rows \<inter> drawn_ids u st = {}" "cw_id ` set rows \<subseteq> drawn_ids u st'"
    using row_keys_new(2) [OF keys inj] inj drawn by (auto simp: drawn_ids_def dest: injD)
  have "cw_id ` set (so_chunks st) \<inter> cw_id ` set rows = {}"
    using ok new(1) unfolding store_ok_def by blast
  then have "distinct (map cw_id (so_chunks st'))"
    using ok row_keys_new(1) [OF keys inj] unfolding chunks P store_ok_def
    by (auto simp: distinct_map_filter)
  moreover have "cw_id ` set (so_chunks st') \<subseteq> drawn_ids u st'"
    using ok new(2) mono unfolding chunks P store_ok_def by auto
  moreover have "\<exists>d \<in> set (so_docs st'). cw_document c = dc_id d \<and> cw_tenant c = dc_tenant d"
    if "c \<in> set (so_chunks st')" for c
  proof (cases "c \<in> set rows")
    case True
    then show ?thesis using row_keys_new(3) [OF keys inj] tu docs by (auto simp: put_row_set)
  next
    case False
    then have "c \<in> set (so_chunks st)" using that unfolding chunks P by auto
    then obtain x where x: "x \<in> set (so_docs st)" "cw_document c = dc_id x" "cw_tenant c = dc_tenant x"
      using ok by (auto simp: store_ok_def)
    then show ?thesis using put_row_keys(2) [OF ok inj at id tu] tu docs
      by (cases "dc_id x = dc_id d") (auto simp: put_row_set)
  qed
  ultimately show ?thesis
    using ok ids put_row_keys(1) [OF ok inj at id tu] docs
    by (auto simp: store_ok_def put_row_distinct_ids)
qed

lemma ingest_one_ok:
  assumes "store_ok u st" "inj u" "ie_uuid E = u"
  shows "store_ok u (fst (ingest_one E tid src st))"
proof -
  obtain st' r where eq: "ingest_one E tid src st = (st', r)" by (cases "ingest_one E tid src st")
  from eq have "store_ok u st'"
  proof (cases rule: ingest_one_cases)
    case (skipped d)
    then show ?thesis using assms(1)
      by (intro store_ok_fewer_chunks [OF assms(1), where P = "\<lambda>c. True"]) auto
  next
    case (failed e)
    then obtain found where "so_chunks st' = kept_chunks tid found st"
      by (metis kept_chunks_def option.simps(4))
    then obtain P where "so_chunks st' = filter P (so_chunks st)" using kept_chunks_filter by metis
    then show ?thesis using failed by (intro store_ok_fewer_chunks [OF assms(1)]) auto
  next
    case (stored found d rows)
    show ?thesis
      by (rule store_ok_stored [OF assms(1,2) stored(1) _ stored(3,4,7,8,9)])
        (simp_all only: assms(3) [symmetric] stored(2,10))
  qed
  then show ?thesis by (simp add: eq)
qed

lemma reachable_store_ok: "ingest_reachable u st \<Longrightarrow> inj u \<Longrightarrow> store_ok u st"
proof (induction rule: ingest_reachable.induct)
  case start
  then show ?case by (simp add: store_ok_def no_store_def)
next
  case (step st E tid src)
  then show ?case by (blast intro: ingest_one_ok)
qed

section \<open>Properties\<close>

text \<open>
  C8. Whatever fails on the way, a reachable store has one document per tenant and source, and every chunk
  belongs to a stored document of its tenant; ids are never reused.
\<close>

theorem ingest_store_invariant:
  assumes "ingest_reachable u st" and "inj u"
  shows "distinct (map dc_id (so_docs st)) \<and> distinct (map (\<lambda>d. (dc_tenant d, dc_uri d)) (so_docs st)) \<and>
    distinct (map cw_id (so_chunks st)) \<and>
    list_all (\<lambda>c. list_ex (\<lambda>d. cw_document c = dc_id d \<and> cw_tenant c = dc_tenant d) (so_docs st)) (so_chunks st)"
  using reachable_store_ok [OF assms] by (simp add: store_ok_def list_all_iff list_ex_iff)

lemma filter_key: "distinct (map f xs) \<Longrightarrow> d \<in> set xs \<Longrightarrow> filter (\<lambda>x. f x = f d) xs = [d]"
  by (induction xs) (auto simp: filter_empty_conv image_iff)

lemma docs_at_single:
  "store_ok u st \<Longrightarrow> d \<in> set (so_docs st) \<Longrightarrow> docs_at st (dc_tenant d) (dc_uri d) = [d]"
  using filter_key [of "\<lambda>d. (dc_tenant d, dc_uri d)" "so_docs st" d] by (simp add: store_ok_def docs_at_def)

lemma put_row_others: "filter (\<lambda>x. dc_id x \<noteq> dc_id d) (put_row d ds) = filter (\<lambda>x. dc_id x \<noteq> dc_id d) ds"
proof -
  have "filter (\<lambda>x. dc_id x \<noteq> dc_id d) (map (\<lambda>x. if dc_id x = dc_id d then d else x) ds) =
      filter (\<lambda>x. dc_id x \<noteq> dc_id d) ds" by (induction ds) auto
  then show ?thesis by (simp add: put_row_def)
qed

lemma store_ok_chunk:
  "store_ok u st \<Longrightarrow> c \<in> set (so_chunks st) \<Longrightarrow>
     \<exists>d \<in> set (so_docs st). cw_document c = dc_id d \<and> cw_tenant c = dc_tenant d"
  by (simp add: store_ok_def)

lemma kept_chunks_others:
  assumes ok: "store_ok u st" and inj: "inj u"
    and at: "docs_at st tid uri = (case found of None \<Rightarrow> [] | Some x \<Rightarrow> [x])"
    and id: "did = (case found of None \<Rightarrow> u (so_drawn st + 1) | Some x \<Rightarrow> dc_id x)"
  shows "filter (\<lambda>c. cw_document c = did) (kept_chunks tid found st) = []"
    and "filter (\<lambda>c. cw_document c \<noteq> did) (kept_chunks tid found st) =
      filter (\<lambda>c. cw_document c \<noteq> did) (so_chunks st)"
proof -
  show "filter (\<lambda>c. cw_document c = did) (kept_chunks tid found st) = []"
  proof (cases found)
    case None
    have "did \<notin> drawn_ids u st" using id None inj by (auto simp: drawn_ids_def dest: injD)
    then have "cw_document c \<noteq> did" if "c \<in> set (so_chunks st)" for c
      using store_ok_chunk [OF ok that] ok unfolding store_ok_def by (metis image_subset_iff)
    then show ?thesis using None by (auto simp: kept_chunks_def filter_empty_conv)
  next
    case (Some x)
    have x: "x \<in> set (so_docs st)" "dc_tenant x = tid"
      using docs_at_tenant [of st tid uri x] at Some by auto
    have "cw_tenant c = tid" if "c \<in> set (so_chunks st)" "cw_document c = dc_id x" for c
      using store_ok_chunk [OF ok that(1)] that(2) x(2) store_ok_unique [OF ok _ x(1)] by metis
    then show ?thesis using Some id by (auto simp: kept_chunks_def delete_chunks_def filter_empty_conv)
  qed
  show "filter (\<lambda>c. cw_document c \<noteq> did) (kept_chunks tid found st) =
      filter (\<lambda>c. cw_document c \<noteq> did) (so_chunks st)"
    using id by (cases found) (auto simp: kept_chunks_def delete_chunks_def intro: filter_cong)
qed

lemma stored_chunks:
  assumes ok: "store_ok u st" and inj: "inj u" and u: "ie_uuid E = u"
    and eq: "ingest_one E tid src st = (st', Inr r)" and "\<not> ir_skipped r"
  shows "\<exists>d. docs_at st' tid (sd_uri src) = [d] \<and> dc_hash d = Some (ie_hash E (sd_data src)) \<and>
    ir_document_id r = dc_id d \<and>
    length (filter (\<lambda>c. cw_document c = dc_id d) (so_chunks st')) = ir_chunks_written r \<and>
    filter (\<lambda>c. cw_document c \<noteq> dc_id d) (so_chunks st') =
      filter (\<lambda>c. cw_document c \<noteq> dc_id d) (so_chunks st) \<and>
    filter (\<lambda>x. dc_id x \<noteq> dc_id d) (so_docs st') = filter (\<lambda>x. dc_id x \<noteq> dc_id d) (so_docs st)"
  using eq
proof (cases rule: ingest_one_cases)
  case (stored found d rows)
  have "store_ok u (fst (ingest_one E tid src st))" by (rule ingest_one_ok [OF ok inj u])
  then have ok': "store_ok u st'" by (simp add: eq)
  have id: "dc_id d = (case found of None \<Rightarrow> u (so_drawn st + 1) | Some x \<Rightarrow> dc_id x)"
    using stored(2) u by (simp split: option.splits)
  have "d \<in> set (so_docs st')" using stored(7) by (simp add: put_row_set)
  then have at: "docs_at st' tid (sd_uri src) = [d]" using docs_at_single [OF ok'] stored(3,4) by metis
  have new: "cw_document c = dc_id d" if "c \<in> set rows" for c
    using row_keys_new(3) [OF stored(10) _ that] inj u by simp
  have "filter (\<lambda>c. cw_document c = dc_id d) rows = rows" "filter (\<lambda>c. cw_document c \<noteq> dc_id d) rows = []"
    using new by (simp_all add: filter_empty_conv)
  then have "filter (\<lambda>c. cw_document c = dc_id d) (so_chunks st') = rows"
    "filter (\<lambda>c. cw_document c \<noteq> dc_id d) (so_chunks st') =
      filter (\<lambda>c. cw_document c \<noteq> dc_id d) (so_chunks st)"
    using kept_chunks_others [OF ok inj stored(1) id] by (simp_all add: stored(8))
  then show ?thesis using at stored(5,6,7) put_row_others [of d "so_docs st"]
    by (intro exI [of _ d]) auto
qed (use assms(5) in auto)

text \<open>
  C9. A successful ingestion leaves one row for the source with the hash of its bytes, exactly the chunks it
  wrote under it, every other document and chunk as they were; and it is idempotent: ingesting the same
  bytes again is answered as up to date and changes no document, chunk, object or task.
\<close>

theorem ingest_idempotent:
  assumes "ingest_reachable u st" and "inj u" and "ie_uuid E = u"
    and "ingest_one E tid src st = (st', Inr r)" and "\<not> ir_skipped r"
    and "ie_hash E' (sd_data src') = ie_hash E (sd_data src)" and "sd_uri src' = sd_uri src"
  shows "(\<exists>d. docs_at st' tid (sd_uri src) = [d] \<and> dc_hash d = Some (ie_hash E (sd_data src)) \<and>
      ir_document_id r = dc_id d \<and>
      length (filter (\<lambda>c. cw_document c = dc_id d) (so_chunks st')) = ir_chunks_written r \<and>
      filter (\<lambda>c. cw_document c \<noteq> dc_id d) (so_chunks st') =
        filter (\<lambda>c. cw_document c \<noteq> dc_id d) (so_chunks st) \<and>
      filter (\<lambda>x. dc_id x \<noteq> dc_id d) (so_docs st') = filter (\<lambda>x. dc_id x \<noteq> dc_id d) (so_docs st)) \<and>
    (\<exists>st'' r'. ingest_one E' tid src' st' = (st'', Inr r') \<and> ir_note r' = ''already up to date'' \<and>
      so_docs st'' = so_docs st' \<and> so_chunks st'' = so_chunks st' \<and>
      so_objects st'' = so_objects st' \<and> so_tasks st'' = so_tasks st')"
proof -
  obtain d where d: "docs_at st' tid (sd_uri src) = [d]" "dc_hash d = Some (ie_hash E (sd_data src))"
    and all: "ir_document_id r = dc_id d \<and>
      length (filter (\<lambda>c. cw_document c = dc_id d) (so_chunks st')) = ir_chunks_written r \<and>
      filter (\<lambda>c. cw_document c \<noteq> dc_id d) (so_chunks st') =
        filter (\<lambda>c. cw_document c \<noteq> dc_id d) (so_chunks st) \<and>
      filter (\<lambda>x. dc_id x \<noteq> dc_id d) (so_docs st') = filter (\<lambda>x. dc_id x \<noteq> dc_id d) (so_docs st)"
    using stored_chunks [OF reachable_store_ok [OF assms(1,2)] assms(2-5)] by blast
  have "one_or_none (docs_at st' tid (sd_uri src')) = Inr (Some d)"
    using d(1) assms(7) by (simp add: one_or_none_def)
  then have "ingest_one E' tid src' st' =
      (add_job E' tid src' (so_drawn st') (so_drawn st' + 2) None ''skipped'' None st',
       Inr \<lparr> ir_document_id = ie_uuid E' (so_drawn st' + 1), ir_job_id = ie_uuid E' (so_drawn st'),
         ir_source_uri = sd_uri src', ir_chunks_written = 0, ir_skipped = True,
         ir_note = ''already up to date'' \<rparr>)"
    using d(2) assms(6) by (simp add: ingest_one_def Let_def)
  then show ?thesis using d all by simp
qed

text \<open>
  C37. A re-ingestion that fails in the parser: the rollback restores the row of the document, but its chunks
  were deleted by the vector store in a transaction of its own.  The row keeps the hash of the old bytes,
  so that offering the old bytes again is answered as up to date, and the document stays without chunks.
\<close>

theorem failed_reingest_loses_chunks:
  assumes "docs_at st tid (sd_uri src) = [d]" and "dc_hash d \<noteq> Some (ie_hash E (sd_data src))"
    and "\<And>x. ie_flush_doc E x = None" and "\<And>k v. ie_put E k v = None" and "parse_source E src = Inl e"
    and "dc_hash d = Some (ie_hash E (sd_data old))" and "sd_uri old = sd_uri src"
  shows "\<exists>st1 st2 r. ingest_one E tid src st = (st1, Inl e) \<and> so_docs st1 = so_docs st \<and>
    filter (\<lambda>c. cw_document c = dc_id d \<and> cw_tenant c = tid) (so_chunks st1) = [] \<and>
    ingest_one E tid old st1 = (st2, Inr r) \<and> ir_note r = ''already up to date'' \<and>
    so_chunks st2 = so_chunks st1"
proof -
  let ?n = "so_drawn st"
  let ?d = "upsert_document (ie_uuid E (?n + 1)) tid src (ie_hash E (sd_data src)) (Some d)"
  let ?st = "delete_chunks tid (dc_id d) st"
  let ?st1 = "fst (ingest_one E tid src st)"
  have one: "one_or_none (docs_at st tid (sd_uri src)) = Inr (Some d)" using assms(1) by (simp add: one_or_none_def)
  have id: "dc_id ?d = dc_id d" by (simp add: upsert_frame)
  have "ingest_one E tid src st = index_document E tid src ?n ?d ?st"
    using one assms(2,3) id by (simp add: ingest_one_def Let_def)
  then have fails: "ingest_one E tid src st = (?st1, Inl e)" "so_docs ?st1 = so_docs st"
    "so_chunks ?st1 = so_chunks ?st"
    using assms(4,5) by (simp_all add: index_document_def fail_def Let_def delete_chunks_def)
  have gone: "filter (\<lambda>c. cw_document c = dc_id d \<and> cw_tenant c = tid) (so_chunks ?st1) = []"
    by (simp add: fails(3) delete_chunks_def filter_empty_conv)
  have "docs_at ?st1 tid (sd_uri old) = [d]" using assms(1,7) fails(2) by (simp add: docs_at_def)
  then have "one_or_none (docs_at ?st1 tid (sd_uri old)) = Inr (Some d)" by (simp add: one_or_none_def)
  then have "\<exists>st2 r. ingest_one E tid old ?st1 = (st2, Inr r) \<and> ir_note r = ''already up to date'' \<and>
      so_chunks st2 = so_chunks ?st1"
    using assms(6) by (simp add: ingest_one_def Let_def)
  then show ?thesis using fails(1,2) gone by blast
qed

section \<open>Witnesses\<close>

definition sample_ids :: "nat \<Rightarrow> uuid" where
  "sample_ids n = replicate n (CHR ''x'')"

definition sample_ingest :: "unit ingest_env" where
  "sample_ingest = \<lparr> ie_uuid = sample_ids, ie_clock = int, ie_hash = (\<lambda>s. s), ie_guess = (\<lambda>f. None),
     ie_parse = (\<lambda>p t f. if t = ''bad'' then Inl (ParserError ''corrupt'') else Inr (parse_markdown t f)),
     ie_chunking = sample_chunk_env, ie_embed = (\<lambda>ts. Inr (map (\<lambda>t. ()) ts)), ie_zero = (),
     ie_flush_doc = (\<lambda>d. None), ie_flush_rows = (\<lambda>rs. None), ie_put = (\<lambda>k v. None),
     ie_broker_up = True, ie_tenants = [], ie_default_enrich = True \<rparr>"

definition sample_source :: "string \<Rightarrow> source_document" where
  "sample_source t = \<lparr> sd_uri = ''file:///a.md'', sd_data = t, sd_filename = Some ''a.md'',
     sd_content_type = Some ''text/markdown'', sd_title = None, sd_metadata = [] \<rparr>"

lemma inj_sample_ids: "inj sample_ids"
  by (rule injI) (metis length_replicate sample_ids_def)

definition sample_store :: "unit store" where
  "sample_store = fst (ingest_one sample_ingest ''t'' (sample_source ''one'') no_store)"

lemma sample_result: "snd (ingest_one sample_ingest ''t'' (sample_source ''one'') no_store) =
    Inr \<lparr> ir_document_id = ''x'', ir_job_id = [], ir_source_uri = ''file:///a.md'',
      ir_chunks_written = 1, ir_skipped = False, ir_note = [] \<rparr>"
  by code_simp

lemma sample_ingested: "ingest_one sample_ingest ''t'' (sample_source ''one'') no_store =
    (sample_store, Inr \<lparr> ir_document_id = ''x'', ir_job_id = [], ir_source_uri = ''file:///a.md'',
      ir_chunks_written = 1, ir_skipped = False, ir_note = [] \<rparr>)"
  by (simp add: sample_store_def prod_eq_iff sample_result)

lemma sample_reachable: "ingest_reachable sample_ids sample_store"
  unfolding sample_store_def by (rule ingest_reachable.intros)+ (simp add: sample_ingest_def)

lemma sample_uuid: "ie_uuid sample_ingest = sample_ids"
  by (simp add: sample_ingest_def)

theorem ingest_store_invariant_witness:
  "distinct (map cw_id (so_chunks sample_store)) \<and> length (so_docs sample_store) = 1"
proof
  show "distinct (map cw_id (so_chunks sample_store))"
    using ingest_store_invariant [OF sample_reachable inj_sample_ids] by blast
  show "length (so_docs sample_store) = 1" by code_simp
qed

theorem ingest_idempotent_witness:
  "\<exists>st r. ingest_one sample_ingest ''t'' (sample_source ''one'') sample_store = (st, Inr r) \<and>
     ir_note r = ''already up to date'' \<and> so_chunks st = so_chunks sample_store"
proof -
  have s: "sd_uri (sample_source ''one'') = sd_uri (sample_source ''one'')" by (rule refl)
  show ?thesis
    using ingest_idempotent [OF ingest_reachable.start inj_sample_ids sample_uuid sample_ingested _ refl s]
    by auto
qed

theorem failed_reingest_loses_chunks_witness:
  "\<exists>st1 st2 r. so_chunks sample_store \<noteq> [] \<and>
     ingest_one sample_ingest ''t'' (sample_source ''bad'') sample_store = (st1, Inl (ParserError ''corrupt'')) \<and>
     so_docs st1 = so_docs sample_store \<and> so_chunks st1 = [] \<and>
     ingest_one sample_ingest ''t'' (sample_source ''one'') st1 = (st2, Inr r) \<and>
     ir_note r = ''already up to date'' \<and> so_chunks st2 = []"
proof -
  let ?bad = "sample_source ''bad''"
  obtain d where d: "docs_at sample_store ''t'' (sd_uri ?bad) = [d]" "dc_hash d = Some ''one''" "dc_id d = ''x''"
    by (rule that [of "hd (so_docs sample_store)"]) code_simp+
  have c: "map (\<lambda>c. (cw_document c, cw_tenant c)) (so_chunks sample_store) = [(''x'', ''t'')]" by code_simp
  have p: "parse_source sample_ingest ?bad = Inl (ParserError ''corrupt'')" by code_simp
  obtain st1 st2 r where f: "ingest_one sample_ingest ''t'' ?bad sample_store = (st1, Inl (ParserError ''corrupt''))"
    "so_docs st1 = so_docs sample_store"
    "filter (\<lambda>c. cw_document c = dc_id d \<and> cw_tenant c = ''t'') (so_chunks st1) = []"
    "ingest_one sample_ingest ''t'' (sample_source ''one'') st1 = (st2, Inr r)"
    "ir_note r = ''already up to date''" "so_chunks st2 = so_chunks st1"
    using failed_reingest_loses_chunks [OF d(1) _ _ _ p, of "sample_source ''one''"] d(2)
    by (auto simp: sample_ingest_def sample_source_def)
  have "so_chunks (fst (ingest_one sample_ingest ''t'' ?bad sample_store)) = []" by code_simp
  then have "so_chunks st1 = []" by (simp add: f(1))
  then show ?thesis using f c by auto
qed

end
