(* ===== verification/Ingestion.thy ===== *)
theory Ingestion
  imports IngestPipeline
begin

text \<open>
  Indexers: the sources an owner enables or creates (\<open>api/routes/ingestion.py\<close>), the shipped presets
  and defaults (\<open>core/ingestion/presets.py\<close>, \<open>defaults.py\<close>), the scheduling rules
  (\<open>core/ingestion/scheduler.py\<close>), the enrichment routes (\<open>api/routes/enrichment.py\<close>), and the worker
  tasks that run connectors and indexers (\<open>indexing/tasks.py\<close>).  Dashes of the preset texts are hyphens.
\<close>

section \<open>Scheduling rules\<close>

definition folder_prefix :: "uuid \<Rightarrow> string" where
  "folder_prefix sid = ''datasources/'' @ sid @ ''/''"

definition storage_key_for :: "uuid \<Rightarrow> string \<Rightarrow> string" where
  "storage_key_for sid filename =
     (let name = strip (rsplit_last (CHR ''/'') (map (\<lambda>c. if c = CHR 0x5C then CHR ''/'' else c) filename)) in
       folder_prefix sid @ (if name = [] then ''file'' else name))"

definition schedule_minutes :: "jdict \<Rightarrow> exn + int option" where
  "schedule_minutes schedule =
     (if schedule = [] then Inr None
      else case py_int (dget schedule ''interval_minutes'') of
        Inl e \<Rightarrow> if e = PyExc TypeError \<or> e = PyExc ValueError then Inr None else Inl e
      | Inr v \<Rightarrow> Inr (if v > 0 then Some v else None))"

text \<open>Times are microseconds: an interval of \<open>m\<close> minutes has elapsed after \<open>m * 60\<close> seconds.\<close>

definition is_indexer_due :: "bool \<Rightarrow> jdict \<Rightarrow> int option \<Rightarrow> int \<Rightarrow> exn + bool" where
  "is_indexer_due enabled schedule prev now =
     (if \<not> enabled then Inr False
      else try_bind (schedule_minutes schedule) (\<lambda>m.
        case m of
          None \<Rightarrow> Inr False
        | Some i \<Rightarrow>
            (case prev of None \<Rightarrow> Inr True | Some t \<Rightarrow> Inr (now - t \<ge> i * 60 * 1000000))))"

section \<open>Presets and defaults\<close>

definition OGL :: string where
  "OGL = ''ogl-v3''"

definition GOVUK_ATTR :: string where
  "GOVUK_ATTR =
     ''Contains public sector information licensed under the Open Government Licence v3.0.''"

definition FCA_SOURCEBOOKS :: "string list" where
  "FCA_SOURCEBOOKS =
     [''PRIN'', ''SYSC'', ''COND'', ''APER'', ''COCON'', ''FIT'', ''TC'', ''GEN'', ''FEES'',
      ''GENPRU'', ''MIPRU'', ''COBS'', ''ICOBS'', ''MCOB'', ''BCOBS'', ''CONC'', ''CASS'', ''MAR'',
      ''SUP'', ''DEPP'', ''DISP'', ''COMP'', ''COLL'', ''FUND'', ''DTR'', ''ESG'', ''PERG'',
      ''FCG'', ''ENFG'', ''CTPS'', ''UKLR'', ''CREDS'', ''REC'']"

definition fca_urls :: "string list" where
  "fca_urls =
     map (\<lambda>sb. ''https://api-handbook.fca.org.uk/files/sourcebook/'' @ sb @ ''.pdf'') FCA_SOURCEBOOKS @
     [''https://www.fca.org.uk/publication/finalised-guidance/fg22-5.pdf'',
      ''https://www.fca.org.uk/publication/policy/ps22-10.pdf'']"

definition regulator_presets :: "jdict list" where
  "regulator_presets =
     [[(''key'', JStr ''fca-handbook''),
       (''name'', JStr ''FCA - Handbook & Guidance''),
       (''category'', JStr ''fca''),
       (''kind'', JStr ''web''),
       (''license'', JStr OGL),
       (''attribution'', JStr GOVUK_ATTR),
       (''description'', JStr ''FCA Handbook sourcebooks (PRIN, COBS, SYSC, CONC, ...) + key finalised guidance.''),
       (''config'', JObj [(''mode'', JStr ''page''),
           (''start_urls'', JList (map JStr fca_urls)),
           (''max_pages'', JInt 60)])],
      [(''key'', JStr ''pra-rulebook''),
       (''name'', JStr ''PRA - Rulebook & Instruments''),
       (''category'', JStr ''pra''),
       (''kind'', JStr ''web''),
       (''license'', JStr OGL),
       (''attribution'', JStr GOVUK_ATTR),
       (''description'', JStr ''PRA Rulebook online + published rulebook instruments.''),
       (''config'', JObj [(''mode'', JStr ''crawl''),
           (''start_urls'', JList [JStr ''https://www.prarulebook.co.uk/'']),
           (''url_prefix'', JStr ''https://www.prarulebook.co.uk/''),
           (''max_pages'', JInt 80),
           (''max_depth'', JInt 2)])],
      [(''key'', JStr ''boe-publications''),
       (''name'', JStr ''Bank of England - FSR & MPR''),
       (''category'', JStr ''boe''),
       (''kind'', JStr ''web''),
       (''license'', JStr OGL),
       (''attribution'', JStr GOVUK_ATTR),
       (''description'', JStr ''Bank of England Financial Stability Reports + Monetary Policy Reports.''),
       (''config'', JObj [(''mode'', JStr ''page''),
           (''start_urls'', JList [JStr ''https://www.bankofengland.co.uk/-/media/boe/files/financial-stability-report/2025/financial-stability-report-december-2025.pdf'',
               JStr ''https://www.bankofengland.co.uk/-/media/boe/files/financial-stability-report/2025/financial-stability-report-july-2025.pdf'',
               JStr ''https://www.bankofengland.co.uk/-/media/boe/files/monetary-policy-report/2026/april/monetary-policy-report-april-2026.pdf'']),
           (''max_pages'', JInt 20)])],
      [(''key'', JStr ''hmrc-manuals''),
       (''name'', JStr ''HMRC - Internal Manuals (rule pages)''),
       (''category'', JStr ''hmrc''),
       (''kind'', JStr ''web''),
       (''license'', JStr OGL),
       (''attribution'', JStr GOVUK_ATTR),
       (''description'', JStr (''Crawls the child rule-pages of HMRC manuals (Cryptoassets, Economic Crime Supervision, '' @
           ''SAO) - not just the contents page.'')),
       (''config'', JObj [(''mode'', JStr ''crawl''),
           (''start_urls'', JList [JStr ''https://www.gov.uk/hmrc-internal-manuals/cryptoassets-manual'',
               JStr ''https://www.gov.uk/hmrc-internal-manuals/economic-crime-supervision-handbook'',
               JStr ''https://www.gov.uk/hmrc-internal-manuals/senior-accounting-officers-guidance'']),
           (''url_prefix'', JStr ''https://www.gov.uk/hmrc-internal-manuals/''),
           (''max_pages'', JInt 400),
           (''max_depth'', JInt 3)])],
      [(''key'', JStr ''ico-guidance''),
       (''name'', JStr ''ICO - UK GDPR Guidance''),
       (''category'', JStr ''ico''),
       (''kind'', JStr ''web''),
       (''license'', JStr OGL),
       (''attribution'', JStr GOVUK_ATTR),
       (''description'', JStr ''ICO UK GDPR guidance hubs + data-sharing code of practice.''),
       (''config'', JObj [(''mode'', JStr ''crawl''),
           (''start_urls'', JList [JStr ''https://ico.org.uk/for-organisations/uk-gdpr-guidance-and-resources/'']),
           (''url_prefix'', JStr ''https://ico.org.uk/for-organisations/uk-gdpr-guidance-and-resources/''),
           (''max_pages'', JInt 120),
           (''max_depth'', JInt 2)])],
      [(''key'', JStr ''tpr-codes''),
       (''name'', JStr ''TPR - General Code of Practice''),
       (''category'', JStr ''tpr''),
       (''kind'', JStr ''web''),
       (''license'', JStr OGL),
       (''attribution'', JStr GOVUK_ATTR),
       (''description'', JStr ''The Pensions Regulator General Code of Practice.''),
       (''config'', JObj [(''mode'', JStr ''page''),
           (''start_urls'', JList [JStr ''https://www.thepensionsregulator.gov.uk/media/3rhduw51/general-code-of-practice.pdf'']),
           (''max_pages'', JInt 10)])]]"


fun find_preset :: "string \<Rightarrow> jdict list \<Rightarrow> jdict option" where
  "find_preset key [] = None"
| "find_preset key (p # ps) = (if dget p ''key'' = JStr key then Some p else find_preset key ps)"

definition default_skillset_skills :: "json list" where
  "default_skillset_skills =
     [JObj [(''type'', JStr ''parse''), (''config'', JObj [])],
      JObj [(''type'', JStr ''clean''), (''config'', JObj [(''strip_nulls'', JBool True), (''detect_soft_404'', JBool True)])],
      JObj [(''type'', JStr ''chunk''), (''config'', JObj [(''max_tokens'', JInt 800), (''overlap'', JInt 120)])],
      JObj [(''type'', JStr ''extract_metadata''), (''config'', JObj [(''from_url'', JBool True)])],
      JObj [(''type'', JStr ''summarise''), (''config'', JObj []), (''enabled'', JBool False)],
      JObj [(''type'', JStr ''keyphrases''), (''config'', JObj []), (''enabled'', JBool False)],
      JObj [(''type'', JStr ''embed''), (''config'', JObj [])]]"

definition index_field ::
  "string \<Rightarrow> string \<Rightarrow> bool \<Rightarrow> bool \<Rightarrow> bool \<Rightarrow> bool \<Rightarrow> string \<Rightarrow> json" where
  "index_field name ty searchable filterable facetable retrievable src =
     JObj [(''name'', JStr name), (''type'', JStr ty), (''source'', JStr src),
       (''searchable'', JBool searchable), (''filterable'', JBool filterable),
       (''facetable'', JBool facetable), (''retrievable'', JBool retrievable)]"

definition default_index_fields :: "json list" where
  "default_index_fields =
     [index_field ''title'' ''string'' True False False True ''document'',
      index_field ''content'' ''text'' True False False True ''chunk'',
      index_field ''regulator'' ''string'' False True True True ''extract_metadata'',
      index_field ''doc_type'' ''string'' False True True True ''document'',
      index_field ''effective_date'' ''date'' False True False True ''document'',
      index_field ''section_path'' ''string'' False False False True ''chunk'',
      index_field ''source_uri'' ''string'' False False False True ''document'',
      index_field ''license'' ''string'' False True True True ''document'',
      index_field ''source_authority'' ''string'' False True False True ''extract_metadata'',
      index_field ''attribution'' ''string'' False False False True ''document'']"

section \<open>State\<close>

record ingest_source =
  sr_id :: uuid
  sr_tenant :: uuid
  sr_name :: string
  sr_kind :: string
  sr_category :: "string option"
  sr_config :: jdict
  sr_license :: string
  sr_preset :: bool
  sr_enabled :: bool

record indexer =
  ix_id :: uuid
  ix_tenant :: uuid
  ix_name :: string
  ix_source :: uuid
  ix_skillset :: uuid
  ix_profile :: uuid
  ix_mappings :: jdict
  ix_schedule :: jdict
  ix_enabled :: bool
  ix_last_run :: "int option"

record indexer_run =
  rn_id :: nat
  rn_indexer :: uuid
  rn_tenant :: uuid
  rn_started :: int
  rn_finished :: "int option"
  rn_status :: string
  rn_pages :: nat
  rn_ingested :: nat
  rn_skipped :: nat
  rn_failed :: nat
  rn_error :: "string option"

record skillset =
  sk_id :: uuid
  sk_tenant :: uuid
  sk_name :: string
  sk_skills :: "json list"
  sk_default :: bool

record index_profile =
  ip_id :: uuid
  ip_tenant :: uuid
  ip_name :: string
  ip_fields :: "json list"

record ingestion_db =
  id_sources :: "ingest_source list"
  id_indexers :: "indexer list"
  id_runs :: "indexer_run list"
  id_skillsets :: "skillset list"
  id_profiles :: "index_profile list"
  id_next_run :: nat

section \<open>Routes\<close>

text \<open>Find or create; the new row takes the given id.\<close>

definition default_skillset_id :: "uuid \<Rightarrow> uuid \<Rightarrow> ingestion_db \<Rightarrow> exn + (ingestion_db \<times> uuid)" where
  "default_skillset_id new tid db =
     try_bind (one_or_none (filter (\<lambda>k. sk_tenant k = tid \<and> sk_default k) (id_skillsets db))) (\<lambda>found.
       Inr (case found of
          Some k \<Rightarrow> (db, sk_id k)
        | None \<Rightarrow>
            (db\<lparr> id_skillsets := id_skillsets db @
                [\<lparr> sk_id = new, sk_tenant = tid, sk_name = ''Standard regulatory text'',
                   sk_skills = default_skillset_skills, sk_default = True \<rparr>] \<rparr>, new)))"

definition default_index_profile_id :: "uuid \<Rightarrow> uuid \<Rightarrow> ingestion_db \<Rightarrow> exn + (ingestion_db \<times> uuid)" where
  "default_index_profile_id new tid db =
     try_bind (one_or_none (filter (\<lambda>k. ip_tenant k = tid) (id_profiles db))) (\<lambda>found.
       Inr (case found of
          Some k \<Rightarrow> (db, ip_id k)
        | None \<Rightarrow>
            (db\<lparr> id_profiles := id_profiles db @
                [\<lparr> ip_id = new, ip_tenant = tid, ip_name = ''UK FinReg'',
                   ip_fields = default_index_fields \<rparr>] \<rparr>, new)))"

definition list_presets :: "principal \<Rightarrow> ingestion_db \<Rightarrow> (json \<times> bool) list" where
  "list_presets p db =
     (let keys = map (\<lambda>s. dget (sr_config s) ''preset_key'')
            (filter (\<lambda>s. sr_tenant s = pp_tenant_id p) (id_sources db))
      in map (\<lambda>pr. (dget pr ''key'', dget pr ''key'' \<in> set keys)) regulator_presets)"

definition jstr :: "json \<Rightarrow> string" where
  "jstr v = (case v of JStr s \<Rightarrow> s | _ \<Rightarrow> [])"

definition jobj :: "json \<Rightarrow> jdict" where
  "jobj v = (case v of JObj d \<Rightarrow> d | _ \<Rightarrow> [])"

definition preset_sources :: "uuid \<Rightarrow> string \<Rightarrow> ingestion_db \<Rightarrow> ingest_source list" where
  "preset_sources tid key db =
     filter (\<lambda>s. sr_tenant s = tid \<and> dget (sr_config s) ''preset_key'' = JStr key) (id_sources db)"

text \<open>
  The insertion of a source and its indexer in one transaction; the four ids are drawn in the order of
  the code.
\<close>

definition add_indexer ::
  "uuid \<times> uuid \<times> uuid \<times> uuid \<Rightarrow> uuid \<Rightarrow> (uuid \<Rightarrow> ingest_source) \<Rightarrow> jdict \<Rightarrow> jdict \<Rightarrow> ingestion_db \<Rightarrow>
   exn + ingestion_db" where
  "add_indexer ids tid mk mappings schedule db =
     (case ids of (a, b, c, d) \<Rightarrow>
       let src = mk a in
       try_bind (default_skillset_id b tid (db\<lparr> id_sources := id_sources db @ [src] \<rparr>)) (\<lambda>(db1, sk).
       try_bind (default_index_profile_id c tid db1) (\<lambda>(db2, ip).
         Inr (db2\<lparr> id_indexers := id_indexers db2 @
           [\<lparr> ix_id = d, ix_tenant = tid, ix_name = sr_name src, ix_source = a, ix_skillset = sk,
              ix_profile = ip, ix_mappings = mappings, ix_schedule = schedule, ix_enabled = True,
              ix_last_run = None \<rparr>] \<rparr>))))"

definition enable_preset ::
  "bool \<Rightarrow> int \<Rightarrow> uuid \<times> uuid \<times> uuid \<times> uuid \<Rightarrow> string \<Rightarrow> principal \<Rightarrow> ingestion_db \<times> audit_log \<Rightarrow>
   (ingestion_db \<times> audit_log) \<times> (exn + (uuid \<times> bool))"
where
  "enable_preset ok now ids key p st =
     (let db = fst st; tid = pp_tenant_id p in
       case find_preset key regulator_presets of
         None \<Rightarrow> (st, Inl (HTTPError 404 ''unknown preset''))
       | Some pr \<Rightarrow>
           (case try_bind (one_or_none (preset_sources tid key db)) (\<lambda>found.
               case found of
                 None \<Rightarrow> Inr None
               | Some s \<Rightarrow> one_or_none (filter (\<lambda>i. ix_source i = sr_id s) (id_indexers db))) of
              Inl e \<Rightarrow> (st, Inl e)
            | Inr (Some i) \<Rightarrow> (st, Inr (ix_id i, True))
            | Inr None \<Rightarrow>
                (case add_indexer ids tid
                    (\<lambda>a. \<lparr> sr_id = a, sr_tenant = tid, sr_name = jstr (dget pr ''name''),
                       sr_kind = jstr (dget pr ''kind''), sr_category = Some (jstr (dget pr ''category'')),
                       sr_config = dset (jobj (dget pr ''config'')) ''preset_key'' (JStr key),
                       sr_license = jstr (dget pr ''license''), sr_preset = True, sr_enabled = True \<rparr>)
                    [(''regulator'', dget pr ''category'')] [] db of
                   Inl e \<Rightarrow> (st, Inl e)
                 | Inr db' \<Rightarrow>
                     (case ids of (a, b, c, d) \<Rightarrow>
                       ((db', record_action ok now p ''ingestion.preset.enable''
                           (Some (''/v1/ingestion/presets/'' @ key)) None None []
                           [(''preset'', JStr key), (''indexer_id'', JStr d)] (snd st)),
                        Inr (d, False))))))"

definition own_indexer :: "uuid \<Rightarrow> principal \<Rightarrow> ingestion_db \<Rightarrow> exn + indexer" where
  "own_indexer iid p db =
     (case find (\<lambda>i. ix_id i = iid) (id_indexers db) of
        None \<Rightarrow> Inl (HTTPError 404 ''indexer not found'')
      | Some i \<Rightarrow>
          if ix_tenant i \<noteq> pp_tenant_id p then Inl (HTTPError 404 ''indexer not found'') else Inr i)"

definition run_indexer_now ::
  "bool \<Rightarrow> int \<Rightarrow> (string + string) \<Rightarrow> uuid \<Rightarrow> principal \<Rightarrow> ingestion_db \<Rightarrow> task list \<times> audit_log \<Rightarrow>
   (task list \<times> audit_log) \<times> (exn + string)"
where
  "run_indexer_now ok now broker iid p db st =
     (case own_indexer iid p db of
        Inl e \<Rightarrow> (st, Inl e)
      | Inr i \<Rightarrow>
          (case broker of
             Inl m \<Rightarrow> (st, Inl (HTTPError 503 (''Could not enqueue - the indexing worker/broker may be down: '' @ m)))
           | Inr t \<Rightarrow>
               ((fst st @ [RunIndexer iid],
                 record_action ok now p ''ingestion.indexer.run''
                   (Some (''/v1/ingestion/indexers/'' @ iid @ ''/run'')) None None []
                   [(''indexer_id'', JStr iid), (''task_id'', JStr t)] (snd st)),
                Inr t)))"

definition list_indexer_runs :: "uuid \<Rightarrow> principal \<Rightarrow> ingestion_db \<Rightarrow> exn + indexer_run list" where
  "list_indexer_runs iid p db =
     try_bind (own_indexer iid p db) (\<lambda>i.
       Inr (take 25 (rev (filter (\<lambda>r. rn_indexer r = iid) (id_runs db)))))"

text \<open>
  Deleting an indexer cascades to its runs; deleting its source cascades to the indexers of that source
  and their runs.
\<close>

definition drop_indexers :: "(indexer \<Rightarrow> bool) \<Rightarrow> ingestion_db \<Rightarrow> ingestion_db" where
  "drop_indexers P db =
     (let gone = map ix_id (filter P (id_indexers db)) in
       db\<lparr> id_indexers := filter (\<lambda>i. \<not> P i) (id_indexers db),
           id_runs := filter (\<lambda>r. rn_indexer r \<notin> set gone) (id_runs db) \<rparr>)"

definition delete_indexer ::
  "bool \<Rightarrow> int \<Rightarrow> uuid \<Rightarrow> principal \<Rightarrow> ingestion_db \<times> audit_log \<Rightarrow>
   (ingestion_db \<times> audit_log) \<times> (exn + unit)"
where
  "delete_indexer ok now iid p st =
     (case own_indexer iid p (fst st) of
        Inl e \<Rightarrow> (st, Inl e)
      | Inr i \<Rightarrow>
          let db1 = drop_indexers (\<lambda>x. ix_id x = iid) (fst st);
              own = (\<lambda>s. sr_id s = ix_source i \<and> sr_tenant s = pp_tenant_id p);
              db2 = (if list_ex own (id_sources db1)
                then drop_indexers (\<lambda>x. ix_source x = ix_source i)
                       (db1\<lparr> id_sources := filter (\<lambda>s. sr_id s \<noteq> ix_source i) (id_sources db1) \<rparr>)
                else db1)
          in ((db2, record_action ok now p ''ingestion.indexer.delete''
                 (Some (''/v1/ingestion/indexers/'' @ iid)) None None [] [(''indexer_id'', JStr iid)] (snd st)),
              Inr ()))"

definition create_folder_source ::
  "bool \<Rightarrow> int \<Rightarrow> uuid \<times> uuid \<times> uuid \<times> uuid \<Rightarrow> string \<Rightarrow> int option \<Rightarrow> principal \<Rightarrow>
   ingestion_db \<times> audit_log \<Rightarrow> (ingestion_db \<times> audit_log) \<times> (exn + (uuid \<times> uuid \<times> jdict))"
where
  "create_folder_source ok now ids name minutes p st =
     (let tid = pp_tenant_id p;
          schedule = (case minutes of
              None \<Rightarrow> []
            | Some m \<Rightarrow> if m = 0 then [] else [(''interval_minutes'', JInt m)])
      in case add_indexer ids tid
            (\<lambda>a. \<lparr> sr_id = a, sr_tenant = tid, sr_name = name, sr_kind = ''folder'', sr_category = None,
               sr_config = [(''prefix'', JStr (folder_prefix a))], sr_license = ''byo'', sr_preset = False,
               sr_enabled = True \<rparr>)
            [] schedule (fst st) of
          Inl e \<Rightarrow> (st, Inl e)
        | Inr db' \<Rightarrow>
            (case ids of (a, b, c, d) \<Rightarrow>
              ((db', record_action ok now p ''ingestion.source.create''
                  (Some (''/v1/ingestion/sources/'' @ a)) None None []
                  [(''source_id'', JStr a), (''name'', JStr name), (''kind'', JStr ''folder'')] (snd st)),
               Inr (a, d, schedule))))"

text \<open>An upload: file name, content type and bytes.  A storage that raises stops at that file.\<close>

fun upload_loop ::
  "(string \<Rightarrow> string \<Rightarrow> exn option) \<Rightarrow> uuid \<Rightarrow> (string option \<times> string option \<times> string) list \<Rightarrow>
   (string \<rightharpoonup> string \<times> string option) \<Rightarrow> string list \<Rightarrow>
   (string \<rightharpoonup> string \<times> string option) \<times> (exn + string list)" where
  "upload_loop put sid [] objs stored = (objs, Inr stored)"
| "upload_loop put sid ((name, ct, data) # fs) objs stored =
     (if data = [] then upload_loop put sid fs objs stored
      else
        let key = storage_key_for sid (or_str name ''file'') in
        case put key data of
          Some e \<Rightarrow> (objs, Inl e)
        | None \<Rightarrow> upload_loop put sid fs (objs(key \<mapsto> (data, ct))) (stored @ [or_str name key]))"

definition upload_to_source ::
  "bool \<Rightarrow> int \<Rightarrow> (string \<Rightarrow> string \<Rightarrow> exn option) \<Rightarrow> uuid \<Rightarrow>
   (string option \<times> string option \<times> string) list \<Rightarrow> principal \<Rightarrow> ingestion_db \<Rightarrow>
   (string \<rightharpoonup> string \<times> string option) \<times> audit_log \<Rightarrow>
   ((string \<rightharpoonup> string \<times> string option) \<times> audit_log) \<times> (exn + string list)"
where
  "upload_to_source ok now put sid files p db st =
     (case find (\<lambda>s. sr_id s = sid) (id_sources db) of
        None \<Rightarrow> (st, Inl (HTTPError 404 ''folder source not found''))
      | Some s \<Rightarrow>
          if sr_tenant s \<noteq> pp_tenant_id p \<or> sr_kind s \<noteq> ''folder''
          then (st, Inl (HTTPError 404 ''folder source not found''))
          else
            (case upload_loop put sid files (fst st) [] of
               (objs, Inl e) \<Rightarrow> ((objs, snd st), Inl e)
             | (objs, Inr stored) \<Rightarrow>
                 ((objs, record_action ok now p ''ingestion.source.upload''
                     (Some (''/v1/ingestion/sources/'' @ sid @ ''/upload'')) None None []
                     [(''source_id'', JStr sid), (''files'', JList (map JStr (take 50 stored))),
                      (''count'', JInt (int (length stored)))] (snd st)),
                  Inr stored)))"

section \<open>Enrichment routes\<close>

definition get_enrichment :: "bool \<Rightarrow> principal \<Rightarrow> tenant list \<Rightarrow> bool" where
  "get_enrichment dflt p ts =
     enrichment_enabled (load_tenant_settings (tenant_db ts) (pp_tenant_id p)) dflt"

definition set_enrichment ::
  "bool \<Rightarrow> int \<Rightarrow> bool \<Rightarrow> principal \<Rightarrow> tenant list \<times> audit_log \<Rightarrow>
   (tenant list \<times> audit_log) \<times> (exn + bool)"
where
  "set_enrichment ok now auto p st =
     (let audit = record_action ok now p ''enrichment.update'' (Some ''/v1/enrichment'') None None []
            [(''auto'', JBool auto)] (snd st)
      in case get_tenant (fst st) (pp_tenant_id p) of
           None \<Rightarrow> ((fst st, audit), Inr auto)
         | Some t \<Rightarrow>
             (case with_enrichment (tn_settings t) auto of
                Inl e \<Rightarrow> (st, Inl e)
              | Inr s \<Rightarrow> ((set_tenant_settings (pp_tenant_id p) s (fst st), audit), Inr auto)))"

definition needs_summary :: "document \<Rightarrow> bool" where
  "needs_summary d = (\<not> str_true (dc_summary d))"

text \<open>Total, enriched and pending documents of the tenant.\<close>

definition enrichment_status :: "principal \<Rightarrow> document list \<Rightarrow> nat \<times> nat \<times> nat" where
  "enrichment_status p docs =
     (let own = filter (\<lambda>d. dc_tenant d = pp_tenant_id p) docs;
          enriched = length (filter (\<lambda>d. \<not> needs_summary d) own)
      in (length own, enriched, length own - enriched))"

end
