(* ===== verification/Workers.thy ===== *)
theory Workers
  imports Ingestion
begin

text \<open>
  The worker tasks (\<open>indexing/tasks.py\<close>): running one indexer or one web connector through the crawler
  or the storage connector and the pipeline, and the scheduler ticks that enqueue what is due.
\<close>

section \<open>Counting the results\<close>

record run_tally =
  tl_pages :: nat
  tl_ingested :: nat
  tl_skipped :: nat
  tl_failed :: nat

definition tally_result :: "run_tally \<Rightarrow> ingestion_result \<Rightarrow> run_tally" where
  "tally_result t r =
     (let t1 = t\<lparr> tl_pages := tl_pages t + 1 \<rparr> in
       if ir_skipped r \<and> startswith ''error:'' (ir_note r) then t1\<lparr> tl_failed := tl_failed t + 1 \<rparr>
       else if ir_skipped r then t1\<lparr> tl_skipped := tl_skipped t + 1 \<rparr>
       else t1\<lparr> tl_ingested := tl_ingested t + 1 \<rparr>)"

definition tally_results :: "ingestion_result list \<Rightarrow> run_tally" where
  "tally_results rs =
     foldl tally_result \<lparr> tl_pages = 0, tl_ingested = 0, tl_skipped = 0, tl_failed = 0 \<rparr> rs"

section \<open>Connectors\<close>

text \<open>The object storage connector, over the listing of the bucket.\<close>

fun s3_documents ::
  "(string \<Rightarrow> string option) \<Rightarrow> string \<Rightarrow> string \<Rightarrow> (string \<times> string) list \<Rightarrow> source_document list" where
  "s3_documents guess bucket pre [] = []"
| "s3_documents guess bucket pre ((key, data) # objs) =
     (if \<not> startswith pre key \<or> key = [] \<or> endswith ''/'' key then s3_documents guess bucket pre objs
      else
        \<lparr> sd_uri = ''s3://'' @ bucket @ ''/'' @ key, sd_data = data,
          sd_filename = Some (rsplit_last (CHR ''/'') key),
          sd_content_type = Some (detect_content_type guess (Some key)), sd_title = None,
          sd_metadata = [(''size_bytes'', JInt (int (length data)))] \<rparr>
        # s3_documents guess bucket pre objs)"

text \<open>
  The crawl configuration from the JSON of a connector or a source.  A zero is as good as nothing:
  \<open>int(x or 50)\<close>, \<open>int(x or 2)\<close>.  Lists of strings are read as such.
\<close>

definition str_list :: "json \<Rightarrow> exn + string list" where
  "str_list v = try_bind (py_iter (por v (JList []))) (\<lambda>xs. Inr (map py_str xs))"

definition crawl_config_of :: "jdict \<Rightarrow> json \<Rightarrow> exn + crawl_config" where
  "crawl_config_of c doc_type =
     try_bind (str_list (dget c ''start_urls'')) (\<lambda>urls.
     try_bind (str_list (dget c ''include'')) (\<lambda>inc.
     try_bind (str_list (dget c ''exclude'')) (\<lambda>exc.
     try_bind (py_int (por (dget c ''max_pages'') (JInt 50))) (\<lambda>pages.
     try_bind (py_int (por (dget c ''max_depth'') (JInt 2))) (\<lambda>depth.
       Inr \<lparr> cc_start_urls = urls, cc_mode = py_str (por (dget c ''mode'') (JStr ''crawl'')),
         cc_url_prefix = (case dget c ''url_prefix'' of JStr s \<Rightarrow> Some s | _ \<Rightarrow> None),
         cc_include = inc, cc_exclude = exc, cc_max_pages = pages, cc_max_depth = depth,
         cc_doc_type = doc_type \<rparr>)))))"

text \<open>The world outside: URL functions, the network, the bucket and its listing.\<close>

record outside =
  ot_urllib :: urllib
  ot_net :: fetcher
  ot_bucket :: string
  ot_objects :: "(string \<times> string) list"

text \<open>
  \<open>str(exc)\<close> as the error of a run, and its status: an exception without a message counts as none.
\<close>

definition run_status :: "string option \<Rightarrow> string" where
  "run_status err = (if str_true err then ''error'' else ''ok'')"

definition web_run ::
  "outside \<Rightarrow> 'v ingest_env \<Rightarrow> uuid \<Rightarrow> crawl_config \<Rightarrow> 'v store \<Rightarrow> 'v store \<times> run_tally \<times> string option" where
  "web_run X E tid cfg st =
     (let r = crawl (ot_urllib X) (ot_net X) cfg in
       case ingest E tid (cr_docs r) st of
         (st', rs) \<Rightarrow> (st', tally_results rs, map_option exn_message (cr_error r)))"

section \<open>One web connector\<close>

definition run_record :: "string \<Rightarrow> int \<Rightarrow> int \<Rightarrow> run_tally \<Rightarrow> string option \<Rightarrow> jdict" where
  "run_record rid started finished t err =
     [(''run_id'', JStr rid), (''started_at'', JStr (isoformat started)),
      (''finished_at'', JStr (isoformat finished)), (''status'', JStr (run_status err)),
      (''pages'', JInt (int (tl_pages t))), (''ingested'', JInt (int (tl_ingested t))),
      (''skipped'', JInt (int (tl_skipped t))), (''failed'', JInt (int (tl_failed t))),
      (''error'', opt_str err),
      (''duration_ms'', decimal_json 1 (of_int (finished - started) / 1000))]"

text \<open>\<open>append_run\<close> on the current connector, with the time of the run for the scheduler.\<close>

definition record_run :: "jdict \<Rightarrow> jdict \<Rightarrow> int \<Rightarrow> exn + jdict" where
  "record_run con run finished =
     try_bind (append_run con run) (\<lambda>c. Inr (dset c ''last_run_epoch'' (timestamp finished)))"

definition store_run ::
  "uuid \<Rightarrow> string \<Rightarrow> jdict \<Rightarrow> int \<Rightarrow> tenant list \<Rightarrow> exn + tenant list" where
  "store_run tid cid run finished ts =
     (case get_tenant ts tid of
        None \<Rightarrow> Inr ts
      | Some t \<Rightarrow>
          let s = settings_dict (tn_settings t) in
          try_bind (dict_or_empty (dget s ''connectors'')) (\<lambda>block.
          try_bind (py_iter (por (dget block ''items'') (JList []))) (\<lambda>items.
          try_bind (find_connector (Some s) cid) (\<lambda>found.
            case found of
              None \<Rightarrow> Inr ts
            | Some con \<Rightarrow>
                try_bind (record_run con run finished) (\<lambda>c.
                try_bind (upsert_connector items c) (\<lambda>its.
                  Inr (set_tenant_settings tid
                    (dset s ''connectors'' (JObj (dset block ''items'' (JList its)))) ts)))))))"

definition run_web_connector ::
  "outside \<Rightarrow> 'v ingest_env \<Rightarrow> string \<Rightarrow> int \<Rightarrow> int \<Rightarrow> uuid \<Rightarrow> string \<Rightarrow> tenant list \<times> 'v store \<Rightarrow>
   (tenant list \<times> 'v store) \<times> (exn + jdict)"
where
  "run_web_connector X E rid started finished tid cid ws =
     (let settings = (case get_tenant (fst ws) tid of None \<Rightarrow> [] | Some t \<Rightarrow> settings_dict (tn_settings t)) in
       case find_connector (Some settings) cid of
         Inl e \<Rightarrow> (ws, Inl e)
       | Inr None \<Rightarrow> (ws, Inr [(''status'', JStr ''error''), (''error'', JStr ''connector not found'')])
       | Inr (Some con) \<Rightarrow>
           (case crawl_config_of con (dget con ''doc_type'') of
              Inl e \<Rightarrow> (ws, Inl e)
            | Inr cfg \<Rightarrow>
                (case web_run X (E\<lparr> ie_tenants := fst ws \<rparr>) tid cfg (snd ws) of
                   (st, t, err) \<Rightarrow>
                     let run = run_record rid started finished t err in
                     (case store_run tid cid run finished (fst ws) of
                        Inl e \<Rightarrow> ((fst ws, st), Inl e)
                      | Inr ts \<Rightarrow>
                          ((ts, st),
                           Inr (dmerge [(''status'', dget run ''status''), (''connector_id'', JStr cid)] run))))))"

section \<open>One indexer\<close>

definition open_run :: "uuid \<Rightarrow> uuid \<Rightarrow> int \<Rightarrow> ingestion_db \<Rightarrow> ingestion_db" where
  "open_run iid tid started db =
     db\<lparr> id_runs := id_runs db @
           [\<lparr> rn_id = id_next_run db, rn_indexer = iid, rn_tenant = tid, rn_started = started,
              rn_finished = None, rn_status = ''running'', rn_pages = 0, rn_ingested = 0, rn_skipped = 0,
              rn_failed = 0, rn_error = None \<rparr>],
         id_next_run := id_next_run db + 1 \<rparr>"

definition close_run ::
  "nat \<Rightarrow> uuid \<Rightarrow> int \<Rightarrow> run_tally \<Rightarrow> string option \<Rightarrow> ingestion_db \<Rightarrow> ingestion_db" where
  "close_run rid iid finished t err db =
     db\<lparr> id_runs := map (\<lambda>r. if rn_id r = rid
             then r\<lparr> rn_finished := Some finished, rn_status := run_status err, rn_pages := tl_pages t,
                    rn_ingested := tl_ingested t, rn_skipped := tl_skipped t, rn_failed := tl_failed t,
                    rn_error := err \<rparr>
             else r) (id_runs db),
         id_indexers := map (\<lambda>i. if ix_id i = iid then i\<lparr> ix_last_run := Some finished \<rparr> else i)
           (id_indexers db) \<rparr>"

definition run_kind ::
  "outside \<Rightarrow> 'v ingest_env \<Rightarrow> ingest_source \<Rightarrow> uuid \<Rightarrow> 'v store \<Rightarrow>
   exn + ('v store \<times> run_tally \<times> string option)" where
  "run_kind X E src tid st =
     (if sr_kind src = ''folder'' \<or> sr_kind src = ''s3''
      then
        let docs = s3_documents (ie_guess E) (ot_bucket X)
              (py_str (por (dget (sr_config src) ''prefix'') (JStr []))) (ot_objects X)
        in case ingest E tid docs st of (st', rs) \<Rightarrow> Inr (st', tally_results rs, None)
      else
        try_bind (crawl_config_of (sr_config src) (opt_str (sr_category src))) (\<lambda>cfg.
          Inr (web_run X E tid cfg st)))"

text \<open>
  An indexer or source that is gone is reported.  A configuration that cannot be read raises after the run
  was opened, which then stays in the state \<open>running\<close>.
\<close>

definition run_indexer ::
  "outside \<Rightarrow> 'v ingest_env \<Rightarrow> int \<Rightarrow> int \<Rightarrow> uuid \<Rightarrow> ingestion_db \<times> 'v store \<Rightarrow>
   (ingestion_db \<times> 'v store) \<times> (exn + (string \<times> run_tally \<times> string option))"
where
  "run_indexer X E started finished iid ws =
     (let none = \<lparr> tl_pages = 0, tl_ingested = 0, tl_skipped = 0, tl_failed = 0 \<rparr> in
       case find (\<lambda>i. ix_id i = iid) (id_indexers (fst ws)) of
         None \<Rightarrow> (ws, Inr (''error'', none, Some ''indexer not found''))
       | Some i \<Rightarrow>
           (case find (\<lambda>s. sr_id s = ix_source i) (id_sources (fst ws)) of
              None \<Rightarrow> (ws, Inr (''error'', none, Some ''source not found''))
            | Some s \<Rightarrow>
                let rid = id_next_run (fst ws); db1 = open_run iid (ix_tenant i) started (fst ws) in
                (case run_kind X E s (ix_tenant i) (snd ws) of
                   Inl e \<Rightarrow> ((db1, snd ws), Inl e)
                 | Inr (st, t, err) \<Rightarrow>
                     ((close_run rid iid finished t err db1, st), Inr (run_status err, t, err)))))"

section \<open>Scheduler ticks\<close>

text \<open>A tick that raises keeps the tasks it has enqueued.\<close>

fun due_connectors :: "rat \<Rightarrow> uuid \<Rightarrow> json list \<Rightarrow> task list \<Rightarrow> task list \<times> exn option" where
  "due_connectors now tid [] q = (q, None)"
| "due_connectors now tid (JObj c # cs) q =
     (case is_due c now of
        Inl e \<Rightarrow> (q, Some e)
      | Inr False \<Rightarrow> due_connectors now tid cs q
      | Inr True \<Rightarrow>
          if ''id'' \<notin> fst ` set c then (q, Some (PyExc (KeyError ''id'')))
          else due_connectors now tid cs (q @ [RunWebConnector tid (py_str (dget c ''id''))]))"
| "due_connectors now tid (_ # cs) q = (q, Some (PyExc AttributeError))"

fun run_due_connectors :: "rat \<Rightarrow> tenant list \<Rightarrow> task list \<Rightarrow> task list \<times> exn option" where
  "run_due_connectors now [] q = (q, None)"
| "run_due_connectors now (t # ts) q =
     (case due_connectors now (tn_id t) (list_connectors (tn_settings t)) q of
        (q', Some e) \<Rightarrow> (q', Some e)
      | (q', None) \<Rightarrow> run_due_connectors now ts q')"

fun run_due_indexers :: "int \<Rightarrow> indexer list \<Rightarrow> task list \<Rightarrow> task list \<times> exn option" where
  "run_due_indexers now [] q = (q, None)"
| "run_due_indexers now (i # is') q =
     (if \<not> ix_enabled i then run_due_indexers now is' q
      else case is_indexer_due True (ix_schedule i) (ix_last_run i) now of
        Inl e \<Rightarrow> (q, Some e)
      | Inr due \<Rightarrow> run_due_indexers now is' (if due then q @ [RunIndexer (ix_id i)] else q))"

definition enrich_pending :: "bool \<Rightarrow> tenant list \<Rightarrow> document list \<Rightarrow> task list \<Rightarrow> task list" where
  "enrich_pending dflt ts docs q =
     q @ concat (map (\<lambda>t.
       if \<not> enrichment_enabled (tn_settings t) dflt then []
       else map (\<lambda>d. SummariseDocument (tn_id t) (dc_id d))
         (take 50 (filter (\<lambda>d. dc_tenant d = tn_id t \<and> needs_summary d) docs))) ts)"

section \<open>Lemmas\<close>

lemma tally_counts:
  "tl_pages (foldl tally_result t rs) = tl_pages t + length rs \<and>
   tl_ingested (foldl tally_result t rs) = tl_ingested t + length (filter (\<lambda>r. \<not> ir_skipped r) rs) \<and>
   tl_failed (foldl tally_result t rs) =
     tl_failed t + length (filter (\<lambda>r. ir_skipped r \<and> startswith ''error:'' (ir_note r)) rs) \<and>
   tl_skipped (foldl tally_result t rs) =
     tl_skipped t + length (filter (\<lambda>r. ir_skipped r \<and> \<not> startswith ''error:'' (ir_note r)) rs)"
  by (induction rs arbitrary: t) (auto simp: tally_result_def Let_def)

lemma fle_to_float:
  assumes "\<bar>y\<bar> < FLOAT_LIMIT"
  shows "fle (to_float y) (to_float x) \<longleftrightarrow> y \<le> x"
  using assms by (auto simp: to_float_def abs_less_iff)

lemma is_due_spec:
  assumes "truthy (dget_or c ''enabled'' (JBool True))"
    and "dget c ''schedule_interval_minutes'' = JInt i" and "0 < i" and "i \<le> 10080"
    and "dget c ''last_run_epoch'' = timestamp t"
  shows "is_due c now = Inr (of_int i * 60 \<le> now - of_int t / 1000000)"
proof -
  have big: "10080 * 60 < FLOAT_LIMIT" by (simp add: FLOAT_LIMIT_def)
  have i: "\<bar>of_int i * 60\<bar> < FLOAT_LIMIT" "to_float (of_int i) = Fin (of_int i)"
    using assms(3,4) big by (auto simp: to_float_def)
  show ?thesis
    using assms i(2) fle_to_float [OF i(1), of "now - of_int t / 1000000"]
    by (simp add: is_due_def Let_def timestamp_float)
qed

lemma upsert_loop_objects: "upsert_loop con b items = Inr r \<Longrightarrow> all_objects items"
  by (induction con b items arbitrary: r rule: upsert_loop.induct)
    (auto simp: all_objects_def is_dict_def try_bind_eq_Inr split: if_splits)

lemma store_items_lookup:
  assumes "store_items tid s (upsert_connector (list_connectors (Some s)) con) ts = Inr ts'"
    and "get_tenant ts tid = Some t" and "dget con ''id'' = JStr cid"
  shows "find_connector (load_tenant_settings (tenant_db ts') tid) cid = Inr (Some con)"
proof -
  obtain items block where up: "upsert_connector (list_connectors (Some s)) con = Inr items"
    and block: "dict_or_empty (dget s ''connectors'') = Inr block"
    and ts': "ts' = set_tenant_settings tid
      (dset s ''connectors'' (JObj (dset block ''items'' (JList items)))) ts"
    using assms(1) by (auto simp: store_items_def save_items_def try_bind_eq_Inr)
  let ?s = "dset s ''connectors'' (JObj (dset block ''items'' (JList items)))"
  have objs: "all_objects (list_connectors (Some s))"
    using up upsert_loop_objects by (simp add: upsert_connector_def)
  have find: "find_item items cid = Inr (Some con)"
    using upsert_spec [OF objs, of con] up assms(3) by fastforce
  have "?s \<noteq> []" by (cases s) (auto split: if_splits)
  then have "load_tenant_settings (tenant_db ts') tid = Some ?s"
    using assms(2) by (simp add: load_tenant_settings_def tenant_db_def ts' set_tenant_find get_tenant_def)
  then show ?thesis using find by (simp add: find_connector_def list_connectors_def)
qed

text \<open>A depth of zero, which the connector form accepts, is run as a depth of two.\<close>

lemma depth_zero_ignored:
  "crawl_config_of c ty = Inr cfg \<Longrightarrow> dget c ''max_depth'' = JInt 0 \<Longrightarrow> cc_max_depth cfg = 2"
  by (auto simp: crawl_config_of_def try_bind_eq_Inr por_def)

section \<open>Properties\<close>

text \<open>
  After a run is recorded, an enabled connector with an interval of \<open>i\<close> minutes is due again exactly when
  that time has passed since the run finished; its history starts with the run and keeps at most twenty.
\<close>

theorem connector_due_after_run:
  assumes "record_run con run t = Inr c"
    and "truthy (dget_or con ''enabled'' (JBool True))"
    and "dget con ''schedule_interval_minutes'' = JInt i" and "0 < i" and "i \<le> 10080"
  shows "is_due c now = Inr (of_int i * 60 \<le> now - of_int t / 1000000) \<and>
    (\<exists>runs. dget c ''runs'' = JList (JObj run # runs) \<and> length runs < RUN_HISTORY_LIMIT)"
proof -
  obtain old where old: "c = dset (dset (dset con ''runs'' (JList (take RUN_HISTORY_LIMIT (JObj run # old))))
      ''last_run_at'' (por (dget run ''finished_at'') (dget run ''started_at'')))
      ''last_run_epoch'' (timestamp t)"
    using assms(1) by (auto simp: record_run_def append_run_def try_bind_eq_Inr)
  have "is_due c now = Inr (of_int i * 60 \<le> now - of_int t / 1000000)"
    by (rule is_due_spec) (use assms old in simp_all)
  moreover have "dget c ''runs'' = JList (JObj run # take 19 old)"
    using old by (simp add: RUN_HISTORY_LIMIT_def)
  ultimately show ?thesis by (auto simp: RUN_HISTORY_LIMIT_def)
qed

theorem connector_due_after_run_witness:
  "\<exists>c. record_run [(''schedule_interval_minutes'', JInt 60)] [] 0 = Inr c \<and>
     is_due c 3599 = Inr False \<and> is_due c 3600 = Inr True"
proof -
  obtain c where c: "record_run [(''schedule_interval_minutes'', JInt 60)] [] 0 = Inr c"
    by (simp add: record_run_def append_run_def por_def)
  show ?thesis
    using connector_due_after_run [OF c, of 60 3599] connector_due_after_run [OF c, of 60 3600] c
    by (simp add: dget_or_def)
qed

end
