(* ===== verification/IngestionDb.thy ===== *)
theory IngestionDb
  imports Workers
begin

text \<open>
  The invariant of the ingestion tables, kept by every route and by the runner, and what enabling a preset
  does on top of it: no lookup of the routes ever meets two rows.
\<close>

section \<open>The invariant\<close>

definition sources_ok :: "ingestion_db \<Rightarrow> bool" where
  "sources_ok db \<longleftrightarrow>
     distinct (map sr_id (id_sources db)) \<and> distinct (map ix_id (id_indexers db)) \<and>
     map ix_source (id_indexers db) = map sr_id (id_sources db) \<and>
     (\<forall>i\<in>set (id_indexers db). \<forall>s\<in>set (id_sources db). ix_source i = sr_id s \<longrightarrow> ix_tenant i = sr_tenant s) \<and>
     (\<forall>tid key. length (preset_sources tid key db) \<le> 1)"

definition profiles_ok :: "ingestion_db \<Rightarrow> bool" where
  "profiles_ok db \<longleftrightarrow>
     distinct (map sk_id (id_skillsets db)) \<and> distinct (map ip_id (id_profiles db)) \<and>
     (\<forall>tid. length (filter (\<lambda>k. sk_tenant k = tid \<and> sk_default k) (id_skillsets db)) \<le> 1) \<and>
     (\<forall>tid. length (filter (\<lambda>k. ip_tenant k = tid) (id_profiles db)) \<le> 1) \<and>
     (\<forall>i\<in>set (id_indexers db).
        (\<exists>k\<in>set (id_skillsets db). sk_id k = ix_skillset i \<and> sk_tenant k = ix_tenant i) \<and>
        (\<exists>k\<in>set (id_profiles db). ip_id k = ix_profile i \<and> ip_tenant k = ix_tenant i))"

definition runs_ok :: "ingestion_db \<Rightarrow> bool" where
  "runs_ok db \<longleftrightarrow>
     distinct (map rn_id (id_runs db)) \<and> (\<forall>r\<in>set (id_runs db). rn_id r < id_next_run db) \<and>
     (\<forall>r\<in>set (id_runs db). \<exists>i\<in>set (id_indexers db). ix_id i = rn_indexer r \<and> ix_tenant i = rn_tenant r) \<and>
     (\<forall>r\<in>set (id_runs db). (rn_status r = ''running'') = (rn_finished r = None))"

definition ingestion_ok :: "ingestion_db \<Rightarrow> bool" where
  "ingestion_ok db \<longleftrightarrow> sources_ok db \<and> profiles_ok db \<and> runs_ok db"

definition fresh_ids :: "uuid \<times> uuid \<times> uuid \<times> uuid \<Rightarrow> ingestion_db \<Rightarrow> bool" where
  "fresh_ids ids db \<longleftrightarrow>
     (case ids of (a, b, c, d) \<Rightarrow>
        a \<notin> sr_id ` set (id_sources db) \<and> b \<notin> sk_id ` set (id_skillsets db) \<and>
        c \<notin> ip_id ` set (id_profiles db) \<and> d \<notin> ix_id ` set (id_indexers db))"

text \<open>
  The databases that requests and workers can produce.  Opening and closing a run are steps of their own,
  since anything may happen while the crawl goes on.
\<close>

inductive ingestion_reachable :: "ingestion_db \<Rightarrow> bool" where
  empty: "ingestion_reachable \<lparr> id_sources = [], id_indexers = [], id_runs = [], id_skillsets = [],
    id_profiles = [], id_next_run = 0 \<rparr>"
| enable: "ingestion_reachable db \<Longrightarrow> fresh_ids ids db \<Longrightarrow>
    ingestion_reachable (fst (fst (enable_preset ok now ids key p (db, al))))"
| folder: "ingestion_reachable db \<Longrightarrow> fresh_ids ids db \<Longrightarrow>
    ingestion_reachable (fst (fst (create_folder_source ok now ids name minutes p (db, al))))"
| delete: "ingestion_reachable db \<Longrightarrow>
    ingestion_reachable (fst (fst (delete_indexer ok now iid p (db, al))))"
| open_run: "ingestion_reachable db \<Longrightarrow> i \<in> set (id_indexers db) \<Longrightarrow>
    ingestion_reachable (open_run (ix_id i) (ix_tenant i) started db)"
| close_run: "ingestion_reachable db \<Longrightarrow> ingestion_reachable (close_run rid iid finished t err db)"

section \<open>Preservation\<close>

lemma one_or_none_found: "length xs \<le> 1 \<Longrightarrow> one_or_none xs = Inr (case xs of [] \<Rightarrow> None | x # _ \<Rightarrow> Some x)"
  by (cases xs; cases "tl xs") (auto simp: one_or_none_def)

lemma length_filter_append1: "length (filter P (xs @ [x])) = length (filter P xs) + (if P x then 1 else 0)"
  by simp

lemma default_skillset:
  assumes "\<forall>tid. length (filter (\<lambda>k. sk_tenant k = tid \<and> sk_default k) (id_skillsets db)) \<le> 1"
    and "distinct (map sk_id (id_skillsets db))" and "new \<notin> sk_id ` set (id_skillsets db)"
  obtains sks sk where "default_skillset_id new tid db = Inr (db\<lparr> id_skillsets := sks \<rparr>, sk)"
    "set (id_skillsets db) \<subseteq> set sks" "\<exists>k\<in>set sks. sk_id k = sk \<and> sk_tenant k = tid"
    "distinct (map sk_id sks)" "\<forall>tid. length (filter (\<lambda>k. sk_tenant k = tid \<and> sk_default k) sks) \<le> 1"
proof (cases "filter (\<lambda>k. sk_tenant k = tid \<and> sk_default k) (id_skillsets db)")
  case Nil
  then show thesis using assms
    by (intro that [of "id_skillsets db @ [\<lparr> sk_id = new, sk_tenant = tid,
        sk_name = ''Standard regulatory text'', sk_skills = default_skillset_skills, sk_default = True \<rparr>]" new])
      (auto simp: default_skillset_id_def one_or_none_found)
next
  case (Cons k ks)
  then have k: "k \<in> set (id_skillsets db)" "sk_tenant k = tid" by (auto dest!: Cons_eq_filterD [OF sym])
  have "default_skillset_id new tid db = Inr (db, sk_id k)"
    using spec [OF assms(1), of tid] Cons by (simp add: default_skillset_id_def one_or_none_found)
  then show thesis using assms(1,2) k by (intro that [of "id_skillsets db" "sk_id k"]) auto
qed

lemma default_profile:
  assumes "\<forall>tid. length (filter (\<lambda>k. ip_tenant k = tid) (id_profiles db)) \<le> 1"
    and "distinct (map ip_id (id_profiles db))" and "new \<notin> ip_id ` set (id_profiles db)"
  obtains ips ip where "default_index_profile_id new tid db = Inr (db\<lparr> id_profiles := ips \<rparr>, ip)"
    "set (id_profiles db) \<subseteq> set ips" "\<exists>k\<in>set ips. ip_id k = ip \<and> ip_tenant k = tid"
    "distinct (map ip_id ips)" "\<forall>tid. length (filter (\<lambda>k. ip_tenant k = tid) ips) \<le> 1"
proof (cases "filter (\<lambda>k. ip_tenant k = tid) (id_profiles db)")
  case Nil
  then show thesis using assms
    by (intro that [of "id_profiles db @ [\<lparr> ip_id = new, ip_tenant = tid, ip_name = ''UK FinReg'',
        ip_fields = default_index_fields \<rparr>]" new])
      (auto simp: default_index_profile_id_def one_or_none_found)
next
  case (Cons k ks)
  then have k: "k \<in> set (id_profiles db)" "ip_tenant k = tid" by (auto dest!: Cons_eq_filterD [OF sym])
  have "default_index_profile_id new tid db = Inr (db, ip_id k)"
    using spec [OF assms(1), of tid] Cons by (simp add: default_index_profile_id_def one_or_none_found)
  then show thesis using assms(1,2) k by (intro that [of "id_profiles db" "ip_id k"]) auto
qed

text \<open>One more source with its indexer.\<close>

lemma sources_ok_add:
  assumes "sources_ok db" and "id_sources db' = id_sources db @ [s]" and "id_indexers db' = id_indexers db @ [i]"
    and "sr_id s \<notin> sr_id ` set (id_sources db)" and "ix_id i \<notin> ix_id ` set (id_indexers db)"
    and "ix_source i = sr_id s" and "ix_tenant i = sr_tenant s"
    and "\<And>key. dget (sr_config s) ''preset_key'' = JStr key \<Longrightarrow> preset_sources (sr_tenant s) key db = []"
  shows "sources_ok db'"
proof -
  have src: "\<forall>x\<in>set (id_indexers db). \<exists>y\<in>set (id_sources db). ix_source x = sr_id y"
    using assms(1) by (metis sources_ok_def image_eqI image_set in_set_conv_nth nth_map length_map)
  have "length (preset_sources tid key db') \<le> 1" for tid key
  proof (cases "sr_tenant s = tid \<and> dget (sr_config s) ''preset_key'' = JStr key")
    case True
    then show ?thesis using assms(8) [of key] by (simp add: preset_sources_def assms(2))
  next
    case False
    then have "preset_sources tid key db' = preset_sources tid key db"
      by (auto simp: preset_sources_def assms(2))
    then show ?thesis using assms(1) by (simp add: sources_ok_def)
  qed
  then show ?thesis
    using assms(1,4-7) src unfolding sources_ok_def assms(2,3)
    by (auto simp: image_iff) metis+
qed

lemma add_indexer_ok:
  assumes "ingestion_ok db" and "fresh_ids (a, b, c, d) db"
    and "sr_id (mk a) = a" and "sr_tenant (mk a) = tid"
    and "\<And>key. dget (sr_config (mk a)) ''preset_key'' = JStr key \<Longrightarrow> preset_sources tid key db = []"
  obtains db' i where "add_indexer (a, b, c, d) tid mk m sch db = Inr db'" "ingestion_ok db'"
    "id_sources db' = id_sources db @ [mk a]" "id_indexers db' = id_indexers db @ [i]"
    "ix_id i = d" "ix_source i = a" "ix_tenant i = tid"
proof -
  let ?db = "db\<lparr> id_sources := id_sources db @ [mk a] \<rparr>"
  obtain sks sk where sk: "default_skillset_id b tid ?db = Inr (?db\<lparr> id_skillsets := sks \<rparr>, sk)"
    "set (id_skillsets db) \<subseteq> set sks" "\<exists>k\<in>set sks. sk_id k = sk \<and> sk_tenant k = tid"
    "distinct (map sk_id sks)" "\<forall>tid. length (filter (\<lambda>k. sk_tenant k = tid \<and> sk_default k) sks) \<le> 1"
    by (rule default_skillset [of ?db b tid])
      (use assms(1,2) in \<open>simp_all add: ingestion_ok_def profiles_ok_def fresh_ids_def\<close>)
  let ?db1 = "?db\<lparr> id_skillsets := sks \<rparr>"
  obtain ips ip where ip: "default_index_profile_id c tid ?db1 = Inr (?db1\<lparr> id_profiles := ips \<rparr>, ip)"
    "set (id_profiles db) \<subseteq> set ips" "\<exists>k\<in>set ips. ip_id k = ip \<and> ip_tenant k = tid"
    "distinct (map ip_id ips)" "\<forall>tid. length (filter (\<lambda>k. ip_tenant k = tid) ips) \<le> 1"
    by (rule default_profile [of ?db1 c tid])
      (use assms(1,2) in \<open>simp_all add: ingestion_ok_def profiles_ok_def fresh_ids_def\<close>)
  let ?i = "\<lparr> ix_id = d, ix_tenant = tid, ix_name = sr_name (mk a), ix_source = a, ix_skillset = sk,
    ix_profile = ip, ix_mappings = m, ix_schedule = sch, ix_enabled = True, ix_last_run = None \<rparr>"
  let ?db' = "?db1\<lparr> id_profiles := ips, id_indexers := id_indexers db @ [?i] \<rparr>"
  have "add_indexer (a, b, c, d) tid mk m sch db = Inr ?db'"
    using sk(1) ip(1) by (simp add: add_indexer_def Let_def)
  moreover have "sources_ok ?db'"
    by (rule sources_ok_add [of db]) (use assms in \<open>auto simp: ingestion_ok_def fresh_ids_def\<close>)
  moreover have "profiles_ok ?db'"
    using assms(1) sk ip unfolding ingestion_ok_def profiles_ok_def by simp (metis subsetD)
  moreover have "runs_ok ?db'"
    using assms(1) unfolding ingestion_ok_def runs_ok_def by auto
  ultimately show thesis using that by (simp add: ingestion_ok_def)
qed

text \<open>Presets and folder sources.\<close>

lemma preset_lookup_one: "ingestion_ok db \<Longrightarrow>
    one_or_none (preset_sources tid key db) =
      Inr (case preset_sources tid key db of [] \<Rightarrow> None | s # _ \<Rightarrow> Some s)"
  by (simp add: ingestion_ok_def sources_ok_def one_or_none_found)

lemma preset_sources_mem:
  "s \<in> set (preset_sources tid key db) \<longleftrightarrow>
     s \<in> set (id_sources db) \<and> sr_tenant s = tid \<and> dget (sr_config s) ''preset_key'' = JStr key"
  by (auto simp: preset_sources_def)

lemma filter_distinct_key:
  "distinct (map f xs) \<Longrightarrow> x \<in> set xs \<Longrightarrow> filter (\<lambda>y. f y = f x) xs = [x]"
  by (induction xs) (auto simp: filter_empty_conv image_iff)

lemma indexer_of_source:
  assumes "ingestion_ok db" and "s \<in> set (id_sources db)"
  obtains i where "filter (\<lambda>i. ix_source i = sr_id s) (id_indexers db) = [i]" "i \<in> set (id_indexers db)"
    "ix_tenant i = sr_tenant s" "ix_source i = sr_id s"
proof -
  have d: "distinct (map ix_source (id_indexers db))"
    and m: "set (map ix_source (id_indexers db)) = set (map sr_id (id_sources db))"
    using assms(1) by (simp_all add: ingestion_ok_def sources_ok_def)
  obtain i where i: "i \<in> set (id_indexers db)" "ix_source i = sr_id s"
    using m assms(2) by (metis (no_types, lifting) image_eqI image_iff image_set)
  have "filter (\<lambda>x. ix_source x = ix_source i) (id_indexers db) = [i]"
    using filter_distinct_key [OF d i(1)] .
  then show thesis using that i assms by (auto simp: ingestion_ok_def sources_ok_def)
qed

lemma find_preset_key: "find_preset key ps = Some pr \<Longrightarrow> dget pr ''key'' = JStr key"
  by (induction key ps rule: find_preset.induct) (auto split: if_splits)

lemma enable_preset_existing:
  assumes "ingestion_ok db" and "s \<in> set (preset_sources (pp_tenant_id p) key db)"
    and "find_preset key regulator_presets \<noteq> None"
  obtains i where "filter (\<lambda>i. ix_source i = sr_id s) (id_indexers db) = [i]"
    "i \<in> set (id_indexers db)" "ix_source i = sr_id s" "ix_tenant i = pp_tenant_id p"
    "\<And>ok now ids al. enable_preset ok now ids key p (db, al) = ((db, al), Inr (ix_id i, True))"
proof -
  have s: "s \<in> set (id_sources db)" "sr_tenant s = pp_tenant_id p"
    using assms(2) by (simp_all add: preset_sources_mem)
  obtain i where i: "filter (\<lambda>i. ix_source i = sr_id s) (id_indexers db) = [i]"
    "i \<in> set (id_indexers db)" "ix_tenant i = sr_tenant s" "ix_source i = sr_id s"
    by (rule indexer_of_source [OF assms(1) s(1)])
  obtain pr where pr: "find_preset key regulator_presets = Some pr" using assms(3) by auto
  have "preset_sources (pp_tenant_id p) key db = [s]"
  proof -
    have "length (preset_sources (pp_tenant_id p) key db) \<le> 1"
      using assms(1) by (simp add: ingestion_ok_def sources_ok_def)
    then show ?thesis using assms(2) by (cases "preset_sources (pp_tenant_id p) key db") auto
  qed
  then have f: "one_or_none (preset_sources (pp_tenant_id p) key db) = Inr (Some s)"
    "one_or_none (filter (\<lambda>i. ix_source i = sr_id s) (id_indexers db)) = Inr (Some i)"
    by (simp_all add: i(1) one_or_none_def)
  have "enable_preset ok now ids key p (db, al) = ((db, al), Inr (ix_id i, True))" for ok now ids al
    by (simp add: enable_preset_def pr f Let_def)
  then show thesis using that i s(2) by simp
qed

lemma enable_preset_cases:
  assumes "ingestion_ok db" and "fresh_ids ids db"
  obtains (unknown) "find_preset key regulator_presets = None"
      "enable_preset ok now ids key p (db, al) = ((db, al), Inl (HTTPError 404 ''unknown preset''))"
  | (enabled) s i where "s \<in> set (preset_sources (pp_tenant_id p) key db)"
      "i \<in> set (id_indexers db)" "ix_source i = sr_id s" "ix_tenant i = pp_tenant_id p"
      "find_preset key regulator_presets \<noteq> None"
      "enable_preset ok now ids key p (db, al) = ((db, al), Inr (ix_id i, True))"
  | (created) db' i s al' where "ingestion_ok db'" "id_sources db' = id_sources db @ [s]"
      "id_indexers db' = id_indexers db @ [i]" "ix_source i = sr_id s" "ix_tenant i = pp_tenant_id p"
      "sr_tenant s = pp_tenant_id p" "dget (sr_config s) ''preset_key'' = JStr key"
      "find_preset key regulator_presets \<noteq> None"
      "enable_preset ok now ids key p (db, al) = ((db', al'), Inr (ix_id i, False))"
proof (cases "find_preset key regulator_presets")
  case None
  then show thesis using unknown by (simp add: enable_preset_def)
next
  case (Some pr)
  show thesis
  proof (cases "preset_sources (pp_tenant_id p) key db")
    case (Cons s ss)
    then have s: "s \<in> set (preset_sources (pp_tenant_id p) key db)" by simp
    show thesis
      by (rule enable_preset_existing [OF assms(1) s]) (use Some in simp, rule enabled [OF s], use Some in simp_all)
  next
    case Nil
    obtain a b c d where ids: "ids = (a, b, c, d)" by (cases ids)
    let ?mk = "\<lambda>a. \<lparr> sr_id = a, sr_tenant = pp_tenant_id p, sr_name = jstr (dget pr ''name''),
      sr_kind = jstr (dget pr ''kind''), sr_category = Some (jstr (dget pr ''category'')),
      sr_config = dset (jobj (dget pr ''config'')) ''preset_key'' (JStr key),
      sr_license = jstr (dget pr ''license''), sr_preset = True, sr_enabled = True \<rparr>"
    obtain db' i where i: "add_indexer ids (pp_tenant_id p) ?mk [(''regulator'', dget pr ''category'')] [] db = Inr db'"
      "ingestion_ok db'" "id_sources db' = id_sources db @ [?mk a]" "id_indexers db' = id_indexers db @ [i]"
      "ix_id i = d" "ix_source i = a" "ix_tenant i = pp_tenant_id p"
      unfolding ids
      by (rule add_indexer_ok [of db a b c d ?mk "pp_tenant_id p" "[(''regulator'', dget pr ''category'')]" "[]"])
        (use assms Nil ids in auto)
    have f: "one_or_none (preset_sources (pp_tenant_id p) key db) = Inr None"
      by (simp add: Nil one_or_none_def)
    show thesis
      by (rule created [OF i(2-4)])
        (use i in \<open>simp_all add: enable_preset_def Some f ids Let_def\<close>)
  qed
qed

lemma create_folder_ok:
  assumes "ingestion_ok db" and "fresh_ids ids db"
  shows "ingestion_ok (fst (fst (create_folder_source ok now ids name minutes p (db, al))))"
proof -
  obtain a b c d where ids: "ids = (a, b, c, d)" by (cases ids)
  let ?mk = "\<lambda>a. \<lparr> sr_id = a, sr_tenant = pp_tenant_id p, sr_name = name, sr_kind = ''folder'',
    sr_category = None, sr_config = [(''prefix'', JStr (folder_prefix a))], sr_license = ''byo'',
    sr_preset = False, sr_enabled = True \<rparr>"
  let ?sch = "case minutes of None \<Rightarrow> [] | Some m \<Rightarrow> if m = 0 then [] else [(''interval_minutes'', JInt m)]"
  obtain db' i where "add_indexer ids (pp_tenant_id p) ?mk [] ?sch db = Inr db'" "ingestion_ok db'"
    unfolding ids
    by (rule add_indexer_ok [of db a b c d ?mk "pp_tenant_id p" "[]" ?sch])
      (use assms ids in \<open>auto simp: dget_def dget_or_def\<close>)
  then show ?thesis by (simp add: create_folder_source_def Let_def ids)
qed

lemma filter_map_eq: "map f xs = map g ys \<Longrightarrow> map f (filter (P \<circ> f) xs) = map g (filter (P \<circ> g) ys)"
  by (simp add: filter_map [symmetric])

lemma sublist_ok:
  assumes "sources_ok db" and "profiles_ok db"
    and "id_sources db' = filter (\<lambda>s. P (sr_id s)) (id_sources db)"
    and "id_indexers db' = filter (\<lambda>i. P (ix_source i)) (id_indexers db)"
    and "id_skillsets db' = id_skillsets db" and "id_profiles db' = id_profiles db"
  shows "sources_ok db' \<and> profiles_ok db'"
proof -
  have one: "length (preset_sources tid key db') \<le> 1" for tid key
  proof -
    have "preset_sources tid key db' = filter (\<lambda>s. P (sr_id s)) (preset_sources tid key db)"
      by (auto simp: preset_sources_def assms(3) intro: filter_cong)
    then have "length (preset_sources tid key db') \<le> length (preset_sources tid key db)" by simp
    then show ?thesis using assms(1) by (meson le_trans sources_ok_def)
  qed
  have "map ix_source (id_indexers db') = map sr_id (id_sources db')"
    using filter_map_eq [of ix_source "id_indexers db" sr_id "id_sources db" P] assms(1)
    by (simp add: assms(3,4) sources_ok_def comp_def)
  then show ?thesis
    using assms(1,2) one unfolding sources_ok_def profiles_ok_def assms(3-6)
    by (simp add: distinct_map_filter)
qed

lemma delete_indexer_ok:
  assumes "ingestion_ok db"
  shows "ingestion_ok (fst (fst (delete_indexer ok now iid p (db, al))))"
proof (cases "own_indexer iid p db")
  case (Inl e)
  then show ?thesis using assms by (simp add: delete_indexer_def)
next
  case (Inr i)
  then have i: "i \<in> set (id_indexers db)" "ix_id i = iid" "ix_tenant i = pp_tenant_id p"
    by (auto simp: own_indexer_def find_Some_iff split: option.splits if_splits)
  let ?db' = "fst (fst (delete_indexer ok now iid p (db, al)))"
  have d: "distinct (map ix_id (id_indexers db))" "distinct (map ix_source (id_indexers db))"
    using assms by (auto simp: ingestion_ok_def sources_ok_def)
  have same: "ix_id x = iid \<longleftrightarrow> ix_source x = ix_source i" if "x \<in> set (id_indexers db)" for x
    using d i that by (metis distinct_map inj_onD)
  obtain s where s: "s \<in> set (id_sources db)" "sr_id s = ix_source i" "sr_tenant s = pp_tenant_id p"
  proof -
    have "set (map ix_source (id_indexers db)) = set (map sr_id (id_sources db))"
      using assms by (simp only: ingestion_ok_def sources_ok_def)
    then have "ix_source i \<in> sr_id ` set (id_sources db)" using i(1) by (simp add: set_eq_iff image_iff) metis
    then obtain s where "s \<in> set (id_sources db)" "sr_id s = ix_source i" by (metis imageE)
    then show thesis using that [of s] assms i(1,3) by (metis ingestion_ok_def sources_ok_def)
  qed
  have f: "filter (\<lambda>x. ix_id x \<noteq> iid) (id_indexers db) = filter (\<lambda>x. ix_source x \<noteq> ix_source i) (id_indexers db)"
    using same by (auto intro: filter_cong)
  have db': "id_sources ?db' = filter (\<lambda>s. sr_id s \<noteq> ix_source i) (id_sources db)"
    "id_indexers ?db' = filter (\<lambda>x. ix_source x \<noteq> ix_source i) (id_indexers db)"
    "id_runs ?db' = filter (\<lambda>r. rn_indexer r \<noteq> iid) (id_runs db)"
    "id_skillsets ?db' = id_skillsets db" "id_profiles ?db' = id_profiles db" "id_next_run ?db' = id_next_run db"
    using s i Inr
    by (auto simp: delete_indexer_def Let_def drop_indexers_def f list_ex_iff image_iff intro!: filter_cong)
  have "sources_ok ?db' \<and> profiles_ok ?db'"
    by (rule sublist_ok [of db _ "\<lambda>x. x \<noteq> ix_source i"]) (use assms db' in \<open>auto simp: ingestion_ok_def\<close>)
  moreover have "runs_ok ?db'"
    using assms unfolding ingestion_ok_def runs_ok_def db' f [symmetric]
    by (simp add: distinct_map_filter) metis
  ultimately show ?thesis by (simp add: ingestion_ok_def)
qed

lemma open_run_ok:
  assumes "ingestion_ok db" and "i \<in> set (id_indexers db)"
  shows "ingestion_ok (open_run (ix_id i) (ix_tenant i) started db)"
  using assms unfolding ingestion_ok_def sources_ok_def profiles_ok_def runs_ok_def preset_sources_def
  by (auto simp: open_run_def)

lemma run_status_done: "run_status err \<noteq> ''running''"
  by (simp add: run_status_def)

lemma close_run_ok:
  assumes "ingestion_ok db"
  shows "ingestion_ok (close_run rid iid finished t err db)"
proof -
  let ?db' = "close_run rid iid finished t err db"
  have f: "map ix_id (id_indexers ?db') = map ix_id (id_indexers db)"
    "map ix_source (id_indexers ?db') = map ix_source (id_indexers db)"
    "map rn_id (id_runs ?db') = map rn_id (id_runs db)"
    "id_sources ?db' = id_sources db" "id_skillsets ?db' = id_skillsets db" "id_profiles ?db' = id_profiles db"
    "id_next_run ?db' = id_next_run db"
    by (auto simp: close_run_def)
  have ix: "\<forall>i\<in>set (id_indexers ?db'). \<exists>j\<in>set (id_indexers db). ix_tenant i = ix_tenant j \<and>
    ix_source i = ix_source j \<and> ix_skillset i = ix_skillset j \<and> ix_profile i = ix_profile j"
    "\<forall>j\<in>set (id_indexers db). \<exists>i\<in>set (id_indexers ?db'). ix_tenant i = ix_tenant j \<and> ix_id i = ix_id j"
    by (auto simp: close_run_def simp del: if_image_distrib)
  have rn: "\<forall>r\<in>set (id_runs ?db'). \<exists>q\<in>set (id_runs db). rn_id r = rn_id q \<and> rn_indexer r = rn_indexer q \<and>
    rn_tenant r = rn_tenant q \<and> (r = q \<or> rn_status r \<noteq> ''running'' \<and> rn_finished r \<noteq> None)"
    by (auto simp: close_run_def run_status_done)
  have "sources_ok ?db'"
    using assms ix(1) unfolding ingestion_ok_def sources_ok_def preset_sources_def f by metis
  moreover have "profiles_ok ?db'"
    using assms ix(1) unfolding ingestion_ok_def profiles_ok_def f by metis
  moreover have "runs_ok ?db'"
    using assms ix(2) rn unfolding ingestion_ok_def runs_ok_def f by metis
  ultimately show ?thesis by (simp add: ingestion_ok_def)
qed

lemma reachable_ok: "ingestion_reachable db \<Longrightarrow> ingestion_ok db"
proof (induction rule: ingestion_reachable.induct)
  case empty
  then show ?case
    by (simp add: ingestion_ok_def sources_ok_def profiles_ok_def runs_ok_def preset_sources_def)
next
  case (enable db ids ok now key p al)
  show ?case
    by (rule enable_preset_cases [OF enable(3,2), of key ok now p al]) (use enable in auto)
next
  case (folder db ids ok now name minutes p al)
  then show ?case using create_folder_ok by simp
next
  case (delete db ok now iid p al)
  then show ?case using delete_indexer_ok by simp
next
  case (open_run db i started)
  then show ?case using open_run_ok by simp
next
  case (close_run db rid iid finished t err)
  then show ?case using close_run_ok by simp
qed

section \<open>Properties\<close>

text \<open>
  Every reference in the ingestion tables resolves inside its tenant: an indexer has its source, skillset
  and index profile, a run has its indexer, and a run is \<open>running\<close> exactly until it is finished.
\<close>

theorem ingestion_references:
  assumes "ingestion_reachable db"
  shows "(\<forall>i\<in>set (id_indexers db).
      (\<exists>s\<in>set (id_sources db). sr_id s = ix_source i \<and> sr_tenant s = ix_tenant i) \<and>
      (\<exists>k\<in>set (id_skillsets db). sk_id k = ix_skillset i \<and> sk_tenant k = ix_tenant i) \<and>
      (\<exists>k\<in>set (id_profiles db). ip_id k = ix_profile i \<and> ip_tenant k = ix_tenant i)) \<and>
    (\<forall>r\<in>set (id_runs db).
      (\<exists>i\<in>set (id_indexers db). ix_id i = rn_indexer r \<and> ix_tenant i = rn_tenant r) \<and>
      (rn_status r = ''running'') = (rn_finished r = None))"
proof -
  have ok: "sources_ok db" "profiles_ok db" "runs_ok db"
    using reachable_ok [OF assms] by (simp_all add: ingestion_ok_def)
  have "set (map ix_source (id_indexers db)) = set (map sr_id (id_sources db))"
    using ok(1) by (simp only: sources_ok_def)
  then have "\<exists>s\<in>set (id_sources db). sr_id s = ix_source i \<and> sr_tenant s = ix_tenant i"
    if "i \<in> set (id_indexers db)" for i
    using that ok(1) by (metis (no_types, lifting) image_iff image_set sources_ok_def)
  then show ?thesis using ok by (simp add: profiles_ok_def runs_ok_def)
qed

definition enabled_db :: ingestion_db where
  "enabled_db = fst (fst (enable_preset True 0 (''a'', ''b'', ''c'', ''d'') ''ico-guidance'' sample_principal
     (\<lparr> id_sources = [], id_indexers = [], id_runs = [], id_skillsets = [], id_profiles = [],
        id_next_run = 0 \<rparr>, [])))"

lemma enabled_db_reachable: "ingestion_reachable enabled_db"
  unfolding enabled_db_def
  by (rule ingestion_reachable.enable [OF ingestion_reachable.empty]) (simp add: fresh_ids_def)

text \<open>
  Enabling a shipped preset never fails: afterwards the tenant has exactly one source for it with exactly
  one indexer, the one answered, and enabling it again answers the same indexer and changes nothing.
\<close>

theorem preset_enabled_once:
  assumes "ingestion_reachable db" and "fresh_ids ids db"
    and "find_preset key regulator_presets = Some pr"
  shows "\<exists>db' al' iid already s i. enable_preset ok now ids key p (db, al) = ((db', al'), Inr (iid, already)) \<and>
    preset_sources (pp_tenant_id p) key db' = [s] \<and>
    filter (\<lambda>i. ix_source i = sr_id s) (id_indexers db') = [i] \<and> ix_id i = iid \<and>
    ix_tenant i = pp_tenant_id p \<and>
    enable_preset ok' now' ids' key p (db', al') = ((db', al'), Inr (iid, True))"
proof -
  have one: "preset_sources (pp_tenant_id p) key d = [s]"
    if "ingestion_ok d" "s \<in> set (preset_sources (pp_tenant_id p) key d)" for d s
  proof -
    have "length (preset_sources (pp_tenant_id p) key d) \<le> 1"
      using that(1) by (simp add: ingestion_ok_def sources_ok_def)
    then show ?thesis using that(2) by (cases "preset_sources (pp_tenant_id p) key d") auto
  qed
  note ok = reachable_ok [OF assms(1)]
  show ?thesis
  proof (rule enable_preset_cases [OF ok assms(2), of key ok now p al])
    assume "find_preset key regulator_presets = None"
    then show ?thesis using assms(3) by simp
  next
    fix s i
    assume s: "s \<in> set (preset_sources (pp_tenant_id p) key db)"
    show ?thesis
      by (rule enable_preset_existing [OF ok s]) (use assms(3) one [OF ok s] in auto)
  next
    fix db' i s al'
    assume c: "ingestion_ok db'" "id_sources db' = id_sources db @ [s]"
      "id_indexers db' = id_indexers db @ [i]" "ix_source i = sr_id s" "ix_tenant i = pp_tenant_id p"
      "sr_tenant s = pp_tenant_id p" "dget (sr_config s) ''preset_key'' = JStr key"
      "enable_preset ok now ids key p (db, al) = ((db', al'), Inr (ix_id i, False))"
    have s: "s \<in> set (preset_sources (pp_tenant_id p) key db')" using c by (simp add: preset_sources_mem)
    obtain j where j: "filter (\<lambda>i. ix_source i = sr_id s) (id_indexers db') = [j]"
      "\<And>ok now ids al. enable_preset ok now ids key p (db', al) = ((db', al), Inr (ix_id j, True))"
      by (rule enable_preset_existing [OF c(1) s]) (use assms(3) in auto)
    have "i = j" using j(1) c(3,4) by (auto simp: append_eq_Cons_conv)
    then show ?thesis using c j one [OF c(1) s] by auto
  qed
qed

theorem ingestion_references_witness:
  "\<exists>s k. s \<in> set (id_sources enabled_db) \<and> sr_id s = ''a'' \<and> k \<in> set (id_skillsets enabled_db) \<and> sk_id k = ''b''"
proof -
  have "filter (\<lambda>i. ix_id i = ''d'' \<and> ix_source i = ''a'' \<and> ix_skillset i = ''b'') (id_indexers enabled_db) \<noteq> []"
    by code_simp
  then obtain i where "i \<in> set (id_indexers enabled_db)" "ix_source i = ''a''" "ix_skillset i = ''b''"
    by (auto simp: filter_empty_conv)
  then show ?thesis using ingestion_references [OF enabled_db_reachable] by metis
qed

theorem preset_enabled_once_witness:
  "\<exists>db' al' iid already. enable_preset True 0 (''e'', ''f'', ''g'', ''h'') ''fca-handbook'' sample_principal (enabled_db, []) =
     ((db', al'), Inr (iid, already)) \<and>
     enable_preset True 1 (''e'', ''f'', ''g'', ''h'') ''fca-handbook'' sample_principal (db', al') = ((db', al'), Inr (iid, True))"
proof -
  have "find_preset ''fca-handbook'' regulator_presets \<noteq> None" by code_simp
  then obtain pr where "find_preset ''fca-handbook'' regulator_presets = Some pr" by auto
  moreover have "fresh_ids (''e'', ''f'', ''g'', ''h'') enabled_db" by code_simp
  ultimately show ?thesis
    using preset_enabled_once [OF enabled_db_reachable, of "(''e'', ''f'', ''g'', ''h'')" "''fca-handbook''" _ True 0
      sample_principal "[]" True 1 "(''e'', ''f'', ''g'', ''h'')"] by metis
qed

end
