(* ===== verification/FolderSources.thy ===== *)
theory FolderSources
  imports Workers
begin

text \<open>
  From an upload to the run of its indexer: the keys that uploads write, and what the storage connector
  lists under the prefix of a source.
\<close>

section \<open>Keys\<close>

lemma storage_key_shape:
  obtains n where "storage_key_for sid f = folder_prefix sid @ n" "n \<noteq> []" "CHR ''/'' \<notin> set n"
proof -
  let ?m = "rsplit_last (CHR ''/'') (map (\<lambda>c. if c = CHR 0x5C then CHR ''/'' else c) f)"
  have "CHR ''/'' \<notin> set (strip ?m)" using rsplit_last_no_sep set_strip by (metis subsetD)
  then show thesis
    using that [of "if strip ?m = [] then ''file'' else strip ?m"]
    by (auto simp: storage_key_for_def Let_def split: if_splits)
qed

lemma append_sep_inject:
  "c \<notin> set xs \<Longrightarrow> c \<notin> set ys \<Longrightarrow> xs @ c # as = ys @ c # bs \<Longrightarrow> xs = ys"
  by (induction xs arbitrary: ys) (case_tac ys; auto)+

lemma foreign_prefix:
  assumes "CHR ''/'' \<notin> set sid" and "CHR ''/'' \<notin> set sid'" and "sid' \<noteq> sid"
  shows "\<not> startswith (folder_prefix sid') (storage_key_for sid f)"
proof
  assume "startswith (folder_prefix sid') (storage_key_for sid f)"
  then obtain t where "storage_key_for sid f = folder_prefix sid' @ t" by (auto simp: startswith_iff)
  moreover obtain n where "storage_key_for sid f = folder_prefix sid @ n" by (rule storage_key_shape)
  ultimately have "sid @ CHR ''/'' # n = sid' @ CHR ''/'' # t" by (simp add: folder_prefix_def)
  then have "sid = sid'" using append_sep_inject assms(1,2) by metis
  then show False using assms(3) by simp
qed

section \<open>Uploads\<close>

lemma upload_loop_keys:
  assumes "upload_loop put sid files objs stored = (objs', r)" and "objs' k \<noteq> objs k"
  shows "\<exists>f. k = storage_key_for sid f"
  using assms
  by (induction put sid files objs stored rule: upload_loop.induct)
    (auto simp: Let_def fun_upd_apply split: if_splits option.splits simp del: fun_upd_apply, metis fun_upd_other)

lemma upload_loop_keeps:
  "upload_loop put sid files objs stored = (objs', Inr st) \<Longrightarrow> k \<in> dom objs \<Longrightarrow> k \<in> dom objs'"
  by (induction put sid files objs stored rule: upload_loop.induct)
    (auto simp: Let_def split: if_splits option.splits)

lemma upload_loop_stores:
  assumes "upload_loop put sid files objs stored = (objs', Inr st)"
    and "(name, ct, data) \<in> set files" and "data \<noteq> []"
  shows "storage_key_for sid (or_str name ''file'') \<in> dom objs'"
  using assms
proof (induction put sid files objs stored rule: upload_loop.induct)
  case (2 put sid n c d fs objs stored)
  show ?case
  proof (cases "(n, c, d) = (name, ct, data)")
    case True
    then show ?thesis
      using "2.prems"(1) assms(3) upload_loop_keeps [of put sid fs _ _ objs' st "storage_key_for sid (or_str name ''file'')"]
      by (auto simp: Let_def split: option.splits)
  next
    case False
    then have "(name, ct, data) \<in> set fs" using "2.prems"(2) by auto
    then show ?thesis using "2.prems"(1) assms(3) "2.IH" by (auto simp: Let_def split: if_splits option.splits simp del: fun_upd_apply)
  qed
qed simp

lemma upload_cases:
  assumes "upload_to_source ok now put sid files p db (objs, al) = ((objs', al'), r)"
  obtains (refused) "objs' = objs" "r = Inl (HTTPError 404 ''folder source not found'')"
  | (tried) s q where "s \<in> set (id_sources db)" "sr_id s = sid" "sr_tenant s = pp_tenant_id p"
      "sr_kind s = ''folder''" "upload_loop put sid files objs [] = (objs', q)" "r = q"
proof (cases "find (\<lambda>s. sr_id s = sid) (id_sources db)")
  case None
  then show thesis using assms refused by (simp add: upload_to_source_def)
next
  case (Some s)
  then have s: "s \<in> set (id_sources db)" "sr_id s = sid" by (auto simp: find_Some_iff)
  show thesis
  proof (cases "sr_tenant s \<noteq> pp_tenant_id p \<or> sr_kind s \<noteq> ''folder''")
    case True
    then show thesis using assms refused Some by (auto simp: upload_to_source_def)
  next
    case False
    obtain q objs'' where q: "upload_loop put sid files objs [] = (objs'', q)" by (cases "upload_loop put sid files objs []")
    then have "objs'' = objs'" "r = q" using assms Some False by (auto simp: upload_to_source_def split: sum.splits)
    then show thesis using tried s False q by auto
  qed
qed

section \<open>The listing\<close>

definition document_of_key :: "(string \<Rightarrow> string option) \<Rightarrow> string \<Rightarrow> string \<times> string \<Rightarrow> source_document" where
  "document_of_key guess bucket o' =
     \<lparr> sd_uri = ''s3://'' @ bucket @ ''/'' @ fst o', sd_data = snd o',
       sd_filename = Some (rsplit_last (CHR ''/'') (fst o')),
       sd_content_type = Some (detect_content_type guess (Some (fst o'))), sd_title = None,
       sd_metadata = [(''size_bytes'', JInt (int (length (snd o'))))] \<rparr>"

lemma s3_documents_filter:
  "s3_documents guess bucket pre objs =
     map (document_of_key guess bucket)
       (filter (\<lambda>x. startswith pre (fst x) \<and> fst x \<noteq> [] \<and> \<not> endswith ''/'' (fst x)) objs)"
  by (induction guess bucket pre objs rule: s3_documents.induct) (auto simp: document_of_key_def)

lemma storage_key_listed:
  "startswith (folder_prefix sid) (storage_key_for sid f) \<and> storage_key_for sid f \<noteq> [] \<and>
   \<not> endswith ''/'' (storage_key_for sid f)"
proof -
  obtain n where n: "storage_key_for sid f = folder_prefix sid @ n" "n \<noteq> []" "CHR ''/'' \<notin> set n"
    by (rule storage_key_shape)
  then have "\<not> endswith ''/'' (storage_key_for sid f)"
    by (cases n rule: rev_cases) (auto simp: endswith_def startswith_def)
  then show ?thesis using n(1) by (auto simp: startswith_iff folder_prefix_def)
qed

section \<open>Properties\<close>

text \<open>
  An upload writes only below the prefix of its source: whatever file names the client sends, no object
  that another source lists is created or changed, even when the upload fails half way.
\<close>

theorem upload_confined:
  assumes "upload_to_source ok now put sid files p db (objs, al) = ((objs', al'), r)"
    and "CHR ''/'' \<notin> set sid" and "CHR ''/'' \<notin> set sid'" and "sid' \<noteq> sid"
    and "startswith (folder_prefix sid') key"
  shows "objs' key = objs key"
  using assms(1)
proof (cases rule: upload_cases)
  case (tried s q)
  then show ?thesis using upload_loop_keys [of put sid files objs "[]" objs' q key] assms foreign_prefix by metis
qed simp

text \<open>
  Every file of a successful upload that is not empty is a document of the next run over the source, with
  the contents the storage then holds under its key.
\<close>

theorem upload_indexed:
  assumes "upload_to_source ok now put sid files p db (objs, al) = ((objs', al'), Inr stored)"
    and "(name, ct, data) \<in> set files" and "data \<noteq> []"
    and "set listing = {(k, d). \<exists>c. objs' k = Some (d, c)}"
  shows "\<exists>d c. objs' (storage_key_for sid (or_str name ''file'')) = Some (d, c) \<and>
    document_of_key guess bucket (storage_key_for sid (or_str name ''file''), d)
      \<in> set (s3_documents guess bucket (folder_prefix sid) listing)"
  using assms(1)
proof (cases rule: upload_cases)
  case (tried s q)
  let ?k = "storage_key_for sid (or_str name ''file'')"
  have "?k \<in> dom objs'" using upload_loop_stores [of put sid files objs "[]" objs' stored] tried assms(2,3) by auto
  then obtain d c where "objs' ?k = Some (d, c)" by auto
  moreover from this have "(?k, d) \<in> set listing" using assms(4) by auto
  ultimately show ?thesis using storage_key_listed [of sid "or_str name ''file''"]
    by (auto simp: s3_documents_filter)
qed simp

definition folder_db :: ingestion_db where
  "folder_db = fst (fst (create_folder_source True 0 (''s1'', ''b'', ''c'', ''d'') ''Policies'' None sample_principal
     (\<lparr> id_sources = [], id_indexers = [], id_runs = [], id_skillsets = [], id_profiles = [],
        id_next_run = 0 \<rparr>, [])))"

definition sample_upload :: "((string \<rightharpoonup> string \<times> string option) \<times> audit_log) \<times> (exn + string list)" where
  "sample_upload = upload_to_source True 0 (\<lambda>_ _. None) ''s1'' [(Some ''../s2/a.md'', None, ''x'')] sample_principal
     folder_db (Map.empty, [])"

lemma sample_upload_eq:
  "sample_upload = (([''datasources/s1/a.md'' \<mapsto> (''x'', None)], snd (fst sample_upload)), Inr [''../s2/a.md''])"
proof -
  have k: "storage_key_for ''s1'' ''../s2/a.md'' = ''datasources/s1/a.md''" by code_simp
  have "find (\<lambda>s. sr_id s = ''s1'') (id_sources folder_db) \<noteq> None \<and>
     sr_tenant (the (find (\<lambda>s. sr_id s = ''s1'') (id_sources folder_db))) = pp_tenant_id sample_principal \<and>
     sr_kind (the (find (\<lambda>s. sr_id s = ''s1'') (id_sources folder_db))) = ''folder''" by code_simp
  then show ?thesis by (auto simp: sample_upload_def upload_to_source_def k or_str_def Let_def)
qed

lemma sample_upload_run:
  "upload_to_source True 0 (\<lambda>_ _. None) ''s1'' [(Some ''../s2/a.md'', None, ''x'')] sample_principal
     folder_db (Map.empty, []) = ((fst (fst sample_upload), snd (fst sample_upload)), snd sample_upload)"
  by (simp add: sample_upload_def)

theorem upload_confined_witness:
  "snd sample_upload = Inr [''../s2/a.md''] \<and> fst (fst sample_upload) ''datasources/s2/a.md'' = None"
proof -
  have "startswith (folder_prefix ''s2'') ''datasources/s2/a.md''" by code_simp
  then have "fst (fst sample_upload) ''datasources/s2/a.md'' = Map.empty ''datasources/s2/a.md''"
    by - (rule upload_confined [OF sample_upload_run, of "''s2''"], auto)
  then show ?thesis using sample_upload_eq by (metis snd_conv)
qed

theorem upload_indexed_witness:
  "\<exists>d. document_of_key (\<lambda>_. None) ''b'' (''datasources/s1/a.md'', d) \<in>
     set (s3_documents (\<lambda>_. None) ''b'' (folder_prefix ''s1'') [(''datasources/s1/a.md'', ''x'')])"
proof -
  have k: "storage_key_for ''s1'' ''../s2/a.md'' = ''datasources/s1/a.md''" by code_simp
  have l: "set [(''datasources/s1/a.md'', ''x'')] =
    {(k, d). \<exists>c. [''datasources/s1/a.md'' \<mapsto> (''x'', None)] k = Some (d, c)}"
    by (auto split: if_splits)
  show ?thesis
    using upload_indexed [OF sample_upload_eq [unfolded sample_upload_def] _ _ l, of "Some ''../s2/a.md''" None "''x''" "\<lambda>_. None" "''b''"] k
    by (auto simp: or_str_def simp del: s3_documents.simps)
qed

end
