(* ===== verification/AskService.thy ===== *)
theory AskService
  imports SearchService GatewayGovernance Prompts Accounts PyValues
begin

text \<open>
  Retrieval-augmented answers: the prompt and its numbered context (\<open>askai/prompts/rag.py\<close>), the
  citations read back from an answer (\<open>askai/citations.py\<close>), the session memory (\<open>askai/memory.py\<close>), the
  service that composes them with the search and the gateway (\<open>askai/service.py\<close>, \<open>askai/chains/rag.py\<close>),
  and the routes \<open>/v1/ask\<close>, \<open>/v1/sessions\<close> and \<open>/v1/feedback\<close>.

  The characters of the source outside Latin-1 have stand-ins: the ellipsis is the code point 0x85,
  the long dash a hyphen.
\<close>

section \<open>The prompt\<close>

definition RAG_SYSTEM_PROMPT :: string where
  "RAG_SYSTEM_PROMPT = concat (map (\<lambda>l. l @ nl) [
    ''You are AskAi, a knowledge assistant for UK financial regulation'',
    ''(Bank of England, PRA, FCA) and similar regulatory corpora. Your users'',
    ''are fintech compliance leads - they need authoritative, structured,'',
    ''defensible answers they can paste into an internal memo or audit pack.'',
    [],
    ''RULES:'',
    ''1. Answer ONLY using the numbered context blocks below. If the answer'',
    ''   is not in the context, say so clearly - do not invent.'',
    ''2. Cite every factual claim with the bracketed source number, e.g.'',
    ''   \"Firms must hold CET1 capital [2].\" Multiple citations are fine: [1][3].'',
    ''3. Be substantive. Default to a structured answer:'',
    ''     - A 1-2 sentence direct answer at the top.'',
    ''     - Bullet points for the key obligations / sub-rules.'',
    ''     - Where relevant, a \"Key references\" line citing the chapters or'',
    ''       sections the user can read in full.'',
    ''   Be concise where the question is narrow; be thorough where the'',
    ''   question is open (\"explain X\", \"what does X cover\") - fintech'',
    ''   compliance leads expect at least a paragraph plus structure.'',
    ''4. If the user asks a vague or short question (e.g. \"are you sure\",'',
    ''   \"tell me more\"), interpret it in the context of the preceding'',
    ''   conversation and answer the implied question.'',
    ''5. If the context contains conflicting statements (e.g. older superseded'',
    ''   guidance vs newer), prefer the newer / active source and note the'',
    ''   discrepancy.'',
    ''6. Never hedge with phrases like \"as an AI\". Just answer or refuse.''])"

definition REFUSAL_NO_CONTEXT :: string where
  "REFUSAL_NO_CONTEXT =
     ''I don'' @ [CHR 0x27] @ ''t have any indexed material that answers this. Try a different '' @
     ''phrasing, or ingest the relevant document into AskAi first.''"

definition flat_text :: "string \<Rightarrow> string" where
  "flat_text s = replace_char (CHR 0x0A) '' '' (strip s)"

text \<open>The separator is a middle dot between blanks.\<close>

definition location :: "hit \<Rightarrow> string" where
  "location h = join [CHR '' '', CHR 0xB7, CHR '' ''] ([h_title h] @
     (case h_page h of None \<Rightarrow> [] | Some n \<Rightarrow> [''page '' @ int_str n]) @
     (case h_section h of None \<Rightarrow> [] | Some s \<Rightarrow> if s = [] then [] else [s]))"

definition context_part :: "nat \<Rightarrow> hit \<Rightarrow> string" where
  "context_part i h = ''['' @ nat_str i @ ''] '' @ location h @ nl @ flat_text (h_content h)"

definition format_context :: "hit list \<Rightarrow> string" where
  "format_context hits = join nl2 (map (\<lambda>(i, h). context_part i h) (zip [1..<Suc (length hits)] hits))"

definition build_rag_messages ::
  "string \<Rightarrow> hit list \<Rightarrow> llm_message list \<Rightarrow> string option \<Rightarrow> llm_message list" where
  "build_rag_messages q hits history prompt =
     \<lparr> msg_role = ''system'', msg_content = (if str_true prompt then the prompt else RAG_SYSTEM_PROMPT) \<rparr>
     # history @
     [\<lparr> msg_role = ''user'', msg_content =
        (if hits = []
         then ''Question: '' @ q @ nl2 @ ''Context: (none - no documents matched this query)''
         else ''Question: '' @ q @ nl2 @ ''Context:'' @ nl @ format_context hits @ nl2 @
           ''Answer using only the context above. Cite sources by number.'') \<rparr>]"

section \<open>Citations\<close>

record citation =
  ci_chunk_id :: uuid
  ci_document_id :: uuid
  ci_title :: string
  ci_page :: "int option"
  ci_section :: "string option"
  ci_snippet :: string

text \<open>The digits of the matches of \<open>\[(\d+)\]\<close>, from left to right.\<close>

function markers :: "string \<Rightarrow> string list" where
  "markers [] = []"
| "markers (c # s) =
     (let ds = takeWhile is_digit s; r = dropWhile is_digit s in
       if c = CHR ''['' \<and> ds \<noteq> [] \<and> startswith '']'' r then ds # markers (drop 1 r) else markers s)"
  by pat_completeness auto
termination
  by (relation "measure length") (auto simp: le_imp_less_Suc le_diff_conv length_dropWhile_le le_SucI)

text \<open>\<open>int\<close> of a row of digits; more than 4300 of them are refused.\<close>

definition marker_number :: "string \<Rightarrow> exn + nat" where
  "marker_number ds =
     (if length ds > 4300 then Inl (PyExc ValueError) else Inr (foldl (\<lambda>n d. 10 * n + digit_val d) 0 ds))"

definition snippet_of :: "nat \<Rightarrow> string \<Rightarrow> string" where
  "snippet_of k content =
     (let s = flat_text content in
       if length s > k then rsplit_head (CHR '' '') (take k s) @ [CHR 0x85] else s)"

definition citation_of :: "nat \<Rightarrow> hit \<Rightarrow> citation" where
  "citation_of k h =
     \<lparr> ci_chunk_id = h_chunk_id h, ci_document_id = h_document_id h, ci_title = h_title h,
       ci_page = h_page h, ci_section = h_section h, ci_snippet = snippet_of k (h_content h) \<rparr>"

fun citation_loop :: "nat \<Rightarrow> hit list \<Rightarrow> nat list \<Rightarrow> string list \<Rightarrow> exn + citation list" where
  "citation_loop k hits seen [] = Inr []"
| "citation_loop k hits seen (ds # rest) =
     try_bind (marker_number ds) (\<lambda>i.
       if i \<in> set seen \<or> \<not> (1 \<le> i \<and> i \<le> length hits) then citation_loop k hits seen rest
       else try_bind (citation_loop k hits (i # seen) rest) (\<lambda>cs. Inr (citation_of k (hits ! (i - 1)) # cs)))"

definition extract_citations :: "string \<Rightarrow> hit list \<Rightarrow> nat \<Rightarrow> exn + citation list" where
  "extract_citations answer hits k = citation_loop k hits [] (markers answer)"

section \<open>Session memory\<close>

record turn =
  tu_role :: string
  tu_content :: string
  tu_ts :: int
  tu_citations :: "citation list option"

record chat_session =
  cs_id :: uuid
  cs_tenant :: uuid
  cs_user :: string
  cs_title :: string
  cs_history :: "turn list"
  cs_updated :: int

definition MAX_TURNS :: nat where
  "MAX_TURNS = 20"

definition session_at :: "uuid \<Rightarrow> uuid \<Rightarrow> chat_session list \<Rightarrow> chat_session option" where
  "session_at tid sid ss = find (\<lambda>s. cs_id s = sid \<and> cs_tenant s = tid) ss"

text \<open>The id is a fresh one when none is given.\<close>

definition memory_load ::
  "uuid \<Rightarrow> uuid \<Rightarrow> uuid option \<Rightarrow> chat_session list \<Rightarrow> uuid \<times> llm_message list" where
  "memory_load fresh tid sid ss =
     (case sid of
        None \<Rightarrow> (fresh, [])
      | Some s \<Rightarrow>
          (case session_at tid s ss of
             None \<Rightarrow> (s, [])
           | Some r \<Rightarrow> (cs_id r, map (\<lambda>m. \<lparr> msg_role = tu_role m, msg_content = tu_content m \<rparr>) (cs_history r))))"

text \<open>A new row whose id another tenant has taken violates the primary key.\<close>

definition memory_append ::
  "nat \<Rightarrow> int \<Rightarrow> uuid \<Rightarrow> uuid \<Rightarrow> string \<Rightarrow> string \<Rightarrow> string \<Rightarrow> citation list \<Rightarrow> chat_session list \<Rightarrow>
   exn + chat_session list" where
  "memory_append max_turns now tid sid uid question answer cites ss =
     (let add = (\<lambda>old. slice_last (max_turns * 2) (old @
            [\<lparr> tu_role = ''user'', tu_content = question, tu_ts = now, tu_citations = None \<rparr>,
             \<lparr> tu_role = ''assistant'', tu_content = answer, tu_ts = now, tu_citations = Some cites \<rparr>]))
      in case session_at tid sid ss of
           Some r \<Rightarrow>
             Inr (map (\<lambda>s. if cs_id s = sid \<and> cs_tenant s = tid
               then s\<lparr> cs_history := add (cs_history s), cs_updated := now \<rparr> else s) ss)
         | None \<Rightarrow>
             if sid \<in> cs_id ` set ss then Inl (OtherExc ''IntegrityError'')
             else Inr (ss @ [\<lparr> cs_id = sid, cs_tenant = tid, cs_user = uid, cs_title = take 200 question,
               cs_history = add [], cs_updated = now \<rparr>]))"

section \<open>The service\<close>

record 'v ask_env =
  ae_search :: "'v search_env"
  ae_gw :: gw_env
  ae_defaults :: prompt_defaults
  ae_prompts :: "prompt_table option"
  ae_retrieve_k :: nat
  ae_temperature :: json
  ae_max_tokens :: "int option"
  ae_fresh :: uuid
  ae_now :: int
  ae_total_ms :: rat

record ask_state =
  as_gw :: gw_state
  as_sessions :: "chat_session list"
  as_audit :: audit_log

record ask_outcome =
  ao_answer :: string
  ao_citations :: "citation list"
  ao_session :: uuid
  ao_confidence :: rat
  ao_retrieval_ms :: rat
  ao_total_ms :: rat
  ao_chunks_used :: nat

text \<open>Any failure of the registry falls back to the built-in prompt.\<close>

definition system_prompt :: "'v ask_env \<Rightarrow> string option" where
  "system_prompt E =
     (case ae_prompts E of
        None \<Rightarrow> None
      | Some tab \<Rightarrow>
          (case prompt_get (ae_defaults E) tab ''rag.system'' None of
             Inl e \<Rightarrow> None
           | Inr r \<Rightarrow> Some (pc_template r)))"

definition ask_options :: "nat \<Rightarrow> search_filters option \<Rightarrow> bool \<Rightarrow> search_options" where
  "ask_options k filters rr =
     \<lparr> sp_k = k, sp_filters = (case filters of None \<Rightarrow> no_filters | Some f \<Rightarrow> f), sp_public = True,
       sp_rerank = rr, sp_feedback = True \<rparr>"

definition do_retrieval ::
  "'v ask_env \<Rightarrow> uuid \<Rightarrow> string \<Rightarrow> search_filters option \<Rightarrow> bool \<Rightarrow> exn + search_outcome" where
  "do_retrieval E tid q filters rr = search (ae_search E) tid q (ask_options (ae_retrieve_k E) filters rr)"

definition ask_request :: "'v ask_env \<Rightarrow> uuid \<Rightarrow> string \<Rightarrow> string option \<Rightarrow> gw_request" where
  "ask_request E tid uid rid =
     \<lparr> gq_ctx = \<lparr> ctx_tenant_id = tid, ctx_tenant_slug = [], ctx_user_id = Some uid, ctx_plan = None,
         ctx_purpose = ''chat'', ctx_request_id = rid \<rparr>,
       gq_temperature = ae_temperature E, gq_max_tokens = ae_max_tokens E \<rparr>"

definition answer_text ::
  "'v ask_env \<Rightarrow> gw_request \<Rightarrow> string \<Rightarrow> hit list \<Rightarrow> llm_message list \<Rightarrow> gw_state \<Rightarrow> gw_state \<times> (exn + string)"
where
  "answer_text E rq q hits history g =
     (if hits = [] then (g, Inr REFUSAL_NO_CONTEXT)
      else case complete (ae_gw E) rq (build_rag_messages q hits history (system_prompt E)) g of
        (g', r) \<Rightarrow> (g', try_bind r (\<lambda>x. Inr (gr_text x))))"

definition ask ::
  "'v ask_env \<Rightarrow> uuid \<Rightarrow> string \<Rightarrow> string \<Rightarrow> uuid option \<Rightarrow> search_filters option \<Rightarrow> bool \<Rightarrow> string option \<Rightarrow>
   ask_state \<Rightarrow> ask_state \<times> (exn + ask_outcome)"
where
  "ask E tid uid q sid filters rr rid st =
     (case memory_load (ae_fresh E) tid sid (as_sessions st) of (s, history) \<Rightarrow>
       (case do_retrieval E tid q filters rr of
          Inl e \<Rightarrow> (st, Inl e)
        | Inr out \<Rightarrow>
            (case answer_text E (ask_request E tid uid rid) q (so_hits out) history (as_gw st) of
               (g, Inl e) \<Rightarrow> (st\<lparr> as_gw := g \<rparr>, Inl e)
             | (g, Inr text) \<Rightarrow>
                 (case try_bind (extract_citations text (so_hits out) 220) (\<lambda>cs.
                     try_bind (memory_append MAX_TURNS (ae_now E) tid s uid q text cs (as_sessions st)) (\<lambda>ss.
                       Inr (cs, ss))) of
                    Inl e \<Rightarrow> (st\<lparr> as_gw := g \<rparr>, Inl e)
                  | Inr (cs, ss) \<Rightarrow>
                      (st\<lparr> as_gw := g, as_sessions := ss \<rparr>,
                       Inr \<lparr> ao_answer = text, ao_citations = cs, ao_session = s,
                         ao_confidence = so_confidence out, ao_retrieval_ms = so_latency_ms out,
                         ao_total_ms = py_round (ae_total_ms E) 2, ao_chunks_used = length (so_hits out) \<rparr>)))))"

text \<open>The events of a stream that is read to its end, and the exception it ends with, if any.\<close>

datatype ask_event =
    Retrieve rat nat
  | Token string
  | Done uuid "citation list" "string option"

definition stream_ask ::
  "'v ask_env \<Rightarrow> uuid \<Rightarrow> string \<Rightarrow> string \<Rightarrow> uuid option \<Rightarrow> search_filters option \<Rightarrow> bool \<Rightarrow> string option \<Rightarrow>
   ask_state \<Rightarrow> ask_state \<times> ask_event list \<times> exn option"
where
  "stream_ask E tid uid q sid filters rr rid st =
     (case memory_load (ae_fresh E) tid sid (as_sessions st) of (s, history) \<Rightarrow>
       (case do_retrieval E tid q filters rr of
          Inl e \<Rightarrow> (st, [], Some e)
        | Inr out \<Rightarrow>
            let start = Retrieve (so_confidence out) (length (so_hits out)) in
            (case (if so_hits out = [] then (as_gw st, [REFUSAL_NO_CONTEXT], None)
                   else stream (ae_gw E) (ask_request E tid uid rid)
                     (build_rag_messages q (so_hits out) history (system_prompt E)) (as_gw st)) of
               (g, toks, Some e) \<Rightarrow> (st\<lparr> as_gw := g \<rparr>, start # map Token toks, Some e)
             | (g, toks, None) \<Rightarrow>
                 (case try_bind (extract_citations (concat toks) (so_hits out) 220) (\<lambda>cs.
                     try_bind (memory_append MAX_TURNS (ae_now E) tid s uid q (concat toks) cs (as_sessions st)) (\<lambda>ss.
                       Inr (cs, ss))) of
                    Inl e \<Rightarrow> (st\<lparr> as_gw := g \<rparr>, start # map Token toks, Some e)
                  | Inr (cs, ss) \<Rightarrow>
                      (st\<lparr> as_gw := g, as_sessions := ss \<rparr>, start # map Token toks @ [Done s cs rid], None)))))"

text \<open>\<open>RagChain\<close>, the same turn over an adapter that the caller gives.\<close>

definition rag_answer ::
  "(llm_message list \<Rightarrow> 's \<Rightarrow> 's \<times> (exn + string)) \<Rightarrow> string \<Rightarrow> hit list \<Rightarrow> llm_message list \<Rightarrow> 's \<Rightarrow>
   's \<times> (exn + (string \<times> hit list))" where
  "rag_answer llm q hits history s =
     (if hits = [] then (s, Inr (REFUSAL_NO_CONTEXT, []))
      else case llm (build_rag_messages q hits history None) s of
        (s', r) \<Rightarrow> (s', try_bind r (\<lambda>t. Inr (t, hits))))"

definition rag_stream_answer ::
  "(llm_message list \<Rightarrow> 's \<Rightarrow> 's \<times> string list \<times> exn option) \<Rightarrow> string \<Rightarrow> hit list \<Rightarrow> llm_message list \<Rightarrow> 's \<Rightarrow>
   's \<times> string list \<times> exn option" where
  "rag_stream_answer llm q hits history s =
     (if hits = [] then (s, [REFUSAL_NO_CONTEXT], None)
      else llm (build_rag_messages q hits history None) s)"

section \<open>Lemmas\<close>

lemma takeWhile_digits: "\<forall>c\<in>set ds. is_digit c \<Longrightarrow> takeWhile is_digit (ds @ CHR '']'' # v) = ds \<and>
    dropWhile is_digit (ds @ CHR '']'' # v) = CHR '']'' # v"
  by (induction ds) (auto simp: is_digit_def code_def)

lemma markers_sound:
  "ds \<in> set (markers s) \<Longrightarrow> \<exists>u v. s = u @ CHR ''['' # ds @ CHR '']'' # v \<and> ds \<noteq> [] \<and> (\<forall>c\<in>set ds. is_digit c)"
proof (induction s rule: markers.induct)
  case (2 c s)
  let ?ds = "takeWhile is_digit s" and ?r = "dropWhile is_digit s"
  show ?case
  proof (cases "c = CHR ''['' \<and> ?ds \<noteq> [] \<and> startswith '']'' ?r")
    case True
    then obtain t where t: "?r = CHR '']'' # t" by (auto simp: startswith_iff)
    have s: "s = ?ds @ CHR '']'' # t" using takeWhile_dropWhile_id [of is_digit s] t by simp
    show ?thesis
    proof (cases "ds = ?ds")
      case eq: True
      have "c # s = [] @ CHR ''['' # ds @ CHR '']'' # t" using True s eq by simp
      then show ?thesis using True eq set_takeWhileD [of _ is_digit s] by blast
    next
      case False
      then have "ds \<in> set (markers t)" using 2(3) True t by (simp add: Let_def)
      then obtain u v where "t = u @ CHR ''['' # ds @ CHR '']'' # v" "ds \<noteq> []" "\<forall>c\<in>set ds. is_digit c"
        using 2(1) [OF refl refl True] t by auto
      then have "c # s = (c # ?ds @ CHR '']'' # u) @ CHR ''['' # ds @ CHR '']'' # v" using s by simp
      then show ?thesis using \<open>ds \<noteq> []\<close> \<open>\<forall>c\<in>set ds. is_digit c\<close> by blast
    qed
  next
    case False
    then have m: "markers (c # s) = markers s" by (auto simp: Let_def)
    then obtain u v where "s = u @ CHR ''['' # ds @ CHR '']'' # v" "ds \<noteq> []" "\<forall>c\<in>set ds. is_digit c"
      using 2(2) [OF refl refl False] 2(3) by auto
    then show ?thesis by (metis append_Cons)
  qed
qed simp

lemma skip_to: "D @ x # t = w @ y # z \<Longrightarrow> y \<notin> set D \<Longrightarrow> y \<noteq> x \<Longrightarrow> \<exists>w'. t = w' @ y # z"
proof (induction D arbitrary: w)
  case Nil
  then show ?case by (cases w) auto
next
  case (Cons a D)
  then show ?case by (cases w) auto
qed

lemma markers_complete:
  "s = u @ CHR ''['' # ds @ CHR '']'' # v \<Longrightarrow> ds \<noteq> [] \<Longrightarrow> \<forall>c\<in>set ds. is_digit c \<Longrightarrow> ds \<in> set (markers s)"
proof (induction s arbitrary: u rule: markers.induct)
  case (2 c s)
  let ?ds = "takeWhile is_digit s" and ?r = "dropWhile is_digit s"
  show ?case
  proof (cases u)
    case Nil
    then show ?thesis using 2(3-5) takeWhile_digits [of ds v] by (auto simp: Let_def startswith_iff)
  next
    case (Cons a w)
    then have s: "s = w @ CHR ''['' # ds @ CHR '']'' # v" using 2(3) by simp
    show ?thesis
    proof (cases "c = CHR ''['' \<and> ?ds \<noteq> [] \<and> startswith '']'' ?r")
      case True
      then obtain t where t: "?r = CHR '']'' # t" by (auto simp: startswith_iff)
      have "s = ?ds @ CHR '']'' # t" using takeWhile_dropWhile_id [of is_digit s] t by simp
      moreover have "CHR ''['' \<notin> set ?ds" using set_takeWhileD [of "CHR ''[''" is_digit s] by (auto simp: is_digit_def code_def)
      ultimately obtain w' where "t = w' @ CHR ''['' # ds @ CHR '']'' # v"
        using s skip_to [of ?ds "CHR '']''" t w "CHR ''[''" "ds @ CHR '']'' # v"] by auto
      then show ?thesis using 2(1) [OF refl refl True] 2(4,5) t True by (auto simp: Let_def)
    next
      case False
      then show ?thesis using 2(2) [OF refl refl False s] 2(4,5) by (auto simp: Let_def)
    qed
  qed
qed simp

lemma remdups_snoc: "remdups (xs @ [x]) = remdups (filter (\<lambda>y. y \<noteq> x) xs) @ [x]"
  by (induction xs) auto

text \<open>The loop keeps the first mention of every number in range.\<close>

definition first_mentions :: "nat list \<Rightarrow> nat list" where
  "first_mentions ns = rev (remdups (rev ns))"

lemma first_mentions_Cons: "first_mentions (n # ns) = n # first_mentions (filter (\<lambda>i. i \<noteq> n) ns)"
  by (simp add: first_mentions_def remdups_snoc rev_filter)

lemma first_mentions_simps [simp]:
  "first_mentions [] = []" "set (first_mentions ns) = set ns" "distinct (first_mentions ns)"
  by (simp_all add: first_mentions_def)

lemma citation_loop_spec:
  "citation_loop k hits seen ms = try_bind (try_map marker_number ms) (\<lambda>ns.
     Inr (map (\<lambda>i. citation_of k (hits ! (i - 1)))
       (first_mentions (filter (\<lambda>i. 1 \<le> i \<and> i \<le> length hits \<and> i \<notin> set seen) ns))))"
proof (induction k hits seen ms rule: citation_loop.induct)
  case (2 k hits seen ds rest)
  show ?case
  proof (cases "marker_number ds")
    case (Inr i)
    show ?thesis
    proof (cases "i \<in> set seen \<or> \<not> (1 \<le> i \<and> i \<le> length hits)")
      case True
      then show ?thesis using 2(1) [OF Inr True] Inr
        by (cases "try_map marker_number rest") (auto simp: try_bind_def)
    next
      case False
      have "filter (\<lambda>j. j \<noteq> i) (filter (\<lambda>j. 1 \<le> j \<and> j \<le> length hits \<and> j \<notin> set seen) ns) =
        filter (\<lambda>j. 1 \<le> j \<and> j \<le> length hits \<and> j \<notin> set (i # seen)) ns" for ns
        by (auto intro: filter_cong)
      then show ?thesis using 2(2) [OF Inr False] Inr False
        by (cases "try_map marker_number rest") (simp_all add: try_bind_def first_mentions_Cons)
    qed
  qed (simp add: try_bind_def)
qed simp

lemma extract_citations_spec:
  "extract_citations answer hits k = Inr cs \<longleftrightarrow> (\<exists>ns. try_map marker_number (markers answer) = Inr ns \<and>
     cs = map (\<lambda>i. citation_of k (hits ! (i - 1))) (first_mentions (filter (\<lambda>i. 1 \<le> i \<and> i \<le> length hits) ns)))"
  by (auto simp: extract_citations_def citation_loop_spec try_bind_eq_Inr)

lemma extract_citations_from_hits:
  assumes "extract_citations answer hits k = Inr cs"
  shows "list_all (\<lambda>c. \<exists>h\<in>set hits. c = citation_of k h) cs"
    and "distinct (map h_chunk_id hits) \<Longrightarrow> distinct (map ci_chunk_id cs)"
proof -
  obtain ns where cs: "cs = map (\<lambda>i. citation_of k (hits ! (i - 1)))
      (first_mentions (filter (\<lambda>i. 1 \<le> i \<and> i \<le> length hits) ns))"
    using assms by (auto simp: extract_citations_spec)
  show "list_all (\<lambda>c. \<exists>h\<in>set hits. c = citation_of k h) cs"
    unfolding cs list_all_iff by (fastforce intro!: bexI [OF refl nth_mem])
  assume "distinct (map h_chunk_id hits)"
  then have same: "a = b" if "h_chunk_id (hits ! a) = h_chunk_id (hits ! b)" "a < length hits" "b < length hits" for a b
    using that nth_eq_iff_index_eq [of "map h_chunk_id hits" a b] by simp
  have "i = j" if "h_chunk_id (hits ! (i - 1)) = h_chunk_id (hits ! (j - 1))" "1 \<le> i" "i \<le> length hits"
    "1 \<le> j" "j \<le> length hits" for i j
    using same [OF that(1)] that(2-5) by arith
  then have "inj_on (\<lambda>i. h_chunk_id (hits ! (i - 1))) {i. 1 \<le> i \<and> i \<le> length hits}"
    by (intro inj_onI) blast
  then show "distinct (map ci_chunk_id cs)"
    unfolding cs by (auto simp: distinct_map comp_def citation_of_def intro: inj_on_subset)
qed

lemma refusal_without_markers: "markers REFUSAL_NO_CONTEXT = []"
  by code_simp

lemma ask_cases:
  assumes "ask E tid uid q sid filters rr rid st = (st', Inr out)"
  obtains res g ans cs ss where "do_retrieval E tid q filters rr = Inr res"
    "answer_text E (ask_request E tid uid rid) q (so_hits res)
       (snd (memory_load (ae_fresh E) tid sid (as_sessions st))) (as_gw st) = (g, Inr ans)"
    "extract_citations ans (so_hits res) 220 = Inr cs"
    "memory_append MAX_TURNS (ae_now E) tid (fst (memory_load (ae_fresh E) tid sid (as_sessions st))) uid q ans cs
       (as_sessions st) = Inr ss"
    "st' = st\<lparr> as_gw := g, as_sessions := ss \<rparr>" "ao_answer out = ans" "ao_citations out = cs"
    "ao_session out = fst (memory_load (ae_fresh E) tid sid (as_sessions st))"
    "ao_confidence out = so_confidence res" "ao_chunks_used out = length (so_hits res)"
  using assms
  by (auto simp: ask_def try_bind_eq_Inr split: prod.splits sum.splits)

lemma session_at_map:
  "(\<And>s. cs_id (f s) = cs_id s \<and> cs_tenant (f s) = cs_tenant s) \<Longrightarrow>
     session_at t i (map f ss) = map_option f (session_at t i ss)"
  by (induction ss) (auto simp: session_at_def)

lemma session_at_single:
  "session_at t i [s] = (if cs_id s = i \<and> cs_tenant s = t then Some s else None)"
  by (simp add: session_at_def)

lemma session_at_append:
  "session_at t i (xs @ ys) = (case session_at t i xs of None \<Rightarrow> session_at t i ys | Some s \<Rightarrow> Some s)"
  by (induction xs) (auto simp: session_at_def)

lemma session_at_Some: "session_at t i ss = Some s \<Longrightarrow> s \<in> set ss \<and> cs_id s = i \<and> cs_tenant s = t"
  by (auto simp: session_at_def find_Some_iff)

definition next_history :: "nat \<Rightarrow> int \<Rightarrow> string \<Rightarrow> string \<Rightarrow> citation list \<Rightarrow> turn list \<Rightarrow> turn list" where
  "next_history max_turns now q a cs old = slice_last (max_turns * 2) (old @
     [\<lparr> tu_role = ''user'', tu_content = q, tu_ts = now, tu_citations = None \<rparr>,
      \<lparr> tu_role = ''assistant'', tu_content = a, tu_ts = now, tu_citations = Some cs \<rparr>])"

definition history_at :: "uuid \<Rightarrow> uuid \<Rightarrow> chat_session list \<Rightarrow> turn list" where
  "history_at tid sid ss = (case session_at tid sid ss of None \<Rightarrow> [] | Some s \<Rightarrow> cs_history s)"

lemma memory_append_spec:
  assumes "memory_append n now tid sid uid q a cs ss = Inr ss'"
  obtains s' where "session_at tid sid ss' = Some s'"
    "cs_history s' = next_history n now q a cs (history_at tid sid ss)"
    "cs_user s' = (case session_at tid sid ss of None \<Rightarrow> uid | Some s \<Rightarrow> cs_user s)"
    "\<And>t i. (t, i) \<noteq> (tid, sid) \<Longrightarrow> session_at t i ss' = session_at t i ss"
proof (cases "session_at tid sid ss")
  case None
  let ?new = "\<lparr> cs_id = sid, cs_tenant = tid, cs_user = uid, cs_title = take 200 q,
      cs_history = next_history n now q a cs [], cs_updated = now \<rparr>"
  have ss': "ss' = ss @ [?new]"
    using assms None by (auto simp: memory_append_def next_history_def Let_def split: if_splits)
  show thesis
  proof (rule that [of ?new])
    show "session_at t i ss' = session_at t i ss" if "(t, i) \<noteq> (tid, sid)" for t i
      unfolding ss' using that by (auto simp: session_at_append session_at_single split: option.split)
  qed (use None in \<open>auto simp: ss' session_at_append session_at_single history_at_def\<close>)
next
  case (Some s)
  let ?f = "\<lambda>s. if cs_id s = sid \<and> cs_tenant s = tid
    then s\<lparr> cs_history := next_history n now q a cs (cs_history s), cs_updated := now \<rparr> else s"
  have ss': "ss' = map ?f ss" using assms Some by (simp add: memory_append_def next_history_def Let_def eq_commute cong: map_cong)
  have f: "session_at t i ss' = map_option ?f (session_at t i ss)" for t i
    unfolding ss' by (rule session_at_map) simp
  show thesis
  proof (rule that [of "?f s"])
    show "session_at t i ss' = session_at t i ss" if "(t, i) \<noteq> (tid, sid)" for t i
      unfolding f using that session_at_Some [of t i ss] by (cases "session_at t i ss") auto
  qed (use f [of tid sid] Some session_at_Some [OF Some] in \<open>simp_all add: history_at_def\<close>)
qed

lemma memory_load_history:
  "memory_load fresh tid (Some sid) ss = (sid, map (\<lambda>m. \<lparr> msg_role = tu_role m, msg_content = tu_content m \<rparr>)
     (history_at tid sid ss))"
  by (auto simp: memory_load_def history_at_def dest: session_at_Some split: option.split)

lemma answer_text_complete:
  assumes "answer_text E rq q hits history g = (g', Inr ans)" and "hits \<noteq> []"
  shows "\<exists>r. complete (ae_gw E) rq (build_rag_messages q hits history (system_prompt E)) g = (g', Inr r) \<and> ans = gr_text r"
  using assms by (auto simp: answer_text_def try_bind_eq_Inr split: prod.splits)

section \<open>Properties\<close>

text \<open>
  C6. The citations of an answer are exactly the numbers in brackets that name a context block: one citation per
  block, in the order of the first mention.
\<close>

theorem citations_exact:
  assumes "extract_citations answer hits k = Inr cs"
  shows "(\<exists>ns. try_map marker_number (markers answer) = Inr ns \<and>
      cs = map (\<lambda>i. citation_of k (hits ! (i - 1))) (first_mentions (filter (\<lambda>i. 1 \<le> i \<and> i \<le> length hits) ns))) \<and>
    set (markers answer) = {ds. ds \<noteq> [] \<and> (\<forall>c\<in>set ds. is_digit c) \<and>
      (\<exists>u v. answer = u @ CHR ''['' # ds @ CHR '']'' # v)}"
  using assms markers_sound [of _ answer] markers_complete [of answer]
  by (simp add: extract_citations_spec) blast


text \<open>
  C33. A turn is remembered: after an answered question the session holds its old turns with the question and the
  answer appended, cut to the last forty messages, no other session has changed, and the next question asked in the
  session, unless it finds no hits, is put to the model after exactly these messages.
\<close>

theorem ask_remembers:
  assumes "ask E tid uid q sid f rr rid st = (st', Inr out)"
    and "ask E2 tid uid2 q2 (Some (ao_session out)) f2 rr2 rid2 st' = (st'', Inr out2)"
  shows "\<exists>turns kept res. turns = history_at tid (ao_session out) (as_sessions st) @
      [\<lparr> tu_role = ''user'', tu_content = q, tu_ts = ae_now E, tu_citations = None \<rparr>,
       \<lparr> tu_role = ''assistant'', tu_content = ao_answer out, tu_ts = ae_now E, tu_citations = Some (ao_citations out) \<rparr>] \<and>
    kept = drop (length turns - 40) turns \<and>
    history_at tid (ao_session out) (as_sessions st') = kept \<and>
    (\<forall>t i. (t, i) \<noteq> (tid, ao_session out) \<longrightarrow> session_at t i (as_sessions st') = session_at t i (as_sessions st)) \<and>
    ao_session out2 = ao_session out \<and> do_retrieval E2 tid q2 f2 rr2 = Inr res \<and>
    (so_hits res \<noteq> [] \<longrightarrow> (\<exists>r. complete (ae_gw E2) (ask_request E2 tid uid2 rid2)
      (build_rag_messages q2 (so_hits res) (map (\<lambda>m. \<lparr> msg_role = tu_role m, msg_content = tu_content m \<rparr>) kept)
        (system_prompt E2)) (as_gw st') = (as_gw st'', Inr r) \<and> ao_answer out2 = gr_text r))"
proof -
  let ?old = "history_at tid (ao_session out) (as_sessions st)"
  let ?kept = "next_history MAX_TURNS (ae_now E) q (ao_answer out) (ao_citations out) ?old"
  obtain ss where m: "memory_append MAX_TURNS (ae_now E) tid (ao_session out) uid q (ao_answer out)
      (ao_citations out) (as_sessions st) = Inr ss" "as_sessions st' = ss"
    by (rule ask_cases [OF assms(1)]) auto
  have h: "history_at tid (ao_session out) (as_sessions st') = ?kept"
    by (rule memory_append_spec [OF m(1)]) (simp add: m(2) history_at_def)
  have other: "\<forall>t i. (t, i) \<noteq> (tid, ao_session out) \<longrightarrow>
      session_at t i (as_sessions st') = session_at t i (as_sessions st)"
    by (rule memory_append_spec [OF m(1)]) (use m(2) in simp)
  obtain res where res: "do_retrieval E2 tid q2 f2 rr2 = Inr res" "ao_session out2 = ao_session out"
    and a: "answer_text E2 (ask_request E2 tid uid2 rid2) q2 (so_hits res)
      (map (\<lambda>m. \<lparr> msg_role = tu_role m, msg_content = tu_content m \<rparr>) ?kept) (as_gw st') = (as_gw st'', Inr (ao_answer out2))"
    by (rule ask_cases [OF assms(2)]) (auto simp: memory_load_history h)
  let ?turns = "?old @ [\<lparr> tu_role = ''user'', tu_content = q, tu_ts = ae_now E, tu_citations = None \<rparr>,
    \<lparr> tu_role = ''assistant'', tu_content = ao_answer out, tu_ts = ae_now E, tu_citations = Some (ao_citations out) \<rparr>]"
  have k: "?kept = drop (length ?turns - 40) ?turns"
    by (simp add: next_history_def MAX_TURNS_def slice_last_def)
  show ?thesis
    using h [unfolded k] other res answer_text_complete [OF a, unfolded k] by blast
qed

section \<open>A sample deployment\<close>

definition answering_env :: "string \<Rightarrow> gw_env" where
  "answering_env ans = (sample_env None no_cloud)\<lparr> e_complete := (\<lambda>_ _. Inr [Some ans]) \<rparr>"

text \<open>The deployment answers any messages of its tenant.\<close>

lemma answering_complete:
  assumes "ctx_tenant_id (gq_ctx rq) = ''t1''"
  shows "\<exists>st' g. complete (answering_env ans) rq ms st = (st', Inr g) \<and> gr_text g = ans"
proof -
  let ?E = "answering_env ans"
  let ?q = "snd (hd (available_targets (e_settings ?E)))"
  have load: "load_tenant_settings (e_db ?E) (ctx_tenant_id (gq_ctx rq)) = sample_policy no_cloud"
    by (simp add: assms answering_env_def sample_env_def load_tenant_settings_def)
  have chain: "resolve_target_chain (sample_policy no_cloud) (e_settings ?E) = Inr [?q]"
    by (simp add: resolve_target_chain_def sample_policy_def gateway_get_def dget_def dget_or_def
        por_def pick_targets_def List.map_filter_def available_targets_def sample_env_def answering_env_def)
  have lock: "lock_chain no_cloud_policy [?q] = Inr [?q]"
    by (simp add: lock_chain_def no_cloud_policy_def available_targets_def)
  have quota: "\<exists>x. enforce_quota_service (e_settings ?E) (e_db ?E) (e_now ?E (gs_writes st))
      (gs_ledger st) (gq_ctx rq)
      (Given (Some (case sample_policy no_cloud of None \<Rightarrow> [] | Some d \<Rightarrow> d))) = Inr x"
    by (simp add: enforce_quota_service_def check_def resolve_limits_def gateway_block_def
        gateway_get_def sample_policy_def dget_def dget_or_def por_def coerce_int_def int_or_def
        sample_env_def answering_env_def default_settings_def has_any_def)
  have gate: "gate ?E st (gq_ctx rq) = Inr ([?q], no_cloud_policy)"
    using quota by (auto simp: gate_def Let_def load no_cloud_resolved chain lock)
  have scr: "screen_step ?E (gq_ctx rq) (map Typed ms) no_cloud_policy st = (st, Inr ())"
    by (simp add: screen_step_def no_cloud_policy_def)
  have run: "complete ?E rq ms st = complete_loop ?E rq ms no_cloud_policy None [?q] st"
    by (simp add: complete_def gate scr)
  have client: "active_client (bound ?E ?q) (e_secrets ?E) = Inr (OpenAIClient (Some ''sk'') None)"
    by (simp add: active_client_def build_client_def bound_def get_llm_for_target_def
        available_targets_def sample_env_def answering_env_def)
  have req: "sdk_request (e_complete ?E) (bound ?E ?q) (e_secrets ?E) mk tr =
      (tr @ [mk (OpenAIClient (Some ''sk'') None)], Inr [Some ans])" for mk tr
    by (simp add: sdk_request_def client) (simp add: answering_env_def)
  have call: "openai_complete (e_complete ?E) (bound ?E ?q) (e_secrets ?E) ms rq' (gs_trace st) =
      (gs_trace st @ [mk_call (bound ?E ?q) rq' (map message_dict ms) [] (OpenAIClient (Some ''sk'') None)], Inr ans)" for ms rq'
    by (simp add: openai_complete_def numeral_2_eq_2 req first_choice_def)
  have ok: "enforce no_cloud_policy (Some (tgt_model ?q)) = Inr ()"
    by (simp add: enforce_def no_cloud_policy_def)
  show ?thesis by (simp add: run ok call Let_def mk_call_def)
qed

definition sample_ask :: "unit ask_env" where
  "sample_ask = \<lparr> ae_search = sample_search, ae_gw = answering_env ''Yes [1]. No [2].'', ae_defaults = [],
     ae_prompts = None, ae_retrieve_k = 16, ae_temperature = JInt 0, ae_max_tokens = Some 1400,
     ae_fresh = ''s1'', ae_now = 5, ae_total_ms = 0 \<rparr>"

definition fresh_state :: ask_state where
  "fresh_state = \<lparr> as_gw = sample_state, as_sessions = [], as_audit = [] \<rparr>"

lemma sample_retrieval:
  "\<exists>res. do_retrieval sample_ask ''t1'' ''q'' (Some no_filters) False = Inr res \<and>
     map h_chunk_id (so_hits res) = [''c1'']"
proof -
  have v: "visible_tenant_ids (se_settings sample_search) (se_tenants sample_search) ''t1'' = [''t1'']"
    by (simp add: sample_search_def visible_tenant_ids_def public_corpus_tenant_id_def)
  have h: "map h_chunk_id (take 16 (hybrid_retrieve RRF_CONSTANT (se_db sample_search) [''t1''] no_filters ''q'' 16)) =
      [''c1'']" by code_simp
  have "feedback_step sample_search ids q hits = hits" for ids q hits
    by (simp add: feedback_step_def sample_search_def signals_for_def apply_feedback_nudge_def)
  then show ?thesis using h
    by (simp add: do_retrieval_def search_def ask_options_def v Let_def sample_ask_def)
qed

lemma sample_turn:
  "\<exists>res g cs. do_retrieval sample_ask ''t1'' ''q'' (Some no_filters) False = Inr res \<and>
     answer_text sample_ask (ask_request sample_ask ''t1'' uid None) ''q'' (so_hits res) hist gw =
       (g, Inr ''Yes [1]. No [2].'') \<and>
     extract_citations ''Yes [1]. No [2].'' (so_hits res) 220 = Inr cs \<and> map ci_chunk_id cs = [''c1'']"
proof -
  obtain res where res: "do_retrieval sample_ask ''t1'' ''q'' (Some no_filters) False = Inr res"
    "map h_chunk_id (so_hits res) = [''c1'']"
    using sample_retrieval by (elim exE conjE)
  then obtain h where h: "so_hits res = [h]" "h_chunk_id h = ''c1''" by (cases "so_hits res") auto
  have m: "markers ''Yes [1]. No [2].'' = [''1'', ''2'']" by code_simp
  have n: "marker_number ''1'' = Inr 1" "marker_number ''2'' = Inr 2" by code_simp+
  have c: "extract_citations ''Yes [1]. No [2].'' [h] 220 = Inr [citation_of 220 h]"
    by (simp add: extract_citations_def m n del: markers.simps)
  have t: "ctx_tenant_id (gq_ctx (ask_request sample_ask ''t1'' uid None)) = ''t1''"
    by (simp add: ask_request_def)
  obtain g r where "complete (answering_env ''Yes [1]. No [2].'') (ask_request sample_ask ''t1'' uid None)
      (build_rag_messages ''q'' [h] hist (system_prompt sample_ask)) gw = (g, Inr r)"
    "gr_text r = ''Yes [1]. No [2].''"
    using answering_complete [OF t] by blast
  then have "answer_text sample_ask (ask_request sample_ask ''t1'' uid None) ''q'' [h] hist gw =
      (g, Inr ''Yes [1]. No [2].'')"
    by (simp add: answer_text_def) (simp add: sample_ask_def)
  then show ?thesis using res(1) h c by (simp add: citation_of_def)
qed

lemma sample_ask_answers:
  assumes "\<And>cs. \<exists>ss. memory_append MAX_TURNS 5 ''t1'' (fst (memory_load ''s1'' ''t1'' sid (as_sessions st))) uid ''q''
      ''Yes [1]. No [2].'' cs (as_sessions st) = Inr ss"
  shows "\<exists>st' out. ask sample_ask ''t1'' uid ''q'' sid (Some no_filters) False None st = (st', Inr out) \<and>
     map ci_chunk_id (ao_citations out) = [''c1''] \<and>
     ao_session out = fst (memory_load ''s1'' ''t1'' sid (as_sessions st))"
proof -
  obtain s hist where l: "memory_load ''s1'' ''t1'' sid (as_sessions st) = (s, hist)" by fastforce
  obtain res g cs where t: "do_retrieval sample_ask ''t1'' ''q'' (Some no_filters) False = Inr res"
    "answer_text sample_ask (ask_request sample_ask ''t1'' uid None) ''q'' (so_hits res) hist (as_gw st) =
       (g, Inr ''Yes [1]. No [2].'')"
    "extract_citations ''Yes [1]. No [2].'' (so_hits res) 220 = Inr cs" "map ci_chunk_id cs = [''c1'']"
    using sample_turn [of uid hist "as_gw st"] by (elim exE conjE)
  obtain ss where ss: "memory_append MAX_TURNS 5 ''t1'' s uid ''q'' ''Yes [1]. No [2].'' cs (as_sessions st) = Inr ss"
    using assms l by fastforce
  have e: "ae_fresh sample_ask = ''s1''" "ae_now sample_ask = 5" by (simp_all add: sample_ask_def)
  show ?thesis using t l ss e by (simp add: ask_def)
qed

lemma sample_ask_runs:
  "\<exists>st' out. ask sample_ask ''t1'' ''u1'' ''q'' None (Some no_filters) False None fresh_state = (st', Inr out) \<and>
     map ci_chunk_id (ao_citations out) = [''c1''] \<and> ao_session out = ''s1''"
  using sample_ask_answers [where st = fresh_state and sid = None and uid = "''u1''"]
  by (simp add: fresh_state_def memory_load_def memory_append_def session_at_def)

theorem citations_exact_witness:
  "\<exists>cs. extract_citations ''see [2] and [1], [2]'' [sample_hit ''c1'' ''d'', sample_hit ''c2'' ''d''] 220 = Inr cs \<and>
     map ci_chunk_id cs = [''c2'', ''c1'']"
proof -
  have "extract_citations ''see [2] and [1], [2]'' [sample_hit ''c1'' ''d'', sample_hit ''c2'' ''d''] 220 =
      Inr [citation_of 220 (sample_hit ''c2'' ''d''), citation_of 220 (sample_hit ''c1'' ''d'')]" by code_simp
  from citations_exact [OF this] this show ?thesis by (simp add: citation_of_def sample_hit_def)
qed


theorem ask_remembers_witness:
  "\<exists>st' out st'' out2. ask sample_ask ''t1'' ''u1'' ''q'' None (Some no_filters) False None fresh_state = (st', Inr out) \<and>
     ask sample_ask ''t1'' ''u2'' ''q'' (Some ''s1'') (Some no_filters) False None st' = (st'', Inr out2) \<and>
     (\<exists>hits r. hits \<noteq> [] \<and> complete (ae_gw sample_ask) (ask_request sample_ask ''t1'' ''u2'' None)
       (build_rag_messages ''q'' hits [\<lparr> msg_role = ''user'', msg_content = ''q'' \<rparr>,
         \<lparr> msg_role = ''assistant'', msg_content = ao_answer out \<rparr>] (system_prompt sample_ask)) (as_gw st') = (as_gw st'', Inr r))"
proof -
  obtain st' out where r: "ask sample_ask ''t1'' ''u1'' ''q'' None (Some no_filters) False None fresh_state = (st', Inr out)"
    "ao_session out = ''s1''"
    using sample_ask_runs by (elim exE conjE)
  have "\<exists>s. session_at ''t1'' ''s1'' (as_sessions st') = Some s"
    by (rule ask_cases [OF r(1)], erule memory_append_spec) (simp add: fresh_state_def memory_load_def sample_ask_def)
  then have "\<exists>ss. memory_append MAX_TURNS 5 ''t1'' (fst (memory_load ''s1'' ''t1'' (Some ''s1'') (as_sessions st'))) ''u2'' ''q''
      ''Yes [1]. No [2].'' cs (as_sessions st') = Inr ss" for cs
    by (auto simp: memory_load_history memory_append_def Let_def)
  from sample_ask_answers [OF this] obtain st'' out2
    where r2: "ask sample_ask ''t1'' ''u2'' ''q'' (Some ''s1'') (Some no_filters) False None st' = (st'', Inr out2)"
    by blast
  have old: "history_at ''t1'' ''s1'' (as_sessions fresh_state) = []"
    by (simp add: fresh_state_def history_at_def session_at_def)
  have hits: "do_retrieval sample_ask ''t1'' ''q'' (Some no_filters) False = Inr res \<Longrightarrow> so_hits res \<noteq> []" for res
    using sample_retrieval by auto
  obtain turns kept res g where t: "turns = [] @
      [\<lparr> tu_role = ''user'', tu_content = ''q'', tu_ts = ae_now sample_ask, tu_citations = None \<rparr>,
       \<lparr> tu_role = ''assistant'', tu_content = ao_answer out, tu_ts = ae_now sample_ask,
         tu_citations = Some (ao_citations out) \<rparr>]" "kept = drop (length turns - 40) turns"
    "do_retrieval sample_ask ''t1'' ''q'' (Some no_filters) False = Inr res"
    "so_hits res \<noteq> [] \<Longrightarrow> complete (ae_gw sample_ask) (ask_request sample_ask ''t1'' ''u2'' None)
      (build_rag_messages ''q'' (so_hits res) (map (\<lambda>m. \<lparr> msg_role = tu_role m, msg_content = tu_content m \<rparr>) kept)
        (system_prompt sample_ask)) (as_gw st') = (as_gw st'', Inr g)"
    using ask_remembers [OF r(1) r2 [folded r(2)]] unfolding r(2) old by blast
  have "kept = turns" by (simp add: t)
  then have "complete (ae_gw sample_ask) (ask_request sample_ask ''t1'' ''u2'' None)
      (build_rag_messages ''q'' (so_hits res) [\<lparr> msg_role = ''user'', msg_content = ''q'' \<rparr>,
         \<lparr> msg_role = ''assistant'', msg_content = ao_answer out \<rparr>] (system_prompt sample_ask)) (as_gw st') = (as_gw st'', Inr g)"
    using t(4) [OF hits [OF t(3)]] by (simp add: t(1))
  then show ?thesis using r(1) r2 hits [OF t(3)] by blast
qed

end
