(* ===== verification/AskRoutes.thy ===== *)
theory AskRoutes
  imports AskService
begin

text \<open>
  The routes over the ask and search services: \<open>api/routes/ask.py\<close>, \<open>search.py\<close>, \<open>sessions.py\<close> and
  \<open>feedback.py\<close>, with their guards in the order FastAPI resolves them.  Requests are validated bodies.
\<close>

section \<open>Guards\<close>

text \<open>What the guards and the audit of a request read.\<close>

record route_env =
  ro_tenants :: "tenant list"
  ro_ledger_ok :: bool
  ro_audit_ok :: bool
  ro_now :: int
  ro_require_byok :: bool
  ro_header_id :: "string option"
  ro_fresh_hex :: string
  ro_float_repr :: "rat \<Rightarrow> string"

definition byok_missing :: exn where
  "byok_missing = HTTPError 401 (''This deployment requires a bring-your-own OpenAI key. '' @
     ''Send it as the X-OpenAI-API-Key header.'')"

definition require_byok :: "bool \<Rightarrow> request_secrets option \<Rightarrow> exn + unit" where
  "require_byok needed secrets =
     (if \<not> needed then Inr ()
      else case secrets of
        None \<Rightarrow> Inl byok_missing
      | Some s \<Rightarrow> if str_true (rs_openai_api_key s) then Inr () else Inl byok_missing)"

definition request_id :: "route_env \<Rightarrow> string" where
  "request_id R = (if str_true (ro_header_id R) then the (ro_header_id R) else ro_fresh_hex R)"

text \<open>
  Trial, quota, policy (when the route has that guard) and the key check; a quota refusal leaves its row
  in the ledger.
\<close>

definition guards ::
  "route_env \<Rightarrow> gw_env \<Rightarrow> string \<Rightarrow> bool \<Rightarrow> principal \<Rightarrow> ledger \<Rightarrow> ledger \<times> (exn + unit)" where
  "guards R G purpose policy_too p l =
     (case require_active_trial (ro_tenants R) (ro_now R) p of
        Inl e \<Rightarrow> (l, Inl e)
      | Inr _ \<Rightarrow>
          (case quota_guard (e_settings G) (ro_tenants R) (ro_ledger_ok R) (ro_now R) purpose (ro_header_id R) p l of
             (l', Inl e) \<Rightarrow> (l', Inl e)
           | (l', Inr _) \<Rightarrow>
               (l', try_bind (if policy_too then policy_guard (e_settings G) (ro_tenants R) purpose p else Inr p)
                      (\<lambda>_. require_byok (ro_require_byok R) (e_secrets G)))))"

definition with_ledger :: "ledger \<Rightarrow> ask_state \<Rightarrow> ask_state" where
  "with_ledger l st = st\<lparr> as_gw := (as_gw st)\<lparr> gs_ledger := l \<rparr> \<rparr>"

section \<open>Asking\<close>

record ask_body =
  ab_query :: string
  ab_session :: "uuid option"
  ab_filters :: jdict
  ab_stream :: bool
  ab_rerank :: bool

text \<open>Of the filters of the body only \<open>include_superseded\<close> is read.\<close>

definition ask_filters :: "jdict \<Rightarrow> search_filters" where
  "ask_filters raw =
     no_filters\<lparr> f_only_active := \<not> truthy (dget_or raw ''include_superseded'' (JBool False)) \<rparr>"

definition opt_json :: "string option \<Rightarrow> json" where
  "opt_json x = (case x of None \<Rightarrow> JNull | Some s \<Rightarrow> JStr s)"

definition opt_int_json :: "int option \<Rightarrow> json" where
  "opt_int_json x = (case x of None \<Rightarrow> JNull | Some i \<Rightarrow> JInt i)"

definition citation_source :: "citation \<Rightarrow> json" where
  "citation_source c = JObj [(''document_title'', JStr (ci_title c)), (''document_id'', JStr (ci_document_id c)),
     (''chunk_id'', JStr (ci_chunk_id c)), (''page_number'', opt_int_json (ci_page c)),
     (''section_path'', opt_json (ci_section c))]"

text \<open>\<open>model_dump\<close> of a citation, the form the stream hands on.\<close>

definition citation_dump :: "citation \<Rightarrow> json" where
  "citation_dump c = JObj [(''chunk_id'', JStr (ci_chunk_id c)), (''document_id'', JStr (ci_document_id c)),
     (''document_title'', JStr (ci_title c)), (''page_number'', opt_int_json (ci_page c)),
     (''section_path'', opt_json (ci_section c)), (''snippet'', JStr (ci_snippet c))]"

definition ask_blocking ::
  "route_env \<Rightarrow> 'v ask_env \<Rightarrow> ask_body \<Rightarrow> principal \<Rightarrow> ask_state \<Rightarrow> ask_state \<times> (exn + ask_outcome)" where
  "ask_blocking R E b p st =
     (case ask E (pp_tenant_id p) (pp_user_id p) (ab_query b) (ab_session b) (Some (ask_filters (ab_filters b)))
             (ab_rerank b) (Some (request_id R)) st of
        (st', Inl e) \<Rightarrow> (st', Inl e)
      | (st', Inr out) \<Rightarrow>
          (st'\<lparr> as_audit := record_action (ro_audit_ok R) (ro_now R) p ''ask'' (Some ''/v1/ask'')
                 (Some (ab_query b)) (Some (take 600 (ao_answer out))) (map citation_source (ao_citations out))
                 [(''confidence'', JFloat (Fin (ao_confidence out)) (ro_float_repr R (ao_confidence out))),
                  (''session_id'', JStr (ao_session out)), (''request_id'', JStr (request_id R))]
                 (as_audit st') \<rparr>,
           Inr out))"

definition token_texts :: "ask_event list \<Rightarrow> string" where
  "token_texts evs = concat (map (\<lambda>e. case e of Token t \<Rightarrow> t | _ \<Rightarrow> []) evs)"

definition done_sources :: "ask_event list \<Rightarrow> json list" where
  "done_sources evs = concat (map (\<lambda>e. case e of Done _ cs _ \<Rightarrow> map citation_dump cs | _ \<Rightarrow> []) evs)"

text \<open>The audit row of a stream is written after its last event, so not when it raises.\<close>

definition ask_streaming ::
  "route_env \<Rightarrow> 'v ask_env \<Rightarrow> ask_body \<Rightarrow> principal \<Rightarrow> ask_state \<Rightarrow> ask_state \<times> ask_event list \<times> exn option" where
  "ask_streaming R E b p st =
     (case stream_ask E (pp_tenant_id p) (pp_user_id p) (ab_query b) (ab_session b)
             (Some (ask_filters (ab_filters b))) (ab_rerank b) (Some (request_id R)) st of
        (st', evs, Some e) \<Rightarrow> (st', evs, Some e)
      | (st', evs, None) \<Rightarrow>
          (st'\<lparr> as_audit := record_action (ro_audit_ok R) (ro_now R) p ''ask'' (Some ''/v1/ask'')
                 (Some (ab_query b)) (Some (take 600 (token_texts evs))) (done_sources evs)
                 [(''request_id'', JStr (request_id R)), (''stream'', JBool True)] (as_audit st') \<rparr>,
           evs, None))"

definition ask_route ::
  "route_env \<Rightarrow> 'v ask_env \<Rightarrow> ask_body \<Rightarrow> principal \<Rightarrow> ask_state \<Rightarrow>
   ask_state \<times> (exn + (ask_outcome + ask_event list \<times> exn option))"
where
  "ask_route R E b p st =
     (case guards R (ae_gw E) ''chat'' True p (gs_ledger (as_gw st)) of
        (l, Inl e) \<Rightarrow> (with_ledger l st, Inl e)
      | (l, Inr _) \<Rightarrow>
          if ab_stream b
          then (case ask_streaming R E b p (with_ledger l st) of (st', evs, x) \<Rightarrow> (st', Inr (Inr (evs, x))))
          else (case ask_blocking R E b p (with_ledger l st) of
                  (st', r) \<Rightarrow> (st', try_bind r (\<lambda>out. Inr (Inl out)))))"

section \<open>Searching\<close>

record search_body =
  sb_query :: string
  sb_k :: nat
  sb_filters :: jdict
  sb_rerank :: bool

definition hit_source :: "hit \<Rightarrow> json" where
  "hit_source h = JObj [(''document_id'', JStr (h_document_id h)), (''chunk_id'', JStr (h_chunk_id h)),
     (''section_path'', opt_json (h_section h)), (''page_number'', opt_int_json (h_page h)),
     (''score'', decimal_json 3 (h_score h))]"

text \<open>The service meters the search once it has its hits; a failed write is swallowed.\<close>

definition search_context :: "uuid \<Rightarrow> gateway_context" where
  "search_context tid = \<lparr> ctx_tenant_id = tid, ctx_tenant_slug = [], ctx_user_id = None, ctx_plan = None,
     ctx_purpose = ''search'', ctx_request_id = None \<rparr>"

definition search_route ::
  "route_env \<Rightarrow> 'v search_env \<Rightarrow> gw_env \<Rightarrow> search_body \<Rightarrow> principal \<Rightarrow> ledger \<times> audit_log \<Rightarrow>
   (ledger \<times> audit_log) \<times> (exn + search_outcome)"
where
  "search_route R S G b p st =
     (case guards R G ''search'' False p (fst st) of
        (l, Inl e) \<Rightarrow> ((l, snd st), Inl e)
      | (l, Inr _) \<Rightarrow>
          (case try_bind (build_filters (sb_filters b)) (\<lambda>f.
              search S (pp_tenant_id p) (sb_query b)
                \<lparr> sp_k = sb_k b, sp_filters = f, sp_public = True, sp_rerank = sb_rerank b, sp_feedback = True \<rparr>) of
             Inl e \<Rightarrow> ((l, snd st), Inl e)
           | Inr out \<Rightarrow>
               ((record_usage (ro_ledger_ok R) (ro_now R) (search_context (pp_tenant_id p))
                   (search_usage S (e_tik G) (sb_query b)) l,
                 record_action (ro_audit_ok R) (ro_now R) p ''search'' (Some ''/v1/search'') (Some (sb_query b))
                   (Some (nat_str (length (so_hits out)) @ '' hits returned''))
                   (map hit_source (take 10 (so_hits out))) [] (snd st)),
                Inr out)))"

section \<open>Sessions\<close>

definition own_sessions :: "principal \<Rightarrow> chat_session list \<Rightarrow> chat_session list" where
  "own_sessions p ss = filter (\<lambda>s. cs_tenant s = pp_tenant_id p \<and> cs_user s = pp_user_id p) ss"

definition list_sessions :: "principal \<Rightarrow> chat_session list \<Rightarrow> chat_session list" where
  "list_sessions p ss = take 100 (sort_key (\<lambda>s. - cs_updated s) (own_sessions p ss))"

definition get_session :: "uuid \<Rightarrow> principal \<Rightarrow> chat_session list \<Rightarrow> exn + turn list" where
  "get_session sid p ss =
     (case find (\<lambda>s. cs_id s = sid) (own_sessions p ss) of
        None \<Rightarrow> Inl (HTTPError 404 ''session not found'')
      | Some s \<Rightarrow> Inr (cs_history s))"

section \<open>Feedback\<close>

record feedback_body =
  fq_rating :: int
  fq_query :: string
  fq_request_id :: "string option"
  fq_session :: "uuid option"
  fq_correction :: "string option"
  fq_document_ids :: "string list"
  fq_chunk_ids :: "string list"

definition vote_of :: "int \<Rightarrow> int" where
  "vote_of r = (if r \<ge> 0 then 1 else -1)"

definition submit_feedback ::
  "bool \<Rightarrow> int \<Rightarrow> feedback_body \<Rightarrow> principal \<Rightarrow> feedback_row list \<times> audit_log \<Rightarrow>
   (feedback_row list \<times> audit_log) \<times> nat"
where
  "submit_feedback ok now b p st =
     ((fst st @ [\<lparr> fb_tenant_id = pp_tenant_id p, fb_query = fq_query b,
         fb_normalized = normalize_query (fq_query b), fb_rating = vote_of (fq_rating b),
         fb_correction = none_if_empty (fq_correction b), fb_document_ids = map JStr (fq_document_ids b),
         fb_created_at = now \<rparr>],
       record_action ok now p ''feedback.submit'' (Some ''/v1/feedback'')
         (none_if_empty (Some (fq_query b))) None []
         [(''rating'', JInt (vote_of (fq_rating b))), (''request_id'', opt_json (fq_request_id b)),
          (''has_correction'', JBool (str_true (fq_correction b))),
          (''document_ids'', JList (map JStr (take 20 (fq_document_ids b))))] (snd st)),
      Suc (length (fst st)))"

section \<open>Properties\<close>

text \<open>
  A request that a guard refuses costs nothing: no model is called, no session and no audit row is written,
  and the row it may leave in the ledger never counts toward a later quota decision.
\<close>

theorem refused_ask_free:
  assumes "guards R (ae_gw E) ''chat'' True p (gs_ledger (as_gw st)) = (l, Inl e)"
  shows "ask_route R E b p st = (with_ledger l st, Inl e) \<and>
    gs_trace (as_gw (with_ledger l st)) = gs_trace (as_gw st) \<and>
    as_sessions (with_ledger l st) = as_sessions st \<and> as_audit (with_ledger l st) = as_audit st \<and>
    check s' db t l ctx arg = check s' db t (gs_ledger (as_gw st)) ctx arg"
proof -
  obtain l' x where q: "quota_guard (e_settings (ae_gw E)) (ro_tenants R) (ro_ledger_ok R) (ro_now R) ''chat''
      (ro_header_id R) p (gs_ledger (as_gw st)) = (l', x)" by (rule prod.exhaust)
  have "check s' db t l' ctx arg = check s' db t (gs_ledger (as_gw st)) ctx arg"
    using quota_guard_free [where s = "e_settings (ae_gw E)" and ts = "ro_tenants R" and ok = "ro_ledger_ok R"
      and now = "ro_now R" and purpose = "''chat''" and rid = "ro_header_id R" and p = p
      and l = "gs_ledger (as_gw st)" and s' = s' and db = db and t = t and ctx = ctx and arg = arg]
    by (simp only: q prod.case)
  moreover have "l = gs_ledger (as_gw st) \<or> l = l'"
    using assms by (cases "require_active_trial (ro_tenants R) (ro_now R) p"; cases x) (auto simp: guards_def q)
  ultimately have "check s' db t l ctx arg = check s' db t (gs_ledger (as_gw st)) ctx arg" by blast
  then show ?thesis using assms by (simp add: ask_route_def with_ledger_def)
qed

text \<open>
  The session routes show a session to its user only, yet the ask route does not check the user: a colleague
  who names the session is refused by \<open>/v1/sessions\<close>, but the model is given the whole conversation, and
  the colleague's turn appears in the owner's session.
\<close>

theorem session_shared_by_ask:
  assumes "distinct (map cs_id (as_sessions st))"
    and "session_at (pp_tenant_id a) sid (as_sessions st) = Some r" and "cs_user r = pp_user_id a"
    and "pp_tenant_id c = pp_tenant_id a" and "pp_user_id c \<noteq> pp_user_id a"
    and "ask E (pp_tenant_id c) (pp_user_id c) q (Some sid) f rr rid st = (st', Inr out)"
  shows "get_session sid c (as_sessions st) = Inl (HTTPError 404 ''session not found'') \<and>
    snd (memory_load (ae_fresh E) (pp_tenant_id c) (Some sid) (as_sessions st)) =
      map (\<lambda>m. \<lparr> msg_role = tu_role m, msg_content = tu_content m \<rparr>) (cs_history r) \<and>
    get_session sid a (as_sessions st') =
      Inr (next_history MAX_TURNS (ae_now E) q (ao_answer out) (ao_citations out) (cs_history r))"
proof -
  note r = session_at_Some [OF assms(2)]
  have only: "x = r" if "x \<in> set (as_sessions st)" "cs_id x = sid" for x
    using assms(1) that r by (metis distinct_map inj_onD)
  have "find (\<lambda>s. cs_id s = sid) (own_sessions c (as_sessions st)) = None"
    unfolding own_sessions_def find_None_iff using only assms(3,5) by auto
  moreover obtain ss where m: "memory_append MAX_TURNS (ae_now E) (pp_tenant_id a) sid (pp_user_id c) q (ao_answer out)
      (ao_citations out) (as_sessions st) = Inr ss" "as_sessions st' = ss"
    by (rule ask_cases [OF assms(6)]) (use assms(4) in \<open>auto simp: memory_load_history\<close>)
  moreover have ss: "ss = map (\<lambda>s. if cs_id s = sid \<and> cs_tenant s = pp_tenant_id a
      then s\<lparr> cs_history := next_history MAX_TURNS (ae_now E) q (ao_answer out) (ao_citations out) (cs_history s),
        cs_updated := ae_now E \<rparr> else s) (as_sessions st)"
    using m(1) assms(2) by (simp add: memory_append_def Let_def next_history_def eq_commute cong: map_cong)
  moreover have "find (\<lambda>s. cs_id s = sid) (own_sessions a ss) = Some (r\<lparr> cs_history := next_history MAX_TURNS (ae_now E) q
      (ao_answer out) (ao_citations out) (cs_history r), cs_updated := ae_now E \<rparr>)" (is "_ = Some ?r")
  proof -
    have "map cs_id ss = map cs_id (as_sessions st)" by (simp add: ss)
    then have "distinct (map cs_id (own_sessions a ss))"
      using assms(1) by (simp add: own_sessions_def distinct_map_filter)
    moreover have "?r \<in> set (own_sessions a ss)"
      using r assms(3) unfolding own_sessions_def ss by (auto intro!: image_eqI [of _ _ r])
    ultimately show ?thesis using find_by_key [of cs_id "own_sessions a ss" ?r] r by simp
  qed
  ultimately show ?thesis using assms(2,4) by (simp add: get_session_def memory_load_history history_at_def)
qed

text \<open>
  A question that names the session of another tenant is answered, paid for and metered, and then lost: the
  turn cannot be stored, and the request ends in an error of the database.
\<close>

theorem foreign_session_paid:
  assumes "session_at tid sid (as_sessions st) = None" and "sid \<in> cs_id ` set (as_sessions st)"
    and "do_retrieval E tid q f rr = Inr res"
    and "answer_text E (ask_request E tid uid rid) q (so_hits res) [] (as_gw st) = (g, Inr ans)"
    and "extract_citations ans (so_hits res) 220 = Inr cs"
  shows "ask E tid uid q (Some sid) f rr rid st = (st\<lparr> as_gw := g \<rparr>, Inl (OtherExc ''IntegrityError''))"
  using assms by (simp add: ask_def memory_load_def memory_append_def Let_def)

section \<open>Witnesses\<close>

definition ended_trial :: route_env where
  "ended_trial = \<lparr> ro_tenants = [sample_tenant\<lparr> tn_plan := Some ''trial'', tn_trial := Some 0 \<rparr>],
     ro_ledger_ok = True, ro_audit_ok = True, ro_now = 1, ro_require_byok = False, ro_header_id = None,
     ro_fresh_hex = ''ff'', ro_float_repr = (\<lambda>_. []) \<rparr>"

definition sample_question :: ask_body where
  "sample_question = \<lparr> ab_query = ''q'', ab_session = None, ab_filters = [], ab_stream = False, ab_rerank = False \<rparr>"

theorem refused_ask_free_witness:
  "\<exists>l e. ask_route ended_trial sample_ask sample_question sample_principal fresh_state = (with_ledger l fresh_state, Inl e) \<and>
     gs_trace (as_gw (with_ledger l fresh_state)) = []"
proof -
  have "\<exists>e. guards ended_trial (ae_gw sample_ask) ''chat'' True sample_principal (gs_ledger (as_gw fresh_state)) =
      (gs_ledger (as_gw fresh_state), Inl e)"
    by (simp add: guards_def require_active_trial_def ended_trial_def sample_principal_def sample_tenant_def
        NEVER_PAYWALLED_def NON_PAID_PLANS_def)
  then obtain e where g: "guards ended_trial (ae_gw sample_ask) ''chat'' True sample_principal
      (gs_ledger (as_gw fresh_state)) = (gs_ledger (as_gw fresh_state), Inl e)" ..
  show ?thesis
    using refused_ask_free [OF g, of sample_question] by (auto simp: fresh_state_def sample_state_def)
qed

definition anns_session :: chat_session where
  "anns_session = \<lparr> cs_id = ''s9'', cs_tenant = ''t1'', cs_user = ''u1'', cs_title = ''secret'',
     cs_history = [\<lparr> tu_role = ''user'', tu_content = ''secret'', tu_ts = 0, tu_citations = None \<rparr>],
     cs_updated = 0 \<rparr>"

definition bob :: principal where
  "bob = sample_principal\<lparr> pp_user_id := ''u2'' \<rparr>"

definition ann_state :: ask_state where
  "ann_state = fresh_state\<lparr> as_sessions := [anns_session] \<rparr>"

theorem session_shared_by_ask_witness:
  "\<exists>st' out. ask sample_ask ''t1'' ''u2'' ''q'' (Some ''s9'') (Some no_filters) False None ann_state = (st', Inr out) \<and>
     get_session ''s9'' bob (as_sessions ann_state) = Inl (HTTPError 404 ''session not found'') \<and>
     snd (memory_load ''s1'' ''t1'' (Some ''s9'') (as_sessions ann_state)) =
       [\<lparr> msg_role = ''user'', msg_content = ''secret'' \<rparr>]"
proof -
  have st: "as_gw ann_state = sample_state" "distinct (map cs_id (as_sessions ann_state))"
    "session_at (pp_tenant_id sample_principal) ''s9'' (as_sessions ann_state) = Some anns_session"
    "cs_user anns_session = pp_user_id sample_principal"
    "pp_tenant_id bob = pp_tenant_id sample_principal" "pp_user_id bob \<noteq> pp_user_id sample_principal"
    "pp_tenant_id bob = ''t1''" "pp_user_id bob = ''u2''"
    by (simp_all add: ann_state_def fresh_state_def session_at_def anns_session_def sample_principal_def bob_def)
  have "\<exists>ss. memory_append MAX_TURNS 5 ''t1'' (fst (memory_load ''s1'' ''t1'' (Some ''s9'') (as_sessions ann_state))) ''u2'' ''q''
      ''Yes [1]. No [2].'' cs (as_sessions ann_state) = Inr ss" for cs
    by (simp add: memory_load_history) (simp add: memory_append_def session_at_def ann_state_def anns_session_def)
  then obtain st' out where r: "ask sample_ask ''t1'' ''u2'' ''q'' (Some ''s9'') (Some no_filters) False None ann_state =
      (st', Inr out)"
    using sample_ask_answers [where st = ann_state and sid = "Some ''s9''" and uid = "''u2''"] by blast
  have "get_session ''s9'' bob (as_sessions ann_state) = Inl (HTTPError 404 ''session not found'')"
    "snd (memory_load (ae_fresh sample_ask) (pp_tenant_id bob) (Some ''s9'') (as_sessions ann_state)) =
      map (\<lambda>m. \<lparr> msg_role = tu_role m, msg_content = tu_content m \<rparr>) (cs_history anns_session)"
    using session_shared_by_ask [OF st(2-6), of sample_ask "''q''" "Some no_filters" False None st' out] r st(7,8)
    by simp_all
  then show ?thesis using r st(7) by (simp add: anns_session_def memory_load_history)
qed

definition foreign_state :: ask_state where
  "foreign_state = fresh_state\<lparr> as_sessions := [anns_session\<lparr> cs_tenant := ''t2'' \<rparr>] \<rparr>"

theorem foreign_session_paid_witness:
  "\<exists>g. ask sample_ask ''t1'' ''u1'' ''q'' (Some ''s9'') (Some no_filters) False None foreign_state =
     (foreign_state\<lparr> as_gw := g \<rparr>, Inl (OtherExc ''IntegrityError''))"
proof -
  have f: "session_at ''t1'' ''s9'' (as_sessions foreign_state) = None" "''s9'' \<in> cs_id ` set (as_sessions foreign_state)"
    "as_gw foreign_state = sample_state"
    by (simp_all add: foreign_state_def fresh_state_def session_at_def anns_session_def)
  obtain res g cs where t: "do_retrieval sample_ask ''t1'' ''q'' (Some no_filters) False = Inr res"
    "answer_text sample_ask (ask_request sample_ask ''t1'' ''u1'' None) ''q'' (so_hits res) [] sample_state =
       (g, Inr ''Yes [1]. No [2].'')"
    "extract_citations ''Yes [1]. No [2].'' (so_hits res) 220 = Inr cs"
    using sample_turn [of "''u1''" "[]" sample_state] by (elim exE conjE)
  show ?thesis using foreign_session_paid [OF f(1,2) t(1)] t(2,3) f(3) by auto
qed

end
