(* ===== verification/JsonText.thy ===== *)
theory JsonText
  imports PyValues
begin

text \<open>
  \<open>json.loads\<close>: the decoder of the standard library on Latin-1 text, as the services apply it to the replies
  of language models.  White space is blank, tab, line feed and carriage return; control characters inside strings
  are refused; of two equal keys the later value stays in the place of the first; \<open>NaN\<close> and the infinities are
  numbers.  A character given by an escape outside Latin-1 is read as the substitute character 0x1A.  Text that
  is not JSON raises \<open>JSONDecodeError\<close>; a number of more than 4300 digits raises \<open>ValueError\<close>.
\<close>

definition decode_error :: exn where
  "decode_error = OtherExc ''JSONDecodeError''"

definition is_ws :: "char \<Rightarrow> bool" where
  "is_ws c = (c = CHR '' '' \<or> code c = 9 \<or> code c = 10 \<or> code c = 13)"

definition skip_ws :: "string \<Rightarrow> string" where
  "skip_ws s = dropWhile is_ws s"

section \<open>Strings\<close>

definition hex_val :: "char \<Rightarrow> nat option" where
  "hex_val c =
     (let n = code c in
       if 48 \<le> n \<and> n \<le> 57 then Some (n - 48)
       else if 97 \<le> n \<and> n \<le> 102 then Some (n - 87)
       else if 65 \<le> n \<and> n \<le> 70 then Some (n - 55) else None)"

definition hex4 :: "string \<Rightarrow> nat option" where
  "hex4 s =
     (case map hex_val (take 4 s) of
        [Some a, Some b, Some c, Some d] \<Rightarrow> Some (4096 * a + 256 * b + 16 * c + d)
      | _ \<Rightarrow> None)"

definition code_point :: "nat \<Rightarrow> char" where
  "code_point n = (if n < 256 then char_of n else CHR 0x1A)"

definition escape_of :: "char \<Rightarrow> char option" where
  "escape_of c =
     (if c = CHR 0x22 \<or> c = CHR 0x5C \<or> c = CHR ''/'' then Some c
      else if c = CHR ''b'' then Some (CHR 0x08)
      else if c = CHR ''f'' then Some (CHR 0x0C)
      else if c = CHR ''n'' then Some (CHR 0x0A)
      else if c = CHR ''r'' then Some (CHR 0x0D)
      else if c = CHR ''t'' then Some (CHR 0x09) else None)"

text \<open>A high surrogate followed by the escape of a low one is one character.\<close>

definition pair_follows :: "nat \<Rightarrow> string \<Rightarrow> bool" where
  "pair_follows n s =
     (0xD800 \<le> n \<and> n \<le> 0xDBFF \<and> startswith [CHR 0x5C, CHR ''u''] s \<and>
      (case hex4 (drop 2 s) of None \<Rightarrow> False | Some m \<Rightarrow> 0xDC00 \<le> m \<and> m \<le> 0xDFFF))"

text \<open>The rest of a string after its opening quote.\<close>

fun parse_string :: "string \<Rightarrow> exn + (string \<times> string)" where
  "parse_string [] = Inl decode_error"
| "parse_string (c # s) =
     (if c = CHR 0x22 then Inr ([], s)
      else if code c < 32 then Inl decode_error
      else if c \<noteq> CHR 0x5C then try_bind (parse_string s) (\<lambda>(t, r). Inr (c # t, r))
      else case s of
        [] \<Rightarrow> Inl decode_error
      | e # s' \<Rightarrow>
          if e = CHR ''u''
          then (case hex4 s' of
              None \<Rightarrow> Inl decode_error
            | Some k \<Rightarrow>
                let r = (if pair_follows k (drop 4 s') then drop 10 s' else drop 4 s') in
                try_bind (parse_string r) (\<lambda>(t, r'). Inr (code_point k # t, r')))
          else (case escape_of e of
              None \<Rightarrow> Inl decode_error
            | Some x \<Rightarrow> try_bind (parse_string s') (\<lambda>(t, r). Inr (x # t, r))))"

section \<open>Numbers\<close>

text \<open>The digits of an optional fraction or exponent; nothing is consumed unless a digit follows.\<close>

definition split_fraction :: "string \<Rightarrow> string \<times> string" where
  "split_fraction s =
     (case s of
        c # s' \<Rightarrow> if c = CHR ''.'' \<and> takeWhile is_digit s' \<noteq> []
          then (takeWhile is_digit s', dropWhile is_digit s') else ([], s)
      | [] \<Rightarrow> ([], s))"

definition split_exponent :: "string \<Rightarrow> string \<times> string" where
  "split_exponent s =
     (case s of
        c # s' \<Rightarrow>
          if c = CHR ''e'' \<or> c = CHR ''E''
          then (let sgn = takeWhile (\<lambda>x. x = CHR ''+'' \<or> x = CHR ''-'') (take 1 s'); t = drop (length sgn) s' in
            if takeWhile is_digit t \<noteq> [] then (sgn @ takeWhile is_digit t, dropWhile is_digit t) else ([], s))
          else ([], s)
      | [] \<Rightarrow> ([], s))"

definition number_value :: "bool \<Rightarrow> string \<Rightarrow> string \<Rightarrow> string \<Rightarrow> exn + json" where
  "number_value neg ds fr ex =
     (let sg = (if neg then -1 else 1 :: int) in
       if fr = [] \<and> ex = []
       then (if length ds > 4300 then Inl (PyExc ValueError)
             else case digits_of ds of None \<Rightarrow> Inl decode_error | Some i \<Rightarrow> Inr (JInt (sg * i)))
       else (case (digits_of (ds @ fr), if ex = [] then Some 0 else exponent ex) of
           (Some m, Some e) \<Rightarrow>
             (case to_float (scale10 (of_int (sg * m)) (e - int (length fr))) of
                Fin x \<Rightarrow> Inr (decimal_json (nat (max 1 (int (length fr) - e))) x)
              | y \<Rightarrow> Inr (JFloat y (if neg then ''-inf'' else ''inf'')))
         | _ \<Rightarrow> Inl decode_error))"

definition parse_digits :: "bool \<Rightarrow> string \<Rightarrow> exn + (json \<times> string)" where
  "parse_digits neg t =
     (case t of
        [] \<Rightarrow> Inl decode_error
      | c # t' \<Rightarrow>
          if \<not> is_digit c then Inl decode_error
          else
            let ds = (if c = CHR ''0'' then [c] else takeWhile is_digit t) in
            (case split_fraction (drop (length ds) t) of (fr, r1) \<Rightarrow>
              (case split_exponent r1 of (ex, r2) \<Rightarrow>
                try_bind (number_value neg ds fr ex) (\<lambda>v. Inr (v, r2)))))"

definition parse_number :: "string \<Rightarrow> exn + (json \<times> string)" where
  "parse_number s =
     (if startswith ''-Infinity'' s then Inr (JFloat NegInf ''-inf'', drop 9 s)
      else if startswith ''-'' s then parse_digits True (drop 1 s) else parse_digits False s)"

section \<open>Values\<close>

text \<open>The fuel bounds the nesting and the number of elements; twice the length of the text is enough.\<close>

fun parse_value :: "nat \<Rightarrow> string \<Rightarrow> exn + (json \<times> string)"
  and parse_elements :: "nat \<Rightarrow> string \<Rightarrow> exn + (json list \<times> string)"
  and parse_members :: "nat \<Rightarrow> jdict \<Rightarrow> string \<Rightarrow> exn + (jdict \<times> string)" where
  "parse_value 0 s = Inl decode_error"
| "parse_value (Suc n) s =
     (case s of
        [] \<Rightarrow> Inl decode_error
      | c # t \<Rightarrow>
          if c = CHR 0x22 then try_bind (parse_string t) (\<lambda>(x, r). Inr (JStr x, r))
          else if c = CHR ''{'' then
            (if startswith ''}'' (skip_ws t) then Inr (JObj [], drop 1 (skip_ws t))
             else try_bind (parse_members n [] (skip_ws t)) (\<lambda>(d, r). Inr (JObj d, r)))
          else if c = CHR ''['' then
            (if startswith '']'' (skip_ws t) then Inr (JList [], drop 1 (skip_ws t))
             else try_bind (parse_elements n (skip_ws t)) (\<lambda>(xs, r). Inr (JList xs, r)))
          else if startswith ''null'' s then Inr (JNull, drop 4 s)
          else if startswith ''true'' s then Inr (JBool True, drop 4 s)
          else if startswith ''false'' s then Inr (JBool False, drop 5 s)
          else if startswith ''NaN'' s then Inr (JFloat NaN ''nan'', drop 3 s)
          else if startswith ''Infinity'' s then Inr (JFloat PosInf ''inf'', drop 8 s)
          else parse_number s)"
| "parse_elements 0 s = Inl decode_error"
| "parse_elements (Suc n) s =
     try_bind (parse_value n s) (\<lambda>(v, r).
       case skip_ws r of
         c # r' \<Rightarrow>
           if c = CHR '']'' then Inr ([v], r')
           else if c = CHR '','' then try_bind (parse_elements n (skip_ws r')) (\<lambda>(vs, r''). Inr (v # vs, r''))
           else Inl decode_error
       | [] \<Rightarrow> Inl decode_error)"
| "parse_members 0 d s = Inl decode_error"
| "parse_members (Suc n) d s =
     (if \<not> startswith [CHR 0x22] s then Inl decode_error
      else try_bind (parse_string (drop 1 s)) (\<lambda>(k, r).
        if \<not> startswith '':'' (skip_ws r) then Inl decode_error
        else try_bind (parse_value n (skip_ws (drop 1 (skip_ws r)))) (\<lambda>(v, r2).
          case skip_ws r2 of
            c # r3 \<Rightarrow>
              if c = CHR ''}'' then Inr (dset d k v, r3)
              else if c = CHR '','' then parse_members n (dset d k v) (skip_ws r3)
              else Inl decode_error
          | [] \<Rightarrow> Inl decode_error)))"

definition json_loads :: "string \<Rightarrow> exn + json" where
  "json_loads s =
     try_bind (parse_value (2 * length s + 1) (skip_ws s)) (\<lambda>(v, r).
       if skip_ws r = [] then Inr v else Inl decode_error)"

section \<open>The fuel is enough\<close>

lemma skip_ws_le: "length (skip_ws s) \<le> length s"
  by (simp add: skip_ws_def length_dropWhile_le)

lemma parse_string_le: "parse_string s = Inr (t, r) \<Longrightarrow> length r < length s"
proof (induction s arbitrary: t r rule: parse_string.induct)
  case (2 c s)
  show ?case
  proof (cases "c = CHR 0x22 \<or> code c < 32 \<or> c \<noteq> CHR 0x5C")
    case True
    then show ?thesis using "2.prems" "2.IH"(1) by (fastforce simp: try_bind_eq_Inr split: if_splits)
  next
    case False
    then obtain e s' where s: "s = e # s'" using "2.prems" by (cases s) auto
    show ?thesis
    proof (cases "e = CHR ''u''")
      case True
      then obtain k where k: "hex4 s' = Some k" using "2.prems" False s by (cases "hex4 s'") auto
      show ?thesis
        using "2.prems" "2.IH"(2) [OF _ _ _ s True k refl] False s True k
        by (fastforce simp: Let_def try_bind_eq_Inr split: if_splits)
    next
      case e: False
      then obtain x where "escape_of e = Some x" using "2.prems" False s by (cases "escape_of e") auto
      then show ?thesis
        using "2.prems" "2.IH"(3) [OF _ _ _ s e] False s e by (fastforce simp: try_bind_eq_Inr)
    qed
  qed
qed simp

lemma split_fraction_le: "split_fraction s = (f, r) \<Longrightarrow> length r \<le> length s"
  by (auto simp: split_fraction_def length_dropWhile_le le_SucI split: list.splits if_splits)

lemma split_exponent_le: "split_exponent s = (f, r) \<Longrightarrow> length r \<le> length s"
proof -
  have "length (dropWhile is_digit (drop k s')) \<le> Suc (length s')" for k s'
    using length_dropWhile_le [of is_digit "drop k s'"] by simp
  then show "split_exponent s = (f, r) \<Longrightarrow> length r \<le> length s"
    by (auto simp: split_exponent_def Let_def split: list.splits if_splits)
qed

lemma parse_digits_le:
  assumes "parse_digits neg t = Inr (v, r)"
  shows "length r < length t"
proof (cases t)
  case (Cons c t')
  have d: "is_digit c" using assms Cons by (auto simp: parse_digits_def split: if_splits)
  let ?ds = "if c = CHR ''0'' then [c] else takeWhile is_digit t"
  have "length (drop (length ?ds) t) < length t" using d Cons by auto
  moreover obtain fr r1 where f: "split_fraction (drop (length ?ds) t) = (fr, r1)" by fastforce
  moreover obtain ex r2 where e: "split_exponent r1 = (ex, r2)" by fastforce
  ultimately have "length r2 < length t"
    using split_fraction_le [OF f] split_exponent_le [OF e] by linarith
  moreover have "r = r2" using assms d f e unfolding parse_digits_def Cons
    by (auto simp: Let_def try_bind_eq_Inr split: if_splits)
  ultimately show ?thesis by simp
qed (use assms in \<open>simp add: parse_digits_def\<close>)

lemma parse_number_le: "parse_number s = Inr (v, r) \<Longrightarrow> length r < length s"
  using parse_digits_le [of True "drop 1 s" v r] parse_digits_le [of False s v r]
  by (cases s) (auto simp: parse_number_def startswith_def split: if_splits)

lemma drop_skip_le: "length (drop k (skip_ws r)) \<le> length r"
  using skip_ws_le [of r] by simp

lemma skip_Cons_le: "skip_ws r = c # r' \<Longrightarrow> length r' < length r"
  using skip_ws_le [of r] by simp

lemma parse_le:
  "(\<forall>s v r. parse_value n s = Inr (v, r) \<longrightarrow> length r < length s) \<and>
   (\<forall>s v r. parse_elements n s = Inr (v, r) \<longrightarrow> length r < length s) \<and>
   (\<forall>d s v r. parse_members n d s = Inr (v, r) \<longrightarrow> length r < length s)"
proof (induction n)
  case (Suc n)
  have v: "parse_value n s = Inr (v, r) \<Longrightarrow> length r < length s" for s v r using Suc by blast
  have e: "parse_elements n s = Inr (v, r) \<Longrightarrow> length r < length s" for s v r using Suc by blast
  have m: "parse_members n d s = Inr (v, r) \<Longrightarrow> length r < length s" for d s v r using Suc by blast
  have w: "length (skip_ws s) \<le> length s" for s by (rule skip_ws_le)
  have "length r < length s" if p: "parse_value (Suc n) s = Inr (v, r)" for s v r
  proof (cases s)
    case (Cons c t)
    have num: "parse_number (c # t) = Inr (v, r) \<Longrightarrow> ?thesis" using parse_number_le Cons by blast
    have str: "parse_string t = Inr (x, r) \<Longrightarrow> ?thesis" for x using parse_string_le [of t x r] Cons by simp
    have mem: "parse_members n [] (skip_ws t) = Inr (x, r) \<Longrightarrow> ?thesis" for x
      using m [of "[]" "skip_ws t" x r] w [of t] Cons by simp
    have elt: "parse_elements n (skip_ws t) = Inr (x, r) \<Longrightarrow> ?thesis" for x
      using e [of "skip_ws t" x r] w [of t] Cons by simp
    have less: "r = drop k (skip_ws t) \<Longrightarrow> ?thesis" "r = drop (Suc k) (c # t) \<Longrightarrow> ?thesis" for k
      using drop_skip_le [of k t] Cons by auto
    show ?thesis
      using p num str mem elt less(1) [of 1] less(2) [of 3] less(2) [of 4] less(2) [of 2] less(2) [of 7]
      unfolding Cons by (simp add: try_bind_eq_Inr split: if_splits) auto
  qed (use p in simp)
  moreover have "length r < length s" if p: "parse_elements (Suc n) s = Inr (v, r)" for s v r
  proof -
    obtain x r0 c r1 where a: "parse_value n s = Inr (x, r0)" "skip_ws r0 = c # r1"
    proof -
      obtain x r0 where x: "parse_value n s = Inr (x, r0)" using p by (auto simp: try_bind_eq_Inr)
      then show thesis using p that by (cases "skip_ws r0") (auto simp: try_bind_def)
    qed
    have "length r \<le> length r1"
      using p a e [of "skip_ws r1"] w [of r1] by (fastforce simp: try_bind_eq_Inr split: if_splits)
    then show ?thesis using v [OF a(1)] skip_Cons_le [OF a(2)] by linarith
  qed
  moreover have "length r < length s" if p: "parse_members (Suc n) d s = Inr (v, r)" for d s v r
  proof -
    obtain k r0 x r2 c r3 where a: "parse_string (drop 1 s) = Inr (k, r0)"
      "parse_value n (skip_ws (drop 1 (skip_ws r0))) = Inr (x, r2)" "skip_ws r2 = c # r3"
      "(r = r3 \<or> parse_members n (dset d k x) (skip_ws r3) = Inr (v, r))" "s \<noteq> []"
    proof -
      have s: "startswith [CHR 0x22] s" using p by (simp split: if_splits)
      then have "s \<noteq> []" by (auto simp: startswith_def)
      obtain k r0 where a: "parse_string (drop 1 s) = Inr (k, r0)"
        using p s by (cases "parse_string (drop 1 s)") (auto simp: try_bind_def)
      have c: "startswith '':'' (skip_ws r0)" using p s a by (simp add: try_bind_def split: if_splits)
      obtain x r2 where b: "parse_value n (skip_ws (drop 1 (skip_ws r0))) = Inr (x, r2)"
        using p s a c by (cases "parse_value n (skip_ws (drop 1 (skip_ws r0)))") (auto simp: try_bind_def)
      show thesis
      proof (cases "skip_ws r2")
        case (Cons c' r3)
        then show ?thesis using that [OF a b Cons _ \<open>s \<noteq> []\<close>] p s a b c
          by (simp add: try_bind_def split: if_splits)
      qed (use p s a b c in \<open>simp add: try_bind_def\<close>)
    qed
    have "length r \<le> length r3" using a(4) m [of "dset d k x" "skip_ws r3" v r] w [of r3] by auto
    moreover have "length r3 < length r2" by (rule skip_Cons_le [OF a(3)])
    moreover have "length r2 < length (skip_ws (drop 1 (skip_ws r0)))" by (rule v [OF a(2)])
    moreover have "length (skip_ws (drop 1 (skip_ws r0))) \<le> length r0"
      using w [of "drop 1 (skip_ws r0)"] drop_skip_le [of 1 r0] by linarith
    moreover have "length r0 < length (drop 1 s)" by (rule parse_string_le [OF a(1)])
    ultimately show ?thesis by simp
  qed
  ultimately show ?case by blast
qed simp

text \<open>More fuel changes nothing.\<close>

lemma parse_fuel:
  "(\<forall>s m. 2 * length s < n \<and> n \<le> m \<longrightarrow> parse_value m s = parse_value n s) \<and>
   (\<forall>s m. 2 * length s + 1 < n \<and> n \<le> m \<longrightarrow> parse_elements m s = parse_elements n s) \<and>
   (\<forall>d s m. 2 * length s + 1 < n \<and> n \<le> m \<longrightarrow> parse_members m d s = parse_members n d s)"
proof (induction n)
  case (Suc n)
  have v: "parse_value m s = parse_value n s" if "2 * length s < n" "n \<le> m" for s m using Suc that by blast
  have e: "parse_elements m s = parse_elements n s" if "2 * length s + 1 < n" "n \<le> m" for s m using Suc that by blast
  have b: "parse_members m d s = parse_members n d s" if "2 * length s + 1 < n" "n \<le> m" for d s m
    using Suc that by blast
  have w: "length (skip_ws s) \<le> length s" for s by (rule skip_ws_le)
  have "parse_value m s = parse_value (Suc n) s" if h: "2 * length s < Suc n" "Suc n \<le> m" for s m
  proof (cases s)
    case (Cons c t)
    obtain k where m: "m = Suc k" "n \<le> k" using h(2) by (cases m) auto
    have "parse_elements k (skip_ws t) = parse_elements n (skip_ws t)"
      "parse_members k [] (skip_ws t) = parse_members n [] (skip_ws t)"
      using e [of "skip_ws t" k] b [of "skip_ws t" k "[]"] w [of t] h(1) m(2) Cons by auto
    then show ?thesis by (simp add: Cons m(1))
  qed (use h in \<open>cases m; simp\<close>)
  moreover have "parse_elements m s = parse_elements (Suc n) s" if h: "2 * length s + 1 < Suc n" "Suc n \<le> m" for s m
  proof -
    obtain k where m: "m = Suc k" "n \<le> k" using h(2) by (cases m) auto
    have p: "parse_value k s = parse_value n s" using v [of s k] h(1) m(2) by simp
    have "parse_elements k (skip_ws r1) = parse_elements n (skip_ws r1)"
      if "parse_value n s = Inr (x, r0)" "skip_ws r0 = c # r1" for x r0 c r1
    proof -
      have "length r0 < length s" using parse_le that(1) by blast
      then have "length (skip_ws r1) + 2 \<le> length s" using skip_Cons_le [OF that(2)] w [of r1] by linarith
      then show ?thesis using e [of "skip_ws r1" k] h(1) m(2) by simp
    qed
    then show ?thesis
      by (cases "parse_value n s") (auto simp: m(1) p try_bind_def split: list.split)
  qed
  moreover have "parse_members m d s = parse_members (Suc n) d s"
    if h: "2 * length s + 1 < Suc n" "Suc n \<le> m" for d s m
  proof -
    obtain k where m: "m = Suc k" "n \<le> k" using h(2) by (cases m) auto
    have inner: "length (skip_ws (drop 1 (skip_ws r0))) + 2 \<le> length s"
      if "parse_string (drop 1 s) = Inr (key, r0)" for key r0
      using parse_string_le [OF that] w [of "drop 1 (skip_ws r0)"] drop_skip_le [of 1 r0] by (cases s) auto
    have p: "parse_value k (skip_ws (drop 1 (skip_ws r0))) = parse_value n (skip_ws (drop 1 (skip_ws r0)))"
      if "parse_string (drop 1 s) = Inr (key, r0)" for key r0
      using v [of "skip_ws (drop 1 (skip_ws r0))" k] inner [OF that] h(1) m(2) by simp
    have q: "parse_members k d' (skip_ws r3) = parse_members n d' (skip_ws r3)"
      if "parse_string (drop 1 s) = Inr (key, r0)" "parse_value n (skip_ws (drop 1 (skip_ws r0))) = Inr (x, r2)"
        "skip_ws r2 = c # r3" for key r0 x r2 c r3 d'
    proof -
      have "length r2 < length (skip_ws (drop 1 (skip_ws r0)))" using parse_le that(2) by blast
      then have "length (skip_ws r3) + 2 \<le> length s"
        using inner [OF that(1)] skip_Cons_le [OF that(3)] w [of r3] by linarith
      then show ?thesis using b [of "skip_ws r3" k d'] h(1) m(2) by simp
    qed
    show ?thesis
    proof (cases "parse_string (drop 1 s)")
      case (Inr kr)
      obtain key r0 where kr: "kr = (key, r0)" by (cases kr)
      show ?thesis
        using p [OF Inr [unfolded kr]] q [OF Inr [unfolded kr]]
        by (cases "parse_value n (skip_ws (drop 1 (skip_ws r0)))")
          (auto simp: m(1) Inr kr try_bind_def split: list.split simp del: One_nat_def)
    qed (simp add: m(1) try_bind_def)
  qed
  ultimately show ?case by blast
qed simp

lemma json_loads_fuel:
  assumes "2 * length s < n"
  shows "json_loads s = try_bind (parse_value n (skip_ws s)) (\<lambda>(v, r).
     if skip_ws r = [] then Inr v else Inl decode_error)"
proof -
  have "parse_value (max n (2 * length s + 1)) (skip_ws s) = parse_value n (skip_ws s)"
    "parse_value (max n (2 * length s + 1)) (skip_ws s) = parse_value (2 * length s + 1) (skip_ws s)"
    using parse_fuel skip_ws_le [of s] assms by (auto simp del: parse_value.simps)
  then show ?thesis by (simp add: json_loads_def)
qed

end
