(* ===== verification/RulePacks.thy ===== *)
theory RulePacks
  imports PyPrelude
begin

text \<open>
  The bundled rule packs (\<open>validators/rule_packs.py\<close>): the requirements a document is scored against, and
  the lookup by identifier.  Long dashes of the texts are hyphens here, and the sign for at least is \<open>>=\<close>.
\<close>

record rule_requirement =
  rq_id :: string
  rq_title :: string
  rq_description :: string
  rq_citation :: string
  rq_severity :: string

record rule_pack =
  rp_id :: string
  rp_regulator :: string
  rp_name :: string
  rp_version :: string
  rp_summary :: string
  rp_requirements :: "rule_requirement list"

definition requirement :: "string \<Rightarrow> string \<Rightarrow> string \<Rightarrow> string \<Rightarrow> string \<Rightarrow> rule_requirement" where
  "requirement i t d c s =
     \<lparr> rq_id = i, rq_title = t, rq_description = d, rq_citation = c, rq_severity = s \<rparr>"

definition FCA_CONSUMER_DUTY :: rule_pack where
  "FCA_CONSUMER_DUTY = \<lparr>
     rp_id = ''fca-consumer-duty'',
     rp_regulator = ''fca'',
     rp_name = ''FCA Consumer Duty (PRIN 2A)'',
     rp_version = ''2026.01'',
     rp_summary = (''The FCA's overarching standard for retail conduct: three cross-cutting rules plus four '' @
        ''consumer outcomes. Applies to all firms providing products or services to UK retail '' @
        ''customers.''),
     rp_requirements = [
       requirement ''CD-1'' ''Cross-cutting - Act in good faith''
         (''The document evidences a commitment to acting honestly, fairly, and openly with retail '' @
           ''customers in all interactions, including where the firm's commercial interests might '' @
           ''conflict.'')
         ''FCA Handbook PRIN 2A.2.1R'' ''must'',
       requirement ''CD-2'' ''Cross-cutting - Avoid causing foreseeable harm''
         (''Identifies and mitigates reasonably foreseeable harm to retail customers (including '' @
           ''financial loss, distress, and inconvenience) arising from the firm's products, services, '' @
           ''or conduct.'')
         ''FCA Handbook PRIN 2A.2.8R'' ''must'',
       requirement ''CD-3'' ''Cross-cutting - Enable customer objectives''
         (''Takes reasonable steps to support retail customers in pursuing their financial '' @
           ''objectives, including by removing unreasonable barriers and providing access to '' @
           ''information needed to make informed decisions.'')
         ''FCA Handbook PRIN 2A.2.14R'' ''must'',
       requirement ''CD-4'' ''Products & services outcome''
         (''Products and services are designed to meet the needs, characteristics, and objectives of '' @
           ''a target market of retail customers, and are distributed accordingly.'')
         ''FCA Handbook PRIN 2A.3'' ''must'',
       requirement ''CD-5'' ''Price & value outcome''
         (''Customers receive fair value, with prices that are reasonable relative to the benefits '' @
           ''provided. Includes regular fair-value assessments.'')
         ''FCA Handbook PRIN 2A.4'' ''must'',
       requirement ''CD-6'' ''Consumer understanding outcome''
         (''Communications support customer understanding - equipping them to make effective, '' @
           ''timely, and properly informed decisions about financial products and services.'')
         ''FCA Handbook PRIN 2A.5'' ''must'',
       requirement ''CD-7'' ''Consumer support outcome''
         (''Acts to support retail customers, including throughout the product lifecycle. Customers '' @
           ''can use products as expected (no sludge practices), and post-sale support is at least as '' @
           ''responsive as the sales process.'')
         ''FCA Handbook PRIN 2A.6'' ''must''] \<rparr>"

definition HMRC_AML :: rule_pack where
  "HMRC_AML = \<lparr>
     rp_id = ''hmrc-aml'',
     rp_regulator = ''hmrc'',
     rp_name = ''HMRC AML (MLR 2017 + JMLSG)'',
     rp_version = ''2026.01'',
     rp_summary = (''Core anti-money-laundering obligations under the Money Laundering Regulations 2017 for '' @
        ''firms supervised by HMRC (estate agents, high-value-goods dealers, accountancy, '' @
        ''trust/company services). Also relevant for FCA-supervised firms covering the same '' @
        ''ground.''),
     rp_requirements = [
       requirement ''AML-1'' ''Written risk assessment''
         (''A documented, board-approved AML risk assessment covering customer, geographic, '' @
           ''product/service, transaction, and delivery-channel risks. Reviewed at least annually.'')
         ''MLR 2017 reg.18'' ''must'',
       requirement ''AML-2'' ''Customer Due Diligence (CDD)''
         (''Standard CDD procedures: identify the customer, verify identity from reliable '' @
           ''independent sources, identify beneficial owners (>=25% ownership), and understand the '' @
           ''nature/purpose of the business relationship.'')
         ''MLR 2017 reg.28'' ''must'',
       requirement ''AML-3'' ''Enhanced Due Diligence (EDD)''
         (''EDD applied to high-risk relationships: high-risk third countries, PEPs, complex/unusual '' @
           ''transactions with no economic purpose, and where the firm's risk assessment indicates '' @
           ''elevated risk.'')
         ''MLR 2017 reg.33'' ''must'',
       requirement ''AML-4'' ''PEP and sanctions screening''
         (''Customers, beneficial owners, and counterparties are screened against PEP lists and '' @
           ''UK/UN/EU sanctions lists at onboarding and on an ongoing basis.'')
         ''MLR 2017 reg.35; UK sanctions regime'' ''must'',
       requirement ''AML-5'' ''Ongoing monitoring''
         (''The firm monitors customer relationships and transactions on an ongoing basis, including '' @
           ''reviewing the consistency of transactions with the firm's knowledge of the customer.'')
         ''MLR 2017 reg.28(11)'' ''must'',
       requirement ''AML-6'' ''Record-keeping (5-year minimum)''
         (''CDD records, transaction records, and SAR-related documents retained for at least five '' @
           ''years after the end of the business relationship or the date of the transaction.'')
         ''MLR 2017 reg.40'' ''must'',
       requirement ''AML-7'' ''SAR reporting and tipping-off''
         (''Documented process for raising internal suspicious activity reports, escalating to the '' @
           ''MLRO, and onward reporting to the NCA. Staff trained on the tipping-off offence.'')
         ''POCA 2002 s.330-333; MLR 2017 reg.86'' ''must'',
       requirement ''AML-8'' ''MLRO appointed and trained''
         (''A named Money Laundering Reporting Officer appointed at board level (or equivalent) with '' @
           ''sufficient seniority, independence, and resources. Staff receive periodic AML training '' @
           ''appropriate to their role.'')
         ''MLR 2017 reg.21'' ''must''] \<rparr>"

definition UK_GDPR :: rule_pack where
  "UK_GDPR = \<lparr>
     rp_id = ''uk-gdpr'',
     rp_regulator = ''ico'',
     rp_name = ''UK GDPR (data protection essentials)'',
     rp_version = ''2026.01'',
     rp_summary = (''The data-protection principles, lawful bases, transparency, data-subject rights, and '' @
        ''breach obligations under the UK GDPR (as amended) and the Data Protection Act 2018. '' @
        ''Enforced by the ICO.''),
     rp_requirements = [
       requirement ''GDPR-1'' ''Lawful basis documented''
         (''Each processing activity has a clearly identified lawful basis (consent, contract, legal '' @
           ''obligation, vital interests, public task, or legitimate interests), documented in a '' @
           ''record of processing activities (RoPA).'')
         ''UK GDPR Art.6; Art.30'' ''must'',
       requirement ''GDPR-2'' ''Purpose limitation & data minimisation''
         (''Personal data collected only for specified, explicit, and legitimate purposes; '' @
           ''processing is adequate, relevant, and limited to what is necessary for those purposes.'')
         ''UK GDPR Art.5(1)(b)-(c)'' ''must'',
       requirement ''GDPR-3'' ''Retention schedule''
         (''Documented retention schedule defines how long each category of personal data is kept '' @
           ''and the criteria used to determine the period. Data deleted or anonymised at end of '' @
           ''retention.'')
         ''UK GDPR Art.5(1)(e)'' ''must'',
       requirement ''GDPR-4'' ''Security of processing''
         (''Appropriate technical and organisational measures protect personal data against '' @
           ''accidental or unlawful destruction, loss, alteration, unauthorised disclosure, or '' @
           ''access. Includes encryption, access control, and resilience measures.'')
         ''UK GDPR Art.32'' ''must'',
       requirement ''GDPR-5'' ''Transparency / privacy notice''
         (''Data subjects receive clear, plain-language information about the controller, purposes, '' @
           ''lawful basis, recipients, retention periods, their rights, and international transfers '' @
           ''(Art.13/14).'')
         ''UK GDPR Art.13-14'' ''must'',
       requirement ''GDPR-6'' ''Data-subject rights process''
         (''Documented procedures handle SARs, rectification, erasure, restriction, portability, and '' @
           ''objection requests within one calendar month (extendable by two months for complex '' @
           ''requests).'')
         ''UK GDPR Art.15-22'' ''must'',
       requirement ''GDPR-7'' ''International transfer safeguards''
         (''Transfers outside the UK rely on an adequacy decision, International Data Transfer '' @
           ''Agreement (IDTA), UK Addendum to the EU SCCs, or another Art.46 safeguard, with a '' @
           ''transfer risk assessment where required.'')
         ''UK GDPR Chapter V'' ''must'',
       requirement ''GDPR-8'' ''Breach notification (72-hour rule)''
         (''Personal-data breaches likely to result in a risk to individuals are reported to the ICO '' @
           ''within 72 hours of the controller becoming aware; high-risk breaches also notified to '' @
           ''affected individuals without undue delay.'')
         ''UK GDPR Art.33-34'' ''must''] \<rparr>"

definition UK_DEBT_COLLECTIONS_LETTER :: rule_pack where
  "UK_DEBT_COLLECTIONS_LETTER = \<lparr>
     rp_id = ''uk-debt-collections-letter'',
     rp_regulator = ''fca'',
     rp_name = ''UK Collections Letter Compliance (CONC + Consumer Duty)'',
     rp_version = ''2026.01'',
     rp_summary = (''Per-letter compliance check for FCA-authorised debt purchasers and collectors. Targets '' @
        ''the CONC 7 consumer-credit collections rules, Consumer Duty cross-cutting obligations, '' @
        ''and DISP complaint-handling signposts. Intended to triage outgoing letters before send '' @
        ''and to evidence good-outcome decisions to the FCA.''),
     rp_requirements = [
       requirement ''CL-1'' ''Firm identification and FCA reference''
         (''The letter clearly identifies the firm sending it (registered name) and provides the '' @
           ''firm's FCA Firm Reference Number (FRN), so the recipient can verify the firm's '' @
           ''authorisation.'')
         ''FCA Handbook CONC 7.9.4R; GEN 4.3.1R'' ''must'',
       requirement ''CL-2'' ''Free debt advice signposting''
         (''The letter signposts the customer to free, impartial debt advice (e.g. MoneyHelper, '' @
           ''StepChange, National Debtline, Citizens Advice) with sufficient information for the '' @
           ''customer to access that advice.'')
         ''FCA Handbook CONC 7.9.10R; CONC 7.17.4R'' ''must'',
       requirement ''CL-3'' ''No threatening or coercive language''
         (''The letter does not use language that is threatening, intimidating, oppressive, or '' @
           ''designed to create unwarranted anxiety. Wording is firm but proportionate.'')
         ''FCA Handbook CONC 7.9.5G; CONC 7.9.6G'' ''must'',
       requirement ''CL-4'' ''Clear breakdown of debt''
         (''The letter sets out a clear breakdown of the amount owed: original principal, accrued '' @
           ''interest, charges, and the current total balance. Where the debt has been assigned, the '' @
           ''original creditor is identified.'')
         ''FCA Handbook CONC 7.5.3R'' ''must'',
       requirement ''CL-5'' ''Complaints procedure and FOS referral''
         (''The letter explains how the customer can complain to the firm and references the '' @
           ''customer's right to escalate to the Financial Ombudsman Service if dissatisfied with the '' @
           ''response.'')
         ''FCA Handbook DISP 1.2.1R; DISP 1.6.2R'' ''must'',
       requirement ''CL-6'' ''Accommodation of vulnerable customers''
         (''The letter acknowledges customers in vulnerable circumstances and offers a route for the '' @
           ''customer to disclose vulnerability or request adjustments (e.g. alternative formats, '' @
           ''additional time, third-party contact).'')
         ''FCA Handbook CONC 1.3.7R; FG21/1 (Vulnerable Customers)'' ''must'',
       requirement ''CL-7'' ''Forbearance and repayment options offered''
         (''The letter invites the customer to discuss repayment difficulties and indicates that the '' @
           ''firm will consider appropriate forbearance options (affordable repayment plans, '' @
           ''interest/charge freezes, temporary holds).'')
         ''FCA Handbook CONC 7.3.4R; CONC 7.3.5G; CONC 7.7.4R'' ''must'',
       requirement ''CL-8'' ''No undue time pressure''
         (''The letter does not impose arbitrarily short response deadlines or create undue urgency '' @
           ''that could pressure the customer into a hasty decision.'')
         ''FCA Handbook CONC 7.9.6G'' ''must'',
       requirement ''CL-9'' ''Consumer Duty consumer-understanding outcome''
         (''The letter is written in clear, plain English appropriate to the target customer, avoids '' @
           ''legal or industry jargon without explanation, and equips the customer to make an '' @
           ''informed decision about how to respond.'')
         ''FCA Handbook PRIN 2A.5 (Consumer understanding)'' ''must'',
       requirement ''CL-10'' ''Multiple accessible contact channels''
         (''The letter offers more than one way for the customer to make contact (e.g. phone, email, '' @
           ''post, secure online portal) and states accessible hours, supporting customers who may '' @
           ''not be able to use one channel.'')
         ''FCA Handbook PRIN 2A.6 (Consumer support); CONC 7.9.4R'' ''should'',
       requirement ''CL-11'' ''Statute-barred status warning (where applicable)''
         (''Where the debt is or may be statute-barred under the Limitation Act 1980, the letter '' @
           ''makes the customer aware of this and does not mislead them into making an acknowledgment '' @
           ''that would restart the limitation period.'')
         ''FCA Handbook CONC 7.15.4R; CONC 7.15.8R'' ''must'',
       requirement ''CL-12'' ''Assignment notice for purchased debt''
         (''If the debt has been assigned to a third party (purchased), the letter contains a clear '' @
           ''notice of assignment identifying the original creditor and the assignee, in line with '' @
           ''Law of Property Act 1925 s.136 requirements.'')
         ''FCA Handbook CONC 6.5.2R; Law of Property Act 1925 s.136'' ''should''] \<rparr>"


definition PACK_REGISTRY :: "rule_pack list" where
  "PACK_REGISTRY = [FCA_CONSUMER_DUTY, HMRC_AML, UK_GDPR, UK_DEBT_COLLECTIONS_LETTER]"

definition list_packs :: "rule_pack list" where
  "list_packs = PACK_REGISTRY"

definition get_pack :: "string \<Rightarrow> rule_pack option" where
  "get_pack i = find (\<lambda>p. rp_id p = strip (lower i)) PACK_REGISTRY"

section \<open>Properties\<close>

lemma requirement_simps:
  "rq_id (requirement i t d c s) = i" "rq_title (requirement i t d c s) = t"
  "rq_description (requirement i t d c s) = d" "rq_citation (requirement i t d c s) = c"
  "rq_severity (requirement i t d c s) = s"
  by (simp_all add: requirement_def)

definition requirement_ok :: "rule_requirement \<Rightarrow> bool" where
  "requirement_ok r \<longleftrightarrow> (rq_severity r = ''must'' \<or> rq_severity r = ''should'') \<and> rq_title r \<noteq> [] \<and>
     rq_description r \<noteq> [] \<and> rq_citation r \<noteq> []"

lemma requirement_ok_intro:
  "s = ''must'' \<or> s = ''should'' \<Longrightarrow> t \<noteq> [] \<Longrightarrow> d \<noteq> [] \<Longrightarrow> c \<noteq> [] \<Longrightarrow> requirement_ok (requirement i t d c s)"
  by (simp add: requirement_ok_def requirement_simps)

lemmas text_simps = append_is_Nil_conv list.distinct simp_thms

definition pack_ok :: "rule_pack \<Rightarrow> bool" where
  "pack_ok p \<longleftrightarrow> rp_requirements p \<noteq> [] \<and> distinct (map rq_id (rp_requirements p)) \<and>
     list_all requirement_ok (rp_requirements p)"

lemma FCA_CONSUMER_DUTY_facts:
  "rp_id FCA_CONSUMER_DUTY = ''fca-consumer-duty''"
  "map rq_id (rp_requirements FCA_CONSUMER_DUTY) =
     [''CD-1'', ''CD-2'', ''CD-3'', ''CD-4'', ''CD-5'', ''CD-6'', ''CD-7'']"
  "list_all requirement_ok (rp_requirements FCA_CONSUMER_DUTY)"
  unfolding FCA_CONSUMER_DUTY_def rule_pack.select_convs
  by (simp_all only: list.map requirement_simps list.pred_inject requirement_ok_intro text_simps)

lemma HMRC_AML_facts:
  "rp_id HMRC_AML = ''hmrc-aml''"
  "map rq_id (rp_requirements HMRC_AML) =
     [''AML-1'', ''AML-2'', ''AML-3'', ''AML-4'', ''AML-5'', ''AML-6'', ''AML-7'', ''AML-8'']"
  "list_all requirement_ok (rp_requirements HMRC_AML)"
  unfolding HMRC_AML_def rule_pack.select_convs
  by (simp_all only: list.map requirement_simps list.pred_inject requirement_ok_intro text_simps)

lemma UK_GDPR_facts:
  "rp_id UK_GDPR = ''uk-gdpr''"
  "map rq_id (rp_requirements UK_GDPR) =
     [''GDPR-1'', ''GDPR-2'', ''GDPR-3'', ''GDPR-4'', ''GDPR-5'', ''GDPR-6'', ''GDPR-7'', ''GDPR-8'']"
  "list_all requirement_ok (rp_requirements UK_GDPR)"
  unfolding UK_GDPR_def rule_pack.select_convs
  by (simp_all only: list.map requirement_simps list.pred_inject requirement_ok_intro text_simps)

lemma UK_DEBT_COLLECTIONS_LETTER_facts:
  "rp_id UK_DEBT_COLLECTIONS_LETTER = ''uk-debt-collections-letter''"
  "map rq_id (rp_requirements UK_DEBT_COLLECTIONS_LETTER) =
     [''CL-1'', ''CL-2'', ''CL-3'', ''CL-4'', ''CL-5'', ''CL-6'', ''CL-7'', ''CL-8'', ''CL-9'', ''CL-10'', ''CL-11'', ''CL-12'']"
  "list_all requirement_ok (rp_requirements UK_DEBT_COLLECTIONS_LETTER)"
  unfolding UK_DEBT_COLLECTIONS_LETTER_def rule_pack.select_convs
  by (simp_all only: list.map requirement_simps list.pred_inject requirement_ok_intro text_simps)

lemma registry_ids: "map rp_id PACK_REGISTRY = [''fca-consumer-duty'', ''hmrc-aml'', ''uk-gdpr'', ''uk-debt-collections-letter'']"
  by (simp only: PACK_REGISTRY_def list.map FCA_CONSUMER_DUTY_facts HMRC_AML_facts UK_GDPR_facts
      UK_DEBT_COLLECTIONS_LETTER_facts)

lemma pack_okI: "map rq_id (rp_requirements p) = ids \<Longrightarrow> distinct ids \<and> ids \<noteq> [] \<Longrightarrow>
    list_all requirement_ok (rp_requirements p) \<Longrightarrow> pack_ok p"
  by (auto simp: pack_ok_def)

lemma registry_ok: "list_all pack_ok PACK_REGISTRY"
proof -
  have "pack_ok FCA_CONSUMER_DUTY"
    by (rule pack_okI [OF FCA_CONSUMER_DUTY_facts(2) _ FCA_CONSUMER_DUTY_facts(3)]) code_simp
  moreover have "pack_ok HMRC_AML"
    by (rule pack_okI [OF HMRC_AML_facts(2) _ HMRC_AML_facts(3)]) code_simp
  moreover have "pack_ok UK_GDPR"
    by (rule pack_okI [OF UK_GDPR_facts(2) _ UK_GDPR_facts(3)]) code_simp
  moreover have "pack_ok UK_DEBT_COLLECTIONS_LETTER"
    by (rule pack_okI [OF UK_DEBT_COLLECTIONS_LETTER_facts(2) _ UK_DEBT_COLLECTIONS_LETTER_facts(3)]) code_simp
  ultimately show ?thesis by (simp add: PACK_REGISTRY_def)
qed

lemma get_pack_iff: "get_pack i = Some p \<longleftrightarrow> p \<in> set PACK_REGISTRY \<and> strip (lower i) = rp_id p"
proof
  assume "get_pack i = Some p"
  then have "p \<in> set PACK_REGISTRY \<and> rp_id p = strip (lower i)" unfolding get_pack_def find_Some_iff by auto
  then show "p \<in> set PACK_REGISTRY \<and> strip (lower i) = rp_id p" by simp
next
  assume p: "p \<in> set PACK_REGISTRY \<and> strip (lower i) = rp_id p"
  have "distinct (map rp_id PACK_REGISTRY)" unfolding registry_ids by simp
  then show "get_pack i = Some p" using p find_by_key [of rp_id PACK_REGISTRY p] by (simp add: get_pack_def)
qed

lemma registry_lower: "p \<in> set PACK_REGISTRY \<Longrightarrow> strip (lower (rp_id p)) = rp_id p"
proof -
  have "list_all (\<lambda>i. strip (lower i) = i) (map rp_id PACK_REGISTRY)" unfolding registry_ids by code_simp
  then show "p \<in> set PACK_REGISTRY \<Longrightarrow> strip (lower (rp_id p)) = rp_id p" by (auto simp: list_all_iff)
qed

text \<open>
  Every bundled pack is found under its identifier in any case and with blanks around it, by no other name, and is
  well formed: requirements with distinct identifiers, texts and a known severity.
\<close>

theorem packs_found:
  "(p \<in> set list_packs \<longleftrightarrow> get_pack (rp_id p) = Some p) \<and>
   (get_pack i = Some p \<longleftrightarrow> p \<in> set list_packs \<and> strip (lower i) = rp_id p) \<and>
   list_all pack_ok list_packs"
  using registry_ok registry_lower by (auto simp: list_packs_def get_pack_iff)

end
