(* ===== verification/Validators.thy ===== *)
theory Validators
  imports RulePacks AskRoutes IngestPipeline JsonText
begin

text \<open>
  The validators: the traffic light over the claims of a report (\<open>validators/pipeline.py\<close>), the score of a document
  against a rule pack (\<open>validators/rule_pack_validator.py\<close>), and the routes over them
  (\<open>api/routes/validators.py\<close>).  The model is the adapter the service holds; its replies are arbitrary text.
  Long dashes and the en dash are hyphens.
\<close>

section \<open>Replies\<close>

text \<open>\<open>str.isdigit\<close> on Latin-1 text, which holds of the superscripts one to three too.\<close>

definition str_isdigit :: "string \<Rightarrow> bool" where
  "str_isdigit s = (s \<noteq> [] \<and> list_all (\<lambda>c. is_digit c \<or> code c \<in> {178, 179, 185}) s)"

text \<open>The text between the first and the last bracket, after code fences and the word json.\<close>

definition unfenced :: "string \<Rightarrow> string" where
  "unfenced raw =
     (let text' = strip_of (\<lambda>c. c = CHR 0x60) (strip raw) in
       if startswith ''json'' (lower text') then lstrip_of is_space (drop 4 text') else text')"

definition bracketed :: "char \<Rightarrow> char \<Rightarrow> string \<Rightarrow> string option" where
  "bracketed l r s =
     (case (find_sub [l] s, rfind_char r s) of
        (Some a, Some b) \<Rightarrow> if b \<le> a then None else Some (take (Suc b - a) (drop a s))
      | _ \<Rightarrow> None)"

fun clean_items :: "nat \<Rightarrow> string list \<Rightarrow> json list \<Rightarrow> string list" where
  "clean_items n acc [] = acc"
| "clean_items n acc (x # xs) =
     (let acc' = (case x of JStr s \<Rightarrow> if strip s \<noteq> [] then acc @ [strip s] else acc | _ \<Rightarrow> acc) in
       if length acc' \<ge> n then acc' else clean_items n acc' xs)"

text \<open>Only \<open>JSONDecodeError\<close> is caught.\<close>

definition parse_string_array :: "string \<Rightarrow> nat \<Rightarrow> exn + string list" where
  "parse_string_array raw n =
     (case bracketed (CHR ''['') (CHR '']'') (unfenced raw) of
        None \<Rightarrow> Inr []
      | Some t \<Rightarrow>
          (case json_loads t of
             Inl e \<Rightarrow> if e = decode_error then Inr [] else Inl e
           | Inr v \<Rightarrow> Inr (case v of JList xs \<Rightarrow> clean_items n [] xs | _ \<Rightarrow> [])))"

fun evidence_index :: "json \<Rightarrow> exn + int list" where
  "evidence_index (JInt i) = Inr [i]"
| "evidence_index (JBool b) = Inr [if b then 1 else 0]"
| "evidence_index (JStr s) =
     (if \<not> str_isdigit s then Inr []
      else case str_int s of Some i \<Rightarrow> Inr [i] | None \<Rightarrow> Inl (PyExc ValueError))"
| "evidence_index _ = Inr []"

definition VERDICTS :: "string list" where
  "VERDICTS = [''supported'', ''contradicted'', ''unsupported'']"

definition parse_adjudication :: "string \<Rightarrow> exn + (string \<times> string \<times> int list)" where
  "parse_adjudication raw =
     (case bracketed (CHR ''{'') (CHR ''}'') (unfenced raw) of
        None \<Rightarrow> Inr (''unsupported'', ''Could not parse adjudication response.'', [])
      | Some t \<Rightarrow>
          (case json_loads t of
             Inl e \<Rightarrow> if e = decode_error then Inr (''unsupported'', ''Invalid JSON in adjudication response.'', []) else Inl e
           | Inr (JObj d) \<Rightarrow>
               let v = lower (py_str (dget_or d ''verdict'' (JStr ''unsupported''))) in
               try_bind (py_iter (por (dget d ''evidence'') (JList []))) (\<lambda>ev.
               try_bind (try_map evidence_index ev) (\<lambda>is'.
                 Inr (if v \<in> set VERDICTS then v else ''unsupported'',
                      py_str (por (dget d ''rationale'') (JStr [])), concat is')))
           | Inr _ \<Rightarrow> Inl (PyExc AttributeError)))"

section \<open>The claims of a report\<close>

definition claim_prompt :: "string \<Rightarrow> string" where
  "claim_prompt report = join nl [
     ''You are reviewing a regulatory report for compliance against a corpus'',
     ''of authoritative rules. Extract the report's distinct factual or'',
     ''compliance-relevant CLAIMS - short statements the firm asserts that a'',
     ''reviewer would want to verify.'',
     [],
     ''Output a JSON array of strings, max 25 claims. No commentary, no code'',
     ''fences. Each claim should be self-contained (no pronouns referring to'',
     ''unstated subjects). Phrase claims in plain English.'',
     [],
     ''REPORT:'',
     report,
     []]"

definition adjudicate_prompt :: "string \<Rightarrow> string \<Rightarrow> string" where
  "adjudicate_prompt claim context' = join nl [
     ''You are checking ONE claim against authoritative regulatory context.'',
     ''Decide:'',
     [],
     ''- \"supported\"   - the claim is consistent with the context'',
     ''- \"contradicted\" - the claim is inconsistent with the context'',
     ''- \"unsupported\" - context doesn't address the claim either way'',
     [],
     ''Reply as a SINGLE JSON object with these keys exactly:'',
     ''{'',
     ''  \"verdict\": \"supported\" | \"contradicted\" | \"unsupported\",'',
     ''  \"rationale\": \"1-3 sentence justification\",'',
     ''  \"evidence\": [<integer indices into the context list>]'',
     ''}'',
     [],
     ''CLAIM:'',
     claim,
     [],
     ''CONTEXT:'',
     context',
     []]"

definition claim_context_part :: "nat \<Rightarrow> hit \<Rightarrow> string" where
  "claim_context_part i h =
     ''['' @ nat_str i @ ''] '' @ h_title h @
     (case h_page h of None \<Rightarrow> [] | Some n \<Rightarrow> [CHR '' '', CHR 0xB7, CHR '' ''] @ ''page '' @ int_str n) @ nl @
     strip (take 600 (h_content h))"

definition claim_context :: "hit list \<Rightarrow> string" where
  "claim_context hits = join nl2 (map (\<lambda>(i, h). claim_context_part i h) (zip [1..<Suc (length hits)] hits))"

definition chunk_to_citation :: "hit \<Rightarrow> citation" where
  "chunk_to_citation h =
     \<lparr> ci_chunk_id = h_chunk_id h, ci_document_id = h_document_id h, ci_title = h_title h, ci_page = h_page h,
       ci_section = h_section h, ci_snippet = replace_char (CHR 0x0A) '' '' (strip (take 240 (h_content h))) \<rparr>"

record claim_verdict =
  cv_claim :: string
  cv_verdict :: string
  cv_rationale :: string
  cv_citations :: "citation list"

record validator_result =
  vr_overall :: string
  vr_summary :: string
  vr_claims :: "claim_verdict list"
  vr_supported :: nat
  vr_contradicted :: nat
  vr_unsupported :: nat

definition traffic_light :: "nat \<Rightarrow> nat \<Rightarrow> nat \<Rightarrow> rat \<Rightarrow> string" where
  "traffic_light supported contradicted n threshold =
     (if contradicted > 0 then ''red''
      else if of_nat supported / of_nat n \<ge> threshold then ''green'' else ''amber'')"

definition upper_light :: "string \<Rightarrow> string" where
  "upper_light l = (if l = ''red'' then ''RED'' else if l = ''green'' then ''GREEN'' else ''AMBER'')"

definition summarise_counts :: "string \<Rightarrow> nat \<Rightarrow> nat \<Rightarrow> nat \<Rightarrow> string" where
  "summarise_counts overall s c u =
     upper_light overall @ '': '' @ nat_str s @ '' supported, '' @ nat_str c @ '' contradicted, '' @
     nat_str u @ '' unsupported.''"

text \<open>The adapter answers a list of messages and a bound on the tokens; the search answers a query.\<close>

type_synonym 's llm = "llm_message list \<Rightarrow> int \<Rightarrow> 's \<Rightarrow> 's \<times> (exn + string)"

definition user_message :: "string \<Rightarrow> llm_message list" where
  "user_message t = [\<lparr> msg_role = ''user'', msg_content = t \<rparr>]"

definition extract_claims :: "'s llm \<Rightarrow> string \<Rightarrow> 's \<Rightarrow> 's \<times> (exn + string list)" where
  "extract_claims llm report s =
     (case llm (user_message (claim_prompt (take 20000 report))) 1500 s of
        (s', r) \<Rightarrow> (s', try_bind r (\<lambda>raw. parse_string_array raw 25)))"

definition evidence_hits :: "hit list \<Rightarrow> int list \<Rightarrow> hit list" where
  "evidence_hits hits idx =
     map (\<lambda>i. hits ! nat (i - 1)) (filter (\<lambda>i. 1 \<le> i \<and> i \<le> int (length hits)) idx)"

definition adjudicate_claim ::
  "'s llm \<Rightarrow> (string \<Rightarrow> 's \<Rightarrow> 's \<times> (exn + hit list)) \<Rightarrow> string \<Rightarrow> 's \<Rightarrow> 's \<times> (exn + claim_verdict)" where
  "adjudicate_claim llm find_chunks claim s =
     (case find_chunks claim s of
        (s1, Inl e) \<Rightarrow> (s1, Inl e)
      | (s1, Inr hits) \<Rightarrow>
          if hits = []
          then (s1, Inr \<lparr> cv_claim = claim, cv_verdict = ''unsupported'',
                  cv_rationale = ''No relevant authoritative material found.'', cv_citations = [] \<rparr>)
          else (case llm (user_message (adjudicate_prompt claim (claim_context hits))) 400 s1 of
                  (s2, r) \<Rightarrow>
                    (s2, try_bind r (\<lambda>raw. try_bind (parse_adjudication raw) (\<lambda>(v, why, idx).
                       Inr \<lparr> cv_claim = claim, cv_verdict = v, cv_rationale = why,
                         cv_citations = map chunk_to_citation (evidence_hits hits idx) \<rparr>)))))"

fun adjudicate_all ::
  "'s llm \<Rightarrow> (string \<Rightarrow> 's \<Rightarrow> 's \<times> (exn + hit list)) \<Rightarrow> string list \<Rightarrow> 's \<Rightarrow> 's \<times> (exn + claim_verdict list)" where
  "adjudicate_all llm fc [] s = (s, Inr [])"
| "adjudicate_all llm fc (c # cs) s =
     (case adjudicate_claim llm fc c s of
        (s1, Inl e) \<Rightarrow> (s1, Inl e)
      | (s1, Inr v) \<Rightarrow>
          (case adjudicate_all llm fc cs s1 of (s2, r) \<Rightarrow> (s2, try_bind r (\<lambda>vs. Inr (v # vs)))))"

definition count_verdict :: "string \<Rightarrow> claim_verdict list \<Rightarrow> nat" where
  "count_verdict v vs = length (filter (\<lambda>x. cv_verdict x = v) vs)"

definition validate_report ::
  "'s llm \<Rightarrow> (string \<Rightarrow> 's \<Rightarrow> 's \<times> (exn + hit list)) \<Rightarrow> rat \<Rightarrow> string \<Rightarrow> 's \<Rightarrow> 's \<times> (exn + validator_result)" where
  "validate_report llm fc threshold report s =
     (if strip report = [] then (s, Inl (PyExc ValueError))
      else case extract_claims llm report s of
        (s1, Inl e) \<Rightarrow> (s1, Inl e)
      | (s1, Inr claims) \<Rightarrow>
          (case adjudicate_all llm fc claims s1 of
             (s2, r) \<Rightarrow>
               (s2, try_bind r (\<lambda>vs.
                  let n = (\<lambda>v. count_verdict v vs);
                      overall = traffic_light (n ''supported'') (n ''contradicted'') (max (length vs) 1) threshold in
                  Inr \<lparr> vr_overall = overall,
                    vr_summary = summarise_counts overall (n ''supported'') (n ''contradicted'') (n ''unsupported''),
                    vr_claims = vs, vr_supported = n ''supported'', vr_contradicted = n ''contradicted'',
                    vr_unsupported = n ''unsupported'' \<rparr>))))"

section \<open>Scoring against a rule pack\<close>

definition ADJUDICATION_PROMPT :: string where
  "ADJUDICATION_PROMPT = concat (map (\<lambda>l. l @ nl) [
     ''You are a compliance reviewer scoring a target document against a single regulatory requirement.'',
     [],
     ''Return STRICT JSON only, matching this schema:'',
     ''{'',
     ''  \"verdict\": \"green\" | \"amber\" | \"red\" | \"n/a\",'',
     ''  \"rationale\": \"<one or two short sentences>\",'',
     ''  \"evidence_excerpts\": ['',
     ''    {\"text\": \"<verbatim 1-2 sentence quote from the doc>\", \"section_path\": \"<path or null>\", \"page\": <int or null>}'',
     ''  ]'',
     ''}'',
     [],
     ''Verdict definitions:'',
     ''- \"green\": the document clearly and substantively addresses this requirement, with concrete language a regulator would accept.'',
     ''- \"amber\": the document partially addresses the requirement (mentions it but is vague, lacks detail, or references it without operational substance).'',
     ''- \"red\": the document fails to address the requirement, OR the document explicitly contradicts the requirement.'',
     ''- \"n/a\": the requirement is not applicable to this type of document (e.g. an AML procedure requirement when the document is a consumer-facing privacy notice).'',
     [],
     ''Be honest: green is for documents that demonstrably meet the requirement, not just mention it. If you can't find supporting text, choose red - don't invent it.'',
     [],
     ''Quote evidence verbatim. If no relevant text exists, return an empty \"evidence_excerpts\" array.''])"

record requirement_result =
  rr_id :: string
  rr_title :: string
  rr_citation :: string
  rr_severity :: string
  rr_verdict :: string
  rr_rationale :: string
  rr_excerpts :: "jdict list"

definition result_for :: "rule_requirement \<Rightarrow> string \<Rightarrow> string \<Rightarrow> jdict list \<Rightarrow> requirement_result" where
  "result_for q v why ex =
     \<lparr> rr_id = rq_id q, rr_title = rq_title q, rr_citation = rq_citation q, rr_severity = rq_severity q,
       rr_verdict = v, rr_rationale = why, rr_excerpts = ex \<rparr>"

definition LIGHTS :: "string list" where
  "LIGHTS = [''green'', ''amber'', ''red'', ''n/a'']"

text \<open>
  \<open>x[:5]\<close> of the excerpts: a list is cut, a string gives characters, which are no dicts; anything else has no slices.
\<close>

definition first_five :: "json \<Rightarrow> exn + json list" where
  "first_five v =
     (case v of JList xs \<Rightarrow> Inr (take 5 xs) | JStr s \<Rightarrow> Inr (map (\<lambda>c. JStr [c]) (take 5 s))
      | JObj _ \<Rightarrow> Inl (PyExc (KeyError ''slice(None, 5, None)''))
      | _ \<Rightarrow> Inl (PyExc TypeError))"

definition clean_excerpts :: "json list \<Rightarrow> jdict list" where
  "clean_excerpts xs = concat (map (\<lambda>x. case x of
       JObj d \<Rightarrow>
         if truthy (dget d ''text'')
         then [[(''text'', JStr (take 600 (strip (py_str (dget d ''text''))))), (''section_path'', dget d ''section_path''),
                (''page'', dget d ''page'')]] else []
     | _ \<Rightarrow> []) xs)"

text \<open>\<open>lstrip("json")\<close> strips the four letters in any order.\<close>

definition unfence_reply :: "string \<Rightarrow> string" where
  "unfence_reply raw =
     (let text' = strip raw in
       if startswith (replicate 3 (CHR 0x60)) text'
       then strip (lstrip_of (\<lambda>c. c \<in> set ''json'') (strip_of (\<lambda>c. c = CHR 0x60) text')) else text')"

definition parse_verdict :: "string \<Rightarrow> rule_requirement \<Rightarrow> exn + requirement_result" where
  "parse_verdict raw q =
     (case json_loads (unfence_reply raw) of
        Inl e \<Rightarrow>
          if e = decode_error
          then Inr (result_for q ''amber'' ''couldn't parse the model's response - re-run if needed'' [])
          else Inl e
      | Inr (JObj d) \<Rightarrow>
          let v = lower (py_str (dget_or d ''verdict'' (JStr ''amber''))) in
          try_bind (first_five (por (dget d ''evidence_excerpts'') (JList []))) (\<lambda>xs.
            Inr (result_for q (if v \<in> set LIGHTS then v else ''amber'')
              (strip (py_str (dget_or d ''rationale'' (JStr [])))) (clean_excerpts xs)))
      | Inr _ \<Rightarrow> Inl (PyExc AttributeError))"

definition page_or_dash :: "int option \<Rightarrow> string" where
  "page_or_dash p = (case p of None \<Rightarrow> ''-'' | Some n \<Rightarrow> if n = 0 then ''-'' else int_str n)"

definition excerpt :: "nat \<Rightarrow> hit \<Rightarrow> string" where
  "excerpt i h =
     ''['' @ nat_str i @ ''] (section: '' @ (if str_true (h_section h) then the (h_section h) else ''-'') @
     '', page: '' @ page_or_dash (h_page h) @ '')'' @ nl @ strip (h_content h)"

definition excerpts_block :: "hit list \<Rightarrow> string" where
  "excerpts_block hits =
     (if hits = [] then ''(no chunks retrieved from the target document for this requirement)''
      else join nl (map (\<lambda>(i, h). excerpt i h) (zip [1..<Suc (length hits)] hits)))"

definition requirement_prompt :: "rule_requirement \<Rightarrow> hit list \<Rightarrow> string" where
  "requirement_prompt q hits =
     ''Requirement: '' @ rq_id q @ '' - '' @ rq_title q @ nl2 @
     ''Description:'' @ nl @ rq_description q @ nl2 @
     ''Regulator citation: '' @ rq_citation q @ nl2 @
     ''Severity: '' @ rq_severity q @ nl2 @
     ''---'' @ nl @ ''Excerpts from the TARGET DOCUMENT (the doc we're scoring):'' @ nl @
     excerpts_block hits @ nl @ ''---'' @ nl2 @ ''Score this requirement. Return STRICT JSON only.''"

text \<open>
  A failing search gives no chunks; a failing model call gives an amber result; what the reply makes the parser
  raise is raised.
\<close>

definition score_requirement ::
  "'s llm \<Rightarrow> (string \<Rightarrow> 's \<Rightarrow> 's \<times> (exn + hit list)) \<Rightarrow> rule_requirement \<Rightarrow> 's \<Rightarrow> 's \<times> (exn + requirement_result)" where
  "score_requirement llm fc q s =
     (case fc (rq_title q @ ''. '' @ rq_description q) s of
        (s1, found) \<Rightarrow>
          let hits = (case found of Inl e \<Rightarrow> [] | Inr hs \<Rightarrow> hs) in
          (case llm [\<lparr> msg_role = ''system'', msg_content = ADJUDICATION_PROMPT \<rparr>,
                     \<lparr> msg_role = ''user'', msg_content = requirement_prompt q hits \<rparr>] 400 s1 of
             (s2, Inl e) \<Rightarrow> (s2, Inr (result_for q ''amber'' (''scoring failed: '' @ exn_message e) []))
           | (s2, Inr raw) \<Rightarrow> (s2, parse_verdict raw q)))"

fun score_all ::
  "'s llm \<Rightarrow> (string \<Rightarrow> 's \<Rightarrow> 's \<times> (exn + hit list)) \<Rightarrow> rule_requirement list \<Rightarrow> 's \<Rightarrow>
   's \<times> (exn + requirement_result list)" where
  "score_all llm fc [] s = (s, Inr [])"
| "score_all llm fc (q # qs) s =
     (case score_requirement llm fc q s of
        (s1, Inl e) \<Rightarrow> (s1, Inl e)
      | (s1, Inr r) \<Rightarrow>
          (case score_all llm fc qs s1 of (s2, rs) \<Rightarrow> (s2, try_bind rs (\<lambda>xs. Inr (r # xs)))))"

record rule_pack_report =
  pr_pack_id :: string
  pr_pack_name :: string
  pr_pack_version :: string
  pr_document_id :: string
  pr_document_title :: string
  pr_overall :: string
  pr_score :: rat
  pr_counts :: "(string \<times> nat) list"
  pr_requirements :: "requirement_result list"

definition count_light :: "string \<Rightarrow> requirement_result list \<Rightarrow> nat" where
  "count_light v rs = length (filter (\<lambda>r. rr_verdict r = v) rs)"

definition pack_score :: "requirement_result list \<Rightarrow> rat" where
  "pack_score rs =
     (let applicable = count_light ''green'' rs + count_light ''amber'' rs + count_light ''red'' rs in
       if applicable > 0 then of_nat (count_light ''green'' rs) / of_nat applicable else 0)"

definition overall_light :: "requirement_result list \<Rightarrow> string" where
  "overall_light rs =
     (if list_ex (\<lambda>r. rr_verdict r = ''red'' \<and> rr_severity r = ''must'') rs then ''red''
      else if pack_score rs \<ge> 7 / 10 then ''green''
      else if pack_score rs \<ge> 4 / 10 then ''amber'' else ''red'')"

definition pack_report :: "rule_pack \<Rightarrow> uuid \<Rightarrow> string \<Rightarrow> requirement_result list \<Rightarrow> rule_pack_report" where
  "pack_report p did title rs =
     \<lparr> pr_pack_id = rp_id p, pr_pack_name = rp_name p, pr_pack_version = rp_version p, pr_document_id = did,
       pr_document_title = title, pr_overall = overall_light rs, pr_score = py_round (pack_score rs) 3,
       pr_counts = map (\<lambda>v. (v, count_light v rs)) LIGHTS, pr_requirements = rs \<rparr>"

definition validate ::
  "'s llm \<Rightarrow> (string \<Rightarrow> 's \<Rightarrow> 's \<times> (exn + hit list)) \<Rightarrow> uuid \<Rightarrow> string \<Rightarrow> string \<Rightarrow> 's \<Rightarrow>
   's \<times> (exn + rule_pack_report)" where
  "validate llm fc did title pack_id s =
     (case get_pack pack_id of
        None \<Rightarrow> (s, Inl (PyExc ValueError))
      | Some p \<Rightarrow>
          (case score_all llm fc (rp_requirements p) s of
             (s', rs) \<Rightarrow> (s', try_bind rs (\<lambda>xs. Inr (pack_report p did title xs)))))"

section \<open>The route\<close>

text \<open>Generation goes through the gateway, bound to the tenant; the search is metered in the same ledger.\<close>

definition gateway_llm :: "gw_env \<Rightarrow> uuid \<Rightarrow> string \<Rightarrow> gw_state llm" where
  "gateway_llm G tid purpose ms n st =
     adapter_complete G \<lparr> ga_tenant_id = tid, ga_purpose = purpose, ga_user_id = None, ga_request_id = None,
       ga_tenant_slug = [] \<rparr> ms (JFloat (Fin 0) ''0.0'') (Some n) st"

definition document_search ::
  "gw_env \<Rightarrow> 'v search_env \<Rightarrow> nat \<Rightarrow> uuid \<Rightarrow> uuid \<Rightarrow> string \<Rightarrow> gw_state \<Rightarrow> gw_state \<times> (exn + hit list)" where
  "document_search G S k tid did q st =
     (case search S tid q \<lparr> sp_k = k, sp_filters = no_filters\<lparr> f_document_ids := Some [did] \<rparr>, sp_public = True,
             sp_rerank = True, sp_feedback = True \<rparr> of
        Inl e \<Rightarrow> (st, Inl e)
      | Inr out \<Rightarrow> (meter G (search_context tid) (search_usage S (e_tik G) q) st, Inr (so_hits out)))"

text \<open>\<open>:.0f\<close> of a percentage rounds half to even, as \<open>round\<close> does.\<close>

definition run_validation ::
  "route_env \<Rightarrow> 'v search_env \<Rightarrow> gw_env \<Rightarrow> document list \<Rightarrow> uuid \<Rightarrow> string \<Rightarrow> principal \<Rightarrow> gw_state \<times> audit_log \<Rightarrow>
   (gw_state \<times> audit_log) \<times> (exn + rule_pack_report)" where
  "run_validation R S G docs did pack_id p st =
     (case try_bind (require_active_trial (ro_tenants R) (ro_now R) p) (\<lambda>_. require_byok (ro_require_byok R) (e_secrets G)) of
        Inl e \<Rightarrow> (st, Inl e)
      | Inr _ \<Rightarrow>
          if get_pack pack_id = None then (st, Inl (HTTPError 404 (''unknown pack: '' @ pack_id)))
          else case find (\<lambda>d. dc_id d = did \<and> dc_tenant d = pp_tenant_id p) docs of
            None \<Rightarrow> (st, Inl (HTTPError 404 ''document not found''))
          | Some d \<Rightarrow>
              (case validate (gateway_llm G (pp_tenant_id p) ''validate'')
                      (document_search G S 5 (pp_tenant_id p) did) did (dc_title d) pack_id (fst st) of
                 (g, Inl e) \<Rightarrow> ((g, snd st), Inl e)
               | (g, Inr rep) \<Rightarrow>
                   ((g, record_action (ro_audit_ok R) (ro_now R) p ''validate'' (Some ''/v1/validators/run'')
                       (Some (''Validate \"'' @ dc_title d @ ''\" against '' @ pr_pack_name rep))
                       (Some (upper_light (pr_overall rep) @ '' - score '' @
                          int_str (round_int (pr_score rep * 100)) @ ''% ('' @
                          nat_str (count_light ''green'' (pr_requirements rep)) @ '' green, '' @
                          nat_str (count_light ''amber'' (pr_requirements rep)) @ '' amber, '' @
                          nat_str (count_light ''red'' (pr_requirements rep)) @ '' red)''))
                       (map (\<lambda>r. JObj [(''requirement_id'', JStr (rr_id r)), (''title'', JStr (rr_title r)),
                          (''verdict'', JStr (rr_verdict r)), (''citation'', JStr (rr_citation r))]) (pr_requirements rep))
                       [(''pack_id'', JStr (pr_pack_id rep)), (''document_id'', JStr (pr_document_id rep))] (snd st)),
                    Inr rep)))"

section \<open>Lemmas\<close>

lemma parse_verdict_result:
  assumes "parse_verdict raw q = Inr r"
  shows "rr_id r = rq_id q \<and> rr_severity r = rq_severity q \<and> rr_verdict r \<in> set LIGHTS \<and> length (rr_excerpts r) \<le> 5"
proof -
  have five: "length (clean_excerpts xs) \<le> 5" if "first_five v = Inr xs" for v xs
  proof -
    have "length (clean_excerpts xs) \<le> length xs"
      by (induction xs) (auto simp: clean_excerpts_def split: json.splits)
    moreover have "length xs \<le> 5" using that by (auto simp: first_five_def split: json.splits)
    ultimately show ?thesis by simp
  qed
  show ?thesis
  proof (cases "json_loads (unfence_reply raw)")
    case (Inl e)
    then show ?thesis using assms by (auto simp: parse_verdict_def result_for_def LIGHTS_def split: if_splits)
  next
    case (Inr v)
    then obtain d where "v = JObj d" using assms by (cases v) (auto simp: parse_verdict_def)
    then show ?thesis using assms Inr five
      by (auto simp: parse_verdict_def result_for_def Let_def try_bind_eq_Inr) (auto simp: LIGHTS_def)
  qed
qed

lemma score_requirement_result:
  assumes "score_requirement llm fc q s = (s', Inr r)"
  shows "rr_id r = rq_id q \<and> rr_severity r = rq_severity q \<and> rr_verdict r \<in> set LIGHTS \<and> length (rr_excerpts r) \<le> 5"
  using assms parse_verdict_result
  by (auto simp: score_requirement_def Let_def result_for_def LIGHTS_def split: prod.splits sum.splits)

lemma score_all_results:
  "score_all llm fc qs s = (s', Inr rs) \<Longrightarrow> map rr_id rs = map rq_id qs \<and>
     list_all (\<lambda>r. rr_verdict r \<in> set LIGHTS \<and> length (rr_excerpts r) \<le> 5) rs"
  by (induction qs arbitrary: s s' rs)
    (auto simp: try_bind_eq_Inr split: prod.splits sum.splits dest: score_requirement_result)

lemma counts_add_up:
  "list_all (\<lambda>r. rr_verdict r \<in> set LIGHTS) rs \<Longrightarrow>
     count_light ''green'' rs + count_light ''amber'' rs + count_light ''red'' rs + count_light ''n/a'' rs = length rs"
  by (induction rs) (auto simp: count_light_def LIGHTS_def)

lemma pack_score_range: "0 \<le> pack_score rs \<and> pack_score rs \<le> 1"
  by (auto simp: pack_score_def Let_def divide_le_eq)

lemma pack_score_at_least:
  assumes "0 < k" and "0 < (m :: nat)"
  shows "of_nat k / of_nat m \<le> pack_score rs \<longleftrightarrow>
    0 < count_light ''green'' rs + count_light ''amber'' rs + count_light ''red'' rs \<and>
    k * (count_light ''green'' rs + count_light ''amber'' rs + count_light ''red'' rs) \<le> m * count_light ''green'' rs"
proof -
  let ?n = "count_light ''green'' rs + count_light ''amber'' rs + count_light ''red'' rs"
  have "of_nat k / (of_nat m :: rat) \<le> of_nat g / of_nat n \<longleftrightarrow> k * n \<le> m * g" if "0 < n" for g n
  proof -
    have "of_nat k / (of_nat m :: rat) \<le> of_nat g / of_nat n \<longleftrightarrow> of_nat (k * n) \<le> (of_nat (m * g) :: rat)"
      using assms(2) that by (simp add: field_simps)
    then show ?thesis by (simp only: of_nat_le_iff)
  qed
  moreover have "pack_score rs = (if 0 < ?n then of_nat (count_light ''green'' rs) / of_nat ?n else 0)"
    by (simp only: pack_score_def Let_def)
  moreover have "0 < of_nat k / (of_nat m :: rat)" using assms by simp
  ultimately show ?thesis by (cases "0 < ?n") (simp_all only: if_True if_False simp_thms not_le)
qed

lemma clean_items_spec:
  "length acc < n \<Longrightarrow> list_all (\<lambda>s. s \<noteq> []) acc \<Longrightarrow>
     length (clean_items n acc xs) \<le> n \<and> list_all (\<lambda>s. s \<noteq> []) (clean_items n acc xs)"
  by (induction n acc xs rule: clean_items.induct) (auto simp: Let_def split: json.splits)

lemma parse_string_array_spec:
  assumes "parse_string_array raw 25 = Inr cs"
  shows "length cs \<le> 25 \<and> list_all (\<lambda>s. s \<noteq> []) cs"
  using assms clean_items_spec [of "[]" 25]
  by (auto simp: parse_string_array_def split: option.splits sum.splits if_splits json.splits)

lemma parse_adjudication_verdict:
  assumes "parse_adjudication raw = Inr (v, why, idx)"
  shows "v \<in> set VERDICTS"
  using assms
  by (auto simp: parse_adjudication_def VERDICTS_def Let_def try_bind_eq_Inr split: option.splits sum.splits
      if_splits json.splits)

lemma adjudicate_claim_spec:
  assumes "adjudicate_claim llm fc c s = (s', Inr v)"
  shows "cv_claim v = c \<and> cv_verdict v \<in> set VERDICTS"
  using assms parse_adjudication_verdict
  by (fastforce simp: adjudicate_claim_def VERDICTS_def try_bind_eq_Inr split: prod.splits sum.splits if_splits)

lemma adjudicate_all_spec:
  "adjudicate_all llm fc cs s = (s', Inr vs) \<Longrightarrow> map cv_claim vs = cs \<and> list_all (\<lambda>v. cv_verdict v \<in> set VERDICTS) vs"
  by (induction cs arbitrary: s s' vs)
    (auto simp: try_bind_eq_Inr split: prod.splits sum.splits dest: adjudicate_claim_spec)

lemma verdicts_add_up:
  "list_all (\<lambda>v. cv_verdict v \<in> set VERDICTS) vs \<Longrightarrow>
     count_verdict ''supported'' vs + count_verdict ''contradicted'' vs + count_verdict ''unsupported'' vs = length vs"
  by (induction vs) (auto simp: count_verdict_def VERDICTS_def)

section \<open>Properties\<close>

text \<open>
  The overall light of a rule-pack report: red as soon as a requirement that must be met is red, otherwise green from
  seven greens in ten applicable requirements on, amber from four, and red below or when nothing applies.
\<close>

theorem overall_light_exact:
  "overall_light rs =
     (let g = count_light ''green'' rs; n = g + count_light ''amber'' rs + count_light ''red'' rs in
       if (\<exists>r\<in>set rs. rr_verdict r = ''red'' \<and> rr_severity r = ''must'') \<or> n = 0 then ''red''
       else if 7 * n \<le> 10 * g then ''green'' else if 4 * n \<le> 10 * g then ''amber'' else ''red'')"
  using pack_score_at_least [of 7 10 rs] pack_score_at_least [of 4 10 rs]
  by (auto simp: overall_light_def list_ex_iff Let_def)

text \<open>
  A report has one result for every requirement of the pack, in its order, each with one of the four verdicts and at
  most five excerpts; the counts add up and the score lies between nought and one.
\<close>

theorem report_complete:
  assumes "validate llm fc did title pid s = (s', Inr rep)"
  shows "\<exists>p. get_pack pid = Some p \<and> map rr_id (pr_requirements rep) = map rq_id (rp_requirements p) \<and>
    list_all (\<lambda>r. rr_verdict r \<in> set LIGHTS \<and> length (rr_excerpts r) \<le> 5) (pr_requirements rep) \<and>
    sum_list (map snd (pr_counts rep)) = length (rp_requirements p) \<and> 0 \<le> pr_score rep \<and> pr_score rep \<le> 1"
proof -
  obtain p rs where p: "get_pack pid = Some p" "score_all llm fc (rp_requirements p) s = (s', Inr rs)"
    "rep = pack_report p did title rs"
    using assms by (auto simp: validate_def try_bind_eq_Inr split: option.splits prod.splits)
  note rs = score_all_results [OF p(2)]
  have "length rs = length (rp_requirements p)" using rs by (metis length_map)
  moreover have "list_all (\<lambda>r. rr_verdict r \<in> set LIGHTS) rs" using rs by (auto simp: list_all_iff)
  moreover have "0 \<le> py_round (pack_score rs) 3" "py_round (pack_score rs) 3 \<le> 1"
    using pack_score_range [of rs] py_round_mono [of 0 "pack_score rs" 3] py_round_mono [of "pack_score rs" 1 3]
    by (simp_all add: py_round_def [of 0] py_round_def [of 1] round_int_def)
  ultimately show ?thesis using p rs counts_add_up [of rs]
    by (auto simp: pack_report_def LIGHTS_def)
qed

text \<open>
  When no call of the model succeeds, say because the quota is spent, the report is not an error: every requirement
  is amber, and the document as a whole is red with the score nought.
\<close>

theorem unscored_document_red:
  assumes "\<And>ms n s. \<exists>e. snd (llm ms n s) = Inl e" and "get_pack pid = Some p"
  shows "\<exists>s' rep. validate llm fc did title pid s = (s', Inr rep) \<and> pr_overall rep = ''red'' \<and> pr_score rep = 0 \<and>
    list_all (\<lambda>r. rr_verdict r = ''amber'') (pr_requirements rep)"
proof -
  have one: "\<exists>s' r. score_requirement llm fc q s = (s', Inr r) \<and> rr_verdict r = ''amber''" for q s
  proof -
    obtain s1 found where f: "fc (rq_title q @ ''. '' @ rq_description q) s = (s1, found)" by fastforce
    let ?hits = "case found of Inl e \<Rightarrow> [] | Inr hs \<Rightarrow> hs"
    let ?ms = "[\<lparr> msg_role = ''system'', msg_content = ADJUDICATION_PROMPT \<rparr>,
      \<lparr> msg_role = ''user'', msg_content = requirement_prompt q ?hits \<rparr>]"
    obtain s2 e where l: "llm ?ms 400 s1 = (s2, Inl e)"
      using assms(1) [of ?ms 400 s1] by (cases "llm ?ms 400 s1") auto
    show ?thesis unfolding score_requirement_def f prod.case Let_def l sum.case by (simp add: result_for_def)
  qed
  have all: "\<exists>s' rs. score_all llm fc qs s = (s', Inr rs) \<and> list_all (\<lambda>r. rr_verdict r = ''amber'') rs" for qs s
  proof (induction qs arbitrary: s)
    case (Cons q qs)
    obtain s1 r where r: "score_requirement llm fc q s = (s1, Inr r)" "rr_verdict r = ''amber''" using one by blast
    obtain s2 rs where "score_all llm fc qs s1 = (s2, Inr rs)" "list_all (\<lambda>r. rr_verdict r = ''amber'') rs"
      using Cons by blast
    then show ?case using r by simp
  qed simp
  obtain s' rs where rs: "score_all llm fc (rp_requirements p) s = (s', Inr rs)" "list_all (\<lambda>r. rr_verdict r = ''amber'') rs"
    using all by blast
  have "count_light ''green'' rs = 0" using rs(2) by (auto simp: count_light_def list_all_iff filter_empty_conv)
  moreover have "\<not> list_ex (\<lambda>r. rr_verdict r = ''red'' \<and> rr_severity r = ''must'') rs"
    using rs(2) by (auto simp: list_ex_iff list_all_iff)
  ultimately show ?thesis using rs assms(2)
    by (simp add: validate_def pack_report_def overall_light_def pack_score_def Let_def py_round_def round_int_def)
qed

text \<open>
  C22. A claim report: at most twenty-five claims that are not empty, every claim with one of three verdicts, the counts
  adding up; red exactly when a claim is contradicted, green exactly when none is and the threshold is reached.
\<close>

theorem claim_report_sound:
  assumes "validate_report llm fc th report s = (s', Inr r)"
  shows "length (vr_claims r) \<le> 25 \<and> list_all (\<lambda>v. cv_claim v \<noteq> [] \<and> cv_verdict v \<in> set VERDICTS) (vr_claims r) \<and>
    vr_supported r + vr_contradicted r + vr_unsupported r = length (vr_claims r) \<and>
    (vr_overall r = ''red'' \<longleftrightarrow> (\<exists>v\<in>set (vr_claims r). cv_verdict v = ''contradicted'')) \<and>
    (vr_overall r = ''green'' \<longleftrightarrow> vr_contradicted r = 0 \<and>
       th * of_nat (max (length (vr_claims r)) 1) \<le> of_nat (vr_supported r))"
proof -
  obtain s1 cs vs where a: "extract_claims llm report s = (s1, Inr cs)" "adjudicate_all llm fc cs s1 = (s', Inr vs)"
    and r: "vr_claims r = vs" "vr_supported r = count_verdict ''supported'' vs"
      "vr_contradicted r = count_verdict ''contradicted'' vs" "vr_unsupported r = count_verdict ''unsupported'' vs"
      "vr_overall r = traffic_light (count_verdict ''supported'' vs) (count_verdict ''contradicted'' vs)
         (max (length vs) 1) th"
    using assms by (auto simp: validate_report_def Let_def try_bind_eq_Inr split: if_splits prod.splits sum.splits)
  have c: "length cs \<le> 25 \<and> list_all (\<lambda>s. s \<noteq> []) cs"
    using a(1) parse_string_array_spec by (auto simp: extract_claims_def try_bind_eq_Inr split: prod.splits)
  note v = adjudicate_all_spec [OF a(2)]
  have "length vs \<le> 25" "list_all (\<lambda>v. cv_claim v \<noteq> []) vs" using c v by (auto simp: list_all_iff)
  moreover have "0 < count_verdict ''contradicted'' vs \<longleftrightarrow> (\<exists>v\<in>set vs. cv_verdict v = ''contradicted'')"
    by (auto simp: count_verdict_def filter_empty_conv)
  moreover have "of_nat (count_verdict ''supported'' vs) / of_nat (max (length vs) 1) \<ge> th \<longleftrightarrow>
      th * of_nat (max (length vs) 1) \<le> of_nat (count_verdict ''supported'' vs)"
    by (subst le_divide_eq) auto
  ultimately show ?thesis using v verdicts_add_up [of vs]
    by (auto simp: r traffic_light_def list_all_iff)
qed

text \<open>A reply that is JSON but not an object is not an amber result: it aborts the whole report.\<close>

lemma reply_aborts:
  assumes "\<And>ms n s. llm ms n s = (s, Inr raw)" and "json_loads (unfence_reply raw) = Inr v" and "\<not> is_dict v"
    and "fc (rq_title q @ ''. '' @ rq_description q) s = (s1, found)"
  shows "score_all llm fc (q # qs) s = (s1, Inl (PyExc AttributeError))"
proof -
  have "parse_verdict raw q = Inl (PyExc AttributeError)"
    using assms(2,3) by (cases v) (auto simp: parse_verdict_def is_dict_def)
  then show ?thesis
    unfolding score_all.simps score_requirement_def assms(4) prod.case Let_def assms(1) sum.case by simp
qed

section \<open>Witnesses\<close>

definition green_reply :: "unit llm" where
  "green_reply ms n s = (s, Inr ''{\"verdict\": \"Green\"}'')"

definition no_chunks :: "string \<Rightarrow> unit \<Rightarrow> unit \<times> (exn + hit list)" where
  "no_chunks q s = (s, Inr [])"

lemma gdpr_pack: "get_pack '' UK-GDPR'' = Some UK_GDPR"
proof -
  have "strip (lower '' UK-GDPR'') = ''uk-gdpr''" by code_simp
  then show ?thesis by (simp add: get_pack_iff PACK_REGISTRY_def UK_GDPR_facts)
qed

lemma green_scores: "score_all green_reply no_chunks qs s = (s, Inr (map (\<lambda>q. result_for q ''green'' [] []) qs))"
proof (induction qs arbitrary: s)
  case (Cons q qs)
  have u: "unfence_reply ''{\"verdict\": \"Green\"}'' = ''{\"verdict\": \"Green\"}''" by code_simp
  have j: "json_loads ''{\"verdict\": \"Green\"}'' = Inr (JObj [(''verdict'', JStr ''Green'')])" by code_simp
  have l: "lower ''Green'' = ''green''" "strip [] = []" by code_simp+
  have "parse_verdict ''{\"verdict\": \"Green\"}'' q = Inr (result_for q ''green'' [] [])"
    unfolding parse_verdict_def u j
    by (simp add: l dget_or_def dget_def por_def first_five_def clean_excerpts_def LIGHTS_def)
  then have "score_requirement green_reply no_chunks q s = (s, Inr (result_for q ''green'' [] []))"
    unfolding score_requirement_def no_chunks_def green_reply_def prod.case Let_def sum.case by simp
  then show ?case using Cons by simp
qed simp

theorem report_complete_witness:
  "\<exists>rep. validate green_reply no_chunks ''d'' ''Notice'' '' UK-GDPR'' () = ((), Inr rep) \<and>
     map rr_id (pr_requirements rep) = map rq_id (rp_requirements UK_GDPR)"
proof -
  have v: "validate green_reply no_chunks ''d'' ''Notice'' '' UK-GDPR'' () =
      ((), Inr (pack_report UK_GDPR ''d'' ''Notice'' (map (\<lambda>q. result_for q ''green'' [] []) (rp_requirements UK_GDPR))))"
    by (simp add: validate_def gdpr_pack green_scores)
  show ?thesis using report_complete [OF v] v gdpr_pack by auto
qed

definition no_quota :: "unit llm" where
  "no_quota ms n s = (s, Inl (LLMError ''over quota''))"

theorem unscored_document_red_witness:
  "\<exists>s' rep. validate no_quota no_chunks ''d'' ''Notice'' '' UK-GDPR'' () = (s', Inr rep) \<and> pr_overall rep = ''red''"
proof -
  have "\<exists>e. snd (no_quota ms n s) = Inl e" for ms n s by (simp add: no_quota_def)
  then show ?thesis using unscored_document_red [OF _ gdpr_pack, of no_quota no_chunks "''d''" "''Notice''" "()"] by blast
qed

definition claim_reply :: "unit llm" where
  "claim_reply ms n s = (s, Inr ''[\"We hold capital.\"] {\"verdict\": \"supported\"}'')"

definition one_chunk :: "string \<Rightarrow> unit \<Rightarrow> unit \<times> (exn + hit list)" where
  "one_chunk q s = (s, Inr [sample_hit ''c1'' ''d''])"

theorem claim_report_sound_witness:
  "\<exists>r. validate_report claim_reply one_chunk (7/10) ''report'' () = ((), Inr r) \<and> vr_overall r = ''green'' \<and>
     length (vr_claims r) \<le> 25"
proof -
  let ?raw = "''[\"We hold capital.\"] {\"verdict\": \"supported\"}''"
  have s: "strip ''report'' \<noteq> []" by code_simp
  have c: "parse_string_array ?raw 25 = Inr [''We hold capital.'']" by code_simp
  have a: "parse_adjudication ?raw = Inr (''supported'', [], [])" by code_simp
  have e: "extract_claims claim_reply ''report'' () = ((), Inr [''We hold capital.''])"
    unfolding extract_claims_def claim_reply_def prod.case by (simp add: c)
  have "adjudicate_claim claim_reply one_chunk ''We hold capital.'' () = ((), Inr \<lparr> cv_claim = ''We hold capital.'',
      cv_verdict = ''supported'', cv_rationale = [], cv_citations = [] \<rparr>)"
    unfolding adjudicate_claim_def one_chunk_def claim_reply_def prod.case sum.case
    by (simp add: a evidence_hits_def)
  then have "adjudicate_all claim_reply one_chunk [''We hold capital.''] () = ((), Inr [\<lparr> cv_claim = ''We hold capital.'',
      cv_verdict = ''supported'', cv_rationale = [], cv_citations = [] \<rparr>])"
    by simp
  then obtain r where r: "validate_report claim_reply one_chunk (7/10) ''report'' () = ((), Inr r)"
    "vr_supported r = 1" "vr_contradicted r = 0" "length (vr_claims r) = 1"
    using s e by (auto simp: validate_report_def Let_def count_verdict_def)
  then show ?thesis using claim_report_sound [OF r(1)] by auto
qed

end
