(* ===== verification/Summarisation.thy ===== *)
theory Summarisation
  imports Validators
begin

text \<open>
  Summarisation (\<open>packages/summarisation\<close>): the map-reduce summary of a document over windows of tokens,
  the keyphrases of a summary, and the task that stores both on the document.  The tokenizer is a parameter;
  so is the model, except where the task builds its own adapter.
\<close>

section \<open>Prompts\<close>

definition MAP_PROMPT :: "string \<Rightarrow> string" where
  "MAP_PROMPT slice =
     ''You are summarising a slice of a regulatory document. Output a tight'' @ nl @
     ''3-6 sentence summary that captures the key obligations, definitions,'' @ nl @
     ''and exceptions in this slice. Do NOT add information that isn't here.'' @ nl2 @
     ''SLICE:'' @ nl @ slice @ nl"

definition REDUCE_PROMPT :: "string \<Rightarrow> string" where
  "REDUCE_PROMPT summaries =
     ''Combine the slice-summaries below into a single coherent summary of the'' @ nl @
     ''whole document. Aim for 6-12 sentences. Lead with what the document is'' @ nl @
     ''(type, regulator, scope), then the most important rules / expectations,'' @ nl @
     ''then any notable exceptions or transitional arrangements. Use plain'' @ nl @
     ''English; preserve regulator terminology only when essential.'' @ nl2 @
     ''SLICE SUMMARIES:'' @ nl @ summaries @ nl"

definition FOCUSED_PROMPT :: "string \<Rightarrow> string \<Rightarrow> string" where
  "FOCUSED_PROMPT summary query =
     ''Summarise the document below with a focus on this question/topic:'' @ nl @
     [CHR 0x22] @ query @ [CHR 0x22] @ nl2 @
     ''Aim for 4-8 sentences. If the document barely covers the topic, say so.'' @ nl2 @
     ''DOCUMENT:'' @ nl @ summary @ nl"

definition KEYPHRASE_PROMPT :: "string \<Rightarrow> string" where
  "KEYPHRASE_PROMPT summary =
     ''Extract 6-12 distinctive keyphrases from the summary below. Output as a'' @ nl @
     ''JSON array of strings only - no commentary. Phrases should be specific'' @ nl @
     ''(e.g. \"CET1 capital ratio\", not \"capital\"); regulator-relevant nouns'' @ nl @
     ''or noun-phrases.'' @ nl2 @
     ''SUMMARY:'' @ nl @ summary @ nl"

section \<open>Slicing\<close>

text \<open>
  \<open>range(0, n, step)\<close> for a step that is not negative (a negative one gives no values); \<open>window_loop\<close>
  is the body of the loop over it, with its \<open>break\<close>.
\<close>

definition range_from :: "nat \<Rightarrow> nat \<Rightarrow> nat list" where
  "range_from n step = map (\<lambda>i. i * step) [0..<(n + step - 1) div step]"

fun window_loop :: "nat \<Rightarrow> 'tok list \<Rightarrow> nat list \<Rightarrow> 'tok list list" where
  "window_loop k toks [] = []"
| "window_loop k toks (s # ss) =
     take k (drop s toks) # (if s + k \<ge> length toks then [] else window_loop k toks ss)"

text \<open>The tokenizer refuses a text that spells one of its special tokens; decoding never fails.\<close>

record 'tok slicer =
  sl_encode :: "string \<Rightarrow> exn + 'tok list"
  sl_decode :: "'tok list \<Rightarrow> string"
  sl_tokens :: nat
  sl_overlap :: nat

definition windows :: "'tok slicer \<Rightarrow> 'tok list \<Rightarrow> exn + 'tok list list" where
  "windows c toks =
     (if sl_overlap c = sl_tokens c then Inl (PyExc ValueError)
      else if sl_overlap c > sl_tokens c then Inr []
      else Inr (window_loop (sl_tokens c) toks (range_from (length toks) (sl_tokens c - sl_overlap c))))"

definition slice_text :: "'tok slicer \<Rightarrow> string \<Rightarrow> exn + string list" where
  "slice_text c t =
     try_bind (sl_encode c t) (\<lambda>toks.
       if length toks \<le> sl_tokens c then Inr [t]
       else try_bind (windows c toks) (\<lambda>ws. Inr (map (sl_decode c) ws)))"

definition DEFAULT_SLICE_TOKENS :: nat where "DEFAULT_SLICE_TOKENS = 2500"
definition DEFAULT_OVERLAP_TOKENS :: nat where "DEFAULT_OVERLAP_TOKENS = 100"

section \<open>Map and reduce\<close>

record summarise_result =
  sr_summary :: string
  sr_slice_summaries :: "string list"
  sr_slices_used :: nat

definition call_model :: "'s llm \<Rightarrow> string \<Rightarrow> 's \<Rightarrow> 's \<times> (exn + string)" where
  "call_model llm prompt s = llm (user_message prompt) 600 s"

text \<open>
  \<open>gather\<close> without \<open>return_exceptions\<close>: every call is made, a failing one does not cancel the others, and the
  first exception is raised.  The semaphore admits the calls in order; the model makes them one by one.
\<close>

fun map_slices :: "'s llm \<Rightarrow> string list \<Rightarrow> 's \<Rightarrow> 's \<times> (exn + string list)" where
  "map_slices llm [] s = (s, Inr [])"
| "map_slices llm (t # ts) s =
     (case call_model llm (MAP_PROMPT t) s of
        (s1, r) \<Rightarrow>
          (case map_slices llm ts s1 of
             (s2, rs) \<Rightarrow> (s2, try_bind r (\<lambda>x. try_bind rs (\<lambda>xs. Inr (x # xs))))))"

definition numbered_summaries :: "string list \<Rightarrow> string" where
  "numbered_summaries ss =
     join nl2 (map (\<lambda>(i, t). ''- ('' @ nat_str (i + 1) @ '') '' @ strip t) (enumerate 0 ss))"

definition summarise :: "'s llm \<Rightarrow> 'tok slicer \<Rightarrow> string \<Rightarrow> 's \<Rightarrow> 's \<times> (exn + summarise_result)" where
  "summarise llm c t s =
     (if strip t = []
      then (s, Inr \<lparr> sr_summary = [], sr_slice_summaries = [], sr_slices_used = 0 \<rparr>)
      else case slice_text c t of
        Inl e \<Rightarrow> (s, Inl e)
      | Inr [one] \<Rightarrow>
          (case call_model llm (MAP_PROMPT one) s of
             (s', r) \<Rightarrow> (s', try_bind r (\<lambda>x.
               Inr \<lparr> sr_summary = x, sr_slice_summaries = [x], sr_slices_used = 1 \<rparr>)))
      | Inr slices \<Rightarrow>
          (case map_slices llm slices s of
             (s1, Inl e) \<Rightarrow> (s1, Inl e)
           | (s1, Inr xs) \<Rightarrow>
               (case call_model llm (REDUCE_PROMPT (numbered_summaries xs)) s1 of
                  (s2, r) \<Rightarrow> (s2, try_bind r (\<lambda>x.
                    Inr \<lparr> sr_summary = x, sr_slice_summaries = xs, sr_slices_used = length slices \<rparr>)))))"

definition focused_summarise :: "'s llm \<Rightarrow> string \<Rightarrow> string \<Rightarrow> 's \<Rightarrow> 's \<times> (exn + string)" where
  "focused_summarise llm summary query s =
     (if strip summary = [] then (s, Inr [])
      else call_model llm (FOCUSED_PROMPT summary query) s)"

section \<open>Keyphrases\<close>

fun phrase_loop :: "nat \<Rightarrow> string list \<Rightarrow> json list \<Rightarrow> string list" where
  "phrase_loop m acc [] = acc"
| "phrase_loop m acc (x # xs) =
     (let acc' = (case x of
           JStr t \<Rightarrow>
             (let phrase = strip_of (\<lambda>c. c \<in> set ''.,;'') (strip t) in
               if phrase \<noteq> [] \<and> phrase \<notin> set acc then acc @ [phrase] else acc)
         | _ \<Rightarrow> acc) in
       if length acc' \<ge> m then acc' else phrase_loop m acc' xs)"

definition parse_phrases :: "nat \<Rightarrow> string \<Rightarrow> exn + string list" where
  "parse_phrases m raw =
     (case bracketed (CHR ''['') (CHR '']'') (unfence_reply raw) of
        None \<Rightarrow> Inr []
      | Some t \<Rightarrow>
          (case json_loads t of
             Inl e \<Rightarrow> if e = decode_error then Inr [] else Inl e
           | Inr (JList xs) \<Rightarrow> Inr (phrase_loop m [] xs)
           | Inr _ \<Rightarrow> Inr []))"

definition extract_keyphrases :: "'s llm \<Rightarrow> string \<Rightarrow> nat \<Rightarrow> 's \<Rightarrow> 's \<times> (exn + string list)" where
  "extract_keyphrases llm summary m s =
     (if strip summary = [] then (s, Inr [])
      else case llm (user_message (KEYPHRASE_PROMPT summary)) 300 s of
        (s', r) \<Rightarrow> (s', try_bind r (parse_phrases m)))"

section \<open>The service\<close>

text \<open>The document row with its keyphrases.\<close>

record kp_document = document +
  dc_keyphrases :: "string list option"

record summarise_document_result =
  sd_document :: uuid
  sd_summary_text :: string
  sd_keyphrases :: "string list"
  sd_slices :: nat

text \<open>\<open>ORDER BY char_start ASC NULLS LAST\<close>.\<close>

definition document_chunks :: "uuid \<Rightarrow> uuid \<Rightarrow> 'v stored_chunk list \<Rightarrow> 'v stored_chunk list" where
  "document_chunks tid did chunks =
     (let own = filter (\<lambda>c. cw_document c = did \<and> cw_tenant c = tid) chunks in
       sort_key (\<lambda>c. the (cw_start c)) (filter (\<lambda>c. cw_start c \<noteq> None) own) @
       filter (\<lambda>c. cw_start c = None) own)"

definition document_text :: "uuid \<Rightarrow> uuid \<Rightarrow> 'v stored_chunk list \<Rightarrow> string" where
  "document_text tid did chunks = join nl2 (map cw_content (document_chunks tid did chunks))"

definition find_document :: "uuid \<Rightarrow> uuid \<Rightarrow> kp_document list \<Rightarrow> kp_document option" where
  "find_document tid did docs = find (\<lambda>d. dc_id d = did \<and> dc_tenant d = tid) docs"

text \<open>The two attributes are written at the flush, so that a failure before it leaves the row alone.\<close>

definition store_summary :: "uuid \<Rightarrow> uuid \<Rightarrow> string \<Rightarrow> string list \<Rightarrow> kp_document list \<Rightarrow> kp_document list" where
  "store_summary tid did sm ks docs =
     map (\<lambda>d. if dc_id d = did \<and> dc_tenant d = tid
       then d\<lparr> dc_summary := Some sm, dc_keyphrases := Some ks \<rparr> else d) docs"

definition summarise_document ::
  "'s llm \<Rightarrow> 'tok slicer \<Rightarrow> 'v stored_chunk list \<Rightarrow> uuid \<Rightarrow> uuid \<Rightarrow> kp_document list \<times> 's \<Rightarrow>
   (kp_document list \<times> 's) \<times> (exn + summarise_document_result)"
where
  "summarise_document llm c chunks tid did st =
     (case find_document tid did (fst st) of
        None \<Rightarrow> (st, Inl (PyExc ValueError))
      | Some d \<Rightarrow>
          (case summarise llm c (document_text tid did chunks) (snd st) of
             (s1, Inl e) \<Rightarrow> ((fst st, s1), Inl e)
           | (s1, Inr res) \<Rightarrow>
               (case extract_keyphrases llm (sr_summary res) 12 s1 of
                  (s2, Inl e) \<Rightarrow> ((fst st, s2), Inl e)
                | (s2, Inr ks) \<Rightarrow>
                    ((store_summary tid did (sr_summary res) ks (fst st), s2),
                     Inr \<lparr> sd_document = did, sd_summary_text = sr_summary res, sd_keyphrases = ks,
                       sd_slices = sr_slices_used res \<rparr>))))"

text \<open>
  \<open>scalar_one_or_none\<close> answers \<open>None\<close> for no row and for a row whose summary is \<open>NULL\<close>.
\<close>

definition focused_summary ::
  "'s llm \<Rightarrow> uuid \<Rightarrow> uuid \<Rightarrow> string \<Rightarrow> kp_document list \<times> 's \<Rightarrow> 's \<times> (exn + string)"
where
  "focused_summary llm tid did query st =
     (case find_document tid did (fst st) of
        None \<Rightarrow> (snd st, Inl (PyExc ValueError))
      | Some d \<Rightarrow>
          (case dc_summary d of
             None \<Rightarrow> (snd st, Inl (PyExc ValueError))
           | Some base \<Rightarrow>
               if strip base = [] then (snd st, Inr []) else focused_summarise llm base query (snd st)))"

section \<open>The task\<close>

text \<open>
  The worker builds the service without arguments, so that its model is the adapter of the deployment
  settings (\<open>get_llm\<close>), called directly with the summarisation model and temperature nought.
\<close>

definition direct_llm ::
  "(nat \<Rightarrow> sdk_call \<Rightarrow> string + string option list) \<Rightarrow> (nat \<Rightarrow> jdict \<Rightarrow> http_failure + http_response) \<Rightarrow>
   settings \<Rightarrow> llm_adapter \<Rightarrow> sdk_trace llm"
where
  "direct_llm sdk post s a ms n tr =
     (let rq = \<lparr> rq_model = summarisation_model s, rq_temperature = JFloat (Fin 0) ''0.0'', rq_max_tokens = Some n \<rparr> in
       case a of
         OpenAIChatLLM s' \<Rightarrow> openai_complete sdk s' None ms rq tr
       | OllamaLLM s' \<Rightarrow> (tr, ollama_complete post s' ms rq))"

definition summarise_task ::
  "(nat \<Rightarrow> sdk_call \<Rightarrow> string + string option list) \<Rightarrow> (nat \<Rightarrow> jdict \<Rightarrow> http_failure + http_response) \<Rightarrow>
   settings \<Rightarrow> 'tok slicer \<Rightarrow> 'v stored_chunk list \<Rightarrow> uuid \<Rightarrow> uuid \<Rightarrow> kp_document list \<times> sdk_trace \<Rightarrow>
   (kp_document list \<times> sdk_trace) \<times> (exn + jdict)"
where
  "summarise_task sdk post s c chunks tid did st =
     (case get_llm s of
        Inl e \<Rightarrow> (st, Inl e)
      | Inr a \<Rightarrow>
          (case summarise_document (direct_llm sdk post s a) c chunks tid did st of
             (st', r) \<Rightarrow> (st', try_bind r (\<lambda>x.
               Inr [(''document_id'', JStr (sd_document x)),
                    (''summary_chars'', JInt (int (length (sd_summary_text x)))),
                    (''slices_used'', JInt (int (sd_slices x))),
                    (''keyphrases'', JList (map JStr (sd_keyphrases x)))]))))"

section \<open>Lemmas\<close>

lemma range_from_covers:
  assumes "0 < step"
  shows "(n::nat) \<le> ((n + step - 1) div step) * step"
proof -
  have "(n + step - 1) mod step < step" using assms by simp
  then show ?thesis using div_mult_mod_eq [of "n + step - 1" step] assms by linarith
qed

lemma window_overlap:
  assumes "w = take k (drop j toks)" and "j + ov < length toks" and "ov < k" and "w @ rest = drop j toks"
  shows "drop ov w @ rest = drop (j + ov) toks"
proof -
  have "ov \<le> length w" using assms by simp
  then have "drop ov (w @ rest) = drop ov w @ rest" by simp
  then show ?thesis by (simp add: assms(4) add.commute)
qed

text \<open>The windows from the i-th start on: the first one, and what they leave out.\<close>

lemma window_loop_spec:
  assumes "ov < k" and "length toks \<le> m * (k - ov)" and "i * (k - ov) + ov < length toks" and "i < m"
    and "ws = window_loop k toks (map (\<lambda>i. i * (k - ov)) [i..<m])"
  shows "ws \<noteq> [] \<and> hd ws = take k (drop (i * (k - ov)) toks) \<and> list_all (\<lambda>w. ov < length w \<and> length w \<le> k) ws \<and>
    hd ws @ concat (map (drop ov) (tl ws)) = drop (i * (k - ov)) toks \<and>
    (i + length ws - 1) * (k - ov) + ov < length toks \<and> length toks \<le> (i + length ws) * (k - ov) + ov"
  using assms(3-)
proof (induction "m - i" arbitrary: i ws)
  case 0
  then show ?case by simp
next
  case (Suc j)
  let ?s = "k - ov"
  define rest where "rest = window_loop k toks (map (\<lambda>i. i * ?s) [Suc i..<m])"
  have ws: "ws = take k (drop (i * ?s) toks) # (if i * ?s + k \<ge> length toks then [] else rest)"
    using Suc.prems by (simp add: upt_conv_Cons rest_def)
  have nxt: "Suc i * ?s + ov = i * ?s + k" using assms(1) by simp
  show ?case
  proof (cases "i * ?s + k \<ge> length toks")
    case True
    define j where "j = i * ?s"
    have w: "ws = [drop j toks]" "take k (drop j toks) = drop j toks" using ws True by (simp_all add: j_def)
    have "Suc i * ?s + ov = j + k" "length toks \<le> j + k" "j + ov < length toks"
      using nxt True Suc.prems(1) by (simp_all only: j_def)
    then show ?thesis unfolding w(1) j_def [symmetric] using w(2) by (simp add: j_def) linarith
  next
    case False
    then have a: "Suc i * ?s + ov < length toks" using nxt by simp
    have "Suc i < m"
    proof (rule ccontr)
      assume "\<not> Suc i < m"
      then have "m * ?s \<le> Suc i * ?s" by (intro mult_le_mono1) simp
      then show False using a assms(2) by linarith
    qed
    have "j = m - Suc i" using Suc.hyps(2) by simp
    note ih = Suc.hyps(1) [OF this a \<open>Suc i < m\<close> rest_def]
    then have r: "rest \<noteq> []" "hd rest = take k (drop (Suc i * ?s) toks)"
      "list_all (\<lambda>w. ov < length w \<and> length w \<le> k) rest"
      "hd rest @ concat (map (drop ov) (tl rest)) = drop (Suc i * ?s) toks"
      "(Suc i + length rest - 1) * ?s + ov < length toks" "length toks \<le> (Suc i + length rest) * ?s + ov"
      by blast+
    have "concat (map (drop ov) rest) = drop ov (hd rest) @ concat (map (drop ov) (tl rest))"
      using r(1) by (cases rest) auto
    also have "\<dots> = drop (i * ?s + k) toks"
      using window_overlap [OF r(2) a assms(1) r(4)] nxt by (simp add: add.commute)
    finally have "take k (drop (i * ?s) toks) @ concat (map (drop ov) rest) = drop (i * ?s) toks"
      by (metis append_take_drop_id drop_drop add.commute)
    then show ?thesis using ws False r Suc.prems(1) assms(1) by auto
  qed
qed

lemma phrase_loop_spec:
  assumes "distinct acc" and "[] \<notin> set acc" and "length acc < m"
  shows "distinct (phrase_loop m acc xs) \<and> [] \<notin> set (phrase_loop m acc xs) \<and> length (phrase_loop m acc xs) \<le> m"
  using assms
proof (induction xs arbitrary: acc)
  case (Cons x xs)
  define acc' where "acc' = (case x of
      JStr t \<Rightarrow> (let phrase = strip_of (\<lambda>c. c \<in> set ''.,;'') (strip t) in
        if phrase \<noteq> [] \<and> phrase \<notin> set acc then acc @ [phrase] else acc)
    | _ \<Rightarrow> acc)"
  have "distinct acc' \<and> [] \<notin> set acc' \<and> length acc' \<le> m"
    using Cons.prems by (auto simp: acc'_def Let_def split: json.splits)
  moreover have "phrase_loop m acc (x # xs) = (if length acc' \<ge> m then acc' else phrase_loop m acc' xs)"
    by (simp only: phrase_loop.simps acc'_def Let_def)
  ultimately show ?case using Cons.IH [of acc'] by auto
qed simp

lemma parse_phrases_spec:
  assumes "parse_phrases m raw = Inr ks" and "0 < m"
  shows "distinct ks \<and> [] \<notin> set ks \<and> length ks \<le> m"
  using assms phrase_loop_spec [of "[]" m]
  by (auto simp: parse_phrases_def split: option.splits sum.splits json.splits if_splits)

lemma extract_keyphrases_spec:
  assumes "extract_keyphrases llm sm m s = (s', Inr ks)" and "0 < m"
  shows "distinct ks \<and> [] \<notin> set ks \<and> length ks \<le> m"
  using assms parse_phrases_spec [of m]
  by (auto simp: extract_keyphrases_def try_bind_eq_Inr split: if_splits prod.splits)

lemma find_store_summary:
  "find_document t i (store_summary tid did sm ks docs) =
     map_option (\<lambda>d. if (t, i) = (tid, did) then d\<lparr> dc_summary := Some sm, dc_keyphrases := Some ks \<rparr> else d)
       (find_document t i docs)"
  by (induction docs) (auto simp: find_document_def store_summary_def)

lemma map_slices_length: "map_slices llm ts s = (s', Inr xs) \<Longrightarrow> length xs = length ts"
  by (induction ts arbitrary: s xs s') (auto simp: try_bind_eq_Inr split: prod.splits)

lemma summarise_document_cases:
  assumes "summarise_document llm c chunks tid did st = (st', r)"
  obtains (failed) e where "r = Inl e" "fst st' = fst st"
  | (stored) d s1 res s2 ks where "find_document tid did (fst st) = Some d"
      "summarise llm c (document_text tid did chunks) (snd st) = (s1, Inr res)"
      "extract_keyphrases llm (sr_summary res) 12 s1 = (s2, Inr ks)"
      "st' = (store_summary tid did (sr_summary res) ks (fst st), s2)"
      "r = Inr \<lparr> sd_document = did, sd_summary_text = sr_summary res, sd_keyphrases = ks,
         sd_slices = sr_slices_used res \<rparr>"
  using assms
  by (auto simp: summarise_document_def split: option.splits prod.splits sum.splits)

text \<open>A call with a key reaches the SDK at once, and whatever follows only adds to the trace.\<close>

lemma direct_llm_grows: "extends (\<lambda>_. True) tr (fst (direct_llm sdk post s (OpenAIChatLLM s') ms n tr))"
proof -
  have "extends (\<lambda>_. True) tr (fst (sdk_request sdk s' None mk tr))" for mk tr
    by (auto simp: sdk_request_def split: sum.split intro!: extends_snoc)
  then show ?thesis
    by (auto simp: direct_llm_def openai_complete_def split_beta Let_def intro!: retry_extends)
qed

lemma openai_complete_sends:
  assumes "llm_provider s \<noteq> ''azure''" and "openai_api_key s = Some key" and "key \<noteq> []"
  shows "extends (\<lambda>_. True)
    (tr @ [mk_call s rq (map message_dict ms) [] (OpenAIClient (Some key) (llm_base_url s))])
    (fst (openai_complete sdk s None ms rq tr))"
proof -
  let ?call = "mk_call s rq (map message_dict ms) [] (OpenAIClient (Some key) (llm_base_url s))"
  let ?f = "\<lambda>tr. case sdk_request sdk s None (mk_call s rq (map message_dict ms) []) tr of
      (tr', res) \<Rightarrow> (tr', try_bind res first_choice)"
  have cl: "active_client s None = Inr (OpenAIClient (Some key) (llm_base_url s))"
    using assms by (simp add: active_client_def build_client_def)
  have one: "fst (?f tr) = tr @ [?call]" for tr
    by (simp add: sdk_request_def cl split_beta)
  then have grows: "extends (\<lambda>_. True) tr (fst (?f tr))" for tr by (simp add: extends_snoc)
  have "retry (Suc (Suc 0)) ?f tr =
      (case ?f tr of (tr', Inl e) \<Rightarrow> if is_rate_limit e then retry (Suc 0) ?f tr' else (tr', Inl e)
       | (tr', Inr x) \<Rightarrow> (tr', Inr x))"
    by (rule retry.simps)
  then have "extends (\<lambda>_. True) (tr @ [?call]) (fst (retry 2 ?f tr))"
    using one [of tr] retry_extends [OF grows, of "tr @ [?call]" 1]
    by (cases "?f tr") (auto simp: numeral_2_eq_2 simp del: retry.simps split: sum.split)
  then show ?thesis by (simp only: openai_complete_def)
qed

lemma map_slices_calls:
  assumes "\<And>ms n k. fst (llm ms n k) = Suc k"
  shows "fst (map_slices llm ts n) = n + length ts"
proof (induction ts arbitrary: n)
  case (Cons t ts)
  have "fst (call_model llm (MAP_PROMPT t) n) = Suc n" by (simp add: call_model_def assms)
  then show ?case using Cons.IH [of "Suc n"] by (auto split: prod.splits)
qed simp

lemma slice_text_nonempty: "sl_overlap c < sl_tokens c \<Longrightarrow> slice_text c t \<noteq> Inr []"
proof
  assume ov: "sl_overlap c < sl_tokens c" and e: "slice_text c t = Inr []"
  obtain toks where t: "sl_encode c t = Inr toks" using e by (auto simp: slice_text_def try_bind_eq_Inr)
  let ?n = "length toks" and ?s = "sl_tokens c - sl_overlap c"
  have n: "sl_tokens c < ?n" using e t by (auto simp: slice_text_def split: if_splits)
  have "0 < (?n + ?s - 1) div ?s" using n ov by (simp only: div_greater_zero_iff) linarith
  then show False using e ov n t by (auto simp: slice_text_def windows_def range_from_def upt_conv_Cons)
qed

lemma summarise_calls:
  assumes "\<And>ms n k. fst (llm ms n k) = Suc k" and "sl_overlap c < sl_tokens c" and "summarise llm c t n = (n', Inr res)"
  shows "n' = n + sr_slices_used res + (if 1 < sr_slices_used res then 1 else 0)"
proof -
  have call: "call_model llm p k = (k', x) \<Longrightarrow> k' = Suc k" for p k k' x
    using assms(1) [of "user_message p" 600 k] by (auto simp: call_model_def)
  have ms: "map_slices llm ts k = (k', x) \<Longrightarrow> k' = k + length ts" for ts k k' x
    using map_slices_calls [where llm = llm and ts = ts and n = k, OF assms(1)] by simp
  show ?thesis
    using assms(3) slice_text_nonempty [OF assms(2), of t]
    by (auto simp: summarise_def try_bind_eq_Inr split: if_splits sum.splits list.splits prod.splits dest!: call ms)
qed

section \<open>Properties\<close>


text \<open>
  Summarising stores a summary or changes nothing: on success the row of the document has the new summary and
  keyphrases, at most twelve and all different, and every other row is as before; when any call of the model
  fails, the table is as before.
\<close>

theorem summary_stored:
  assumes "summarise_document llm c chunks tid did st = (st', r)"
  shows "case r of
      Inl e \<Rightarrow> fst st' = fst st
    | Inr x \<Rightarrow> \<exists>d. find_document tid did (fst st) = Some d \<and>
        find_document tid did (fst st') =
          Some (d\<lparr> dc_summary := Some (sd_summary_text x), dc_keyphrases := Some (sd_keyphrases x) \<rparr>) \<and>
        (\<forall>t i. (t, i) \<noteq> (tid, did) \<longrightarrow> find_document t i (fst st') = find_document t i (fst st)) \<and>
        distinct (sd_keyphrases x) \<and> [] \<notin> set (sd_keyphrases x) \<and> length (sd_keyphrases x) \<le> 12"
  using assms
proof (cases rule: summarise_document_cases)
  case (stored d s1 res s2 ks)
  then show ?thesis using extract_keyphrases_spec [OF stored(3)] by (simp add: find_store_summary option.map_ident del: split_paired_All prod.inject)
qed simp

text \<open>
  The calls a successful summary costs: one per slice, one more to combine several slices, and one for the
  keyphrases of a summary that is not blank; so a document in several slices costs at least three.
\<close>

theorem summary_calls:
  assumes "\<And>ms n k. fst (llm ms n k) = Suc k"
    and "sl_overlap c < sl_tokens c"
    and "summarise_document llm c chunks tid did (docs, n) = ((docs', n'), Inr x)"
  shows "n' = n + sd_slices x + (if 1 < sd_slices x then 1 else 0) + (if strip (sd_summary_text x) = [] then 0 else 1)"
  using assms(3)
proof (cases rule: summarise_document_cases)
  case (stored d s1 res s2 ks)
  then have "s1 = n + sr_slices_used res + (if 1 < sr_slices_used res then 1 else 0)"
    using summarise_calls [OF assms(1,2)] by fastforce
  moreover have "s2 = (if strip (sr_summary res) = [] then s1 else Suc s1)"
    using stored(3) assms(1) [of "user_message (KEYPHRASE_PROMPT (sr_summary res))" 300 s1]
    by (auto simp: extract_keyphrases_def split: if_splits prod.splits)
  ultimately show ?thesis using stored(4-) by simp
qed simp

text \<open>
  The task knows no gateway: whatever the tenant's policy is, the text of a document that fits one slice is
  sent with the key of the deployment to its own endpoint, the cloud default of the SDK when
  \<open>LLM_BASE_URL\<close> is unset, so a tenant locked to the sovereign stack has its documents sent to the cloud.
\<close>

theorem summary_ignores_lock:
  assumes "llm_provider s = ''openai''" and "openai_api_key s = Some key" and "key \<noteq> []" and "llm_base_url s = None"
    and "find_document tid did docs = Some d"
    and "strip (document_text tid did chunks) \<noteq> []"
    and "sl_encode c (document_text tid did chunks) = Inr toks" and "length toks \<le> sl_tokens c"
  shows "\<exists>call. call \<in> set (drop (length tr) (snd (fst (summarise_task sdk post s c chunks tid did (docs, tr))))) \<and>
    call_client call = OpenAIClient (Some key) None \<and>
    call_messages call = map message_dict (user_message (MAP_PROMPT (document_text tid did chunks)))"
proof -
  let ?t = "document_text tid did chunks" and ?llm = "direct_llm sdk post s (OpenAIChatLLM s)"
  let ?call = "mk_call s \<lparr> rq_model = summarisation_model s, rq_temperature = JFloat (Fin 0) ''0.0'', rq_max_tokens = Some 600 \<rparr>
      (map message_dict (user_message (MAP_PROMPT ?t))) [] (OpenAIClient (Some key) None)"
  have task: "snd (fst (summarise_task sdk post s c chunks tid did (docs, tr))) =
      snd (fst (summarise_document ?llm c chunks tid did (docs, tr)))"
    using assms(1) by (simp add: summarise_task_def get_llm_def split_beta)
  have first: "extends (\<lambda>_. True) (tr @ [?call]) (fst (call_model ?llm (MAP_PROMPT ?t) tr))"
    using openai_complete_sends [of s key tr] assms(1-4)
    by (simp add: call_model_def direct_llm_def)
  have "extends (\<lambda>_. True) (fst (call_model ?llm (MAP_PROMPT ?t) tr))
      (snd (fst (summarise_document ?llm c chunks tid did (docs, tr))))"
    using assms(5-8) direct_llm_grows [of _ sdk post s s]
    by (auto simp: summarise_document_def summarise_def slice_text_def extract_keyphrases_def try_bind_eq_Inr split_beta
        split: sum.split)
  with first have "extends (\<lambda>_. True) (tr @ [?call])
      (snd (fst (summarise_document ?llm c chunks tid did (docs, tr))))"
    by (rule extends_trans)
  then show ?thesis unfolding task
    by (intro exI [of _ ?call]) (auto simp: extends_def mk_call_def)
qed

section \<open>Witnesses\<close>

definition sample_slicer :: "nat \<Rightarrow> char slicer" where
  "sample_slicer n = \<lparr> sl_encode = Inr, sl_decode = id, sl_tokens = n, sl_overlap = 1 \<rparr>"

definition sample_summarised :: kp_document where
  "sample_summarised =
     \<lparr> dc_id = ''d'', dc_tenant = ''t'', dc_title = ''Rules'', dc_uri = ''u'', dc_storage_key = None,
       dc_doc_type = None, dc_superseded_at = None, dc_active = True, dc_summary = None, dc_hash = None,
       dc_size = 0, dc_metadata = [], dc_keyphrases = None \<rparr>"

definition sample_text_chunks :: "unit stored_chunk list" where
  "sample_text_chunks =
     [\<lparr> cw_id = ''b'', cw_tenant = ''t'', cw_document = ''d'', cw_content = ''two'', cw_embedding = (),
        cw_section = None, cw_page = None, cw_start = Some 3, cw_end = None, cw_tokens = None, cw_metadata = [] \<rparr>,
      \<lparr> cw_id = ''a'', cw_tenant = ''t'', cw_document = ''d'', cw_content = ''one'', cw_embedding = (),
        cw_section = None, cw_page = None, cw_start = Some 0, cw_end = None, cw_tokens = None, cw_metadata = [] \<rparr>]"

definition sample_reply :: string where
  "sample_reply = ''[\"capital\", \"capital\", \"ratio.\"]''"

definition sample_phrases :: "string list" where
  "sample_phrases = [''capital'', ''ratio'']"

definition counting_llm :: "nat llm" where
  "counting_llm ms n k = (Suc k, Inr sample_reply)"

lemma sample_document_text: "document_text ''t'' ''d'' sample_text_chunks = ''one'' @ nl2 @ ''two''"
  by code_simp

lemma sample_summarise:
  "summarise_document counting_llm (sample_slicer 5) sample_text_chunks ''t'' ''d'' ([sample_summarised], 0) =
     (([sample_summarised\<lparr> dc_summary := Some sample_reply,
          dc_keyphrases := Some sample_phrases \<rparr>], 4),
      Inr \<lparr> sd_document = ''d'', sd_summary_text = sample_reply,
        sd_keyphrases = sample_phrases, sd_slices = 2 \<rparr>)"
  by code_simp


theorem summary_stored_witness:
  "\<exists>d. find_document ''t'' ''d'' [sample_summarised] = Some d \<and>
    find_document ''t'' ''d'' (fst (fst (summarise_document counting_llm (sample_slicer 5) sample_text_chunks
     ''t'' ''d'' ([sample_summarised], 0)))) =
   Some (d\<lparr> dc_summary := Some sample_reply,
     dc_keyphrases := Some sample_phrases \<rparr>)"
  using summary_stored [OF sample_summarise]
  unfolding sum.case fst_conv summarise_document_result.simps sample_summarise
  by blast

theorem summary_calls_witness:
  "snd (fst (summarise_document counting_llm (sample_slicer 5) sample_text_chunks ''t'' ''d'' ([sample_summarised], 0)))
     = 0 + 2 + 1 + 1"
proof -
  have "fst (counting_llm ms n k) = Suc k" for ms n k by (simp add: counting_llm_def)
  moreover have "sl_overlap (sample_slicer 5) < sl_tokens (sample_slicer 5)" by (simp add: sample_slicer_def)
  moreover have "strip sample_reply \<noteq> []" by code_simp
  ultimately show ?thesis using summary_calls [OF _ _ sample_summarise] by (simp add: sample_summarise)
qed

theorem summary_ignores_lock_witness:
  "\<exists>call. call \<in> set (drop 0 (snd (fst (summarise_task (\<lambda>_ _. Inr [Some ''[]'']) (\<lambda>_ _. Inl (HTimeout []))
       (default_settings\<lparr> openai_api_key := Some ''sk'' \<rparr>) (sample_slicer 2500) sample_text_chunks ''t'' ''d''
       ([sample_summarised], []))))) \<and>
     call_client call = OpenAIClient (Some ''sk'') None \<and>
     call_messages call = map message_dict (user_message (MAP_PROMPT (''one'' @ nl2 @ ''two'')))"
proof -
  let ?s = "default_settings\<lparr> openai_api_key := Some ''sk'' \<rparr>"
  have "llm_provider ?s = ''openai''" "openai_api_key ?s = Some ''sk''" "''sk'' \<noteq> []" "llm_base_url ?s = None"
    by (simp_all add: default_settings_def)
  moreover have "find_document ''t'' ''d'' [sample_summarised] = Some sample_summarised"
    by (simp add: find_document_def sample_summarised_def)
  moreover have "strip (document_text ''t'' ''d'' sample_text_chunks) \<noteq> []" by code_simp
  moreover have "sl_encode (sample_slicer 2500) (document_text ''t'' ''d'' sample_text_chunks) = Inr (''one'' @ nl2 @ ''two'')"
    "length (''one'' @ nl2 @ ''two'') \<le> sl_tokens (sample_slicer 2500)"
    unfolding sample_document_text by (simp_all add: sample_slicer_def nl2_def)
  ultimately have "\<exists>call. call \<in> set (drop (length ([] :: sdk_trace)) (snd (fst (summarise_task (\<lambda>_ _. Inr [Some ''[]''])
       (\<lambda>_ _. Inl (HTimeout [])) ?s (sample_slicer 2500) sample_text_chunks ''t'' ''d'' ([sample_summarised], []))))) \<and>
     call_client call = OpenAIClient (Some ''sk'') None \<and>
     call_messages call = map message_dict (user_message (MAP_PROMPT (document_text ''t'' ''d'' sample_text_chunks)))"
    by (rule summary_ignores_lock)
  then show ?thesis by (simp only: sample_document_text list.size)
qed

end
