(* ===== verification/Training.thy ===== *)
theory Training
  imports Validators
begin

text \<open>
  The generators of training material (\<open>askai/training/generate.py\<close>): every artefact is written by one governed
  call of the model over passages that a search found, and carries the citations of those passages.
  JSON artefacts are parsed from the reply.  A long dash is written as a hyphen.
\<close>

section \<open>System prompts\<close>

definition LESSON_SYSTEM :: string where
  "LESSON_SYSTEM =
     ''You are an expert compliance instructional designer. You write clear, '' @
     ''accurate training lessons for staff in a regulated firm, using ONLY the '' @
     ''reference passages provided. You never invent rules beyond the references. '' @
     ''Output Markdown.''"

definition REVISION_SYSTEM :: string where
  "REVISION_SYSTEM =
     ''You are a tutor writing a concise revision guide from reference passages '' @
     ''ONLY. Use headings, bullet points, and a 'key terms' list. Output Markdown.''"

definition QUIZ_SYSTEM :: string where
  "QUIZ_SYSTEM =
     ''You are an assessment author. Using ONLY the reference passages, write '' @
     ''multiple-choice questions that test understanding of the rules. Output ONLY '' @
     ''valid JSON.''"

definition EXAM_SYSTEM :: string where
  "EXAM_SYSTEM =
     ''You are an experienced compliance exam author. Using ONLY the reference '' @
     ''passages, write exam-style questions each with a full model answer and a '' @
     ''marks allocation. If past/sample questions are provided, MATCH their style, '' @
     ''depth, phrasing and difficulty. Do not invent facts beyond the references. '' @
     ''Output ONLY valid JSON.''"

definition FLASHCARD_SYSTEM :: string where
  "FLASHCARD_SYSTEM =
     ''You write study flashcards from reference passages ONLY. Each card has a '' @
     ''concise front (prompt) and back (answer). Output ONLY valid JSON.''"

definition SLIDES_SYSTEM :: string where
  "SLIDES_SYSTEM =
     ''You are a presentation author. From reference passages ONLY, produce a '' @
     ''training slide-deck outline. Output ONLY valid JSON.''"

definition SCENARIO_SYSTEM :: string where
  "SCENARIO_SYSTEM =
     ''You are a compliance training author who teaches through realistic '' @
     ''workplace stories. Using ONLY the reference passages, you write a scenario '' @
     ''that puts staff in a believable situation, shows a conversation in which '' @
     ''warning signs appear, then tests whether the learner can identify the issue '' @
     ''and follow the correct reporting procedure described in the references. You '' @
     ''never invent obligations or reporting routes beyond the references. Output '' @
     ''ONLY valid JSON.''"

section \<open>Artefacts and their environment\<close>

record artefact =
  tf_kind :: string
  tf_topic :: string
  tf_title :: string
  tf_body :: string
  tf_data :: jdict
  tf_grounding :: jdict

definition artefact_dict :: "artefact \<Rightarrow> json" where
  "artefact_dict a = JObj [(''kind'', JStr (tf_kind a)), (''topic'', JStr (tf_topic a)), (''title'', JStr (tf_title a)),
     (''body'', JStr (tf_body a)), (''data'', JObj (tf_data a)), (''grounding'', JObj (tf_grounding a))]"

record 'v generator =
  tg_search :: "'v search_env"
  tg_gw :: gw_env
  tg_ground_k :: nat

definition GROUND_K :: nat where "GROUND_K = 8"

text \<open>Who asks, on which topic.\<close>

record gen_call =
  gc_tenant :: uuid
  gc_topic :: string
  gc_user :: "string option"
  gc_request :: "string option"

section \<open>Retrieval and completion\<close>

definition passage_ref :: "hit \<Rightarrow> string" where
  "passage_ref h = ''['' @ (if h_title h = [] then ''source'' else h_title h) @ ''] '' @ h_content h"

definition passage_citation :: "hit \<Rightarrow> json" where
  "passage_citation h = JObj [(''document_id'', JStr (h_document_id h)), (''document_title'', JStr (h_title h)),
     (''chunk_id'', JStr (h_chunk_id h)), (''page_number'', opt_int_json (h_page h))]"

definition generator_options :: "'v generator \<Rightarrow> search_options" where
  "generator_options E = \<lparr> sp_k = tg_ground_k E, sp_filters = no_filters, sp_public = True, sp_rerank = True,
     sp_feedback = True \<rparr>"

definition retrieve :: "'v generator \<Rightarrow> uuid \<Rightarrow> string \<Rightarrow> exn + (string \<times> json list)" where
  "retrieve E tid topic =
     try_bind (search (tg_search E) tid topic (generator_options E)) (\<lambda>out.
       Inr (join nl2 (map passage_ref (so_hits out)), map passage_citation (so_hits out)))"

definition training_request :: "gen_call \<Rightarrow> int \<Rightarrow> gw_request" where
  "training_request c n =
     \<lparr> gq_ctx = \<lparr> ctx_tenant_id = gc_tenant c, ctx_tenant_slug = [], ctx_user_id = gc_user c, ctx_plan = None,
         ctx_purpose = ''training'', ctx_request_id = gc_request c \<rparr>,
       gq_temperature = JFloat (Fin (1 / 5)) ''0.2'', gq_max_tokens = Some n \<rparr>"

definition training_complete ::
  "'v generator \<Rightarrow> gen_call \<Rightarrow> string \<Rightarrow> string \<Rightarrow> int \<Rightarrow> gw_state \<Rightarrow> gw_state \<times> (exn + string)" where
  "training_complete E c sys user n st =
     (case complete (tg_gw E) (training_request c n)
             [\<lparr> msg_role = ''system'', msg_content = sys \<rparr>, \<lparr> msg_role = ''user'', msg_content = user \<rparr>] st of
        (st', r) \<Rightarrow> (st', try_bind r (\<lambda>x. Inr (gr_text x))))"

text \<open>\<open>_parse_json\<close>: an opening fence ends at its line break; on one line it stays.\<close>

definition strip_fence :: "string \<Rightarrow> string" where
  "strip_fence t =
     (let fence = replicate 3 (CHR 0x60); cleaned = strip t in
       if startswith fence cleaned
       then (let body = (case find_sub nl cleaned of None \<Rightarrow> cleaned | Some i \<Rightarrow> drop (Suc i) cleaned) in
          strip (if endswith fence body then take (length body - 3) body else body))
       else cleaned)"

definition parse_reply :: "string \<Rightarrow> exn + json" where
  "parse_reply t = json_loads (strip_fence t)"

definition is_value_error :: "exn \<Rightarrow> bool" where
  "is_value_error e = (e = PyExc ValueError \<or> e = decode_error)"

text \<open>\<open>_complete_json\<close> with the handler of its callers: a value error gives the empty payload.\<close>

definition training_json ::
  "'v generator \<Rightarrow> gen_call \<Rightarrow> string \<Rightarrow> string \<Rightarrow> int \<Rightarrow> json \<Rightarrow> gw_state \<Rightarrow> gw_state \<times> (exn + json)" where
  "training_json E c sys user n fallback st =
     (case training_complete E c sys user n st of
        (st', r) \<Rightarrow>
          (st', case try_bind r parse_reply of
             Inl e \<Rightarrow> if is_value_error e then Inr fallback else Inl e
           | Inr v \<Rightarrow> Inr v))"

definition questions_of :: "json \<Rightarrow> exn + json list" where
  "questions_of parsed =
     try_bind (case parsed of
         JObj d \<Rightarrow> py_iter (dget_or d ''questions'' (JList []))
       | JList xs \<Rightarrow> Inr xs
       | _ \<Rightarrow> Inr []) (\<lambda>qs. Inr (filter is_dict qs))"

definition references_or :: "string \<Rightarrow> string \<Rightarrow> string" where
  "references_or refs none = ''REFERENCE PASSAGES:'' @ nl @ (if refs = [] then none else refs)"

text \<open>A generator fails before it calls the model when the search does.\<close>

definition grounded ::
  "'v generator \<Rightarrow> gen_call \<Rightarrow> gw_state \<Rightarrow> (string \<Rightarrow> json list \<Rightarrow> gw_state \<times> (exn + artefact)) \<Rightarrow>
   gw_state \<times> (exn + artefact)" where
  "grounded E c st k =
     (case retrieve E (gc_tenant c) (gc_topic c) of
        Inl e \<Rightarrow> (st, Inl e)
      | Inr (refs, cites) \<Rightarrow> k refs cites)"

section \<open>Prose\<close>

definition lesson_prompt :: "string \<Rightarrow> string list option \<Rightarrow> string \<Rightarrow> string" where
  "lesson_prompt topic objectives refs =
     ''Write a training lesson on: '' @ topic @ ''.'' @
     (case objectives of
        None \<Rightarrow> []
      | Some os \<Rightarrow> if os = [] then []
          else nl2 @ ''LEARNING OBJECTIVES:'' @ nl @ join nl (map (\<lambda>x. ''- '' @ x) os)) @ nl2 @
     ''Structure: a short intro, 2-4 sections with headings, and a brief '' @
     ''summary. Cite sources inline as [document title].'' @ nl2 @
     references_or refs ''(no material found)''"

definition generate_lesson ::
  "'v generator \<Rightarrow> gen_call \<Rightarrow> string list option \<Rightarrow> gw_state \<Rightarrow> gw_state \<times> (exn + artefact)" where
  "generate_lesson E c objectives st =
     grounded E c st (\<lambda>refs cites.
       case training_complete E c LESSON_SYSTEM (lesson_prompt (gc_topic c) objectives refs) 1800 st of
         (st', r) \<Rightarrow> (st', try_bind r (\<lambda>body.
           Inr \<lparr> tf_kind = ''lesson'', tf_topic = gc_topic c, tf_title = gc_topic c, tf_body = body, tf_data = [],
             tf_grounding = [(''citations'', JList cites),
               (''objectives'', JList (map JStr (case objectives of None \<Rightarrow> [] | Some os \<Rightarrow> os)))] \<rparr>)))"

definition revision_prompt :: "string \<Rightarrow> string \<Rightarrow> string" where
  "revision_prompt topic refs =
     ''Write a revision guide on: '' @ topic @ ''. Include an overview, key points '' @
     ''as bullets, a 'Key terms' glossary, and 3 self-check questions. Cite '' @
     ''sources inline as [document title].'' @ nl2 @ references_or refs ''(none)''"

definition generate_revision_guide ::
  "'v generator \<Rightarrow> gen_call \<Rightarrow> gw_state \<Rightarrow> gw_state \<times> (exn + artefact)" where
  "generate_revision_guide E c st =
     grounded E c st (\<lambda>refs cites.
       case training_complete E c REVISION_SYSTEM (revision_prompt (gc_topic c) refs) 1400 st of
         (st', r) \<Rightarrow> (st', try_bind r (\<lambda>body.
           Inr \<lparr> tf_kind = ''revision_guide'', tf_topic = gc_topic c,
             tf_title = gc_topic c @ '' - revision guide'', tf_body = body, tf_data = [],
             tf_grounding = [(''citations'', JList cites)] \<rparr>)))"

section \<open>Structured artefacts\<close>

definition data_artefact :: "gen_call \<Rightarrow> string \<Rightarrow> string \<Rightarrow> jdict \<Rightarrow> json list \<Rightarrow> artefact" where
  "data_artefact c kind title d cites =
     \<lparr> tf_kind = kind, tf_topic = gc_topic c, tf_title = title, tf_body = [], tf_data = d,
       tf_grounding = [(''citations'', JList cites)] \<rparr>"

definition quiz_prompt :: "int \<Rightarrow> string \<Rightarrow> string \<Rightarrow> string" where
  "quiz_prompt n topic refs =
     ''Write '' @ int_str n @ '' multiple-choice questions on: '' @ topic @ ''.'' @ nl @
     ''Return JSON: {\"questions\": [{\"question\": str, \"options\": [str, str, '' @
     ''str, str], \"answer_index\": int, \"rationale\": str}]}'' @ nl2 @
     references_or refs ''(no material found)''"

definition generate_quiz ::
  "'v generator \<Rightarrow> gen_call \<Rightarrow> int \<Rightarrow> gw_state \<Rightarrow> gw_state \<times> (exn + artefact)" where
  "generate_quiz E c n st =
     grounded E c st (\<lambda>refs cites.
       case training_json E c QUIZ_SYSTEM (quiz_prompt n (gc_topic c) refs) 2400
              (JObj [(''questions'', JList [])]) st of
         (st', r) \<Rightarrow> (st', try_bind r (\<lambda>parsed. try_bind (questions_of parsed) (\<lambda>qs.
           Inr (data_artefact c ''quiz'' (gc_topic c @ '' - quiz'') [(''questions'', JList qs)] cites)))))"

definition exam_prompt :: "int \<Rightarrow> string \<Rightarrow> string \<Rightarrow> string option \<Rightarrow> string \<Rightarrow> string \<Rightarrow> string" where
  "exam_prompt n style difficulty examples topic refs =
     ''Write '' @ int_str n @ '' exam questions ('' @ style @ '') on: '' @ topic @ ''.'' @
     (if difficulty \<noteq> [] \<and> difficulty \<noteq> ''mixed''
      then '' Target difficulty level: '' @ difficulty @ '' (calibrate question demand, '' @
        ''marks and answer depth accordingly).'' else []) @
     (case examples of
        None \<Rightarrow> []
      | Some x \<Rightarrow> if strip x = [] then []
          else nl2 @ ''PAST / SAMPLE EXAM QUESTIONS - match this style, format, '' @
            ''depth and difficulty:'' @ nl @ take 4000 (strip x)) @ nl @
     ''Return JSON: {\"questions\": [{\"question\": str, \"model_answer\": str, '' @
     ''\"marks\": int, \"type\": str}]}'' @ nl2 @ references_or refs ''(no material found)''"

definition generate_exam ::
  "'v generator \<Rightarrow> gen_call \<Rightarrow> int \<Rightarrow> string \<Rightarrow> string \<Rightarrow> string option \<Rightarrow> gw_state \<Rightarrow>
   gw_state \<times> (exn + artefact)" where
  "generate_exam E c n style difficulty examples st =
     grounded E c st (\<lambda>refs cites.
       case training_json E c EXAM_SYSTEM (exam_prompt n style difficulty examples (gc_topic c) refs) 3500
              (JObj [(''questions'', JList [])]) st of
         (st', r) \<Rightarrow> (st', try_bind r (\<lambda>parsed. try_bind (questions_of parsed) (\<lambda>qs.
           Inr (data_artefact c ''exam'' (gc_topic c @ '' - exam'')
             [(''questions'', JList qs), (''style'', JStr style), (''difficulty'', JStr difficulty)] cites)))))"

text \<open>The cards and the slides: the field of a dict, any other value as it is.\<close>

definition field_or_self :: "string \<Rightarrow> json \<Rightarrow> json" where
  "field_or_self k parsed = (case parsed of JObj d \<Rightarrow> dget_or d k (JList []) | _ \<Rightarrow> parsed)"

definition flashcards_prompt :: "int \<Rightarrow> string \<Rightarrow> string \<Rightarrow> string" where
  "flashcards_prompt n topic refs =
     ''Write '' @ int_str n @ '' flashcards on: '' @ topic @ ''.'' @ nl @
     ''Return JSON: {\"cards\": [{\"front\": str, \"back\": str}]}'' @ nl2 @
     references_or refs ''(no material found)''"

definition generate_flashcards ::
  "'v generator \<Rightarrow> gen_call \<Rightarrow> int \<Rightarrow> gw_state \<Rightarrow> gw_state \<times> (exn + artefact)" where
  "generate_flashcards E c n st =
     grounded E c st (\<lambda>refs cites.
       case training_json E c FLASHCARD_SYSTEM (flashcards_prompt n (gc_topic c) refs) 2400
              (JObj [(''cards'', JList [])]) st of
         (st', r) \<Rightarrow> (st', try_bind r (\<lambda>parsed.
           Inr (data_artefact c ''flashcards'' (gc_topic c @ '' - flashcards'')
             [(''cards'', field_or_self ''cards'' parsed)] cites))))"

definition slides_prompt :: "int \<Rightarrow> string \<Rightarrow> string \<Rightarrow> string" where
  "slides_prompt n topic refs =
     ''Create a '' @ int_str n @ ''-slide training deck outline on: '' @ topic @ ''.'' @ nl @
     ''Return JSON: {\"slides\": [{\"title\": str, \"bullets\": [str, ...], '' @
     ''\"notes\": str}]}'' @ nl2 @ references_or refs ''(no material found)''"

definition generate_slides ::
  "'v generator \<Rightarrow> gen_call \<Rightarrow> int \<Rightarrow> gw_state \<Rightarrow> gw_state \<times> (exn + artefact)" where
  "generate_slides E c n st =
     grounded E c st (\<lambda>refs cites.
       case training_json E c SLIDES_SYSTEM (slides_prompt n (gc_topic c) refs) 2400
              (JObj [(''slides'', JList [])]) st of
         (st', r) \<Rightarrow> (st', try_bind r (\<lambda>parsed.
           Inr (data_artefact c ''slides'' (gc_topic c @ '' - slides'')
             [(''slides'', field_or_self ''slides'' parsed)] cites))))"

section \<open>Scenarios and blended modules\<close>

definition scenario_prompt :: "int \<Rightarrow> string option \<Rightarrow> string \<Rightarrow> string \<Rightarrow> string" where
  "scenario_prompt n role topic refs =
     ''Create a realistic workplace training scenario on: '' @ topic @ ''.'' @
     (if str_true role then '' Write it for the perspective of a '' @ the role @ ''.'' else []) @ nl @
     ''It must teach staff to recognise the warning signs and follow the '' @
     ''exact reporting procedure described in the references.'' @ nl @
     ''Return JSON with this shape:'' @ nl @ ''{'' @ nl @
     ''  \"title\": str,'' @ nl @
     ''  \"narrative\": str,            // a short story setting the scene'' @ nl @
     ''  \"situation\": str,            // the specific situation the staff member faces'' @ nl @
     ''  \"conversation\": [{\"speaker\": str, \"line\": str, \"red_flag\": bool, '' @
     ''\"note\": str}],   // a dialogue; mark which lines are warning signs and why'' @ nl @
     ''  \"red_flags\": [str],          // the warning signs a learner should spot'' @ nl @
     ''  \"reporting_steps\": [str],    // the correct identify-and-report procedure, '' @
     ''from the references (e.g. who to escalate to, what to file)'' @ nl @
     ''  \"questions\": [{\"question\": str, \"model_answer\": str, \"marks\": int}]   '' @
     ''// '' @ int_str n @ '' assessment questions on spotting and reporting'' @ nl @ ''}'' @ nl2 @
     ''Ground everything in the references - do not invent obligations or '' @
     ''reporting routes beyond them. Cite document titles in reporting_steps '' @
     ''where relevant.'' @ nl2 @ references_or refs ''(no material found)''"

definition generate_scenario ::
  "'v generator \<Rightarrow> gen_call \<Rightarrow> string option \<Rightarrow> int \<Rightarrow> gw_state \<Rightarrow> gw_state \<times> (exn + artefact)" where
  "generate_scenario E c role n st =
     grounded E c st (\<lambda>refs cites.
       case training_json E c SCENARIO_SYSTEM (scenario_prompt n role (gc_topic c) refs) 3500 (JObj []) st of
         (st', r) \<Rightarrow> (st', try_bind r (\<lambda>parsed.
           let d = (case parsed of JObj d \<Rightarrow> d | _ \<Rightarrow> []) in
           try_bind (questions_of (JObj d)) (\<lambda>qs.
             Inr (data_artefact c ''scenario''
               (py_str (por (dget d ''title'') (JStr (gc_topic c @ '' - scenario''))))
               [(''narrative'', dget_or d ''narrative'' (JStr [])), (''situation'', dget_or d ''situation'' (JStr [])),
                (''conversation'', dget_or d ''conversation'' (JList [])),
                (''red_flags'', dget_or d ''red_flags'' (JList [])),
                (''reporting_steps'', dget_or d ''reporting_steps'' (JList [])), (''questions'', JList qs)] cites)))))"

definition generate_blended ::
  "'v generator \<Rightarrow> gen_call \<Rightarrow> string list option \<Rightarrow> int \<Rightarrow> bool \<Rightarrow> gw_state \<Rightarrow> gw_state \<times> (exn + jdict)" where
  "generate_blended E c objectives n with_scenario st =
     (case generate_lesson E c objectives st of
        (st1, Inl e) \<Rightarrow> (st1, Inl e)
      | (st1, Inr lesson) \<Rightarrow>
          (case generate_quiz E c n st1 of
             (st2, Inl e) \<Rightarrow> (st2, Inl e)
           | (st2, Inr quiz) \<Rightarrow>
               let m = [(''topic'', JStr (gc_topic c)), (''lesson'', artefact_dict lesson),
                 (''quiz'', artefact_dict quiz)] in
               if with_scenario
               then (case generate_scenario E c None 4 st2 of
                   (st3, Inl e) \<Rightarrow> (st3, Inl e)
                 | (st3, Inr sc) \<Rightarrow> (st3, Inr (m @ [(''scenario'', artefact_dict sc)])))
               else (st2, Inr m)))"

section \<open>Lemmas\<close>

lemma contains_right: "contains p t \<Longrightarrow> contains p (s @ t)"
  unfolding contains_iff by (metis append.assoc)

lemma contains_references: "refs \<noteq> [] \<Longrightarrow> contains refs (references_or refs none)"
  unfolding references_or_def by (intro contains_right) (simp add: contains_iff, metis append_Nil append_Nil2)

lemmas contains_prompt = contains_right contains_references

definition cites_passages :: "artefact \<Rightarrow> hit list \<Rightarrow> bool" where
  "cites_passages a hits = (dget (tf_grounding a) ''citations'' = JList (map passage_citation hits))"

lemma grounded_cases:
  assumes "grounded E c st k = (st', Inr a)"
  obtains out where "search (tg_search E) (gc_tenant c) (gc_topic c) (generator_options E) = Inr out"
    "k (join nl2 (map passage_ref (so_hits out))) (map passage_citation (so_hits out)) = (st', Inr a)"
  using assms by (auto simp: grounded_def retrieve_def try_bind_eq_Inr split: sum.splits)

text \<open>The value a generator reads off what its call gave: the empty object when the reply is no JSON.\<close>

definition reply_value :: "exn + gateway_result \<Rightarrow> json" where
  "reply_value r = (case try_bind r (\<lambda>g. parse_reply (gr_text g)) of Inl e \<Rightarrow> JObj [] | Inr v \<Rightarrow> v)"

lemma training_complete_call:
  assumes "training_complete E c sys user n st = (st', Inr x)"
  shows "\<exists>r. complete (tg_gw E) (training_request c n)
    [\<lparr> msg_role = ''system'', msg_content = sys \<rparr>, \<lparr> msg_role = ''user'', msg_content = user \<rparr>] st = (st', Inr r) \<and>
    x = gr_text r"
  using assms by (auto simp: training_complete_def try_bind_eq_Inr split: prod.splits)

lemma training_json_call:
  assumes "training_json E c sys user n fallback st = (st', Inr v)"
  shows "\<exists>r. complete (tg_gw E) (training_request c n)
    [\<lparr> msg_role = ''system'', msg_content = sys \<rparr>, \<lparr> msg_role = ''user'', msg_content = user \<rparr>] st = (st', r) \<and>
    (v = reply_value r \<or> v = fallback \<and> reply_value r = JObj [])"
proof -
  obtain r where c: "complete (tg_gw E) (training_request c n)
    [\<lparr> msg_role = ''system'', msg_content = sys \<rparr>, \<lparr> msg_role = ''user'', msg_content = user \<rparr>] st = (st', r)"
    using assms by (auto simp: training_json_def training_complete_def split: prod.splits)
  show ?thesis
  proof (cases r)
    case (Inl e)
    then show ?thesis
      using c assms by (auto simp: training_json_def training_complete_def reply_value_def split: if_splits)
  next
    case (Inr g)
    then show ?thesis
      using c assms by (auto simp: training_json_def training_complete_def reply_value_def split: if_splits sum.splits)
  qed
qed

text \<open>
  What a generator makes of the passages it found: it cites them, puts them into its prompt, and reads the artefact
  off what the call gave.
\<close>

definition grounds ::
  "'v generator \<Rightarrow> gen_call \<Rightarrow> gw_state \<Rightarrow> gw_state \<Rightarrow> artefact \<Rightarrow> (string \<Rightarrow> string) \<Rightarrow>
   (exn + gateway_result \<Rightarrow> artefact \<Rightarrow> bool) \<Rightarrow> bool" where
  "grounds E c st st' a prompt reads =
     (\<exists>out sys k r. search (tg_search E) (gc_tenant c) (gc_topic c) (generator_options E) = Inr out \<and>
        cites_passages a (so_hits out) \<and>
        complete (tg_gw E) (training_request c k)
          [\<lparr> msg_role = ''system'', msg_content = sys \<rparr>,
           \<lparr> msg_role = ''user'', msg_content = prompt (join nl2 (map passage_ref (so_hits out))) \<rparr>] st = (st', r) \<and>
        reads r a)"

definition reads_body :: "exn + gateway_result \<Rightarrow> artefact \<Rightarrow> bool" where
  "reads_body r a = (\<exists>g. r = Inr g \<and> tf_body a = gr_text g)"

definition reads_questions :: "exn + gateway_result \<Rightarrow> artefact \<Rightarrow> bool" where
  "reads_questions r a = (\<exists>qs. questions_of (reply_value r) = Inr qs \<and> dget (tf_data a) ''questions'' = JList qs)"

definition reads_field :: "string \<Rightarrow> exn + gateway_result \<Rightarrow> artefact \<Rightarrow> bool" where
  "reads_field k r a = (dget (tf_data a) k = field_or_self k (reply_value r))"

definition reads_scenario :: "exn + gateway_result \<Rightarrow> artefact \<Rightarrow> bool" where
  "reads_scenario r a =
     (\<exists>d qs. d = (case reply_value r of JObj d \<Rightarrow> d | _ \<Rightarrow> []) \<and> questions_of (JObj d) = Inr qs \<and>
        dget (tf_data a) ''questions'' = JList qs \<and>
        list_all (\<lambda>(k, v). dget (tf_data a) k = dget_or d k v)
          [(''narrative'', JStr []), (''situation'', JStr []), (''conversation'', JList []), (''red_flags'', JList []),
           (''reporting_steps'', JList [])])"

lemma made_prose:
  assumes "grounded E c st (\<lambda>refs cs. case training_complete E c sys (prompt refs) n st of
      (st', r) \<Rightarrow> (st', try_bind r (\<lambda>body. Inr (mk body cs)))) = (st', Inr a)"
    and "\<And>body cs. dget (tf_grounding (mk body cs)) ''citations'' = JList cs \<and> tf_body (mk body cs) = body"
  shows "grounds E c st st' a prompt reads_body"
  using assms(1)
proof (rule grounded_cases)
  fix out
  assume s: "search (tg_search E) (gc_tenant c) (gc_topic c) (generator_options E) = Inr out"
    and "(case training_complete E c sys (prompt (join nl2 (map passage_ref (so_hits out)))) n st of
      (st', r) \<Rightarrow> (st', try_bind r (\<lambda>body. Inr (mk body (map passage_citation (so_hits out)))))) = (st', Inr a)"
  then obtain body where t: "training_complete E c sys (prompt (join nl2 (map passage_ref (so_hits out)))) n st = (st', Inr body)"
    and a: "a = mk body (map passage_citation (so_hits out))"
    by (auto simp: try_bind_eq_Inr split: prod.splits)
  obtain r where "complete (tg_gw E) (training_request c n)
    [\<lparr> msg_role = ''system'', msg_content = sys \<rparr>, \<lparr> msg_role = ''user'',
      msg_content = prompt (join nl2 (map passage_ref (so_hits out))) \<rparr>] st = (st', Inr r)" "body = gr_text r"
    using training_complete_call [OF t] by blast
  moreover have "reads_body (Inr r) a" "cites_passages a (so_hits out)"
    using assms(2) a \<open>body = gr_text r\<close> by (simp_all add: reads_body_def cites_passages_def)
  ultimately show ?thesis using s unfolding grounds_def by blast
qed

lemma made_data:
  assumes "grounded E c st (\<lambda>refs cs. case training_json E c sys (prompt refs) n fallback st of
      (st', r) \<Rightarrow> (st', try_bind r (\<lambda>v. mk v cs))) = (st', Inr a)"
    and "\<And>v cs a. mk v cs = Inr a \<Longrightarrow> dget (tf_grounding a) ''citations'' = JList cs"
    and "\<And>v cs a r. mk v cs = Inr a \<Longrightarrow> v = reply_value r \<or> v = fallback \<and> reply_value r = JObj [] \<Longrightarrow> reads r a"
  shows "grounds E c st st' a prompt reads"
  using assms(1)
proof (rule grounded_cases)
  fix out
  assume s: "search (tg_search E) (gc_tenant c) (gc_topic c) (generator_options E) = Inr out"
    and "(case training_json E c sys (prompt (join nl2 (map passage_ref (so_hits out)))) n fallback st of
      (st', r) \<Rightarrow> (st', try_bind r (\<lambda>v. mk v (map passage_citation (so_hits out))))) = (st', Inr a)"
  then obtain v where t: "training_json E c sys (prompt (join nl2 (map passage_ref (so_hits out)))) n fallback st = (st', Inr v)"
    and a: "mk v (map passage_citation (so_hits out)) = Inr a"
    by (auto simp: try_bind_eq_Inr split: prod.splits)
  show ?thesis
    using training_json_call [OF t] s assms(2) [OF a] assms(3) [OF a] unfolding grounds_def cites_passages_def by blast
qed

text \<open>Every prompt ends with the passages.\<close>

lemma prompts_end:
  assumes "refs \<noteq> []"
  shows "contains refs (lesson_prompt topic os refs)" "contains refs (revision_prompt topic refs)"
    "contains refs (quiz_prompt n topic refs)" "contains refs (exam_prompt n sty dif ex topic refs)"
    "contains refs (flashcards_prompt n topic refs)" "contains refs (slides_prompt n topic refs)"
    "contains refs (scenario_prompt n role topic refs)"
  using assms
  unfolding lesson_prompt_def revision_prompt_def quiz_prompt_def exam_prompt_def flashcards_prompt_def
    slides_prompt_def scenario_prompt_def
  by - (intro contains_right contains_references, assumption)+

lemma lesson_grounds:
  "generate_lesson E c os st = (st', Inr a) \<Longrightarrow> grounds E c st st' a (lesson_prompt (gc_topic c) os) reads_body"
  unfolding generate_lesson_def by (erule made_prose) (simp_all add: dget_def dget_or_def)

lemma revision_grounds:
  "generate_revision_guide E c st = (st', Inr a) \<Longrightarrow> grounds E c st st' a (revision_prompt (gc_topic c)) reads_body"
  unfolding generate_revision_guide_def by (erule made_prose) (simp_all add: dget_def dget_or_def)

lemma reads_questionsI:
  "questions_of v = Inr qs \<Longrightarrow> v = reply_value r \<or> v = JObj [(''questions'', JList [])] \<and> reply_value r = JObj [] \<Longrightarrow>
   dget (tf_data a) ''questions'' = JList qs \<Longrightarrow> reads_questions r a"
  by (auto simp: reads_questions_def questions_of_def dget_or_def)

lemma reads_fieldI:
  "dget (tf_data a) k = field_or_self k v \<Longrightarrow> v = reply_value r \<or> v = JObj [(k, JList [])] \<and> reply_value r = JObj [] \<Longrightarrow>
   reads_field k r a"
  by (auto simp: reads_field_def field_or_self_def dget_or_def)

lemma quiz_grounds:
  "generate_quiz E c n st = (st', Inr a) \<Longrightarrow> grounds E c st st' a (quiz_prompt n (gc_topic c)) reads_questions"
  unfolding generate_quiz_def
  by (erule made_data) (auto simp: try_bind_eq_Inr data_artefact_def dget_def dget_or_def elim!: reads_questionsI)

lemma exam_grounds:
  "generate_exam E c n sty dif ex st = (st', Inr a) \<Longrightarrow>
   grounds E c st st' a (exam_prompt n sty dif ex (gc_topic c)) reads_questions"
  unfolding generate_exam_def
  by (erule made_data) (auto simp: try_bind_eq_Inr data_artefact_def dget_def dget_or_def elim!: reads_questionsI)

lemma flashcards_grounds:
  "generate_flashcards E c n st = (st', Inr a) \<Longrightarrow>
   grounds E c st st' a (flashcards_prompt n (gc_topic c)) (reads_field ''cards'')"
  unfolding generate_flashcards_def
  by (erule made_data) (auto simp: data_artefact_def dget_def dget_or_def intro!: reads_fieldI)

lemma slides_grounds:
  "generate_slides E c n st = (st', Inr a) \<Longrightarrow>
   grounds E c st st' a (slides_prompt n (gc_topic c)) (reads_field ''slides'')"
  unfolding generate_slides_def
  by (erule made_data) (auto simp: data_artefact_def dget_def dget_or_def intro!: reads_fieldI)

lemma scenario_grounds:
  "generate_scenario E c role n st = (st', Inr a) \<Longrightarrow>
   grounds E c st st' a (scenario_prompt n role (gc_topic c)) reads_scenario"
  unfolding generate_scenario_def Let_def
  by (erule made_data) (auto simp: try_bind_eq_Inr reads_scenario_def data_artefact_def dget_def dget_or_def)

lemmas generator_grounds = lesson_grounds revision_grounds quiz_grounds exam_grounds flashcards_grounds
  slides_grounds scenario_grounds

lemma contains_join: "x \<in> set xs \<Longrightarrow> contains x (join sep xs)"
proof (induction sep xs rule: join.induct)
  case (3 sep x' y xs)
  show ?case
  proof (cases "x = x'")
    case True
    then show ?thesis unfolding contains_iff by (intro exI [of _ "[]"] exI [of _ "sep @ join sep (y # xs)"]) simp
  next
    case False
    then have "contains x (join sep (y # xs))" using 3 by auto
    then show ?thesis by (simp add: contains_right del: append_assoc)
  qed
qed (auto simp: contains_iff intro: exI [of _ "[]"])

lemma contains_trans: "contains p t \<Longrightarrow> contains t u \<Longrightarrow> contains p u"
  unfolding contains_iff by (metis append.assoc)

section \<open>Replies that are not the JSON asked for\<close>

text \<open>The parser fails with value errors only.\<close>

definition value_errors :: "exn + 'a \<Rightarrow> bool" where
  "value_errors r = (\<forall>e. r = Inl e \<longrightarrow> is_value_error e)"

lemma value_errors_simps [simp]:
  "value_errors (Inr x)" "value_errors (Inl e) = is_value_error e"
  "is_value_error decode_error" "is_value_error (PyExc ValueError)"
  by (simp_all add: value_errors_def is_value_error_def)

lemma value_errors_bind [intro]:
  "value_errors m \<Longrightarrow> (\<And>x. m = Inr x \<Longrightarrow> value_errors (f x)) \<Longrightarrow> value_errors (try_bind m f)"
  by (cases m) (auto simp: value_errors_def)

lemma value_errors_if [intro]:
  "(b \<Longrightarrow> value_errors x) \<Longrightarrow> (\<not> b \<Longrightarrow> value_errors y) \<Longrightarrow> value_errors (if b then x else y)"
  by simp

lemma value_errors_list [intro]:
  "(xs = [] \<Longrightarrow> value_errors x) \<Longrightarrow> (\<And>c t. xs = c # t \<Longrightarrow> value_errors (f c t)) \<Longrightarrow>
   value_errors (case xs of [] \<Rightarrow> x | c # t \<Rightarrow> f c t)"
  by (cases xs) simp_all

lemma value_errors_prod [intro]:
  "(\<And>a b. p = (a, b) \<Longrightarrow> value_errors (f a b)) \<Longrightarrow> value_errors (case p of (a, b) \<Rightarrow> f a b)"
  by (cases p) simp

lemma value_errors_option [intro]:
  "(m = None \<Longrightarrow> value_errors x) \<Longrightarrow> (\<And>y. m = Some y \<Longrightarrow> value_errors (f y)) \<Longrightarrow>
   value_errors (case m of None \<Rightarrow> x | Some y \<Rightarrow> f y)"
  by (cases m) simp_all

lemmas value_errors_intros = value_errors_if value_errors_list value_errors_prod value_errors_option value_errors_bind

lemma parse_string_errors: "value_errors (parse_string s)"
proof (induction s rule: parse_string.induct)
  case (2 c s)
  show ?case unfolding parse_string.simps Let_def
    by (intro value_errors_intros) (simp_all add: 2 Let_def)
qed simp

lemma value_errors_float [intro]:
  "(\<And>x. y = Fin x \<Longrightarrow> value_errors (f x)) \<Longrightarrow> value_errors p \<Longrightarrow> value_errors n \<Longrightarrow> value_errors u \<Longrightarrow>
   value_errors (case y of Fin x \<Rightarrow> f x | PosInf \<Rightarrow> p | NegInf \<Rightarrow> n | NaN \<Rightarrow> u)"
  by (cases y) simp_all

lemma number_value_errors: "value_errors (number_value neg ds fr ex)"
  unfolding number_value_def Let_def by (intro value_errors_intros value_errors_float) simp_all

lemma parse_digits_errors: "value_errors (parse_digits neg s)"
  unfolding parse_digits_def Let_def by (intro value_errors_intros number_value_errors) simp_all

lemma parse_number_errors: "value_errors (parse_number s)"
  unfolding parse_number_def by (intro value_errors_if) (simp_all add: parse_digits_errors)

lemma parse_errors:
  "value_errors (parse_value n s)" "value_errors (parse_elements n s)" "value_errors (parse_members n d s)"
proof (induction n s and n s and n d s rule: parse_value_parse_elements_parse_members.induct)
  case (2 n s)
  show ?case unfolding parse_value.simps
    by (intro value_errors_intros parse_string_errors parse_number_errors) (simp_all add: 2)
next
  case (4 n s)
  show ?case unfolding parse_elements.simps by (intro value_errors_intros) (simp_all add: 4)
next
  case (6 n d s)
  show ?case unfolding parse_members.simps
    by (intro value_errors_intros parse_string_errors) (simp_all add: 6 del: One_nat_def)
qed simp_all

lemma parse_reply_error: "parse_reply t = Inl e \<Longrightarrow> is_value_error e"
proof -
  have "value_errors (parse_reply t)"
    unfolding parse_reply_def json_loads_def
    by (intro value_errors_bind parse_errors) (simp split: prod.splits)
  then show "parse_reply t = Inl e \<Longrightarrow> is_value_error e" by (simp add: value_errors_def)
qed

text \<open>With a reply of the model no parse error leaves \<open>_complete_json\<close>.\<close>

lemma training_json_of_reply:
  assumes "training_complete E c sys user n st = (st', Inr reply)"
  shows "training_json E c sys user n fallback st =
    (st', Inr (case parse_reply reply of Inl _ \<Rightarrow> fallback | Inr v \<Rightarrow> v))"
  using assms by (cases "parse_reply reply") (simp_all add: training_json_def parse_reply_error)

lemma py_iter_error: "py_iter v = Inl e \<Longrightarrow> e = PyExc TypeError"
  by (cases v) auto

section \<open>Properties\<close>


text \<open>
  What becomes of a quiz reply: text that is not JSON gives a quiz without questions, anything but objects is left
  out of the questions, and the only error is a TypeError, raised exactly when the reply is an object whose
  questions are null, a boolean or a number.
\<close>

theorem quiz_outcomes:
  assumes "retrieve E (gc_tenant c) (gc_topic c) = Inr (refs, cites)"
    and "training_complete E c QUIZ_SYSTEM (quiz_prompt n (gc_topic c) refs) 2400 st = (st', Inr reply)"
  shows "\<exists>r. generate_quiz E c n st = (st', r) \<and>
    (case r of
       Inl e \<Rightarrow> e = PyExc TypeError \<and> (\<exists>d. parse_reply reply = Inr (JObj d) \<and>
         py_iter (dget_or d ''questions'' (JList [])) = Inl (PyExc TypeError))
     | Inr a \<Rightarrow> (\<exists>qs. dget (tf_data a) ''questions'' = JList qs \<and> list_all is_dict qs) \<and>
         (\<forall>e. parse_reply reply = Inl e \<longrightarrow> dget (tf_data a) ''questions'' = JList []) \<and>
         (\<forall>d. parse_reply reply = Inr (JObj d) \<longrightarrow> (\<exists>xs. py_iter (dget_or d ''questions'' (JList [])) = Inr xs)))"
proof -
  let ?quiz = "\<lambda>qs. data_artefact c ''quiz'' (gc_topic c @ '' - quiz'') [(''questions'', JList qs)] cites"
  let ?v = "case parse_reply reply of Inl _ \<Rightarrow> JObj [(''questions'', JList [])] | Inr v \<Rightarrow> v"
  have g: "generate_quiz E c n st = (st', try_bind (questions_of ?v) (\<lambda>qs. Inr (?quiz qs)))"
    by (simp add: generate_quiz_def grounded_def assms(1) training_json_of_reply [OF assms(2)])
  have q: "dget (tf_data (?quiz qs)) ''questions'' = JList qs" for qs
    by (simp add: data_artefact_def dget_def dget_or_def)
  have err: "questions_of ?v = Inl e \<Longrightarrow> e = PyExc TypeError \<and> (\<exists>d. parse_reply reply = Inr (JObj d) \<and>
      py_iter (dget_or d ''questions'' (JList [])) = Inl (PyExc TypeError))" for e
    by (auto simp: questions_of_def try_bind_eq_Inl dget_or_def dest: py_iter_error
        split: sum.splits json.splits option.splits)
  have ok: "questions_of ?v = Inr qs \<Longrightarrow> list_all is_dict qs \<and>
      (\<forall>e. parse_reply reply = Inl e \<longrightarrow> qs = []) \<and>
      (\<forall>d. parse_reply reply = Inr (JObj d) \<longrightarrow> (\<exists>xs. py_iter (dget_or d ''questions'' (JList [])) = Inr xs))" for qs
    by (auto simp: questions_of_def try_bind_eq_Inr dget_or_def list_all_iff)
  show ?thesis
  proof (cases "questions_of ?v")
    case (Inl e)
    then show ?thesis using g err by simp
  next
    case (Inr qs)
    then show ?thesis using g ok q by simp
  qed
qed

section \<open>A sample deployment\<close>

definition sample_generator :: "string \<Rightarrow> unit generator" where
  "sample_generator reply = \<lparr> tg_search = sample_search, tg_gw = answering_env reply, tg_ground_k = GROUND_K \<rparr>"

definition sample_gen_call :: gen_call where
  "sample_gen_call = \<lparr> gc_tenant = ''t1'', gc_topic = ''q'', gc_user = Some ''u1'', gc_request = None \<rparr>"

lemma sample_generator_search:
  "\<exists>out. search (tg_search (sample_generator reply)) ''t1'' ''q'' (generator_options (sample_generator reply)) = Inr out \<and>
     map h_chunk_id (so_hits out) = [''c1'']"
proof -
  have v: "visible_tenant_ids (se_settings sample_search) (se_tenants sample_search) ''t1'' = [''t1'']"
    by (simp add: sample_search_def visible_tenant_ids_def public_corpus_tenant_id_def)
  have h: "map h_chunk_id (take 8 (hybrid_retrieve RRF_CONSTANT (se_db sample_search) [''t1''] no_filters ''q'' 24)) =
      [''c1'']" by code_simp
  have f: "feedback_step sample_search ids q hits = hits" for ids q hits
    by (simp add: feedback_step_def sample_search_def signals_for_def apply_feedback_nudge_def)
  have r: "se_rerank sample_search = noop_rerank" "se_retrieve_k sample_search = 12"
    by (simp_all add: sample_search_def)
  show ?thesis using h
    by (simp add: search_def generator_options_def sample_generator_def v Let_def r f noop_rerank_def GROUND_K_def
      cut_def)
qed

lemma sample_training_complete:
  "\<exists>st'. training_complete (sample_generator reply) sample_gen_call sys user n sample_state = (st', Inr reply)"
proof -
  have t: "ctx_tenant_id (gq_ctx (training_request sample_gen_call n)) = ''t1''"
    by (simp add: training_request_def sample_gen_call_def)
  obtain st' g where "complete (answering_env reply) (training_request sample_gen_call n)
      [\<lparr> msg_role = ''system'', msg_content = sys \<rparr>, \<lparr> msg_role = ''user'', msg_content = user \<rparr>] sample_state = (st', Inr g)"
    "gr_text g = reply"
    using answering_complete [OF t] by blast
  then show ?thesis by (simp add: training_complete_def sample_generator_def)
qed

lemma sample_retrieve:
  "\<exists>refs cs. retrieve (sample_generator reply) ''t1'' ''q'' = Inr (refs, cs) \<and> length cs = 1"
  using sample_generator_search [of reply] by (auto simp: retrieve_def dest: arg_cong [where f = length])


theorem quiz_outcomes_witness:
  "\<exists>st'. generate_quiz (sample_generator ''{\"questions\": null}'') sample_gen_call 5 sample_state =
     (st', Inl (PyExc TypeError))"
proof -
  let ?G = "sample_generator ''{\"questions\": null}''"
  obtain refs cs where r: "retrieve ?G (gc_tenant sample_gen_call) (gc_topic sample_gen_call) = Inr (refs, cs)"
    using sample_retrieve [of "''{\"questions\": null}''"] by (auto simp: sample_gen_call_def)
  obtain st' where c: "training_complete ?G sample_gen_call QUIZ_SYSTEM
      (quiz_prompt 5 (gc_topic sample_gen_call) refs) 2400 sample_state = (st', Inr ''{\"questions\": null}'')"
    using sample_training_complete by blast
  have p: "parse_reply ''{\"questions\": null}'' = Inr (JObj [(''questions'', JNull)])" by code_simp
  have n: "py_iter (dget_or [(''questions'', JNull)] ''questions'' (JList [])) = Inl (PyExc TypeError)"
    by (simp add: dget_or_def)
  obtain x where x: "generate_quiz ?G sample_gen_call 5 sample_state = (st', x)"
    and o: "case x of
       Inl e \<Rightarrow> e = PyExc TypeError \<and> (\<exists>d. parse_reply ''{\"questions\": null}'' = Inr (JObj d) \<and>
         py_iter (dget_or d ''questions'' (JList [])) = Inl (PyExc TypeError))
     | Inr a \<Rightarrow> (\<exists>qs. dget (tf_data a) ''questions'' = JList qs \<and> list_all is_dict qs) \<and>
         (\<forall>e. parse_reply ''{\"questions\": null}'' = Inl e \<longrightarrow> dget (tf_data a) ''questions'' = JList []) \<and>
         (\<forall>d. parse_reply ''{\"questions\": null}'' = Inr (JObj d) \<longrightarrow>
           (\<exists>xs. py_iter (dget_or d ''questions'' (JList [])) = Inr xs))"
    using quiz_outcomes [OF r c] by blast
  show ?thesis
  proof (cases x)
    case (Inl e)
    then show ?thesis using x o by simp
  next
    case (Inr a)
    then have "\<exists>xs. py_iter (dget_or [(''questions'', JNull)] ''questions'' (JList [])) = Inr xs" using o p by simp
    then show ?thesis using n by simp
  qed
qed

end
