(* ===== verification/Grading.thy ===== *)
theory Grading
  imports Training
begin

text \<open>
  Rubric grading (\<open>askai/training/grade.py\<close>): the criteria of a rubric in their several shapes, the governed call
  that scores a submission, and the clamped, weighted total.  Floats are exact up to their range, with infinities
  and NaN; the shortest texts of floats and the texts of exceptions are parameters.
\<close>

section \<open>Arithmetic on floats\<close>

fun fsign :: "pyfloat \<Rightarrow> int" where
  "fsign (Fin x) = (if 0 < x then 1 else if x < 0 then -1 else 0)"
| "fsign PosInf = 1"
| "fsign NegInf = -1"
| "fsign NaN = 0"

definition finf :: "int \<Rightarrow> pyfloat" where
  "finf s = (if s = 0 then NaN else if 0 < s then PosInf else NegInf)"

fun fadd :: "pyfloat \<Rightarrow> pyfloat \<Rightarrow> pyfloat" where
  "fadd (Fin x) (Fin y) = to_float (x + y)"
| "fadd NaN _ = NaN"
| "fadd _ NaN = NaN"
| "fadd PosInf NegInf = NaN"
| "fadd NegInf PosInf = NaN"
| "fadd PosInf _ = PosInf"
| "fadd NegInf _ = NegInf"
| "fadd _ y = y"

fun fmul :: "pyfloat \<Rightarrow> pyfloat \<Rightarrow> pyfloat" where
  "fmul (Fin x) (Fin y) = to_float (x * y)"
| "fmul NaN _ = NaN"
| "fmul _ NaN = NaN"
| "fmul x y = finf (fsign x * fsign y)"

text \<open>The code divides by non-zero floats only.\<close>

fun fdiv :: "pyfloat \<Rightarrow> pyfloat \<Rightarrow> pyfloat" where
  "fdiv (Fin x) (Fin y) = to_float (x / y)"
| "fdiv NaN _ = NaN"
| "fdiv _ NaN = NaN"
| "fdiv (Fin x) _ = Fin 0"
| "fdiv x (Fin y) = finf (fsign x * (if 0 \<le> y then 1 else -1))"
| "fdiv _ _ = NaN"

fun fround :: "nat \<Rightarrow> pyfloat \<Rightarrow> pyfloat" where
  "fround n (Fin x) = Fin (py_round x n)"
| "fround n y = y"

definition fsum :: "pyfloat list \<Rightarrow> pyfloat" where
  "fsum xs = foldl fadd (Fin 0) xs"

text \<open>\<open>format(x, '.0f')\<close>\<close>

fun percent_text :: "pyfloat \<Rightarrow> string" where
  "percent_text (Fin x) = (if x < 0 \<and> round_int x = 0 then ''-0'' else int_str (round_int x))"
| "percent_text PosInf = ''inf''"
| "percent_text NegInf = ''-inf''"
| "percent_text NaN = ''nan''"

section \<open>Criteria\<close>

record criterion =
  cn_key :: string
  cn_description :: string
  cn_max :: pyfloat
  cn_weight :: pyfloat

definition criterion_of :: "nat \<Rightarrow> jdict \<Rightarrow> exn + criterion" where
  "criterion_of i raw =
     try_bind (py_float (por (dget raw ''max_points'') (por (dget raw ''points'') (JInt 10)))) (\<lambda>m.
     try_bind (py_float (por (dget raw ''weight'') (JFloat (Fin 1) ''1.0''))) (\<lambda>w.
       Inr \<lparr> cn_key = py_str (por (dget raw ''key'') (por (dget raw ''name'') (JStr (''criterion_'' @ nat_str (i + 1))))),
         cn_description = py_str (por (dget raw ''description'') (por (dget raw ''desc'') (JStr []))),
         cn_max = m, cn_weight = w \<rparr>))"

fun criteria_loop :: "nat \<Rightarrow> json list \<Rightarrow> exn + criterion list" where
  "criteria_loop i [] = Inr []"
| "criteria_loop i (x # xs) =
     (case x of
        JObj raw \<Rightarrow> try_bind (criterion_of i raw) (\<lambda>c. try_bind (criteria_loop (Suc i) xs) (\<lambda>cs. Inr (c # cs)))
      | _ \<Rightarrow> criteria_loop (Suc i) xs)"

definition normalise_criteria :: "json \<Rightarrow> exn + criterion list" where
  "normalise_criteria criteria =
     try_bind (case criteria of
         JObj d \<Rightarrow> py_iter (dget_or d ''items'' (JList []))
       | JList xs \<Rightarrow> Inr xs
       | _ \<Rightarrow> Inr []) (criteria_loop 0)"

section \<open>The prompt\<close>

definition GRADER_SYSTEM :: string where
  "GRADER_SYSTEM =
     ''You are a rigorous, fair compliance assessor. You grade a learner's answer '' @
     ''against a rubric, one criterion at a time. You never invent facts about the '' @
     ''submission. You output ONLY valid JSON, no prose, no code fences.''"

definition grading_prompt :: "(pyfloat \<Rightarrow> string) \<Rightarrow> string \<Rightarrow> string option \<Rightarrow> criterion list \<Rightarrow> string" where
  "grading_prompt repr content instructions crit =
     join nl
       ([''Grade the SUBMISSION against each rubric CRITERION.'', [],
         ''Return a JSON array. For every criterion return an object:'',
         ''{\"key\": <criterion key>, \"points\": <number 0..max_points>, '' @
         ''\"comment\": <one or two sentences citing the submission>}'', [], ''RUBRIC CRITERIA:''] @
        map (\<lambda>c. ''- key='' @ cn_key c @ '' (max_points='' @ repr (cn_max c) @ ''): '' @ cn_description c) crit @
        (if str_true instructions then [[], ''ASSESSMENT INSTRUCTIONS:'', the instructions] else []) @
        [[], ''SUBMISSION:'', if content = [] then ''(empty submission)'' else content])"

section \<open>Scores\<close>

record score_row =
  sw_key :: string
  sw_points :: pyfloat
  sw_max :: pyfloat
  sw_weight :: pyfloat
  sw_comment :: string

record grade_result =
  gd_scores :: "score_row list"
  gd_total :: "pyfloat option"
  gd_max :: "pyfloat option"
  gd_feedback :: string
  gd_status :: string
  gd_passed :: "bool option"

text \<open>The rows of the reply by their key; of two rows with one key the later counts.\<close>

definition reply_rows :: "json \<Rightarrow> exn + jdict list" where
  "reply_rows parsed =
     try_bind (case parsed of
         JList xs \<Rightarrow> Inr xs
       | JObj d \<Rightarrow> py_iter (dget_or d ''scores'' (JList []))
       | _ \<Rightarrow> Inl (PyExc AttributeError)) (\<lambda>rows.
       Inr (concat (map (\<lambda>r. case r of JObj d \<Rightarrow> [d] | _ \<Rightarrow> []) rows)))"

definition row_for :: "string \<Rightarrow> jdict list \<Rightarrow> jdict" where
  "row_for k rows = (case find (\<lambda>d. py_str (dget d ''key'') = k) (rev rows) of None \<Rightarrow> [] | Some d \<Rightarrow> d)"

definition clamped_points :: "criterion \<Rightarrow> jdict \<Rightarrow> exn + pyfloat" where
  "clamped_points c row =
     (case dget row ''points'' of
        JNull \<Rightarrow> Inr (Fin 0)
      | v \<Rightarrow> try_bind (py_float v) (\<lambda>x. Inr (fmax (Fin 0) (fmin x (cn_max c)))))"

definition score_criterion :: "jdict list \<Rightarrow> criterion \<Rightarrow> exn + score_row" where
  "score_criterion rows c =
     (let row = row_for (cn_key c) rows in
       try_bind (clamped_points c row) (\<lambda>p.
         Inr \<lparr> sw_key = cn_key c, sw_points = p, sw_max = cn_max c, sw_weight = cn_weight c,
           sw_comment = py_str (por (dget row ''comment'') (JStr [])) \<rparr>))"

definition weighted_total :: "score_row list \<Rightarrow> pyfloat" where
  "weighted_total ss = fsum (map (\<lambda>s. fmul (sw_points s) (sw_weight s)) ss)"

definition weighted_max :: "score_row list \<Rightarrow> pyfloat" where
  "weighted_max ss = fsum (map (\<lambda>s. fmul (sw_max s) (sw_weight s)) ss)"

section \<open>Feedback\<close>

definition score_ratio :: "score_row \<Rightarrow> pyfloat" where
  "score_ratio s = fdiv (sw_points s) (if sw_max s = Fin 0 then Fin 1 else sw_max s)"

text \<open>\<open>max\<close> and \<open>min\<close> with a key: the first of the extremal elements, here by its index.\<close>

definition first_best :: "(pyfloat \<Rightarrow> pyfloat \<Rightarrow> bool) \<Rightarrow> score_row list \<Rightarrow> nat" where
  "first_best better ss =
     foldl (\<lambda>b i. if better (score_ratio (ss ! i)) (score_ratio (ss ! b)) then i else b) 0 [1..<length ss]"

definition summarise_feedback :: "score_row list \<Rightarrow> pyfloat option \<Rightarrow> string" where
  "summarise_feedback ss pct =
     (case pct of
        None \<Rightarrow> ''Scored, but no maximum was defined for the rubric.''
      | Some x \<Rightarrow>
          let strong = first_best (\<lambda>a b. flt b a) ss; weak = first_best flt ss in
          join '' '' ([''Overall: '' @ percent_text x @ ''%.''] @
            (if ss = [] then [] else [''Strongest: '' @ sw_key (ss ! strong) @ ''.'']) @
            (if ss = [] \<or> weak = strong then [] else [''Needs work: '' @ sw_key (ss ! weak) @ ''.''])))"

section \<open>Grading\<close>

definition grading_request :: "uuid \<Rightarrow> string option \<Rightarrow> string option \<Rightarrow> gw_request" where
  "grading_request tid uid rid =
     \<lparr> gq_ctx = \<lparr> ctx_tenant_id = tid, ctx_tenant_slug = [], ctx_user_id = uid, ctx_plan = None,
         ctx_purpose = ''grading'', ctx_request_id = rid \<rparr>,
       gq_temperature = JFloat (Fin 0) ''0.0'', gq_max_tokens = Some 1800 \<rparr>"

definition needs_rubric :: grade_result where
  "needs_rubric = \<lparr> gd_scores = [], gd_total = None, gd_max = None,
     gd_feedback = ''No rubric criteria defined - cannot score automatically.'', gd_status = ''needs_rubric'',
     gd_passed = None \<rparr>"

definition grading_failed :: "(exn \<Rightarrow> string) \<Rightarrow> criterion list \<Rightarrow> exn \<Rightarrow> grade_result" where
  "grading_failed text_of crit e =
     (let m = fsum (map cn_max crit) in
       \<lparr> gd_scores = [], gd_total = None, gd_max = (if m = Fin 0 then None else Some m),
         gd_feedback = ''Automated grading failed to parse a result: '' @ text_of e, gd_status = ''error'',
         gd_passed = None \<rparr>)"

definition caught_by_grader :: "exn \<Rightarrow> bool" where
  "caught_by_grader e = (is_value_error e \<or> (\<exists>k. e = PyExc (KeyError k)))"

lemma caught_by_grader_code [code]:
  "caught_by_grader e = (is_value_error e \<or> (case e of PyExc (KeyError k) \<Rightarrow> True | _ \<Rightarrow> False))"
  by (auto simp: caught_by_grader_def split: exn.splits py_exc.splits)

definition graded :: "score_row list \<Rightarrow> rat option \<Rightarrow> grade_result" where
  "graded ss mark =
     (let t = weighted_total ss; m = weighted_max ss;
          pct = (if m = Fin 0 then None else Some (fmul (fdiv t m) (Fin 100))) in
       \<lparr> gd_scores = ss, gd_total = Some (fround 2 t), gd_max = Some (fround 2 m),
         gd_feedback = summarise_feedback ss pct, gd_status = ''complete'',
         gd_passed = (case (pct, mark) of (Some x, Some y) \<Rightarrow> Some (fle (Fin y) x) | _ \<Rightarrow> None) \<rparr>)"

definition grading_messages ::
  "(pyfloat \<Rightarrow> string) \<Rightarrow> string option \<Rightarrow> string option \<Rightarrow> string option \<Rightarrow> criterion list \<Rightarrow> llm_message list"
where
  "grading_messages repr content instructions context crit =
     [\<lparr> msg_role = ''system'', msg_content = GRADER_SYSTEM \<rparr>,
      \<lparr> msg_role = ''user'', msg_content =
         grading_prompt repr (case content of None \<Rightarrow> [] | Some x \<Rightarrow> x) instructions crit @
         (if str_true context
          then nl2 @ ''REFERENCE MATERIAL (for grounding / originality):'' @ nl @ the context else []) \<rparr>]"

definition score_reply :: "criterion list \<Rightarrow> rat option \<Rightarrow> json \<Rightarrow> exn + grade_result" where
  "score_reply crit mark parsed =
     try_bind (reply_rows parsed) (\<lambda>rows.
     try_bind (try_map (score_criterion rows) crit) (\<lambda>ss. Inr (graded ss mark)))"

definition grade ::
  "gw_env \<Rightarrow> (pyfloat \<Rightarrow> string) \<Rightarrow> (exn \<Rightarrow> string) \<Rightarrow> uuid \<Rightarrow> string option \<Rightarrow> json \<Rightarrow> string option \<Rightarrow>
   string option \<Rightarrow> rat option \<Rightarrow> string option \<Rightarrow> string option \<Rightarrow> gw_state \<Rightarrow> gw_state \<times> (exn + grade_result)"
where
  "grade G repr text_of tid content criteria instructions context mark uid rid st =
     (case normalise_criteria criteria of
        Inl e \<Rightarrow> (st, Inl e)
      | Inr crit \<Rightarrow>
          if crit = [] then (st, Inr needs_rubric)
          else (case complete G (grading_request tid uid rid)
                       (grading_messages repr content instructions context crit) st of
             (st', r) \<Rightarrow>
               (st', case try_bind r (\<lambda>x. parse_reply (gr_text x)) of
                  Inl e \<Rightarrow> if caught_by_grader e then Inr (grading_failed text_of crit e) else Inl e
                | Inr parsed \<Rightarrow> score_reply crit mark parsed)))"

section \<open>Lemmas\<close>

lemma to_float_mono: "x \<le> y \<Longrightarrow> fle (to_float x) (to_float y)"
  by (simp add: to_float_def FLOAT_LIMIT_def)

lemma to_float_nonneg: "0 \<le> x \<Longrightarrow> fle (Fin 0) (to_float x)"
  by (simp add: to_float_def FLOAT_LIMIT_def)

lemma fle_trans [trans]: "fle x y \<Longrightarrow> fle y z \<Longrightarrow> fle x z"
  by (cases x; cases y; cases z) auto

lemma fadd_mono:
  assumes "fle (Fin 0) a" "fle a b" "fle (Fin 0) c" "fle c d"
  shows "fle (Fin 0) (fadd a c) \<and> fle (fadd a c) (fadd b d)"
  using assms
  by (cases a; cases c; simp; cases b; cases d; auto simp: to_float_def FLOAT_LIMIT_def)

lemma fsum_mono:
  assumes "list_all2 (\<lambda>x y. fle (Fin 0) x \<and> fle x y) xs ys"
  shows "fle (Fin 0) (fsum xs) \<and> fle (fsum xs) (fsum ys)"
proof -
  have "fle (Fin 0) a \<Longrightarrow> fle a b \<Longrightarrow> fle (Fin 0) (foldl fadd a xs) \<and> fle (foldl fadd a xs) (foldl fadd b ys)" for a b
    using assms
  proof (induction arbitrary: a b rule: list_all2_induct)
    case (Cons x xs y ys)
    have "fle (Fin 0) (fadd a x) \<and> fle (fadd a x) (fadd b y)" using Cons by (intro fadd_mono) auto
    then show ?case using Cons.IH [of "fadd a x" "fadd b y"] by simp
  qed simp
  from this [of "Fin 0" "Fin 0"] show ?thesis by (simp add: fsum_def)
qed

lemma fround_mono: "fle x y \<Longrightarrow> fle (fround n x) (fround n y)"
  by (cases x; cases y) (auto simp: not_less intro: py_round_mono)

lemma score_criterion_points:
  assumes "score_criterion rows c = Inr s" and "cn_max c = Fin m" and "0 \<le> m"
  shows "\<exists>p. sw_points s = Fin p \<and> 0 \<le> p \<and> p \<le> m"
  using assms clamp_between [OF assms(3)]
  by (auto simp: score_criterion_def clamped_points_def Let_def try_bind_eq_Inr split: json.splits)

lemma score_criterion_fields:
  "score_criterion rows c = Inr s \<Longrightarrow> sw_key s = cn_key c \<and> sw_max s = cn_max c \<and> sw_weight s = cn_weight c"
  by (auto simp: score_criterion_def Let_def try_bind_eq_Inr)

lemma try_map_all2: "try_map f xs = Inr ys \<Longrightarrow> list_all2 (\<lambda>x y. f x = Inr y) xs ys"
  by (induction xs arbitrary: ys) (auto simp: try_bind_eq_Inr)

text \<open>The rubrics whose maxima and weights are finite and not negative.\<close>

definition fair_criterion :: "criterion \<Rightarrow> bool" where
  "fair_criterion c = (\<exists>m w. cn_max c = Fin m \<and> 0 \<le> m \<and> cn_weight c = Fin w \<and> 0 \<le> w)"

lemma score_criterion_weighted:
  assumes "score_criterion rows c = Inr s" and "fair_criterion c"
  shows "fle (Fin 0) (fmul (sw_points s) (sw_weight s)) \<and>
    fle (fmul (sw_points s) (sw_weight s)) (fmul (sw_max s) (sw_weight s))"
proof -
  obtain m w where c: "cn_max c = Fin m" "0 \<le> m" "cn_weight c = Fin w" "0 \<le> w"
    using assms(2) by (auto simp: fair_criterion_def)
  obtain p where p: "sw_points s = Fin p" "0 \<le> p" "p \<le> m"
    using score_criterion_points [OF assms(1) c(1,2)] by blast
  have "fle (to_float (p * w)) (to_float (m * w))"
    by (intro to_float_mono mult_right_mono p c)
  then show ?thesis
    using score_criterion_fields [OF assms(1)] c p by (simp add: to_float_nonneg)
qed

lemma grade_cases:
  assumes "grade G repr text_of tid content criteria instructions context mark uid rid st = (st', Inr r)"
  obtains (rubric) "r = needs_rubric" "st' = st" "normalise_criteria criteria = Inr []"
  | (failed) crit e where "normalise_criteria criteria = Inr crit" "r = grading_failed text_of crit e"
  | (scored) crit rows ss where "normalise_criteria criteria = Inr crit" "crit \<noteq> []"
      "try_map (score_criterion rows) crit = Inr ss" "r = graded ss mark"
  using assms
  by (auto simp: grade_def score_reply_def try_bind_eq_Inr split: sum.splits prod.splits if_splits)

section \<open>Properties\<close>

text \<open>
  C24. A grade is defensible: with a rubric of finite maxima and weights that are not negative, whatever the model
  replies, every criterion of the rubric has one score, in order, between nought and its maximum, and the total
  lies between nought and the maximal total; the submission passes exactly when its percentage reaches the mark.
\<close>

theorem grade_defensible:
  assumes "grade G repr text_of tid content criteria instructions context (Some mark) uid rid st = (st', Inr r)"
    and "gd_status r = ''complete''" and "normalise_criteria criteria = Inr crit" and "list_all fair_criterion crit"
  shows "list_all2 (\<lambda>c s. sw_key s = cn_key c \<and>
      (\<exists>p m. sw_points s = Fin p \<and> cn_max c = Fin m \<and> 0 \<le> p \<and> p \<le> m)) crit (gd_scores r) \<and>
    (\<exists>t m. gd_total r = Some (fround 2 t) \<and> gd_max r = Some (fround 2 m) \<and> fle (Fin 0) t \<and> fle t m \<and>
      gd_passed r = (if m = Fin 0 then None else Some (fle (Fin mark) (fmul (fdiv t m) (Fin 100)))))"
  using assms(1)
proof (cases rule: grade_cases)
  case (scored crit' rows ss)
  then have c: "crit' = crit" using assms(3) by simp
  have ss: "list_all2 (\<lambda>c s. score_criterion rows c = Inr s) crit ss" using try_map_all2 scored(3) c by blast
  then have all: "list_all2 (\<lambda>c s. score_criterion rows c = Inr s \<and> fair_criterion c) crit ss"
    using assms(4) by (auto simp: list_all2_conv_all_nth list_all_length)
  have "list_all2 (\<lambda>x y. fle (Fin 0) x \<and> fle x y) (map (\<lambda>s. fmul (sw_points s) (sw_weight s)) ss)
      (map (\<lambda>s. fmul (sw_max s) (sw_weight s)) ss)"
    using all score_criterion_weighted by (fastforce simp: list_all2_conv_all_nth)
  then have "fle (Fin 0) (weighted_total ss) \<and> fle (weighted_total ss) (weighted_max ss)"
    unfolding weighted_total_def weighted_max_def by (rule fsum_mono)
  moreover have "list_all2 (\<lambda>c s. sw_key s = cn_key c \<and>
      (\<exists>p m. sw_points s = Fin p \<and> cn_max c = Fin m \<and> 0 \<le> p \<and> p \<le> m)) crit ss"
    using all
  proof (rule list_all2_mono)
    fix c s
    assume a: "score_criterion rows c = Inr s \<and> fair_criterion c"
    then obtain m where "cn_max c = Fin m" "0 \<le> m" by (auto simp: fair_criterion_def)
    then show "sw_key s = cn_key c \<and> (\<exists>p m. sw_points s = Fin p \<and> cn_max c = Fin m \<and> 0 \<le> p \<and> p \<le> m)"
      using a score_criterion_fields score_criterion_points by blast
  qed
  ultimately show ?thesis using scored(4) by (auto simp: graded_def Let_def)
qed (use assms(2) in \<open>simp_all add: needs_rubric_def grading_failed_def Let_def\<close>)

text \<open>
  A reply that is not JSON is a result with the status \<open>error\<close>; but a reply that is JSON and neither a list nor
  an object raises, and so does one that gives the points of a criterion as a text that is not a number, although
  a malformed reply is documented to degrade to the error status rather than raising.
\<close>

theorem malformed_reply_raises:
  assumes "normalise_criteria criteria = Inr (c # cs)"
    and "complete G (grading_request tid uid rid) (grading_messages repr content instructions context (c # cs)) st =
      (st', Inr g)"
    and "parse_reply (gr_text g) = Inr v"
    and "v = JStr t \<or> (v = JList [JObj [(''key'', JStr (cn_key c)), (''points'', JStr t)]] \<and> str_float t = None)"
  shows "\<exists>e. grade G repr text_of tid content criteria instructions context mark uid rid st = (st', Inl e) \<and>
    (e = PyExc AttributeError \<or> e = PyExc ValueError)"
proof -
  have "grade G repr text_of tid content criteria instructions context mark uid rid st =
      (st', score_reply (c # cs) mark v)"
    by (simp add: grade_def assms(1-3))
  moreover have "score_criterion [[(''key'', JStr (cn_key c)), (''points'', JStr t)]] c = Inl (PyExc ValueError)"
    if "str_float t = None"
    using that by (simp add: score_criterion_def row_for_def clamped_points_def dget_def dget_or_def py_str.simps Let_def)
  ultimately show ?thesis using assms(4) by (auto simp: score_reply_def reply_rows_def)
qed

section \<open>Witnesses\<close>

definition sample_rubric :: json where
  "sample_rubric = JList [JObj [(''key'', JStr ''a''), (''max_points'', JInt 5)], JNull,
     JObj [(''name'', JStr ''b''), (''points'', JInt 3), (''weight'', JInt 2)]]"

definition sample_criteria :: "criterion list" where
  "sample_criteria =
     [\<lparr> cn_key = ''a'', cn_description = [], cn_max = Fin 5, cn_weight = Fin 1 \<rparr>,
      \<lparr> cn_key = ''b'', cn_description = [], cn_max = Fin 3, cn_weight = Fin 2 \<rparr>]"

lemma to_float_small: "\<bar>x\<bar> \<le> 1000 \<Longrightarrow> to_float x = Fin x"
proof -
  assume x: "\<bar>x\<bar> \<le> 1000"
  have "1000 < FLOAT_LIMIT" by (simp add: FLOAT_LIMIT_def)
  then have "\<not> x \<le> - FLOAT_LIMIT" "\<not> FLOAT_LIMIT \<le> x" using x by linarith+
  then show ?thesis by (simp add: to_float_def)
qed

lemma sample_criteria_of: "normalise_criteria sample_rubric = Inr sample_criteria"
  by (simp add: normalise_criteria_def sample_rubric_def sample_criteria_def criterion_of_def dget_def dget_or_def por_def
      to_float_small)

definition inflated_reply :: string where
  "inflated_reply = ''[{\"key\": \"a\", \"points\": 99}, {\"key\": \"b\", \"points\": 1}]''"

lemma inflated_parsed:
  "parse_reply inflated_reply = Inr (JList [JObj [(''key'', JStr ''a''), (''points'', JInt 99)],
     JObj [(''key'', JStr ''b''), (''points'', JInt 1)]])"
  by code_simp

lemma inflated_scored:
  "\<exists>r. score_reply sample_criteria mark (JList [JObj [(''key'', JStr ''a''), (''points'', JInt 99)],
     JObj [(''key'', JStr ''b''), (''points'', JInt 1)]]) = Inr r \<and> gd_status r = ''complete''"
  by (simp add: score_reply_def reply_rows_def sample_criteria_def score_criterion_def row_for_def clamped_points_def
      dget_def dget_or_def to_float_small graded_def Let_def)

lemma sample_grading:
  assumes "parse_reply raw = Inr v" and "score_reply sample_criteria mark v = Inr r"
  shows "\<exists>st'. grade (answering_env raw) repr text_of ''t1'' content sample_rubric instructions context mark uid rid
    sample_state = (st', Inr r)"
proof -
  have "ctx_tenant_id (gq_ctx (grading_request ''t1'' uid rid)) = ''t1''" by (simp add: grading_request_def)
  from answering_complete [OF this, of raw "grading_messages repr content instructions context sample_criteria" sample_state]
  obtain st' g where "complete (answering_env raw) (grading_request ''t1'' uid rid)
      (grading_messages repr content instructions context sample_criteria) sample_state = (st', Inr g)"
    "gr_text g = raw" by blast
  then show ?thesis using assms by (simp add: grade_def sample_criteria_of) (simp add: sample_criteria_def)
qed

theorem grade_defensible_witness:
  "\<exists>st' r. grade (answering_env inflated_reply) (\<lambda>_. []) (\<lambda>_. []) ''t1'' None sample_rubric None None (Some 70)
      None None sample_state = (st', Inr r) \<and>
    list_all2 (\<lambda>c s. sw_key s = cn_key c \<and>
      (\<exists>p m. sw_points s = Fin p \<and> cn_max c = Fin m \<and> 0 \<le> p \<and> p \<le> m)) sample_criteria (gd_scores r)"
proof -
  obtain r where r: "score_reply sample_criteria (Some 70) (JList [JObj [(''key'', JStr ''a''), (''points'', JInt 99)],
     JObj [(''key'', JStr ''b''), (''points'', JInt 1)]]) = Inr r" "gd_status r = ''complete''"
    using inflated_scored by blast
  obtain st' where g: "grade (answering_env inflated_reply) (\<lambda>_. []) (\<lambda>_. []) ''t1'' None sample_rubric None None
      (Some 70) None None sample_state = (st', Inr r)"
    using sample_grading [OF inflated_parsed r(1)] by blast
  have "list_all fair_criterion sample_criteria" by (simp add: sample_criteria_def fair_criterion_def)
  then show ?thesis using g grade_defensible [OF g r(2) sample_criteria_of] by blast
qed

theorem malformed_reply_raises_witness:
  "\<exists>st' e. grade (answering_env ''\"fine\"'') (\<lambda>_. []) (\<lambda>_. []) ''t1'' None sample_rubric None None (Some 70)
      None None sample_state = (st', Inl e)"
proof -
  have "ctx_tenant_id (gq_ctx (grading_request ''t1'' None None)) = ''t1''" by (simp add: grading_request_def)
  from answering_complete [OF this, of "''\"fine\"''" "grading_messages (\<lambda>_. []) None None None sample_criteria" sample_state]
  obtain st' g where g: "complete (answering_env ''\"fine\"'') (grading_request ''t1'' None None)
      (grading_messages (\<lambda>_. []) None None None sample_criteria) sample_state = (st', Inr g)"
    "gr_text g = ''\"fine\"''" by blast
  have p: "parse_reply (gr_text g) = Inr (JStr ''fine'')" unfolding g(2) by code_simp
  obtain c cs where c: "sample_criteria = c # cs" by (simp add: sample_criteria_def)
  show ?thesis
    using malformed_reply_raises [OF sample_criteria_of [unfolded c] g(1) [unfolded c] p disjI1 [OF refl]] by blast
qed

end
