(* ===== verification/TrainingRoutes.thy ===== *)
theory TrainingRoutes
  imports Grading
begin

text \<open>
  The compliance-training routes (\<open>api/routes/training.py\<close>): generate, store, assign, submit, grade, record.
  The tables are lists of rows in the order of insertion; fresh identifiers and the time are arguments.
\<close>

section \<open>Tables\<close>

record training_module =
  tm_id :: uuid
  tm_tenant :: uuid
  tm_title :: string
  tm_topic :: string
  tm_kind :: string
  tm_content :: jdict
  tm_rubric :: jdict
  tm_grounding :: jdict
  tm_sources :: "string list"
  tm_pass_mark :: rat
  tm_created_by :: "string option"
  tm_created :: int

record training_assignment =
  ta_id :: uuid
  ta_tenant :: uuid
  ta_module :: uuid
  ta_user :: string
  ta_assigned_by :: "string option"
  ta_status :: string
  ta_due :: "int option"
  ta_completed :: "int option"
  ta_created :: int

record training_record =
  tr_id :: uuid
  tr_tenant :: uuid
  tr_module :: uuid
  tr_assignment :: "uuid option"
  tr_user :: string
  tr_topic :: string
  tr_score :: "pyfloat option"
  tr_max :: "pyfloat option"
  tr_pct :: "pyfloat option"
  tr_passed :: "bool option"
  tr_detail :: jdict
  tr_submission :: "string option"
  tr_completed :: int

record training_db =
  td_modules :: "training_module list"
  td_assignments :: "training_assignment list"
  td_records :: "training_record list"

section \<open>Generation\<close>

definition ARTEFACT_KINDS :: "string list" where
  "ARTEFACT_KINDS = [''lesson'', ''revision_guide'', ''quiz'', ''exam'', ''flashcards'', ''slides'', ''scenario'',
     ''blended'']"

record generate_body =
  gb_topic :: string
  gb_kind :: string
  gb_num_questions :: int
  gb_style :: string
  gb_difficulty :: string
  gb_examples :: "string option"
  gb_objectives :: "string list option"
  gb_role :: "string option"
  gb_scenario :: bool

text \<open>\<open>sorted\<close> on the kinds, written out.\<close>

definition unknown_kind :: exn where
  "unknown_kind = HTTPError 422 (''kind must be one of: '' @ join '', '' [''blended'', ''exam'', ''flashcards'',
     ''lesson'', ''quiz'', ''revision_guide'', ''scenario'', ''slides''])"

definition dispatch_kind ::
  "'v generator \<Rightarrow> gen_call \<Rightarrow> generate_body \<Rightarrow> gw_state \<Rightarrow> gw_state \<times> (exn + json)" where
  "dispatch_kind E c b st =
     (let one = (\<lambda>(st', r). (st', try_bind r (\<lambda>a. Inr (artefact_dict a)))); k = gb_kind b in
       if k = ''blended''
       then (case generate_blended E c (gb_objectives b) (gb_num_questions b) (gb_scenario b) st of
               (st', r) \<Rightarrow> (st', try_bind r (\<lambda>m. Inr (JObj m))))
       else if k = ''lesson'' then one (generate_lesson E c (gb_objectives b) st)
       else if k = ''revision_guide'' then one (generate_revision_guide E c st)
       else if k = ''quiz'' then one (generate_quiz E c (gb_num_questions b) st)
       else if k = ''exam''
       then one (generate_exam E c (gb_num_questions b) (gb_style b) (gb_difficulty b) (gb_examples b) st)
       else if k = ''flashcards'' then one (generate_flashcards E c (gb_num_questions b * 2) st)
       else if k = ''slides'' then one (generate_slides E c 8 st)
       else one (generate_scenario E c (gb_role b) (gb_num_questions b) st))"

text \<open>The guards of the route do not include the key check; it follows the check of the kind.\<close>

definition governed :: "route_env \<Rightarrow> gw_env \<Rightarrow> string \<Rightarrow> principal \<Rightarrow> gw_state \<Rightarrow> gw_state \<times> (exn + unit)" where
  "governed R G purpose p st =
     (case guards (R\<lparr> ro_require_byok := False \<rparr>) G purpose True p (gs_ledger st) of
        (l, r) \<Rightarrow> (st\<lparr> gs_ledger := l \<rparr>, r))"

definition generate_training ::
  "route_env \<Rightarrow> 'v generator \<Rightarrow> generate_body \<Rightarrow> principal \<Rightarrow> gw_state \<times> audit_log \<Rightarrow>
   (gw_state \<times> audit_log) \<times> (exn + json)" where
  "generate_training R E b p st =
     (case governed R (tg_gw E) ''training'' p (fst st) of
        (g, Inl e) \<Rightarrow> ((g, snd st), Inl e)
      | (g, Inr _) \<Rightarrow>
          (case (if gb_kind b \<notin> set ARTEFACT_KINDS then Inl unknown_kind
                 else require_byok (ro_require_byok R) (e_secrets (tg_gw E))) of
             Inl e \<Rightarrow> ((g, snd st), Inl e)
           | Inr _ \<Rightarrow>
               (case dispatch_kind E \<lparr> gc_tenant = pp_tenant_id p, gc_topic = gb_topic b,
                       gc_user = Some (pp_user_id p), gc_request = Some (request_id R) \<rparr> b g of
                  (g', Inl e) \<Rightarrow> ((g', snd st), Inl e)
                | (g', Inr res) \<Rightarrow>
                    ((g', record_action (ro_audit_ok R) (ro_now R) p ''training.generate'' (Some ''/v1/training/generate'')
                        (Some (gb_topic b)) (Some (''generated '' @ gb_kind b)) []
                        [(''request_id'', JStr (request_id R)), (''kind'', JStr (gb_kind b))] (snd st)),
                     Inr (JObj [(''kind'', JStr (gb_kind b)), (''result'', res)])))))"

section \<open>Modules\<close>

record module_create =
  mc_title :: string
  mc_topic :: string
  mc_kind :: string
  mc_content :: jdict
  mc_rubric :: jdict
  mc_grounding :: jdict
  mc_sources :: "string list"
  mc_pass_mark :: rat

definition create_module ::
  "route_env \<Rightarrow> uuid \<Rightarrow> module_create \<Rightarrow> principal \<Rightarrow> training_db \<times> audit_log \<Rightarrow>
   (training_db \<times> audit_log) \<times> training_module" where
  "create_module R fresh b p st =
     (let m = \<lparr> tm_id = fresh, tm_tenant = pp_tenant_id p, tm_title = mc_title b, tm_topic = mc_topic b,
          tm_kind = mc_kind b, tm_content = mc_content b, tm_rubric = mc_rubric b, tm_grounding = mc_grounding b,
          tm_sources = mc_sources b, tm_pass_mark = mc_pass_mark b, tm_created_by = Some (pp_user_id p),
          tm_created = ro_now R \<rparr> in
       (((fst st)\<lparr> td_modules := td_modules (fst st) @ [m] \<rparr>,
         record_action (ro_audit_ok R) (ro_now R) p ''training.module.create''
           (Some (''/v1/training/modules/'' @ fresh)) (Some (mc_topic b)) None []
           [(''module_id'', JStr fresh), (''kind'', JStr (mc_kind b))] (snd st)), m))"

definition list_modules :: "principal \<Rightarrow> training_db \<Rightarrow> training_module list" where
  "list_modules p db =
     sort_key (\<lambda>m. - tm_created m) (filter (\<lambda>m. tm_tenant m = pp_tenant_id p) (td_modules db))"

definition load_module :: "uuid \<Rightarrow> uuid \<Rightarrow> training_db \<Rightarrow> exn + training_module" where
  "load_module mid tid db =
     (case find (\<lambda>m. tm_id m = mid \<and> tm_tenant m = tid) (td_modules db) of
        None \<Rightarrow> Inl (HTTPError 404 ''training module not found'')
      | Some m \<Rightarrow> Inr m)"

section \<open>Assignments\<close>

definition requested_users :: "string list \<Rightarrow> string list" where
  "requested_users us = rev (remdups (rev us))"

definition already_assigned :: "uuid \<Rightarrow> string list \<Rightarrow> training_db \<Rightarrow> string list" where
  "already_assigned mid us db =
     map ta_user (filter (\<lambda>a. ta_module a = mid \<and> ta_user a \<in> set us) (td_assignments db))"

definition new_assignment ::
  "principal \<Rightarrow> uuid \<Rightarrow> int option \<Rightarrow> int \<Rightarrow> uuid \<Rightarrow> string \<Rightarrow> training_assignment" where
  "new_assignment p mid due now aid uid =
     \<lparr> ta_id = aid, ta_tenant = pp_tenant_id p, ta_module = mid, ta_user = uid, ta_assigned_by = Some (pp_user_id p),
       ta_status = ''assigned'', ta_due = due, ta_completed = None, ta_created = now \<rparr>"

text \<open>The \<open>n\<close>-th new row gets the \<open>n\<close>-th fresh identifier.\<close>

definition assign_module ::
  "route_env \<Rightarrow> (nat \<Rightarrow> uuid) \<Rightarrow> uuid \<Rightarrow> string list \<Rightarrow> int option \<Rightarrow> principal \<Rightarrow> training_db \<times> audit_log \<Rightarrow>
   (training_db \<times> audit_log) \<times> (exn + training_assignment list)" where
  "assign_module R fresh mid users due p st =
     (case load_module mid (pp_tenant_id p) (fst st) of
        Inl e \<Rightarrow> (st, Inl e)
      | Inr _ \<Rightarrow>
          let already = already_assigned mid (requested_users users) (fst st);
              todo = filter (\<lambda>u. u \<notin> set already) (requested_users users);
              rows = map (\<lambda>(i, u). new_assignment p mid due (ro_now R) (fresh i) u) (enumerate 0 todo) in
          (((fst st)\<lparr> td_assignments := td_assignments (fst st) @ rows \<rparr>,
            record_action (ro_audit_ok R) (ro_now R) p ''training.assign'' (Some (''/v1/training/modules/'' @ mid))
              None None []
              [(''module_id'', JStr mid), (''created'', JInt (int (length rows))),
               (''skipped_already_assigned'', JInt (int (card (set already))))] (snd st)),
           Inr rows))"

definition list_assignments ::
  "principal \<Rightarrow> string option \<Rightarrow> uuid option \<Rightarrow> bool \<Rightarrow> training_db \<Rightarrow> training_assignment list" where
  "list_assignments p uid mid mine db =
     (let target = (if mine then Some (pp_user_id p) else uid) in
       sort_key (\<lambda>a. - ta_created a)
         (filter (\<lambda>a. ta_tenant a = pp_tenant_id p \<and> (case target of None \<Rightarrow> True | Some u \<Rightarrow> ta_user a = u) \<and>
            (case mid of None \<Rightarrow> True | Some m \<Rightarrow> ta_module a = m)) (td_assignments db)))"

section \<open>Multiple-choice grading\<close>

definition quiz_list :: "json \<Rightarrow> exn + jdict list" where
  "quiz_list qs = try_bind (py_iter qs) (\<lambda>xs. Inr (concat (map (\<lambda>q. case q of JObj d \<Rightarrow> [d] | _ \<Rightarrow> []) xs)))"

definition data_questions :: "json \<Rightarrow> json" where
  "data_questions data = (case data of JObj d \<Rightarrow> dget d ''questions'' | _ \<Rightarrow> JNull)"

definition mcq_questions :: "jdict \<Rightarrow> exn + jdict list" where
  "mcq_questions content =
     (let blended = (case dget content ''quiz'' of JObj quiz \<Rightarrow> data_questions (dget_or quiz ''data'' (JObj [])) | _ \<Rightarrow> JNull);
          single = data_questions (dget content ''data''); raw = dget content ''questions'' in
       if truthy blended then quiz_list blended
       else if truthy single then quiz_list single
       else if truthy raw then quiz_list raw else Inr [])"

text \<open>\<open>chosen == expected\<close>, a number against a JSON value; booleans are numbers.\<close>

fun int_equals :: "int \<Rightarrow> json \<Rightarrow> bool" where
  "int_equals i (JInt j) = (i = j)"
| "int_equals i (JBool b) = (i = (if b then 1 else 0))"
| "int_equals i (JFloat (Fin x) _) = (of_int i = x)"
| "int_equals i _ = False"

definition mcq_correct :: "int list \<Rightarrow> nat \<Rightarrow> jdict \<Rightarrow> bool" where
  "mcq_correct answers i q = (i < length answers \<and> int_equals (answers ! i) (dget q ''answer_index''))"

definition mcq_detail :: "int list \<Rightarrow> nat \<Rightarrow> jdict \<Rightarrow> json" where
  "mcq_detail answers i q = JObj
     [(''question'', dget_or q ''question'' (JStr [])),
      (''chosen'', if i < length answers then JInt (answers ! i) else JNull),
      (''expected'', dget q ''answer_index''), (''correct'', JBool (mcq_correct answers i q)),
      (''rationale'', dget_or q ''rationale'' (JStr []))]"

text \<open>The fields a submission writes to its record.\<close>

record graded_submission =
  gs_score :: "pyfloat option"
  gs_max :: "pyfloat option"
  gs_pct :: "pyfloat option"
  gs_passed :: "bool option"
  gs_detail :: jdict

definition grade_mcq :: "training_module \<Rightarrow> int list \<Rightarrow> exn + graded_submission" where
  "grade_mcq m answers =
     try_bind (mcq_questions (tm_content m)) (\<lambda>qs.
       if qs = [] then Inl (HTTPError 422 ''This module has no auto-gradable questions.'')
       else
         let correct = length (filter (\<lambda>(i, q). mcq_correct answers i q) (enumerate 0 qs));
             pct = py_round (of_nat correct / of_nat (length qs) * 100) 1 in
         Inr \<lparr> gs_score = Some (Fin (of_nat correct)), gs_max = Some (Fin (of_nat (length qs))),
           gs_pct = Some (Fin pct), gs_passed = Some (tm_pass_mark m \<le> pct),
           gs_detail = [(''answers'', JList (map (\<lambda>(i, q). mcq_detail answers i q) (enumerate 0 qs)))] \<rparr>)"

section \<open>Submission\<close>

record submit_body =
  sb_module :: uuid
  sb_assignment :: "uuid option"
  sb_answers :: "int list option"
  sb_content :: "string option"

definition score_json :: "(pyfloat \<Rightarrow> string) \<Rightarrow> score_row \<Rightarrow> json" where
  "score_json repr s = JObj [(''key'', JStr (sw_key s)), (''points'', JFloat (sw_points s) (repr (sw_points s))),
     (''max_points'', JFloat (sw_max s) (repr (sw_max s))), (''weight'', JFloat (sw_weight s) (repr (sw_weight s))),
     (''comment'', JStr (sw_comment s))]"

definition rubric_submission :: "(pyfloat \<Rightarrow> string) \<Rightarrow> grade_result \<Rightarrow> graded_submission" where
  "rubric_submission repr r =
     \<lparr> gs_score = gd_total r, gs_max = gd_max r,
       gs_pct = (case (gd_total r, gd_max r) of
           (Some t, Some m) \<Rightarrow> if m = Fin 0 then None else Some (fround 1 (fmul (fdiv t m) (Fin 100)))
         | _ \<Rightarrow> None),
       gs_passed = gd_passed r,
       gs_detail = [(''scores'', JList (map (score_json repr) (gd_scores r))), (''feedback'', JStr (gd_feedback r))] \<rparr>"

definition grade_submission ::
  "route_env \<Rightarrow> gw_env \<Rightarrow> (pyfloat \<Rightarrow> string) \<Rightarrow> (exn \<Rightarrow> string) \<Rightarrow> training_module \<Rightarrow> submit_body \<Rightarrow> principal \<Rightarrow>
   gw_state \<Rightarrow> gw_state \<times> (exn + graded_submission)" where
  "grade_submission R G repr text_of m b p g =
     (case (sb_answers b, sb_content b) of
        (Some answers, _) \<Rightarrow> (g, grade_mcq m answers)
      | (None, Some text) \<Rightarrow>
          (case require_byok (ro_require_byok R) (e_secrets G) of
             Inl e \<Rightarrow> (g, Inl e)
           | Inr _ \<Rightarrow>
               (case grade G repr text_of (pp_tenant_id p) (Some text) (JObj (tm_rubric m)) None None
                       (Some (tm_pass_mark m)) (Some (pp_user_id p)) (Some (request_id R)) g of
                  (g', r) \<Rightarrow> (g', try_bind r (\<lambda>res.
                    if gd_status res = ''needs_rubric''
                    then Inl (HTTPError 422 ''This module has no rubric - submit MCQ answers instead.'')
                    else Inr (rubric_submission repr res)))))
      | (None, None) \<Rightarrow> (g, Inl (HTTPError 422 ''Provide either `answers` (MCQ) or `content` (free text).'')))"

definition new_record ::
  "uuid \<Rightarrow> int \<Rightarrow> principal \<Rightarrow> training_module \<Rightarrow> submit_body \<Rightarrow> graded_submission \<Rightarrow> training_record" where
  "new_record rid now p m b gr =
     \<lparr> tr_id = rid, tr_tenant = pp_tenant_id p, tr_module = tm_id m, tr_assignment = sb_assignment b,
       tr_user = pp_user_id p, tr_topic = tm_topic m, tr_score = gs_score gr, tr_max = gs_max gr, tr_pct = gs_pct gr,
       tr_passed = gs_passed gr, tr_detail = gs_detail gr,
       tr_submission = (if sb_answers b = None then sb_content b else None), tr_completed = now \<rparr>"

text \<open>
  The foreign key of the record refers to the assignments of all tenants; the assignment that is completed is
  looked up in the tenant.  The completion time is the one the database gave the record.
\<close>

definition complete_assignment :: "uuid \<Rightarrow> uuid option \<Rightarrow> int \<Rightarrow> training_assignment list \<Rightarrow> training_assignment list" where
  "complete_assignment tid aid now as =
     map (\<lambda>a. if Some (ta_id a) = aid \<and> ta_tenant a = tid
       then a\<lparr> ta_status := ''completed'', ta_completed := Some now \<rparr> else a) as"

definition store_record :: "training_record \<Rightarrow> training_db \<Rightarrow> exn + training_db" where
  "store_record r db =
     (case tr_assignment r of
        Some aid \<Rightarrow>
          if aid \<notin> ta_id ` set (td_assignments db) then Inl (OtherExc ''IntegrityError'')
          else Inr (db\<lparr> td_records := td_records db @ [r],
            td_assignments := complete_assignment (tr_tenant r) (Some aid) (tr_completed r) (td_assignments db) \<rparr>)
      | None \<Rightarrow> Inr (db\<lparr> td_records := td_records db @ [r] \<rparr>))"

definition float_text :: "(pyfloat \<Rightarrow> string) \<Rightarrow> pyfloat option \<Rightarrow> string" where
  "float_text repr x = (case x of None \<Rightarrow> ''None'' | Some y \<Rightarrow> repr y)"

definition bool_text :: "bool option \<Rightarrow> string" where
  "bool_text x = (case x of None \<Rightarrow> ''None'' | Some b \<Rightarrow> if b then ''True'' else ''False'')"

record training_state =
  ts_gw :: gw_state
  ts_db :: training_db
  ts_audit :: audit_log

definition submit_training ::
  "route_env \<Rightarrow> gw_env \<Rightarrow> (pyfloat \<Rightarrow> string) \<Rightarrow> (exn \<Rightarrow> string) \<Rightarrow> uuid \<Rightarrow> submit_body \<Rightarrow> principal \<Rightarrow>
   training_state \<Rightarrow> training_state \<times> (exn + training_record)" where
  "submit_training R G repr text_of fresh b p st =
     (case governed R G ''grading'' p (ts_gw st) of
        (g, Inl e) \<Rightarrow> (st\<lparr> ts_gw := g \<rparr>, Inl e)
      | (g, Inr _) \<Rightarrow>
          (case load_module (sb_module b) (pp_tenant_id p) (ts_db st) of
             Inl e \<Rightarrow> (st\<lparr> ts_gw := g \<rparr>, Inl e)
           | Inr m \<Rightarrow>
               (case grade_submission R G repr text_of m b p g of
                  (g', Inl e) \<Rightarrow> (st\<lparr> ts_gw := g' \<rparr>, Inl e)
                | (g', Inr gr) \<Rightarrow>
                    (case store_record (new_record fresh (ro_now R) p m b gr) (ts_db st) of
                       Inl e \<Rightarrow> (st\<lparr> ts_gw := g' \<rparr>, Inl e)
                     | Inr db \<Rightarrow>
                         (st\<lparr> ts_gw := g', ts_db := db,
                            ts_audit := record_action (ro_audit_ok R) (ro_now R) p ''training.submit''
                              (Some (''/v1/training/modules/'' @ tm_id m)) (Some (tm_topic m))
                              (Some (''score='' @ float_text repr (gs_pct gr) @ ''% passed='' @ bool_text (gs_passed gr))) []
                              [(''request_id'', JStr (request_id R)), (''module_id'', JStr (tm_id m))] (ts_audit st) \<rparr>,
                          Inr (new_record fresh (ro_now R) p m b gr))))))"

definition list_records :: "principal \<Rightarrow> string option \<Rightarrow> uuid option \<Rightarrow> training_db \<Rightarrow> training_record list" where
  "list_records p uid mid db =
     sort_key (\<lambda>r. - tr_completed r)
       (filter (\<lambda>r. tr_tenant r = pp_tenant_id p \<and> (case uid of None \<Rightarrow> True | Some u \<Rightarrow> tr_user r = u) \<and>
          (case mid of None \<Rightarrow> True | Some m \<Rightarrow> tr_module r = m)) (td_records db))"

section \<open>The tables as a state machine\<close>

inductive training_step :: "training_db \<Rightarrow> training_db \<Rightarrow> bool" where
  create: "fresh \<notin> tm_id ` set (td_modules db) \<Longrightarrow>
     training_step db (fst (fst (create_module R fresh b p (db, al))))"
| assign: "inj fresh \<Longrightarrow> range fresh \<inter> ta_id ` set (td_assignments db) = {} \<Longrightarrow>
     training_step db (fst (fst (assign_module R fresh mid users due p (db, al))))"
| submit: "training_step db (ts_db (fst (submit_training R G repr text_of fresh b p
     \<lparr> ts_gw = g, ts_db = db, ts_audit = al \<rparr>)))"

definition empty_training :: training_db where
  "empty_training = \<lparr> td_modules = [], td_assignments = [], td_records = [] \<rparr>"

definition owned_module :: "training_db \<Rightarrow> uuid \<Rightarrow> uuid \<Rightarrow> bool" where
  "owned_module db mid tid = (\<exists>m\<in>set (td_modules db). tm_id m = mid \<and> tm_tenant m = tid)"

definition assignment_ok :: "training_db \<Rightarrow> training_assignment \<Rightarrow> bool" where
  "assignment_ok db a = (owned_module db (ta_module a) (ta_tenant a) \<and> ta_status a \<in> {''assigned'', ''completed''} \<and>
     (ta_status a = ''completed'' \<longleftrightarrow> ta_completed a \<noteq> None))"

definition training_ok :: "training_db \<Rightarrow> bool" where
  "training_ok db \<longleftrightarrow>
     distinct (map tm_id (td_modules db)) \<and> distinct (map ta_id (td_assignments db)) \<and>
     distinct (map (\<lambda>a. (ta_module a, ta_user a)) (td_assignments db)) \<and>
     list_all (assignment_ok db) (td_assignments db) \<and>
     list_all (\<lambda>r. owned_module db (tr_module r) (tr_tenant r)) (td_records db)"

lemma load_module_Inr: "load_module mid tid db = Inr m \<Longrightarrow> m \<in> set (td_modules db) \<and> tm_id m = mid \<and> tm_tenant m = tid"
  by (auto simp: load_module_def find_Some_iff split: option.splits)

lemma load_module_owned: "load_module mid tid db = Inr m \<Longrightarrow> owned_module db mid tid"
  by (auto simp: owned_module_def dest: load_module_Inr)

lemma requested_users_set [simp]: "set (requested_users us) = set us" "distinct (requested_users us)"
  by (simp_all add: requested_users_def)

lemma already_assigned_set:
  "set (already_assigned mid us db) = {u\<in>set us. \<exists>a\<in>set (td_assignments db). ta_module a = mid \<and> ta_user a = u}"
  by (auto simp: already_assigned_def)

text \<open>What a request to assign adds.\<close>

lemma assign_module_rows:
  assumes "load_module mid (pp_tenant_id p) db = Inr m"
  obtains rows where "fst (fst (assign_module R fresh mid users due p (db, al))) =
      db\<lparr> td_assignments := td_assignments db @ rows \<rparr>" "snd (assign_module R fresh mid users due p (db, al)) = Inr rows"
    "map ta_user rows = filter (\<lambda>u. u \<notin> set (already_assigned mid (requested_users users) db)) (requested_users users)"
    "map ta_id rows = map fresh [0..<length rows]"
    "list_all (\<lambda>a. ta_tenant a = pp_tenant_id p \<and> ta_module a = mid \<and> ta_status a = ''assigned'' \<and> ta_completed a = None) rows"
proof -
  let ?todo = "filter (\<lambda>u. u \<notin> set (already_assigned mid (requested_users users) db)) (requested_users users)"
  let ?rows = "map (\<lambda>(i, u). new_assignment p mid due (ro_now R) (fresh i) u) (enumerate 0 ?todo)"
  have "map ta_user ?rows = map snd (enumerate 0 ?todo)"
    by (simp add: split_beta new_assignment_def comp_def)
  moreover have "map ta_id ?rows = map fresh (map fst (enumerate 0 ?todo))"
    unfolding map_map by (simp add: split_beta new_assignment_def comp_def)
  moreover have "list_all (\<lambda>a. ta_tenant a = pp_tenant_id p \<and> ta_module a = mid \<and> ta_status a = ''assigned'' \<and>
      ta_completed a = None) ?rows"
    by (auto simp: list_all_iff new_assignment_def)
  ultimately show thesis
    by (intro that [of ?rows]) (use assms in \<open>simp_all add: assign_module_def Let_def map_fst_enumerate\<close>)
qed

lemma complete_assignment_keys:
  "map ta_id (complete_assignment t i n as) = map ta_id as"
  "map (\<lambda>a. (ta_module a, ta_user a)) (complete_assignment t i n as) = map (\<lambda>a. (ta_module a, ta_user a)) as"
  by (simp_all add: complete_assignment_def)

lemma owned_module_cong: "td_modules db = td_modules db' \<Longrightarrow> owned_module db = owned_module db'"
  by (simp add: owned_module_def fun_eq_iff)

lemma complete_assignment_ok:
  "list_all (assignment_ok db) as \<Longrightarrow> list_all (assignment_ok db) (complete_assignment t i n as)"
  by (auto simp: list_all_iff assignment_ok_def complete_assignment_def)

lemma assignment_ok_cong: "td_modules db = td_modules db' \<Longrightarrow> assignment_ok db = assignment_ok db'"
  using owned_module_cong [of db db'] by (simp add: assignment_ok_def fun_eq_iff)

lemma store_record_fields:
  assumes "store_record r db = Inr db'"
  shows "td_modules db' = td_modules db" "td_records db' = td_records db @ [r]"
    "td_assignments db' = td_assignments db \<or>
      (\<exists>t i n. td_assignments db' = complete_assignment t i n (td_assignments db))"
  using assms by (simp_all add: store_record_def split: option.splits if_splits) (auto, blast)

lemma store_record_ok:
  assumes "training_ok db" and "owned_module db (tr_module r) (tr_tenant r)" and "store_record r db = Inr db'"
  shows "training_ok db'"
proof -
  note m = store_record_fields [OF assms(3)]
  show ?thesis
    using assms(1,2) m(3) complete_assignment_ok complete_assignment_keys
      owned_module_cong [OF m(1)] assignment_ok_cong [OF m(1)] m(1,2)
    by (auto simp: training_ok_def)
qed

text \<open>A submission stores one record or leaves the tables as they are.\<close>

lemma submit_cases:
  assumes "submit_training R G repr text_of fresh b p st = (st', r)"
  obtains (failed) e where "r = Inl e" "ts_db st' = ts_db st"
  | (stored) m gr where "load_module (sb_module b) (pp_tenant_id p) (ts_db st) = Inr m"
      "r = Inr (new_record fresh (ro_now R) p m b gr)"
      "store_record (new_record fresh (ro_now R) p m b gr) (ts_db st) = Inr (ts_db st')"
  using assms by (auto simp: submit_training_def split: prod.splits sum.splits)

lemma create_ok:
  assumes "training_ok db" and "fresh \<notin> tm_id ` set (td_modules db)"
  shows "training_ok (fst (fst (create_module R fresh b p (db, al))))"
  using assms by (auto simp: training_ok_def create_module_def Let_def list_all_iff assignment_ok_def owned_module_def)

lemma distinct_pairs_append:
  assumes "distinct (map (\<lambda>a. (ta_module a, ta_user a)) as)" and "distinct (map ta_user rows)"
    and "\<And>x. x \<in> set rows \<Longrightarrow> ta_module x = mid"
    and "\<And>x y. x \<in> set rows \<Longrightarrow> y \<in> set as \<Longrightarrow> ta_module y = mid \<Longrightarrow> ta_user x \<noteq> ta_user y"
  shows "distinct (map (\<lambda>a. (ta_module a, ta_user a)) (as @ rows))"
proof -
  have "distinct (map (\<lambda>a. (ta_module a, ta_user a)) rows)"
    using assms(2) by (auto simp: distinct_map inj_on_def)
  moreover have "(ta_module y, ta_user y) \<noteq> (ta_module x, ta_user x)" if "x \<in> set rows" "y \<in> set as" for x y
    using assms(3) [OF that(1)] assms(4) [OF that] by auto
  then have "(\<lambda>a. (ta_module a, ta_user a)) ` set as \<inter> (\<lambda>a. (ta_module a, ta_user a)) ` set rows = {}"
    by (intro equals0I) (elim IntE imageE, metis)
  ultimately show ?thesis using assms(1) by (simp only: map_append distinct_append set_map)
qed

lemma assign_ok:
  assumes "training_ok db" and "inj fresh" and "range fresh \<inter> ta_id ` set (td_assignments db) = {}"
  shows "training_ok (fst (fst (assign_module R fresh mid users due p (db, al))))"
proof (cases "load_module mid (pp_tenant_id p) db")
  case (Inl e)
  then show ?thesis using assms(1) by (simp add: assign_module_def)
next
  case (Inr m)
  then obtain rows where rows: "fst (fst (assign_module R fresh mid users due p (db, al))) =
      db\<lparr> td_assignments := td_assignments db @ rows \<rparr>" "snd (assign_module R fresh mid users due p (db, al)) = Inr rows"
    and u: "map ta_user rows = filter (\<lambda>u. u \<notin> set (already_assigned mid (requested_users users) db)) (requested_users users)"
    and i: "map ta_id rows = map fresh [0..<length rows]"
    and a: "list_all (\<lambda>a. ta_tenant a = pp_tenant_id p \<and> ta_module a = mid \<and> ta_status a = ''assigned'' \<and> ta_completed a = None) rows"
    by (rule assign_module_rows)
  let ?db = "db\<lparr> td_assignments := td_assignments db @ rows \<rparr>"
  have ids: "distinct (map ta_id (td_assignments db @ rows))"
  proof -
    have "set (map ta_id rows) \<subseteq> range fresh" unfolding i by auto
    moreover have "distinct (map ta_id rows)" unfolding i distinct_map using inj_on_subset [OF assms(2)] by simp
    moreover have "distinct (map ta_id (td_assignments db))" using assms(1) by (simp only: training_ok_def)
    ultimately show ?thesis using assms(3) unfolding map_append distinct_append set_map by blast
  qed
  have pairs: "distinct (map (\<lambda>a. (ta_module a, ta_user a)) (td_assignments db @ rows))"
  proof (rule distinct_pairs_append)
    show "distinct (map (\<lambda>a. (ta_module a, ta_user a)) (td_assignments db))"
      using assms(1) by (simp only: training_ok_def)
    show "distinct (map ta_user rows)" unfolding u by simp
    show "ta_module x = mid" if "x \<in> set rows" for x using a that by (simp add: list_all_iff)
    show "ta_user x \<noteq> ta_user y" if "x \<in> set rows" "y \<in> set (td_assignments db)" "ta_module y = mid" for x y
    proof -
      have "ta_user x \<in> set (map ta_user rows)" using that(1) by simp
      then show ?thesis unfolding u using that by (auto simp: already_assigned_set)
    qed
  qed
  have "owned_module ?db mid (pp_tenant_id p)" using load_module_owned [OF Inr] by (simp add: owned_module_def)
  then have "list_all (assignment_ok ?db) rows" using a by (auto simp: list_all_iff assignment_ok_def)
  then show ?thesis
    unfolding rows using assms(1) ids pairs assignment_ok_cong [of ?db db] owned_module_cong [of ?db db]
    by (simp add: training_ok_def)
qed

lemma training_step_ok: "training_step db db' \<Longrightarrow> training_ok db \<Longrightarrow> training_ok db'"
proof (induction rule: training_step.induct)
  case (submit db R G repr text_of fresh b p g al)
  let ?st = "\<lparr> ts_gw = g, ts_db = db, ts_audit = al \<rparr>"
  obtain st' r where run: "submit_training R G repr text_of fresh b p ?st = (st', r)" by fastforce
  from run show ?case
  proof (cases rule: submit_cases)
    case (stored m gr)
    then show ?thesis
      using run submit store_record_ok [OF _ _ stored(3)] load_module_owned [OF stored(1)] load_module_Inr [OF stored(1)]
      by (simp add: new_record_def)
  qed (use run submit in simp)
qed (simp_all add: create_ok assign_ok)

lemma reachable_training_ok: "training_step\<^sup>*\<^sup>* empty_training db \<Longrightarrow> training_ok db"
proof (induction rule: rtranclp_induct)
  case base
  show ?case by (simp add: training_ok_def empty_training_def)
qed (rule training_step_ok)

lemma complete_assignment_mem:
  "a \<in> set as \<Longrightarrow> ta_id a = aid \<Longrightarrow> ta_tenant a = tid \<Longrightarrow>
     a\<lparr> ta_status := ''completed'', ta_completed := Some now \<rparr> \<in> set (complete_assignment tid (Some aid) now as)"
  by (force simp: complete_assignment_def)

text \<open>A completed assignment stays completed.\<close>

definition completed_for :: "training_db \<Rightarrow> uuid \<Rightarrow> uuid \<Rightarrow> string \<Rightarrow> bool" where
  "completed_for db aid mid uid = (\<exists>a\<in>set (td_assignments db).
     ta_id a = aid \<and> ta_module a = mid \<and> ta_user a = uid \<and> ta_status a = ''completed'')"

lemma store_record_completes:
  assumes "store_record r db = Inr db'" and "tr_assignment r = Some (ta_id a)" and "a \<in> set (td_assignments db)"
    and "ta_tenant a = tr_tenant r"
  shows "completed_for db' (ta_id a) (ta_module a) (ta_user a)" and "td_records db' = td_records db @ [r]"
proof -
  let ?a = "a\<lparr> ta_status := ''completed'', ta_completed := Some (tr_completed r) \<rparr>"
  have "td_assignments db' = complete_assignment (tr_tenant r) (Some (ta_id a)) (tr_completed r) (td_assignments db)"
    using assms by (auto simp: store_record_def split: if_splits)
  then have "?a \<in> set (td_assignments db')" using complete_assignment_mem [OF assms(3) refl assms(4)] by simp
  then show "completed_for db' (ta_id a) (ta_module a) (ta_user a)"
    unfolding completed_for_def by (rule bexI [rotated]) simp
  show "td_records db' = td_records db @ [r]" using store_record_fields(2) [OF assms(1)] .
qed

lemma completed_complete:
  "\<exists>a\<in>set as. ta_id a = aid \<and> ta_module a = mid \<and> ta_user a = uid \<and> ta_status a = ''completed'' \<Longrightarrow>
     \<exists>a\<in>set (complete_assignment t i n as). ta_id a = aid \<and> ta_module a = mid \<and> ta_user a = uid \<and> ta_status a = ''completed''"
proof (elim bexE conjE)
  fix a
  assume a: "a \<in> set as" "ta_id a = aid" "ta_module a = mid" "ta_user a = uid" "ta_status a = ''completed''"
  let ?a = "if Some (ta_id a) = i \<and> ta_tenant a = t
    then a\<lparr> ta_status := ''completed'', ta_completed := Some n \<rparr> else a"
  have "?a \<in> set (complete_assignment t i n as)" using a(1) unfolding complete_assignment_def set_map by (rule imageI)
  then show ?thesis using a by (intro bexI [of _ ?a]) simp_all
qed

lemma completed_step: "training_step db db' \<Longrightarrow> completed_for db aid mid uid \<Longrightarrow> completed_for db' aid mid uid"
proof (induction rule: training_step.induct)
  case (create fresh db R b p al)
  then show ?case by (simp add: create_module_def completed_for_def Let_def)
next
  case (assign fresh db R m users due p al)
  then show ?case
    by (auto simp: assign_module_def completed_for_def Let_def split: sum.splits)
next
  case (submit db R G repr text_of fresh b p g al)
  let ?st = "\<lparr> ts_gw = g, ts_db = db, ts_audit = al \<rparr>"
  obtain st' r where run: "submit_training R G repr text_of fresh b p ?st = (st', r)" by fastforce
  from run show ?case
  proof (cases rule: submit_cases)
    case (stored m gr)
    have "td_assignments (ts_db st') = td_assignments db \<or>
        (\<exists>t i n. td_assignments (ts_db st') = complete_assignment t i n (td_assignments db))"
      using store_record_fields(3) [OF stored(3)] by simp
    then show ?thesis
      using run submit completed_complete [of "td_assignments db" aid mid uid] unfolding completed_for_def by auto
  qed (use run submit in simp)
qed

lemma completed_steps: "training_step\<^sup>*\<^sup>* db db' \<Longrightarrow> completed_for db aid mid uid \<Longrightarrow> completed_for db' aid mid uid"
  by (induction rule: rtranclp_induct) (simp_all add: completed_step)

lemma grade_mcq_total:
  "mcq_questions (tm_content m) = Inr qs \<Longrightarrow> qs \<noteq> [] \<Longrightarrow> \<exists>gr. grade_mcq m answers = Inr gr"
  by (simp add: grade_mcq_def Let_def)

lemma filter_enumerate: "length (filter (\<lambda>(i, q). P i q) (enumerate 0 qs)) = card {i. i < length qs \<and> P i (qs ! i)}"
proof -
  have "length (filter (\<lambda>(i, q). P i q) (enumerate 0 qs)) =
      card {i. i < length qs \<and> (case enumerate 0 qs ! i of (i, q) \<Rightarrow> P i q)}"
    by (simp add: length_filter_conv_card)
  also have "{i. i < length qs \<and> (case enumerate 0 qs ! i of (i, q) \<Rightarrow> P i q)} = {i. i < length qs \<and> P i (qs ! i)}"
    by (auto simp: nth_enumerate_eq)
  finally show ?thesis .
qed

section \<open>Properties\<close>

text \<open>
  C25. Whatever modules are stored, assigned and submitted to, the training tables are sound: identifiers are unique, a
  user has a module at most once, every assignment and every record belongs to a module of its own tenant, and an
  assignment has a completion time exactly when it is completed.
\<close>

theorem training_invariant:
  assumes "training_step\<^sup>*\<^sup>* empty_training db"
  shows "distinct (map ta_id (td_assignments db)) \<and>
    (\<forall>a b. a \<in> set (td_assignments db) \<longrightarrow> b \<in> set (td_assignments db) \<longrightarrow>
      ta_module a = ta_module b \<longrightarrow> ta_user a = ta_user b \<longrightarrow> a = b) \<and>
    (\<forall>a\<in>set (td_assignments db). owned_module db (ta_module a) (ta_tenant a) \<and>
      (ta_completed a = None \<longleftrightarrow> ta_status a = ''assigned'')) \<and>
    (\<forall>r\<in>set (td_records db). owned_module db (tr_module r) (tr_tenant r))"
proof -
  have ok: "training_ok db" using assms by (rule reachable_training_ok)
  then have "inj_on (\<lambda>a. (ta_module a, ta_user a)) (set (td_assignments db))"
    by (simp add: training_ok_def distinct_map)
  then have "a = b" if "a \<in> set (td_assignments db)" "b \<in> set (td_assignments db)" "ta_module a = ta_module b"
      "ta_user a = ta_user b" for a b
    using that by (auto dest: inj_onD)
  moreover have "distinct (map ta_id (td_assignments db))" "list_all (assignment_ok db) (td_assignments db)"
    "list_all (\<lambda>r. owned_module db (tr_module r) (tr_tenant r)) (td_records db)"
    using ok by (simp_all only: training_ok_def)
  moreover have "ta_completed a = None \<longleftrightarrow> ta_status a = ''assigned''" if "assignment_ok db a" for a
    using that by (auto simp: assignment_ok_def)
  ultimately show ?thesis unfolding list_all_iff assignment_ok_def by blast
qed

text \<open>
  C26. Assigning is idempotent: after a request each of its users has the module exactly once, and the same request
  again, by anyone of the tenant, assigns nothing and changes no table.
\<close>

theorem assign_idempotent:
  assumes "training_ok db" and "inj fresh" and "range fresh \<inter> ta_id ` set (td_assignments db) = {}"
    and "load_module mid (pp_tenant_id p) db = Inr m"
    and "assign_module R fresh mid users due p (db, al) = ((db', al'), r)" and "pp_tenant_id p' = pp_tenant_id p"
  shows "(\<forall>u\<in>set users. \<exists>!a. a \<in> set (td_assignments db') \<and> ta_module a = mid \<and> ta_user a = u) \<and>
    (\<exists>al''. assign_module R' fresh' mid users due' p' (db', al') = ((db', al''), Inr []))"
proof -
  obtain rows where rows: "fst (fst (assign_module R fresh mid users due p (db, al))) =
      db\<lparr> td_assignments := td_assignments db @ rows \<rparr>"
    and "snd (assign_module R fresh mid users due p (db, al)) = Inr rows"
    and u: "map ta_user rows = filter (\<lambda>u. u \<notin> set (already_assigned mid (requested_users users) db)) (requested_users users)"
    and "map ta_id rows = map fresh [0..<length rows]"
    and a: "list_all (\<lambda>a. ta_tenant a = pp_tenant_id p \<and> ta_module a = mid \<and> ta_status a = ''assigned'' \<and>
      ta_completed a = None) rows"
    by (rule assign_module_rows [OF assms(4)])
  have db': "db' = db\<lparr> td_assignments := td_assignments db @ rows \<rparr>" using rows assms(5) by simp
  have ok: "training_ok db'" using assign_ok [OF assms(1-3), of R mid users due p al] assms(5) by simp
  have ex: "\<exists>a. a \<in> set (td_assignments db') \<and> ta_module a = mid \<and> ta_user a = v" if "v \<in> set users" for v
  proof (cases "v \<in> set (already_assigned mid (requested_users users) db)")
    case True
    then show ?thesis by (auto simp: already_assigned_set db')
  next
    case False
    then have "v \<in> set (map ta_user rows)" unfolding u using that by simp
    then show ?thesis using a by (auto simp: db' list_all_iff)
  qed
  have "inj_on (\<lambda>a. (ta_module a, ta_user a)) (set (td_assignments db'))"
    using ok by (simp add: training_ok_def distinct_map)
  then have "\<exists>!a. a \<in> set (td_assignments db') \<and> ta_module a = mid \<and> ta_user a = v" if "v \<in> set users" for v
    using ex [OF that] by (metis (mono_tags, lifting) inj_onD)
  moreover have "load_module mid (pp_tenant_id p') db' = Inr m"
    using assms(4,6) by (simp add: load_module_def db')
  moreover have "filter (\<lambda>v. v \<notin> set (already_assigned mid (requested_users users) db')) (requested_users users) = []"
    using ex by (auto simp: already_assigned_set filter_empty_conv)
  ultimately show ?thesis by (simp add: assign_module_def Let_def enumerate_eq_zip)
qed

text \<open>
  Multiple choice is graded by counting: the score is the number of questions answered with the stored index, out of
  the number of questions; the percentage lies between 0 and 100, is 100 when all are right, and the submission
  passes exactly when it reaches the pass mark of the module.
\<close>

theorem mcq_exact:
  assumes "mcq_questions (tm_content m) = Inr qs" and "qs \<noteq> []"
  shows "\<exists>gr pct. grade_mcq m answers = Inr gr \<and>
    gs_score gr = Some (Fin (of_nat (card {i. i < length qs \<and> mcq_correct answers i (qs ! i)}))) \<and>
    gs_max gr = Some (Fin (of_nat (length qs))) \<and> gs_pct gr = Some (Fin pct) \<and> 0 \<le> pct \<and> pct \<le> 100 \<and>
    ((\<forall>i<length qs. mcq_correct answers i (qs ! i)) \<longrightarrow> pct = 100) \<and> gs_passed gr = Some (tm_pass_mark m \<le> pct)"
proof -
  let ?n = "card {i. i < length qs \<and> mcq_correct answers i (qs ! i)}"
  let ?x = "of_nat ?n / of_nat (length qs) * 100 :: rat"
  have "?n \<le> card {i. i < length qs}" by (rule card_mono) auto
  then have n: "?n \<le> length qs" by simp
  have pos: "0 < (of_nat (length qs) :: rat)" using assms(2) by simp
  have x: "0 \<le> ?x" "?x \<le> 100" using n pos by (simp_all add: divide_le_eq)
  have hundred: "py_round 100 1 = 100" "py_round 0 1 = 0" by (simp_all add: py_round_def round_int_def)
  have "0 \<le> py_round ?x 1" "py_round ?x 1 \<le> 100"
    using py_round_mono [OF x(1), of 1] py_round_mono [OF x(2), of 1] by (simp_all only: hundred)
  moreover have "py_round ?x 1 = 100" if "\<forall>i<length qs. mcq_correct answers i (qs ! i)"
  proof -
    have "{i. i < length qs \<and> mcq_correct answers i (qs ! i)} = {i. i < length qs}" using that by auto
    then have "?x = 100" using pos by simp
    then show ?thesis by (simp only: hundred)
  qed
  ultimately show ?thesis
    using assms by (simp add: grade_mcq_def Let_def filter_enumerate)
qed

text \<open>
  C27. The learner's way to completion: an assignee who submits answers to a module with questions has the assignment
  completed, pass or fail, and it stays completed whatever is done afterwards.
\<close>

theorem submission_completes:
  assumes "governed R G ''grading'' p (ts_gw st) = (g, Inr u)"
    and "load_module (sb_module b) (pp_tenant_id p) (ts_db st) = Inr m"
    and "sb_answers b = Some answers" and "mcq_questions (tm_content m) = Inr qs" and "qs \<noteq> []"
    and "sb_assignment b = Some (ta_id a)" and "a \<in> set (td_assignments (ts_db st))"
    and "ta_tenant a = pp_tenant_id p" and "ta_module a = sb_module b" and "ta_user a = pp_user_id p"
  shows "\<exists>st' r. submit_training R G repr text_of fresh b p st = (st', Inr r) \<and> gs_trace (ts_gw st') = gs_trace (ts_gw st) \<and>
    (\<forall>db. training_step\<^sup>*\<^sup>* (ts_db st') db \<longrightarrow> completed_for db (ta_id a) (sb_module b) (pp_user_id p))"
proof -
  obtain gr where gr: "grade_mcq m answers = Inr gr" using grade_mcq_total [OF assms(4,5)] by blast
  let ?r = "new_record fresh (ro_now R) p m b gr"
  have r: "tr_assignment ?r = Some (ta_id a)" "ta_tenant a = tr_tenant ?r"
    using assms(6,8) by (simp_all add: new_record_def)
  obtain db where db: "store_record ?r (ts_db st) = Inr db"
    using assms(7) r(1) by (simp add: store_record_def)
  have run: "snd (submit_training R G repr text_of fresh b p st) = Inr ?r"
    "ts_gw (fst (submit_training R G repr text_of fresh b p st)) = g"
    "ts_db (fst (submit_training R G repr text_of fresh b p st)) = db"
    using assms(1,2) gr db by (simp_all add: submit_training_def grade_submission_def assms(3))
  have "completed_for db (ta_id a) (sb_module b) (pp_user_id p)"
    using store_record_completes(1) [OF db r(1) assms(7) r(2)] by (simp only: assms(9,10))
  moreover have "gs_trace g = gs_trace (ts_gw st)" using assms(1) by (auto simp: governed_def split: prod.splits)
  moreover obtain st' where "submit_training R G repr text_of fresh b p st = (st', Inr ?r)"
    using run(1) by (cases "submit_training R G repr text_of fresh b p st") auto
  ultimately show ?thesis using run completed_steps by (intro exI [of _ st'] exI [of _ ?r]) auto
qed

text \<open>
  Nothing ties a submission to the assignment it names: a learner who submits to any module of the tenant and
  names the assignment of a colleague, for another module, completes the colleague's assignment, while the records
  of the colleague stay as they are.
\<close>

theorem foreign_assignment_completed:
  assumes "submit_training R G repr text_of fresh b p st = (st', Inr r)"
    and "sb_assignment b = Some (ta_id a)" and "a \<in> set (td_assignments (ts_db st))" and "ta_tenant a = pp_tenant_id p"
    and "ta_user a \<noteq> pp_user_id p" and "ta_module a \<noteq> sb_module b"
  shows "completed_for (ts_db st') (ta_id a) (ta_module a) (ta_user a) \<and>
    list_records q (Some (ta_user a)) mid (ts_db st') = list_records q (Some (ta_user a)) mid (ts_db st)"
  using assms(1)
proof (cases rule: submit_cases)
  case (stored m gr)
  let ?r = "new_record fresh (ro_now R) p m b gr"
  have "tr_assignment ?r = Some (ta_id a)" "ta_tenant a = tr_tenant ?r" "tr_user ?r \<noteq> ta_user a"
    using assms(2,4,5) by (simp_all add: new_record_def)
  then have "completed_for (ts_db st') (ta_id a) (ta_module a) (ta_user a)"
    and new: "td_records (ts_db st') = td_records (ts_db st) @ [?r]"
    using store_record_completes [OF stored(3) _ assms(3)] by blast+
  moreover have "list_records q (Some (ta_user a)) mid (ts_db st') = list_records q (Some (ta_user a)) mid (ts_db st)"
    using new assms(5) by (simp add: list_records_def new_record_def)
  ultimately show ?thesis by simp
qed simp

section \<open>Witnesses\<close>

definition open_route :: route_env where
  "open_route = ended_trial\<lparr> ro_tenants := [sample_tenant\<lparr> tn_plan := Some ''pro'' \<rparr>] \<rparr>"

definition quiz_module :: module_create where
  "quiz_module = \<lparr> mc_title = ''Quiz'', mc_topic = ''aml'', mc_kind = ''quiz'',
     mc_content = [(''data'', JObj [(''questions'', JList [JObj [(''answer_index'', JInt 1)], JObj [(''answer_index'', JInt 0)]])])],
     mc_rubric = [], mc_grounding = [], mc_sources = [], mc_pass_mark = 70 \<rparr>"

definition training_1 :: training_db where
  "training_1 = fst (fst (create_module open_route ''m1'' quiz_module sample_principal (empty_training, [])))"

definition training_2 :: training_db where
  "training_2 = fst (fst (create_module open_route ''m2'' quiz_module sample_principal (training_1, [])))"

definition sample_training :: training_db where
  "sample_training = fst (fst (assign_module open_route (\<lambda>i. ''a'' @ nat_str i) ''m1'' [''u1'', ''u2''] None sample_principal
     (training_2, [])))"

lemma user_governed:
  "governed open_route (ae_gw sample_ask) ''grading'' (sample_principal\<lparr> pp_user_id := u \<rparr>) sample_state = (sample_state, Inr ())"
proof -
  let ?s = "e_settings (ae_gw sample_ask)" and ?ts = "[sample_tenant\<lparr> tn_plan := Some ''pro'' \<rparr>]"
    and ?p = "sample_principal\<lparr> pp_user_id := u \<rparr>"
  have tid: "pp_tenant_id ?p = ''t1''" by (simp add: sample_principal_def)
  have row: "tenant_db ?ts ''t1'' = Some None" "load_tenant_settings (tenant_db ?ts) ''t1'' = None" by code_simp+
  have t: "require_active_trial ?ts 1 ?p = Inr ?p"
    by (simp add: require_active_trial_def sample_tenant_def NON_PAID_PLANS_def)
  have s: "gateway_default_requests_per_day ?s = 0" "gateway_default_tokens_per_day ?s = 0" "gateway_enabled ?s"
    by (simp_all add: sample_ask_def answering_env_def sample_env_def default_settings_def)
  have "resolve_limits ?s None = Inr \<lparr> requests_per_day = 0, tokens_per_day = 0 \<rparr>"
    by (simp add: resolve_limits_def gateway_block_def gateway_get_def dget_def dget_or_def por_def int_or_def coerce_int_def s)
  then have l: "resolve_tenant_limits ?s (tenant_db ?ts) ''t1'' = Inr \<lparr> requests_per_day = 0, tokens_per_day = 0 \<rparr>"
    by (simp add: resolve_tenant_limits_def row)
  have q: "quota_guard ?s ?ts True 1 ''grading'' None ?p [] = ([], Inr ?p)"
    by (simp only: quota_guard_def quota_context_def tid)
      (simp add: enforce_quota_service_def check_def has_any_def l s Let_def)
  have p: "policy_guard ?s ?ts ''grading'' ?p = Inr ?p"
    by (simp only: policy_guard_def tid row)
      (simp add: resolve_route_def enforce_def resolve_policy_none default_policy_def split_beta)
  show ?thesis
    by (simp only: governed_def guards_def open_route_def ended_trial_def route_env.simps t)
      (simp add: q p sample_state_def require_byok_def)
qed

lemma sample_governed: "governed open_route (ae_gw sample_ask) ''grading'' sample_principal sample_state = (sample_state, Inr ())"
  using user_governed [of "pp_user_id sample_principal"] by simp

lemma sample_training_step: "training_step\<^sup>*\<^sup>* empty_training sample_training"
proof -
  have "training_step empty_training training_1" unfolding training_1_def
    by (rule training_step.create) (simp add: empty_training_def)
  moreover have "training_step training_1 training_2" unfolding training_2_def
    by (rule training_step.create) (simp add: training_1_def empty_training_def create_module_def Let_def)
  moreover have "training_step training_2 sample_training" unfolding sample_training_def
    by (rule training_step.assign)
      (auto intro: injI simp: nat_str_inj training_2_def training_1_def empty_training_def create_module_def Let_def)
  ultimately show ?thesis by (meson converse_rtranclp_into_rtranclp r_into_rtranclp)
qed

definition sample_module :: training_module where
  "sample_module = snd (create_module open_route ''m2'' quiz_module sample_principal (empty_training, []))"

lemma sample_questions: "mcq_questions (tm_content sample_module) = Inr [[(''answer_index'', JInt 1)], [(''answer_index'', JInt 0)]]"
  by code_simp

definition first_module :: training_module where
  "first_module = snd (create_module open_route ''m1'' quiz_module sample_principal (empty_training, []))"

definition learner :: principal where
  "learner = sample_principal\<lparr> pp_user_id := ''u2'' \<rparr>"

definition sample_assignment :: training_assignment where
  "sample_assignment = new_assignment sample_principal ''m1'' None 1 ''a1'' ''u2''"

lemma sample_training_facts:
  "load_module ''m1'' (pp_tenant_id learner) sample_training = Inr first_module"
  "mcq_questions (tm_content first_module) = Inr [[(''answer_index'', JInt 1)], [(''answer_index'', JInt 0)]]"
  "load_module ''m2'' (pp_tenant_id sample_principal) sample_training = Inr sample_module"
  "sample_assignment \<in> set (td_assignments sample_training)" "ta_tenant sample_assignment = pp_tenant_id sample_principal"
  "ta_id sample_assignment = ''a1''" "ta_user sample_assignment = ''u2''" "ta_module sample_assignment = ''m1''"
  by code_simp+

theorem training_invariant_witness:
  "owned_module sample_training ''m1'' ''t1'' \<and> distinct (map ta_id (td_assignments sample_training))"
  using training_invariant [OF sample_training_step] sample_training_facts
  by (auto simp: sample_principal_def)

lemma learner_tenant: "pp_tenant_id learner = pp_tenant_id sample_principal"
  by (simp add: learner_def)

theorem assign_idempotent_witness:
  "\<exists>al al'. assign_module open_route (\<lambda>i. ''b'' @ nat_str i) ''m2'' [''u2'', ''u2''] None learner
     (fst (fst (assign_module open_route (\<lambda>i. ''b'' @ nat_str i) ''m2'' [''u2'', ''u2''] None sample_principal
       (sample_training, []))), al) =
     ((fst (fst (assign_module open_route (\<lambda>i. ''b'' @ nat_str i) ''m2'' [''u2'', ''u2''] None sample_principal
       (sample_training, []))), al'), Inr [])"
proof -
  have ok: "training_ok sample_training" by (rule reachable_training_ok [OF sample_training_step])
  have ij: "inj (\<lambda>i. ''b'' @ nat_str i)" by (auto intro: injI simp: nat_str_inj)
  have "ta_id ` set (td_assignments sample_training) = {''a0'', ''a1''}" by code_simp
  then have dj: "range (\<lambda>i. ''b'' @ nat_str i) \<inter> ta_id ` set (td_assignments sample_training) = {}" by auto
  obtain db al r where run: "assign_module open_route (\<lambda>i. ''b'' @ nat_str i) ''m2'' [''u2'', ''u2''] None sample_principal
      (sample_training, []) = ((db, al), r)" by (metis prod.exhaust)
  show ?thesis
    using assign_idempotent [OF ok ij dj sample_training_facts(3) run learner_tenant,
        where R' = open_route and fresh' = "\<lambda>i. ''b'' @ nat_str i" and due' = None]
    unfolding run fst_conv by blast
qed

theorem mcq_exact_witness:
  "\<exists>gr pct. grade_mcq sample_module [1, 1] = Inr gr \<and> gs_pct gr = Some (Fin pct) \<and> 0 \<le> pct \<and> pct \<le> 100 \<and>
     gs_passed gr = Some (tm_pass_mark sample_module \<le> pct)"
  using mcq_exact [OF sample_questions, of "[1, 1]"] by auto

definition sample_submission :: "uuid \<Rightarrow> submit_body" where
  "sample_submission mid = \<lparr> sb_module = mid, sb_assignment = Some ''a1'', sb_answers = Some [1, 1], sb_content = None \<rparr>"

definition training_start :: training_state where
  "training_start = \<lparr> ts_gw = sample_state, ts_db = sample_training, ts_audit = [] \<rparr>"

lemma learner_governed: "governed open_route (ae_gw sample_ask) ''grading'' learner sample_state = (sample_state, Inr ())"
  using user_governed [of "''u2''"] by (simp only: learner_def)

theorem submission_completes_witness:
  "\<exists>st' r. submit_training open_route (ae_gw sample_ask) (\<lambda>_. []) (\<lambda>_. []) ''r1'' (sample_submission ''m1'') learner
     training_start = (st', Inr r) \<and> completed_for (ts_db st') ''a1'' ''m1'' ''u2''"
proof -
  have m: "load_module (sb_module (sample_submission ''m1'')) (pp_tenant_id learner) (ts_db training_start) = Inr first_module"
    using sample_training_facts(1) by (simp add: sample_submission_def training_start_def)
  have f: "sb_answers (sample_submission ''m1'') = Some [1, 1]"
    "sb_assignment (sample_submission ''m1'') = Some (ta_id sample_assignment)"
    "sample_assignment \<in> set (td_assignments (ts_db training_start))" "ta_tenant sample_assignment = pp_tenant_id learner"
    "ta_module sample_assignment = sb_module (sample_submission ''m1'')" "ta_user sample_assignment = pp_user_id learner"
    using sample_training_facts by (simp_all add: sample_submission_def training_start_def learner_def)
  have g: "governed open_route (ae_gw sample_ask) ''grading'' learner (ts_gw training_start) = (sample_state, Inr ())"
    using learner_governed by (simp add: training_start_def)
  obtain st' r where "submit_training open_route (ae_gw sample_ask) (\<lambda>_. []) (\<lambda>_. []) ''r1'' (sample_submission ''m1'')
      learner training_start = (st', Inr r)"
    "\<forall>db. training_step\<^sup>*\<^sup>* (ts_db st') db \<longrightarrow>
      completed_for db (ta_id sample_assignment) (sb_module (sample_submission ''m1'')) (pp_user_id learner)"
    using submission_completes [OF g m f(1) sample_training_facts(2) _ f(2-6)] by blast
  then show ?thesis
    using sample_training_facts by (auto simp: sample_submission_def learner_def)
qed

theorem foreign_assignment_completed_witness:
  "\<exists>st' r. submit_training open_route (ae_gw sample_ask) (\<lambda>_. []) (\<lambda>_. []) ''r1'' (sample_submission ''m2'') sample_principal
     training_start = (st', Inr r) \<and> completed_for (ts_db st') ''a1'' ''m1'' ''u2''"
proof -
  obtain gr where g: "grade_mcq sample_module [1, 1] = Inr gr" using grade_mcq_total [OF sample_questions] by blast
  let ?r = "new_record ''r1'' (ro_now open_route) sample_principal sample_module (sample_submission ''m2'') gr"
  have "''a1'' \<in> ta_id ` set (td_assignments sample_training)" using sample_training_facts by force
  then obtain db where s: "store_record ?r sample_training = Inr db"
    by (simp add: store_record_def new_record_def sample_submission_def)
  have "\<exists>st'. submit_training open_route (ae_gw sample_ask) (\<lambda>_. []) (\<lambda>_. []) ''r1''
      (sample_submission ''m2'') sample_principal training_start = (st', Inr ?r)"
    using g s sample_governed sample_training_facts(3)
    by (simp add: submit_training_def training_start_def sample_submission_def grade_submission_def)
  then obtain st' where run: "submit_training open_route (ae_gw sample_ask) (\<lambda>_. []) (\<lambda>_. []) ''r1''
      (sample_submission ''m2'') sample_principal training_start = (st', Inr ?r)" ..
  have "sb_assignment (sample_submission ''m2'') = Some (ta_id sample_assignment)"
    "sample_assignment \<in> set (td_assignments (ts_db training_start))" "ta_tenant sample_assignment = pp_tenant_id sample_principal"
    "ta_user sample_assignment \<noteq> pp_user_id sample_principal" "ta_module sample_assignment \<noteq> sb_module (sample_submission ''m2'')"
    using sample_training_facts by (simp_all add: sample_submission_def training_start_def sample_principal_def)
  from foreign_assignment_completed [OF run this] show ?thesis using run sample_training_facts by auto
qed

end
