(* ===== verification/WatcherFeeds.thy ===== *)
theory WatcherFeeds
  imports IngestPipeline
begin

text \<open>
  The feeds of the watcher (\<open>watcher/feeds/base.py\<close>, \<open>rss.py\<close>, \<open>registry.py\<close>).  The network, the feed
  parser, the parser of mail dates and \<open>isoformat\<close> are parameters; what a poll does with their answers is
  modelled.  The waiting between attempts is not.
\<close>

section \<open>Events and entries\<close>

text \<open>A datetime: seconds since the epoch with a time zone, or without one.\<close>

datatype py_datetime = Aware int | Naive int

text \<open>What \<open>_safe\<close> distinguishes: JSON scalars, mappings (keys as \<open>str\<close> prints them), iterables, the rest as \<open>str\<close> prints it.\<close>

datatype raw = RawScalar json | RawDict "(string \<times> raw) list" | RawIter "raw list" | RawOther string

text \<open>The attributes of an entry that the code reads, and its items.\<close>

record feed_entry =
  fe_link :: "string option"
  fe_title :: "string option"
  fe_id :: "string option"
  fe_guid :: "string option"
  fe_summary :: "string option"
  fe_published_parsed :: "int list option"
  fe_updated_parsed :: "int list option"
  fe_published :: "string option"
  fe_updated :: "string option"
  fe_items :: "(string \<times> raw) list"

record pub_event =
  pe_regulator :: string
  pe_external :: string
  pe_title :: string
  pe_url :: string
  pe_published :: "py_datetime option"
  pe_summary :: "string option"
  pe_type :: string
  pe_payload :: jdict

record rss_feed =
  rf_regulator :: string
  rf_url :: string
  rf_event_type :: string
  rf_excludes :: "string list"

text \<open>The attempt counts the requests for one URL; the class of the exceptions decides what is tried again.\<close>

record watch_net =
  wn_get :: "string \<Rightarrow> nat \<Rightarrow> exn + response"
  wn_post :: "string \<Rightarrow> json \<Rightarrow> nat \<Rightarrow> exn option"
  wn_http_error :: "exn \<Rightarrow> bool"
  wn_class_name :: "exn \<Rightarrow> string"
  wn_parse :: "string \<Rightarrow> feed_entry list"
  wn_mail_date :: "string \<Rightarrow> exn + py_datetime"
  wn_isoformat :: "py_datetime \<Rightarrow> string"
  wn_urllib :: urllib
  wn_insert :: "pub_event \<Rightarrow> exn option"
  wn_now :: int

section \<open>Attempts\<close>

text \<open>\<open>@retry(..., stop_after_attempt, reraise=True)\<close>: the number of calls made and the last result.\<close>

fun attempts :: "(exn \<Rightarrow> bool) \<Rightarrow> nat \<Rightarrow> nat \<Rightarrow> (nat \<Rightarrow> exn + 'a) \<Rightarrow> nat \<times> (exn + 'a)" where
  "attempts retryable 0 i f = (i + 1, f i)"
| "attempts retryable (Suc n) i f =
     (case f i of
        Inl e \<Rightarrow> if retryable e then attempts retryable n (i + 1) f else (i + 1, Inl e)
      | Inr x \<Rightarrow> (i + 1, Inr x))"

definition three_attempts :: "(exn \<Rightarrow> bool) \<Rightarrow> (nat \<Rightarrow> exn + 'a) \<Rightarrow> nat \<times> (exn + 'a)" where
  "three_attempts retryable f = attempts retryable 2 0 f"

section \<open>Dates\<close>

text \<open>Days since 1970-01-01, counting the year from March.\<close>

definition epoch_days :: "int \<Rightarrow> int \<Rightarrow> int \<Rightarrow> int" where
  "epoch_days y m d =
     (let y' = (if m \<le> 2 then y - 1 else y);
          doy = (153 * (if m \<le> 2 then m + 9 else m - 3) + 2) div 5 + d - 1;
          yoe = y' mod 400
      in (y' div 400) * 146097 + yoe * 365 + yoe div 4 - yoe div 100 + doy - 719468)"

text \<open>\<open>datetime(*struct[:6], tzinfo=utc)\<close>\<close>

definition utc_datetime :: "int list \<Rightarrow> exn + py_datetime" where
  "utc_datetime struct =
     (case take 6 struct of
        [y, mo, d, h, mi, s] \<Rightarrow>
          if 1 \<le> y \<and> y \<le> 9999 \<and> 1 \<le> mo \<and> mo \<le> 12 \<and> 1 \<le> d \<and> d \<le> int (days_in_month (nat y) (nat mo)) \<and>
             0 \<le> h \<and> h \<le> 23 \<and> 0 \<le> mi \<and> mi \<le> 59 \<and> 0 \<le> s \<and> s \<le> 59
          then Inr (Aware (epoch_days y mo d * 86400 + h * 3600 + mi * 60 + s))
          else Inl (PyExc ValueError)
      | _ \<Rightarrow> Inl (PyExc TypeError))"

definition is_date_error :: "exn \<Rightarrow> bool" where
  "is_date_error e = (e = PyExc TypeError \<or> e = PyExc ValueError)"

fun first_struct :: "int list option list \<Rightarrow> int list option" where
  "first_struct [] = None"
| "first_struct (s # ss) = (case s of None \<Rightarrow> first_struct ss | Some [] \<Rightarrow> first_struct ss | Some x \<Rightarrow> Some x)"

fun first_mail_date :: "(string \<Rightarrow> exn + py_datetime) \<Rightarrow> string option list \<Rightarrow> exn + py_datetime option" where
  "first_mail_date parse [] = Inr None"
| "first_mail_date parse (s # ss) =
     (if str_true s
      then (case parse (the s) of
          Inr w \<Rightarrow> Inr (Some w)
        | Inl e \<Rightarrow> if is_date_error e then first_mail_date parse ss else Inl e)
      else first_mail_date parse ss)"

definition parse_when :: "watch_net \<Rightarrow> feed_entry \<Rightarrow> exn + py_datetime option" where
  "parse_when N e =
     (case first_struct [fe_published_parsed e, fe_updated_parsed e] of
        Some s \<Rightarrow> try_bind (utc_datetime s) (\<lambda>w. Inr (Some w))
      | None \<Rightarrow> first_mail_date (wn_mail_date N) [fe_published e, fe_updated e])"

section \<open>Entries to events\<close>

fun safe :: "raw \<Rightarrow> json" where
  "safe (RawScalar j) = j"
| "safe (RawDict d) = JObj (foldl (\<lambda>acc (k, v). dset acc k v) [] (map (\<lambda>(k, v). (k, safe v)) d))"
| "safe (RawIter xs) = JList (map safe xs)"
| "safe (RawOther s) = JStr s"

definition payload_from_entry :: "feed_entry \<Rightarrow> jdict" where
  "payload_from_entry e =
     map (\<lambda>(k, v). (k, safe v)) (filter (\<lambda>(k, v). k \<notin> {''published_parsed'', ''updated_parsed''}) (fe_items e))"

definition entry_to_event :: "watch_net \<Rightarrow> rss_feed \<Rightarrow> feed_entry \<Rightarrow> exn + pub_event option" where
  "entry_to_event N f e =
     (let url = or_str (fe_link e) []; title = or_str (fe_title e) [] in
       if url = [] \<and> title = [] then Inr None
       else try_bind (parse_when N e) (\<lambda>published.
         Inr (Some \<lparr> pe_regulator = rf_regulator f,
           pe_external = or_str (fe_id e) (or_str (fe_guid e) (if url \<noteq> [] then url else title)),
           pe_title = strip title, pe_url = url, pe_published = published, pe_summary = fe_summary e,
           pe_type = rf_event_type f, pe_payload = payload_from_entry e \<rparr>)))"

text \<open>A datetime without a zone cannot be compared with \<open>since\<close>.\<close>

definition too_old :: "int option \<Rightarrow> pub_event \<Rightarrow> exn + bool" where
  "too_old since ev =
     (case (since, pe_published ev) of
        (Some t, Some (Aware w)) \<Rightarrow> Inr (w < t)
      | (Some t, Some (Naive w)) \<Rightarrow> Inl (PyExc TypeError)
      | _ \<Rightarrow> Inr False)"

definition is_excluded :: "rss_feed \<Rightarrow> string \<Rightarrow> bool" where
  "is_excluded f url =
     (if rf_excludes f = [] \<or> url = [] then False else list_ex (\<lambda>s. contains s (lower url)) (rf_excludes f))"

fun entry_loop :: "watch_net \<Rightarrow> rss_feed \<Rightarrow> int option \<Rightarrow> feed_entry list \<Rightarrow> exn + pub_event list" where
  "entry_loop N f since [] = Inr []"
| "entry_loop N f since (e # es) =
     try_bind (entry_to_event N f e) (\<lambda>m.
       case m of
         None \<Rightarrow> entry_loop N f since es
       | Some ev \<Rightarrow>
           try_bind (too_old since ev) (\<lambda>old.
             if old \<or> is_excluded f (pe_url ev) then entry_loop N f since es
             else try_bind (entry_loop N f since es) (\<lambda>evs. Inr (ev # evs))))"

definition fetch_raw :: "watch_net \<Rightarrow> rss_feed \<Rightarrow> exn + string" where
  "fetch_raw N f =
     try_bind (snd (three_attempts (wn_http_error N) (wn_get N (rf_url f)))) (\<lambda>r. Inr (rs_content r))"

definition fetch_feed :: "watch_net \<Rightarrow> rss_feed \<Rightarrow> int option \<Rightarrow> exn + pub_event list" where
  "fetch_feed N f since = try_bind (fetch_raw N f) (\<lambda>raw. entry_loop N f since (wn_parse N raw))"

section \<open>The registry\<close>

definition rss_feed_of :: "string \<Rightarrow> string \<Rightarrow> string \<Rightarrow> string list \<Rightarrow> rss_feed" where
  "rss_feed_of regulator url event_type excludes =
     \<lparr> rf_regulator = regulator, rf_url = url, rf_event_type = event_type, rf_excludes = map lower excludes \<rparr>"

definition SUPPORTED_REGULATORS :: "string list" where
  "SUPPORTED_REGULATORS = [''fca'', ''boe'', ''pra'', ''fos'', ''tpr'', ''ico'', ''hmrc'']"

definition GOVUK_NOISE_PATHS :: "string list" where
  "GOVUK_NOISE_PATHS = [''/government/statistics/'', ''/government/news/'', ''/government/speeches/'',
     ''/government/people/'', ''/government/ministers/'', ''/government/case-studies/'',
     ''/government/world-location-news/'', ''/government/collections/'', ''/government/topical-events/'',
     ''/government/foi-releases/'', ''/government/correspondence/'']"

definition feed_candidates :: "settings \<Rightarrow> (string \<times> string \<times> string \<times> string list) list" where
  "feed_candidates s =
     [(''fca'', watcher_fca_url s, ''publication'', []),
      (''boe'', watcher_boe_url s, ''publication'', []),
      (''pra'', watcher_pra_url s, ''prudential-publication'', []),
      (''fos'', watcher_fos_url s, ''publication'', []),
      (''tpr'', watcher_tpr_url s, ''publication'', GOVUK_NOISE_PATHS),
      (''ico'', watcher_ico_url s, ''publication'', GOVUK_NOISE_PATHS),
      (''hmrc'', watcher_hmrc_url s, ''publication'', GOVUK_NOISE_PATHS)]"

definition default_feeds :: "settings \<Rightarrow> rss_feed list" where
  "default_feeds s =
     map (\<lambda>(reg, url, ty, ex). rss_feed_of reg url ty ex)
       (filter (\<lambda>(reg, url, ty, ex). strip url \<noteq> []) (feed_candidates s))"

definition feed_for :: "settings \<Rightarrow> string \<Rightarrow> rss_feed option" where
  "feed_for s regulator = find (\<lambda>f. rf_regulator f = strip (lower regulator)) (default_feeds s)"

definition filter_feeds :: "rss_feed list \<Rightarrow> string list option \<Rightarrow> rss_feed list" where
  "filter_feeds feeds only =
     (case only of
        None \<Rightarrow> feeds
      | Some rs \<Rightarrow> if rs = [] then feeds
          else filter (\<lambda>f. rf_regulator f \<in> set (map (\<lambda>r. strip (lower r)) rs)) feeds)"

section \<open>Lemmas\<close>

lemma govuk_candidates:
  "(reg, url, ty, ex) \<in> set (feed_candidates s) \<Longrightarrow> reg \<in> {''tpr'', ''ico'', ''hmrc''} \<Longrightarrow> ex = GOVUK_NOISE_PATHS"
  by (auto simp: feed_candidates_def)

lemma govuk_feed_excludes:
  assumes "f \<in> set (default_feeds s)" and "rf_regulator f \<in> {''tpr'', ''ico'', ''hmrc''}"
  shows "rf_excludes f = GOVUK_NOISE_PATHS"
proof -
  have l: "map lower GOVUK_NOISE_PATHS = GOVUK_NOISE_PATHS" by code_simp
  obtain reg url ty ex where c: "(reg, url, ty, ex) \<in> set (feed_candidates s)" "f = rss_feed_of reg url ty ex"
    using assms(1) unfolding default_feeds_def by auto
  then have "ex = GOVUK_NOISE_PATHS" using govuk_candidates [OF c(1)] assms(2) by (simp add: rss_feed_of_def)
  then show ?thesis using c(2) l by (simp add: rss_feed_of_def)
qed

text \<open>At most three requests, and the result is that of the last one.\<close>

lemma attempts_result:
  "attempts retryable n i f = (k, r) \<Longrightarrow> i < k \<and> k \<le> i + n + 1 \<and> r = f (k - 1) \<and>
     (\<forall>j. i \<le> j \<and> j < k - 1 \<longrightarrow> (\<exists>e. f j = Inl e \<and> retryable e))"
proof (induction n arbitrary: i k r)
  case (Suc n)
  show ?case
  proof (cases "f i")
    case (Inl e)
    show ?thesis
    proof (cases "retryable e")
      case True
      then have "attempts retryable n (i + 1) f = (k, r)" using Suc.prems Inl by simp
      then have ih: "i + 1 < k" "k \<le> i + 1 + n + 1" "r = f (k - 1)"
        "\<forall>j. i + 1 \<le> j \<and> j < k - 1 \<longrightarrow> (\<exists>e. f j = Inl e \<and> retryable e)"
        using Suc.IH by blast+
      moreover have "\<exists>e. f j = Inl e \<and> retryable e" if "i \<le> j" "j < k - 1" for j
        using that ih(4) Inl True by (cases "j = i") auto
      ultimately show ?thesis by simp
    next
      case False
      then show ?thesis using Suc.prems Inl by auto
    qed
  next
    case (Inr x)
    then show ?thesis using Suc.prems by auto
  qed
qed auto

lemma or_str_nonempty: "y \<noteq> [] \<Longrightarrow> or_str x y \<noteq> []"
  by (cases x) (simp_all add: or_str_def str_true_def)

lemma entry_to_event_feed:
  assumes "entry_to_event N f e = Inr (Some ev)"
  shows "pe_regulator ev = rf_regulator f \<and> pe_type ev = rf_event_type f \<and> pe_external ev \<noteq> []"
proof -
  let ?url = "or_str (fe_link e) []" and ?title = "or_str (fe_title e) []"
  have "\<not> (?url = [] \<and> ?title = [])" using assms by (auto simp: entry_to_event_def)
  then have "(if ?url \<noteq> [] then ?url else ?title) \<noteq> []" by simp
  then have "or_str (fe_id e) (or_str (fe_guid e) (if ?url \<noteq> [] then ?url else ?title)) \<noteq> []"
    by (intro or_str_nonempty)
  moreover have "pe_regulator ev = rf_regulator f" "pe_type ev = rf_event_type f"
    "pe_external ev = or_str (fe_id e) (or_str (fe_guid e) (if ?url \<noteq> [] then ?url else ?title))"
    using assms by (auto simp: entry_to_event_def Let_def try_bind_eq_Inr simp del: if_not_P split: if_split_asm)
  ultimately show ?thesis by simp
qed

lemma entry_loop_events:
  "entry_loop N f since es = Inr evs \<Longrightarrow> ev \<in> set evs \<Longrightarrow>
   (\<exists>e\<in>set es. entry_to_event N f e = Inr (Some ev)) \<and> too_old since ev = Inr False \<and> \<not> is_excluded f (pe_url ev)"
proof (induction es arbitrary: evs)
  case (Cons e es)
  obtain m where m: "entry_to_event N f e = Inr m" using Cons.prems(1) by (cases "entry_to_event N f e") simp_all
  show ?case
  proof (cases m)
    case None
    then have "entry_loop N f since es = Inr evs" using Cons.prems(1) m by simp
    from Cons.IH [OF this Cons.prems(2)] show ?thesis by auto
  next
    case (Some x)
    obtain old where o: "too_old since x = Inr old" using Cons.prems(1) m Some by (cases "too_old since x") simp_all
    show ?thesis
    proof (cases "old \<or> is_excluded f (pe_url x)")
      case True
      then have "entry_loop N f since es = Inr evs" using Cons.prems(1) m Some o by simp
      from Cons.IH [OF this Cons.prems(2)] show ?thesis by auto
    next
      case False
      then obtain rest where r: "entry_loop N f since es = Inr rest" "evs = x # rest"
        using Cons.prems(1) m Some o by (auto simp: try_bind_eq_Inr)
      show ?thesis
      proof (cases "ev = x")
        case True
        then show ?thesis using m Some o False by auto
      next
        case neq: False
        then have "ev \<in> set rest" using Cons.prems(2) r(2) by simp
        from Cons.IH [OF r(1) this] show ?thesis by auto
      qed
    qed
  qed
qed simp

lemma fetch_feed_events:
  assumes "fetch_feed N f since = Inr evs" and "ev \<in> set evs"
  shows "pe_regulator ev = rf_regulator f \<and> pe_external ev \<noteq> [] \<and> \<not> is_excluded f (pe_url ev)"
proof -
  obtain raw where "entry_loop N f since (wn_parse N raw) = Inr evs"
    using assms(1) by (auto simp: fetch_feed_def try_bind_eq_Inr)
  from entry_loop_events [OF this assms(2)] show ?thesis using entry_to_event_feed by blast
qed

end
