(* ===== verification/Watcher.thy ===== *)
theory Watcher
  imports WatcherFeeds "HOL-Library.AList"
begin

text \<open>
  The watcher service (\<open>watcher/service.py\<close>) with its notifiers (\<open>watcher/notifications/\<close>), its task and its
  schedule: one poll fetches every feed, drops the events the table knows, and hands the others to the
  notifiers.  Log lines are left out, so the console notifier does nothing.
\<close>

section \<open>State\<close>

record watcher_row =
  wr_tenant :: uuid
  wr_regulator :: string
  wr_type :: string
  wr_external :: string
  wr_title :: string
  wr_url :: string
  wr_published :: "py_datetime option"
  wr_summary :: "string option"
  wr_payload :: jdict
  wr_ingested :: bool
  wr_document :: "uuid option"
  wr_error :: "string option"

text \<open>The event table, the store of the pipeline, and the requests made to the webhook.\<close>

record 'v watch_state =
  ws_rows :: "watcher_row list"
  ws_store :: "'v store"
  ws_posts :: "(string \<times> json) list"

definition row_of :: "watcher_row \<Rightarrow> string \<times> string" where
  "row_of r = (wr_regulator r, wr_external r)"

definition event_key :: "pub_event \<Rightarrow> string \<times> string" where
  "event_key ev = (pe_regulator ev, pe_external ev)"

definition watcher_tenant :: "tenant list \<Rightarrow> string \<Rightarrow> uuid option" where
  "watcher_tenant ts slug = map_option tn_id (find (\<lambda>t. tn_slug t = slug) ts)"

section \<open>The table notifier\<close>

definition row_of_event :: "uuid \<Rightarrow> pub_event \<Rightarrow> watcher_row" where
  "row_of_event tid ev =
     \<lparr> wr_tenant = tid, wr_regulator = pe_regulator ev, wr_type = pe_type ev, wr_external = pe_external ev,
       wr_title = pe_title ev, wr_url = pe_url ev, wr_published = pe_published ev, wr_summary = pe_summary ev,
       wr_payload = pe_payload ev, wr_ingested = False, wr_document = None, wr_error = None \<rparr>"

text \<open>\<open>ON CONFLICT DO NOTHING\<close> on the key of the table.\<close>

definition insert_event :: "uuid \<Rightarrow> pub_event \<Rightarrow> watcher_row list \<Rightarrow> watcher_row list" where
  "insert_event tid ev rows = (if event_key ev \<in> row_of ` set rows then rows else rows @ [row_of_event tid ev])"

text \<open>The inserts are one transaction: an exception of the database undoes them all.\<close>

definition notify_db ::
  "watch_net \<Rightarrow> tenant list \<Rightarrow> string \<Rightarrow> pub_event list \<Rightarrow> 'v watch_state \<Rightarrow> 'v watch_state \<times> exn option" where
  "notify_db N ts slug evs st =
     (case watcher_tenant ts slug of
        None \<Rightarrow> (st, None)
      | Some tid \<Rightarrow>
          (case List.map_filter (wn_insert N) evs of
             e # _ \<Rightarrow> (st, Some e)
           | [] \<Rightarrow> (st\<lparr> ws_rows := fold (insert_event tid) evs (ws_rows st) \<rparr>, None)))"

section \<open>The ingest notifier\<close>

definition MAX_BYTES :: int where
  "MAX_BYTES = 25 * 1024 * 1024"

definition ext_for :: "string \<Rightarrow> string" where
  "ext_for content_type =
     (let ct = lower content_type in
       if ct = [] then ''.html''
       else if contains ''pdf'' ct then ''.pdf''
       else if contains ''html'' ct then ''.html''
       else if contains ''markdown'' ct then ''.md''
       else if contains ''wordprocessingml'' ct \<or> contains ''msword'' ct then ''.docx''
       else ''.html'')"

definition derive_filename :: "urllib \<Rightarrow> string \<Rightarrow> string \<Rightarrow> exn + string" where
  "derive_filename W url content_type =
     try_bind (ul_path W url) (\<lambda>path.
       let name = rsplit_last (CHR ''/'') path in
       Inr (if CHR ''.'' \<in> set name then name else ''watcher_event'' @ ext_for content_type))"

text \<open>The size is checked inside of the retried function; its \<open>ValueError\<close>, here with its text, is not retried.\<close>

definition fetch_page :: "watch_net \<Rightarrow> string \<Rightarrow> exn + string \<times> string" where
  "fetch_page N url =
     try_bind (snd (three_attempts (wn_http_error N) (wn_get N url))) (\<lambda>r.
       let n = length (rs_content r) in
       if MAX_BYTES < int n then Inl (OtherExc (''response too large ('' @ nat_str n @ '' bytes)''))
       else Inr (rs_content r, page_type r))"

definition event_source :: "watch_net \<Rightarrow> pub_event \<Rightarrow> string \<Rightarrow> string \<Rightarrow> string \<Rightarrow> source_document" where
  "event_source N ev data filename content_type =
     \<lparr> sd_uri = pe_url ev, sd_data = data, sd_filename = Some filename, sd_content_type = Some content_type,
       sd_title = or_none (pe_title ev),
       sd_metadata = [(''regulator'', JStr (pe_regulator ev)), (''doc_type'', JStr (pe_regulator ev)),
         (''event_type'', JStr (pe_type ev)),
         (''published_at'', case pe_published ev of None \<Rightarrow> JNull | Some w \<Rightarrow> JStr (wn_isoformat N w)),
         (''title_from_feed'', JStr (pe_title ev)), (''size_bytes'', JInt (int (length data))),
         (''source'', JStr ''watcher'')] \<rparr>"

definition update_rows :: "pub_event \<Rightarrow> (watcher_row \<Rightarrow> watcher_row) \<Rightarrow> 'v watch_state \<Rightarrow> 'v watch_state" where
  "update_rows ev f st = st\<lparr> ws_rows := map (\<lambda>r. if row_of r = event_key ev then f r else r) (ws_rows st) \<rparr>"

definition mark_error :: "pub_event \<Rightarrow> string \<Rightarrow> 'v watch_state \<Rightarrow> 'v watch_state" where
  "mark_error ev msg st = update_rows ev (\<lambda>r. r\<lparr> wr_ingested := False, wr_error := Some (take 1000 msg) \<rparr>) st"

text \<open>The document column references the documents: an update of a row to an unknown document is refused.\<close>

definition mark_ingested :: "pub_event \<Rightarrow> uuid \<Rightarrow> 'v watch_state \<Rightarrow> 'v watch_state \<times> exn option" where
  "mark_ingested ev did st =
     (if event_key ev \<in> row_of ` set (ws_rows st) \<and> did \<notin> dc_id ` set (so_docs (ws_store st))
      then (st, Some (OtherExc ''IntegrityError''))
      else (update_rows ev (\<lambda>r. r\<lparr> wr_ingested := True, wr_document := Some did, wr_error := None \<rparr>) st, None))"

definition ingest_event ::
  "watch_net \<Rightarrow> 'v ingest_env \<Rightarrow> uuid \<Rightarrow> pub_event \<Rightarrow> 'v watch_state \<Rightarrow> 'v watch_state \<times> exn option" where
  "ingest_event N E tid ev st =
     (case fetch_page N (pe_url ev) of
        Inl e \<Rightarrow> (mark_error ev (''fetch: '' @ exn_message e) st, None)
      | Inr (data, ct) \<Rightarrow>
          if data = [] then (mark_error ev ''fetch: empty body'' st, None)
          else (case derive_filename (wn_urllib N) (pe_url ev) ct of
              Inl e \<Rightarrow> (st, Some e)
            | Inr filename \<Rightarrow>
                let ct' = (if ct = [] then detect_content_type (ie_guess E) (Some filename) else ct) in
                (case ingest_one E tid (event_source N ev data filename ct') (ws_store st) of
                   (so, Inl e) \<Rightarrow> (mark_error ev (''ingest: '' @ exn_message e) (st\<lparr> ws_store := so \<rparr>), None)
                 | (so, Inr r) \<Rightarrow> mark_ingested ev (ir_document_id r) (st\<lparr> ws_store := so \<rparr>))))"

fun ingest_events ::
  "watch_net \<Rightarrow> 'v ingest_env \<Rightarrow> uuid \<Rightarrow> pub_event list \<Rightarrow> 'v watch_state \<Rightarrow> 'v watch_state \<times> exn option" where
  "ingest_events N E tid [] st = (st, None)"
| "ingest_events N E tid (ev # evs) st =
     (case ingest_event N E tid ev st of
        (st', None) \<Rightarrow> ingest_events N E tid evs st'
      | (st', Some e) \<Rightarrow> (st', Some e))"

definition notify_ingest ::
  "watch_net \<Rightarrow> 'v ingest_env \<Rightarrow> string \<Rightarrow> pub_event list \<Rightarrow> 'v watch_state \<Rightarrow> 'v watch_state \<times> exn option" where
  "notify_ingest N E slug evs st =
     (case watcher_tenant (ie_tenants E) slug of
        None \<Rightarrow> (st, None)
      | Some tid \<Rightarrow> ingest_events N E tid evs st)"

section \<open>The webhook\<close>

definition event_json :: "watch_net \<Rightarrow> pub_event \<Rightarrow> json" where
  "event_json N e =
     JObj [(''regulator'', JStr (pe_regulator e)), (''event_type'', JStr (pe_type e)),
       (''external_id'', JStr (pe_external e)), (''title'', JStr (pe_title e)), (''url'', JStr (pe_url e)),
       (''published_at'', case pe_published e of None \<Rightarrow> JNull | Some w \<Rightarrow> JStr (wn_isoformat N w)),
       (''summary'', opt_str (pe_summary e))]"

definition webhook_body :: "watch_net \<Rightarrow> pub_event list \<Rightarrow> json" where
  "webhook_body N evs =
     JObj [(''version'', JStr ''1''), (''source'', JStr ''faastlab-askai-watcher''),
       (''emitted_at'', JStr (wn_isoformat N (Aware (wn_now N)))), (''event_count'', JInt (int (length evs))),
       (''events'', JList (map (event_json N) evs))]"

text \<open>Whatever the last attempt answers, the notifier returns.\<close>

definition notify_webhook ::
  "watch_net \<Rightarrow> string \<Rightarrow> pub_event list \<Rightarrow> 'v watch_state \<Rightarrow> 'v watch_state \<times> exn option" where
  "notify_webhook N url evs st =
     (let body = webhook_body N evs;
          n = fst (three_attempts (wn_http_error N)
            (\<lambda>i. case wn_post N url body i of None \<Rightarrow> Inr () | Some e \<Rightarrow> Inl e))
      in (st\<lparr> ws_posts := ws_posts st @ replicate n (url, body) \<rparr>, None))"

section \<open>Notifiers\<close>

datatype notifier = ConsoleNotifier | DBNotifier string | IngestNotifier string | WebhookNotifier string

fun notify ::
  "watch_net \<Rightarrow> 'v ingest_env \<Rightarrow> notifier \<Rightarrow> pub_event list \<Rightarrow> 'v watch_state \<Rightarrow> 'v watch_state \<times> exn option" where
  "notify N E ConsoleNotifier evs st = (st, None)"
| "notify N E (DBNotifier slug) evs st = (if evs = [] then (st, None) else notify_db N (ie_tenants E) slug evs st)"
| "notify N E (IngestNotifier slug) evs st = (if evs = [] then (st, None) else notify_ingest N E slug evs st)"
| "notify N E (WebhookNotifier url) evs st = (if evs = [] then (st, None) else notify_webhook N url evs st)"

definition default_notifiers :: "settings \<Rightarrow> notifier list" where
  "default_notifiers s =
     [ConsoleNotifier, DBNotifier (watcher_tenant_slug s)] @
     (if watcher_auto_ingest s then [IngestNotifier (watcher_tenant_slug s)] else []) @
     (if str_true (watcher_webhook_url s) then [WebhookNotifier (the (watcher_webhook_url s))] else [])"

section \<open>One poll\<close>

record feed_outcome =
  fo_regulator :: string
  fo_ok :: bool
  fo_fetched :: nat
  fo_new :: nat
  fo_error :: "string option"

record poll_outcome =
  po_polled_at :: int
  po_feeds_polled :: nat
  po_feeds_errored :: nat
  po_fetched :: nat
  po_new_events :: nat
  po_notifiers_run :: nat
  po_notifier_errors :: nat
  po_per_regulator :: "(string \<times> nat) list"
  po_feeds :: "feed_outcome list"

definition summarise_exc :: "watch_net \<Rightarrow> exn \<Rightarrow> string" where
  "summarise_exc N e =
     (let msg = (if exn_message e = [] then wn_class_name N e else exn_message e) in
       strip (takeWhile (\<lambda>c. [c] \<noteq> nl) msg))"

text \<open>The failed feeds, the number of events per regulator, and the events.\<close>

fun fetch_feeds ::
  "watch_net \<Rightarrow> int option \<Rightarrow> rss_feed list \<Rightarrow> feed_outcome list \<times> (string \<times> nat) list \<times> pub_event list \<Rightarrow>
   feed_outcome list \<times> (string \<times> nat) list \<times> pub_event list" where
  "fetch_feeds N since [] acc = acc"
| "fetch_feeds N since (f # fs) (failed, fetched, evs) =
     (case fetch_feed N f since of
        Inl e \<Rightarrow> fetch_feeds N since fs
          (failed @ [\<lparr> fo_regulator = rf_regulator f, fo_ok = False, fo_fetched = 0, fo_new = 0,
             fo_error = Some (summarise_exc N e) \<rparr>], fetched, evs)
      | Inr es \<Rightarrow> fetch_feeds N since fs (failed, AList.update (rf_regulator f) (length es) fetched, evs @ es))"

definition add_to_group :: "pub_event \<Rightarrow> (string \<times> pub_event list) list \<Rightarrow> (string \<times> pub_event list) list" where
  "add_to_group ev groups =
     AList.update (pe_regulator ev)
       ((case map_of groups (pe_regulator ev) of None \<Rightarrow> [] | Some g \<Rightarrow> g) @ [ev]) groups"

definition group_events :: "pub_event list \<Rightarrow> (string \<times> pub_event list) list" where
  "group_events evs = fold add_to_group evs []"

definition seen_ids :: "watcher_row list \<Rightarrow> string \<Rightarrow> pub_event list \<Rightarrow> string set" where
  "seen_ids rows regulator grp =
     set (filter (\<lambda>x. x \<in> set (map pe_external grp))
       (map wr_external (filter (\<lambda>r. wr_regulator r = regulator) rows)))"

definition filter_new :: "watcher_row list \<Rightarrow> pub_event list \<Rightarrow> pub_event list" where
  "filter_new rows evs =
     concat (map (\<lambda>(regulator, grp). filter (\<lambda>ev. pe_external ev \<notin> seen_ids rows regulator grp) grp)
       (group_events evs))"

definition count_new :: "pub_event list \<Rightarrow> (string \<times> nat) list" where
  "count_new evs =
     fold (\<lambda>ev m. AList.update (pe_regulator ev)
       ((case map_of m (pe_regulator ev) of None \<Rightarrow> 0 | Some n \<Rightarrow> n) + 1) m) evs []"

fun fan_out ::
  "watch_net \<Rightarrow> 'v ingest_env \<Rightarrow> pub_event list \<Rightarrow> notifier list \<Rightarrow> 'v watch_state \<Rightarrow> 'v watch_state \<times> nat" where
  "fan_out N E evs [] st = (st, 0)"
| "fan_out N E evs (n # ns) st =
     (case notify N E n evs st of
        (st1, r) \<Rightarrow>
          (case fan_out N E evs ns st1 of (st2, k) \<Rightarrow> (st2, if r = None then k else k + 1)))"

definition poll ::
  "watch_net \<Rightarrow> 'v ingest_env \<Rightarrow> rss_feed list \<Rightarrow> notifier list \<Rightarrow> string list option \<Rightarrow> int option \<Rightarrow>
   'v watch_state \<Rightarrow> 'v watch_state \<times> poll_outcome" where
  "poll N E feeds notifiers only since_hours st =
     (let since = map_option (\<lambda>h. wn_now N - 3600 * h) since_hours;
          fs = filter_feeds feeds only in
       case fetch_feeds N since fs ([], [], []) of
         (failed, fetched, evs) \<Rightarrow>
           let new = filter_new (ws_rows st) evs;
               counts = count_new new;
               good = map (\<lambda>(r, k). \<lparr> fo_regulator = r, fo_ok = True, fo_fetched = k,
                 fo_new = (case map_of counts r of None \<Rightarrow> 0 | Some n \<Rightarrow> n), fo_error = None \<rparr>) fetched;
               sent = (if new = [] then (st, 0) else fan_out N E new notifiers st)
           in (fst sent,
             \<lparr> po_polled_at = wn_now N, po_feeds_polled = length fs, po_feeds_errored = length failed,
               po_fetched = length evs, po_new_events = length new,
               po_notifiers_run = (if new = [] then 0 else length notifiers), po_notifier_errors = snd sent,
               po_per_regulator = counts, po_feeds = sort_key (\<lambda>f. map code (fo_regulator f)) (failed @ good) \<rparr>))"

text \<open>The worker task: the default feeds and notifiers, no narrowing.\<close>

definition poll_task ::
  "watch_net \<Rightarrow> 'v ingest_env \<Rightarrow> settings \<Rightarrow> 'v watch_state \<Rightarrow> 'v watch_state \<times> poll_outcome" where
  "poll_task N E s st = poll N E (default_feeds s) (default_notifiers s) None None st"

text \<open>The schedule of the watcher's beat: the task, its interval and the expiry of its messages.\<close>

definition beat_schedule :: "settings \<Rightarrow> (string \<times> string \<times> int \<times> int) list" where
  "beat_schedule s =
     (if watcher_enabled s
      then [(''watcher-poll'', ''askai.watcher.poll'', watcher_poll_interval_seconds s, watcher_poll_interval_seconds s)]
      else []) @
     (if fos_ingest_enabled s
      then [(''fos-ingest'', ''askai.watcher.fos_ingest'', fos_ingest_interval_seconds s, fos_ingest_interval_seconds s)]
      else [])"

section \<open>Which events are new\<close>

lemma update_group_mset:
  "mset (concat (map snd (AList.update k ((case map_of m k of None \<Rightarrow> [] | Some g \<Rightarrow> g) @ [x]) m))) =
   add_mset x (mset (concat (map snd m)))"
  by (induction m) (auto simp: ac_simps)

lemma set_update_subset: "set (AList.update k v m) \<subseteq> insert (k, v) (set m)"
  by (induction m) auto

definition grouped :: "(string \<times> pub_event list) list \<Rightarrow> bool" where
  "grouped m = (\<forall>(r, g)\<in>set m. \<forall>ev\<in>set g. pe_regulator ev = r)"

lemma add_to_group_grouped:
  assumes "grouped m"
  shows "grouped (add_to_group ev m)"
proof -
  let ?g = "(case map_of m (pe_regulator ev) of None \<Rightarrow> [] | Some g \<Rightarrow> g) @ [ev]"
  have "\<forall>x\<in>set ?g. pe_regulator x = pe_regulator ev"
    using assms map_of_SomeD [of m "pe_regulator ev"] by (cases "map_of m (pe_regulator ev)") (fastforce simp: grouped_def)+
  then show ?thesis
    using assms set_update_subset [of "pe_regulator ev" ?g m] unfolding grouped_def add_to_group_def by blast
qed

lemma group_events_props:
  "grouped (group_events evs) \<and> mset (concat (map snd (group_events evs))) = mset evs"
proof -
  have "grouped m \<Longrightarrow> grouped (fold add_to_group evs m) \<and>
      mset (concat (map snd (fold add_to_group evs m))) = mset (concat (map snd m)) + mset evs" for m
  proof (induction evs arbitrary: m)
    case (Cons ev evs)
    have "mset (concat (map snd (add_to_group ev m))) = add_mset ev (mset (concat (map snd m)))"
      unfolding add_to_group_def by (rule update_group_mset)
    then show ?case using Cons.IH [OF add_to_group_grouped [OF Cons.prems]] by simp
  qed simp
  from this [of "[]"] show ?thesis by (simp add: group_events_def grouped_def)
qed

lemma seen_ids_iff:
  assumes "pe_regulator ev = r" and "ev \<in> set g"
  shows "pe_external ev \<in> seen_ids rows r g \<longleftrightarrow> event_key ev \<in> row_of ` set rows"
proof
  assume "pe_external ev \<in> seen_ids rows r g"
  then obtain x where "x \<in> set rows" "wr_regulator x = r" "wr_external x = pe_external ev"
    by (auto simp: seen_ids_def)
  then have "row_of x = event_key ev" using assms(1) by (simp add: row_of_def event_key_def)
  then show "event_key ev \<in> row_of ` set rows" using \<open>x \<in> set rows\<close> by (metis imageI)
next
  assume "event_key ev \<in> row_of ` set rows"
  then show "pe_external ev \<in> seen_ids rows r g"
    using assms by (auto simp: seen_ids_def event_key_def row_of_def)
qed

lemma filter_groups_mset:
  "grouped m \<Longrightarrow>
   mset (concat (map (\<lambda>(r, g). filter (\<lambda>ev. pe_external ev \<notin> seen_ids rows r g) g) m)) =
   filter_mset (\<lambda>ev. event_key ev \<notin> row_of ` set rows) (mset (concat (map snd m)))"
proof (induction m)
  case (Cons p m)
  obtain r g where p: "p = (r, g)" by (cases p)
  have "filter (\<lambda>ev. pe_external ev \<notin> seen_ids rows r g) g = filter (\<lambda>ev. event_key ev \<notin> row_of ` set rows) g"
    by (rule filter_cong) (use Cons.prems p seen_ids_iff in \<open>auto simp: grouped_def\<close>)
  then show ?case using Cons p by (simp add: grouped_def)
qed simp

lemma mset_filter_new:
  "mset (filter_new rows evs) = filter_mset (\<lambda>ev. event_key ev \<notin> row_of ` set rows) (mset evs)"
  unfolding filter_new_def using filter_groups_mset [of "group_events evs" rows] group_events_props [of evs] by simp

lemma set_filter_new: "set (filter_new rows evs) = {ev \<in> set evs. event_key ev \<notin> row_of ` set rows}"
  using arg_cong [OF mset_filter_new [of rows evs], of set_mset] by simp

lemma filter_new_empty_iff: "filter_new rows evs = [] \<longleftrightarrow> event_key ` set evs \<subseteq> row_of ` set rows"
  using set_filter_new [of rows evs] by (auto simp flip: set_empty)

section \<open>What the notifiers do to the table\<close>

lemma row_of_row_of_event [simp]: "row_of (row_of_event tid ev) = event_key ev"
  by (simp add: row_of_def row_of_event_def event_key_def)

lemma insert_event_keys:
  "row_of ` set (fold (insert_event tid) evs rows) = row_of ` set rows \<union> event_key ` set evs"
  by (induction evs arbitrary: rows) (auto simp: insert_event_def)

lemma insert_event_distinct:
  "distinct (map row_of rows) \<Longrightarrow> distinct (map row_of (fold (insert_event tid) evs rows))"
  by (induction evs arbitrary: rows) (auto simp: insert_event_def)

lemma insert_event_rows:
  "set (fold (insert_event tid) evs rows) \<subseteq> set rows \<union> row_of_event tid ` set evs"
proof (induction evs arbitrary: rows)
  case (Cons ev evs)
  show ?case using Cons [of "insert_event tid ev rows"] by (auto simp: insert_event_def split: if_splits)
qed simp

lemma update_rows_keys [simp]:
  "(\<And>r. row_of (f r) = row_of r) \<Longrightarrow> map row_of (ws_rows (update_rows ev f st)) = map row_of (ws_rows st)"
  by (simp add: update_rows_def)

lemma mark_keys [simp]:
  "map row_of (ws_rows (mark_error ev msg st)) = map row_of (ws_rows st)"
  "map row_of (ws_rows (fst (mark_ingested ev did st))) = map row_of (ws_rows st)"
  by (simp_all add: mark_error_def mark_ingested_def row_of_def)

lemma ingest_event_keys: "map row_of (ws_rows (fst (ingest_event N E tid ev st))) = map row_of (ws_rows st)"
  unfolding ingest_event_def
  by (auto simp: Let_def split: sum.splits prod.splits if_splits)

lemma ingest_events_keys: "map row_of (ws_rows (fst (ingest_events N E tid evs st))) = map row_of (ws_rows st)"
proof (induction evs arbitrary: st)
  case (Cons ev evs)
  show ?case using Cons ingest_event_keys [of N E tid ev st]
    by (auto split: prod.splits option.splits)
qed simp

lemma notify_keys:
  assumes "notify N E n evs st = (st', r)"
  shows "map row_of (ws_rows st') = map row_of (ws_rows st) \<or>
    (\<exists>slug tid. n = DBNotifier slug \<and> ws_rows st' = fold (insert_event tid) evs (ws_rows st))"
proof (cases n)
  case (DBNotifier slug)
  then show ?thesis using assms
    by (auto simp: notify_db_def split: if_splits option.splits list.splits)
next
  case (IngestNotifier slug)
  then have "st' = st \<or> (\<exists>tid. st' = fst (ingest_events N E tid evs st))"
    using assms IngestNotifier by (auto simp: notify_ingest_def split: if_splits option.splits) (metis fst_conv)
  then show ?thesis using ingest_events_keys by blast
qed (use assms in \<open>auto simp: notify_webhook_def Let_def split: if_splits\<close>)

lemma notify_key_set:
  assumes "notify N E n evs st = (st', r)"
  shows "row_of ` set (ws_rows st) \<subseteq> row_of ` set (ws_rows st')"
  using notify_keys [OF assms] insert_event_keys by (metis Un_upper1 image_set subset_refl)

lemma fan_out_key_set: "row_of ` set (ws_rows st) \<subseteq> row_of ` set (ws_rows (fst (fan_out N E evs ns st)))"
proof (induction ns arbitrary: st)
  case (Cons n ns)
  obtain st1 r where n: "notify N E n evs st = (st1, r)" by fastforce
  have "fst (fan_out N E evs (n # ns) st) = fst (fan_out N E evs ns st1)" using n by (simp split: prod.splits)
  then show ?case using notify_key_set [OF n] Cons [of st1] by simp
qed simp

lemma fan_out_stores:
  assumes "DBNotifier slug \<in> set ns" and "watcher_tenant (ie_tenants E) slug = Some tid" and "evs \<noteq> []"
    and "\<And>ev. ev \<in> set evs \<Longrightarrow> wn_insert N ev = None"
  shows "event_key ` set evs \<subseteq> row_of ` set (ws_rows (fst (fan_out N E evs ns st)))"
  using assms(1)
proof (induction ns arbitrary: st)
  case (Cons n ns)
  obtain st1 r where n: "notify N E n evs st = (st1, r)" by fastforce
  have f: "fst (fan_out N E evs (n # ns) st) = fst (fan_out N E evs ns st1)"
    using n by (simp split: prod.splits)
  show ?case
  proof (cases "n = DBNotifier slug")
    case True
    have "List.map_filter (wn_insert N) evs = []" using assms(4) by (simp add: map_filter_def filter_empty_conv)
    then have "ws_rows st1 = fold (insert_event tid) evs (ws_rows st)"
      using n True assms(2,3) by (simp add: notify_db_def) auto
    then have "event_key ` set evs \<subseteq> row_of ` set (ws_rows st1)" by (simp add: insert_event_keys)
    then show ?thesis using fan_out_key_set [of st1 N E evs ns] f by auto
  next
    case False
    then show ?thesis using Cons f by auto
  qed
qed simp

section \<open>Polls\<close>

definition poll_fetch ::
  "watch_net \<Rightarrow> rss_feed list \<Rightarrow> string list option \<Rightarrow> int option \<Rightarrow>
   feed_outcome list \<times> (string \<times> nat) list \<times> pub_event list" where
  "poll_fetch N feeds only h = fetch_feeds N (map_option (\<lambda>h. wn_now N - 3600 * h) h) (filter_feeds feeds only) ([], [], [])"

lemma poll_cases:
  assumes "poll N E feeds ns only h st = (st', out)"
  obtains failed fetched evs where "poll_fetch N feeds only h = (failed, fetched, evs)"
    "st' = (if filter_new (ws_rows st) evs = [] then st else fst (fan_out N E (filter_new (ws_rows st) evs) ns st))"
    "po_new_events out = length (filter_new (ws_rows st) evs)" "po_fetched out = length evs"
    "po_feeds_errored out = length failed"
    "po_notifiers_run out = (if filter_new (ws_rows st) evs = [] then 0 else length ns)"
    "filter_new (ws_rows st) evs = [] \<Longrightarrow> po_notifier_errors out = 0"
    "set failed \<subseteq> set (po_feeds out)"
proof -
  obtain failed fetched evs where f: "poll_fetch N feeds only h = (failed, fetched, evs)" by (metis prod_cases3)
  show thesis
    by (rule that [OF f]) (use assms f in \<open>auto simp: poll_def poll_fetch_def Let_def split: if_splits\<close>)
qed

lemma poll_quiet:
  assumes "poll_fetch N feeds only h = (failed, fetched, evs)" and "filter_new (ws_rows st) evs = []"
  shows "\<exists>out. poll N E feeds ns only h st = (st, out) \<and> po_new_events out = 0 \<and> po_notifiers_run out = 0 \<and>
    po_notifier_errors out = 0 \<and> po_fetched out = length evs"
  using assms by (simp add: poll_def poll_fetch_def Let_def)

section \<open>The table and the store as a state machine\<close>

definition row_ok :: "'v watch_state \<Rightarrow> watcher_row \<Rightarrow> bool" where
  "row_ok st r =
     ((wr_ingested r \<longrightarrow> wr_document r \<noteq> None \<and> wr_error r = None) \<and>
      (\<forall>d. wr_document r = Some d \<longrightarrow> d \<in> dc_id ` set (so_docs (ws_store st))))"

definition watch_ok :: "'v watch_state \<Rightarrow> bool" where
  "watch_ok st = (distinct (map row_of (ws_rows st)) \<and> list_all (row_ok st) (ws_rows st))"

definition empty_watch :: "'v watch_state" where
  "empty_watch = \<lparr> ws_rows = [], ws_store = no_store, ws_posts = [] \<rparr>"

text \<open>Polls of any service, and the other users of the pipeline.\<close>

inductive watch_reachable :: "'v watch_state \<Rightarrow> bool" where
  start: "watch_reachable empty_watch"
| polled: "watch_reachable st \<Longrightarrow> watch_reachable (fst (poll N E feeds ns only h st))"
| ingested: "watch_reachable st \<Longrightarrow>
    watch_reachable (st\<lparr> ws_store := fst (ingest_one E tid src (ws_store st)) \<rparr>)"

lemma ingest_one_keeps_docs:
  assumes "ingest_one E tid src so = (so', r)"
  shows "dc_id ` set (so_docs so) \<subseteq> dc_id ` set (so_docs so')"
  using assms
proof (cases rule: ingest_one_cases)
  case (skipped d)
  then show ?thesis by simp
next
  case (stored found d rows)
  have "set (map dc_id (so_docs so')) = insert (dc_id d) (dc_id ` set (so_docs so))"
    unfolding stored(7) by (rule put_row_ids)
  then show ?thesis by auto
qed simp

lemma watch_ok_store:
  assumes "watch_ok st" and "dc_id ` set (so_docs (ws_store st)) \<subseteq> dc_id ` set (so_docs so)"
  shows "watch_ok (st\<lparr> ws_store := so \<rparr>)"
  using assms by (auto simp: watch_ok_def row_ok_def list_all_iff split: option.splits)

lemma update_rows_ok:
  assumes "watch_ok st" and "\<And>r. row_of (f r) = row_of r" and "\<And>r. row_ok st r \<Longrightarrow> row_of r = event_key ev \<Longrightarrow> row_ok st (f r)"
  shows "watch_ok (update_rows ev f st)"
proof -
  have "row_ok (update_rows ev f st) = row_ok st" by (rule ext) (simp add: row_ok_def update_rows_def)
  then show ?thesis using assms unfolding watch_ok_def
    by (simp add: list_all_iff) (auto simp: update_rows_def)
qed

lemma mark_error_ok: "watch_ok st \<Longrightarrow> watch_ok (mark_error ev msg st)"
  unfolding mark_error_def by (rule update_rows_ok) (auto simp: row_of_def row_ok_def)

lemma mark_ingested_ok: "watch_ok st \<Longrightarrow> watch_ok (fst (mark_ingested ev did st))"
proof (cases "event_key ev \<in> row_of ` set (ws_rows st)")
  case False
  then have "map (\<lambda>r. if row_of r = event_key ev then f r else r) (ws_rows st) = ws_rows st" for f
    by (intro map_idI) (auto simp: image_iff)
  then have "update_rows ev f st = st" for f by (simp add: update_rows_def)
  then show "watch_ok st \<Longrightarrow> ?thesis" by (simp add: mark_ingested_def False)
next
  case True
  assume ok: "watch_ok st"
  show ?thesis
  proof (cases "did \<in> dc_id ` set (so_docs (ws_store st))")
    case in_docs: True
    have "watch_ok (update_rows ev (\<lambda>r. r\<lparr> wr_ingested := True, wr_document := Some did, wr_error := None \<rparr>) st)"
      by (rule update_rows_ok [OF ok]) (use in_docs in \<open>auto simp: row_of_def row_ok_def\<close>)
    then show ?thesis using in_docs by (simp add: mark_ingested_def)
  next
    case False
    then show ?thesis using True ok by (simp add: mark_ingested_def)
  qed
qed

lemma ingest_event_ok:
  assumes "watch_ok st"
  shows "watch_ok (fst (ingest_event N E tid ev st))"
proof (cases "fetch_page N (pe_url ev)")
  case (Inl e)
  then show ?thesis using assms by (simp add: ingest_event_def mark_error_ok)
next
  case (Inr p)
  obtain data ct where p: "p = (data, ct)" by fastforce
  show ?thesis
  proof (cases "data = []")
    case True
    then show ?thesis using assms Inr p by (simp add: ingest_event_def mark_error_ok)
  next
    case False
    show ?thesis
    proof (cases "derive_filename (wn_urllib N) (pe_url ev) ct")
      case (Inl e)
      then show ?thesis using assms Inr p False by (simp add: ingest_event_def)
    next
      case fname: (Inr filename)
      let ?ct = "if ct = [] then detect_content_type (ie_guess E) (Some filename) else ct"
      obtain so r where i: "ingest_one E tid (event_source N ev data filename ?ct) (ws_store st) = (so, r)" by fastforce
      have ok: "watch_ok (st\<lparr> ws_store := so \<rparr>)"
        by (rule watch_ok_store [OF assms]) (rule ingest_one_keeps_docs [OF i])
      show ?thesis
        by (cases r) (use Inr p False fname i ok in \<open>simp_all add: ingest_event_def Let_def mark_error_ok mark_ingested_ok\<close>)
    qed
  qed
qed

lemma ingest_events_ok: "watch_ok st \<Longrightarrow> watch_ok (fst (ingest_events N E tid evs st))"
proof (induction evs arbitrary: st)
  case (Cons ev evs)
  obtain st1 r where e: "ingest_event N E tid ev st = (st1, r)" by fastforce
  then have "watch_ok st1" using ingest_event_ok [OF Cons.prems, of N E tid ev] by simp
  then show ?case using Cons.IH [of st1] e by (cases r) simp_all
qed simp

lemma notify_ok:
  assumes "watch_ok st"
  shows "watch_ok (fst (notify N E n evs st))"
proof (cases n)
  case (DBNotifier slug)
  have "watch_ok (st\<lparr> ws_rows := fold (insert_event tid) evs (ws_rows st) \<rparr>)" for tid
  proof -
    have "row_ok (st\<lparr> ws_rows := rs \<rparr>) = row_ok st" for rs by (rule ext) (simp add: row_ok_def)
    moreover have "row_ok st (row_of_event tid ev)" for ev by (simp add: row_ok_def row_of_event_def)
    ultimately show ?thesis
      using assms insert_event_distinct [of "ws_rows st" tid evs] insert_event_rows [of tid evs "ws_rows st"]
      unfolding watch_ok_def list_all_iff by auto
  qed
  then show ?thesis using assms DBNotifier
    by (simp add: notify_db_def split: option.split list.split)
next
  case (IngestNotifier slug)
  then show ?thesis using assms ingest_events_ok [OF assms] by (simp add: notify_ingest_def split: option.split)
next
  case (WebhookNotifier url)
  have "watch_ok (st\<lparr> ws_posts := ps \<rparr>)" for ps
    using assms by (simp add: watch_ok_def row_ok_def list_all_iff)
  then show ?thesis using assms WebhookNotifier by (simp add: notify_webhook_def Let_def)
qed (use assms in simp)

lemma fan_out_ok: "watch_ok st \<Longrightarrow> watch_ok (fst (fan_out N E evs ns st))"
proof (induction ns arbitrary: st)
  case (Cons n ns)
  obtain st1 r where n: "notify N E n evs st = (st1, r)" by fastforce
  then have "watch_ok st1" using notify_ok [OF Cons.prems, of N E n evs] by simp
  moreover have "fst (fan_out N E evs (n # ns) st) = fst (fan_out N E evs ns st1)" using n by (simp split: prod.splits)
  ultimately show ?case using Cons.IH by simp
qed simp

section \<open>Feeds\<close>

definition feed_events :: "watch_net \<Rightarrow> int option \<Rightarrow> rss_feed \<Rightarrow> pub_event list" where
  "feed_events N since f = (case fetch_feed N f since of Inl e \<Rightarrow> [] | Inr es \<Rightarrow> es)"

definition feed_fails :: "watch_net \<Rightarrow> int option \<Rightarrow> rss_feed \<Rightarrow> bool" where
  "feed_fails N since f = (case fetch_feed N f since of Inl e \<Rightarrow> True | Inr es \<Rightarrow> False)"

definition failed_outcome :: "watch_net \<Rightarrow> int option \<Rightarrow> rss_feed \<Rightarrow> feed_outcome" where
  "failed_outcome N since f = \<lparr> fo_regulator = rf_regulator f, fo_ok = False, fo_fetched = 0, fo_new = 0,
     fo_error = (case fetch_feed N f since of Inl e \<Rightarrow> Some (summarise_exc N e) | Inr es \<Rightarrow> None) \<rparr>"

lemma fetch_feeds_result:
  "\<exists>m'. fetch_feeds N since fs (failed, m, evs) =
     (failed @ map (failed_outcome N since) (filter (feed_fails N since) fs), m',
      evs @ concat (map (feed_events N since) fs))"
proof (induction fs arbitrary: failed m evs)
  case (Cons f fs)
  show ?case
  proof (cases "fetch_feed N f since")
    case (Inl e)
    then show ?thesis using Cons.IH [of "failed @ [failed_outcome N since f]" m evs]
      by (simp add: feed_events_def feed_fails_def failed_outcome_def)
  next
    case (Inr es)
    then show ?thesis using Cons.IH [of failed "AList.update (rf_regulator f) (length es) m" "evs @ es"]
      by (simp add: feed_events_def feed_fails_def)
  qed
qed simp

lemma feed_events_good: "concat (map (feed_events N since) (filter (\<lambda>f. \<not> feed_fails N since f) fs)) =
    concat (map (feed_events N since) fs)"
  by (induction fs) (auto simp: feed_fails_def feed_events_def split: sum.splits)

lemma failed_outcome_error: "feed_fails N since f \<Longrightarrow> fo_error (failed_outcome N since f) \<noteq> None"
  by (auto simp: feed_fails_def failed_outcome_def split: sum.splits)

section \<open>Properties\<close>

text \<open>
  C28. The watcher's state stays consistent over every sequence of polls, of any services with any notifiers, and of
  other ingestions: one row per publication, and a row marked as ingested has no error and refers to a document that is in
  the store.
\<close>

theorem watcher_invariant:
  assumes "watch_reachable st"
  shows "distinct (map row_of (ws_rows st)) \<and>
    list_all (\<lambda>r. wr_ingested r \<longrightarrow> wr_error r = None \<and>
      (\<exists>d\<in>set (so_docs (ws_store st)). wr_document r = Some (dc_id d))) (ws_rows st)"
proof -
  from assms have "watch_ok st"
  proof (induction rule: watch_reachable.induct)
    case start
    then show ?case by (simp add: watch_ok_def empty_watch_def)
  next
    case (polled st N E feeds ns only h)
    obtain st' out where p: "poll N E feeds ns only h st = (st', out)" by fastforce
    then have "watch_ok st'" using fan_out_ok [OF polled.IH] polled.IH by (cases rule: poll_cases) auto
    then show ?case using p by simp
  next
    case (ingested st E tid src)
    obtain so r where "ingest_one E tid src (ws_store st) = (so, r)" by fastforce
    then show ?case using watch_ok_store [OF ingested.IH ingest_one_keeps_docs] by simp
  qed
  then show ?thesis by (auto simp: watch_ok_def row_ok_def list_all_iff split: option.splits)
qed

text \<open>
  C29. A poll is idempotent: with a table notifier whose tenant exists and a database that takes the rows, a second poll that is
  offered the same publications finds none of them new, runs no notifier and changes nothing.
\<close>

theorem poll_idempotent:
  assumes "DBNotifier slug \<in> set ns" and "watcher_tenant (ie_tenants E) slug = Some tid"
    and "\<And>ev. wn_insert N ev = None" and "poll N E feeds ns only h st = (st1, out)"
  shows "\<exists>out'. poll N E feeds ns only h st1 = (st1, out') \<and> po_new_events out' = 0 \<and>
    po_notifiers_run out' = 0 \<and> po_notifier_errors out' = 0 \<and> po_fetched out' = po_fetched out"
  using assms(4)
proof (cases rule: poll_cases)
  case (1 failed fetched evs)
  let ?new = "filter_new (ws_rows st) evs"
  have "event_key ` set evs \<subseteq> row_of ` set (ws_rows st1)"
  proof (cases "?new = []")
    case True
    then show ?thesis using 1(2) by (simp add: filter_new_empty_iff)
  next
    case False
    have "event_key ` set ?new \<subseteq> row_of ` set (ws_rows st1)"
      using fan_out_stores [OF assms(1,2) False, of N st] assms(3) 1(2) False by simp
    moreover have "row_of ` set (ws_rows st) \<subseteq> row_of ` set (ws_rows st1)"
      using fan_out_key_set [of st N E ?new ns] 1(2) False by simp
    ultimately show ?thesis unfolding set_filter_new by blast
  qed
  then have "filter_new (ws_rows st1) evs = []" by (simp add: filter_new_empty_iff)
  from poll_quiet [OF 1(1) this] show ?thesis using 1(4) by simp
qed

text \<open>
  C38. One publication can cost the others: when the page of an event is one that the store has with the same bytes, the
  pipeline answers with an id that no document has, the event table refuses it, and the notifier stops: neither this event nor
  any later one of the poll is ingested or marked.
\<close>

theorem unchanged_page_stops_batch:
  assumes "fetch_page N (pe_url ev) = Inr (data, ct)" and "data \<noteq> []" and "ct \<noteq> []"
    and "derive_filename (wn_urllib N) (pe_url ev) ct = Inr filename"
    and "docs_at (ws_store st) tid (pe_url ev) = [d]" and "dc_hash d = Some (ie_hash E data)"
    and "event_key ev \<in> row_of ` set (ws_rows st)"
    and "ie_uuid E (so_drawn (ws_store st) + 1) \<notin> dc_id ` set (so_docs (ws_store st))"
  shows "\<exists>st'. ingest_events N E tid (ev # evs) st = (st', Some (OtherExc ''IntegrityError'')) \<and>
    ws_rows st' = ws_rows st \<and> so_docs (ws_store st') = so_docs (ws_store st) \<and>
    so_chunks (ws_store st') = so_chunks (ws_store st)"
proof -
  let ?src = "event_source N ev data filename ct"
  have one: "one_or_none (docs_at (ws_store st) tid (sd_uri ?src)) = Inr (Some d)"
    using assms(5) by (simp add: event_source_def one_or_none_def)
  have "sd_data ?src = data" by (simp add: event_source_def)
  then obtain so r where i: "ingest_one E tid ?src (ws_store st) = (so, Inr r)"
    "ir_document_id r = ie_uuid E (so_drawn (ws_store st) + 1)" "so_docs so = so_docs (ws_store st)"
    "so_chunks so = so_chunks (ws_store st)"
    using one assms(6) by (simp add: ingest_one_def Let_def)
  have "ingest_event N E tid ev st = (st\<lparr> ws_store := so \<rparr>, Some (OtherExc ''IntegrityError''))"
    using assms(1-4,7,8) i by (simp add: ingest_event_def Let_def mark_ingested_def)
  then show ?thesis using i by simp
qed

text \<open>
  A regulator whose feed is broken costs nothing else: the state after the poll is the one of a poll over the feeds
  that work, and each feed that failed is reported with its error.
\<close>

theorem failing_feed_isolated:
  assumes "poll N E feeds ns None h st = (st', out)" and "since = map_option (\<lambda>k. wn_now N - 3600 * k) h"
  shows "fst (poll N E (filter (\<lambda>f. \<not> feed_fails N since f) feeds) ns None h st) = st' \<and>
    po_feeds_errored out = length (filter (feed_fails N since) feeds) \<and>
    list_all (\<lambda>f. \<exists>x\<in>set (po_feeds out). fo_regulator x = rf_regulator f \<and> \<not> fo_ok x \<and> fo_error x \<noteq> None)
      (filter (feed_fails N since) feeds)"
proof -
  let ?good = "filter (\<lambda>f. \<not> feed_fails N since f) feeds" and ?evs = "concat (map (feed_events N since) feeds)"
  obtain m where m: "poll_fetch N feeds None h =
      (map (failed_outcome N since) (filter (feed_fails N since) feeds), m, ?evs)"
    using fetch_feeds_result [of N since feeds "[]" "[]" "[]"] assms(2) by (auto simp: poll_fetch_def filter_feeds_def)
  obtain m2 failed2 where m2: "poll_fetch N ?good None h = (failed2, m2, ?evs)"
    using fetch_feeds_result [of N since ?good "[]" "[]" "[]"] assms(2) feed_events_good [of N since feeds]
    by (auto simp: poll_fetch_def filter_feeds_def)
  have st: "st' = (if filter_new (ws_rows st) ?evs = [] then st else fst (fan_out N E (filter_new (ws_rows st) ?evs) ns st))"
    and err: "po_feeds_errored out = length (filter (feed_fails N since) feeds)"
    and reported: "set (map (failed_outcome N since) (filter (feed_fails N since) feeds)) \<subseteq> set (po_feeds out)"
    by (rule poll_cases [OF assms(1)]; use m in simp)+
  obtain st2 out2 where p2: "poll N E ?good ns None h st = (st2, out2)" by fastforce
  have "st2 = st'" by (rule poll_cases [OF p2]) (use m2 st in simp)
  moreover have "\<exists>x\<in>set (po_feeds out). fo_regulator x = rf_regulator f \<and> \<not> fo_ok x \<and> fo_error x \<noteq> None"
    if "f \<in> set (filter (feed_fails N since) feeds)" for f
  proof
    show "failed_outcome N since f \<in> set (po_feeds out)" using reported that by auto
    show "fo_regulator (failed_outcome N since f) = rf_regulator f \<and> \<not> fo_ok (failed_outcome N since f) \<and>
        fo_error (failed_outcome N since f) \<noteq> None"
      using that failed_outcome_error [of N since f] by (auto simp: failed_outcome_def)
  qed
  ultimately show ?thesis using p2 err by (simp add: list_all_iff)
qed

text \<open>
  Of the feeds of gov.uk no page of the excluded sections is ever handed to the notifiers, whatever the case of its address.
\<close>

theorem noise_filtered:
  assumes "ev \<in> set (concat (map (feed_events N since) (default_feeds s)))"
    and "pe_regulator ev \<in> {''tpr'', ''ico'', ''hmrc''}" and "p \<in> set GOVUK_NOISE_PATHS" and "pe_url ev \<noteq> []"
  shows "\<not> contains p (lower (pe_url ev))"
proof -
  obtain f where f: "f \<in> set (default_feeds s)" "ev \<in> set (feed_events N since f)" using assms(1) by auto
  then obtain evs where evs: "fetch_feed N f since = Inr evs" "ev \<in> set evs"
    by (cases "fetch_feed N f since") (simp_all add: feed_events_def)
  have e: "pe_regulator ev = rf_regulator f" "\<not> is_excluded f (pe_url ev)" using fetch_feed_events [OF evs] by blast+
  have "rf_excludes f = GOVUK_NOISE_PATHS" using govuk_feed_excludes [OF f(1)] assms(2) e(1) by simp
  moreover have "GOVUK_NOISE_PATHS \<noteq> []" by (simp add: GOVUK_NOISE_PATHS_def)
  ultimately show ?thesis using e(2) assms(3,4) by (simp add: is_excluded_def list_ex_iff)
qed

section \<open>A sample deployment\<close>

definition sample_entry :: "string \<Rightarrow> feed_entry" where
  "sample_entry url = \<lparr> fe_link = Some url, fe_title = Some ''News'', fe_id = None, fe_guid = None, fe_summary = None,
     fe_published_parsed = Some [2026, 1, 2, 3, 4, 5, 0, 0, 0], fe_updated_parsed = None, fe_published = None,
     fe_updated = None, fe_items = [(''title'', RawScalar (JStr ''News''))] \<rparr>"

text \<open>A feed with one entry per character of its body; every page has its address as its text.\<close>

definition sample_net :: watch_net where
  "sample_net = \<lparr>
     wn_get = (\<lambda>url i. if url = ''down'' then Inl (OtherExc ''503'') else
       Inr \<lparr> rs_content_type = Some ''text/markdown'', rs_content = (if url = ''feed'' then ''a'' else ''same''), rs_text = [] \<rparr>),
     wn_post = (\<lambda>url body i. None), wn_http_error = (\<lambda>e. True), wn_class_name = (\<lambda>e. ''HTTPError''),
     wn_parse = map (\<lambda>c. sample_entry [c]), wn_mail_date = (\<lambda>s. Inl (PyExc ValueError)),
     wn_isoformat = (\<lambda>w. ''now''), wn_urllib = bare_urllib\<lparr> ul_path := (\<lambda>u. Inr u) \<rparr>, wn_insert = (\<lambda>ev. None), wn_now = 0 \<rparr>"

definition sample_feeds :: "rss_feed list" where
  "sample_feeds = [rss_feed_of ''fca'' ''down'' ''publication'' [], rss_feed_of ''pra'' ''feed'' ''publication'' []]"

definition sample_watch_env :: "unit ingest_env" where
  "sample_watch_env = sample_ingest\<lparr> ie_parse := (\<lambda>p t f. Inr (parse_markdown [] None)), ie_tenants := [\<lparr> tn_id = ''t'', tn_slug = ''demo'', tn_name = ''Demo'', tn_active = True,
     tn_settings = None, tn_trial = None, tn_plan = None \<rparr>] \<rparr>"

definition sample_notifiers :: "notifier list" where
  "sample_notifiers = [ConsoleNotifier, DBNotifier ''demo'', IngestNotifier ''demo'']"

definition sample_watched :: "unit watch_state" where
  "sample_watched = fst (poll sample_net sample_watch_env sample_feeds sample_notifiers None None empty_watch)"

lemma sample_watched_poll:
  "\<exists>out. poll sample_net sample_watch_env sample_feeds sample_notifiers None None empty_watch = (sample_watched, out)"
  by (simp add: sample_watched_def prod_eq_iff)

definition watch_facts where
  "watch_facts st =
    (map (\<lambda>r. (row_of r, wr_ingested r)) (ws_rows st),
     map (\<lambda>d. (dc_id d, dc_tenant d, dc_uri d, dc_hash d)) (so_docs (ws_store st)), so_drawn (ws_store st))"

lemma sample_watched_facts:
  "watch_facts sample_watched = ([((''pra'', ''a''), True)], [(''x'', ''t'', ''a'', Some ''same'')], 2)"
  by code_simp

lemma sample_watched_row: "\<exists>r. ws_rows sample_watched = [r] \<and> row_of r = (''pra'', ''a'') \<and> wr_ingested r"
  using sample_watched_facts unfolding watch_facts_def by (cases "ws_rows sample_watched") auto

lemma sample_watched_doc:
  "\<exists>d. so_docs (ws_store sample_watched) = [d] \<and> dc_id d = ''x'' \<and> dc_tenant d = ''t'' \<and> dc_uri d = ''a'' \<and>
     dc_hash d = Some ''same'' \<and> so_drawn (ws_store sample_watched) = 2"
  using sample_watched_facts unfolding watch_facts_def by (cases "so_docs (ws_store sample_watched)") auto

section \<open>Witnesses\<close>

theorem watcher_invariant_witness:
  "distinct (map row_of (ws_rows sample_watched)) \<and>
   (\<exists>r d. ws_rows sample_watched = [r] \<and> d \<in> set (so_docs (ws_store sample_watched)) \<and> wr_document r = Some (dc_id d))"
proof -
  have "watch_reachable sample_watched"
    unfolding sample_watched_def by (rule watch_reachable.polled) (rule watch_reachable.start)
  from watcher_invariant [OF this] have i: "distinct (map row_of (ws_rows sample_watched))"
    "list_all (\<lambda>r. wr_ingested r \<longrightarrow> wr_error r = None \<and>
      (\<exists>d\<in>set (so_docs (ws_store sample_watched)). wr_document r = Some (dc_id d))) (ws_rows sample_watched)"
    by (rule conjunct1, rule conjunct2)
  obtain r where "ws_rows sample_watched = [r]" "wr_ingested r" using sample_watched_row by (elim exE conjE)
  then show ?thesis using i by auto
qed

theorem poll_idempotent_witness:
  "\<exists>out. poll sample_net sample_watch_env sample_feeds sample_notifiers None None sample_watched =
     (sample_watched, out) \<and> po_new_events out = 0"
proof -
  obtain out where p: "poll sample_net sample_watch_env sample_feeds sample_notifiers None None empty_watch =
      (sample_watched, out)" using sample_watched_poll by (elim exE)
  have n: "DBNotifier ''demo'' \<in> set sample_notifiers"
    "watcher_tenant (ie_tenants sample_watch_env) ''demo'' = Some ''t''"
    by (simp_all add: sample_notifiers_def watcher_tenant_def sample_watch_env_def)
  have i: "wn_insert sample_net ev = None" for ev by (simp add: sample_net_def)
  from poll_idempotent [OF n i p] show ?thesis by (elim exE conjE) (intro exI conjI)
qed

text \<open>The page of the first event is offered again under another id.\<close>

definition sample_repeat :: pub_event where
  "sample_repeat = \<lparr> pe_regulator = ''pra'', pe_external = ''a'', pe_title = ''News'', pe_url = ''a'', pe_published = None,
     pe_summary = None, pe_type = ''publication'', pe_payload = [] \<rparr>"

theorem unchanged_page_stops_batch_witness:
  "\<exists>st'. ingest_events sample_net sample_watch_env ''t'' [sample_repeat, sample_repeat\<lparr> pe_url := ''new'' \<rparr>] sample_watched =
     (st', Some (OtherExc ''IntegrityError'')) \<and> so_docs (ws_store st') = so_docs (ws_store sample_watched)"
proof -
  have p: "fetch_page sample_net (pe_url sample_repeat) = Inr (''same'', ''text/markdown'')" by code_simp
  have f: "derive_filename (wn_urllib sample_net) (pe_url sample_repeat) ''text/markdown'' = Inr ''watcher_event.md''"
    by code_simp
  obtain d where d: "so_docs (ws_store sample_watched) = [d]" "dc_id d = ''x''" "dc_tenant d = ''t''" "dc_uri d = ''a''"
    "dc_hash d = Some ''same''" "so_drawn (ws_store sample_watched) = 2"
    using sample_watched_doc by (elim exE conjE)
  have at: "docs_at (ws_store sample_watched) ''t'' (pe_url sample_repeat) = [d]"
    using d by (simp add: docs_at_def sample_repeat_def)
  have h: "dc_hash d = Some (ie_hash sample_watch_env ''same'')"
    using d(5) by (simp add: sample_watch_env_def sample_ingest_def)
  have k: "event_key sample_repeat \<in> row_of ` set (ws_rows sample_watched)"
    using sample_watched_row by (auto simp: event_key_def sample_repeat_def)
  have u: "ie_uuid sample_watch_env (so_drawn (ws_store sample_watched) + 1) \<notin>
      dc_id ` set (so_docs (ws_store sample_watched))"
    using d(1,2,6) by (simp add: sample_watch_env_def sample_ingest_def sample_ids_def numeral_eq_Suc)
  have ne: "''same'' \<noteq> []" "''text/markdown'' \<noteq> []" by simp_all
  show ?thesis
    using unchanged_page_stops_batch [OF p ne f at h k u, of "[sample_repeat\<lparr> pe_url := ''new'' \<rparr>]"] by blast
qed

theorem failing_feed_isolated_witness:
  "fst (poll sample_net sample_watch_env (filter (\<lambda>f. \<not> feed_fails sample_net None f) sample_feeds)
     sample_notifiers None None empty_watch) = sample_watched \<and> ws_rows sample_watched \<noteq> []"
proof -
  obtain out where p: "poll sample_net sample_watch_env sample_feeds sample_notifiers None None empty_watch =
      (sample_watched, out)" using sample_watched_poll by (elim exE)
  have r: "ws_rows sample_watched \<noteq> []" using sample_watched_row by auto
  have n: "None = map_option (\<lambda>k. wn_now sample_net - 3600 * k) None" by simp
  show ?thesis using failing_feed_isolated [OF p n] r by (elim conjE) (intro conjI)
qed

text \<open>Deployed with the feed of HMRC at the sample address.\<close>

definition sample_noise_net :: watch_net where
  "sample_noise_net = sample_net\<lparr>
     wn_parse := (\<lambda>s. [sample_entry ''https://www.gov.uk/Government/News/x'', sample_entry ''https://www.gov.uk/guidance/y'']) \<rparr>"

theorem noise_filtered_witness:
  "\<exists>ev. concat (map (feed_events sample_noise_net None) (default_feeds (default_settings\<lparr> watcher_fca_url := [],
       watcher_boe_url := [], watcher_pra_url := [], watcher_tpr_url := [], watcher_ico_url := [], watcher_hmrc_url := ''feed'' \<rparr>))) =
     [ev] \<and> \<not> contains ''/government/news/'' (lower (pe_url ev))"
proof -
  let ?s = "default_settings\<lparr> watcher_fca_url := [], watcher_boe_url := [], watcher_pra_url := [], watcher_tpr_url := [],
     watcher_ico_url := [], watcher_hmrc_url := ''feed'' \<rparr>"
  let ?evs = "concat (map (feed_events sample_noise_net None) (default_feeds ?s))"
  have v: "map pe_url ?evs = [''https://www.gov.uk/guidance/y'']" "map pe_regulator ?evs = [''hmrc'']" by code_simp+
  then obtain ev where e: "?evs = [ev]" "pe_url ev = ''https://www.gov.uk/guidance/y''" "pe_regulator ev = ''hmrc''"
    by (cases ?evs) auto
  have m: "ev \<in> set ?evs" "pe_regulator ev \<in> {''tpr'', ''ico'', ''hmrc''}" "pe_url ev \<noteq> []" using e by simp_all
  have n: "''/government/news/'' \<in> set GOVUK_NOISE_PATHS" by (simp add: GOVUK_NOISE_PATHS_def)
  show ?thesis using noise_filtered [OF m(1,2) n m(3)] e(1) by blast
qed

end
