(* ===== verification/Documents.thy ===== *)
theory Documents
  imports Watcher Summarisation AskRoutes
begin

text \<open>
  The document routes (\<open>api/routes/documents.py\<close>): listing, counts, download, summaries, folders, deletion and
  the queueing of summaries.  Rows are listed in the order of insertion; the MIME tables, \<open>quote\<close> and the
  object storage are parameters.
\<close>

section \<open>Rows and environment\<close>

record doc_row = kp_document +
  dw_version :: "string option"
  dw_effective :: "int option"
  dw_superseded_by :: "uuid option"
  dw_created :: int
  dw_updated :: int

text \<open>The tables that refer to documents, the stored files, the queue.\<close>

record 'v library_db =
  ld_docs :: "doc_row list"
  ld_chunks :: "'v stored_chunk list"
  ld_jobs :: "ingestion_job list"
  ld_events :: "watcher_row list"
  ld_files :: "string \<rightharpoonup> string"
  ld_tasks :: "task list"
  ld_audit :: audit_log

datatype storage_answer = Stored string | MissingFile | StorageError exn

record doc_env =
  de_settings :: settings
  de_tenants :: "tenant list"
  de_now :: int
  de_audit_ok :: bool
  de_read :: "string \<Rightarrow> storage_answer"
  de_remove_ok :: "string \<Rightarrow> bool"
  de_guess_type :: "string \<Rightarrow> string option"
  de_guess_extension :: "string \<Rightarrow> string option"
  de_quote :: "string \<Rightarrow> string"
  de_broker_up :: bool
  de_task_id :: string

definition readable_ids :: "doc_env \<Rightarrow> uuid \<Rightarrow> uuid list" where
  "readable_ids E tid = visible_tenant_ids (de_settings E) (de_tenants E) tid"

section \<open>Folders\<close>

definition MAX_FOLDER_LEN :: nat where
  "MAX_FOLDER_LEN = 256"

definition folder_segments :: "string \<Rightarrow> string list" where
  "folder_segments raw =
     filter (\<lambda>s. s \<noteq> [] \<and> s \<notin> {''.'', ''..''})
       (map strip (split_char (CHR ''/'') (map (\<lambda>c. if c = CHR 0x5C then CHR ''/'' else c) raw)))"

definition normalize_folder :: "string option \<Rightarrow> string option" where
  "normalize_folder raw =
     (if \<not> str_true raw then None
      else
        let cleaned = folder_segments (the raw) in
        if cleaned = [] then None
        else or_none (rstrip_of (\<lambda>c. c = CHR ''/'') (take MAX_FOLDER_LEN (join ''/'' cleaned))))"

text \<open>\<open>metadata ->> 'folder'\<close>; the routes write strings only.\<close>

definition folder_text :: "jdict \<Rightarrow> string option" where
  "folder_text md = (case dget md ''folder'' of JNull \<Rightarrow> None | JStr s \<Rightarrow> Some s | j \<Rightarrow> Some (py_str j))"

section \<open>Listing\<close>

definition is_upload :: "doc_row \<Rightarrow> bool" where
  "is_upload d = startswith ''upload://'' (dc_uri d)"

definition list_condition :: "bool \<Rightarrow> string option \<Rightarrow> string option \<Rightarrow> uuid list \<Rightarrow> doc_row \<Rightarrow> bool" where
  "list_condition only_active doc_type folder ids d =
     (dc_tenant d \<in> set ids \<and> (only_active \<longrightarrow> dc_active d) \<and>
      (if doc_type = Some ''uploads'' then is_upload d
       else if str_true doc_type then dc_doc_type d = Some (lower (the doc_type)) else True) \<and>
      (case folder of None \<Rightarrow> True | Some f \<Rightarrow> folder_text (dc_metadata d) = normalize_folder (Some f)))"

definition list_documents ::
  "doc_env \<Rightarrow> principal \<Rightarrow> bool \<Rightarrow> string option \<Rightarrow> string option \<Rightarrow> nat \<Rightarrow> nat \<Rightarrow> doc_row list \<Rightarrow> doc_row list" where
  "list_documents E p only_active doc_type folder max_rows off docs =
     (let ids = (if doc_type = Some ''uploads'' then [pp_tenant_id p] else readable_ids E (pp_tenant_id p)) in
       take max_rows (drop off (sort_key (\<lambda>d. - dw_created d)
         (filter (list_condition only_active doc_type folder ids) docs))))"

text \<open>The groups come in an order the database chooses; here the order of their first rows.\<close>

definition list_document_counts :: "doc_env \<Rightarrow> principal \<Rightarrow> bool \<Rightarrow> doc_row list \<Rightarrow> (string \<times> nat) list" where
  "list_document_counts E p only_active docs =
     (let rows = filter (\<lambda>d. dc_tenant d \<in> set (readable_ids E (pp_tenant_id p)) \<and> (only_active \<longrightarrow> dc_active d)) docs;
          per_type = foldl (\<lambda>m t. AList.update (or_str t ''_untyped'')
            (length (filter (\<lambda>d. dc_doc_type d = t) rows)) m) [] (remdups (map dc_doc_type rows));
          with_uploads = AList.update ''uploads''
            (length (filter (\<lambda>d. dc_tenant d = pp_tenant_id p \<and> is_upload d) docs)) per_type
      in AList.update ''total''
           (sum_list (map snd (filter (\<lambda>(k, v). k \<notin> {''uploads'', ''total''}) with_uploads))) with_uploads)"

section \<open>One document\<close>

definition not_found :: exn where
  "not_found = HTTPError 404 ''document not found''"

definition find_readable :: "doc_env \<Rightarrow> uuid \<Rightarrow> uuid \<Rightarrow> doc_row list \<Rightarrow> exn + doc_row" where
  "find_readable E tid did docs =
     (case find (\<lambda>d. dc_id d = did \<and> dc_tenant d \<in> set (readable_ids E tid)) docs of
        None \<Rightarrow> Inl not_found
      | Some d \<Rightarrow> Inr d)"

definition get_document :: "doc_env \<Rightarrow> principal \<Rightarrow> uuid \<Rightarrow> doc_row list \<Rightarrow> exn + doc_row" where
  "get_document E p did docs = find_readable E (pp_tenant_id p) did docs"

definition signed_url :: "'tok jwt \<Rightarrow> doc_env \<Rightarrow> principal \<Rightarrow> uuid \<Rightarrow> doc_row list \<Rightarrow> exn + 'tok \<times> int" where
  "signed_url J E p did docs =
     try_bind (find_readable E (pp_tenant_id p) did docs) (\<lambda>d.
       Inr (mint_file_token J (de_settings E) (de_now E) (pp_user_id p) (pp_tenant_slug p) did FILE_TOKEN_TTL_SECONDS,
         FILE_TOKEN_TTL_SECONDS))"

text \<open>The tenant of a download: the bearer header first, then the signed link.\<close>

definition download_tenant ::
  "'tok jwt \<Rightarrow> doc_env \<Rightarrow> 'tok option \<Rightarrow> 'tok option \<Rightarrow> uuid \<Rightarrow> exn + uuid" where
  "download_tenant J E bearer token did =
     (case bearer of
        Some tok \<Rightarrow> try_bind (get_principal J (de_settings E) (de_tenants E) (de_now E) (Some tok)) (\<lambda>p. Inr (pp_tenant_id p))
      | None \<Rightarrow>
          (case token of
             Some tok \<Rightarrow> try_bind (verify_file_token J (de_settings E) (de_tenants E) (de_now E) tok did) (\<lambda>(u, tid). Inr tid)
           | None \<Rightarrow> Inl (HTTPError 401 (''Missing auth: send Authorization: Bearer <jwt> OR a '' @
               ''?token= query param from /v1/documents/{id}/file/signed-url''))))"

definition MISSING_SIGNS :: "string list" where
  "MISSING_SIGNS = [''nosuchkey'', ''not found'', ''no such file'', ''no such object'', ''404'']"

definition read_original :: "doc_env \<Rightarrow> string \<Rightarrow> exn + string" where
  "read_original E key =
     (case de_read E key of
        Stored s \<Rightarrow> Inr s
      | MissingFile \<Rightarrow> Inl (HTTPError 404 (''Original file not found in storage. This usually means '' @
          ''the doc was ingested when the storage backend was full '' @ ''or unreachable. Re-ingest the document to fix.''))
      | StorageError e \<Rightarrow>
          if list_ex (\<lambda>sig. contains sig (lower (exn_message e))) MISSING_SIGNS
          then Inl (HTTPError 404 (''Original file not found in storage. Re-ingest the '' @ ''document to fix.''))
          else Inl (HTTPError 500 (''failed to fetch from storage: '' @ exn_message e)))"

definition or_else_str :: "string option \<Rightarrow> string option \<Rightarrow> string option" where
  "or_else_str x y = (if str_true x then x else y)"

definition md_text :: "jdict \<Rightarrow> string \<Rightarrow> string option" where
  "md_text md k = (case dget md k of JStr s \<Rightarrow> Some s | j \<Rightarrow> if truthy j then Some (py_str j) else None)"

definition served_type :: "doc_env \<Rightarrow> doc_row \<Rightarrow> string" where
  "served_type E d =
     (let name = md_text (dc_metadata d) ''original_filename'';
          t1 = md_text (dc_metadata d) ''content_type'';
          t2 = or_else_str t1 (if str_true name then de_guess_type E (the name) else t1);
          t3 = or_else_str t2 (de_guess_type E (dc_uri d));
          t4 = or_else_str t3 (de_guess_type E (dc_title d))
      in or_str t4 ''application/octet-stream'')"

definition display_name :: "doc_env \<Rightarrow> string \<Rightarrow> doc_row \<Rightarrow> string" where
  "display_name E content_type d =
     (let name = md_text (dc_metadata d) ''original_filename'' in
       if str_true name then the name
       else
         let base = (if dc_title d = [] then ''document'' else dc_title d);
             ext = or_str (de_guess_extension E content_type) ''.bin'' in
         if endswith (lower ext) (lower base) then base else base @ ext)"

definition header_text :: "string \<Rightarrow> string" where
  "header_text name =
     map (\<lambda>c. if c = CHR 0x0D \<or> c = CHR 0x0A then CHR '' '' else c) (filter (\<lambda>c. c \<noteq> CHR 0x22) name)"

definition ascii_safe :: "string \<Rightarrow> string" where
  "ascii_safe name =
     (let t = map (\<lambda>c. if 32 \<le> code c \<and> code c < 127 then c else CHR ''_'') (header_text name) in
       if t = [] then ''document'' else t)"

definition content_disposition :: "doc_env \<Rightarrow> string \<Rightarrow> string" where
  "content_disposition E name =
     ''inline; filename='' @ [CHR 0x22] @ ascii_safe name @ [CHR 0x22] @ ''; filename*=UTF-8'' @ [CHR 0x27, CHR 0x27] @
     de_quote E (header_text name)"

record served_file =
  sf_data :: string
  sf_type :: string
  sf_disposition :: string

definition download_document_file ::
  "'tok jwt \<Rightarrow> doc_env \<Rightarrow> 'tok option \<Rightarrow> 'tok option \<Rightarrow> uuid \<Rightarrow> doc_row list \<Rightarrow> exn + served_file" where
  "download_document_file J E bearer token did docs =
     try_bind (download_tenant J E bearer token did) (\<lambda>tid.
     try_bind (find_readable E tid did docs) (\<lambda>d.
       if \<not> str_true (dc_storage_key d)
       then Inl (HTTPError 404
         ''no internal copy stored - this document was indexed without persisting the original'')
       else
         try_bind (read_original E (the (dc_storage_key d))) (\<lambda>s.
           let ct = served_type E d in
           Inr \<lparr> sf_data = s, sf_type = ct, sf_disposition = content_disposition E (display_name E ct d) \<rparr>)))"

definition get_document_summary ::
  "doc_env \<Rightarrow> principal \<Rightarrow> uuid \<Rightarrow> doc_row list \<Rightarrow> exn + (uuid \<times> string \<times> string \<times> string list option \<times> int)" where
  "get_document_summary E p did docs =
     try_bind (find_readable E (pp_tenant_id p) did docs) (\<lambda>d.
       if \<not> str_true (dc_summary d)
       then Inl (HTTPError 409 ''summary not yet generated - run summarisation first'')
       else Inr (dc_id d, dc_title d, the (dc_summary d), dc_keyphrases d, dw_updated d))"

section \<open>Management\<close>

definition load_owned_document :: "principal \<Rightarrow> uuid \<Rightarrow> doc_row list \<Rightarrow> exn + doc_row" where
  "load_owned_document p did docs =
     (case find (\<lambda>d. dc_id d = did \<and> dc_tenant d = pp_tenant_id p) docs of
        None \<Rightarrow> Inl (HTTPError 404 ''document not found, or it belongs to the read-only shared corpus'')
      | Some d \<Rightarrow> Inr d)"

text \<open>A folder that is sent, empty or not, is distinguished from one that is not.\<close>

record manage_update =
  mu_folder :: "string option option"
  mu_title :: "string option"

definition updated_row :: "manage_update \<Rightarrow> doc_row \<Rightarrow> doc_row \<times> jdict" where
  "updated_row b d =
     (let (d1, c1) = (case mu_folder b of
          None \<Rightarrow> (d, [])
        | Some raw \<Rightarrow>
            (case normalize_folder raw of
               None \<Rightarrow> (d\<lparr> dc_metadata := filter (\<lambda>(k, v). k \<noteq> ''folder'') (dc_metadata d) \<rparr>, [(''folder'', JNull)])
             | Some f \<Rightarrow> (d\<lparr> dc_metadata := dset (dc_metadata d) ''folder'' (JStr f) \<rparr>, [(''folder'', JStr f)])))
      in case mu_title b of
           None \<Rightarrow> (d1, c1)
         | Some t \<Rightarrow> if t = dc_title d then (d1, c1) else (d1\<lparr> dc_title := t \<rparr>, c1 @ [(''title'', JStr t)]))"

text \<open>
  The loaded row is changed in place: the database writes it back by its key. The time of the update is that of the last
  change the database saw.
\<close>

definition update_document ::
  "doc_env \<Rightarrow> principal \<Rightarrow> uuid \<Rightarrow> manage_update \<Rightarrow> 'v library_db \<Rightarrow> 'v library_db \<times> (exn + doc_row)" where
  "update_document E p did b db =
     (case load_owned_document p did (ld_docs db) of
        Inl e \<Rightarrow> (db, Inl e)
      | Inr d \<Rightarrow>
          (case updated_row b d of
             (d1, changed) \<Rightarrow>
               let d2 = (if d1 = d then d else d1\<lparr> dw_updated := de_now E \<rparr>) in
               if changed = [] then (db, Inr d)
               else (db\<lparr> ld_docs := map (\<lambda>x. if dc_id x = dc_id d then d2 else x) (ld_docs db),
                   ld_audit := record_action (de_audit_ok E) (de_now E) p ''document.update''
                     (Some (''/v1/documents/'' @ did)) None None [] ((''document_id'', JStr did) # changed) (ld_audit db) \<rparr>,
                 Inr d2)))"

text \<open>
  The foreign keys on documents: chunks go with their document, the jobs of the pipeline, the events of the watcher and
  the rows it supersedes keep it.
\<close>

definition referenced :: "uuid \<Rightarrow> 'v library_db \<Rightarrow> bool" where
  "referenced did db =
     (list_ex (\<lambda>j. jb_document j = Some did) (ld_jobs db) \<or> list_ex (\<lambda>r. wr_document r = Some did) (ld_events db) \<or>
      list_ex (\<lambda>d. dw_superseded_by d = Some did \<and> dc_id d \<noteq> did) (ld_docs db))"

definition delete_document :: "doc_env \<Rightarrow> principal \<Rightarrow> uuid \<Rightarrow> 'v library_db \<Rightarrow> 'v library_db \<times> (exn + uuid)" where
  "delete_document E p did db =
     (case load_owned_document p did (ld_docs db) of
        Inl e \<Rightarrow> (db, Inl e)
      | Inr d \<Rightarrow>
          if referenced did db then (db, Inl (OtherExc ''IntegrityError''))
          else
            (db\<lparr> ld_docs := filter (\<lambda>x. dc_id x \<noteq> did) (ld_docs db),
                ld_chunks := filter (\<lambda>c. cw_document c \<noteq> did) (ld_chunks db),
                ld_files := (case dc_storage_key d of
                    None \<Rightarrow> ld_files db
                  | Some k \<Rightarrow> if k \<noteq> [] \<and> de_remove_ok E k then (ld_files db)(k := None) else ld_files db),
                ld_audit := record_action (de_audit_ok E) (de_now E) p ''document.delete''
                  (Some (''/v1/documents/'' @ did)) None None []
                  [(''document_id'', JStr did), (''title'', JStr (dc_title d))] (ld_audit db) \<rparr>,
             Inr did))"

section \<open>Summaries\<close>

definition queue_summarise :: "doc_env \<Rightarrow> uuid \<Rightarrow> uuid \<Rightarrow> task list \<Rightarrow> exn + task list" where
  "queue_summarise E tid did ts =
     (if de_broker_up E then Inr (ts @ [SummariseDocument tid did]) else Inl (OtherExc ''OperationalError''))"

fun queue_all :: "doc_env \<Rightarrow> uuid \<Rightarrow> uuid list \<Rightarrow> task list \<Rightarrow> exn + task list" where
  "queue_all E tid [] ts = Inr ts"
| "queue_all E tid (d # ds) ts = try_bind (queue_summarise E tid d ts) (queue_all E tid ds)"

definition without_summary :: "uuid \<Rightarrow> doc_row \<Rightarrow> bool" where
  "without_summary tid d = (dc_tenant d = tid \<and> (dc_summary d = None \<or> dc_summary d = Some []))"

text \<open>The rows that the limit keeps are the database's choice; here the first ones.\<close>

definition summarise_missing :: "doc_env \<Rightarrow> principal \<Rightarrow> nat \<Rightarrow> 'v library_db \<Rightarrow> 'v library_db \<times> (exn + nat)" where
  "summarise_missing E p max_rows db =
     (let ids = map dc_id (take max_rows (filter (without_summary (pp_tenant_id p)) (ld_docs db))) in
       case queue_all E (pp_tenant_id p) ids (ld_tasks db) of
         Inl e \<Rightarrow> (db, Inl e)
       | Inr ts \<Rightarrow>
           (db\<lparr> ld_tasks := ts, ld_audit := record_action (de_audit_ok E) (de_now E) p ''document.summarise_missing''
               (Some ''/v1/documents/summarise-missing'') None None [] [(''queued'', JInt (int (length ids)))] (ld_audit db) \<rparr>,
            Inr (length ids)))"

definition summarise_document_now :: "doc_env \<Rightarrow> principal \<Rightarrow> uuid \<Rightarrow> 'v library_db \<Rightarrow> 'v library_db \<times> (exn + string)" where
  "summarise_document_now E p did db =
     (if find (\<lambda>d. dc_id d = did \<and> dc_tenant d = pp_tenant_id p) (ld_docs db) = None then (db, Inl not_found)
      else
        (case queue_summarise E (pp_tenant_id p) did (ld_tasks db) of
           Inl e \<Rightarrow> (db, Inl e)
         | Inr ts \<Rightarrow>
             (db\<lparr> ld_tasks := ts, ld_audit := record_action (de_audit_ok E) (de_now E) p ''document.summarise''
                 (Some (''/v1/documents/'' @ did @ ''/summarise'')) None None [] [(''document_id'', JStr did)] (ld_audit db) \<rparr>,
              Inr (de_task_id E))))"

section \<open>Lemmas\<close>

lemma find_readable_props:
  "find_readable E tid did docs = Inr d \<Longrightarrow> d \<in> set docs \<and> dc_id d = did \<and> dc_tenant d \<in> set (readable_ids E tid)"
  by (auto simp: find_readable_def find_Some_iff split: option.splits)

lemma load_owned_props:
  "load_owned_document p did docs = Inr d \<Longrightarrow> d \<in> set docs \<and> dc_id d = did \<and> dc_tenant d = pp_tenant_id p"
  by (auto simp: load_owned_document_def find_Some_iff split: option.splits)

lemma load_owned_some:
  assumes "d \<in> set docs" and "dc_id d = did" and "dc_tenant d = pp_tenant_id p"
  shows "\<exists>x. load_owned_document p did docs = Inr x"
proof (cases "find (\<lambda>d. dc_id d = did \<and> dc_tenant d = pp_tenant_id p) docs")
  case None
  then show ?thesis using assms by (simp add: find_None_iff)
next
  case (Some x)
  then show ?thesis by (simp add: load_owned_document_def)
qed

lemma download_readable:
  assumes "download_document_file J E bearer token did docs = Inr f"
  shows "\<exists>tid d key. download_tenant J E bearer token did = Inr tid \<and> d \<in> set docs \<and> dc_id d = did \<and>
    dc_tenant d \<in> set (readable_ids E tid) \<and> dc_storage_key d = Some key \<and> de_read E key = Stored (sf_data f) \<and>
    sf_type f = served_type E d"
proof -
  obtain tid d where t: "download_tenant J E bearer token did = Inr tid" and d: "find_readable E tid did docs = Inr d"
    using assms unfolding download_document_file_def try_bind_eq_Inr by blast
  then obtain key where "dc_storage_key d = Some key" "read_original E key = Inr (sf_data f)" "sf_type f = served_type E d"
    using assms by (cases "dc_storage_key d") (auto simp: download_document_file_def try_bind_eq_Inr Let_def split: if_splits)
  moreover have "read_original E k = Inr x \<Longrightarrow> de_read E k = Stored x" for k x
    by (simp add: read_original_def split: storage_answer.splits if_splits)
  ultimately show ?thesis using t find_readable_props [OF d] by blast
qed

lemma load_owned_refused:
  assumes "\<And>d. d \<in> set docs \<Longrightarrow> dc_id d = did \<Longrightarrow> dc_tenant d \<noteq> pp_tenant_id p"
  shows "load_owned_document p did docs =
    Inl (HTTPError 404 ''document not found, or it belongs to the read-only shared corpus'')"
proof -
  have "find (\<lambda>d. dc_id d = did \<and> dc_tenant d = pp_tenant_id p) docs = None"
    using assms by (auto simp: find_None_iff)
  then show ?thesis by (simp add: load_owned_document_def)
qed

lemma list_documents_props:
  "d \<in> set (list_documents E p only_active doc_type folder n k docs) \<Longrightarrow>
   d \<in> set docs \<and> list_condition only_active doc_type folder
     (if doc_type = Some ''uploads'' then [pp_tenant_id p] else readable_ids E (pp_tenant_id p)) d"
  by (auto simp: list_documents_def Let_def dest!: in_set_takeD in_set_dropD)

lemma own_readable: "tid \<in> set (readable_ids E tid)"
  by (simp add: readable_ids_def visible_tenant_ids_def split: option.split)

lemma updated_row_frame:
  "updated_row b d = (d', c) \<Longrightarrow> dc_id d' = dc_id d \<and> dc_tenant d' = dc_tenant d \<and> dc_uri d' = dc_uri d \<and>
     dc_storage_key d' = dc_storage_key d"
  by (auto simp: updated_row_def split: option.splits if_splits)

lemma filter_map_frame:
  "(\<And>x. x \<in> set xs \<Longrightarrow> f x \<noteq> x \<Longrightarrow> \<not> P x \<and> \<not> P (f x)) \<Longrightarrow> filter P (map f xs) = filter P xs"
proof (induction xs)
  case (Cons x xs)
  then show ?case by (cases "f x = x") auto
qed simp

lemma update_document_others:
  assumes "distinct (map dc_id (ld_docs db))"
  shows "filter (\<lambda>d. dc_tenant d \<noteq> pp_tenant_id p) (ld_docs (fst (update_document E p did b db))) =
    filter (\<lambda>d. dc_tenant d \<noteq> pp_tenant_id p) (ld_docs db)"
proof (cases "load_owned_document p did (ld_docs db)")
  case (Inl e)
  then show ?thesis by (simp add: update_document_def)
next
  case (Inr d)
  note d = load_owned_props [OF Inr]
  obtain d1 c where u: "updated_row b d = (d1, c)" by fastforce
  let ?d2 = "if d1 = d then d else d1\<lparr> dw_updated := de_now E \<rparr>"
  have t: "dc_tenant ?d2 = pp_tenant_id p" using updated_row_frame [OF u] d by simp
  have one: "x = d" if "x \<in> set (ld_docs db)" "dc_id x = dc_id d" for x
    using assms that d by (metis distinct_map inj_onD)
  have "filter (\<lambda>d. dc_tenant d \<noteq> pp_tenant_id p) (map (\<lambda>x. if dc_id x = dc_id d then ?d2 else x) (ld_docs db)) =
      filter (\<lambda>d. dc_tenant d \<noteq> pp_tenant_id p) (ld_docs db)"
    by (rule filter_map_frame) (use one t d in \<open>metis (mono_tags, lifting)\<close>)
  then show ?thesis using Inr u by (simp add: update_document_def Let_def)
qed

lemma delete_document_others:
  assumes "distinct (map dc_id (ld_docs db))"
  shows "filter (\<lambda>d. dc_tenant d \<noteq> pp_tenant_id p) (ld_docs (fst (delete_document E p did db))) =
    filter (\<lambda>d. dc_tenant d \<noteq> pp_tenant_id p) (ld_docs db)"
proof (cases "load_owned_document p did (ld_docs db)")
  case (Inl e)
  then show ?thesis by (simp add: delete_document_def)
next
  case (Inr d)
  have "dc_id x \<noteq> did" if "x \<in> set (ld_docs db)" "dc_tenant x \<noteq> pp_tenant_id p" for x
    using assms that load_owned_props [OF Inr] by (metis distinct_map inj_onD)
  then have "filter (\<lambda>d. dc_tenant d \<noteq> pp_tenant_id p) (filter (\<lambda>x. dc_id x \<noteq> did) (ld_docs db)) =
      filter (\<lambda>d. dc_tenant d \<noteq> pp_tenant_id p) (ld_docs db)"
    unfolding filter_filter by (intro filter_cong) auto
  then show ?thesis using Inr by (simp add: delete_document_def)
qed

text \<open>A stored document leaves a job that refers to it.\<close>

lemma finish_job: "finish E tid src n d rows st = (st', Inr r) \<Longrightarrow>
    ir_document_id r = dc_id d \<and> (\<exists>j\<in>set (so_jobs st'). jb_document j = Some (dc_id d))"
  by (auto simp: finish_def add_job_def Let_def)

lemma index_document_job:
  assumes "index_document E tid src n d st = (st', Inr r)"
  shows "\<exists>j\<in>set (so_jobs st'). jb_document j = Some (ir_document_id r)"
proof -
  obtain p rows st1 where "finish E tid src n (apply_parsed src p d) rows st1 = (st', Inr r)"
    using assms by (auto simp: index_document_def fail_def Let_def split: option.splits sum.splits)
  from finish_job [OF this] show ?thesis by auto
qed

lemma ingest_one_job:
  assumes "ingest_one E tid src st = (st', Inr r)" and "\<not> ir_skipped r"
  shows "\<exists>j\<in>set (so_jobs st'). jb_document j = Some (ir_document_id r)"
proof (cases "one_or_none (docs_at st tid (sd_uri src))")
  case (Inl e)
  then show ?thesis using assms(1) by (simp add: ingest_one_def fail_def Let_def)
next
  case (Inr found)
  show ?thesis
  proof (cases "case found of None \<Rightarrow> False | Some d \<Rightarrow> dc_hash d = Some (ie_hash E (sd_data src))")
    case True
    then show ?thesis using assms Inr by (auto simp: ingest_one_def Let_def)
  next
    case False
    let ?d = "upsert_document (ie_uuid E (so_drawn st + 1)) tid src (ie_hash E (sd_data src)) found"
    show ?thesis
    proof (cases "ie_flush_doc E ?d")
      case (Some e)
      then show ?thesis using assms Inr False by (simp add: ingest_one_def fail_def Let_def)
    next
      case None
      then have "index_document E tid src (so_drawn st) ?d
          (if found = None then st else delete_chunks tid (dc_id ?d) st) = (st', Inr r)"
        using assms(1) Inr False by (cases found) (auto simp: ingest_one_def Let_def)
      then show ?thesis by (rule index_document_job)
    qed
  qed
qed

text \<open>Folders: segments come back from the path that joins them.\<close>

lemma split_char_free: "w \<in> set (split_char c s) \<Longrightarrow> c \<notin> set w"
proof (induction s arbitrary: w)
  case (Cons d s)
  obtain v vs where "split_char c s = v # vs" by (cases "split_char c s") auto
  then show ?case using Cons by (auto split: if_splits)
qed simp

lemma split_char_subset: "w \<in> set (split_char c s) \<Longrightarrow> set w \<subseteq> set s"
proof (induction s arbitrary: w)
  case (Cons d s)
  obtain v vs where v: "split_char c s = v # vs" by (cases "split_char c s") auto
  have IH: "set v \<subseteq> set s" "\<forall>w \<in> set vs. set w \<subseteq> set s" using Cons.IH v by auto
  show ?case
  proof (cases "d = c")
    case True
    then have "w = [] \<or> w = v \<or> w \<in> set vs" using Cons.prems v by auto
    then show ?thesis using IH by auto
  next
    case False
    then have "w = d # v \<or> w \<in> set vs" using Cons.prems v by auto
    then show ?thesis using IH by auto
  qed
qed simp

lemma folder_segment_props:
  assumes "s \<in> set (folder_segments raw)"
  shows "s \<noteq> [] \<and> s \<noteq> ''.'' \<and> s \<noteq> ''..'' \<and> CHR ''/'' \<notin> set s \<and> CHR 0x5C \<notin> set s \<and> strip s = s"
proof -
  let ?r = "map (\<lambda>c. if c = CHR 0x5C then CHR ''/'' else c) raw"
  obtain w where w: "w \<in> set (split_char (CHR ''/'') ?r)" "s = strip w" and n: "s \<noteq> []" "s \<notin> {''.'', ''..''}"
    using assms unfolding folder_segments_def by auto
  have "set s \<subseteq> set w" using w(2) set_strip by simp
  moreover have "CHR ''/'' \<notin> set w" by (rule split_char_free [OF w(1)])
  moreover have "CHR 0x5C \<notin> set w" using split_char_subset [OF w(1)] by (auto split: if_splits)
  ultimately show ?thesis using n w(2) strip_idem by auto
qed

lemma folder_segments_join:
  assumes "folder_segments raw = ws" and "ws \<noteq> []"
  shows "folder_segments (join ''/'' ws) = ws"
proof -
  have p: "\<forall>s \<in> set ws. s \<noteq> [] \<and> s \<noteq> ''.'' \<and> s \<noteq> ''..'' \<and> CHR ''/'' \<notin> set s \<and> CHR 0x5C \<notin> set s \<and> strip s = s"
    using folder_segment_props assms(1) by blast
  have "set (join sep ws) \<subseteq> set sep \<union> (\<Union>w \<in> set ws. set w)" for sep by (induction sep ws rule: join.induct) auto
  then have "CHR 0x5C \<notin> set (join ''/'' ws)" using p by fastforce
  then have r: "map (\<lambda>c. if c = CHR 0x5C then CHR ''/'' else c) (join ''/'' ws) = join ''/'' ws"
    by (intro map_idI) auto
  have "map strip ws = ws" "filter (\<lambda>s. s \<noteq> [] \<and> s \<notin> {''.'', ''..''}) ws = ws"
    using p by (auto intro: map_idI simp: filter_id_conv)
  then show ?thesis unfolding folder_segments_def r using p assms(2) by (simp add: split_char_join)
qed

lemma last_join: "ws \<noteq> [] \<Longrightarrow> last ws \<noteq> [] \<Longrightarrow> join sep ws \<noteq> [] \<and> last (join sep ws) = last (last ws)"
  by (induction sep ws rule: join.induct) auto

lemma normal_path:
  assumes "folder_segments raw = ws" and "ws \<noteq> []" and "length (join ''/'' ws) \<le> MAX_FOLDER_LEN" and "raw \<noteq> []"
  shows "normalize_folder (Some raw) = Some (join ''/'' ws)"
proof -
  have l: "last ws \<noteq> []" "CHR ''/'' \<notin> set (last ws)" using folder_segment_props [of "last ws" raw] assms(1,2) by auto
  then have j: "join ''/'' ws \<noteq> []" "last (join ''/'' ws) \<noteq> CHR ''/''"
    using last_join [OF assms(2), of "''/''"] by (metis last_in_set)+
  then obtain u x where u: "join ''/'' ws = u @ [x]" "x \<noteq> CHR ''/''" by (metis append_butlast_last_id)
  then have "rstrip_of (\<lambda>c. c = CHR ''/'') (join ''/'' ws) = join ''/'' ws" by (simp add: rstrip_of_def)
  then show ?thesis using assms j(1) by (simp add: normalize_folder_def str_true_def or_none_def)
qed

section \<open>Properties\<close>

text \<open>
  C16. Documents stay in their tenant: whatever a caller lists, opens, gets a link for, downloads or reads the summary of
  belongs to the caller's tenant or the public corpus, uploads to the tenant itself, and a download serves the stored
  original of that very document; a document of another tenant is not found for renaming, moving and deleting, which
  change nothing then, and which never change the documents of any other tenant.
\<close>

theorem documents_confined:
  assumes "distinct (map dc_id (ld_docs db))"
  shows "list_all (\<lambda>d. dc_tenant d \<in> set (readable_ids E (pp_tenant_id p)) \<and> (only_active \<longrightarrow> dc_active d) \<and>
      (doc_type = Some ''uploads'' \<longrightarrow> dc_tenant d = pp_tenant_id p))
      (list_documents E p only_active doc_type folder n k (ld_docs db)) \<and>
    (case get_document E p did (ld_docs db) of
       Inl e \<Rightarrow> e = not_found
     | Inr d \<Rightarrow> d \<in> set (ld_docs db) \<and> dc_id d = did \<and> dc_tenant d \<in> set (readable_ids E (pp_tenant_id p))) \<and>
    (\<forall>tok ttl. signed_url J E p did (ld_docs db) = Inr (tok, ttl) \<longrightarrow>
       (\<exists>d\<in>set (ld_docs db). dc_id d = did \<and> dc_tenant d \<in> set (readable_ids E (pp_tenant_id p)))) \<and>
    (\<forall>i t s ks u. get_document_summary E p did (ld_docs db) = Inr (i, t, s, ks, u) \<longrightarrow>
       (\<exists>d\<in>set (ld_docs db). dc_id d = did \<and> dc_tenant d \<in> set (readable_ids E (pp_tenant_id p)) \<and>
          dc_title d = t \<and> dc_summary d = Some s)) \<and>
    (\<forall>f. download_document_file J E bearer token did (ld_docs db) = Inr f \<longrightarrow>
       (\<exists>tid d key. download_tenant J E bearer token did = Inr tid \<and> d \<in> set (ld_docs db) \<and> dc_id d = did \<and>
          dc_tenant d \<in> set (readable_ids E tid) \<and> dc_storage_key d = Some key \<and> de_read E key = Stored (sf_data f) \<and>
          sf_type f = served_type E d)) \<and>
    ((\<forall>d\<in>set (ld_docs db). dc_id d = did \<longrightarrow> dc_tenant d \<noteq> pp_tenant_id p) \<longrightarrow>
       update_document E p did b db =
         (db, Inl (HTTPError 404 ''document not found, or it belongs to the read-only shared corpus'')) \<and>
       delete_document E p did db =
         (db, Inl (HTTPError 404 ''document not found, or it belongs to the read-only shared corpus''))) \<and>
    filter (\<lambda>d. dc_tenant d \<noteq> pp_tenant_id p) (ld_docs (fst (update_document E p did b db))) =
      filter (\<lambda>d. dc_tenant d \<noteq> pp_tenant_id p) (ld_docs db) \<and>
    filter (\<lambda>d. dc_tenant d \<noteq> pp_tenant_id p) (ld_docs (fst (delete_document E p did db))) =
      filter (\<lambda>d. dc_tenant d \<noteq> pp_tenant_id p) (ld_docs db)"
    (is "?list \<and> ?get \<and> ?link \<and> ?summary \<and> ?download \<and> ?refused \<and> _")
proof (intro conjI)
  show ?list
    unfolding list_all_iff
  proof
    fix d
    assume "d \<in> set (list_documents E p only_active doc_type folder n k (ld_docs db))"
    then show "dc_tenant d \<in> set (readable_ids E (pp_tenant_id p)) \<and> (only_active \<longrightarrow> dc_active d) \<and>
        (doc_type = Some ''uploads'' \<longrightarrow> dc_tenant d = pp_tenant_id p)"
      using list_documents_props [of d E p only_active doc_type folder n k "ld_docs db"] own_readable [of "pp_tenant_id p" E]
      by (simp add: list_condition_def split: if_splits)
  qed
  show ?get
  proof (cases "find_readable E (pp_tenant_id p) did (ld_docs db)")
    case (Inl e)
    then have "e = not_found" by (simp add: find_readable_def split: option.splits)
    then show ?thesis by (simp add: get_document_def Inl)
  next
    case (Inr d)
    then show ?thesis using find_readable_props [OF Inr] by (simp add: get_document_def)
  qed
  show ?link
    unfolding signed_url_def try_bind_eq_Inr using find_readable_props by blast
  have summary: "dc_title d = t \<and> dc_summary d = Some s"
    if "(if \<not> str_true (dc_summary d) then Inl e else Inr (dc_id d, dc_title d, the (dc_summary d), dc_keyphrases d, dw_updated d)) =
      Inr (i, t, s, ks, u)" for d i t s ks u and e :: exn
    using that by (cases "dc_summary d") (auto split: if_splits)
  show ?summary
    unfolding get_document_summary_def try_bind_eq_Inr using find_readable_props summary by blast
  show ?download using download_readable by blast
  show ?refused
    using load_owned_refused [of "ld_docs db" did p] by (simp add: update_document_def delete_document_def)
qed (rule update_document_others [OF assms], rule delete_document_others [OF assms])

text \<open>
  C39. No document that the pipeline ingested can be deleted: the job of its ingestion refers to it by a foreign key
  without a delete rule, the database refuses, and the route fails with nothing changed.
\<close>

theorem delete_ingested_fails:
  assumes "ingest_one I tid src so = (so', Inr r)" and "\<not> ir_skipped r" and "ld_jobs db = so_jobs so'"
    and "d \<in> set (ld_docs db)" and "dc_id d = ir_document_id r" and "dc_tenant d = pp_tenant_id p"
  shows "delete_document E p (ir_document_id r) db = (db, Inl (OtherExc ''IntegrityError''))"
proof -
  obtain x where "load_owned_document p (ir_document_id r) (ld_docs db) = Inr x"
    using load_owned_some [OF assms(4) _ assms(6)] assms(5) by blast
  moreover have "referenced (ir_document_id r) db"
    using ingest_one_job [OF assms(1,2)] assms(3) by (auto simp: referenced_def list_ex_iff)
  ultimately show ?thesis by (simp add: delete_document_def)
qed

text \<open>
  The name in the download header is harmless: its plain form has printable ASCII characters only and no quotation
  mark, and neither form has a line break, whatever the title or the file name of the document.
\<close>

theorem download_name_safe:
  "list_all (\<lambda>c. 32 \<le> code c \<and> code c < 127 \<and> c \<noteq> CHR 0x22) (ascii_safe name) \<and> ascii_safe name \<noteq> [] \<and>
   CHR 0x0D \<notin> set (header_text name) \<and> CHR 0x0A \<notin> set (header_text name) \<and> CHR 0x22 \<notin> set (header_text name)"
proof -
  have h: "CHR 0x0D \<notin> set (header_text name)" "CHR 0x0A \<notin> set (header_text name)" "CHR 0x22 \<notin> set (header_text name)"
    by (auto simp: header_text_def)
  have d: "list_all (\<lambda>c. 32 \<le> code c \<and> code c < 127 \<and> c \<noteq> CHR 0x22) ''document''" by code_simp
  have u: "32 \<le> code (CHR ''_'')" "code (CHR ''_'') < 127" by code_simp+
  have "list_all (\<lambda>c. 32 \<le> code c \<and> code c < 127 \<and> c \<noteq> CHR 0x22)
      (map (\<lambda>c. if 32 \<le> code c \<and> code c < 127 then c else CHR ''_'') (header_text name))"
    using h(3) u by (auto simp: list_all_iff)
  then show ?thesis using h d unfolding ascii_safe_def Let_def by simp
qed

text \<open>
  A folder path of at most 256 characters keeps exactly its segments: none is empty, blank-padded, "." or "..",
  splitting the stored path gives them back, and normalising it again changes nothing.
\<close>

theorem folder_roundtrip:
  assumes "folder_segments raw = ws" and "ws \<noteq> []" and "length (join ''/'' ws) \<le> MAX_FOLDER_LEN" and "raw \<noteq> []"
  shows "normalize_folder (Some raw) = Some (join ''/'' ws) \<and> folder_segments (join ''/'' ws) = ws \<and>
    normalize_folder (Some (join ''/'' ws)) = Some (join ''/'' ws) \<and>
    list_all (\<lambda>s. s \<noteq> [] \<and> s \<noteq> ''.'' \<and> s \<noteq> ''..'' \<and> CHR ''/'' \<notin> set s \<and> strip s = s) ws"
proof (intro conjI)
  show "normalize_folder (Some raw) = Some (join ''/'' ws)" by (rule normal_path [OF assms])
  show r: "folder_segments (join ''/'' ws) = ws" by (rule folder_segments_join [OF assms(1,2)])
  have "join ''/'' ws \<noteq> []" using assms(1,2) last_join [of ws "''/''"] folder_segment_props [of "last ws" raw] by auto
  then show "normalize_folder (Some (join ''/'' ws)) = Some (join ''/'' ws)"
    by (rule normal_path [OF r assms(2,3)])
  show "list_all (\<lambda>s. s \<noteq> [] \<and> s \<noteq> ''.'' \<and> s \<noteq> ''..'' \<and> CHR ''/'' \<notin> set s \<and> strip s = s) ws"
    using folder_segment_props assms(1) by (auto simp: list_all_iff)
qed

theorem folder_roundtrip_witness:
  "normalize_folder (Some ''/a//.././ b/'') = Some ''a/b'' \<and> folder_segments ''a/b'' = [''a'', ''b'']"
proof -
  have w: "folder_segments ''/a//.././ b/'' = [''a'', ''b'']" "[''a'', ''b''] \<noteq> []"
      "length (join ''/'' [''a'', ''b'']) \<le> MAX_FOLDER_LEN" "''/a//.././ b/'' \<noteq> []" by code_simp+
  show ?thesis using folder_roundtrip [OF w] by simp
qed

definition library_row :: "uuid \<Rightarrow> uuid \<Rightarrow> doc_row" where
  "library_row did tid = \<lparr> dc_id = did, dc_tenant = tid, dc_title = ''one'', dc_uri = ''file:///a.md'',
     dc_storage_key = None, dc_doc_type = None, dc_superseded_at = None, dc_active = True, dc_summary = None,
     dc_hash = Some ''one'', dc_size = 3, dc_metadata = [], dc_keyphrases = None, dw_version = None,
     dw_effective = None, dw_superseded_by = None, dw_created = 0, dw_updated = 0 \<rparr>"

definition sample_library :: "doc_row list \<Rightarrow> ingestion_job list \<Rightarrow> unit library_db" where
  "sample_library ds js = \<lparr> ld_docs = ds, ld_chunks = [], ld_jobs = js, ld_events = [], ld_files = Map.empty,
     ld_tasks = [], ld_audit = [] \<rparr>"

definition sample_doc_env :: doc_env where
  "sample_doc_env = \<lparr> de_settings = default_settings, de_tenants = [sample_tenant], de_now = 5, de_audit_ok = True,
     de_read = (\<lambda>k. MissingFile), de_remove_ok = (\<lambda>k. True), de_guess_type = (\<lambda>s. None),
     de_guess_extension = (\<lambda>s. None), de_quote = (\<lambda>s. s), de_broker_up = True, de_task_id = ''job'' \<rparr>"

theorem documents_confined_witness:
  "dc_tenant (library_row ''d2'' ''t2'') = ''t2'' \<and>
   filter (\<lambda>d. dc_tenant d \<noteq> ''t1'') (ld_docs (fst (delete_document sample_doc_env sample_principal ''d1''
     (sample_library [library_row ''d1'' ''t1'', library_row ''d2'' ''t2''] [])))) = [library_row ''d2'' ''t2'']"
proof -
  let ?db = "sample_library [library_row ''d1'' ''t1'', library_row ''d2'' ''t2''] []"
  have d: "distinct (map dc_id (ld_docs ?db))" by code_simp
  have p: "pp_tenant_id sample_principal = ''t1''" by code_simp
  have f: "filter (\<lambda>d. dc_tenant d \<noteq> ''t1'') (ld_docs ?db) = [library_row ''d2'' ''t2'']"
    by (simp add: sample_library_def library_row_def)
  have "filter (\<lambda>d. dc_tenant d \<noteq> pp_tenant_id sample_principal)
      (ld_docs (fst (delete_document sample_doc_env sample_principal ''d1'' ?db))) =
      filter (\<lambda>d. dc_tenant d \<noteq> pp_tenant_id sample_principal) (ld_docs ?db)"
    using documents_confined [OF d] by blast
  then have "filter (\<lambda>d. dc_tenant d \<noteq> ''t1'')
      (ld_docs (fst (delete_document sample_doc_env sample_principal ''d1'' ?db))) = [library_row ''d2'' ''t2'']"
    unfolding p f .
  moreover have "dc_tenant (library_row ''d2'' ''t2'') = ''t2''" by (simp add: library_row_def)
  ultimately show ?thesis by (intro conjI)
qed

theorem delete_ingested_fails_witness:
  "\<exists>so r. ingest_one sample_ingest ''t1'' (sample_source ''one'') no_store = (so, Inr r) \<and>
     ld_docs (sample_library [library_row (ir_document_id r) ''t1''] (so_jobs so)) = [library_row (ir_document_id r) ''t1''] \<and>
     delete_document sample_doc_env sample_principal (ir_document_id r)
       (sample_library [library_row (ir_document_id r) ''t1''] (so_jobs so)) =
     (sample_library [library_row (ir_document_id r) ''t1''] (so_jobs so), Inl (OtherExc ''IntegrityError''))"
proof -
  have "case ingest_one sample_ingest ''t1'' (sample_source ''one'') no_store of
      (so, Inr r) \<Rightarrow> \<not> ir_skipped r | (so, Inl e) \<Rightarrow> False" by code_simp
  then obtain so r where i: "ingest_one sample_ingest ''t1'' (sample_source ''one'') no_store = (so, Inr r)"
    and s: "\<not> ir_skipped r" by (auto split: prod.splits sum.splits)
  let ?db = "sample_library [library_row (ir_document_id r) ''t1''] (so_jobs so)"
  have j: "ld_jobs ?db = so_jobs so" and m: "library_row (ir_document_id r) ''t1'' \<in> set (ld_docs ?db)"
    and d: "dc_id (library_row (ir_document_id r) ''t1'') = ir_document_id r"
    and t: "dc_tenant (library_row (ir_document_id r) ''t1'') = pp_tenant_id sample_principal"
    by (simp_all add: sample_library_def library_row_def sample_principal_def)
  have l: "ld_docs ?db = [library_row (ir_document_id r) ''t1'']" by (simp add: sample_library_def)
  show ?thesis using i l delete_ingested_fails [OF i s j m d t, of sample_doc_env] by blast
qed

text \<open>The cut at 256 characters comes after the segments are filtered, and leaves a last segment "..".\<close>

lemma folder_cut_traverses:
  "normalize_folder (Some (replicate 253 (CHR ''a'') @ ''/...'')) = Some (replicate 253 (CHR ''a'') @ ''/..'')"
  by code_simp

end
