(* ===== verification/McpTools.thy ===== *)
theory McpTools
  imports AskRoutes Documents
begin

text \<open>
  The tools an agent can call (\<open>mcp/server.py\<close>), their inspector (\<open>api/routes/mcp.py\<close>) and the bearer check
  of the HTTP transport (\<open>mcp/http_app.py\<close>).  The protocol itself is the MCP library's.  The long dash of a message
  is a hyphen; a number of results too big for the database is not modelled.
\<close>

section \<open>Environment\<close>

text \<open>
  Next to the environment of the ask service: the table of documents, the random session ids by the number of sessions,
  the text of a built-in exception, the message of the database for a bad limit, and the reranker at a negative
  \<open>top_n\<close>.
\<close>

record 'v tool_env =
  te_ask :: "'v ask_env"
  te_docs :: "doc_row list"
  te_fresh :: "nat \<Rightarrow> uuid"
  te_exc_text :: "py_exc \<Rightarrow> string"
  te_limit_error :: string
  te_rerank_negative :: "string \<Rightarrow> hit list \<Rightarrow> int \<Rightarrow> exn + hit list"

section \<open>The catalogue\<close>

definition text_property :: "string \<Rightarrow> json" where
  "text_property d = JObj ((''type'', JStr ''string'') # (if d = [] then [] else [(''description'', JStr d)]))"

definition flag_property :: json where
  "flag_property = JObj [(''type'', JStr ''boolean''), (''default'', JBool False)]"

definition tool_spec :: "string \<Rightarrow> string \<Rightarrow> jdict \<Rightarrow> string list \<Rightarrow> json" where
  "tool_spec name descr props required =
     JObj [(''name'', JStr name), (''description'', JStr descr),
       (''inputSchema'', JObj ([(''type'', JStr ''object''), (''properties'', JObj props)] @
         (if required = [] then [] else [(''required'', JList (map JStr required))])))]"

definition tool_specs :: "string \<Rightarrow> json list" where
  "tool_specs label =
     [tool_spec ''search_documents'' (''Hybrid search (vector + keyword + RRF + reranker) over the '' @
        ''AskAi corpus for tenant '' @ [CHR 0x27] @ label @ [CHR 0x27] @ ''. Returns ranked chunks '' @
        ''with scores and source provenance.'')
        [(''query'', text_property ''Search query''),
         (''k'', JObj [(''type'', JStr ''integer''), (''default'', JInt 8), (''minimum'', JInt 1), (''maximum'', JInt 50)]),
         (''include_superseded'', flag_property)] [''query''],
      tool_spec ''ask'' (''Ask AskAi a question about tenant '' @ [CHR 0x27] @ label @ [CHR 0x27] @ ''. Returns a '' @
        ''cited answer (LLM-synthesised over retrieved chunks).'')
        [(''question'', text_property []), (''include_superseded'', flag_property)] [''question''],
      tool_spec ''get_document'' ''Fetch a document's title, type, version, summary, and keyphrases.''
        [(''document_id'', text_property ''UUID'')] [''document_id''],
      tool_spec ''get_summary'' ''Return the pre-computed summary + keyphrases for a document.''
        [(''document_id'', text_property ''UUID'')] [''document_id''],
      tool_spec ''list_recent'' ''List the most recently ingested documents in this tenant.''
        [(''limit'', JObj [(''type'', JStr ''integer''), (''default'', JInt 10), (''maximum'', JInt 100)])] []]"

section \<open>Arguments\<close>

text \<open>\<open>args.get(k, v)\<close> and \<open>args[k]\<close> on the arguments, which a model may send in any JSON form.\<close>

fun jget_arg :: "json \<Rightarrow> string \<Rightarrow> json \<Rightarrow> exn + json" where
  "jget_arg (JObj d) k v = Inr (dget_or d k v)"
| "jget_arg _ k v = Inl (PyExc AttributeError)"

fun jitem :: "json \<Rightarrow> string \<Rightarrow> exn + json" where
  "jitem (JObj d) k = (case map_of d k of None \<Rightarrow> Inl (PyExc (KeyError k)) | Some x \<Rightarrow> Inr x)"
| "jitem _ k = Inl (PyExc TypeError)"

text \<open>\<open>f"{x:.nf}"\<close>\<close>

definition fixed_text :: "nat \<Rightarrow> rat \<Rightarrow> string" where
  "fixed_text n x =
     (let k = round_int (\<bar>x\<bar> * 10 ^ n) in
       (if x < 0 then ''-'' else []) @ nat_str (nat (k div 10 ^ n)) @ ''.'' @ pad_left n (nat_str (nat (k mod 10 ^ n))))"

definition tool_filters :: "json \<Rightarrow> exn + search_filters" where
  "tool_filters args =
     try_bind (jget_arg args ''include_superseded'' (JBool False)) (\<lambda>x.
       Inr (no_filters\<lparr> f_only_active := \<not> truthy x \<rparr>))"

section \<open>The tools\<close>

definition search_k :: "'v tool_env \<Rightarrow> uuid \<Rightarrow> string \<Rightarrow> int \<Rightarrow> search_filters \<Rightarrow> exn + search_outcome" where
  "search_k E tid q k f =
     (let S = ae_search (te_ask E);
          S' = (if k < 0 then S\<lparr> se_rerank := (\<lambda>q hs n. te_rerank_negative E q hs k) \<rparr> else S)
      in search S' tid q \<lparr> sp_k = nat k, sp_filters = f, sp_public = True, sp_rerank = True, sp_feedback = True \<rparr>)"

definition opt_int_text :: "int option \<Rightarrow> string" where
  "opt_int_text x = (case x of None \<Rightarrow> ''None'' | Some i \<Rightarrow> int_str i)"

definition hit_lines :: "hit \<Rightarrow> string list" where
  "hit_lines h =
     [''## '' @ nat_str (h_rank h) @ ''. '' @ h_title h @ (if h_active h then [] else ''  [SUPERSEDED]'') @
        '' (page '' @ opt_int_text (h_page h) @ '', score='' @ fixed_text 3 (h_score h) @ '')'',
      strip (take 600 (h_content h)), []]"

definition search_text :: "search_outcome \<Rightarrow> string" where
  "search_text out =
     join nl ((''# Search results (confidence='' @ fixed_text 2 (so_confidence out) @ '', latency='' @
       decimal_text 2 (so_latency_ms out) @ '' ms)'' @ nl) # concat (map hit_lines (so_hits out)))"

text \<open>The search is metered once it has its hits.\<close>

definition search_tool :: "'v tool_env \<Rightarrow> uuid \<Rightarrow> json \<Rightarrow> ask_state \<Rightarrow> ask_state \<times> (exn + string)" where
  "search_tool E tid args st =
     (case try_bind (tool_filters args) (\<lambda>f.
           try_bind (jitem args ''query'') (\<lambda>q.
           try_bind (jget_arg args ''k'' (JInt 8)) (\<lambda>kj.
           try_bind (py_int kj) (\<lambda>k. try_bind (search_k E tid (py_str q) k f) (\<lambda>out. Inr (py_str q, out)))))) of
        Inl e \<Rightarrow> (st, Inl e)
      | Inr (q, out) \<Rightarrow>
          (st\<lparr> as_gw := meter (ae_gw (te_ask E)) (search_context tid)
             (search_usage (ae_search (te_ask E)) (e_tik (ae_gw (te_ask E))) q) (as_gw st) \<rparr>,
           Inr (search_text out)))"

definition citation_line :: "citation \<Rightarrow> string" where
  "citation_line c =
     ''- ['' @ ci_title c @ '', page '' @ opt_int_text (ci_page c) @ ''] '' @ ci_snippet c"

definition ask_text :: "ask_outcome \<Rightarrow> string" where
  "ask_text out = ao_answer out @ nl2 @ ''## Citations'' @ nl @ join nl (map citation_line (ao_citations out))"

definition fresh_ask :: "'v tool_env \<Rightarrow> ask_state \<Rightarrow> 'v ask_env" where
  "fresh_ask E st = (te_ask E)\<lparr> ae_fresh := te_fresh E (length (as_sessions st)) \<rparr>"

definition ask_tool :: "'v tool_env \<Rightarrow> uuid \<Rightarrow> json \<Rightarrow> ask_state \<Rightarrow> ask_state \<times> (exn + string)" where
  "ask_tool E tid args st =
     (case try_bind (tool_filters args) (\<lambda>f. try_bind (jitem args ''question'') (\<lambda>q. Inr (f, q))) of
        Inl e \<Rightarrow> (st, Inl e)
      | Inr (f, q) \<Rightarrow>
          (case ask (fresh_ask E st) tid ''mcp'' (py_str q) None (Some f) True None st of
             (st', r) \<Rightarrow> (st', try_bind r (\<lambda>out. Inr (ask_text out)))))"

text \<open>A document of the tenant by its id; \<open>UUID(...)\<close> refuses other texts.\<close>

definition tool_document :: "'v tool_env \<Rightarrow> uuid \<Rightarrow> json \<Rightarrow> exn + doc_row option" where
  "tool_document E tid args =
     try_bind (jitem args ''document_id'') (\<lambda>x.
       case se_parse_uuid (ae_search (te_ask E)) (py_str x) of
         None \<Rightarrow> Inl (PyExc ValueError)
       | Some did \<Rightarrow> Inr (find (\<lambda>d. dc_id d = did \<and> dc_tenant d = tid) (te_docs E)))"

definition document_card :: "doc_row \<Rightarrow> string" where
  "document_card d =
     ''# '' @ dc_title d @ nl @ ''- type: '' @ or_str (dc_doc_type d) ''n/a'' @ nl @
     ''- version: '' @ or_str (dw_version d) ''n/a'' @ nl @
     ''- effective: '' @ (case dw_effective d of None \<Rightarrow> ''n/a'' | Some t \<Rightarrow> isoformat t) @ nl @
     ''- active: '' @ (if dc_active d then ''True'' else ''False'') @ nl @ ''- source: '' @ dc_uri d @ nl"

definition doc_tool :: "'v tool_env \<Rightarrow> uuid \<Rightarrow> json \<Rightarrow> exn + string" where
  "doc_tool E tid args =
     try_bind (tool_document E tid args) (\<lambda>r.
       Inr (case r of None \<Rightarrow> ''document not found'' | Some d \<Rightarrow> document_card d))"

definition summary_text :: "doc_row \<Rightarrow> string" where
  "summary_text d =
     (if \<not> str_true (dc_summary d) then ''summary not yet generated - run summarisation first''
      else ''# '' @ dc_title d @ nl2 @ the (dc_summary d) @ nl2 @ ''## Keyphrases'' @ nl @
        join '', '' (case dc_keyphrases d of None \<Rightarrow> [] | Some ks \<Rightarrow> ks))"

definition summary_tool :: "'v tool_env \<Rightarrow> uuid \<Rightarrow> json \<Rightarrow> exn + string" where
  "summary_tool E tid args =
     try_bind (tool_document E tid args) (\<lambda>r.
       Inr (case r of None \<Rightarrow> ''document not found'' | Some d \<Rightarrow> summary_text d))"

definition recent_documents :: "'v tool_env \<Rightarrow> uuid \<Rightarrow> nat \<Rightarrow> doc_row list" where
  "recent_documents E tid n =
     take n (sort_key (\<lambda>d. - dw_created d) (filter (\<lambda>d. dc_tenant d = tid) (te_docs E)))"

definition recent_line :: "doc_row \<Rightarrow> string" where
  "recent_line d =
     ''- '' @ dc_id d @ ''  '' @ dc_title d @ ''  ('' @ or_str (dc_doc_type d) ''n/a'' @ '')'' @
     (if dc_active d then [] else ''  [SUPERSEDED]'')"

text \<open>The database refuses a limit that is negative or has more than 64 bits.\<close>

definition list_tool :: "'v tool_env \<Rightarrow> uuid \<Rightarrow> json \<Rightarrow> exn + string" where
  "list_tool E tid args =
     try_bind (jget_arg args ''limit'' (JInt 10)) (\<lambda>j.
     try_bind (py_int j) (\<lambda>n.
       if n < 0 \<or> 2 ^ 63 \<le> n then Inl (OtherExc (te_limit_error E))
       else Inr (join nl ((''# Recent documents (top '' @ int_str n @ '')'' @ nl) #
         map recent_line (recent_documents E tid (nat n))))))"

definition dispatch_tool ::
  "'v tool_env \<Rightarrow> string \<Rightarrow> uuid \<Rightarrow> json \<Rightarrow> ask_state \<Rightarrow> ask_state \<times> (exn + string)" where
  "dispatch_tool E name tid args st =
     (if name = ''search_documents'' then search_tool E tid args st
      else if name = ''ask'' then ask_tool E tid args st
      else if name = ''get_document'' then (st, doc_tool E tid args)
      else if name = ''get_summary'' then (st, summary_tool E tid args)
      else if name = ''list_recent'' then (st, list_tool E tid args)
      else (st, Inr (''unknown tool: '' @ name)))"

section \<open>The servers\<close>

text \<open>The tenant a server is bound to, by id or by slug.\<close>

definition resolve_mcp_tenant :: "'v tool_env \<Rightarrow> string \<Rightarrow> exn + uuid" where
  "resolve_mcp_tenant E s =
     (case se_parse_uuid (ae_search (te_ask E)) s of
        Some u \<Rightarrow> Inr u
      | None \<Rightarrow>
          (case find (\<lambda>t. tn_slug t = s) (se_tenants (ae_search (te_ask E))) of
             None \<Rightarrow> Inl (OtherExc (''No tenant matches: '' @ str_repr s))
           | Some t \<Rightarrow> Inr (tn_id t)))"

definition call_tool ::
  "'v tool_env \<Rightarrow> string \<Rightarrow> string \<Rightarrow> jdict \<Rightarrow> ask_state \<Rightarrow> ask_state \<times> (exn + string)" where
  "call_tool E tenant name args st =
     (case resolve_mcp_tenant E tenant of
        Inl e \<Rightarrow> (st, Inl e)
      | Inr tid \<Rightarrow> dispatch_tool E name tid (JObj args) st)"

text \<open>The HTTP transport: what happens to a request before the protocol sees it.\<close>

datatype transport = NoReply | Refused nat | HandedOver

definition http_handler :: "string option \<Rightarrow> bool \<Rightarrow> (string \<times> string) list \<Rightarrow> transport" where
  "http_handler expected over_http headers =
     (if \<not> over_http then NoReply
      else if \<not> str_true expected then Refused 503
      else
        let auth = (case find (\<lambda>(n, v). n = ''authorization'') headers of None \<Rightarrow> [] | Some (n, v) \<Rightarrow> v) in
        if auth \<noteq> ''Bearer '' @ the expected then Refused 401 else HandedOver)"

section \<open>The inspector\<close>

record mcp_view =
  mv_enabled :: bool
  mv_tenant :: string
  mv_token :: "string option"
  mv_tools :: "json list"

text \<open>The arguments are the settings \<open>default_tenant\<close> and \<open>mcp_shared_token\<close>.\<close>

definition mcp_info :: "string \<Rightarrow> string option \<Rightarrow> principal \<Rightarrow> exn + mcp_view" where
  "mcp_info tenant token p =
     try_bind (require_scope ''owner'' p) (\<lambda>_.
       Inr \<lparr> mv_enabled = str_true token, mv_tenant = tenant, mv_token = token,
         mv_tools = tool_specs tenant \<rparr>)"

definition inspect_ask ::
  "'v tool_env \<Rightarrow> route_env \<Rightarrow> jdict \<Rightarrow> principal \<Rightarrow> ask_state \<Rightarrow> ask_state \<times> (exn + string)" where
  "inspect_ask E R args p st =
     (let question = py_str (dget_or args ''question'' (JStr []));
          f = no_filters\<lparr> f_only_active := \<not> truthy (dget_or args ''include_superseded'' (JBool False)) \<rparr>
      in case ask (fresh_ask E st) (pp_tenant_id p) ''mcp-inspector'' question None (Some f) True (Some (ro_fresh_hex R)) st of
           (st', Inl e) \<Rightarrow> (st', Inl e)
         | (st', Inr out) \<Rightarrow>
             (st'\<lparr> as_audit := record_action (ro_audit_ok R) (ro_now R) p ''ask'' (Some ''/v1/mcp/call'') (Some question)
                 (Some (take 600 (ao_answer out))) (map citation_source (ao_citations out))
                 [(''request_id'', JStr (ro_fresh_hex R)), (''tool'', JStr ''ask''), (''via'', JStr ''mcp-inspector'')]
                 (as_audit st') \<rparr>,
              Inr (ask_text out)))"

definition mcp_call ::
  "'v tool_env \<Rightarrow> route_env \<Rightarrow> string \<Rightarrow> jdict \<Rightarrow> principal \<Rightarrow> ask_state \<Rightarrow> ask_state \<times> (exn + string)" where
  "mcp_call E R tool args p st =
     (case require_scope ''owner'' p of
        Inl e \<Rightarrow> (st, Inl e)
      | Inr _ \<Rightarrow>
          if tool = ''ask'' then inspect_ask E R args p st
          else
            (case dispatch_tool E tool (pp_tenant_id p) (JObj args) st of
               (st', Inl e) \<Rightarrow> (st', Inl e)
             | (st', Inr t) \<Rightarrow>
                 (st'\<lparr> as_audit := record_action (ro_audit_ok R) (ro_now R) p ''mcp.inspect'' (Some ''/v1/mcp/call'') None None []
                     [(''tool'', JStr tool), (''request_id'', JStr (ro_fresh_hex R))] (as_audit st') \<rparr>,
                  Inr t)))"

section \<open>Lemmas\<close>

text \<open>Requests to the sovereign endpoint, and what an entry point of the gateway adds for a locked tenant.\<close>

definition sovereign_call :: "gw_env \<Rightarrow> sdk_call \<Rightarrow> bool" where
  "sovereign_call G c = (\<exists>k. call_client c = OpenAIClient k (llm_base_url (e_settings G)))"

definition cloud_locked :: "gw_env \<Rightarrow> uuid \<Rightarrow> bool" where
  "cloud_locked G tid =
     (case resolve_policy (load_tenant_settings (e_db G) tid) of Inl e \<Rightarrow> False | Inr pol \<Rightarrow> \<not> allow_cloud pol)"

context governed_entry begin

lemma locked_extends:
  assumes "cloud_locked E (ctx_tenant_id (gq_ctx rq))"
  shows "extends (sovereign_call E) (gs_trace st) (gs_trace (entry st))"
proof -
  obtain pol where pol: "resolve_policy (load_tenant_settings (e_db E) (ctx_tenant_id (gq_ctx rq))) = Inr pol" "\<not> allow_cloud pol"
    using assms by (auto simp: cloud_locked_def split: sum.splits)
  have "\<exists>new. gs_trace (entry st) = gs_trace st @ new"
  proof (cases rule: entry_cases [of st])
    case (ran chain pol')
    then show ?thesis using run_evolves [of pol' chain st] by (auto simp: evolves_def extends_def)
  qed simp_all
  then obtain new where new: "gs_trace (entry st) = gs_trace st @ new" ..
  have "sovereign_call E c" if "c \<in> set new" for c
    using sovereign_locked [OF pol, of c st] that new by (simp add: sovereign_call_def)
  then show ?thesis using new by (auto simp: extends_def list_all_iff)
qed

end

text \<open>The relation between the states before and after a step: a locked tenant's requests stay sovereign.\<close>

definition stays_sovereign :: "gw_env \<Rightarrow> uuid \<Rightarrow> ask_state \<Rightarrow> ask_state \<Rightarrow> bool" where
  "stays_sovereign G tid st st' =
     (cloud_locked G tid \<longrightarrow> extends (sovereign_call G) (gs_trace (as_gw st)) (gs_trace (as_gw st')))"

lemma stays_sovereign_refl [simp]: "stays_sovereign G tid st st"
  by (simp add: stays_sovereign_def)

lemma stays_sovereign_trans: "stays_sovereign G tid a b \<Longrightarrow> stays_sovereign G tid b c \<Longrightarrow> stays_sovereign G tid a c"
  unfolding stays_sovereign_def by (blast intro: extends_trans)

lemma ask_gateway:
  "as_gw (fst (ask E tid uid q sid f rr rid st)) = as_gw st \<or>
   (\<exists>ms. as_gw (fst (ask E tid uid q sid f rr rid st)) =
      fst (complete (ae_gw E) (ask_request E tid uid rid) ms (as_gw st)))"
proof -
  obtain s history where m: "memory_load (ae_fresh E) tid sid (as_sessions st) = (s, history)" by fastforce
  show ?thesis
  proof (cases "do_retrieval E tid q f rr")
    case (Inl e)
    then show ?thesis by (simp add: ask_def m)
  next
    case (Inr out)
    obtain g r where a: "answer_text E (ask_request E tid uid rid) q (so_hits out) history (as_gw st) = (g, r)" by fastforce
    have "as_gw (fst (ask E tid uid q sid f rr rid st)) = g"
      by (cases r) (auto simp: ask_def m Inr a split: sum.splits)
    moreover have "g = as_gw st \<or> (\<exists>ms. g = fst (complete (ae_gw E) (ask_request E tid uid rid) ms (as_gw st)))"
    proof (cases "so_hits out = []")
      case False
      let ?ms = "build_rag_messages q (so_hits out) history (system_prompt E)"
      have "g = fst (complete (ae_gw E) (ask_request E tid uid rid) ?ms (as_gw st))"
        using a False by (simp add: answer_text_def split: prod.splits)
      then show ?thesis by blast
    qed (use a in \<open>simp add: answer_text_def\<close>)
    ultimately show ?thesis by simp
  qed
qed

lemma ask_sovereign: "stays_sovereign (ae_gw E) tid st (fst (ask E tid uid q sid f rr rid st))"
proof -
  have "ctx_tenant_id (gq_ctx (ask_request E tid uid rid)) = tid" by (simp add: ask_request_def)
  then show ?thesis
    using ask_gateway [of E tid uid q sid f rr rid st] completing.locked_extends [of "ae_gw E" "ask_request E tid uid rid"]
    by (auto simp: stays_sovereign_def)
qed

lemma fresh_ask_gw [simp]: "ae_gw (fresh_ask E st) = ae_gw (te_ask E)"
  by (simp add: fresh_ask_def)

lemma search_tool_sovereign: "stays_sovereign G tid st (fst (search_tool E tid args st))"
  unfolding search_tool_def stays_sovereign_def by (simp split: sum.split prod.split)

lemma ask_tool_sovereign: "stays_sovereign (ae_gw (te_ask E)) tid st (fst (ask_tool E tid args st))"
proof (cases "try_bind (tool_filters args) (\<lambda>f. try_bind (jitem args ''question'') (\<lambda>q. Inr (f, q)))")
  case (Inl e)
  then show ?thesis by (simp add: ask_tool_def)
next
  case (Inr x)
  obtain f q where x: "x = (f, q)" by (cases x)
  have "stays_sovereign (ae_gw (te_ask E)) tid st (fst (ask (fresh_ask E st) tid ''mcp'' (py_str q) None (Some f) True None st))"
    using ask_sovereign [of "fresh_ask E st"] by simp
  then show ?thesis using Inr x by (simp add: ask_tool_def split_beta)
qed

lemma dispatch_sovereign: "stays_sovereign (ae_gw (te_ask E)) tid st (fst (dispatch_tool E name tid args st))"
  by (simp add: dispatch_tool_def search_tool_sovereign ask_tool_sovereign)

text \<open>The document tools read the rows of their tenant only.\<close>

lemma find_filter: "find P xs = find P (filter Q xs)" if "\<And>x. P x \<Longrightarrow> Q x"
  using that by (induction xs) auto

lemma tool_document_rows:
  assumes "filter (\<lambda>d. dc_tenant d = tid) docs = filter (\<lambda>d. dc_tenant d = tid) (te_docs E)"
  shows "tool_document (E\<lparr> te_docs := docs \<rparr>) tid args = tool_document E tid args"
proof -
  have "find (\<lambda>d. dc_id d = did \<and> dc_tenant d = tid) docs = find (\<lambda>d. dc_id d = did \<and> dc_tenant d = tid) (te_docs E)" for did
  proof -
    let ?P = "\<lambda>d. dc_id d = did \<and> dc_tenant d = tid"
    have "find ?P docs = find ?P (filter (\<lambda>d. dc_tenant d = tid) docs)" by (rule find_filter) simp
    moreover have "find ?P (te_docs E) = find ?P (filter (\<lambda>d. dc_tenant d = tid) (te_docs E))" by (rule find_filter) simp
    ultimately show ?thesis using assms by simp
  qed
  moreover have "te_ask (E\<lparr> te_docs := docs \<rparr>) = te_ask E" "te_docs (E\<lparr> te_docs := docs \<rparr>) = docs" by simp_all
  ultimately show ?thesis by (simp only: tool_document_def)
qed

lemma other_tools_rows:
  "search_tool (E\<lparr> te_docs := docs \<rparr>) tid args st = search_tool E tid args st"
  "ask_tool (E\<lparr> te_docs := docs \<rparr>) tid args st = ask_tool E tid args st"
proof -
  have e: "te_ask (E\<lparr> te_docs := docs \<rparr>) = te_ask E" "te_fresh (E\<lparr> te_docs := docs \<rparr>) = te_fresh E"
    "te_rerank_negative (E\<lparr> te_docs := docs \<rparr>) = te_rerank_negative E" by simp_all
  show "search_tool (E\<lparr> te_docs := docs \<rparr>) tid args st = search_tool E tid args st"
    unfolding search_tool_def search_k_def e ..
  show "ask_tool (E\<lparr> te_docs := docs \<rparr>) tid args st = ask_tool E tid args st"
    unfolding ask_tool_def fresh_ask_def e ..
qed

section \<open>Properties\<close>

text \<open>
  The tools are isolated: no tool, with whatever arguments the model sends, distinguishes two tables of documents
  that agree on the rows of its tenant, and every document it opens or lists is one of them.
\<close>

theorem tools_isolated:
  assumes "filter (\<lambda>d. dc_tenant d = tid) docs = filter (\<lambda>d. dc_tenant d = tid) (te_docs E)"
  shows "dispatch_tool (E\<lparr> te_docs := docs \<rparr>) name tid args st = dispatch_tool E name tid args st \<and>
    list_all (\<lambda>d. dc_tenant d = tid) (recent_documents E tid n) \<and>
    (case tool_document E tid args of Inr (Some d) \<Rightarrow> d \<in> set (te_docs E) \<and> dc_tenant d = tid | _ \<Rightarrow> True)"
proof (intro conjI)
  note rows = tool_document_rows [OF assms] other_tools_rows
  have r: "recent_documents (E\<lparr> te_docs := docs \<rparr>) tid k = recent_documents E tid k" for k
    using assms by (simp add: recent_documents_def)
  have e: "te_limit_error (E\<lparr> te_docs := docs \<rparr>) = te_limit_error E" by simp
  have "list_tool (E\<lparr> te_docs := docs \<rparr>) tid args = list_tool E tid args"
    unfolding list_tool_def r e ..
  then show "dispatch_tool (E\<lparr> te_docs := docs \<rparr>) name tid args st = dispatch_tool E name tid args st"
    by (simp add: dispatch_tool_def rows doc_tool_def summary_tool_def)
  show "list_all (\<lambda>d. dc_tenant d = tid) (recent_documents E tid n)"
    by (auto simp: recent_documents_def list_all_iff dest: in_set_takeD)
  show "case tool_document E tid args of Inr (Some d) \<Rightarrow> d \<in> set (te_docs E) \<and> dc_tenant d = tid | _ \<Rightarrow> True"
    by (auto simp: tool_document_def try_bind_def find_Some_iff split: sum.split option.splits)
qed

text \<open>
  The HTTP transport hands a request to the protocol exactly when a token is configured and the first authorization
  header is that token behind "Bearer "; without a token every request is refused with 503.
\<close>

theorem http_token_required:
  "(http_handler expected True headers = HandedOver) =
     (\<exists>tok. expected = Some tok \<and> tok \<noteq> [] \<and> (\<exists>v. find (\<lambda>(n, v). n = ''authorization'') headers = Some (''authorization'', v) \<and>
        v = ''Bearer '' @ tok)) \<and>
   http_handler None True headers = Refused 503 \<and> http_handler (Some []) True headers = Refused 503"
proof (cases "find (\<lambda>(n, v). n = ''authorization'') headers")
  case None
  then show ?thesis by (cases expected) (simp_all add: http_handler_def str_true_def)
next
  case (Some x)
  obtain n v where x: "x = (n, v)" by (cases x)
  have "n = ''authorization''" using Some x by (auto simp: find_Some_iff)
  then show ?thesis using Some x by (cases expected) (auto simp: http_handler_def str_true_def)
qed

text \<open>
  A search can return a document of the public corpus, but no tool opens it: the document tools look in the
  caller's tenant only.
\<close>

lemma public_document_unopened:
  assumes "find (\<lambda>d. dc_id d = did \<and> dc_tenant d = tid) (te_docs E) = None"
    and "se_parse_uuid (ae_search (te_ask E)) did = Some did"
  shows "doc_tool E tid (JObj [(''document_id'', JStr did)]) = Inr ''document not found''"
  using assms by (simp add: doc_tool_def tool_document_def)

section \<open>Witnesses\<close>

definition sample_tools :: "doc_row list \<Rightarrow> unit tool_env" where
  "sample_tools ds = \<lparr> te_ask = sample_ask, te_docs = ds, te_fresh = (\<lambda>n. ''s''), te_exc_text = (\<lambda>x. []),
     te_limit_error = [], te_rerank_negative = (\<lambda>q hs k. Inr hs) \<rparr>"

theorem tools_isolated_witness:
  "dispatch_tool (sample_tools [library_row ''d1'' ''t1'', library_row ''d2'' ''t2'']) ''get_document'' ''t1''
     (JObj [(''document_id'', JStr ''d2'')]) fresh_state = (fresh_state, Inr ''document not found'')"
proof -
  let ?all = "[library_row ''d1'' ''t1'', library_row ''d2'' ''t2'']"
  let ?own = "sample_tools [library_row ''d1'' ''t1'']"
  have f: "filter (\<lambda>d. dc_tenant d = ''t1'') ?all = filter (\<lambda>d. dc_tenant d = ''t1'') (te_docs ?own)"
    by (simp add: sample_tools_def library_row_def)
  have u: "?own\<lparr> te_docs := ?all \<rparr> = sample_tools ?all" by (simp add: sample_tools_def)
  have "doc_tool ?own ''t1'' (JObj [(''document_id'', JStr ''d2'')]) = Inr ''document not found''"
    by (simp add: doc_tool_def tool_document_def sample_tools_def library_row_def sample_ask_def sample_search_def try_bind_def)
  then have "dispatch_tool ?own ''get_document'' ''t1'' (JObj [(''document_id'', JStr ''d2'')]) fresh_state =
      (fresh_state, Inr ''document not found'')" by (simp add: dispatch_tool_def)
  then show ?thesis
    using tools_isolated [OF f, THEN conjunct1, of "''get_document''" "JObj [(''document_id'', JStr ''d2'')]" fresh_state]
    unfolding u by simp
qed

end
