(* ===== verification/Agent.thy ===== *)
theory Agent
  imports McpTools JsonText
begin

text \<open>
  The research agent (\<open>mcp/agent.py\<close>): a loop that sends the transcript to a model with tools, runs the tools it
  asks for and feeds their results back, at most \<open>max_steps\<close> times; and its route (\<open>api/routes/agent.py\<close>).  The
  loop is over any chat function, as the service takes any adapter, and any dispatcher.
\<close>

section \<open>Transcripts\<close>

definition AGENT_SYSTEM_PROMPT :: string where
  "AGENT_SYSTEM_PROMPT = concat (map (\<lambda>l. l @ nl) [
    ''You are AskAi's research agent. You answer the user's goal by USING TOOLS to'',
    ''gather grounded evidence from their private document corpus, then writing a'',
    ''final answer.'',
    [],
    ''How to work:'',
    ''1. Think about what you need, then CALL a tool (search_documents, get_document,'',
    ''   get_summary, list_recent). Prefer search_documents first to find relevant'',
    ''   material; chain more calls if you need detail.'',
    ''2. Use ONLY what the tools return - never invent facts. Cite document titles.'',
    ''3. When you have enough, STOP calling tools and write the final answer:'',
    ''   a 1-2 sentence direct answer, then key points, then the sources you used.'',
    ''4. If the tools find nothing relevant, say so plainly and suggest what to ingest.'',
    ''Be efficient - don't call tools you don't need.''])"

record agent_step =
  ap_tool :: string
  ap_arguments :: json
  ap_preview :: string

record agent_result =
  ar_answer :: string
  ar_steps :: "agent_step list"
  ar_iterations :: nat

definition openai_tools :: "string \<Rightarrow> json list" where
  "openai_tools label =
     map (\<lambda>s. JObj [(''type'', JStr ''function''), (''function'', JObj
       [(''name'', case s of JObj d \<Rightarrow> dget d ''name''), (''description'', case s of JObj d \<Rightarrow> dget d ''description''),
        (''parameters'', case s of JObj d \<Rightarrow> dget d ''inputSchema'')])]) (tool_specs label)"

definition call_json :: "tool_call \<Rightarrow> json" where
  "call_json tc = JObj [(''id'', JStr (tc_id tc)), (''type'', JStr ''function''),
     (''function'', JObj [(''name'', JStr (tc_name tc)), (''arguments'', JStr (tc_arguments tc))])]"

definition content_text :: "assistant_message \<Rightarrow> string" where
  "content_text m = or_str (am_content m) []"

definition assistant_turn :: "assistant_message \<Rightarrow> jdict" where
  "assistant_turn m = [(''role'', JStr ''assistant''), (''content'', JStr (content_text m)),
     (''tool_calls'', JList (map call_json (am_tool_calls m)))]"

definition tool_turn :: "tool_call \<Rightarrow> string \<Rightarrow> jdict" where
  "tool_turn tc result = [(''role'', JStr ''tool''), (''tool_call_id'', JStr (tc_id tc)), (''content'', JStr (take 6000 result))]"

definition first_turns :: "string \<Rightarrow> jdict list" where
  "first_turns goal =
     [[(''role'', JStr ''system''), (''content'', JStr AGENT_SYSTEM_PROMPT)],
      [(''role'', JStr ''user''), (''content'', JStr goal)]]"

definition wrap_up_turn :: jdict where
  "wrap_up_turn = [(''role'', JStr ''user''), (''content'', JStr ''Give your best final answer now from what you've gathered.'')]"

section \<open>The loop\<close>

type_synonym 's chat = "jdict list \<Rightarrow> json list \<Rightarrow> 's \<Rightarrow> 's \<times> (exn + assistant_message)"
type_synonym 's dispatcher = "string \<Rightarrow> json \<Rightarrow> 's \<Rightarrow> 's \<times> (exn + string)"

text \<open>Arguments that are not JSON become an empty object; other errors of the decoder are not caught.\<close>

definition call_arguments :: "tool_call \<Rightarrow> exn + json" where
  "call_arguments tc =
     (case json_loads (if tc_arguments tc = [] then ''{}'' else tc_arguments tc) of
        Inr j \<Rightarrow> Inr j
      | Inl e \<Rightarrow> if e = decode_error then Inr (JObj []) else Inl e)"

definition error_text :: "(py_exc \<Rightarrow> string) \<Rightarrow> exn \<Rightarrow> string" where
  "error_text pt e = ''tool error: '' @ (case e of PyExc x \<Rightarrow> pt x | _ \<Rightarrow> exn_message e)"

fun run_calls ::
  "(py_exc \<Rightarrow> string) \<Rightarrow> 's dispatcher \<Rightarrow> tool_call list \<Rightarrow> 's \<Rightarrow> 's \<times> (exn + agent_step list \<times> jdict list)" where
  "run_calls pt f [] s = (s, Inr ([], []))"
| "run_calls pt f (tc # tcs) s =
     (case call_arguments tc of
        Inl e \<Rightarrow> (s, Inl e)
      | Inr args \<Rightarrow>
          (case f (tc_name tc) args s of
             (s1, r) \<Rightarrow>
               let result = (case r of Inr t \<Rightarrow> t | Inl e \<Rightarrow> error_text pt e) in
               (case run_calls pt f tcs s1 of
                  (s2, r2) \<Rightarrow> (s2, try_bind r2 (\<lambda>(steps, msgs).
                    Inr (\<lparr> ap_tool = tc_name tc, ap_arguments = args, ap_preview = take 500 result \<rparr> # steps,
                      tool_turn tc result # msgs))))))"

text \<open>\<open>n\<close> iterations are left, \<open>i\<close> are done.\<close>

fun agent_loop ::
  "(py_exc \<Rightarrow> string) \<Rightarrow> 's chat \<Rightarrow> 's dispatcher \<Rightarrow> json list \<Rightarrow> nat \<Rightarrow> nat \<Rightarrow> jdict list \<Rightarrow> agent_step list \<Rightarrow> 's \<Rightarrow>
   's \<times> (exn + agent_result)" where
  "agent_loop pt chat f tools 0 i ms steps s =
     (case chat (ms @ [wrap_up_turn]) [] s of
        (s', r) \<Rightarrow> (s', try_bind r (\<lambda>w.
          Inr \<lparr> ar_answer = or_str (am_content w) ''(reached the step limit)'', ar_steps = steps, ar_iterations = i \<rparr>)))"
| "agent_loop pt chat f tools (Suc n) i ms steps s =
     (case chat ms tools s of
        (s1, Inl e) \<Rightarrow> (s1, Inl e)
      | (s1, Inr m) \<Rightarrow>
          if am_tool_calls m = []
          then (s1, Inr \<lparr> ar_answer = content_text m, ar_steps = steps, ar_iterations = Suc i \<rparr>)
          else
            (case run_calls pt f (am_tool_calls m) s1 of
               (s2, Inl e) \<Rightarrow> (s2, Inl e)
             | (s2, Inr (new, msgs)) \<Rightarrow>
                 agent_loop pt chat f tools n (Suc i) (ms @ assistant_turn m # msgs) (steps @ new) s2))"

text \<open>\<open>chat\<close> is none when the adapter has no tool calling.\<close>

definition agent_run ::
  "(py_exc \<Rightarrow> string) \<Rightarrow> 's chat option \<Rightarrow> 's dispatcher \<Rightarrow> nat \<Rightarrow> string \<Rightarrow> string \<Rightarrow> 's \<Rightarrow> 's \<times> (exn + agent_result)" where
  "agent_run pt chat f max_steps slug goal s =
     (case chat of
        None \<Rightarrow> (s, Inl (AskAiError (''The configured LLM adapter does not support tool-calling; '' @
          ''the agent needs the OpenAI-compatible adapter (vLLM/OpenAI).'')))
      | Some c \<Rightarrow>
          agent_loop pt c f (openai_tools (if slug = [] then ''your corpus'' else slug)) max_steps 0 (first_turns goal) [] s)"

section \<open>The deployed agent\<close>

definition MAX_STEPS :: nat where
  "MAX_STEPS = 6"

definition AGENT_MAX_TOKENS :: int where
  "AGENT_MAX_TOKENS = 1400"

definition agent_adapter :: "principal \<Rightarrow> string \<Rightarrow> gateway_adapter" where
  "agent_adapter p rid =
     \<lparr> ga_tenant_id = pp_tenant_id p, ga_purpose = ''agent'', ga_user_id = Some (pp_user_id p),
       ga_request_id = Some rid, ga_tenant_slug = pp_tenant_slug p \<rparr>"

text \<open>The temperature is the default of the adapter.\<close>

definition gateway_chat :: "gw_env \<Rightarrow> gateway_adapter \<Rightarrow> ask_state chat" where
  "gateway_chat G a ms tools st =
     (case adapter_chat_with_tools G a ms tools (decimal_json 1 0) (Some AGENT_MAX_TOKENS) (as_gw st) of
        (g, r) \<Rightarrow> (st\<lparr> as_gw := g \<rparr>, r))"

definition agent_service ::
  "'v tool_env \<Rightarrow> principal \<Rightarrow> string \<Rightarrow> string \<Rightarrow> ask_state \<Rightarrow> ask_state \<times> (exn + agent_result)" where
  "agent_service E p goal rid st =
     agent_run (te_exc_text E) (Some (gateway_chat (ae_gw (te_ask E)) (agent_adapter p rid)))
       (\<lambda>name args. dispatch_tool E name (pp_tenant_id p) args) MAX_STEPS (pp_tenant_slug p) goal st"

text \<open>The view of a step admits only an object as its arguments; the audit row is written before.\<close>

definition step_viewable :: "agent_step \<Rightarrow> bool" where
  "step_viewable s = is_dict (ap_arguments s)"

definition agent_route ::
  "route_env \<Rightarrow> 'v tool_env \<Rightarrow> string \<Rightarrow> principal \<Rightarrow> ask_state \<Rightarrow> ask_state \<times> (exn + agent_result)" where
  "agent_route R E goal p st =
     (case guards R (ae_gw (te_ask E)) ''agent'' True p (gs_ledger (as_gw st)) of
        (l, Inl e) \<Rightarrow> (with_ledger l st, Inl e)
      | (l, Inr _) \<Rightarrow>
          (case agent_service E p goal (request_id R) (with_ledger l st) of
             (st', Inl e) \<Rightarrow> (st', Inl e)
           | (st', Inr r) \<Rightarrow>
               (st'\<lparr> as_audit := record_action (ro_audit_ok R) (ro_now R) p ''agent'' (Some ''/v1/agent'') (Some goal)
                   (Some (take 600 (ar_answer r)))
                   (map (\<lambda>s. JObj [(''tool'', JStr (ap_tool s)), (''arguments'', ap_arguments s)]) (ar_steps r))
                   [(''request_id'', JStr (request_id R)), (''iterations'', JInt (int (ar_iterations r)))]
                   (as_audit st') \<rparr>,
                if list_all step_viewable (ar_steps r) then Inr r else Inl (OtherExc ''ValidationError''))))"

section \<open>Lemmas\<close>

text \<open>The interface of the loop: its two functions keep a preorder on the states, and so does a whole run.\<close>

locale tool_loop =
  fixes R :: "'s \<Rightarrow> 's \<Rightarrow> bool" and chat :: "'s chat" and dispatch :: "'s dispatcher"
  assumes R_refl: "R s s"
    and R_trans: "R a b \<Longrightarrow> R b c \<Longrightarrow> R a c"
    and chat_keeps: "R s (fst (chat ms tools s))"
    and dispatch_keeps: "R s (fst (dispatch name args s))"
begin

lemma run_calls_keeps: "R s (fst (run_calls pt dispatch tcs s))"
proof (induction tcs arbitrary: s)
  case (Cons tc tcs)
  show ?case
  proof (cases "call_arguments tc")
    case (Inl e)
    then show ?thesis by (simp add: R_refl)
  next
    case (Inr args)
    obtain s1 r where d: "dispatch (tc_name tc) args s = (s1, r)" by fastforce
    have "R s s1" using dispatch_keeps [of s "tc_name tc" args] d by simp
    moreover have "R s1 (fst (run_calls pt dispatch tcs s1))" by (rule Cons.IH)
    ultimately show ?thesis using Inr d R_trans by (simp add: Let_def split_beta)
  qed
qed (simp add: R_refl)

lemma loop_keeps: "R s (fst (agent_loop pt chat dispatch tools n i ms steps s))"
proof (induction n arbitrary: i ms steps s)
  case 0
  then show ?case using chat_keeps by (simp add: split_beta)
next
  case (Suc n)
  obtain s1 r where c: "chat ms tools s = (s1, r)" by fastforce
  have r1: "R s s1" using chat_keeps [of s ms tools] c by simp
  show ?case
  proof (cases r)
    case (Inl e)
    then show ?thesis using c r1 by simp
  next
    case (Inr m)
    obtain s2 r2 where t: "run_calls pt dispatch (am_tool_calls m) s1 = (s2, r2)" by fastforce
    have "R s s2" using r1 run_calls_keeps [of s1 pt "am_tool_calls m"] t R_trans by fastforce
    then show ?thesis using c Inr t r1 Suc.IH R_trans by (cases r2) (auto split: prod.split)
  qed
qed

end

lemma chat_sovereign: "stays_sovereign G (ga_tenant_id a) st (fst (gateway_chat G a ms tools st))"
proof -
  let ?rq = "adapter_request a (decimal_json 1 0) (Some AGENT_MAX_TOKENS)"
  have "ctx_tenant_id (gq_ctx ?rq) = ga_tenant_id a" by (simp add: adapter_request_def adapter_ctx_def)
  moreover have "as_gw (fst (gateway_chat G a ms tools st)) = fst (complete_with_tools G ?rq ms tools (as_gw st))"
    by (simp add: gateway_chat_def adapter_chat_with_tools_def split_beta)
  ultimately show ?thesis
    using tool_calling.locked_extends [of G ?rq "as_gw st" ms tools] by (simp add: stays_sovereign_def)
qed

interpretation agent: tool_loop
    "stays_sovereign (ae_gw (te_ask E)) (pp_tenant_id p)"
    "gateway_chat (ae_gw (te_ask E)) (agent_adapter p rid)" "\<lambda>name args. dispatch_tool E name (pp_tenant_id p) args"
  for E p rid
proof unfold_locales
  show "stays_sovereign (ae_gw (te_ask E)) (pp_tenant_id p) s
      (fst (gateway_chat (ae_gw (te_ask E)) (agent_adapter p rid) ms tools s))" for s ms tools
    using chat_sovereign [of _ "agent_adapter p rid"] by (simp add: agent_adapter_def)
qed (auto intro: stays_sovereign_trans dispatch_sovereign)

text \<open>What the tools of one reply add to the transcript.\<close>

lemma run_calls_turns:
  "run_calls pt f tcs s = (s', Inr (steps, msgs)) \<Longrightarrow>
     \<exists>rs. length rs = length tcs \<and> msgs = map (\<lambda>(tc, r). tool_turn tc r) (zip tcs rs)"
proof (induction tcs arbitrary: s s' steps msgs)
  case (Cons tc tcs)
  obtain args where a: "call_arguments tc = Inr args" using Cons.prems by (auto split: sum.splits)
  obtain s1 r where d: "f (tc_name tc) args s = (s1, r)" by fastforce
  obtain s2 r2 where t: "run_calls pt f tcs s1 = (s2, r2)" by fastforce
  obtain st2 ms2 where r2: "r2 = Inr (st2, ms2)" using Cons.prems a d t by (cases r2) (auto simp: Let_def)
  let ?result = "case r of Inr x \<Rightarrow> x | Inl e \<Rightarrow> error_text pt e"
  obtain rs where "length rs = length tcs" "ms2 = map (\<lambda>(tc, r). tool_turn tc r) (zip tcs rs)"
    using Cons.IH t r2 by blast
  then have "length (?result # rs) = length (tc # tcs) \<and>
      msgs = map (\<lambda>(tc, r). tool_turn tc r) (zip (tc # tcs) (?result # rs))"
    using Cons.prems a d t r2 by (simp add: Let_def)
  then show ?case by blast
qed simp

text \<open>
  A transcript is answered when the tool calls of every assistant message are answered, in order, by the tool
  messages right behind it, and no other tool message occurs: what the chat API demands.
\<close>

definition turn_role :: "jdict \<Rightarrow> json" where
  "turn_role d = dget d ''role''"

definition asked_ids :: "jdict \<Rightarrow> json list" where
  "asked_ids d =
     (if turn_role d = JStr ''assistant''
      then (case dget d ''tool_calls'' of JList cs \<Rightarrow> map (\<lambda>c. case c of JObj x \<Rightarrow> dget x ''id'' | _ \<Rightarrow> JNull) cs | _ \<Rightarrow> [])
      else [])"

function answered :: "jdict list \<Rightarrow> bool" where
  "answered [] = True"
| "answered (d # ds) =
     (let ids = asked_ids d; k = length ids in
       turn_role d \<noteq> JStr ''tool'' \<and> k \<le> length ds \<and>
       list_all (\<lambda>t. turn_role t = JStr ''tool'') (take k ds) \<and>
       map (\<lambda>t. dget t ''tool_call_id'') (take k ds) = ids \<and> answered (drop k ds))"
  by pat_completeness auto
termination
  by (relation "measure length") auto

lemma answered_append: "answered xs \<Longrightarrow> answered ys \<Longrightarrow> answered (xs @ ys)"
proof (induction xs rule: answered.induct)
  case (2 d ds)
  let ?k = "length (asked_ids d)"
  have "?k \<le> length ds" "answered (drop ?k ds)" using "2.prems"(1) by (simp_all add: Let_def)
  then have "answered (drop ?k ds @ ys)" using "2.IH" [OF refl refl] "2.prems"(2) by simp
  then show ?case using "2.prems"(1) by (simp add: Let_def)
qed simp

lemma turn_keys [simp]:
  "turn_role (assistant_turn m) = JStr ''assistant''" "turn_role (tool_turn tc r) = JStr ''tool''"
  "dget (tool_turn tc r) ''tool_call_id'' = JStr (tc_id tc)"
  "asked_ids (assistant_turn m) = map (\<lambda>tc. JStr (tc_id tc)) (am_tool_calls m)"
  by (simp_all add: turn_role_def assistant_turn_def tool_turn_def asked_ids_def dget_def dget_or_def call_json_def comp_def)

lemma answered_block:
  assumes "length rs = length (am_tool_calls m)"
  shows "answered (assistant_turn m # map (\<lambda>(tc, r). tool_turn tc r) (zip (am_tool_calls m) rs))"
proof -
  have "map (\<lambda>x. JStr (tc_id (fst x))) (zip (am_tool_calls m) rs) =
      map (\<lambda>tc. JStr (tc_id tc)) (map fst (zip (am_tool_calls m) rs))" by (simp only: map_map comp_def)
  then have "map (\<lambda>x. JStr (tc_id (fst x))) (zip (am_tool_calls m) rs) = map (\<lambda>tc. JStr (tc_id tc)) (am_tool_calls m)"
    using assms by (simp only: map_fst_zip)
  then show ?thesis using assms by (auto simp: Let_def list_all_iff split_beta comp_def)
qed

lemma answered_first: "answered (first_turns goal)" "answered [wrap_up_turn]"
  by (simp_all add: first_turns_def wrap_up_turn_def asked_ids_def turn_role_def dget_def dget_or_def)

text \<open>A chat and a dispatcher that note the transcripts sent.\<close>

definition noting_chat :: "'s chat \<Rightarrow> (jdict list list \<times> 's) chat" where
  "noting_chat c ms tools s = (case c ms tools (snd s) of (s', r) \<Rightarrow> ((fst s @ [ms], s'), r))"

definition noting_tools :: "'s dispatcher \<Rightarrow> (jdict list list \<times> 's) dispatcher" where
  "noting_tools f name args s = (case f name args (snd s) of (s', r) \<Rightarrow> ((fst s, s'), r))"

lemma run_calls_noting: "run_calls pt (noting_tools f) tcs s = (s', r) \<Longrightarrow> fst s' = fst s"
proof (induction tcs arbitrary: s s' r)
  case (Cons tc tcs)
  show ?case
  proof (cases "call_arguments tc")
    case (Inl e)
    then show ?thesis using Cons.prems by simp
  next
    case (Inr args)
    obtain s1 r1 where d: "noting_tools f (tc_name tc) args s = (s1, r1)" by fastforce
    obtain s2 r2 where t: "run_calls pt (noting_tools f) tcs s1 = (s2, r2)" by fastforce
    have "fst s1 = fst s" using d by (auto simp: noting_tools_def split: prod.splits)
    then show ?thesis using Cons.IH [OF t] Cons.prems Inr d t by (auto simp: Let_def)
  qed
qed simp

definition good_transcript :: "string \<Rightarrow> jdict list \<Rightarrow> bool" where
  "good_transcript goal ms = (prefix (first_turns goal) ms \<and> answered ms)"

lemma loop_transcripts:
  assumes "agent_loop pt (noting_chat c) (noting_tools f) tools n i ms steps s = (s', r)" and "good_transcript goal ms"
  shows "\<exists>new. fst s' = fst s @ new \<and> length new \<le> Suc n \<and> list_all (good_transcript goal) new \<and>
    (\<forall>a. r = Inr a \<longrightarrow> i \<le> ar_iterations a \<and> ar_iterations a \<le> i + n \<and> length new \<le> Suc (ar_iterations a - i))"
  using assms
proof (induction n arbitrary: i ms steps s)
  case 0
  obtain g x where c: "c (ms @ [wrap_up_turn]) [] (snd s) = (g, x)" by fastforce
  have "good_transcript goal (ms @ [wrap_up_turn])"
    using 0(2) answered_append answered_first(2) unfolding good_transcript_def by (metis prefix_prefix)
  moreover have "fst s' = fst s @ [ms @ [wrap_up_turn]]" using 0(1) c by (auto simp: noting_chat_def)
  moreover have "r = Inr a \<Longrightarrow> ar_iterations a = i" for a using 0(1) c by (auto simp: noting_chat_def try_bind_eq_Inr)
  ultimately show ?case by (intro exI [of _ "[ms @ [wrap_up_turn]]"]) auto
next
  case (Suc n)
  obtain g x where c: "c ms tools (snd s) = (g, x)" by fastforce
  have n: "noting_chat c ms tools s = ((fst s @ [ms], g), x)" using c by (simp add: noting_chat_def)
  have one: "?case" if "fst s' = fst s @ [ms]" "\<And>a. r = Inr a \<Longrightarrow> ar_iterations a = Suc i"
    using that Suc.prems(2) by (intro exI [of _ "[ms]"]) auto
  show ?case
  proof (cases x)
    case (Inl e)
    then show ?thesis using Suc.prems(1) n by (intro one) auto
  next
    case (Inr m)
    show ?thesis
    proof (cases "am_tool_calls m = []")
      case True
      then show ?thesis using Suc.prems(1) n Inr by (intro one) auto
    next
      case False
      obtain s2 y where t: "run_calls pt (noting_tools f) (am_tool_calls m) (fst s @ [ms], g) = (s2, y)" by fastforce
      have f2: "fst s2 = fst s @ [ms]" using run_calls_noting [OF t] by simp
      show ?thesis
      proof (cases y)
        case (Inl e)
        then show ?thesis using Suc.prems(1) n Inr False t f2 by (intro one) auto
      next
        case y: (Inr z)
        obtain st2 msgs where z: "z = (st2, msgs)" by (cases z)
        let ?ms = "ms @ assistant_turn m # msgs"
        obtain rs where rs: "length rs = length (am_tool_calls m)"
          "msgs = map (\<lambda>(tc, r). tool_turn tc r) (zip (am_tool_calls m) rs)"
          using run_calls_turns [OF t [unfolded y z]] by (elim exE conjE)
        have "answered ?ms"
          using Suc.prems(2) answered_append [OF _ answered_block [OF rs(1)]] rs(2) by (simp add: good_transcript_def)
        then have good: "good_transcript goal ?ms"
          using Suc.prems(2) unfolding good_transcript_def by (metis prefix_prefix)
        have "agent_loop pt (noting_chat c) (noting_tools f) tools n (Suc i) ?ms (steps @ st2) s2 = (s', r)"
          using Suc.prems(1) n Inr False t y z by simp
        from Suc.IH [OF this good] obtain new where new: "fst s' = fst s2 @ new" "length new \<le> Suc n"
          "list_all (good_transcript goal) new"
          "\<forall>a. r = Inr a \<longrightarrow> Suc i \<le> ar_iterations a \<and> ar_iterations a \<le> Suc i + n \<and> length new \<le> Suc (ar_iterations a - Suc i)"
          by blast
        then show ?thesis using f2 Suc.prems(2) by (intro exI [of _ "ms # new"]) (fastforce simp: Suc_diff_Suc)
      qed
    qed
  qed
qed

text \<open>The only exception of the calls is that of decoding their arguments: what the tools raise becomes text.\<close>

lemma run_calls_Inl: "run_calls pt f tcs s = (s', Inl e) \<Longrightarrow> \<exists>tc\<in>set tcs. call_arguments tc = Inl e"
proof (induction tcs arbitrary: s)
  case (Cons tc tcs)
  show ?case
  proof (cases "call_arguments tc")
    case (Inr j)
    obtain s1 r s2 r2 where "f (tc_name tc) j s = (s1, r)" "run_calls pt f tcs s1 = (s2, r2)" by fastforce
    then show ?thesis using Cons Inr by (auto simp: Let_def try_bind_eq_Inl)
  qed (use Cons.prems in simp)
qed simp

text \<open>The exceptions that the arguments of a model's calls can raise.\<close>

definition argument_failure :: "'s chat \<Rightarrow> exn \<Rightarrow> bool" where
  "argument_failure c e \<longleftrightarrow>
     (\<exists>ms tools s s' m tc. c ms tools s = (s', Inr m) \<and> tc \<in> set (am_tool_calls m) \<and> call_arguments tc = Inl e)"

lemma loop_answers:
  assumes "\<And>ms tools s. \<exists>s' m. c ms tools s = (s', Inr m)"
  shows "\<exists>s' r. agent_loop pt c f tools n i ms steps s = (s', r) \<and>
    (case r of Inr a \<Rightarrow> ar_iterations a \<le> i + n | Inl e \<Rightarrow> argument_failure c e)"
proof (induction n arbitrary: i ms steps s)
  case 0
  obtain s' m where "c (ms @ [wrap_up_turn]) [] s = (s', Inr m)" using assms by blast
  then show ?case by simp
next
  case (Suc n)
  obtain s1 m where c: "c ms tools s = (s1, Inr m)" using assms by blast
  obtain s2 r where t: "run_calls pt f (am_tool_calls m) s1 = (s2, r)" by fastforce
  show ?case
  proof (cases r)
    case (Inl e)
    then have "argument_failure c e" using run_calls_Inl [of pt f] t c unfolding argument_failure_def by blast
    then show ?thesis using c t Inl by simp
  next
    case (Inr x)
    then show ?thesis
      using c t Suc.IH [of "Suc i" "ms @ assistant_turn m # snd x" "steps @ fst x" s2] by (cases x) (auto split: sum.splits)
  qed
qed

section \<open>Properties\<close>

text \<open>
  C15. The agent is bounded and every transcript it sends is well formed, whatever the model and the tools do: with a
  budget of \<open>n\<close> steps the model is asked at most \<open>n + 1\<close> times, each time with a transcript that starts with the
  system prompt and the goal and in which every tool call is answered by exactly the tool messages behind it.
\<close>

theorem agent_transcripts:
  "case agent_run pt (Some (noting_chat c)) (noting_tools f) n slug goal ([], s) of
     ((sent, s'), r) \<Rightarrow> length sent \<le> n + 1 \<and> list_all (good_transcript goal) sent \<and>
       (case r of Inl e \<Rightarrow> True | Inr a \<Rightarrow> ar_iterations a \<le> n \<and> length sent \<le> ar_iterations a + 1)"
proof -
  obtain s' r where run: "agent_run pt (Some (noting_chat c)) (noting_tools f) n slug goal ([], s) = (s', r)" by fastforce
  have good: "good_transcript goal (first_turns goal)" by (simp add: good_transcript_def answered_first)
  obtain new where new: "fst s' = new" "length new \<le> Suc n" "list_all (good_transcript goal) new"
    "\<forall>a. r = Inr a \<longrightarrow> ar_iterations a \<le> n \<and> length new \<le> Suc (ar_iterations a)"
    using loop_transcripts [OF run [unfolded agent_run_def option.case] good] by auto
  then show ?thesis using run by (auto split: prod.split sum.split)
qed

text \<open>
  C31. The agent answers whenever its model replies, unless the decoder chokes on the arguments of a call: with a model
  that always replies, a run ends with an answer within the budget, even if it asks for tools for ever and every
  tool fails; the only other outcome is the exception that decoding the arguments of one of the model's calls raises,
  which is not the \<open>JSONDecodeError\<close> that the loop catches.
\<close>

theorem agent_answers:
  assumes "\<And>ms tools s. \<exists>s' m. c ms tools s = (s', Inr m)"
  shows "\<exists>s' r. agent_run pt (Some c) f n slug goal s = (s', r) \<and>
    (case r of
       Inr a \<Rightarrow> ar_iterations a \<le> n
     | Inl e \<Rightarrow> e \<noteq> decode_error \<and>
         (\<exists>ms tools s s' m tc. c ms tools s = (s', Inr m) \<and> tc \<in> set (am_tool_calls m) \<and> call_arguments tc = Inl e))"
proof -
  obtain s' r where r: "agent_run pt (Some c) f n slug goal s = (s', r)"
    "case r of Inl e \<Rightarrow> argument_failure c e | Inr a \<Rightarrow> ar_iterations a \<le> 0 + n"
    using loop_answers [where c = c and pt = pt and f = f and n = n and i = 0 and ms = "first_turns goal" and steps = "[]" and s = s and
        tools = "openai_tools (if slug = [] then ''your corpus'' else slug)", OF assms] by (auto simp: agent_run_def)
  moreover have "call_arguments tc \<noteq> Inl decode_error" for tc
    by (auto simp: call_arguments_def split: sum.splits if_splits)
  ultimately show ?thesis by (intro exI [of _ s'] exI [of _ r]) (auto simp: argument_failure_def split: sum.splits)
qed

text \<open>
  C14. The agent's model calls respect the sovereign lock: for a tenant whose policy forbids cloud models, every chat
  request of a run, those of its own turns and those of the answers its tools ask for, goes to one endpoint, which is
  \<open>LLM_BASE_URL\<close> where it is set, whatever the SDK's default is.  Embedding and reranking the queries of the tools are
  not chat requests; the lock does not reach them.
\<close>

theorem agent_sovereign:
  assumes "resolve_policy (load_tenant_settings (e_db (ae_gw (te_ask E))) (pp_tenant_id p)) = Inr pol"
    and "\<not> allow_cloud pol"
  shows "\<exists>new. gs_trace (as_gw (fst (agent_service E p goal rid st))) = gs_trace (as_gw st) @ new \<and>
    (\<forall>c\<in>set new. client_endpoint dflt (call_client c) =
      (case llm_base_url (e_settings (ae_gw (te_ask E))) of Some url \<Rightarrow> url | None \<Rightarrow> dflt))"
proof -
  have "cloud_locked (ae_gw (te_ask E)) (pp_tenant_id p)" using assms by (simp add: cloud_locked_def)
  then have "extends (sovereign_call (ae_gw (te_ask E))) (gs_trace (as_gw st))
      (gs_trace (as_gw (fst (agent_service E p goal rid st))))"
    using agent.loop_keeps [of E p st] by (simp add: agent_service_def agent_run_def stays_sovereign_def)
  then show ?thesis by (fastforce simp: extends_def list_all_iff sovereign_call_def)
qed

text \<open>
  One call whose arguments are JSON but no object costs the whole run: the step is kept, the run is answered,
  metered and written to the audit log, and then the response cannot be built.
\<close>

theorem odd_arguments_lose_answer:
  assumes "guards R (ae_gw (te_ask E)) ''agent'' True p (gs_ledger (as_gw st)) = (l, Inr u)"
    and "agent_service E p goal (request_id R) (with_ledger l st) = (st', Inr r)"
    and "x \<in> set (ar_steps r)" and "\<not> is_dict (ap_arguments x)" and "ro_audit_ok R"
  shows "\<exists>st2 row. agent_route R E goal p st = (st2, Inl (OtherExc ''ValidationError'')) \<and>
    as_audit st2 = as_audit st' @ [row] \<and> au_summary row = none_if_empty (Some (take 600 (ar_answer r))) \<and>
    gs_trace (as_gw st2) = gs_trace (as_gw st')"
proof -
  have "\<not> list_all step_viewable (ar_steps r)" using assms(3,4) by (auto simp: list_all_iff step_viewable_def)
  then show ?thesis using assms(1,2,5) by (simp add: agent_route_def record_action_def)
qed

section \<open>Witnesses\<close>

text \<open>A model that asks for a tool in every reply, and tools that always fail.\<close>

definition restless_chat :: "unit chat" where
  "restless_chat ms tools s = (s, Inr \<lparr> am_content = None,
     am_tool_calls = [\<lparr> tc_id = ''c1'', tc_name = ''ask'', tc_arguments = ''{}'' \<rparr>] \<rparr>)"

definition failing_tool :: "unit dispatcher" where
  "failing_tool name args s = (s, Inl (PyExc (KeyError ''question'')))"

definition restless_call :: tool_call where
  "restless_call = \<lparr> tc_id = ''c1'', tc_name = ''ask'', tc_arguments = ''{}'' \<rparr>"

lemma restless_reply: "restless_chat ms tools s = (s, Inr \<lparr> am_content = None, am_tool_calls = [restless_call] \<rparr>)"
  by (simp add: restless_chat_def restless_call_def)

lemma restless_arguments: "call_arguments restless_call = Inr (JObj [])"
  by code_simp

lemma restless_loop:
  "\<exists>r. agent_loop pt restless_chat failing_tool tools (Suc 0) 0 ms [] s = (s, Inr r) \<and>
     map ap_preview (ar_steps r) = [take 500 (''tool error: '' @ pt (KeyError ''question''))]"
  by (simp add: restless_reply restless_arguments failing_tool_def error_text_def Let_def try_bind_def)

theorem agent_answers_witness:
  "\<exists>a. agent_run (\<lambda>x. ''boom'') (Some restless_chat) failing_tool (Suc 0) ''acme'' ''go'' () = ((), Inr a) \<and>
     ar_iterations a \<le> Suc 0 \<and> map ap_preview (ar_steps a) = [take 500 (''tool error: '' @ ''boom'')]"
proof -
  have c: "\<exists>s' m. restless_chat ms tools s = (s', Inr m)" for ms tools s by (simp add: restless_reply)
  obtain s' x where x: "agent_run (\<lambda>x. ''boom'') (Some restless_chat) failing_tool (Suc 0) ''acme'' ''go'' () = (s', x)"
    "case x of Inr a \<Rightarrow> ar_iterations a \<le> Suc 0 | Inl e \<Rightarrow> True"
    using agent_answers [where c = restless_chat and pt = "\<lambda>x. ''boom''" and f = failing_tool and n = "Suc 0" and
      slug = "''acme''" and goal = "''go''" and s = "()", OF c]
    by (elim exE conjE) (rename_tac s' x, case_tac x, fastforce+)
  obtain r where r: "agent_run (\<lambda>x. ''boom'') (Some restless_chat) failing_tool (Suc 0) ''acme'' ''go'' () = ((), Inr r)"
    "map ap_preview (ar_steps r) = [take 500 (''tool error: '' @ ''boom'')]"
    unfolding agent_run_def option.case
    using restless_loop [of "\<lambda>x. ''boom''" "openai_tools (if ''acme'' = [] then ''your corpus'' else ''acme'')" "first_turns ''go''" "()"]
    by (elim exE conjE)
  have "x = Inr r" using x(1) r(1) by (simp only: prod.inject)
  then have "ar_iterations r \<le> Suc 0" using x(2) by simp
  then show ?thesis using r by (intro exI [of _ r] conjI)
qed

text \<open>A deployment whose model asks for the recent documents with a list as arguments, and then answers.\<close>

definition odd_call :: tool_call where
  "odd_call = \<lparr> tc_id = ''c1'', tc_name = ''list_recent'', tc_arguments = ''[]'' \<rparr>"

definition odd_reply :: "nat \<Rightarrow> assistant_message" where
  "odd_reply n = (if n = 0 then \<lparr> am_content = None, am_tool_calls = [odd_call] \<rparr>
     else \<lparr> am_content = Some ''done'', am_tool_calls = [] \<rparr>)"

definition acting_env :: gw_env where
  "acting_env = (sample_env (Some ''http://vllm/v1'') no_cloud)\<lparr> e_tools := (\<lambda>n _. Inr [odd_reply n]) \<rparr>"

lemma acting_reply:
  assumes "ctx_tenant_id (gq_ctx rq) = ''t1''"
  shows "\<exists>g. complete_with_tools acting_env rq ms tools st = (g, Inr (odd_reply (length (gs_trace st)))) \<and>
    length (gs_trace g) = Suc (length (gs_trace st))"
proof -
  let ?E = acting_env
  let ?q = "snd (hd (available_targets (e_settings ?E)))"
  have load: "load_tenant_settings (e_db ?E) (ctx_tenant_id (gq_ctx rq)) = sample_policy no_cloud"
    by (simp add: assms acting_env_def sample_env_def load_tenant_settings_def)
  have chain: "resolve_target_chain (sample_policy no_cloud) (e_settings ?E) = Inr [?q]"
    by (simp add: resolve_target_chain_def sample_policy_def gateway_get_def dget_def dget_or_def
        por_def pick_targets_def List.map_filter_def available_targets_def sample_env_def acting_env_def)
  have lock: "lock_chain no_cloud_policy [?q] = Inr [?q]"
    by (simp add: lock_chain_def no_cloud_policy_def available_targets_def)
  have quota: "\<exists>x. enforce_quota_service (e_settings ?E) (e_db ?E) (e_now ?E (gs_writes st))
      (gs_ledger st) (gq_ctx rq) (Given (Some (case sample_policy no_cloud of None \<Rightarrow> [] | Some d \<Rightarrow> d))) = Inr x"
    by (simp add: enforce_quota_service_def check_def resolve_limits_def gateway_block_def
        gateway_get_def sample_policy_def dget_def dget_or_def por_def coerce_int_def int_or_def
        sample_env_def acting_env_def default_settings_def has_any_def)
  have gate: "gate ?E st (gq_ctx rq) = Inr ([?q], no_cloud_policy)"
    using quota by (auto simp: gate_def Let_def load no_cloud_resolved chain lock)
  have scr: "screen_step ?E (gq_ctx rq) (map RawMsg ms) no_cloud_policy st = (st, Inr ())"
    by (simp add: screen_step_def no_cloud_policy_def)
  have run: "complete_with_tools ?E rq ms tools st = tools_loop ?E rq ms tools no_cloud_policy None [?q] st"
    by (simp add: complete_with_tools_def gate scr)
  have client: "active_client (bound ?E ?q) (e_secrets ?E) = Inr (OpenAIClient (Some ''sk'') (Some ''http://vllm/v1''))"
    by (simp add: active_client_def build_client_def bound_def get_llm_for_target_def
        available_targets_def sample_env_def acting_env_def)
  have req: "sdk_request (e_tools ?E) (bound ?E ?q) (e_secrets ?E) mk tr =
      (tr @ [mk (OpenAIClient (Some ''sk'') (Some ''http://vllm/v1''))], Inr [odd_reply (length tr)])" for mk tr
    by (simp add: sdk_request_def client) (simp add: acting_env_def)
  have ok: "enforce no_cloud_policy (Some (tgt_model ?q)) = Inr ()"
    by (simp add: enforce_def no_cloud_policy_def)
  have has: "has_chat_with_tools (get_llm_for_target (e_settings ?E) ?q)" by (simp add: get_llm_for_target_def)
  show ?thesis by (simp add: run ok has openai_chat_with_tools_def req meter_ok_def meter_def)
qed

definition acting_tools :: "unit tool_env" where
  "acting_tools = \<lparr> te_ask = sample_ask\<lparr> ae_gw := acting_env \<rparr>, te_docs = [], te_fresh = (\<lambda>n. ''s''),
     te_exc_text = (\<lambda>x. ''no get''), te_limit_error = [], te_rerank_negative = (\<lambda>q hs k. Inr hs) \<rparr>"

lemma acting_run:
  assumes "gs_trace (as_gw st) = []"
  shows "\<exists>st' r. agent_service acting_tools sample_principal goal rid st = (st', Inr r) \<and>
    map ap_arguments (ar_steps r) = [JList []] \<and> ar_answer r = ''done'' \<and> length (gs_trace (as_gw st')) = 2"
proof -
  let ?chat = "gateway_chat acting_env (agent_adapter sample_principal rid)"
  let ?f = "\<lambda>name args. dispatch_tool acting_tools name (pp_tenant_id sample_principal) args"
  have ctx: "ctx_tenant_id (gq_ctx (adapter_request (agent_adapter sample_principal rid) t n)) = ''t1''" for t n
    by (simp add: adapter_request_def adapter_ctx_def agent_adapter_def sample_principal_def)
  have chat: "\<exists>s'. ?chat ms tools s = (s', Inr (odd_reply (length (gs_trace (as_gw s))))) \<and>
      length (gs_trace (as_gw s')) = Suc (length (gs_trace (as_gw s)))" for ms tools s
    using acting_reply [OF ctx, of "decimal_json 1 0" "Some AGENT_MAX_TOKENS" ms tools "as_gw s"]
    by (auto simp: gateway_chat_def adapter_chat_with_tools_def)
  have arg: "call_arguments odd_call = Inr (JList [])" by code_simp
  have d: "?f (tc_name odd_call) (JList []) s = (s, Inl (PyExc AttributeError))" for s
    by (simp add: dispatch_tool_def odd_call_def list_tool_def try_bind_def)
  let ?tools = "openai_tools (if pp_tenant_slug sample_principal = [] then ''your corpus'' else pp_tenant_slug sample_principal)"
  obtain s1 where s1: "?chat (first_turns goal) ?tools st = (s1, Inr (odd_reply 0))" "length (gs_trace (as_gw s1)) = 1"
    using chat [of "first_turns goal" ?tools st] assms by auto
  obtain x msgs where x: "run_calls (te_exc_text acting_tools) ?f [odd_call] s1 = (s1, Inr ([x], msgs))" "ap_arguments x = JList []"
    using d [of s1] arg by (auto simp: Let_def)
  obtain s2 where s2: "?chat (first_turns goal @ assistant_turn (odd_reply 0) # msgs) ?tools s1 = (s2, Inr (odd_reply 1))"
    "length (gs_trace (as_gw s2)) = 2"
    using chat [of "first_turns goal @ assistant_turn (odd_reply 0) # msgs" ?tools s1] s1(2) by auto
  have g: "ae_gw (te_ask acting_tools) = acting_env" by (simp add: acting_tools_def)
  have six: "MAX_STEPS = Suc (Suc 4)" by (simp add: MAX_STEPS_def)
  have r: "am_tool_calls (odd_reply 0) = [odd_call]" "am_tool_calls (odd_reply 1) = []" "content_text (odd_reply 1) = ''done''"
    by (simp_all add: odd_reply_def content_text_def or_str_def str_true_def)
  show ?thesis unfolding agent_service_def agent_run_def g six option.case agent_loop.simps(2) s1(1) prod.case sum.case r(1)
    using x(2) s2(2) by (simp del: run_calls.simps add: x(1) s2(1) r r [unfolded One_nat_def])
qed

theorem agent_sovereign_witness:
  "\<exists>new. gs_trace (as_gw (fst (agent_service acting_tools sample_principal ''go'' ''r'' fresh_state))) = new \<and>
     length new = 2 \<and> (\<forall>c\<in>set new. client_endpoint ''https://api.openai.com/v1'' (call_client c) = ''http://vllm/v1'')"
proof -
  have pol: "resolve_policy (load_tenant_settings (e_db (ae_gw (te_ask acting_tools))) (pp_tenant_id sample_principal)) =
      Inr no_cloud_policy" "\<not> allow_cloud no_cloud_policy"
    by (simp_all add: acting_tools_def sample_principal_def acting_env_def sample_env_def load_tenant_settings_def
        no_cloud_resolved no_cloud_policy_def)
  have e: "gs_trace (as_gw fresh_state) = []" by (simp add: fresh_state_def sample_state_def)
  have u: "llm_base_url (e_settings (ae_gw (te_ask acting_tools))) = Some ''http://vllm/v1''"
    by (simp add: acting_tools_def acting_env_def sample_env_def)
  show ?thesis using agent_sovereign [OF pol, of "''go''" "''r''" fresh_state "''https://api.openai.com/v1''"]
      acting_run [OF e, of "''go''" "''r''"] by (auto simp: e u)
qed

definition open_route :: route_env where
  "open_route = \<lparr> ro_tenants = [], ro_ledger_ok = True, ro_audit_ok = True, ro_now = 1, ro_require_byok = False,
     ro_header_id = None, ro_fresh_hex = ''ff'', ro_float_repr = (\<lambda>_. []) \<rparr>"

lemma open_guards: "guards open_route acting_env ''agent'' True sample_principal [] = ([], Inr ())"
  by code_simp

theorem odd_arguments_lose_answer_witness:
  "\<exists>st2 row. agent_route open_route acting_tools ''go'' sample_principal fresh_state =
     (st2, Inl (OtherExc ''ValidationError'')) \<and> row \<in> set (as_audit st2) \<and> au_summary row = Some ''done'' \<and>
     length (gs_trace (as_gw st2)) = 2"
proof -
  have e: "gs_ledger (as_gw fresh_state) = []" "gs_trace (as_gw (with_ledger [] fresh_state)) = []"
    by (simp_all add: fresh_state_def sample_state_def with_ledger_def)
  have g: "guards open_route (ae_gw (te_ask acting_tools)) ''agent'' True sample_principal (gs_ledger (as_gw fresh_state)) = ([], Inr ())"
    using open_guards by (simp add: e acting_tools_def)
  obtain st' r where run: "agent_service acting_tools sample_principal ''go'' (request_id open_route) (with_ledger [] fresh_state) = (st', Inr r)"
    "map ap_arguments (ar_steps r) = [JList []]" "ar_answer r = ''done''" "length (gs_trace (as_gw st')) = 2"
    using acting_run [OF e(2), of "''go''" "request_id open_route"] by (elim exE conjE)
  then obtain x where x: "x \<in> set (ar_steps r)" "\<not> is_dict (ap_arguments x)" by (cases "ar_steps r") (auto simp: is_dict_def)
  have ok: "ro_audit_ok open_route" by (simp add: open_route_def)
  show ?thesis using odd_arguments_lose_answer [OF g run(1) x ok] run(3,4) by (auto simp: none_if_empty_def)
qed

end
