(* ===== verification/Parsers.thy ===== *)
theory Parsers
  imports Parsing Validators IngestPipeline
begin

text \<open>
  The parsers over third-party libraries: PDF with its three stages (\<open>indexing/parsers/pdf.py\<close>), Word
  (\<open>docx.py\<close>) and HTML (\<open>html.py\<close>).  What the libraries extract (pages and their blocks, paragraphs and their
  styles, the tree of tags) is a parameter; what the code makes of it is modelled.
\<close>

section \<open>Blocks in sequence\<close>

text \<open>What a loop over texts appends: each block behind the last one and the two characters that join them.\<close>

record piece =
  pi_text :: string
  pi_type :: block_type
  pi_page :: "int option"
  pi_section :: "string option"

fun lay_blocks :: "nat \<Rightarrow> piece list \<Rightarrow> parsed_block list" where
  "lay_blocks n [] = []"
| "lay_blocks n (p # ps) =
     \<lparr> pb_text = pi_text p, pb_type = pi_type p, pb_page = pi_page p, pb_section = pi_section p,
       pb_start = Some (int n), pb_end = Some (int (n + length (pi_text p))) \<rparr>
     # lay_blocks (n + length (pi_text p) + 2) ps"

text \<open>\<open>text.split(sep)\<close> for a separator that is not empty.\<close>

function split_str :: "'a list \<Rightarrow> 'a list \<Rightarrow> 'a list list" where
  "split_str sep s =
     (case find_sub sep s of
        None \<Rightarrow> [s]
      | Some i \<Rightarrow> if sep = [] then [s] else take i s # split_str sep (drop (i + length sep) s))"
  by pat_completeness auto
termination
proof (relation "measure (\<lambda>(sep, s). length s)")
  fix sep s :: "'a list" and i
  assume "find_sub sep s = Some i" and ne: "sep \<noteq> []"
  then obtain t where "s = take i s @ sep @ t" "i \<le> length s" using find_sub_Some by blast
  then have "length s = i + length sep + length t" by (metis add.assoc length_append length_take min.absorb2)
  then show "((sep, drop (i + length sep) s), sep, s) \<in> measure (\<lambda>(sep, s). length s)" using ne by (cases sep) auto
qed simp

declare split_str.simps [simp del]

definition file_stem :: "string \<Rightarrow> string" where
  "file_stem f = rsplit_head (CHR ''.'') (rsplit_last (CHR ''/'') f)"

text \<open>\<open>str.isupper\<close> on Latin-1 text: a letter in upper case and none in lower case.\<close>

definition upper_letter :: "char \<Rightarrow> bool" where
  "upper_letter c = (let n = code c in (65 \<le> n \<and> n \<le> 90) \<or> (192 \<le> n \<and> n \<le> 222 \<and> n \<noteq> 215))"

definition lower_letter :: "char \<Rightarrow> bool" where
  "lower_letter c =
     (let n = code c in (97 \<le> n \<and> n \<le> 122) \<or> n = 170 \<or> n = 181 \<or> n = 186 \<or> (223 \<le> n \<and> n \<noteq> 247))"

definition str_isupper :: "string \<Rightarrow> bool" where
  "str_isupper s = (list_ex upper_letter s \<and> \<not> list_ex lower_letter s)"

section \<open>PDF\<close>

text \<open>
  A page gives its text, the texts of its blocks (\<open>None\<close> for an image) and what OCR reads on it or the message it
  fails with; a file has the title of its metadata.
\<close>

record pdf_page =
  pg_text :: "string option"
  pg_blocks :: "string option list"
  pg_ocr :: "string + string option"

record pdf_file =
  pf_title :: "string option"
  pf_pages :: "pdf_page list"

text \<open>PyMuPDF opens the file or fails with a message; pdfminer is installed or not and extracts a text or fails.\<close>

record pdf_env =
  px_open :: "string \<Rightarrow> string + pdf_file"
  px_miner_installed :: bool
  px_miner :: "string \<Rightarrow> string + string option"

definition infer_block_type :: "string \<Rightarrow> block_type" where
  "infer_block_type t =
     (let s = strip t in
       if length s < 100 \<and> str_isupper s then Heading
       else if str_isdigit (rstrip_of (\<lambda>c. c = CHR '' '' \<or> c = CHR ''.'') (take 3 s)) \<and> length s < 200 then Heading
       else Paragraph)"

definition opt_text :: "string option \<Rightarrow> string" where
  "opt_text x = (case x of None \<Rightarrow> [] | Some s \<Rightarrow> s)"

definition paragraphs :: "string \<Rightarrow> string list" where
  "paragraphs t = filter (\<lambda>p. p \<noteq> []) (map strip (split_str nl2 t))"

definition page_pieces :: "int \<Rightarrow> string list \<Rightarrow> piece list" where
  "page_pieces n ts = map (\<lambda>t. \<lparr> pi_text = t, pi_type = infer_block_type t, pi_page = Some n, pi_section = None \<rparr>) ts"

definition pymupdf_texts :: "pdf_page \<Rightarrow> string list" where
  "pymupdf_texts p =
     (let bs = filter (\<lambda>b. b \<noteq> []) (map (\<lambda>b. strip (opt_text b)) (pg_blocks p)) in
       if bs = [] \<and> strip (opt_text (pg_text p)) \<noteq> [] then paragraphs (opt_text (pg_text p)) else bs)"

definition numbered :: "'a list \<Rightarrow> (int \<times> 'a) list" where
  "numbered xs = map (\<lambda>(i, x). (int i, x)) (enumerate 1 xs)"

definition parse_with_pymupdf :: "pdf_file \<Rightarrow> string option \<Rightarrow> exn + parsed_document" where
  "parse_with_pymupdf f filename =
     (let blocks = lay_blocks 0 (concat (map (\<lambda>(n, p). page_pieces n (pymupdf_texts p)) (numbered (pf_pages f))));
          chars = sum_list (map (\<lambda>p. length (opt_text (pg_text p))) (pf_pages f));
          avg = rat_of_nat chars / rat_of_nat (max (length (pf_pages f)) 1)
      in if blocks = []
         then Inl (ParserError (''PyMuPDF extracted no text - PDF may be scanned/image-based '' @
           ''(no embedded text layer). OCR fallback isn't enabled in '' @
           ''this build; try a born-digital PDF, or OCR the file first.''))
         else Inr \<lparr> pd_title = (if \<not> str_true (pf_title f) \<and> str_true filename then Some (file_stem (the filename)) else pf_title f),
           pd_blocks = blocks,
           pd_metadata = [(''parser'', JStr ''pymupdf''), (''avg_chars_per_page'', decimal_json 2 avg),
             (''low_text_density'', JBool (avg < 50))] \<rparr>)"

definition name_title :: "string option \<Rightarrow> string option" where
  "name_title filename = (if str_true filename then Some (file_stem (the filename)) else None)"

definition parse_with_unstructured :: "pdf_env \<Rightarrow> string \<Rightarrow> string option \<Rightarrow> exn + parsed_document" where
  "parse_with_unstructured E data filename =
     (if \<not> px_miner_installed E
      then Inl (ParserError (''pdfminer.six not installed - needed for browser Save-as-PDF '' @
        ''fallback. Add 'pdfminer.six' to packages/indexing deps and '' @ ''rebuild the api container.''))
      else
        (case px_miner E data of
           Inl m \<Rightarrow> Inl (ParserError (''pdfminer.six failed: '' @ m))
         | Inr t \<Rightarrow>
             if strip (opt_text t) = []
             then Inl (ParserError (''Both PyMuPDF and pdfminer.six returned no text - the PDF '' @
               ''appears to have no embedded text layer (likely scanned). '' @ ''OCR fallback isn't enabled in this build.''))
             else Inr \<lparr> pd_title = name_title filename,
               pd_blocks = lay_blocks 0 (concat (map (\<lambda>(n, p). page_pieces n (paragraphs p))
                 (numbered (split_char (CHR 0x0C) (opt_text t))))),
               pd_metadata = [(''parser'', JStr ''pdfminer.six'')] \<rparr>))"

fun ocr_pages :: "(int \<times> pdf_page) list \<Rightarrow> exn + piece list" where
  "ocr_pages [] = Inr []"
| "ocr_pages ((n, p) # ps) =
     (case pg_ocr p of
        Inl m \<Rightarrow> Inl (ParserError (''OCR failed (Tesseract not available?): '' @ m))
      | Inr t \<Rightarrow> try_bind (ocr_pages ps) (\<lambda>qs. Inr (page_pieces n (paragraphs (opt_text t)) @ qs)))"

definition parse_with_ocr :: "pdf_env \<Rightarrow> string \<Rightarrow> string option \<Rightarrow> exn + parsed_document" where
  "parse_with_ocr E data filename =
     (case px_open E data of
        Inl m \<Rightarrow> Inl (ParserError (''PyMuPDF could not open PDF for OCR: '' @ m))
      | Inr f \<Rightarrow> try_bind (ocr_pages (numbered (pf_pages f))) (\<lambda>ps.
          if ps = []
          then Inl (ParserError (''Tried PyMuPDF, pdfminer.six and Tesseract OCR - none could '' @
            ''extract any text from this PDF. The pages may be blank, '' @ ''encrypted, or contain unrecognisable script.''))
          else Inr \<lparr> pd_title = name_title filename, pd_blocks = lay_blocks 0 ps,
            pd_metadata = [(''parser'', JStr ''tesseract-ocr'')] \<rparr>))"

definition parse_pdf :: "pdf_env \<Rightarrow> string \<Rightarrow> string option \<Rightarrow> exn + parsed_document" where
  "parse_pdf E data filename =
     (case px_open E data of
        Inl m \<Rightarrow> Inl (ParserError (''PyMuPDF failed to open PDF: '' @ m))
      | Inr f \<Rightarrow>
          (case parse_with_pymupdf f filename of
             Inr d \<Rightarrow> Inr d
           | Inl e1 \<Rightarrow>
               (case parse_with_unstructured E data filename of
                  Inr d \<Rightarrow> Inr d
                | Inl e2 \<Rightarrow> parse_with_ocr E data filename)))"

section \<open>Word\<close>

text \<open>A paragraph is its text and the name of its style, if it has one.\<close>

record docx_paragraph =
  dp_text :: "string option"
  dp_style :: "string option"

text \<open>The section path and the title so far.\<close>

record outline =
  ol_path :: "string list"
  ol_title :: "string option"

definition to_level :: "nat \<Rightarrow> string \<Rightarrow> string list \<Rightarrow> string list" where
  "to_level level t path = take (level - 1) path @ [t]"

definition heading_level :: "string \<Rightarrow> exn + nat option" where
  "heading_level style =
     (case py_split style of
        [a, b] \<Rightarrow>
          if str_isdigit b then (case str_int b of None \<Rightarrow> Inl (PyExc ValueError) | Some n \<Rightarrow> Inr (Some (nat n))) else Inr None
      | _ \<Rightarrow> Inr None)"

definition first_title :: "string option \<Rightarrow> string \<Rightarrow> string option" where
  "first_title old t = (if str_true old then old else Some t)"

definition docx_step :: "outline \<Rightarrow> string \<Rightarrow> string \<Rightarrow> exn + outline \<times> block_type" where
  "docx_step o1 style t =
     (if startswith ''Heading'' style
      then try_bind (heading_level style) (\<lambda>lv.
        Inr (\<lparr> ol_path = (case lv of None \<Rightarrow> ol_path o1 | Some n \<Rightarrow> to_level n t (ol_path o1)),
          ol_title = first_title (ol_title o1) t \<rparr>, Heading))
      else if style = ''Title'' then Inr (o1\<lparr> ol_title := first_title (ol_title o1) t \<rparr>, Title)
      else if startswith ''List'' style then Inr (o1, ListItem) else Inr (o1, Paragraph))"

fun docx_pieces :: "outline \<Rightarrow> docx_paragraph list \<Rightarrow> exn + outline \<times> piece list" where
  "docx_pieces o1 [] = Inr (o1, [])"
| "docx_pieces o1 (p # ps) =
     (let t = strip (opt_text (dp_text p)); style = strip (opt_text (dp_style p)) in
       if t = [] then docx_pieces o1 ps
       else try_bind (docx_step o1 style t) (\<lambda>(o2, ty).
         try_bind (docx_pieces o2 ps) (\<lambda>(o3, qs).
           Inr (o3, \<lparr> pi_text = t, pi_type = ty, pi_page = None, pi_section = section_of (ol_path o2) \<rparr> # qs))))"

definition titled :: "string option \<Rightarrow> string option \<Rightarrow> string option" where
  "titled title filename = (if \<not> str_true title \<and> str_true filename then Some (file_stem (the filename)) else title)"

definition parse_docx ::
  "(string \<Rightarrow> string + docx_paragraph list) \<Rightarrow> string \<Rightarrow> string option \<Rightarrow> exn + parsed_document" where
  "parse_docx lib data filename =
     (case lib data of
        Inl m \<Rightarrow> Inl (ParserError (''python-docx failed to open DOCX: '' @ m))
      | Inr ps \<Rightarrow> try_bind (docx_pieces \<lparr> ol_path = [], ol_title = None \<rparr> ps) (\<lambda>(o1, qs).
          Inr \<lparr> pd_title = titled (ol_title o1) filename, pd_blocks = lay_blocks 0 qs,
            pd_metadata = [(''parser'', JStr ''python-docx'')] \<rparr>))"

section \<open>HTML\<close>

text \<open>A tree of BeautifulSoup: texts (comments are texts too) and tags with their children.\<close>

datatype html_node = Text string | Comment string | Tag string "html_node list"

definition BLOCK_TAGS :: "string list" where
  "BLOCK_TAGS = [''p'', ''li'', ''h1'', ''h2'', ''h3'', ''h4'', ''h5'', ''h6'', ''blockquote'', ''pre'']"

definition HEADING_TAGS :: "string list" where
  "HEADING_TAGS = [''h1'', ''h2'', ''h3'', ''h4'', ''h5'', ''h6'']"

definition DROP_TAGS :: "string list" where
  "DROP_TAGS = [''script'', ''style'', ''nav'', ''header'', ''footer'', ''aside'', ''noscript'']"

fun dropped :: "html_node \<Rightarrow> bool" where
  "dropped (Tag name kids) = (name \<in> set DROP_TAGS)"
| "dropped n = False"

fun decompose :: "html_node \<Rightarrow> html_node" where
  "decompose (Tag name kids) = Tag name (map decompose (filter (\<lambda>k. \<not> dropped k) kids))"
| "decompose n = n"

text \<open>\<open>find_all\<close> below a node, in document order.\<close>

fun descendants :: "html_node \<Rightarrow> (string \<times> html_node list) list" where
  "descendants (Tag name kids) = concat (map (\<lambda>k. (case k of Tag n ks \<Rightarrow> [(n, ks)] | _ \<Rightarrow> []) @ descendants k) kids)"
| "descendants n = []"

definition find_tag :: "string \<Rightarrow> html_node \<Rightarrow> (string \<times> html_node list) option" where
  "find_tag name n = find (\<lambda>(m, ks). m = name) (descendants n)"

text \<open>\<open>tag.string\<close>: the text of a tag with a single child, all the way down.\<close>

fun tag_string :: "html_node \<Rightarrow> string option" where
  "tag_string (Text s) = Some s"
| "tag_string (Comment s) = Some s"
| "tag_string (Tag name kids) = (case kids of [k] \<Rightarrow> tag_string k | _ \<Rightarrow> None)"

definition one_spaced :: "string \<Rightarrow> string" where
  "one_spaced s = join '' '' (py_split s)"

fun node_text :: "html_node \<Rightarrow> string" where
  "node_text (Text s) = s"
| "node_text (Comment s) = s"
| "node_text (Tag name kids) = one_spaced (concat (map node_text kids))"

definition stringify :: "html_node list \<Rightarrow> string" where
  "stringify kids = one_spaced (concat (map node_text kids))"

definition html_type :: "string \<Rightarrow> block_type" where
  "html_type name =
     (if name \<in> set HEADING_TAGS then Heading else if name = ''li'' then ListItem
      else if name = ''pre'' then Code else Paragraph)"

definition html_outline :: "string \<Rightarrow> string \<Rightarrow> outline \<Rightarrow> outline" where
  "html_outline name t o1 =
     (if name \<in> set HEADING_TAGS
      then \<lparr> ol_path = to_level (digit_val (name ! 1)) t (ol_path o1), ol_title = first_title (ol_title o1) t \<rparr>
      else o1)"

fun html_pieces :: "outline \<Rightarrow> (string \<times> html_node list) list \<Rightarrow> outline \<times> piece list" where
  "html_pieces o1 [] = (o1, [])"
| "html_pieces o1 ((name, kids) # tags) =
     (let t = strip (stringify kids) in
       if t = [] then html_pieces o1 tags
       else
         let o2 = html_outline name t o1 in
         case html_pieces o2 tags of
           (o3, qs) \<Rightarrow> (o3, \<lparr> pi_text = t, pi_type = html_type name, pi_page = None, pi_section = section_of (ol_path o2) \<rparr> # qs))"

definition html_root :: "html_node \<Rightarrow> html_node" where
  "html_root soup =
     (case find_tag ''main'' soup of Some (n, ks) \<Rightarrow> Tag n ks
      | None \<Rightarrow> (case find_tag ''article'' soup of Some (n, ks) \<Rightarrow> Tag n ks
      | None \<Rightarrow> (case find_tag ''body'' soup of Some (n, ks) \<Rightarrow> Tag n ks | None \<Rightarrow> soup)))"

definition html_title :: "html_node \<Rightarrow> string option" where
  "html_title soup =
     (case find_tag ''title'' soup of
        None \<Rightarrow> None
      | Some (n, ks) \<Rightarrow> (let s = tag_string (Tag n ks) in if str_true s then Some (strip (the s)) else None))"

definition parse_html :: "(string \<Rightarrow> string + html_node) \<Rightarrow> string \<Rightarrow> string option \<Rightarrow> exn + parsed_document" where
  "parse_html lib data filename =
     (case lib data of
        Inl m \<Rightarrow> Inl (ParserError (''BeautifulSoup failed to parse HTML: '' @ m))
      | Inr soup0 \<Rightarrow>
          let soup = decompose soup0;
              (o1, qs) = html_pieces \<lparr> ol_path = [], ol_title = html_title soup \<rparr>
                (filter (\<lambda>(n, ks). n \<in> set BLOCK_TAGS) (descendants (html_root soup)))
          in Inr \<lparr> pd_title = titled (ol_title o1) filename, pd_blocks = lay_blocks 0 qs,
            pd_metadata = [(''parser'', JStr ''beautifulsoup4'')] \<rparr>)"

section \<open>The parsers of the registry\<close>

text \<open>What the registry runs for a content type; the Markdown parser gets the decoded text.\<close>

record libraries =
  lb_pdf :: pdf_env
  lb_docx :: "string \<Rightarrow> string + docx_paragraph list"
  lb_html :: "string \<Rightarrow> string + html_node"

definition parse_file :: "libraries \<Rightarrow> parser \<Rightarrow> string \<Rightarrow> string option \<Rightarrow> exn + parsed_document" where
  "parse_file L p data filename =
     (case p of
        PdfParser \<Rightarrow> parse_pdf (lb_pdf L) data filename
      | DocxParser \<Rightarrow> parse_docx (lb_docx L) data filename
      | HtmlParser \<Rightarrow> parse_html (lb_html L) data filename
      | MarkdownParser \<Rightarrow> Inr (parse_markdown data filename))"

section \<open>Lemmas\<close>

definition tidy :: "string \<Rightarrow> bool" where
  "tidy t = (t \<noteq> [] \<and> strip t = t)"

lemma lay_blocks_laid_out: "laid_out n (lay_blocks n ps)"
  by (induction n ps rule: lay_blocks.induct) auto

lemma map_text_lay_blocks [simp]: "map pb_text (lay_blocks n ps) = map pi_text ps"
  by (induction n ps rule: lay_blocks.induct) auto

lemma map_page_lay_blocks [simp]: "map pb_page (lay_blocks n ps) = map pi_page ps"
  by (induction n ps rule: lay_blocks.induct) auto

lemma lay_blocks_empty [simp]: "lay_blocks n ps = [] \<longleftrightarrow> ps = []"
  by (cases ps) auto

lemma tidy_lay_blocks: "list_all (\<lambda>b. tidy (pb_text b)) (lay_blocks n ps) = list_all (\<lambda>p. tidy (pi_text p)) ps"
  by (induction n ps rule: lay_blocks.induct) auto

lemma tidy_strip: "strip t \<noteq> [] \<Longrightarrow> tidy (strip t)"
  by (simp add: tidy_def)

lemma paragraphs_tidy: "list_all tidy (paragraphs t)"
  by (auto simp: paragraphs_def list_all_iff tidy_def)

lemma pymupdf_texts_tidy: "list_all tidy (pymupdf_texts p)"
  using paragraphs_tidy by (auto simp: pymupdf_texts_def Let_def list_all_iff tidy_def)

lemma page_pieces_tidy: "list_all tidy ts \<Longrightarrow> list_all (\<lambda>p. tidy (pi_text p)) (page_pieces n ts)"
  by (auto simp: page_pieces_def list_all_iff)

lemma concat_pieces_tidy:
  "(\<And>x. list_all (\<lambda>p. tidy (pi_text p)) (f x)) \<Longrightarrow> list_all (\<lambda>p. tidy (pi_text p)) (concat (map f xs))"
  by (induction xs) auto

lemma ocr_pages_tidy: "ocr_pages ps = Inr qs \<Longrightarrow> list_all (\<lambda>p. tidy (pi_text p)) qs"
proof (induction ps arbitrary: qs rule: ocr_pages.induct)
  case (2 n p ps)
  then show ?case using page_pieces_tidy [OF paragraphs_tidy] by (fastforce simp: try_bind_eq_Inr split: sum.splits)
qed simp

lemma docx_pieces_tidy: "docx_pieces o1 ps = Inr (o2, qs) \<Longrightarrow> list_all (\<lambda>p. tidy (pi_text p)) qs"
proof (induction ps arbitrary: o1 o2 qs)
  case (Cons p ps)
  show ?case
  proof (cases "strip (opt_text (dp_text p)) = []")
    case True
    then show ?thesis using Cons by (simp add: Let_def)
  next
    case False
    then show ?thesis using Cons.prems Cons.IH tidy_strip by (auto simp: Let_def try_bind_eq_Inr)
  qed
qed simp

lemma html_pieces_tidy: "list_all (\<lambda>p. tidy (pi_text p)) (snd (html_pieces o1 tags))"
proof (induction o1 tags rule: html_pieces.induct)
  case (2 o1 name kids tags)
  then show ?case using tidy_strip by (auto simp: Let_def split_beta)
qed simp

text \<open>
  The contract of a parser: its blocks are laid out from 0, and no text is blank or padded.  Then every block stands at
  its offsets in the text of the document.
\<close>

locale document_parser =
  fixes parse :: "string \<Rightarrow> string option \<Rightarrow> exn + parsed_document"
  assumes parsed: "parse data f = Inr d \<Longrightarrow> laid_out 0 (pd_blocks d) \<and> list_all (\<lambda>b. tidy (pb_text b)) (pd_blocks d)"
begin

lemma located:
  assumes "parse data f = Inr d" and "b \<in> set (pd_blocks d)"
  shows "tidy (pb_text b) \<and> (\<exists>s. pb_start b = Some (int s) \<and> pb_end b = Some (int (s + length (pb_text b))) \<and>
    take (length (pb_text b)) (drop s (doc_text (pd_blocks d))) = pb_text b)"
proof -
  note p = parsed [OF assms(1)]
  have "filter has_text (pd_blocks d) = pd_blocks d"
    using p by (auto simp: list_all_iff filter_id_conv has_text_def tidy_def)
  then show ?thesis using laid_out_located [OF conjunct1 [OF p] assms(2)] p assms(2) by (simp add: doc_text_def list_all_iff)
qed

end

interpretation pdf: document_parser "parse_pdf E" for E
proof unfold_locales
  fix data f d
  assume d: "parse_pdf E data f = Inr d"
  have "\<exists>ps. pd_blocks d = lay_blocks 0 ps \<and> list_all (\<lambda>p. tidy (pi_text p)) ps"
  proof -
    have m: "parse_with_pymupdf x f = Inr d \<Longrightarrow> ?thesis" for x
      using concat_pieces_tidy [of "\<lambda>(n, p). page_pieces n (pymupdf_texts p)" "numbered (pf_pages x)"]
        page_pieces_tidy [OF pymupdf_texts_tidy]
      by (auto simp: parse_with_pymupdf_def Let_def split: if_splits)
    have u: "parse_with_unstructured E data f = Inr d \<Longrightarrow> ?thesis"
      using concat_pieces_tidy [of "\<lambda>(n, p). page_pieces n (paragraphs p)"] page_pieces_tidy [OF paragraphs_tidy]
      by (auto simp: parse_with_unstructured_def split: if_splits sum.splits)
    have o: "parse_with_ocr E data f = Inr d \<Longrightarrow> ?thesis"
      using ocr_pages_tidy by (auto simp: parse_with_ocr_def try_bind_eq_Inr split: if_splits sum.splits)
    show ?thesis using d m u o by (auto simp: parse_pdf_def split: sum.splits)
  qed
  then show "laid_out 0 (pd_blocks d) \<and> list_all (\<lambda>b. tidy (pb_text b)) (pd_blocks d)"
    using lay_blocks_laid_out by (auto simp: tidy_lay_blocks)
qed

interpretation docx: document_parser "parse_docx lib" for lib
proof unfold_locales
  fix data f d
  assume "parse_docx lib data f = Inr d"
  then obtain o1 o2 ps qs where "docx_pieces o1 ps = Inr (o2, qs)" "pd_blocks d = lay_blocks 0 qs"
    by (auto simp: parse_docx_def try_bind_eq_Inr split: sum.splits)
  then show "laid_out 0 (pd_blocks d) \<and> list_all (\<lambda>b. tidy (pb_text b)) (pd_blocks d)"
    using lay_blocks_laid_out docx_pieces_tidy by (metis tidy_lay_blocks)
qed

interpretation html: document_parser "parse_html lib" for lib
proof unfold_locales
  fix data f d
  assume "parse_html lib data f = Inr d"
  then obtain o1 tags where "pd_blocks d = lay_blocks 0 (snd (html_pieces o1 tags))"
    by (auto simp: parse_html_def Let_def split_beta split: sum.splits)
  then show "laid_out 0 (pd_blocks d) \<and> list_all (\<lambda>b. tidy (pb_text b)) (pd_blocks d)"
    using lay_blocks_laid_out html_pieces_tidy by (simp add: tidy_lay_blocks)
qed

section \<open>Properties\<close>

text \<open>
  C19. Whatever the libraries extract, every block that the PDF, Word and HTML parsers return has a text that is neither
  blank nor padded, and the document's text holds exactly that text at the block's offsets, which is what a citation
  relies on.
\<close>

theorem parsers_offsets:
  assumes "parse_file L p data f = Inr d" and "p \<noteq> MarkdownParser" and "b \<in> set (pd_blocks d)"
  shows "tidy (pb_text b) \<and> (\<exists>s. pb_start b = Some (int s) \<and> pb_end b = Some (int (s + length (pb_text b))) \<and>
    take (length (pb_text b)) (drop s (doc_text (pd_blocks d))) = pb_text b)"
proof (cases p)
  case PdfParser
  then show ?thesis using assms pdf.located by (simp add: parse_file_def)
next
  case DocxParser
  then show ?thesis using assms docx.located by (simp add: parse_file_def)
next
  case HtmlParser
  then show ?thesis using assms html.located by (simp add: parse_file_def)
qed (use assms in simp)

definition sample_page :: "html_node" where
  "sample_page = Tag ''[document]'' [Tag ''html'' [Tag ''head'' [Tag ''title'' [Text ''Fees'']],
     Tag ''body'' [Tag ''nav'' [Tag ''p'' [Text ''Menu'']], Tag ''h1'' [Text ''Fees''], Text ''loose'',
       Tag ''ul'' [Tag ''li'' [Tag ''p'' [Text ''Pay '', Tag ''b'' [Text ''now''], Comment '' todo '']]]]]]"

definition sample_libraries :: libraries where
  "sample_libraries = \<lparr> lb_pdf = \<lparr> px_open = (\<lambda>data. Inr \<lparr> pf_title = None, pf_pages =
       [\<lparr> pg_text = Some ''1. Scope'', pg_blocks = [Some '' 1. Scope '', None], pg_ocr = Inl ''no'' \<rparr>,
        \<lparr> pg_text = None, pg_blocks = [None], pg_ocr = Inr (Some ''A scanned page'') \<rparr>] \<rparr>),
     px_miner_installed = False, px_miner = (\<lambda>data. Inr None) \<rparr>,
     lb_docx = (\<lambda>data. Inr []), lb_html = (\<lambda>data. Inr sample_page) \<rparr>"

lemma sample_html:
  "parse_file sample_libraries HtmlParser [] None = Inr \<lparr> pd_title = Some ''Fees'',
     pd_blocks = [
       \<lparr> pb_text = ''Fees'', pb_type = Heading, pb_page = None, pb_section = Some ''Fees'', pb_start = Some 0, pb_end = Some 4 \<rparr>,
       \<lparr> pb_text = ''Pay now todo'', pb_type = ListItem, pb_page = None, pb_section = Some ''Fees'',
          pb_start = Some 6, pb_end = Some 18 \<rparr>,
       \<lparr> pb_text = ''Pay now todo'', pb_type = Paragraph, pb_page = None, pb_section = Some ''Fees'',
          pb_start = Some 20, pb_end = Some 32 \<rparr>],
     pd_metadata = [(''parser'', JStr ''beautifulsoup4'')] \<rparr>"
  by code_simp

theorem parsers_offsets_witness:
  "\<exists>d. parse_file sample_libraries HtmlParser [] None = Inr d \<and>
    take 12 (drop 20 (doc_text (pd_blocks d))) = ''Pay now todo'' \<and> tidy (pb_text (pd_blocks d ! 2))"
proof -
  obtain d where d: "parse_file sample_libraries HtmlParser [] None = Inr d" and b: "length (pd_blocks d) = 3"
    "pb_text (pd_blocks d ! 2) = ''Pay now todo''" "pb_start (pd_blocks d ! 2) = Some 20"
    using sample_html by simp
  have "pd_blocks d ! 2 \<in> set (pd_blocks d)" using b(1) by simp
  moreover have l: "length (pb_text (pd_blocks d ! 2)) = 12" by (simp add: b(2))
  ultimately obtain s where t: "tidy (pb_text (pd_blocks d ! 2))" and "pb_start (pd_blocks d ! 2) = Some (int s)"
    and k: "take 12 (drop s (doc_text (pd_blocks d))) = pb_text (pd_blocks d ! 2)"
    using parsers_offsets [OF d, of "pd_blocks d ! 2"] by (auto simp: l)
  then have "s = 20" using b(3) by simp
  then have "tidy (pb_text (pd_blocks d ! 2)) \<and> take 12 (drop 20 (doc_text (pd_blocks d))) = ''Pay now todo''"
    using t k b(2) by simp
  then show ?thesis using d by blast
qed

text \<open>The pages that yield text, for a list of pages numbered from 1.\<close>

lemma pages_of_pieces:
  "pi_page ` set (concat (map (\<lambda>(n, p). page_pieces n (g p)) xs)) = {Some n |n p. (n, p) \<in> set xs \<and> g p \<noteq> []}"
proof (induction xs)
  case (Cons x xs)
  obtain n p where x: "x = (n, p)" by (cases x)
  have "pi_page ` set (page_pieces n (g p)) = (if g p = [] then {} else {Some n})"
    by (simp add: page_pieces_def image_image image_constant_conv)
  then show ?case using Cons.IH by (auto simp: x image_Un)
qed simp

lemma numbered_range: "snd ` set (numbered ps) = set ps"
proof -
  have "map snd (numbered ps) = ps" by (simp add: numbered_def split_beta comp_def)
  then show ?thesis by (metis set_map)
qed

lemma no_pieces: "concat (map (\<lambda>(n, p). page_pieces n (g p)) (numbered ps)) = [] \<longleftrightarrow> (\<forall>p \<in> set ps. g p = [])"
  by (simp add: page_pieces_def split_beta flip: numbered_range [of ps])

lemma pymupdf_Inr:
  assumes "lay_blocks 0 (concat (map (\<lambda>(n, p). page_pieces n (pymupdf_texts p)) (numbered (pf_pages f)))) \<noteq> []"
  obtains d where "parse_with_pymupdf f n = Inr d"
    and "pd_blocks d = lay_blocks 0 (concat (map (\<lambda>(n, p). page_pieces n (pymupdf_texts p)) (numbered (pf_pages f))))"
    and "dget (pd_metadata d) ''parser'' = JStr ''pymupdf''"
  using assms unfolding parse_with_pymupdf_def Let_def if_not_P [OF assms] by (simp add: dget_or_def)

text \<open>
  The three stages of the PDF parser.  As soon as one page of the file has a text layer, PyMuPDF's blocks are the
  document, and the pages without one (a scanned annex) contribute nothing: OCR is never run for them.  Only when no page
  has text does pdfminer.six decide, and OCR after it; the parser fails exactly when OCR does.
\<close>

theorem pdf_stages:
  assumes "px_open E data = Inr f"
  shows "if \<exists>p \<in> set (pf_pages f). pymupdf_texts p \<noteq> []
    then \<exists>d. parse_pdf E data n = Inr d \<and> dget (pd_metadata d) ''parser'' = JStr ''pymupdf'' \<and>
      set (map pb_page (pd_blocks d)) = {Some i |i p. (i, p) \<in> set (numbered (pf_pages f)) \<and> pymupdf_texts p \<noteq> []}
    else parse_pdf E data n = (case parse_with_unstructured E data n of
      Inr d \<Rightarrow> Inr d | Inl e \<Rightarrow> parse_with_ocr E data n)"
proof -
  have empty: "(lay_blocks 0 (concat (map (\<lambda>(n, p). page_pieces n (pymupdf_texts p)) (numbered (pf_pages f)))) = []) \<longleftrightarrow>
    (\<forall>p \<in> set (pf_pages f). pymupdf_texts p = [])"
    by (simp only: lay_blocks_empty no_pieces)
  show ?thesis
  proof (cases "\<forall>p \<in> set (pf_pages f). pymupdf_texts p = []")
    case True
    then obtain e where "parse_with_pymupdf f n = Inl e" using empty by (simp add: parse_with_pymupdf_def)
    then show ?thesis using True assms by (simp add: parse_pdf_def)
  next
    case False
    then obtain d where d: "parse_with_pymupdf f n = Inr d" and
      b: "pd_blocks d = lay_blocks 0 (concat (map (\<lambda>(n, p). page_pieces n (pymupdf_texts p)) (numbered (pf_pages f))))" and
      m: "dget (pd_metadata d) ''parser'' = JStr ''pymupdf''"
      using pymupdf_Inr [of f n] empty by blast
    have "set (map pb_page (pd_blocks d)) = {Some i |i p. (i, p) \<in> set (numbered (pf_pages f)) \<and> pymupdf_texts p \<noteq> []}"
      by (simp only: b map_page_lay_blocks set_map pages_of_pieces)
    moreover have "parse_pdf E data n = Inr d" using d assms by (simp add: parse_pdf_def)
    ultimately show ?thesis using False m by auto
  qed
qed

theorem pdf_stages_witness:
  "\<exists>d. parse_pdf (lb_pdf sample_libraries) [] None = Inr d \<and> set (map pb_page (pd_blocks d)) = {Some 1}"
proof -
  obtain f where f: "px_open (lb_pdf sample_libraries) [] = Inr f" and
    n: "numbered (pf_pages f) = [(1, \<lparr> pg_text = Some ''1. Scope'', pg_blocks = [Some '' 1. Scope '', None], pg_ocr = Inl ''no'' \<rparr>),
        (2, \<lparr> pg_text = None, pg_blocks = [None], pg_ocr = Inr (Some ''A scanned page'') \<rparr>)]"
    by (simp add: sample_libraries_def numbered_def)
  have t: "pymupdf_texts \<lparr> pg_text = Some ''1. Scope'', pg_blocks = [Some '' 1. Scope '', None], pg_ocr = Inl ''no'' \<rparr> = [''1. Scope'']"
    "pymupdf_texts \<lparr> pg_text = None, pg_blocks = [None], pg_ocr = Inr (Some ''A scanned page'') \<rparr> = []"
    by code_simp+
  have s: "set (pf_pages f) = {\<lparr> pg_text = Some ''1. Scope'', pg_blocks = [Some '' 1. Scope '', None], pg_ocr = Inl ''no'' \<rparr>,
        \<lparr> pg_text = None, pg_blocks = [None], pg_ocr = Inr (Some ''A scanned page'') \<rparr>}"
    using numbered_range [of "pf_pages f"] by (simp add: n)
  have "{Some i |i p. (i, p) \<in> set (numbered (pf_pages f)) \<and> pymupdf_texts p \<noteq> []} = {Some 1}"
    using t by (auto simp: n)
  then show ?thesis using pdf_stages [OF f, of None] t by (auto simp: s)
qed

end
