(* ===== verification/HandbookCorpus.thy ===== *)
theory HandbookCorpus
  imports IngestPipeline Config
begin

text \<open>
  The bulk ingester of regulator handbooks (\<open>corpus/uk_finreg/handbook_ingester.py\<close>): the walk over the
  pages of a gov.uk manual, the download with its cache on disk, one item, and the run over all items.  What the network
  answers is a parameter; the items of the YAML file are JSON values.
\<close>

section \<open>The walk over a gov.uk manual\<close>

definition section_triple :: "json \<Rightarrow> exn + (json \<times> json \<times> json) list" where
  "section_triple sec =
     try_bind (jget sec ''base_path'') (\<lambda>p.
       if \<not> truthy p then Inr []
       else try_bind (jget sec ''title'') (\<lambda>t. try_bind (jget sec ''description'') (\<lambda>d. Inr [(p, t, d)])))"

definition sections :: "json \<Rightarrow> exn + (json \<times> json \<times> json) list" where
  "sections j =
     try_bind (py_iter (por j (JList []))) (\<lambda>secs.
       try_bind (try_map section_triple secs) (\<lambda>ts. Inr (concat ts)))"

definition group_sections :: "json \<Rightarrow> exn + (json \<times> json \<times> json) list" where
  "group_sections g = try_bind (jget (por g (JObj [])) ''child_sections'') sections"

definition govuk_child_paths :: "json \<Rightarrow> exn + (json \<times> json \<times> json) list" where
  "govuk_child_paths node =
     try_bind (jget node ''details'') (\<lambda>dt.
     try_bind (jget (por dt (JObj [])) ''child_section_groups'') (\<lambda>gs.
     try_bind (py_iter (por gs (JList []))) (\<lambda>groups.
     try_bind (try_map group_sections groups) (\<lambda>found.
       if concat found \<noteq> [] then Inr (concat found)
       else
         try_bind (jget node ''links'') (\<lambda>lk.
         try_bind (jget (por lk (JObj [])) ''child_sections'') (\<lambda>c.
           if truthy c then sections c
           else try_bind (jget (por lk (JObj [])) ''sections'') sections))))))"

record leaf =
  lf_title :: json
  lf_url :: string
  lf_html :: string

definition wrap_html :: "json \<Rightarrow> json \<Rightarrow> string" where
  "wrap_html body title =
     ''<!doctype html><html><head><meta charset='utf-8'><title>'' @ py_str title @ ''</title></head><body><h1>'' @
     py_str title @ ''</h1>'' @ py_str body @ ''</body></html>''"

text \<open>What a page without children adds.\<close>

definition leaf_of :: "string \<Rightarrow> json \<Rightarrow> exn + leaf list" where
  "leaf_of path node =
     try_bind (jget node ''details'') (\<lambda>dt.
     try_bind (jget (por dt (JObj [])) ''body'') (\<lambda>body.
       if \<not> truthy body then Inr []
       else try_bind (jget node ''title'') (\<lambda>t.
         let title = por t (JStr path) in
         Inr [\<lparr> lf_title = title, lf_url = ''https://www.gov.uk'' @ path, lf_html = wrap_html body title \<rparr>])))"

record walk_state =
  wk_visited :: "string list"
  wk_leaves :: "leaf list"

fun try_fold :: "('a \<Rightarrow> 's \<Rightarrow> 'e + 's) \<Rightarrow> 'a list \<Rightarrow> 's \<Rightarrow> 'e + 's" where
  "try_fold f [] s = Inr s"
| "try_fold f (x # xs) s = try_bind (f x s) (try_fold f xs)"

lemma try_fold_cong [fundef_cong]:
  "xs = ys \<Longrightarrow> s = t \<Longrightarrow> (\<And>x u. x \<in> set ys \<Longrightarrow> f x u = g x u) \<Longrightarrow> try_fold f xs s = try_fold g ys t"
proof (induction xs arbitrary: ys s t)
  case (Cons x xs)
  then show ?case by (cases "g x t") (auto simp: try_bind_def)
qed simp

text \<open>A path that is no string: unhashable, or nothing one can append to a URL.\<close>

definition odd_path :: "nat \<Rightarrow> json \<Rightarrow> walk_state \<Rightarrow> exn + walk_state" where
  "odd_path n j st = (if n = 0 \<and> \<not> is_list j \<and> \<not> is_dict j then Inr st else Inl (PyExc TypeError))"

text \<open>The first number is how many levels may follow, \<open>max_depth - depth + 1\<close>.\<close>

fun walk_govuk :: "(string \<Rightarrow> json option) \<Rightarrow> nat \<Rightarrow> string \<Rightarrow> walk_state \<Rightarrow> exn + walk_state" where
  "walk_govuk F n path st =
     (if path \<in> set (wk_visited st) then Inr st
      else
        let st1 = st\<lparr> wk_visited := wk_visited st @ [path] \<rparr> in
        case n of
          0 \<Rightarrow> Inr st1
        | Suc m \<Rightarrow>
            (case F path of
               None \<Rightarrow> Inr st1
             | Some node \<Rightarrow>
                 try_bind (govuk_child_paths node) (\<lambda>children.
                   if children \<noteq> []
                   then try_fold (\<lambda>(p, t, d) s. case p of JStr child \<Rightarrow> walk_govuk F m child s | _ \<Rightarrow> odd_path m p s) children st1
                   else try_bind (leaf_of path node) (\<lambda>ls. Inr (st1\<lparr> wk_leaves := wk_leaves st1 @ ls \<rparr>)))))"

declare walk_govuk.simps [simp del]

definition crawl_govuk_manual :: "(string \<Rightarrow> json option) \<Rightarrow> string \<Rightarrow> nat \<Rightarrow> exn + leaf list" where
  "crawl_govuk_manual F start max_depth =
     try_bind (walk_govuk F (max_depth + 1) start \<lparr> wk_visited = [], wk_leaves = [] \<rparr>) (\<lambda>st. Inr (wk_leaves st))"

section \<open>Downloads\<close>

definition safe_filename :: "string \<Rightarrow> string" where
  "safe_filename url =
     (let s = hd (split_char (CHR ''?'') (rsplit_last (CHR ''/'') url));
          name = (if s = [] then ''download'' else s)
      in take 120 (map (\<lambda>c. if is_word c \<or> c = CHR ''.'' \<or> c = CHR ''-'' then c else CHR ''_'') name))"

text \<open>The files of the download directory; \<open>.\<close> and \<open>..\<close> name directories.\<close>

type_synonym files = "string \<rightharpoonup> string"

definition is_directory :: "string \<Rightarrow> bool" where
  "is_directory name = (name = ''.'' \<or> name = ''..'')"

definition directory_error :: exn where
  "directory_error = OtherExc ''[Errno 21] Is a directory''"

definition soft_404 :: "string \<Rightarrow> string \<Rightarrow> bool" where
  "soft_404 url body =
     (let pdf = endswith ''.pdf'' (hd (split_char (CHR ''?'') (lower url))) in
       (pdf \<and> \<not> startswith ''%PDF-'' body) \<or> (\<not> pdf \<and> length body < 500))"

text \<open>The network gives the body of an answer, or \<open>None\<close> for an error; the result says whether there is a file.\<close>

definition download ::
  "(string \<Rightarrow> string option) \<Rightarrow> string \<Rightarrow> string \<Rightarrow> bool \<Rightarrow> files \<Rightarrow> files \<times> (exn + bool)" where
  "download W url dest force fs =
     (if (is_directory dest \<or> (case fs dest of None \<Rightarrow> False | Some b \<Rightarrow> b \<noteq> [])) \<and> \<not> force then (fs, Inr True)
      else
        (case W url of
           None \<Rightarrow> (fs, Inr False)
         | Some body \<Rightarrow>
             if soft_404 url body then (fs, Inr False)
             else if is_directory dest then (fs, Inl directory_error)
             else (fs(dest \<mapsto> body), Inr True)))"

definition read_bytes :: "files \<Rightarrow> string \<Rightarrow> exn + string" where
  "read_bytes fs dest =
     (if is_directory dest then Inl directory_error
      else case fs dest of None \<Rightarrow> Inl (OtherExc ''[Errno 2] No such file or directory'') | Some b \<Rightarrow> Inr b)"

section \<open>One item\<close>

datatype item_status = Done | Skipped | Failed

text \<open>What a result of the pipeline, or its exception, counts as.\<close>

definition classify :: "exn + ingestion_result \<Rightarrow> item_status \<times> string" where
  "classify r =
     (case r of
        Inl e \<Rightarrow> (Failed, ''ingest failed: '' @ exn_message e)
      | Inr x \<Rightarrow>
          if ir_skipped x \<and> startswith ''error:'' (ir_note x) then (Failed, ir_note x)
          else if ir_skipped x then (Skipped, if ir_note x = [] then ''already current'' else ir_note x)
          else (Done, nat_str (ir_chunks_written x) @ '' chunks''))"

definition OGL_CROWN :: string where
  "OGL_CROWN = ''Contains public sector information licensed under the Open Government Licence v3.0 / Crown Copyright.''"

definition OGL_PLAIN :: string where
  "OGL_PLAIN = ''Contains public sector information licensed under the Open Government Licence v3.0.''"

definition pdf_source :: "(string \<Rightarrow> string option) \<Rightarrow> jdict \<Rightarrow> string \<Rightarrow> string \<Rightarrow> source_document" where
  "pdf_source guess item url data =
     \<lparr> sd_uri = url, sd_data = data, sd_filename = Some (safe_filename url),
       sd_content_type = Some (detect_content_type guess (Some (safe_filename url))),
       sd_title = Some (py_str (por (dget item ''name'') (JStr url))),
       sd_metadata = [(''regulator'', dget item ''regulator''), (''doc_type'', dget item ''doc_type''),
         (''ogl_attribution'', JStr OGL_CROWN), (''source'', JStr ''handbook_ingester'')] \<rparr>"

definition item_url :: "jdict \<Rightarrow> exn + string" where
  "item_url item =
     (case map_of item ''url'' of
        None \<Rightarrow> Inl (PyExc (KeyError ''url''))
      | Some (JStr u) \<Rightarrow> Inr u
      | Some j \<Rightarrow> Inl (PyExc AttributeError))"

record 'v corpus =
  cp_store :: "'v store"
  cp_files :: files

definition ingest_pdf_item ::
  "(string \<Rightarrow> string option) \<Rightarrow> 'v ingest_env \<Rightarrow> uuid \<Rightarrow> bool \<Rightarrow> jdict \<Rightarrow> 'v corpus \<Rightarrow>
   'v corpus \<times> (exn + item_status \<times> string)" where
  "ingest_pdf_item W E tid force item c =
     (case item_url item of
        Inl e \<Rightarrow> (c, Inl e)
      | Inr url \<Rightarrow>
          (case download W url (safe_filename url) force (cp_files c) of
             (fs, Inl e) \<Rightarrow> (c\<lparr> cp_files := fs \<rparr>, Inl e)
           | (fs, Inr False) \<Rightarrow> (c\<lparr> cp_files := fs \<rparr>, Inr (Failed, ''download failed: '' @ url))
           | (fs, Inr True) \<Rightarrow>
               (case read_bytes fs (safe_filename url) of
                  Inl e \<Rightarrow> (c\<lparr> cp_files := fs \<rparr>, Inl e)
                | Inr data \<Rightarrow>
                    if data = [] then (c\<lparr> cp_files := fs \<rparr>, Inr (Failed, ''empty download''))
                    else
                      (case ingest_one E tid (pdf_source (ie_guess E) item url data) (cp_store c) of
                         (st, r) \<Rightarrow> (\<lparr> cp_store = st, cp_files = fs \<rparr>, Inr (classify r))))))"

definition chapter_source :: "jdict \<Rightarrow> leaf \<Rightarrow> source_document" where
  "chapter_source item ch =
     \<lparr> sd_uri = lf_url ch, sd_data = lf_html ch, sd_filename = Some (safe_filename (lf_url ch) @ ''.html''),
       sd_content_type = Some ''text/html'', sd_title = Some (py_str (lf_title ch)),
       sd_metadata = [(''regulator'', dget item ''regulator''), (''doc_type'', dget item ''doc_type''),
         (''manual'', dget item ''name''), (''ogl_attribution'', JStr OGL_PLAIN), (''source'', JStr ''handbook_ingester'')] \<rparr>"

fun ingest_chapters ::
  "'v ingest_env \<Rightarrow> uuid \<Rightarrow> jdict \<Rightarrow> leaf list \<Rightarrow> 'v store \<Rightarrow> 'v store \<times> (item_status \<times> json \<times> string) list" where
  "ingest_chapters E tid item [] st = (st, [])"
| "ingest_chapters E tid item (ch # chs) st =
     (case ingest_one E tid (chapter_source item ch) st of
        (st1, r) \<Rightarrow>
          (case classify r of
             (s, detail) \<Rightarrow>
               (case ingest_chapters E tid item chs st1 of
                  (st2, rows) \<Rightarrow> (st2, (s, lf_title ch, detail) # rows))))"

definition ingest_govuk_manual_item ::
  "(string \<Rightarrow> json option) \<Rightarrow> 'v ingest_env \<Rightarrow> uuid \<Rightarrow> jdict \<Rightarrow> 'v store \<Rightarrow>
   'v store \<times> (exn + (item_status \<times> json \<times> string) list)" where
  "ingest_govuk_manual_item F E tid item st =
     (let path = por (dget item ''govuk_path'') (JStr []) in
       if path = JStr [] then (st, Inr [(Failed, dget_or item ''name'' (JStr ''?''), ''missing govuk_path'')])
       else
         (case path of
            JStr p \<Rightarrow>
              (case crawl_govuk_manual F p 6 of
                 Inl e \<Rightarrow> (st, Inl e)
               | Inr chapters \<Rightarrow>
                   if chapters = [] then (st, Inr [(Failed, dget_or item ''name'' path, ''no chapters fetched'')])
                   else (case ingest_chapters E tid item chapters st of (st1, rows) \<Rightarrow> (st1, Inr rows)))
          | _ \<Rightarrow> (st, Inl (PyExc TypeError))))"

text \<open>\<open>_patch_doc\<close>: the type of the item for a row that has none.\<close>

definition patch_doc :: "uuid \<Rightarrow> string \<Rightarrow> json \<Rightarrow> 'v store \<Rightarrow> exn + 'v store" where
  "patch_doc tid uri ty st =
     (if \<not> truthy ty then Inr st
      else case ty of
        JStr t \<Rightarrow> Inr (st\<lparr> so_docs := map (\<lambda>d.
          if dc_tenant d = tid \<and> dc_uri d = uri \<and> dc_doc_type d = None then d\<lparr> dc_doc_type := Some (lower t) \<rparr> else d)
          (so_docs st) \<rparr>)
      | _ \<Rightarrow> Inl (PyExc AttributeError))"

section \<open>The run\<close>

record tallies =
  rt_ok :: nat
  rt_skipped :: nat
  rt_failed :: nat

definition tally :: "item_status list \<Rightarrow> tallies \<Rightarrow> tallies" where
  "tally ss t =
     \<lparr> rt_ok = rt_ok t + length (filter (\<lambda>s. s = Done) ss),
       rt_skipped = rt_skipped t + length (filter (\<lambda>s. s = Skipped) ss),
       rt_failed = rt_failed t + length (filter (\<lambda>s. s = Failed) ss) \<rparr>"

text \<open>\<open>item.get('regulator', '?').upper()\<close>, outside of the \<open>try\<close> around the item.\<close>

definition item_label :: "jdict \<Rightarrow> exn + unit" where
  "item_label item = (case dget_or item ''regulator'' (JStr ''?'') of JStr s \<Rightarrow> Inr () | _ \<Rightarrow> Inl (PyExc AttributeError))"

definition run_item ::
  "(string \<Rightarrow> string option) \<Rightarrow> (string \<Rightarrow> json option) \<Rightarrow> 'v ingest_env \<Rightarrow> uuid \<Rightarrow> bool \<Rightarrow> jdict \<Rightarrow>
   'v corpus \<times> tallies \<Rightarrow> 'v corpus \<times> tallies" where
  "run_item W F E tid force item s =
     (case s of (c, t) \<Rightarrow>
       let kind = dget_or item ''type'' (JStr ''pdf'') in
       if kind = JStr ''pdf'' then
         (case ingest_pdf_item W E tid force item c of
            (c1, Inl e) \<Rightarrow> (c1, tally [Failed] t)
          | (c1, Inr (Done, detail)) \<Rightarrow>
              (case try_bind (item_url item) (\<lambda>u. patch_doc tid u (dget item ''doc_type'') (cp_store c1)) of
                 Inl e \<Rightarrow> (c1, tally [Done, Failed] t)
               | Inr st \<Rightarrow> (c1\<lparr> cp_store := st \<rparr>, tally [Done] t))
          | (c1, Inr (s1, detail)) \<Rightarrow> (c1, tally [s1] t))
       else if kind = JStr ''govuk_manual'' then
         (case ingest_govuk_manual_item F E tid item (cp_store c) of
            (st, Inl e) \<Rightarrow> (c\<lparr> cp_store := st \<rparr>, tally [Failed] t)
          | (st, Inr rows) \<Rightarrow> (c\<lparr> cp_store := st \<rparr>, tally (map fst rows) t))
       else (c, tally [Failed] t))"

fun run_items ::
  "(string \<Rightarrow> string option) \<Rightarrow> (string \<Rightarrow> json option) \<Rightarrow> 'v ingest_env \<Rightarrow> uuid \<Rightarrow> bool \<Rightarrow> jdict list \<Rightarrow>
   'v corpus \<times> tallies \<Rightarrow> ('v corpus \<times> tallies) \<times> (exn + unit)" where
  "run_items W F E tid force [] s = (s, Inr ())"
| "run_items W F E tid force (item # items) s =
     (case item_label item of
        Inl e \<Rightarrow> (s, Inl e)
      | Inr u \<Rightarrow> run_items W F E tid force items (run_item W F E tid force item s))"

definition lower_json :: "json \<Rightarrow> exn + string" where
  "lower_json j = (case j of JStr s \<Rightarrow> Inr (lower s) | _ \<Rightarrow> Inl (PyExc AttributeError))"

definition select_items :: "string list \<Rightarrow> jdict list \<Rightarrow> exn + jdict list" where
  "select_items regulators items =
     (if regulators = [] then Inr items
      else
        try_bind (try_map (\<lambda>i. lower_json (por (dget i ''regulator'') (JStr []))) items) (\<lambda>ls.
          Inr (map fst (filter (\<lambda>(i, l). l \<in> set (map (\<lambda>r. strip (lower r)) regulators)) (zip items ls)))))"

text \<open>\<open>format(x, '<14')\<close> fails on \<open>None\<close>, lists and dicts.\<close>

definition padded_ok :: "json \<Rightarrow> exn + unit" where
  "padded_ok j = (case j of JNull \<Rightarrow> Inl (PyExc TypeError) | JList xs \<Rightarrow> Inl (PyExc TypeError)
     | JObj d \<Rightarrow> Inl (PyExc TypeError) | _ \<Rightarrow> Inr ())"

definition item_key :: "jdict \<Rightarrow> string \<Rightarrow> exn + json" where
  "item_key item k = (case map_of item k of None \<Rightarrow> Inl (PyExc (KeyError k)) | Some j \<Rightarrow> Inr j)"

definition dry_line :: "jdict \<Rightarrow> exn + unit" where
  "dry_line i =
     try_bind (item_key i ''type'') (\<lambda>ty. try_bind (padded_ok ty) (\<lambda>u.
       try_bind (padded_ok (dget_or i ''regulator'' (JStr ''?''))) (\<lambda>v. try_bind (item_key i ''name'') (\<lambda>n. Inr ()))))"

record run_args =
  ra_regulators :: "string list"
  ra_dry_run :: bool
  ra_force :: bool

definition main_handbook ::
  "(string \<Rightarrow> string option) \<Rightarrow> (string \<Rightarrow> json option) \<Rightarrow> 'v ingest_env \<Rightarrow> uuid option \<Rightarrow> run_args \<Rightarrow> jdict list \<Rightarrow>
   'v corpus \<Rightarrow> 'v corpus \<times> (exn + nat)" where
  "main_handbook W F E tenant args items c =
     (case tenant of
        None \<Rightarrow> (c, Inl (OtherExc ''SystemExit: tenant not found''))
      | Some tid \<Rightarrow>
          if items = [] then (c, Inr 1)
          else
            (case select_items (ra_regulators args) items of
               Inl e \<Rightarrow> (c, Inl e)
             | Inr wanted \<Rightarrow>
                 if wanted = [] then (c, Inr 1)
                 else if ra_dry_run args then
                   (c, try_bind (try_map dry_line wanted) (\<lambda>us. Inr 0))
                 else
                   (case run_items W F E tid (ra_force args) wanted (c, \<lparr> rt_ok = 0, rt_skipped = 0, rt_failed = 0 \<rparr>) of
                      ((c1, t), Inl e) \<Rightarrow> (c1, Inl e)
                    | ((c1, t), Inr u) \<Rightarrow> (c1, Inr (if 0 < rt_ok t + rt_skipped t then 0 else 1)))))"

section \<open>Lemmas on the walk\<close>

text \<open>The pages that links lead to, with the number of links, and what a page without children adds.\<close>

inductive linked :: "(string \<Rightarrow> json option) \<Rightarrow> string \<Rightarrow> nat \<Rightarrow> string \<Rightarrow> bool" for F start where
  here: "linked F start 0 start"
| child: "linked F start k p \<Longrightarrow> F p = Some node \<Longrightarrow> govuk_child_paths node = Inr ks \<Longrightarrow> (JStr q, t, d) \<in> set ks \<Longrightarrow>
    linked F start (Suc k) q"

text \<open>The routes of the manual that meet no page twice.\<close>

definition child_of :: "(string \<Rightarrow> json option) \<Rightarrow> string \<Rightarrow> string \<Rightarrow> bool" where
  "child_of F p q \<longleftrightarrow> (\<exists>node ks t e. F p = Some node \<and> govuk_child_paths node = Inr ks \<and> (JStr q, t, e) \<in> set ks)"

inductive simple_route :: "(string \<Rightarrow> json option) \<Rightarrow> string \<Rightarrow> string list \<Rightarrow> bool" for F start where
  front: "simple_route F start [start]"
| onward: "simple_route F start ps \<Longrightarrow> child_of F (last ps) q \<Longrightarrow> q \<notin> set ps \<Longrightarrow> simple_route F start (ps @ [q])"

definition leaf_page :: "(string \<Rightarrow> json option) \<Rightarrow> string \<Rightarrow> leaf \<Rightarrow> bool" where
  "leaf_page F p l \<longleftrightarrow> (\<exists>node. F p = Some node \<and> govuk_child_paths node = Inr [] \<and> leaf_of p node = Inr [l])"

lemma leaf_of_cases: "leaf_of p node = Inr ls \<Longrightarrow> ls = [] \<or> (\<exists>l. ls = [l] \<and> lf_url l = ''https://www.gov.uk'' @ p)"
  by (auto simp: leaf_of_def Let_def try_bind_eq_Inr split: if_splits)

lemma try_fold_rule:
  assumes "try_fold f xs s = Inr s'" and "P s"
    and "\<And>x s s'. x \<in> set xs \<Longrightarrow> P s \<Longrightarrow> f x s = Inr s' \<Longrightarrow> P s'"
  shows "P s'"
  using assms by (induction xs arbitrary: s) (auto simp: try_bind_eq_Inr)

text \<open>One step of the walk on a page that is not visited yet, by what the page is.\<close>

definition visit_child :: "(string \<Rightarrow> json option) \<Rightarrow> nat \<Rightarrow> json \<times> json \<times> json \<Rightarrow> walk_state \<Rightarrow> exn + walk_state" where
  "visit_child F m c s = (case c of (p, t, d) \<Rightarrow> (case p of JStr child \<Rightarrow> walk_govuk F m child s | _ \<Rightarrow> odd_path m p s))"

lemma walk_cases:
  assumes "walk_govuk F n path st = Inr st'"
  obtains (seen) "path \<in> set (wk_visited st)" "st' = st"
  | (deep) "path \<notin> set (wk_visited st)" "n = 0" "st' = st\<lparr> wk_visited := wk_visited st @ [path] \<rparr>"
  | (dead) m where "path \<notin> set (wk_visited st)" "n = Suc m" "F path = None" "st' = st\<lparr> wk_visited := wk_visited st @ [path] \<rparr>"
  | (inner) m node ks where "path \<notin> set (wk_visited st)" "n = Suc m" "F path = Some node" "govuk_child_paths node = Inr ks"
      "ks \<noteq> []" "try_fold (visit_child F m) ks (st\<lparr> wk_visited := wk_visited st @ [path] \<rparr>) = Inr st'"
  | (leaf) m node ls where "path \<notin> set (wk_visited st)" "n = Suc m" "F path = Some node" "govuk_child_paths node = Inr []"
      "leaf_of path node = Inr ls"
      "st' = st\<lparr> wk_visited := wk_visited st @ [path], wk_leaves := wk_leaves st @ ls \<rparr>"
proof -
  have fold: "(\<lambda>(p, t, d) s. case p of JStr child \<Rightarrow> walk_govuk F m child s | _ \<Rightarrow> odd_path m p s) = visit_child F m" for m
    by (intro ext) (simp only: visit_child_def split_beta)
  note w = assms [unfolded walk_govuk.simps [of F n path st] Let_def]
  show ?thesis
  proof (cases "path \<in> set (wk_visited st)")
    case True
    then have "st' = st" using w by simp
    then show ?thesis using True by (intro seen)
  next
    case new: False
    note w1 = w [unfolded if_not_P [OF new]]
    show ?thesis
    proof (cases n)
      case 0
      then have "st' = st\<lparr> wk_visited := wk_visited st @ [path] \<rparr>" using w1 by simp
      then show ?thesis using new 0 by (intro deep)
    next
      case n: (Suc m)
      show ?thesis
      proof (cases "F path")
        case None
        then have "st' = st\<lparr> wk_visited := wk_visited st @ [path] \<rparr>" using w1 n by simp
        then show ?thesis using new n None by (intro dead)
      next
        case (Some node)
        note w2 = w1 [unfolded n nat.case Some option.case fold]
        then obtain ks where ks: "govuk_child_paths node = Inr ks" by (auto simp: try_bind_eq_Inr)
        show ?thesis
        proof (cases "ks = []")
          case True
          then obtain ls where "leaf_of path node = Inr ls"
            and "st' = st\<lparr> wk_visited := wk_visited st @ [path], wk_leaves := wk_leaves st @ ls \<rparr>"
            using w2 by (auto simp: ks try_bind_eq_Inr)
          then show ?thesis using new n Some ks True by (intro leaf) simp_all
        next
          case False
          then have "try_fold (visit_child F m) ks (st\<lparr> wk_visited := wk_visited st @ [path] \<rparr>) = Inr st'"
            using w2 by (simp add: ks)
          then show ?thesis using new n Some ks False by (intro inner)
        qed
      qed
    qed
  qed
qed

text \<open>What holds of every state on the way: leaves are pages that at most \<open>d\<close> links lead to, each once.\<close>

definition walk_ok :: "(string \<Rightarrow> json option) \<Rightarrow> string \<Rightarrow> nat \<Rightarrow> walk_state \<Rightarrow> bool" where
  "walk_ok F start d st \<longleftrightarrow> distinct (map lf_url (wk_leaves st)) \<and>
     (\<forall>l \<in> set (wk_leaves st). \<exists>k p. k \<le> d \<and> linked F start k p \<and> leaf_page F p l) \<and>
     lf_url ` set (wk_leaves st) \<subseteq> (@) ''https://www.gov.uk'' ` set (wk_visited st)"

lemma visit_child_JStr [simp]: "visit_child F m (JStr q, t, d) = walk_govuk F m q"
  by (intro ext) (simp add: visit_child_def)

lemma visit_child_odd: "(\<And>q. p \<noteq> JStr q) \<Longrightarrow> visit_child F m (p, t, d) s = Inr s' \<Longrightarrow> s' = s"
  by (cases p) (auto simp: visit_child_def odd_path_def split: if_splits)

lemma walk_ok_step:
  "walk_govuk F n path st = Inr st' \<Longrightarrow> walk_ok F start d st \<Longrightarrow> linked F start k path \<Longrightarrow> k + n = Suc d \<Longrightarrow> walk_ok F start d st'"
proof (induction n arbitrary: path st st' k)
  case 0
  from 0(1) show ?case using 0(2) by (cases rule: walk_cases) (auto simp: walk_ok_def)
next
  case (Suc n)
  from Suc.prems(1) show ?case
  proof (cases rule: walk_cases)
    case (inner m node ks)
    have n: "m = n" using inner(2) by simp
    show ?thesis
    proof (rule try_fold_rule [OF inner(6), of "walk_ok F start d"])
      show "walk_ok F start d (st\<lparr> wk_visited := wk_visited st @ [path] \<rparr>)" using Suc.prems(2) by (auto simp: walk_ok_def)
    next
      fix c s s'
      assume c: "c \<in> set ks" and ok: "walk_ok F start d s" and step: "visit_child F m c s = Inr s'"
      obtain p t e where c3: "c = (p, t, e)" by (cases c)
      show "walk_ok F start d s'"
      proof (cases "\<exists>q. p = JStr q")
        case True
        then obtain q where q: "p = JStr q" by blast
        have "linked F start (Suc k) q" using linked.child [OF Suc.prems(3) inner(3,4)] c c3 q by simp
        then show ?thesis using Suc.IH [of q s s' "Suc k"] step ok Suc.prems(4) by (simp add: c3 q n)
      next
        case False
        then show ?thesis using visit_child_odd [of p F m t e s s'] step ok by (simp add: c3)
      qed
    qed
  next
    case (leaf m node ls)
    then consider "ls = []" | l where "ls = [l]" "lf_url l = ''https://www.gov.uk'' @ path" using leaf_of_cases by blast
    then show ?thesis
    proof cases
      case 1
      then show ?thesis using Suc.prems(2) leaf by (auto simp: walk_ok_def)
    next
      case 2
      have "leaf_page F path l" using leaf 2 by (auto simp: leaf_page_def)
      moreover have "k \<le> d" using Suc.prems(4) by simp
      moreover have "lf_url l \<notin> lf_url ` set (wk_leaves st)" using Suc.prems(2) leaf(1) 2(2) by (auto simp: walk_ok_def)
      ultimately show ?thesis using Suc.prems(2,3) leaf(6) 2 by (auto simp: walk_ok_def)
    qed
  qed (use Suc.prems(2) in \<open>auto simp: walk_ok_def\<close>)
qed

text \<open>A page is done when its children are visited and what it adds is there; the walk finishes what it visits.\<close>

definition page_done :: "(string \<Rightarrow> json option) \<Rightarrow> walk_state \<Rightarrow> string \<Rightarrow> bool" where
  "page_done F st q \<longleftrightarrow> (\<forall>node. F q = Some node \<longrightarrow>
     (\<forall>ks c t d. govuk_child_paths node = Inr ks \<longrightarrow> (JStr c, t, d) \<in> set ks \<longrightarrow> c \<in> set (wk_visited st))) \<and>
     (\<forall>l. leaf_page F q l \<longrightarrow> l \<in> set (wk_leaves st))"

definition walked :: "(string \<Rightarrow> json option) \<Rightarrow> walk_state \<Rightarrow> walk_state \<Rightarrow> bool" where
  "walked F st st' \<longleftrightarrow> set (wk_visited st) \<subseteq> set (wk_visited st') \<and> set (wk_leaves st) \<subseteq> set (wk_leaves st') \<and>
     (\<forall>q \<in> set (wk_visited st') - set (wk_visited st). page_done F st' q)"

lemma walked_refl [simp]: "walked F st st"
  by (simp add: walked_def)

lemma page_done_mono:
  "page_done F st q \<Longrightarrow> set (wk_visited st) \<subseteq> set (wk_visited st') \<Longrightarrow> set (wk_leaves st) \<subseteq> set (wk_leaves st') \<Longrightarrow> page_done F st' q"
  unfolding page_done_def by blast

lemma walked_trans: "walked F a b \<Longrightarrow> walked F b c \<Longrightarrow> walked F a c"
  unfolding walked_def using page_done_mono [of F b _ c] by blast

text \<open>The page that was marked first is done once its children are.\<close>

lemma walked_mark:
  assumes "walked F (st\<lparr> wk_visited := wk_visited st @ [p] \<rparr>) st'" and "page_done F st' p"
  shows "walked F st st' \<and> p \<in> set (wk_visited st')"
  using assms by (auto simp: walked_def)

lemma walk_complete:
  assumes "\<And>ps. simple_route F start ps \<Longrightarrow> length ps \<le> Suc d"
  shows "walk_govuk F n path st = Inr st' \<Longrightarrow> set ps \<subseteq> set (wk_visited st) \<Longrightarrow> length ps + n = Suc d \<Longrightarrow>
    (path \<notin> set ps \<Longrightarrow> simple_route F start (ps @ [path])) \<Longrightarrow> walked F st st' \<and> path \<in> set (wk_visited st')"
proof (induction n arbitrary: path st st' ps)
  case 0
  then have "path \<in> set ps" using assms [of "ps @ [path]"] by auto
  then have "path \<in> set (wk_visited st)" using 0(2) by blast
  then show ?case using 0(1) by (simp add: walk_govuk.simps)
next
  case (Suc n)
  from Suc.prems(1) show ?case
  proof (cases rule: walk_cases)
    case seen
    then show ?thesis by simp
  next
    case deep
    then show ?thesis by simp
  next
    case (dead m)
    then have "page_done F st' path" by (simp add: page_done_def leaf_page_def)
    then show ?thesis using walked_mark [of F st path st'] dead(4) by simp
  next
    case (leaf m node ls)
    then have "page_done F st' path" by (auto simp: page_done_def leaf_page_def)
    then show ?thesis using walked_mark [of F st path st'] leaf(6) by (auto simp: walked_def)
  next
    case (inner m node ks)
    have n: "m = n" using inner(2) by simp
    let ?st1 = "st\<lparr> wk_visited := wk_visited st @ [path] \<rparr>"
    have here: "simple_route F start (ps @ [path])" using Suc.prems(2,4) inner(1) by blast
    have len: "length (ps @ [path]) + n = Suc d" using Suc.prems(3) by simp
    have "walked F s s' \<and> (\<forall>c t e. (JStr c, t, e) \<in> set xs \<longrightarrow> c \<in> set (wk_visited s'))"
      if "try_fold (visit_child F m) xs s = Inr s'" "set xs \<subseteq> set ks" "set (ps @ [path]) \<subseteq> set (wk_visited s)" for xs s s'
      using that
    proof (induction xs arbitrary: s)
      case (Cons x xs)
      then obtain u where u: "visit_child F m x s = Inr u" "try_fold (visit_child F m) xs u = Inr s'"
        by (auto simp: try_bind_eq_Inr)
      obtain p t e where x: "x = (p, t, e)" by (cases x)
      have one: "walked F s u \<and> (\<forall>q. p = JStr q \<longrightarrow> q \<in> set (wk_visited u))"
      proof (cases "\<exists>q. p = JStr q")
        case True
        then obtain q where q: "p = JStr q" by blast
        have "child_of F (last (ps @ [path])) q" using inner(3,4) Cons.prems(2) x q by (auto simp: child_of_def)
        then have "q \<notin> set (ps @ [path]) \<Longrightarrow> simple_route F start ((ps @ [path]) @ [q])" using here simple_route.onward by blast
        then show ?thesis using Suc.IH [OF _ Cons.prems(3) len, of q u] u(1) by (simp add: x q n)
      next
        case False
        then show ?thesis using visit_child_odd [of p F m t e s u] u(1) by (auto simp: x)
      qed
      then have "set (ps @ [path]) \<subseteq> set (wk_visited u)" using Cons.prems(3) by (auto simp: walked_def)
      then have rest: "walked F u s' \<and> (\<forall>c t e. (JStr c, t, e) \<in> set xs \<longrightarrow> c \<in> set (wk_visited s'))"
        using Cons.IH [OF u(2)] Cons.prems(2) by simp
      moreover from one rest have "walked F s s'" using walked_trans by blast
      moreover have "set (wk_visited u) \<subseteq> set (wk_visited s')" using rest by (simp add: walked_def)
      ultimately show ?case using one unfolding x set_simps insert_iff prod.inject by blast
    qed simp
    from this [OF inner(6) order_refl] Suc.prems(2) have w: "walked F ?st1 st'" and
      kids: "\<And>c t e. (JStr c, t, e) \<in> set ks \<Longrightarrow> c \<in> set (wk_visited st')" by auto
    have "page_done F st' path" using inner(3,4,5) kids by (auto simp: page_done_def leaf_page_def)
    then show ?thesis using walked_mark [OF w] by simp
  qed
qed

section \<open>Lemmas on the run\<close>

lemma ingest_pdf_item_store:
  "\<exists>src. cp_store (fst (ingest_pdf_item W E tid force item c)) \<in> {cp_store c, fst (ingest_one E tid src (cp_store c))}"
  unfolding ingest_pdf_item_def
  by (auto split: sum.split prod.split bool.split) (metis fst_conv)

lemma ingest_chapters_ok:
  "store_ok u st \<Longrightarrow> inj u \<Longrightarrow> ie_uuid E = u \<Longrightarrow> store_ok u (fst (ingest_chapters E tid item chs st))"
proof (induction chs arbitrary: st)
  case (Cons ch chs)
  have "store_ok u (fst (ingest_one E tid (chapter_source item ch) st))" using ingest_one_ok Cons.prems by blast
  then show ?case using Cons by (simp add: split_beta)
qed simp

lemma ingest_chapters_length: "length (snd (ingest_chapters E tid item chs st)) = length chs"
  by (induction chs arbitrary: st) (simp_all add: split_beta)

lemma manual_item_ok:
  assumes "store_ok u st" "inj u" "ie_uuid E = u"
  shows "store_ok u (fst (ingest_govuk_manual_item F E tid item st))"
  using assms ingest_chapters_ok [OF assms]
  by (simp add: ingest_govuk_manual_item_def Let_def split_beta split: json.split sum.split)

text \<open>The invariant looks at no more than the ids, tenants and sources of the rows.\<close>

abbreviation row_names :: "'v store \<Rightarrow> (uuid \<times> uuid \<times> string) list" where
  "row_names st \<equiv> map (\<lambda>d. (dc_id d, dc_tenant d, dc_uri d)) (so_docs st)"

lemma store_ok_same_rows:
  assumes "row_names st' = row_names st" and "so_chunks st' = so_chunks st" and "so_drawn st' = so_drawn st" and "store_ok u st"
  shows "store_ok u st'"
proof -
  have ids: "map dc_id (so_docs st') = map dc_id (so_docs st)"
    using arg_cong [OF assms(1), of "map fst"] by (simp add: comp_def)
  have keys: "map (\<lambda>d. (dc_tenant d, dc_uri d)) (so_docs st') = map (\<lambda>d. (dc_tenant d, dc_uri d)) (so_docs st)"
    using arg_cong [OF assms(1), of "map snd"] by (simp add: comp_def)
  have names: "set (row_names st') = set (row_names st)" using assms(1) by (simp only:)
  have "(\<exists>d \<in> set (so_docs st'). i = dc_id d \<and> t = dc_tenant d) \<longleftrightarrow> (\<exists>x. (i, t, x) \<in> set (row_names st'))" for i t by auto
  moreover have "(\<exists>d \<in> set (so_docs st). i = dc_id d \<and> t = dc_tenant d) \<longleftrightarrow> (\<exists>x. (i, t, x) \<in> set (row_names st))" for i t by auto
  ultimately have "(\<exists>d \<in> set (so_docs st'). i = dc_id d \<and> t = dc_tenant d) \<longleftrightarrow> (\<exists>d \<in> set (so_docs st). i = dc_id d \<and> t = dc_tenant d)" for i t
    by (simp only: names)
  moreover have "dc_id ` set (so_docs st') = dc_id ` set (so_docs st)" using ids by (metis set_map)
  ultimately show ?thesis using assms(2-4) ids keys by (simp only: store_ok_def drawn_ids_def simp_thms) (elim conjE, assumption)
qed

lemma patch_doc_ok: "patch_doc tid uri ty st = Inr st' \<Longrightarrow> store_ok u st \<Longrightarrow> store_ok u st'"
  by (rule store_ok_same_rows) (auto simp: patch_doc_def split: if_splits json.splits)

lemma run_item_ok:
  assumes "store_ok u (cp_store (fst s))" "inj u" "ie_uuid E = u"
  shows "store_ok u (cp_store (fst (run_item W F E tid force item s)))"
proof -
  obtain c t where s: "s = (c, t)" by (cases s)
  obtain c1 r where p: "ingest_pdf_item W E tid force item c = (c1, r)" by (cases "ingest_pdf_item W E tid force item c")
  obtain st q where m: "ingest_govuk_manual_item F E tid item (cp_store c) = (st, q)"
    by (cases "ingest_govuk_manual_item F E tid item (cp_store c)")
  have c1: "store_ok u (cp_store c1)"
    using ingest_pdf_item_store [of W E tid force item c] ingest_one_ok [OF _ assms(2,3)] assms(1) by (auto simp: s p)
  have st: "store_ok u st" using manual_item_ok [of u "cp_store c" E F tid item] assms by (simp add: s m)
  show ?thesis using c1 st assms(1) patch_doc_ok
    by (auto simp: run_item_def s p m Let_def try_bind_eq_Inr split: sum.split item_status.split)
qed

lemma run_items_ok:
  "store_ok u (cp_store (fst s)) \<Longrightarrow> inj u \<Longrightarrow> ie_uuid E = u \<Longrightarrow>
   store_ok u (cp_store (fst (fst (run_items W F E tid force items s))))"
proof (induction items arbitrary: s)
  case (Cons item items)
  then have "store_ok u (cp_store (fst (run_item W F E tid force item s)))" by (intro run_item_ok) auto
  then show ?case using Cons by (simp split: sum.split)
qed simp

definition tally_sum :: "tallies \<Rightarrow> nat" where
  "tally_sum t = rt_ok t + rt_skipped t + rt_failed t"

lemma length_statuses:
  "length ss = length (filter (\<lambda>s. s = Done) ss) + length (filter (\<lambda>s. s = Skipped) ss) + length (filter (\<lambda>s. s = Failed) ss)"
  by (induction ss) (auto split: item_status.splits, (metis item_status.exhaust)+)

lemma tally_sum_tally [simp]: "tally_sum (tally ss t) = tally_sum t + length ss"
  using length_statuses [of ss] by (simp add: tally_sum_def tally_def)

lemma manual_item_rows: "snd (ingest_govuk_manual_item F E tid item st) = Inr rows \<Longrightarrow> rows \<noteq> []"
  using ingest_chapters_length [of E tid item]
  by (auto simp: ingest_govuk_manual_item_def Let_def split_beta split: json.splits sum.splits if_splits)
    (metis length_0_conv list.size(3))

lemma run_item_counts: "tally_sum (snd s) < tally_sum (snd (run_item W F E tid force item s))"
proof -
  obtain c t where s: "s = (c, t)" by (cases s)
  obtain st q where m: "ingest_govuk_manual_item F E tid item (cp_store c) = (st, q)"
    by (cases "ingest_govuk_manual_item F E tid item (cp_store c)")
  have "q = Inr rows \<Longrightarrow> rows \<noteq> []" for rows using manual_item_rows [of F E tid item "cp_store c" rows] by (simp add: m)
  then show ?thesis by (auto simp: run_item_def s m Let_def split: sum.split item_status.split prod.split)
qed

lemma run_items_counts:
  "snd (run_items W F E tid force items s) = Inr () \<Longrightarrow>
   tally_sum (snd s) + length items \<le> tally_sum (snd (fst (run_items W F E tid force items s)))"
proof (induction items arbitrary: s)
  case (Cons item items)
  then obtain v where v: "item_label item = Inr v" by (cases "item_label item") auto
  then have "tally_sum (snd (run_item W F E tid force item s)) + length items \<le>
      tally_sum (snd (fst (run_items W F E tid force (item # items) s)))"
    using Cons.IH [of "run_item W F E tid force item s"] Cons.prems by simp
  then show ?case using run_item_counts [of s W F E tid force item] by simp
qed simp

lemma run_items_total:
  "\<forall>i \<in> set items. item_label i = Inr () \<Longrightarrow> snd (run_items W F E tid force items s) = Inr ()"
  by (induction items arbitrary: s) auto

lemma run_items_labels:
  "snd (run_items W F E tid force items s) = Inr () \<longleftrightarrow> (\<forall>i \<in> set items. item_label i = Inr ())"
  by (induction items arbitrary: s) (auto split: sum.split)

section \<open>Properties\<close>

text \<open>
  C35. The walk over a manual ends with pages without children that at most \<open>max_depth\<close> links lead to, each
  once, with the text they have; and when no route that meets a page only once has more than \<open>max_depth\<close> links, which
  a manual with loops and shared chapters can satisfy, it returns all such pages that any links lead to.
\<close>

theorem manual_walk:
  assumes "crawl_govuk_manual F start d = Inr leaves"
  shows "distinct (map lf_url leaves) \<and>
    (\<forall>l \<in> set leaves. \<exists>k p. k \<le> d \<and> linked F start k p \<and> leaf_page F p l) \<and>
    ((\<forall>ps. simple_route F start ps \<longrightarrow> length ps \<le> Suc d) \<longrightarrow> (\<forall>k p l. linked F start k p \<longrightarrow> leaf_page F p l \<longrightarrow> l \<in> set leaves))"
proof -
  let ?st0 = "\<lparr> wk_visited = [], wk_leaves = [] \<rparr>"
  obtain st where st: "walk_govuk F (Suc d) start ?st0 = Inr st" and leaves: "leaves = wk_leaves st"
    using assms by (auto simp: crawl_govuk_manual_def try_bind_eq_Inr)
  have ok: "walk_ok F start d st" using walk_ok_step [OF st _ linked.here] by (simp add: walk_ok_def)
  have "l \<in> set leaves" if deep: "\<forall>ps. simple_route F start ps \<longrightarrow> length ps \<le> Suc d" and p: "linked F start k p" and l: "leaf_page F p l" for k p l
  proof -
    have w: "walked F ?st0 st" "start \<in> set (wk_visited st)" using walk_complete [OF _ st, of start d "[]"] deep simple_route.front [of F start] by auto
    then have all_done: "q \<in> set (wk_visited st) \<Longrightarrow> page_done F st q" for q by (simp add: walked_def)
    have "p \<in> set (wk_visited st)" using p
    proof (induction rule: linked.induct)
      case (child k p node ks q t e)
      then show ?case using all_done [of p] unfolding page_done_def by blast
    qed (rule w(2))
    then show ?thesis using all_done [of p] l by (simp add: page_done_def leaves)
  qed
  then show ?thesis using ok by (auto simp: walk_ok_def leaves)
qed

definition page_node :: "string list \<Rightarrow> string \<Rightarrow> json" where
  "page_node kids body =
     JObj [(''title'', JStr ''T''), (''details'', JObj [(''body'', JStr body),
       (''child_section_groups'', JList [JObj [(''child_sections'', JList (map (\<lambda>k. JObj [(''base_path'', JStr k)]) kids))]])])]"

definition sample_manual :: "string \<Rightarrow> json option" where
  "sample_manual = map_of [(''/m'', page_node [''/a'', ''/b''] []), (''/a'', page_node [''/b'', ''/m''] []), (''/b'', page_node [] ''Rule'')]"

lemma sample_manual_crawl: "crawl_govuk_manual sample_manual ''/m'' 6 =
    Inr [\<lparr> lf_title = JStr ''T'', lf_url = ''https://www.gov.uk/b'', lf_html = wrap_html (JStr ''Rule'') (JStr ''T'') \<rparr>]"
  by code_simp

lemma sample_manual_routes: "simple_route sample_manual ''/m'' ps \<Longrightarrow> distinct ps \<and> set ps \<subseteq> {''/m'', ''/a'', ''/b''}"
proof (induction rule: simple_route.induct)
  case (onward ps q)
  have "govuk_child_paths (page_node [''/a'', ''/b''] []) = Inr [(JStr ''/a'', JNull, JNull), (JStr ''/b'', JNull, JNull)]"
    "govuk_child_paths (page_node [''/b'', ''/m''] []) = Inr [(JStr ''/b'', JNull, JNull), (JStr ''/m'', JNull, JNull)]"
    "govuk_child_paths (page_node [] ''Rule'') = Inr []"
    by code_simp+
  then have "q \<in> {''/m'', ''/a'', ''/b''}"
    using onward(2) by (auto simp: child_of_def sample_manual_def split: if_splits)
  then show ?case using onward(3,4) by auto
qed simp

theorem manual_walk_witness:
  "\<exists>leaves l. crawl_govuk_manual sample_manual ''/m'' 6 = Inr leaves \<and> linked sample_manual ''/m'' 2 ''/b'' \<and>
     leaf_page sample_manual ''/b'' l \<and> l \<in> set leaves"
proof -
  let ?l = "\<lparr> lf_title = JStr ''T'', lf_url = ''https://www.gov.uk/b'', lf_html = wrap_html (JStr ''Rule'') (JStr ''T'') \<rparr>"
  have "length ps \<le> Suc 6" if "simple_route sample_manual ''/m'' ps" for ps
  proof -
    have "length ps = card (set ps)" using sample_manual_routes [OF that] by (simp add: distinct_card)
    also have "\<dots> \<le> card {''/m'', ''/a'', ''/b''}" using sample_manual_routes [OF that] by (intro card_mono) simp_all
    finally show ?thesis by simp
  qed
  moreover have "linked sample_manual ''/m'' 2 ''/b''"
  proof -
    have m: "sample_manual ''/m'' = Some (page_node [''/a'', ''/b''] [])" "sample_manual ''/a'' = Some (page_node [''/b'', ''/m''] [])"
      "govuk_child_paths (page_node [''/a'', ''/b''] []) = Inr [(JStr ''/a'', JNull, JNull), (JStr ''/b'', JNull, JNull)]"
      "govuk_child_paths (page_node [''/b'', ''/m''] []) = Inr [(JStr ''/b'', JNull, JNull), (JStr ''/m'', JNull, JNull)]"
      by code_simp+
    have "linked sample_manual ''/m'' (Suc 0) ''/a''" by (rule linked.child [OF linked.here [of sample_manual "''/m''"] m(1,3)]) simp
    from linked.child [OF this m(2,4)] show ?thesis by (simp add: numeral_2_eq_2)
  qed
  moreover have "leaf_page sample_manual ''/b'' ?l"
  proof -
    have "sample_manual ''/b'' = Some (page_node [] ''Rule'')" "govuk_child_paths (page_node [] ''Rule'') = Inr []"
      "leaf_of ''/b'' (page_node [] ''Rule'') = Inr [?l]"
      by code_simp+
    then show ?thesis unfolding leaf_page_def by blast
  qed
  ultimately show ?thesis using manual_walk [OF sample_manual_crawl] sample_manual_crawl by blast
qed

definition deep_manual :: "string \<Rightarrow> json option" where
  "deep_manual = map_of [(''/m'', page_node [''/a'', ''/x''] []), (''/a'', page_node [''/b''] []), (''/b'', page_node [''/c''] []),
     (''/c'', page_node [''/d''] []), (''/d'', page_node [''/e''] []), (''/e'', page_node [''/f''] []),
     (''/f'', page_node [''/x''] []), (''/x'', page_node [] ''Rule'')]"

text \<open>
  A page that the walk meets first on a route of more than \<open>max_depth\<close> links is marked as visited before the
  depth is checked, and is then skipped where a chapter links to it directly: a manual of eight pages of which the only
  one with text is linked from its front page comes out empty.
\<close>

theorem deep_link_hides_page:
  "linked deep_manual ''/m'' 1 ''/x'' \<and> (\<exists>l. leaf_page deep_manual ''/x'' l) \<and> crawl_govuk_manual deep_manual ''/m'' 6 = Inr []"
proof (intro conjI)
  have m: "deep_manual ''/m'' = Some (page_node [''/a'', ''/x''] [])" by code_simp
  have ks: "govuk_child_paths (page_node [''/a'', ''/x''] []) = Inr [(JStr ''/a'', JNull, JNull), (JStr ''/x'', JNull, JNull)]"
    by code_simp
  have "(JStr ''/x'', JNull, JNull) \<in> set [(JStr ''/a'', JNull, JNull), (JStr ''/x'', JNull, JNull)]" by simp
  from linked.child [OF linked.here [of deep_manual "''/m''"] m ks this] show "linked deep_manual ''/m'' 1 ''/x''" by (simp only: One_nat_def)
  have "deep_manual ''/x'' = Some (page_node [] ''Rule'')" "govuk_child_paths (page_node [] ''Rule'') = Inr []"
    "leaf_of ''/x'' (page_node [] ''Rule'') = Inr [\<lparr> lf_title = JStr ''T'', lf_url = ''https://www.gov.uk/x'', lf_html = wrap_html (JStr ''Rule'') (JStr ''T'') \<rparr>]"
    by code_simp+
  then show "\<exists>l. leaf_page deep_manual ''/x'' l" unfolding leaf_page_def by blast
  show "crawl_govuk_manual deep_manual ''/m'' 6 = Inr []" by code_simp
qed

text \<open>
  The cache of downloads is keyed by the last segment of the URL: once a file of that name is there, an item is
  ingested with its bytes under the item's own URL, and the network is not asked, whatever the rest of the URL is.
\<close>

theorem cached_bytes_stand:
  assumes "item_url item = Inr url" and "cp_files c (safe_filename url) = Some b" and "b \<noteq> []"
    and "\<not> is_directory (safe_filename url)"
  shows "ingest_pdf_item W E tid False item c =
    (case ingest_one E tid (pdf_source (ie_guess E) item url b) (cp_store c) of
       (st, r) \<Rightarrow> (c\<lparr> cp_store := st \<rparr>, Inr (classify r)))"
  using assms by (simp add: ingest_pdf_item_def download_def read_bytes_def split: prod.split)

definition other_item :: jdict where
  "other_item = [(''type'', JStr ''pdf''), (''url'', JStr ''https://pra.example/2024/policy.md''), (''name'', JStr ''PRA policy'')]"

definition cached_corpus :: "unit corpus" where
  "cached_corpus = \<lparr> cp_store = no_store, cp_files = [''policy.md'' \<mapsto> ''the FCA policy''] \<rparr>"

lemma other_item_facts:
  "item_url other_item = Inr ''https://pra.example/2024/policy.md''"
  "safe_filename ''https://pra.example/2024/policy.md'' = ''policy.md''" "\<not> is_directory ''policy.md''"
  by code_simp+

lemma cached_corpus_file: "cp_files cached_corpus (safe_filename ''https://pra.example/2024/policy.md'') = Some ''the FCA policy''"
  by (simp add: cached_corpus_def other_item_facts)

lemma other_item_stored:
  "map (\<lambda>d. (dc_uri d, dc_hash d)) (so_docs (fst (ingest_one sample_ingest ''t''
     (pdf_source (ie_guess sample_ingest) other_item ''https://pra.example/2024/policy.md'' ''the FCA policy'') no_store))) =
   [(''https://pra.example/2024/policy.md'', Some ''the FCA policy'')]"
  by code_simp

theorem cached_bytes_stand_witness:
  "map (\<lambda>d. (dc_uri d, dc_hash d)) (so_docs (cp_store (fst (ingest_pdf_item (\<lambda>u. Some ''the PRA policy'') sample_ingest ''t'' False
     other_item cached_corpus)))) = [(''https://pra.example/2024/policy.md'', Some ''the FCA policy'')]"
proof -
  have upd: "cp_store (cached_corpus\<lparr> cp_store := st \<rparr>) = st" for st by simp
  have c: "cp_store cached_corpus = no_store" by (simp add: cached_corpus_def)
  have d: "\<not> is_directory (safe_filename ''https://pra.example/2024/policy.md'')" by code_simp
  show ?thesis
    unfolding cached_bytes_stand [OF other_item_facts(1) cached_corpus_file list.distinct(2) d, of "\<lambda>u. Some ''the PRA policy''" sample_ingest "''t''"] c
    by (simp only: split_beta fst_conv upd other_item_stored)
qed

text \<open>
  A run over the items keeps the invariant of the store and goes through to its end exactly when the label of every
  item can be printed: whatever fails inside of an item is counted, every item leaves at least one count, but an item
  whose regulator is null ends the run with those after it.
\<close>

theorem handbook_run:
  assumes "store_ok u (cp_store c)" and "inj u" and "ie_uuid E = u"
    and "run_items W F E tid force items (c, \<lparr> rt_ok = 0, rt_skipped = 0, rt_failed = 0 \<rparr>) = ((c', t), r)"
  shows "store_ok u (cp_store c') \<and> (r = Inr () \<longleftrightarrow> (\<forall>i \<in> set items. item_label i = Inr ())) \<and>
    (r = Inr () \<longrightarrow> length items \<le> rt_ok t + rt_skipped t + rt_failed t)"
  using run_items_ok [of u "(c, \<lparr> rt_ok = 0, rt_skipped = 0, rt_failed = 0 \<rparr>)" E W F tid force items] assms
    run_items_labels [of W F E tid force items "(c, \<lparr> rt_ok = 0, rt_skipped = 0, rt_failed = 0 \<rparr>)"]
    run_items_counts [of W F E tid force items "(c, \<lparr> rt_ok = 0, rt_skipped = 0, rt_failed = 0 \<rparr>)"]
  by (simp add: tally_sum_def)

theorem handbook_run_witness:
  "\<exists>c t. run_items (\<lambda>u. None) (\<lambda>p. None) sample_ingest ''t'' False [other_item] (cached_corpus, \<lparr> rt_ok = 0, rt_skipped = 0, rt_failed = 0 \<rparr>) =
     ((c, t), Inr ()) \<and> store_ok sample_ids (cp_store c) \<and> 1 \<le> rt_ok t + rt_skipped t + rt_failed t"
proof -
  obtain c t r where run: "run_items (\<lambda>u. None) (\<lambda>p. None) sample_ingest ''t'' False [other_item]
      (cached_corpus, \<lparr> rt_ok = 0, rt_skipped = 0, rt_failed = 0 \<rparr>) = ((c, t), r)"
    by (metis surj_pair)
  have ok: "store_ok sample_ids (cp_store cached_corpus)" by (simp add: cached_corpus_def no_store_def store_ok_def)
  have l: "item_label other_item = Inr ()" by code_simp
  have "store_ok sample_ids (cp_store c) \<and> r = Inr () \<and> 1 \<le> rt_ok t + rt_skipped t + rt_failed t"
    using handbook_run [OF ok inj_sample_ids sample_uuid run] l by simp
  then show ?thesis using run by blast
qed

end
