(* ===== verification/FosCorpus.thy ===== *)
theory FosCorpus
  imports HandbookCorpus Prompts
begin

text \<open>
  The ingester of the ombudsman's decisions: the cards of a result page (\<open>corpus/uk_finreg/fos_parser.py\<close>), the
  crawl over the result pages with its cut-off date, one decision, the run and the daily incremental run
  (\<open>corpus/uk_finreg/fos_ingester.py\<close>).  What the HTML library selects on a page, \<open>urljoin\<close>, the network and
  the rules of \<open>robots.txt\<close> are parameters.
\<close>

section \<open>Dates\<close>

text \<open>Year, month and day.\<close>

type_synonym fos_date = "nat \<times> nat \<times> nat"

fun date_before :: "fos_date \<Rightarrow> fos_date \<Rightarrow> bool" where
  "date_before (y, m, d) (z, n, e) = (y < z \<or> y = z \<and> (m < n \<or> m = n \<and> d < e))"

definition some_if :: "bool \<Rightarrow> 'a \<Rightarrow> 'a option" where
  "some_if b x = (if b then Some x else None)"

text \<open>\<open>%d\<close> and \<open>%m\<close>: one or two digits; \<open>%Y\<close>: four.\<close>

definition short_number :: "string \<Rightarrow> nat option" where
  "short_number s = some_if (list_all is_digit s \<and> (length s = 1 \<or> length s = 2)) (digits_num s)"

definition year_number :: "string \<Rightarrow> nat option" where
  "year_number s = some_if (list_all is_digit s \<and> length s = 4) (digits_num s)"

definition make_date :: "nat option \<Rightarrow> nat option \<Rightarrow> nat option \<Rightarrow> fos_date option" where
  "make_date y m d =
     (case (y, m, d) of (Some a, Some b, Some c) \<Rightarrow> some_if (valid_date (a, b, c)) (a, b, c) | _ \<Rightarrow> None)"

definition month_number :: "string list \<Rightarrow> string \<Rightarrow> nat option" where
  "month_number names m = map_of (zip names [1..<13]) (lower m)"

definition words_date :: "string list \<Rightarrow> string \<Rightarrow> fos_date option" where
  "words_date names s =
     (if strip s \<noteq> s then None
      else case py_split s of
        [d, m, y] \<Rightarrow> make_date (year_number y) (month_number names m) (short_number d)
      | _ \<Rightarrow> None)"

definition last_number :: "string \<Rightarrow> nat option" where
  "last_number s =
     (case s of
        [a, b] \<Rightarrow> if a = CHR '' '' then short_number [b] else short_number s
      | _ \<Rightarrow> short_number s)"

definition iso_date :: "string \<Rightarrow> fos_date option" where
  "iso_date s =
     (case split_char (CHR ''-'') s of
        [y, m, d] \<Rightarrow> make_date (year_number y) (short_number m) (last_number d)
      | _ \<Rightarrow> None)"

definition slash_date :: "string \<Rightarrow> fos_date option" where
  "slash_date s =
     (case split_char (CHR ''/'') s of
        [d, m, y] \<Rightarrow> make_date (year_number y) (short_number m) (short_number d)
      | _ \<Rightarrow> None)"

definition parse_date :: "string option \<Rightarrow> fos_date option" where
  "parse_date t =
     (if \<not> str_true t then None
      else
        let s = rstrip_of (\<lambda>c. c = CHR ''.'' \<or> c = CHR '','') (strip (the t)) in
        case words_date MONTHS s of Some d \<Rightarrow> Some d
        | None \<Rightarrow> (case words_date (map (take 3) MONTHS) s of Some d \<Rightarrow> Some d
        | None \<Rightarrow> (case iso_date s of Some d \<Rightarrow> Some d | None \<Rightarrow> slash_date s)))"

definition date_iso :: "fos_date \<Rightarrow> string" where
  "date_iso d = (case d of (y, m, e) \<Rightarrow> pad_int 4 (int y) @ ''-'' @ pad_int 2 (int m) @ ''-'' @ pad_int 2 (int e))"

section \<open>References, outcomes and dates in a text\<close>

text \<open>\<open>DRN[-_]?(\d{4,8})\<close> in any case.\<close>

definition drn_at :: "string \<Rightarrow> string option" where
  "drn_at s =
     (if \<not> startswith ''drn'' (lower s) then None
      else
        let r = drop 3 s;
            u = (if r \<noteq> [] \<and> (hd r = CHR ''-'' \<or> hd r = CHR ''_'') then tl r else r);
            ds = take 8 (takeWhile is_digit u)
        in some_if (4 \<le> length ds) ds)"

fun drn_search :: "string \<Rightarrow> string option" where
  "drn_search [] = None"
| "drn_search (c # s) = (case drn_at (c # s) of Some ds \<Rightarrow> Some ds | None \<Rightarrow> drn_search s)"

definition extract_outcome :: "string \<Rightarrow> string option" where
  "extract_outcome t =
     (let low = lower t in
       if contains ''partially upheld'' low then Some ''partially upheld''
       else if contains ''not upheld'' low then Some ''not upheld''
       else if contains ''upheld'' low then Some ''upheld''
       else None)"

text \<open>\<open>\d{1,2}\s+\w+\s+\d{4}\<close> at the start of a text, and all its matches.\<close>

definition date_token :: "string \<Rightarrow> (string \<times> string) option" where
  "date_token s =
     (let a = takeWhile is_digit s; s1 = drop (length a) s;
          b = takeWhile is_space s1; s2 = drop (length b) s1;
          w = takeWhile is_word s2; s3 = drop (length w) s2;
          e = takeWhile is_space s3; s4 = drop (length e) s3
      in some_if (a \<noteq> [] \<and> length a \<le> 2 \<and> b \<noteq> [] \<and> w \<noteq> [] \<and> e \<noteq> [] \<and> length (take 4 s4) = 4 \<and> list_all is_digit (take 4 s4))
           (a @ b @ w @ e @ take 4 s4, drop 4 s4))"

lemma date_token_shorter: "date_token s = Some (t, r) \<Longrightarrow> length r < length s"
  by (auto simp: date_token_def Let_def some_if_def split: if_splits)

function date_tokens :: "string \<Rightarrow> string list" where
  "date_tokens s =
     (case date_token s of
        Some (t, r) \<Rightarrow> t # date_tokens r
      | None \<Rightarrow> (case s of [] \<Rightarrow> [] | c # r \<Rightarrow> date_tokens r))"
  by pat_completeness auto
termination by (relation "measure length") (auto dest: date_token_shorter)

declare date_tokens.simps [simp del]

section \<open>Result pages\<close>

text \<open>
  An element has its \<open>datetime\<close> attribute and its text, joined by blanks or not; a card has its text, the links in
  it and what a CSS selector finds first; a page has the cards of the known classes and its links with the block
  around each.
\<close>

record element =
  el_datetime :: "string option"
  el_text :: string
  el_tight :: string

record card =
  cd_text :: string
  cd_links :: "(string \<times> string) list"
  cd_select :: "string \<Rightarrow> element option"

record fos_page =
  fp_cards :: "card list"
  fp_links :: "(string \<times> card) list"

record fos_decision =
  fd_drn :: string
  fd_decision_url :: string
  fd_pdf_url :: string
  fd_business :: "string option"
  fd_product :: "string option"
  fd_outcome :: "string option"
  fd_date :: "fos_date option"
  fd_title :: string

definition FOS_BASE :: string where
  "FOS_BASE = ''https://www.financial-ombudsman.org.uk''"

definition page_cards :: "fos_page \<Rightarrow> card list" where
  "page_cards p =
     (if fp_cards p \<noteq> [] then fp_cards p
      else map snd (filter (\<lambda>(href, c). contains ''/decision/'' href \<and> drn_search href \<noteq> None) (fp_links p)))"

definition first_of :: "('a \<Rightarrow> 'b option) \<Rightarrow> 'a list \<Rightarrow> 'b option" where
  "first_of f xs = (case List.map_filter f xs of [] \<Rightarrow> None | y # ys \<Rightarrow> Some y)"

definition card_drn :: "card \<Rightarrow> string option" where
  "card_drn c =
     (case drn_search (cd_text c) of
        Some d \<Rightarrow> Some d
      | None \<Rightarrow> first_of (\<lambda>(href, t). drn_search href) (cd_links c))"

definition class_selector :: "string \<Rightarrow> string" where
  "class_selector l = ''.'' @ l @ '', [data-'' @ l @ '']''"

definition labelled :: "card \<Rightarrow> string list \<Rightarrow> string option" where
  "labelled c ls = map_option el_text (first_of (\<lambda>l. cd_select c (class_selector l)) ls)"

definition card_date :: "card \<Rightarrow> fos_date option" where
  "card_date c =
     (case first_of (\<lambda>l. case cd_select c (class_selector l @ '', time'') of
          None \<Rightarrow> None
        | Some el \<Rightarrow> parse_date (Some (if str_true (el_datetime el) then the (el_datetime el) else el_tight el)))
        [''date'', ''result-date'', ''published''] of
        Some d \<Rightarrow> Some d
      | None \<Rightarrow> first_of (\<lambda>t. parse_date (Some t)) (date_tokens (cd_text c)))"

definition decision_of :: "(string \<Rightarrow> exn + string) \<Rightarrow> card \<Rightarrow> string \<Rightarrow> exn + fos_decision" where
  "decision_of join_url c ds =
     (let drn = ''DRN-'' @ ds;
          anchor = find (\<lambda>(href, t). contains ''/decision/'' href \<and> contains ds href) (cd_links c);
          title = (case anchor of Some (h, t) \<Rightarrow> t | None \<Rightarrow> drn)
      in try_bind (case anchor of Some (h, t) \<Rightarrow> join_url h | None \<Rightarrow> Inr (FOS_BASE @ ''/decision/'' @ drn)) (\<lambda>url.
        Inr \<lparr> fd_drn = drn, fd_decision_url = url, fd_pdf_url = FOS_BASE @ ''/decision/'' @ drn @ ''.pdf'',
          fd_business = labelled c [''business'', ''respondent'', ''company'', ''result-business''],
          fd_product = labelled c [''product'', ''category'', ''result-product''],
          fd_outcome = extract_outcome (cd_text c), fd_date = card_date c,
          fd_title = (if title = [] then drn else title) \<rparr>))"

fun card_loop :: "(string \<Rightarrow> exn + string) \<Rightarrow> string list \<Rightarrow> card list \<Rightarrow> exn + fos_decision list" where
  "card_loop join_url seen [] = Inr []"
| "card_loop join_url seen (c # cs) =
     (case card_drn c of
        None \<Rightarrow> card_loop join_url seen cs
      | Some ds \<Rightarrow>
          if ds \<in> set seen then card_loop join_url seen cs
          else try_bind (decision_of join_url c ds) (\<lambda>d.
            try_bind (card_loop join_url (ds # seen) cs) (\<lambda>rest. Inr (d # rest))))"

definition parse_search_page :: "(string \<Rightarrow> exn + string) \<Rightarrow> fos_page \<Rightarrow> exn + fos_decision list" where
  "parse_search_page join_url p = card_loop join_url [] (page_cards p)"

section \<open>The crawl\<close>

record fos_web =
  fw_page :: "nat \<Rightarrow> fos_page option"
  fw_join :: "string \<Rightarrow> exn + string"
  fw_robots :: "(string \<Rightarrow> bool) option"
  fw_pdf :: "string \<Rightarrow> string option"

definition check_robots :: "fos_web \<Rightarrow> bool" where
  "check_robots W =
     (case fw_robots W of
        None \<Rightarrow> True
      | Some can_fetch \<Rightarrow> list_all (\<lambda>p. can_fetch (FOS_BASE @ p)) [''/decisions-database/'', ''/decision/''])"

definition before_cutoff :: "fos_date option \<Rightarrow> fos_decision \<Rightarrow> bool" where
  "before_cutoff since d =
     (case since of None \<Rightarrow> False | Some s \<Rightarrow> (case fd_date d of None \<Rightarrow> False | Some e \<Rightarrow> date_before e s))"

fun crawl_pages :: "fos_web \<Rightarrow> fos_date option \<Rightarrow> nat list \<Rightarrow> exn + fos_decision list" where
  "crawl_pages W since [] = Inr []"
| "crawl_pages W since (n # ns) =
     (case fw_page W n of
        None \<Rightarrow> Inr []
      | Some p \<Rightarrow> try_bind (parse_search_page (fw_join W) p) (\<lambda>ds.
          let keep = filter (\<lambda>d. \<not> before_cutoff since d) ds in
          if ds = [] then Inr []
          else if list_ex (before_cutoff since) ds then Inr keep
          else try_bind (crawl_pages W since ns) (\<lambda>rest. Inr (keep @ rest))))"

definition crawl_search :: "fos_web \<Rightarrow> nat \<Rightarrow> fos_date option \<Rightarrow> exn + fos_decision list" where
  "crawl_search W max_pages since = crawl_pages W since [1..<max_pages + 1]"

section \<open>One decision\<close>

definition date_json :: "fos_date option \<Rightarrow> json" where
  "date_json d = (case d of None \<Rightarrow> JNull | Some e \<Rightarrow> JStr (date_iso e))"

definition metadata_dict :: "fos_decision \<Rightarrow> jdict" where
  "metadata_dict d =
     [(''fos_drn'', JStr (fd_drn d)), (''fos_business'', opt_str (fd_business d)), (''fos_product'', opt_str (fd_product d)),
      (''fos_outcome'', opt_str (or_none (lower (or_str (fd_outcome d) [])))),
      (''fos_date'', date_json (fd_date d)), (''fos_url'', JStr (fd_decision_url d))]"

definition FOS_ATTRIBUTION :: string where
  "FOS_ATTRIBUTION = ''Reproduces a Financial Ombudsman Service final decision, published by the FOS for public reference. Personal data redacted by the FOS prior to publication.''"

definition decision_title :: "fos_decision \<Rightarrow> string" where
  "decision_title d =
     (let t1 = (if fd_title d = [] then fd_drn d else fd_title d);
          t2 = (if str_true (fd_business d) then fd_drn d @ '': '' @ the (fd_business d) else t1)
      in if str_true (fd_outcome d) then t2 @ '' ('' @ the (fd_outcome d) @ '')'' else t2)"

definition decision_source :: "(string \<Rightarrow> string option) \<Rightarrow> fos_decision \<Rightarrow> string \<Rightarrow> source_document" where
  "decision_source guess d data =
     \<lparr> sd_uri = fd_decision_url d, sd_data = data, sd_filename = Some (safe_filename (fd_pdf_url d)),
       sd_content_type = Some (detect_content_type guess (Some (safe_filename (fd_pdf_url d)))),
       sd_title = Some (decision_title d),
       sd_metadata = dmerge [(''regulator'', JStr ''fos''), (''doc_type'', JStr ''fos-decision''), (''source'', JStr ''fos_ingester''),
         (''ogl_attribution'', JStr FOS_ATTRIBUTION)] (filter (\<lambda>(k, v). v \<noteq> JNull) (metadata_dict d)) \<rparr>"

definition ingest_decision ::
  "fos_web \<Rightarrow> 'v ingest_env \<Rightarrow> uuid \<Rightarrow> bool \<Rightarrow> fos_decision \<Rightarrow> 'v corpus \<Rightarrow> 'v corpus \<times> (exn + item_status \<times> string)" where
  "ingest_decision W E tid force d c =
     (case download (fw_pdf W) (fd_pdf_url d) (safe_filename (fd_pdf_url d)) force (cp_files c) of
        (fs, Inl e) \<Rightarrow> (c\<lparr> cp_files := fs \<rparr>, Inl e)
      | (fs, Inr False) \<Rightarrow> (c\<lparr> cp_files := fs \<rparr>, Inr (Failed, ''download failed: '' @ fd_pdf_url d))
      | (fs, Inr True) \<Rightarrow>
          (case read_bytes fs (safe_filename (fd_pdf_url d)) of
             Inl e \<Rightarrow> (c\<lparr> cp_files := fs \<rparr>, Inl e)
           | Inr data \<Rightarrow>
               if data = [] then (c\<lparr> cp_files := fs \<rparr>, Inr (Failed, ''empty download''))
               else
                 (case ingest_one E tid (decision_source (ie_guess E) d data) (cp_store c) of
                    (st, r) \<Rightarrow> (\<lparr> cp_store = st, cp_files = fs \<rparr>, Inr (classify r)))))"

section \<open>The run\<close>

fun decision_loop ::
  "fos_web \<Rightarrow> 'v ingest_env \<Rightarrow> uuid \<Rightarrow> bool \<Rightarrow> fos_decision list \<Rightarrow> 'v corpus \<times> tallies \<Rightarrow>
   ('v corpus \<times> tallies) \<times> (exn + unit)" where
  "decision_loop W E tid force [] s = (s, Inr ())"
| "decision_loop W E tid force (d # ds) (c, t) =
     (case ingest_decision W E tid force d c of
        (c1, Inl e) \<Rightarrow> ((c1, t), Inl e)
      | (c1, Inr (s1, detail)) \<Rightarrow> decision_loop W E tid force ds (c1, tally [s1] t))"

record fos_args =
  fa_max_pages :: nat
  fa_since :: "string option"
  fa_limit :: int
  fa_dry_run :: bool
  fa_force :: bool
  fa_skip_robots :: bool

text \<open>\<open>decisions[:limit]\<close> unless the limit is 0.\<close>

definition limited :: "int \<Rightarrow> 'a list \<Rightarrow> 'a list" where
  "limited n xs = (if n = 0 then xs else if 0 < n then take (nat n) xs else take (length xs - nat (- n)) xs)"

definition main_fos ::
  "fos_web \<Rightarrow> 'v ingest_env \<Rightarrow> uuid option \<Rightarrow> fos_args \<Rightarrow> 'v corpus \<Rightarrow> 'v corpus \<times> (exn + nat)" where
  "main_fos W E tenant args c =
     (let since = (if str_true (fa_since args) then iso_date (the (fa_since args)) else None) in
       if str_true (fa_since args) \<and> since = None then (c, Inr 2)
       else
         (case tenant of
            None \<Rightarrow> (c, Inl (OtherExc ''SystemExit: tenant not found''))
          | Some tid \<Rightarrow>
              if \<not> fa_skip_robots args \<and> \<not> check_robots W then (c, Inr 1)
              else
                (case crawl_search W (fa_max_pages args) since of
                   Inl e \<Rightarrow> (c, Inl e)
                 | Inr found \<Rightarrow>
                     if fa_dry_run args then (c, Inr 0)
                     else
                       (case decision_loop W E tid (fa_force args) (limited (fa_limit args) found)
                           (c, \<lparr> rt_ok = 0, rt_skipped = 0, rt_failed = 0 \<rparr>) of
                          ((c1, t), Inl e) \<Rightarrow> (c1, Inl e)
                        | ((c1, t), Inr u) \<Rightarrow> (c1, Inr (if 0 < rt_ok t + rt_skipped t then 0 else 1))))))"

text \<open>The latest \<open>fos_date\<close> of the tenant's decisions; a stored value that is no date makes the query fail.\<close>

definition stored_dates :: "uuid \<Rightarrow> document list \<Rightarrow> json list" where
  "stored_dates tid ds =
     map (\<lambda>d. dget (dc_metadata d) ''fos_date'')
       (filter (\<lambda>d. dc_tenant d = tid \<and> dc_doc_type d = Some ''fos-decision'' \<and> map_of (dc_metadata d) ''fos_date'' \<noteq> None) ds)"

definition cast_date :: "json \<Rightarrow> exn + fos_date option" where
  "cast_date j =
     (case j of
        JNull \<Rightarrow> Inr None
      | _ \<Rightarrow> (case iso_date (py_str j) of None \<Rightarrow> Inl (OtherExc ''DataError'') | Some d \<Rightarrow> Inr (Some d)))"

definition later :: "fos_date \<Rightarrow> fos_date option \<Rightarrow> fos_date option" where
  "later d m = (case m of None \<Rightarrow> Some d | Some e \<Rightarrow> if date_before d e then Some e else Some d)"

definition latest_date :: "uuid \<Rightarrow> document list \<Rightarrow> exn + fos_date option" where
  "latest_date tid ds =
     try_bind (try_map cast_date (stored_dates tid ds)) (\<lambda>os. Inr (foldr later (List.map_filter id os) None))"

definition run_incremental ::
  "fos_web \<Rightarrow> 'v ingest_env \<Rightarrow> uuid \<Rightarrow> nat \<Rightarrow> 'v corpus \<Rightarrow> 'v corpus \<times> (exn + nat)" where
  "run_incremental W E tid max_pages c =
     (case latest_date tid (so_docs (cp_store c)) of
        Inl e \<Rightarrow> (c, Inl e)
      | Inr latest \<Rightarrow>
          main_fos W E (Some tid) \<lparr> fa_max_pages = max_pages, fa_since = map_option date_iso latest, fa_limit = 0,
            fa_dry_run = False, fa_force = False, fa_skip_robots = False \<rparr> c)"

section \<open>Lemmas on dates\<close>

lemma length_nat_str: "n < 10 ^ k \<Longrightarrow> 0 < k \<Longrightarrow> length (nat_str n) \<le> k"
proof (induction n arbitrary: k rule: nat_str.induct)
  case (1 n)
  show ?case
  proof (cases "n < 10")
    case True
    then show ?thesis using 1(3) by (subst nat_str.simps) simp
  next
    case False
    then obtain j where k: "k = Suc j" "0 < j" using 1(2,3) by (cases k; cases "k - 1") auto
    then have "length (nat_str (n div 10)) \<le> j" using 1(1,2) False by (simp add: less_mult_imp_div_less mult.commute)
    then show ?thesis using False k by (subst nat_str.simps) simp
  qed
qed

lemma digits_num_zeros: "digits_num (replicate i (CHR ''0'') @ s) = digits_num s"
  by (induction i) (simp_all add: digits_num_def digit_val_def code_def)

lemma pad_int_facts:
  assumes "n < 10 ^ k" "0 < k"
  shows "length (pad_int k (int n)) = k" "list_all is_digit (pad_int k (int n))" "digits_num (pad_int k (int n)) = n"
    "CHR ''-'' \<notin> set (pad_int k (int n))"
proof -
  have zero: "is_digit (CHR ''0'')" by (simp add: is_digit_def code_def)
  show "length (pad_int k (int n)) = k" using length_nat_str [OF assms] by (simp add: pad_int_def)
  show d: "list_all is_digit (pad_int k (int n))" using nat_str_digits zero by (auto simp: pad_int_def list_all_iff)
  show "digits_num (pad_int k (int n)) = n"
    using str_nat_nat_str [of n] by (simp add: pad_int_def digits_num_zeros) (simp add: digits_num_def str_nat_def)
  show "CHR ''-'' \<notin> set (pad_int k (int n))" using d by (auto simp: list_all_iff is_digit_def code_def)
qed

lemma last_number_digits: "list_all is_digit s \<Longrightarrow> last_number s = short_number s"
  by (auto simp: last_number_def is_digit_def code_def split: list.splits)

lemma iso_date_roundtrip:
  assumes "valid_date (y, m, d)" and "y \<le> 9999"
  shows "iso_date (date_iso (y, m, d)) = Some (y, m, d)"
proof -
  have "d \<le> 31" "m \<le> 12" using assms(1) by (auto simp: valid_date_def days_in_month_def split: if_splits)
  then have b: "y < 10 ^ 4" "m < 10 ^ 2" "d < 10 ^ 2" using assms(2) by auto
  note p = pad_int_facts [OF b(1)] pad_int_facts [OF b(2)] pad_int_facts [OF b(3)]
  have "split_char (CHR ''-'') (date_iso (y, m, d)) = [pad_int 4 (int y), pad_int 2 (int m), pad_int 2 (int d)]"
    using p by (simp add: date_iso_def split_char_append split_char_word)
  then show ?thesis using p assms(1)
    by (simp add: iso_date_def make_date_def year_number_def short_number_def last_number_digits some_if_def)
qed

section \<open>Lemmas on pages and the crawl\<close>

definition drn_digits :: "string \<Rightarrow> bool" where
  "drn_digits ds \<longleftrightarrow> 4 \<le> length ds \<and> length ds \<le> 8 \<and> list_all is_digit ds"

lemma drn_at_digits: "drn_at s = Some ds \<Longrightarrow> drn_digits ds"
  by (auto simp: drn_at_def Let_def some_if_def drn_digits_def list_all_iff dest: in_set_takeD set_takeWhileD split: if_splits)

lemma drn_search_digits: "drn_search s = Some ds \<Longrightarrow> drn_digits ds"
  by (induction s rule: drn_search.induct) (auto dest: drn_at_digits split: option.splits)

lemma first_of_Some: "first_of f xs = Some y \<Longrightarrow> \<exists>x \<in> set xs. f x = Some y"
proof -
  assume "first_of f xs = Some y"
  then have "y \<in> set (List.map_filter f xs)" by (auto simp: first_of_def split: list.splits)
  then show ?thesis by (auto simp: List.map_filter_def)
qed

lemma card_drn_digits: "card_drn c = Some ds \<Longrightarrow> drn_digits ds"
  by (auto simp: card_drn_def dest!: first_of_Some dest: drn_search_digits split: option.splits)

lemma decision_of_drn:
  "decision_of j c ds = Inr d \<Longrightarrow> fd_drn d = ''DRN-'' @ ds \<and> fd_pdf_url d = FOS_BASE @ ''/decision/DRN-'' @ ds @ ''.pdf''"
  by (auto simp: decision_of_def Let_def try_bind_eq_Inr)

definition decision_ok :: "fos_decision \<Rightarrow> bool" where
  "decision_ok d \<longleftrightarrow> (\<exists>ds. drn_digits ds \<and> fd_drn d = ''DRN-'' @ ds \<and> fd_pdf_url d = FOS_BASE @ ''/decision/DRN-'' @ ds @ ''.pdf'')"

lemma card_loop_ok:
  "card_loop j seen cs = Inr out \<Longrightarrow>
   list_all decision_ok out \<and> distinct (map fd_drn out) \<and> (\<forall>ds \<in> set seen. ''DRN-'' @ ds \<notin> fd_drn ` set out)"
proof (induction cs arbitrary: seen out)
  case (Cons c cs)
  show ?case
  proof (cases "card_drn c")
    case None
    then show ?thesis using Cons by simp
  next
    case (Some ds)
    show ?thesis
    proof (cases "ds \<in> set seen")
      case True
      then show ?thesis using Cons Some by simp
    next
      case False
      then obtain d rest where d: "decision_of j c ds = Inr d" "card_loop j (ds # seen) cs = Inr rest" "out = d # rest"
        using Cons.prems Some by (auto simp: try_bind_eq_Inr)
      have "decision_ok d" unfolding decision_ok_def using card_drn_digits [OF Some] decision_of_drn [OF d(1)] by blast
      then show ?thesis using Cons.IH [OF d(2)] decision_of_drn [OF d(1)] False by (auto simp: d(3))
    qed
  qed
qed simp

lemma crawl_pages_found:
  "crawl_pages W since ns = Inr out \<Longrightarrow> d \<in> set out \<Longrightarrow>
   \<not> before_cutoff since d \<and> (\<exists>n p ds. n \<in> set ns \<and> fw_page W n = Some p \<and> parse_search_page (fw_join W) p = Inr ds \<and> d \<in> set ds)"
proof (induction ns arbitrary: out)
  case (Cons n ns)
  show ?case
  proof (cases "fw_page W n")
    case None
    then show ?thesis using Cons.prems by simp
  next
    case (Some p)
    then obtain ds where ds: "parse_search_page (fw_join W) p = Inr ds" using Cons.prems(1) by (auto simp: try_bind_eq_Inr)
    have "d \<in> set (filter (\<lambda>d. \<not> before_cutoff since d) ds) \<or> (\<exists>rest. crawl_pages W since ns = Inr rest \<and> d \<in> set rest)"
      using Cons.prems Some ds by (auto simp: Let_def try_bind_eq_Inr split: if_splits)
    then show ?thesis using Cons.IH Some ds by fastforce
  qed
qed simp

lemma found_ok:
  assumes "crawl_search W N since = Inr out" "d \<in> set out"
  shows "decision_ok d"
  using crawl_pages_found [OF assms [unfolded crawl_search_def]] card_loop_ok
  by (fastforce simp: parse_search_page_def list_all_iff)

lemma date_before_trans: "\<not> date_before d e \<Longrightarrow> date_before d s \<Longrightarrow> date_before e s"
  by (cases d; cases e; cases s) auto

definition page_holds :: "fos_web \<Rightarrow> (nat \<Rightarrow> fos_decision list) \<Rightarrow> nat \<Rightarrow> bool" where
  "page_holds W R n \<longleftrightarrow> R n \<noteq> [] \<and> (\<exists>p. fw_page W n = Some p \<and> parse_search_page (fw_join W) p = Inr (R n))"

definition newest_first :: "fos_decision list \<Rightarrow> bool" where
  "newest_first ds \<longleftrightarrow> list_all (\<lambda>d. fd_date d \<noteq> None) ds \<and> sorted_wrt (\<lambda>a b. \<not> date_before (the (fd_date a)) (the (fd_date b))) ds"

lemma crawl_pages_exact:
  "\<forall>n \<in> set ns. page_holds W R n \<Longrightarrow> newest_first (concat (map R ns)) \<Longrightarrow>
   crawl_pages W (Some s) ns = Inr (filter (\<lambda>d. \<not> date_before (the (fd_date d)) s) (concat (map R ns)))"
proof (induction ns)
  case (Cons n ns)
  obtain p where p: "fw_page W n = Some p" "parse_search_page (fw_join W) p = Inr (R n)" and ne: "R n \<noteq> []"
    using Cons.prems(1) by (auto simp: page_holds_def)
  have cut: "before_cutoff (Some s) d \<longleftrightarrow> date_before (the (fd_date d)) s" if "d \<in> set (R n)" for d
  proof -
    have "fd_date d \<noteq> None" using that Cons.prems(2) by (auto simp: newest_first_def list_all_iff)
    then show ?thesis by (auto simp: before_cutoff_def)
  qed
  then have f: "filter (\<lambda>d. \<not> before_cutoff (Some s) d) (R n) = filter (\<lambda>d. \<not> date_before (the (fd_date d)) s) (R n)"
    by (simp cong: filter_cong)
  show ?case
  proof (cases "list_ex (before_cutoff (Some s)) (R n)")
    case True
    then obtain d where d: "d \<in> set (R n)" "date_before (the (fd_date d)) s" using cut by (auto simp: list_ex_iff)
    have "date_before (the (fd_date e)) s" if "e \<in> set (concat (map R ns))" for e
    proof -
      have "sorted_wrt (\<lambda>a b. \<not> date_before (the (fd_date a)) (the (fd_date b))) (R n @ concat (map R ns))"
        using Cons.prems(2) by (simp add: newest_first_def)
      then have "\<not> date_before (the (fd_date d)) (the (fd_date e))"
        using that d(1) unfolding sorted_wrt_append by blast
      then show ?thesis using d(2) by (rule date_before_trans)
    qed
    then have "filter (\<lambda>d. \<not> date_before (the (fd_date d)) s) (concat (map R ns)) = []" by (simp add: filter_empty_conv)
    then show ?thesis using p ne True f by (simp add: Let_def)
  next
    case False
    have "newest_first (concat (map R ns))" using Cons.prems(2) by (simp add: newest_first_def sorted_wrt_append)
    then show ?thesis using Cons p ne False f by (simp add: Let_def)
  qed
qed simp

section \<open>Lemmas on the run\<close>

lemma rfind_char_last: "c \<notin> set w \<Longrightarrow> rfind_char c (u @ c # w) = Some (length u)"
proof -
  assume w: "c \<notin> set w"
  then have "rfind_char c w = None" by (induction w) auto
  then show ?thesis by (induction u) auto
qed

lemma decision_file:
  assumes "decision_ok d"
  shows "\<not> is_directory (safe_filename (fd_pdf_url d))"
proof -
  obtain ds where ds: "drn_digits ds" "fd_pdf_url d = FOS_BASE @ ''/decision/DRN-'' @ ds @ ''.pdf''"
    using assms by (auto simp: decision_ok_def)
  let ?w = "''DRN-'' @ ds @ ''.pdf''"
  have free: "CHR ''/'' \<notin> set ?w" "CHR ''?'' \<notin> set ?w"
    using ds(1) by (auto simp: drn_digits_def list_all_iff is_digit_def code_def)
  have "rsplit_last (CHR ''/'') ((FOS_BASE @ ''/decision'') @ CHR ''/'' # ?w) = ?w"
    unfolding rsplit_last_def rfind_char_last [OF free(1)] by simp
  moreover have "fd_pdf_url d = (FOS_BASE @ ''/decision'') @ CHR ''/'' # ?w" by (simp add: ds(2))
  ultimately have r: "rsplit_last (CHR ''/'') (fd_pdf_url d) = ?w" by simp
  have "hd (safe_filename (fd_pdf_url d)) = CHR ''D''"
    unfolding safe_filename_def Let_def r split_char_word [OF free(2)] by (simp add: is_word_def is_ascii_alpha_def code_def)
  then show ?thesis by (auto simp: is_directory_def)
qed

lemma ingest_decision_result:
  assumes "decision_ok d" "store_ok u (cp_store c)" "inj u" "ie_uuid E = u"
  obtains c' s t where "ingest_decision W E tid force d c = (c', Inr (s, t))" "store_ok u (cp_store c')"
proof -
  note nd = decision_file [OF assms(1)]
  let ?f = "safe_filename (fd_pdf_url d)"
  obtain fs r where dl: "download (fw_pdf W) (fd_pdf_url d) ?f force (cp_files c) = (fs, r)"
    by (cases "download (fw_pdf W) (fd_pdf_url d) ?f force (cp_files c)")
  then have r: "r = Inr False \<or> r = Inr True \<and> (\<exists>b. read_bytes fs ?f = Inr b)"
    using nd by (auto simp: download_def read_bytes_def split: if_splits option.splits)
  show ?thesis
  proof (cases "\<exists>b. r = Inr True \<and> read_bytes fs ?f = Inr b \<and> b \<noteq> []")
    case True
    then obtain b where b: "r = Inr True" "read_bytes fs ?f = Inr b" "b \<noteq> []" by blast
    obtain st q where i: "ingest_one E tid (decision_source (ie_guess E) d b) (cp_store c) = (st, q)"
      by (cases "ingest_one E tid (decision_source (ie_guess E) d b) (cp_store c)")
    have "store_ok u st" using ingest_one_ok [OF assms(2-4), of tid "decision_source (ie_guess E) d b"] i by simp
    moreover obtain s t where "classify q = (s, t)" by (cases "classify q")
    ultimately show ?thesis using that [of "\<lparr> cp_store = st, cp_files = fs \<rparr>" s t] b dl i by (simp add: ingest_decision_def)
  next
    case False
    then have "\<exists>t. ingest_decision W E tid force d c = (c\<lparr> cp_files := fs \<rparr>, Inr (Failed, t))"
      using r dl by (auto simp: ingest_decision_def)
    then show ?thesis using that assms(2) by auto
  qed
qed

lemma decision_loop_result:
  "list_all decision_ok ds \<Longrightarrow> store_ok u (cp_store c) \<Longrightarrow> inj u \<Longrightarrow> ie_uuid E = u \<Longrightarrow>
   \<exists>c' t'. decision_loop W E tid force ds (c, t) = ((c', t'), Inr ()) \<and> store_ok u (cp_store c')"
proof (induction ds arbitrary: c t)
  case (Cons d ds)
  have "decision_ok d" using Cons.prems(1) by simp
  then obtain c1 s x where "ingest_decision W E tid force d c = (c1, Inr (s, x))" "store_ok u (cp_store c1)"
    using Cons.prems(2-4) by (rule ingest_decision_result)
  then show ?case using Cons by simp
qed simp

lemma set_limited: "set (limited n xs) \<subseteq> set xs"
  by (auto simp: limited_def dest: in_set_takeD)

lemma decision_loop_cong:
  "(\<And>d. d \<in> set ds \<Longrightarrow> fw_pdf W (fd_pdf_url d) = g (fd_pdf_url d)) \<Longrightarrow>
   decision_loop (W\<lparr> fw_pdf := g \<rparr>) E tid force ds s = decision_loop W E tid force ds s"
proof (induction ds arbitrary: s)
  case (Cons d ds)
  obtain c t where s: "s = (c, t)" by (cases s)
  have "ingest_decision (W\<lparr> fw_pdf := g \<rparr>) E tid force d c = ingest_decision W E tid force d c"
    using Cons.prems [of d] by (simp add: ingest_decision_def download_def)
  then show ?case using Cons by (simp add: s split: prod.split sum.split)
qed (cases s, simp)

lemma crawl_pages_pdf: "crawl_pages (W\<lparr> fw_pdf := g \<rparr>) since ns = crawl_pages W since ns"
proof (induction ns)
  case (Cons n ns)
  have "fw_page (W\<lparr> fw_pdf := g \<rparr>) = fw_page W" "fw_join (W\<lparr> fw_pdf := g \<rparr>) = fw_join W" by simp_all
  then show ?case unfolding crawl_pages.simps Cons.IH by (simp only:)
qed simp

lemma digits_num_bound: "list_all is_digit s \<Longrightarrow> digits_num s < 10 ^ length s"
proof (induction s rule: rev_induct)
  case (snoc c s)
  have "digit_val c < 10" using snoc.prems by (auto simp: is_digit_def digit_val_def)
  then show ?case using snoc by (simp add: digits_num_def)
qed (simp add: digits_num_def)

lemma iso_date_valid: "iso_date s = Some d \<Longrightarrow> valid_date d \<and> fst d \<le> 9999"
proof -
  assume "iso_date s = Some d"
  then obtain y m e where d: "make_date (year_number y) m e = Some d"
    by (auto simp: iso_date_def split: list.splits)
  then obtain a b where "year_number y = Some (fst d)" "valid_date d"
    by (auto simp: make_date_def some_if_def split: option.splits if_splits)
  then show ?thesis using digits_num_bound [of y] by (auto simp: year_number_def some_if_def split: if_splits)
qed

lemma latest_date_valid: "latest_date tid ds = Inr (Some d) \<Longrightarrow> valid_date d \<and> fst d \<le> 9999"
proof -
  assume "latest_date tid ds = Inr (Some d)"
  then obtain os where os: "try_map cast_date (stored_dates tid ds) = Inr os" and f: "foldr later (List.map_filter id os) None = Some d"
    by (auto simp: latest_date_def try_bind_eq_Inr)
  have "foldr later xs None = Some d \<Longrightarrow> d \<in> set xs" for xs
    by (induction xs) (auto simp: later_def split: option.splits if_splits)
  from this [OF f] have "Some d \<in> set os" by (auto simp: List.map_filter_def)
  moreover have "try_map cast_date js = Inr os \<Longrightarrow> Some d \<in> set os \<Longrightarrow> \<exists>j \<in> set js. cast_date j = Inr (Some d)" for js
    by (induction js arbitrary: os) (auto simp: try_bind_eq_Inr)
  ultimately obtain j where "cast_date j = Inr (Some d)" using os by blast
  then show ?thesis using iso_date_valid by (auto simp: cast_date_def split: json.splits option.splits)
qed

section \<open>Properties\<close>

text \<open>
  When the result pages hold dated decisions, newest first, as the query asks for, the crawl with a cut-off
  returns exactly the decisions of its pages that are not older, in order, and nothing is read after the first older one.
\<close>

theorem fos_crawl_exact:
  assumes "\<forall>n \<in> {1..N}. page_holds W R n" and "newest_first (concat (map R [1..<N + 1]))"
  shows "crawl_search W N (Some s) = Inr (filter (\<lambda>d. \<not> date_before (the (fd_date d)) s) (concat (map R [1..<N + 1])))"
  unfolding crawl_search_def using assms by (intro crawl_pages_exact) (auto simp del: upt_Suc)

text \<open>
  A run keeps the invariant of the store, whatever fails on the way: it ends with an exit code, and an exception
  leaves it only when the link of a decision cannot be joined with the base address.
\<close>

theorem fos_run:
  assumes "main_fos W E (Some tid) args c = (c', r)" and "store_ok u (cp_store c)" and "inj u" and "ie_uuid E = u"
  shows "store_ok u (cp_store c') \<and> (\<forall>e. r = Inl e \<longrightarrow> (\<exists>since. crawl_search W (fa_max_pages args) since = Inl e))"
proof -
  define since where "since = (if str_true (fa_since args) then iso_date (the (fa_since args)) else None)"
  note main = assms(1) [unfolded main_fos_def Let_def, folded since_def]
  show ?thesis
  proof (cases "(str_true (fa_since args) \<and> since = None) \<or> (\<not> fa_skip_robots args \<and> \<not> check_robots W)")
    case True
    then show ?thesis using main assms(2) by (auto split: if_splits)
  next
    case go: False
    show ?thesis
    proof (cases "crawl_search W (fa_max_pages args) since")
      case (Inl e)
      then show ?thesis using main assms(2) go by auto
    next
      case (Inr found)
      have "list_all decision_ok (limited (fa_limit args) found)"
        using found_ok [OF Inr] set_limited by (fastforce simp: list_all_iff)
      then obtain c1 t1 where "decision_loop W E tid (fa_force args) (limited (fa_limit args) found)
          (c, \<lparr> rt_ok = 0, rt_skipped = 0, rt_failed = 0 \<rparr>) = ((c1, t1), Inr ())" "store_ok u (cp_store c1)"
        using decision_loop_result assms(2-4) by blast
      then show ?thesis using main assms(2) go Inr by (auto split: if_splits)
    qed
  qed
qed

text \<open>
  C40. The incremental run never comes back to an older decision: once the tenant holds a decision of some date,
  whether the documents of earlier decisions can be fetched makes no difference to the run.  A decision whose download
  failed while a newer one of the same run was stored is lost to the daily poll.
\<close>

theorem incremental_skips_older:
  assumes "latest_date tid (so_docs (cp_store c)) = Inr (Some D)"
    and "\<And>n p ds d. fw_page W n = Some p \<Longrightarrow> parse_search_page (fw_join W) p = Inr ds \<Longrightarrow> d \<in> set ds \<Longrightarrow>
      \<not> before_cutoff (Some D) d \<Longrightarrow> fw_pdf W (fd_pdf_url d) = g (fd_pdf_url d)"
  shows "run_incremental (W\<lparr> fw_pdf := g \<rparr>) E tid N c = run_incremental W E tid N c"
proof -
  obtain y m e where D: "D = (y, m, e)" by (cases D)
  have iso: "iso_date (date_iso D) = Some D" using iso_date_roundtrip [of y m e] latest_date_valid [OF assms(1)] by (simp add: D)
  have "pad_int 4 (int y) @ ''-'' @ x \<noteq> []" for x by simp
  then have ne: "date_iso D \<noteq> []" by (simp add: D date_iso_def)
  have pdf: "fw_pdf W (fd_pdf_url d) = g (fd_pdf_url d)" if "crawl_search W N (Some D) = Inr found" "d \<in> set found" for found d
    using crawl_pages_found [OF that [unfolded crawl_search_def]] assms(2) by blast
  have loop: "decision_loop (W\<lparr> fw_pdf := g \<rparr>) E tid False found s = decision_loop W E tid False found s"
    if "crawl_search W N (Some D) = Inr found" for found s
    using decision_loop_cong [of found W g E tid False s] pdf [OF that] by blast
  have "crawl_search (W\<lparr> fw_pdf := g \<rparr>) N (Some D) = crawl_search W N (Some D)"
    by (simp only: crawl_search_def crawl_pages_pdf)
  then show ?thesis using loop iso ne
    by (cases "crawl_search W N (Some D)")
      (simp_all add: run_incremental_def assms(1) main_fos_def str_true_def limited_def check_robots_def)
qed

section \<open>Witnesses\<close>

definition sample_card :: "string \<Rightarrow> string \<Rightarrow> card" where
  "sample_card drn day = \<lparr> cd_text = drn @ '' '' @ day, cd_links = [(''/decision/'' @ drn, drn)], cd_select = (\<lambda>s. None) \<rparr>"

definition sample_fos :: fos_web where
  "sample_fos = \<lparr> fw_page = (\<lambda>n. if n = 1 then Some \<lparr> fp_cards = [sample_card ''DRN-2222'' ''2 May 2024'', sample_card ''drn1111'' ''1 May 2024''],
       fp_links = [] \<rparr> else None), fw_join = (\<lambda>h. Inr (FOS_BASE @ h)), fw_robots = None, fw_pdf = (\<lambda>u. None) \<rparr>"

definition sample_found :: "fos_decision list" where
  "sample_found =
     [\<lparr> fd_drn = ''DRN-2222'', fd_decision_url = FOS_BASE @ ''/decision/DRN-2222'', fd_pdf_url = FOS_BASE @ ''/decision/DRN-2222.pdf'',
        fd_business = None, fd_product = None, fd_outcome = None, fd_date = Some (2024, 5, 2), fd_title = ''DRN-2222'' \<rparr>,
      \<lparr> fd_drn = ''DRN-1111'', fd_decision_url = FOS_BASE @ ''/decision/drn1111'', fd_pdf_url = FOS_BASE @ ''/decision/DRN-1111.pdf'',
        fd_business = None, fd_product = None, fd_outcome = None, fd_date = Some (2024, 5, 1), fd_title = ''drn1111'' \<rparr>]"

lemma sample_parsed:
  "map_option (parse_search_page (fw_join sample_fos)) (fw_page sample_fos 1) = Some (Inr sample_found)"
  by code_simp

lemma sample_only_page: "n \<noteq> 1 \<Longrightarrow> fw_page sample_fos n = None"
  by (simp add: sample_fos_def)

definition older_corpus :: "unit corpus" where
  "older_corpus = \<lparr> cp_store = no_store\<lparr> so_docs := [(new_document ''d'' ''t'' (sample_source ''x''))
     \<lparr> dc_doc_type := Some ''fos-decision'', dc_metadata := [(''fos_date'', JStr ''2024-05-02'')] \<rparr>] \<rparr>, cp_files = Map.empty \<rparr>"

lemma older_latest: "latest_date ''t'' (so_docs (cp_store older_corpus)) = Inr (Some (2024, 5, 2))"
  by code_simp

theorem fos_crawl_exact_witness:
  "crawl_search sample_fos 1 (Some (2024, 5, 2)) = Inr (filter (\<lambda>d. \<not> date_before (the (fd_date d)) (2024, 5, 2)) sample_found)"
proof -
  have "page_holds sample_fos (\<lambda>n. sample_found) 1"
    using sample_parsed by (auto simp: page_holds_def sample_found_def)
  moreover have "newest_first sample_found" by code_simp
  ultimately show ?thesis using fos_crawl_exact [of 1 sample_fos "\<lambda>n. sample_found" "(2024, 5, 2)"] by simp
qed

theorem fos_run_witness:
  "\<exists>c r. main_fos sample_fos sample_ingest (Some ''t'') \<lparr> fa_max_pages = 1, fa_since = None, fa_limit = 0, fa_dry_run = False,
     fa_force = False, fa_skip_robots = False \<rparr> cached_corpus = (c, r) \<and> store_ok sample_ids (cp_store c)"
proof -
  obtain c r where run: "main_fos sample_fos sample_ingest (Some ''t'') \<lparr> fa_max_pages = 1, fa_since = None, fa_limit = 0, fa_dry_run = False,
     fa_force = False, fa_skip_robots = False \<rparr> cached_corpus = (c, r)"
    by (metis surj_pair)
  have "store_ok sample_ids (cp_store cached_corpus)" by (simp add: cached_corpus_def no_store_def store_ok_def)
  from fos_run [OF run this inj_sample_ids sample_uuid] show ?thesis using run by blast
qed

theorem incremental_skips_older_witness:
  "run_incremental (sample_fos\<lparr> fw_pdf := (\<lambda>u. if u = FOS_BASE @ ''/decision/DRN-1111.pdf'' then Some ''%PDF-1'' else None) \<rparr>)
     sample_ingest ''t'' 10 older_corpus = run_incremental sample_fos sample_ingest ''t'' 10 older_corpus"
proof (rule incremental_skips_older [OF older_latest])
  fix n p ds d
  assume p: "fw_page sample_fos n = Some p" "parse_search_page (fw_join sample_fos) p = Inr ds" "d \<in> set ds"
    and new: "\<not> before_cutoff (Some (2024, 5, 2)) d"
  have "n = 1" using p(1) sample_only_page by (cases "n = 1") auto
  then have "ds = sample_found" using sample_parsed p(1,2) by simp
  moreover have "before_cutoff (Some (2024, 5, 2)) (sample_found ! 1)" by code_simp
  ultimately have "d = sample_found ! 0" using p(3) new by (auto simp: sample_found_def)
  then have "fd_pdf_url d = FOS_BASE @ ''/decision/DRN-2222.pdf''" by (simp add: sample_found_def)
  then show "fw_pdf sample_fos (fd_pdf_url d) =
      (if fd_pdf_url d = FOS_BASE @ ''/decision/DRN-1111.pdf'' then Some ''%PDF-1'' else None)"
    by (simp add: sample_fos_def)
qed

end
