(* ===== verification/DemoCorpus.thy ===== *)
theory DemoCorpus
  imports HandbookCorpus
begin

text \<open>
  The loader of the demo corpus (\<open>corpus/uk_finreg/loader.py\<close>): one source after the other is downloaded, once per
  file name, ingested, patched and summarised.  The network, \<open>datetime.fromisoformat\<close> and what a summary does to
  the store are parameters.
\<close>

section \<open>State and parameters\<close>

record 'v demo_state =
  dm_corpus :: "'v corpus"
  dm_effective :: "uuid \<rightharpoonup> int"

record 'v demo_env =
  de_get :: "string \<Rightarrow> string option"
  de_ingest :: "'v ingest_env"
  de_fromiso :: "string \<Rightarrow> int option"
  de_summarise :: "('v store \<Rightarrow> uuid \<Rightarrow> 'v store) option"

section \<open>Downloads\<close>

definition demo_filename :: "jdict \<Rightarrow> exn + string" where
  "demo_filename item = try_bind (item_url item) (\<lambda>url. Inr (hd (split_char (CHR ''?'') (rsplit_last (CHR ''/'') url))))"

text \<open>The empty name is the download directory itself.\<close>

definition demo_directory :: "string \<Rightarrow> bool" where
  "demo_directory name = (name = [] \<or> is_directory name)"

definition demo_download :: "(string \<Rightarrow> string option) \<Rightarrow> string \<Rightarrow> string \<Rightarrow> files \<Rightarrow> files \<times> (exn + bool)" where
  "demo_download W url dest fs =
     (if demo_directory dest \<or> (case fs dest of None \<Rightarrow> False | Some b \<Rightarrow> b \<noteq> []) then (fs, Inr True)
      else (case W url of None \<Rightarrow> (fs, Inr False) | Some body \<Rightarrow> (fs(dest \<mapsto> body), Inr True)))"

definition demo_read :: "files \<Rightarrow> string \<Rightarrow> exn + string" where
  "demo_read fs dest = (if demo_directory dest then Inl directory_error else read_bytes fs dest)"

section \<open>One source\<close>

definition demo_source :: "(string \<Rightarrow> string option) \<Rightarrow> jdict \<Rightarrow> string \<Rightarrow> string \<Rightarrow> string \<Rightarrow> source_document" where
  "demo_source guess item url filename data =
     \<lparr> sd_uri = url, sd_data = data, sd_filename = Some filename,
       sd_content_type = Some (detect_content_type guess (Some filename)), sd_title = None,
       sd_metadata = filter (\<lambda>(k, v). truthy v) [(''regulator'', dget item ''regulator''), (''doc_type'', dget item ''doc_type''),
         (''ogl_attribution'', JStr OGL_PLAIN)] \<rparr>"

text \<open>\<open>_patch_document\<close>: the type and the date of the item go over what the row has.\<close>

definition patch_document ::
  "(string \<Rightarrow> int option) \<Rightarrow> uuid \<Rightarrow> string \<Rightarrow> json \<Rightarrow> json \<Rightarrow> 'v demo_state \<Rightarrow> exn + 'v demo_state" where
  "patch_document fromiso tid uri ty eff s =
     (let st = cp_store (dm_corpus s) in
       try_bind (one_or_none (docs_at st tid uri)) (\<lambda>found.
         case found of
           None \<Rightarrow> Inr s
         | Some d \<Rightarrow>
             let s1 = (if truthy ty
                 then s\<lparr> dm_corpus := (dm_corpus s)\<lparr> cp_store := st\<lparr> so_docs :=
                   put_row (d\<lparr> dc_doc_type := Some (py_str ty) \<rparr>) (so_docs st) \<rparr> \<rparr> \<rparr>
                 else s)
             in if \<not> truthy eff then Inr s1
                else case eff of
                  JStr e \<Rightarrow> Inr (case fromiso e of None \<Rightarrow> s1 | Some t \<Rightarrow> s1\<lparr> dm_effective := (dm_effective s1)(dc_id d \<mapsto> t) \<rparr>)
                | _ \<Rightarrow> Inl (PyExc TypeError)))"

definition run_summarise :: "'v demo_env \<Rightarrow> uuid \<Rightarrow> string \<Rightarrow> 'v demo_state \<Rightarrow> exn + 'v demo_state" where
  "run_summarise E tid uri s =
     (case de_summarise E of
        None \<Rightarrow> Inr s
      | Some summary \<Rightarrow>
          try_bind (one_or_none (docs_at (cp_store (dm_corpus s)) tid uri)) (\<lambda>found.
            case found of
              None \<Rightarrow> Inr s
            | Some d \<Rightarrow> Inr (s\<lparr> dm_corpus := (dm_corpus s)\<lparr> cp_store := summary (cp_store (dm_corpus s)) (dc_id d) \<rparr> \<rparr>)))"

definition named_step :: "jdict \<Rightarrow> 's \<Rightarrow> 's \<Rightarrow> 's \<times> (exn + unit)" where
  "named_step item s s' = (case map_of item ''name'' of None \<Rightarrow> (s, Inl (PyExc (KeyError ''name''))) | Some n \<Rightarrow> (s', Inr ()))"

definition after_ok :: "'v demo_env \<Rightarrow> uuid \<Rightarrow> jdict \<Rightarrow> string \<Rightarrow> 'v demo_state \<Rightarrow> exn + 'v demo_state" where
  "after_ok E tid item url s =
     try_bind (patch_document (de_fromiso E) tid url (dget item ''doc_type'') (dget item ''effective_date'') s)
       (run_summarise E tid url)"

text \<open>An exception outside of the two handlers ends the run: the state then is the one reached so far.\<close>

definition load_ingested ::
  "'v demo_env \<Rightarrow> uuid \<Rightarrow> bool \<Rightarrow> jdict \<Rightarrow> string \<Rightarrow> exn + ingestion_result \<Rightarrow> 'v demo_state \<times> tallies \<Rightarrow>
   ('v demo_state \<times> tallies) \<times> (exn + unit)" where
  "load_ingested E tid force item url r s =
     (case classify r of
        (Failed, n) \<Rightarrow> named_step item s (fst s, tally [Failed] (snd s))
      | (Skipped, n) \<Rightarrow>
          (case named_step item (fst s, tally [Skipped] (snd s)) (fst s, tally [Skipped] (snd s)) of
             (s1, Inl e) \<Rightarrow> (s1, Inl e)
           | (s1, Inr u) \<Rightarrow>
               if \<not> force then (s1, Inr ())
               else (case run_summarise E tid url (fst s1) of Inl e \<Rightarrow> (s1, Inl e) | Inr d \<Rightarrow> ((d, snd s1), Inr ())))
      | (Done, n) \<Rightarrow>
          (case named_step item (fst s, tally [Done] (snd s)) (fst s, tally [Done] (snd s)) of
             (s1, Inl e) \<Rightarrow> (s1, Inl e)
           | (s1, Inr u) \<Rightarrow>
               (case after_ok E tid item url (fst s1) of Inl e \<Rightarrow> (s1, Inl e) | Inr d \<Rightarrow> ((d, snd s1), Inr ()))))"

definition load_source ::
  "'v demo_env \<Rightarrow> uuid \<Rightarrow> bool \<Rightarrow> jdict \<Rightarrow> 'v demo_state \<times> tallies \<Rightarrow> ('v demo_state \<times> tallies) \<times> (exn + unit)" where
  "load_source E tid force item s =
     (case s of (d, t) \<Rightarrow>
       (case try_bind (item_url item) (\<lambda>u. try_bind (demo_filename item) (\<lambda>f. Inr (u, f))) of
          Inl e \<Rightarrow> (s, Inl e)
        | Inr (url, filename) \<Rightarrow>
            (case demo_download (de_get E) url filename (cp_files (dm_corpus d)) of
               (fs, Inl e) \<Rightarrow> (s, Inl e)
             | (fs, Inr False) \<Rightarrow> named_step item s (d, tally [Failed] t)
             | (fs, Inr True) \<Rightarrow>
                 let c = (dm_corpus d)\<lparr> cp_files := fs \<rparr> in
                 (case demo_read fs filename of
                    Inl e \<Rightarrow> ((d\<lparr> dm_corpus := c \<rparr>, t), Inl e)
                  | Inr data \<Rightarrow>
                      (case ingest_one (de_ingest E) tid (demo_source (ie_guess (de_ingest E)) item url filename data) (cp_store c) of
                         (st, r) \<Rightarrow> load_ingested E tid force item url r (d\<lparr> dm_corpus := c\<lparr> cp_store := st \<rparr> \<rparr>, t))))))"

section \<open>The run\<close>

fun load_sources ::
  "'v demo_env \<Rightarrow> uuid \<Rightarrow> bool \<Rightarrow> jdict list \<Rightarrow> 'v demo_state \<times> tallies \<Rightarrow> ('v demo_state \<times> tallies) \<times> (exn + unit)" where
  "load_sources E tid force [] s = (s, Inr ())"
| "load_sources E tid force (item # items) s =
     (case load_source E tid force item s of
        (s1, Inl e) \<Rightarrow> (s1, Inl e)
      | (s1, Inr u) \<Rightarrow> load_sources E tid force items s1)"

definition main_demo ::
  "'v demo_env \<Rightarrow> uuid option \<Rightarrow> bool \<Rightarrow> jdict list \<Rightarrow> 'v demo_state \<Rightarrow> 'v demo_state \<times> (exn + nat)" where
  "main_demo E tenant force items s =
     (case tenant of
        None \<Rightarrow> (s, Inl (OtherExc ''SystemExit: tenant not found''))
      | Some tid \<Rightarrow>
          if items = [] then (s, Inr 1)
          else
            (case load_sources E tid force items (s, \<lparr> rt_ok = 0, rt_skipped = 0, rt_failed = 0 \<rparr>) of
               ((s1, t), Inl e) \<Rightarrow> (s1, Inl e)
             | ((s1, t), Inr u) \<Rightarrow> (s1, Inr (if 0 < rt_failed t \<and> rt_ok t = 0 \<and> rt_skipped t = 0 then 1 else 0))))"

section \<open>Lemmas\<close>

definition good_source :: "jdict \<Rightarrow> bool" where
  "good_source item \<longleftrightarrow> (\<exists>u n. item_url item = Inr u \<and> map_of item ''name'' = Some n \<and>
     \<not> demo_directory (hd (split_char (CHR ''?'') (rsplit_last (CHR ''/'') u)))) \<and>
     (truthy (dget item ''effective_date'') \<longrightarrow> is_str (dget item ''effective_date''))"

abbreviation demo_ok :: "(nat \<Rightarrow> uuid) \<Rightarrow> 'v demo_state \<Rightarrow> bool" where
  "demo_ok u d \<equiv> store_ok u (cp_store (dm_corpus d))"

definition keeps_ok :: "(nat \<Rightarrow> uuid) \<Rightarrow> 'v demo_env \<Rightarrow> bool" where
  "keeps_ok u E \<longleftrightarrow> inj u \<and> ie_uuid (de_ingest E) = u \<and>
     (\<forall>f st d. de_summarise E = Some f \<longrightarrow> store_ok u st \<longrightarrow> store_ok u (f st d))"

lemma filter_key_length: "distinct (map f xs) \<Longrightarrow> length (filter (\<lambda>x. f x = k) xs) \<le> 1"
proof (induction xs)
  case (Cons x xs)
  then have "f x = k \<Longrightarrow> filter (\<lambda>x. f x = k) xs = []" by (auto simp: filter_empty_conv image_iff)
  then show ?case using Cons by auto
qed simp

lemma store_ok_one_or_none:
  assumes "store_ok u st"
  shows "\<exists>x. one_or_none (docs_at st tid uri) = Inr x"
proof -
  have "docs_at st tid uri = filter (\<lambda>d. (dc_tenant d, dc_uri d) = (tid, uri)) (so_docs st)" by (simp add: docs_at_def)
  moreover have "distinct (map (\<lambda>d. (dc_tenant d, dc_uri d)) (so_docs st))" using assms by (simp add: store_ok_def)
  from filter_key_length [OF this, of "(tid, uri)"]
  have "length (filter (\<lambda>d. (dc_tenant d, dc_uri d) = (tid, uri)) (so_docs st)) \<le> 1" .
  ultimately have "length (docs_at st tid uri) \<le> 1" by (simp only:)
  then show ?thesis by (cases "docs_at st tid uri"; cases "tl (docs_at st tid uri)") (auto simp: one_or_none_def)
qed

lemma store_ok_retyped:
  assumes "store_ok u st" "d \<in> set (so_docs st)"
  shows "store_ok u (st\<lparr> so_docs := put_row (d\<lparr> dc_doc_type := x \<rparr>) (so_docs st) \<rparr>)"
proof -
  have m: "put_row (d\<lparr> dc_doc_type := x \<rparr>) (so_docs st) = map (\<lambda>y. if dc_id y = dc_id d then d\<lparr> dc_doc_type := x \<rparr> else y) (so_docs st)"
    using assms(2) by (auto simp: put_row_def)
  have e: "y = d" if "y \<in> set (so_docs st)" "dc_id y = dc_id d" for y
    using store_ok_unique [OF assms(1) that(1) assms(2) that(2)] .
  have r: "map (\<lambda>d. (dc_id d, dc_tenant d, dc_uri d)) (put_row (d\<lparr> dc_doc_type := x \<rparr>) (so_docs st)) = row_names st"
    unfolding m map_map comp_def by (rule map_cong [OF refl]) (auto dest: e)
  have f: "so_docs (st\<lparr> so_docs := ds \<rparr>) = ds" "so_chunks (st\<lparr> so_docs := ds \<rparr>) = so_chunks st"
    "so_drawn (st\<lparr> so_docs := ds \<rparr>) = so_drawn st" for ds by simp_all
  show ?thesis by (rule store_ok_same_rows [OF _ f(2,3) assms(1)]) (simp only: f r)
qed

lemma run_summarise_ok:
  assumes "keeps_ok u E" "demo_ok u s"
  obtains s' where "run_summarise E tid uri s = Inr s'" "demo_ok u s'"
proof -
  obtain x where "one_or_none (docs_at (cp_store (dm_corpus s)) tid uri) = Inr x" using store_ok_one_or_none [OF assms(2)] by blast
  then show ?thesis using that assms by (cases "de_summarise E"; cases x) (auto simp: run_summarise_def keeps_ok_def)
qed

lemma patch_document_ok:
  assumes "demo_ok u s" "truthy eff \<longrightarrow> is_str eff"
  obtains s' where "patch_document fi tid uri ty eff s = Inr s'" "demo_ok u s'"
proof -
  obtain x where x: "one_or_none (docs_at (cp_store (dm_corpus s)) tid uri) = Inr x" using store_ok_one_or_none [OF assms(1)] by blast
  show ?thesis
  proof (cases x)
    case None
    then show ?thesis using that [of s] x assms(1) by (simp add: patch_document_def)
  next
    case (Some d)
    then have "d \<in> set (so_docs (cp_store (dm_corpus s)))"
      using one_or_none_Inr [OF x] docs_at_tenant by fastforce
    note ok = store_ok_retyped [OF assms(1) this]
    show ?thesis
    proof (cases "truthy eff")
      case True
      then obtain e where "eff = JStr e" using assms(2) by (auto simp: is_str_def split: json.splits)
      then show ?thesis using that x Some ok assms(1) True
        by (cases "fi e"; cases "truthy ty") (auto simp: patch_document_def Let_def)
    next
      case False
      then show ?thesis using that x Some ok assms(1) by (cases "truthy ty") (auto simp: patch_document_def Let_def)
    qed
  qed
qed

lemma load_ingested_ok:
  assumes "keeps_ok u E" "demo_ok u d" "good_source item"
  obtains d' t' where "load_ingested E tid force item url r (d, t) = ((d', t'), Inr ())" "demo_ok u d'"
    "tally_sum t' = Suc (tally_sum t)"
proof -
  obtain n where n: "map_of item ''name'' = Some n" using assms(3) by (auto simp: good_source_def)
  obtain x y where c: "classify r = (x, y)" by (cases "classify r")
  have eff: "truthy (dget item ''effective_date'') \<longrightarrow> is_str (dget item ''effective_date'')" using assms(3) by (simp add: good_source_def)
  obtain d1 where d1: "run_summarise E tid url d = Inr d1" "demo_ok u d1" using run_summarise_ok [OF assms(1,2)] by blast
  obtain d2 where d2: "patch_document (de_fromiso E) tid url (dget item ''doc_type'') (dget item ''effective_date'') d = Inr d2" "demo_ok u d2"
    using patch_document_ok [OF assms(2) eff] by blast
  obtain d3 where d3: "run_summarise E tid url d2 = Inr d3" "demo_ok u d3" using run_summarise_ok [OF assms(1) d2(2)] by blast
  show ?thesis
  proof (cases x)
    case Done
    then show ?thesis using that [of d3 "tally [Done] t"] c n d2 d3 by (simp add: load_ingested_def named_step_def after_ok_def)
  next
    case Skipped
    then show ?thesis using that [of d1 "tally [Skipped] t"] that [of d "tally [Skipped] t"] c n d1 assms(2)
      by (cases force) (simp_all add: load_ingested_def named_step_def)
  next
    case Failed
    then show ?thesis using that [of d "tally [Failed] t"] c n assms(2) by (simp add: load_ingested_def named_step_def)
  qed
qed

lemma load_source_ok:
  assumes "keeps_ok u E" "demo_ok u d" "good_source item"
  obtains d' t' where "load_source E tid force item (d, t) = ((d', t'), Inr ())" "demo_ok u d'" "tally_sum t' = Suc (tally_sum t)"
proof -
  obtain url n where u: "item_url item = Inr url" and n: "map_of item ''name'' = Some n"
    and nd: "\<not> demo_directory (hd (split_char (CHR ''?'') (rsplit_last (CHR ''/'') url)))" using assms(3) by (auto simp: good_source_def)
  let ?f = "hd (split_char (CHR ''?'') (rsplit_last (CHR ''/'') url))"
  have f: "demo_filename item = Inr ?f" by (simp add: demo_filename_def u)
  obtain fs r where dl: "demo_download (de_get E) url ?f (cp_files (dm_corpus d)) = (fs, r)"
    by (cases "demo_download (de_get E) url ?f (cp_files (dm_corpus d))")
  then have "r = Inr False \<or> r = Inr True \<and> (\<exists>b. demo_read fs ?f = Inr b)"
    using nd by (auto simp: demo_download_def demo_read_def read_bytes_def demo_directory_def split: if_splits option.splits)
  then show ?thesis
  proof (elim disjE conjE exE)
    assume "r = Inr False"
    then show ?thesis using that [of d "tally [Failed] t"] u f dl n assms(2) by (simp add: load_source_def named_step_def)
  next
    fix b
    assume b: "r = Inr True" "demo_read fs ?f = Inr b"
    let ?src = "demo_source (ie_guess (de_ingest E)) item url ?f b"
    obtain st q where i: "ingest_one (de_ingest E) tid ?src (cp_store (dm_corpus d)) = (st, q)"
      by (cases "ingest_one (de_ingest E) tid ?src (cp_store (dm_corpus d))")
    have "inj u" "ie_uuid (de_ingest E) = u" using assms(1) by (simp_all add: keeps_ok_def)
    then have "store_ok u st" using ingest_one_ok [OF assms(2), of "de_ingest E" tid ?src] i by simp
    then have ok: "demo_ok u (d\<lparr> dm_corpus := (dm_corpus d)\<lparr> cp_files := fs, cp_store := st \<rparr> \<rparr>)" by simp
    have "load_source E tid force item (d, t) =
        load_ingested E tid force item url q (d\<lparr> dm_corpus := (dm_corpus d)\<lparr> cp_files := fs, cp_store := st \<rparr> \<rparr>, t)"
      using u f dl b i by (simp add: load_source_def Let_def)
    then show ?thesis using load_ingested_ok [OF assms(1) ok assms(3)] that by metis
  qed
qed

lemma load_sources_ok:
  "keeps_ok u E \<Longrightarrow> demo_ok u d \<Longrightarrow> list_all good_source items \<Longrightarrow>
   \<exists>d' t'. load_sources E tid force items (d, t) = ((d', t'), Inr ()) \<and> demo_ok u d' \<and> tally_sum t' = tally_sum t + length items"
proof (induction items arbitrary: d t)
  case (Cons item items)
  then have g: "good_source item" by simp
  obtain d1 t1 where "load_source E tid force item (d, t) = ((d1, t1), Inr ())" "demo_ok u d1" "tally_sum t1 = Suc (tally_sum t)"
    by (rule load_source_ok [OF Cons.prems(1,2) g])
  then show ?case using Cons by fastforce
qed simp

section \<open>Properties\<close>

text \<open>
  A run over sources that have a name, a URL that ends in a file name and, if any, a textual date goes through to an
  exit code whatever the network and the pipeline do, keeps the invariant of the store, and counts every source once.
\<close>

theorem demo_run:
  assumes "keeps_ok u E" and "store_ok u (cp_store (dm_corpus d))" and "list_all good_source items"
  shows "\<exists>d' t. load_sources E tid force items (d, \<lparr> rt_ok = 0, rt_skipped = 0, rt_failed = 0 \<rparr>) = ((d', t), Inr ()) \<and>
    store_ok u (cp_store (dm_corpus d')) \<and> rt_ok t + rt_skipped t + rt_failed t = length items"
  using load_sources_ok [OF assms, of tid force "\<lparr> rt_ok = 0, rt_skipped = 0, rt_failed = 0 \<rparr>"] by (auto simp: tally_sum_def)

definition demo_item :: "string \<Rightarrow> jdict" where
  "demo_item url = [(''name'', JStr ''A''), (''url'', JStr url), (''effective_date'', JStr ''2023-07-31'')]"

definition sample_demo :: "unit demo_env" where
  "sample_demo = \<lparr> de_get = (\<lambda>u. Some ''text''), de_ingest = sample_ingest, de_fromiso = (\<lambda>s. Some 0), de_summarise = None \<rparr>"

definition fresh_demo :: "unit demo_state" where
  "fresh_demo = \<lparr> dm_corpus = \<lparr> cp_store = no_store, cp_files = Map.empty \<rparr>, dm_effective = Map.empty \<rparr>"

theorem demo_run_witness:
  "\<exists>d' t. load_sources sample_demo ''t'' False [demo_item ''http://x/a.md''] (fresh_demo, \<lparr> rt_ok = 0, rt_skipped = 0, rt_failed = 0 \<rparr>) =
     ((d', t), Inr ()) \<and> store_ok sample_ids (cp_store (dm_corpus d')) \<and> rt_ok t + rt_skipped t + rt_failed t = 1"
proof -
  have "keeps_ok sample_ids sample_demo" using inj_sample_ids sample_uuid by (simp add: keeps_ok_def sample_demo_def)
  moreover have "store_ok sample_ids (cp_store (dm_corpus fresh_demo))" by (simp add: fresh_demo_def no_store_def store_ok_def)
  moreover have "item_url (demo_item ''http://x/a.md'') = Inr ''http://x/a.md''"
    "\<not> demo_directory (hd (split_char (CHR ''?'') (rsplit_last (CHR ''/'') ''http://x/a.md'')))"
    "is_str (dget (demo_item ''http://x/a.md'') ''effective_date'')" "map_of (demo_item ''http://x/a.md'') ''name'' = Some (JStr ''A'')"
    by code_simp+
  then have "list_all good_source [demo_item ''http://x/a.md'']" by (auto simp: good_source_def)
  ultimately show ?thesis
    using demo_run [of sample_ids sample_demo fresh_demo "[demo_item ''http://x/a.md'']" "''t''" False] by (simp only: list.size One_nat_def add_0)
qed

text \<open>A URL that ends in a slash names the download directory: reading it raises, outside of every handler.\<close>

lemma slash_ends_run:
  "snd (load_sources sample_demo ''t'' False [demo_item ''http://x/''] (fresh_demo, \<lparr> rt_ok = 0, rt_skipped = 0, rt_failed = 0 \<rparr>)) =
   Inl directory_error"
  by code_simp

end
