(* ===== verification/RetrievalTraining.thy ===== *)
theory RetrievalTraining
  imports "HOL-Library.Multiset" Complex_Main Summarisation SearchService
begin

text \<open>
  The training of the reranker: triplets mined from the chunks of a tenant (\<open>search/training/triplets.py\<close>), the
  examples and the pairwise accuracy of the training script (\<open>training/train.py\<close>), and the comparison of
  rerankers by retrieval metrics (\<open>training/evaluate.py\<close>).  The random numbers, the language model and the neural
  network are parameters; the metrics are real numbers without rounding.
\<close>

section \<open>Triplets\<close>

definition QUESTION_PROMPT :: "string \<Rightarrow> string" where
  "QUESTION_PROMPT passage =
     ''Read the regulatory passage below and write 1-3 short, distinct'' @ nl @
     ''questions a regulated firm might ask whose answer is in this passage.'' @ nl2 @
     ''Output: a JSON array of strings, max 3 items, no commentary.'' @ nl2 @
     ''PASSAGE:'' @ nl @ passage @ nl"

record triplet =
  tp_query :: string
  tp_positive :: string
  tp_negative :: string
  tp_document_id :: uuid
  tp_positive_chunk_id :: uuid
  tp_negative_chunk_id :: uuid
  tp_kind :: string

text \<open>\<open>rng.sample(population, k)\<close>: the positions it picks, \<open>k\<close> different ones of the first \<open>n\<close>.\<close>

type_synonym 'g sampler = "'g \<Rightarrow> nat \<Rightarrow> nat \<Rightarrow> 'g \<times> nat list"

definition sampler_ok :: "'g sampler \<Rightarrow> bool" where
  "sampler_ok R \<longleftrightarrow> (\<forall>g n k. k \<le> n \<longrightarrow> distinct (snd (R g n k)) \<and> length (snd (R g n k)) = k \<and> list_all (\<lambda>i. i < n) (snd (R g n k)))"

definition rng_sample :: "'g sampler \<Rightarrow> 'a list \<Rightarrow> int \<Rightarrow> 'g \<Rightarrow> 'g \<times> (exn + 'a list)" where
  "rng_sample R xs k g =
     (let m = min k (int (length xs)) in
       if m < 0 then (g, Inl (PyExc ValueError))
       else case R g (length xs) (nat m) of (g', ps) \<Rightarrow> (g', Inr (map (\<lambda>i. xs ! i) ps)))"

definition clean_queries :: "json list \<Rightarrow> string list" where
  "clean_queries xs =
     take 3 (concat (map (\<lambda>q. case q of JStr s \<Rightarrow> (if strip s = [] then [] else [strip s]) | _ \<Rightarrow> []) xs))"

definition parse_queries :: "string \<Rightarrow> exn + string list" where
  "parse_queries raw =
     (case bracketed (CHR ''['') (CHR '']'') (unfenced raw) of
        None \<Rightarrow> Inr []
      | Some t \<Rightarrow>
          (case json_loads t of
             Inl e \<Rightarrow> if e = decode_error then Inr [] else Inl e
           | Inr j \<Rightarrow> try_bind (py_iter j) (\<lambda>xs. Inr (clean_queries xs))))"

definition make_queries :: "'s llm \<Rightarrow> string \<Rightarrow> 's \<Rightarrow> 's \<times> (exn + string list)" where
  "make_queries llm passage s =
     (case llm (user_message (QUESTION_PROMPT (take 2000 passage))) 300 s of
        (s', r) \<Rightarrow> (s', try_bind r parse_queries))"

definition emit :: "string \<Rightarrow> 'v stored_chunk \<Rightarrow> string \<Rightarrow> 'v stored_chunk \<Rightarrow> triplet" where
  "emit query pos kind neg =
     \<lparr> tp_query = query, tp_positive = cw_content pos, tp_negative = cw_content neg, tp_document_id = cw_document pos,
       tp_positive_chunk_id = cw_id pos, tp_negative_chunk_id = cw_id neg, tp_kind = kind \<rparr>"

record triplet_args =
  ta_sample :: int
  ta_same_doc :: int
  ta_random :: int

definition query_triplets ::
  "'g sampler \<Rightarrow> triplet_args \<Rightarrow> 'v stored_chunk list \<Rightarrow> 'v stored_chunk \<Rightarrow> string \<Rightarrow> 'g \<Rightarrow> 'g \<times> triplet list \<times> exn option" where
  "query_triplets R a chunks pos query g =
     (case rng_sample R (filter (\<lambda>c. cw_document c = cw_document pos \<and> cw_id c \<noteq> cw_id pos) chunks) (ta_same_doc a) g of
        (g1, Inl e) \<Rightarrow> (g1, [], Some e)
      | (g1, Inr same) \<Rightarrow>
          let out = map (emit query pos ''same_doc'') same in
          if \<not> 0 < ta_random a then (g1, out, None)
          else
            (case rng_sample R (filter (\<lambda>c. cw_document c \<noteq> cw_document pos) chunks) (ta_random a) g1 of
               (g2, Inl e) \<Rightarrow> (g2, out, Some e)
             | (g2, Inr others) \<Rightarrow> (g2, out @ map (emit query pos ''random'') others, None)))"

fun queries_loop ::
  "'g sampler \<Rightarrow> triplet_args \<Rightarrow> 'v stored_chunk list \<Rightarrow> 'v stored_chunk \<Rightarrow> string list \<Rightarrow> 'g \<Rightarrow> 'g \<times> triplet list \<times> exn option" where
  "queries_loop R a chunks pos [] g = (g, [], None)"
| "queries_loop R a chunks pos (q # qs) g =
     (case query_triplets R a chunks pos q g of
        (g1, out, Some e) \<Rightarrow> (g1, out, Some e)
      | (g1, out, None) \<Rightarrow> (case queries_loop R a chunks pos qs g1 of (g2, rest, e) \<Rightarrow> (g2, out @ rest, e)))"

text \<open>The lines of the file, and the exception that ends the writing, if any.\<close>

fun sample_loop ::
  "'s llm \<Rightarrow> 'g sampler \<Rightarrow> triplet_args \<Rightarrow> 'v stored_chunk list \<Rightarrow> 'v stored_chunk list \<Rightarrow> 's \<times> 'g \<Rightarrow>
   ('s \<times> 'g) \<times> triplet list \<times> exn option" where
  "sample_loop llm R a chunks [] st = (st, [], None)"
| "sample_loop llm R a chunks (c # cs) (s, g) =
     (case make_queries llm (cw_content c) s of
        (s1, Inl e) \<Rightarrow> ((s1, g), [], Some e)
      | (s1, Inr qs) \<Rightarrow>
          (case queries_loop R a chunks c qs g of
             (g1, out, Some e) \<Rightarrow> ((s1, g1), out, Some e)
           | (g1, out, None) \<Rightarrow> (case sample_loop llm R a chunks cs (s1, g1) of (st2, rest, e) \<Rightarrow> (st2, out @ rest, e))))"

definition generate_triplets ::
  "'s llm \<Rightarrow> 'g sampler \<Rightarrow> triplet_args \<Rightarrow> uuid \<Rightarrow> 'v stored_chunk list \<Rightarrow> 's \<times> 'g \<Rightarrow>
   ('s \<times> 'g) \<times> triplet list \<times> (exn + nat)" where
  "generate_triplets llm R a tid rows st =
     (let chunks = filter (\<lambda>c. cw_tenant c = tid) rows in
       if chunks = [] then (st, [], Inl (OtherExc ''No chunks for this tenant - run `make demo-corpus` first.''))
       else
         (case rng_sample R chunks (ta_sample a) (snd st) of
            (g1, Inl e) \<Rightarrow> ((fst st, g1), [], Inl e)
          | (g1, Inr sample) \<Rightarrow>
              (case sample_loop llm R a chunks sample (fst st, g1) of
                 (st2, out, Some e) \<Rightarrow> (st2, out, Inl e)
               | (st2, out, None) \<Rightarrow> (st2, out, Inr (length out)))))"

section \<open>The training script\<close>

text \<open>\<open>_split\<close>, for the order that the shuffle makes: \<open>int(n * (1 - eval_split))\<close> cuts towards zero.\<close>

definition truncate :: "rat \<Rightarrow> int" where
  "truncate x = (if 0 \<le> x then \<lfloor>x\<rfloor> else \<lceil>x\<rceil>)"

definition slice_to :: "int \<Rightarrow> 'a list \<Rightarrow> 'a list" where
  "slice_to n xs = (if 0 \<le> n then take (nat n) xs else take (length xs - nat (- n)) xs)"

definition slice_after :: "int \<Rightarrow> 'a list \<Rightarrow> 'a list" where
  "slice_after n xs = (if 0 \<le> n then drop (nat n) xs else drop (length xs - nat (- n)) xs)"

definition split_examples :: "rat \<Rightarrow> 'a list \<Rightarrow> 'a list \<times> 'a list" where
  "split_examples eval_split shuffled =
     (let n = truncate (of_nat (length shuffled) * (1 - eval_split)) in (slice_to n shuffled, slice_after n shuffled))"

definition train_pairs :: "triplet list \<Rightarrow> ((string \<times> string) \<times> rat) list" where
  "train_pairs ts = concat (map (\<lambda>t. [((tp_query t, tp_positive t), 1), ((tp_query t, tp_negative t), 0)]) ts)"

definition pairwise_accuracy :: "(string \<times> string \<Rightarrow> rat) \<Rightarrow> triplet list \<Rightarrow> rat" where
  "pairwise_accuracy predict ts =
     of_nat (length (filter (\<lambda>t. predict (tp_query t, tp_negative t) < predict (tp_query t, tp_positive t)) ts)) /
     of_nat (max (length ts) 1)"

section \<open>Metrics\<close>

definition dcg_at :: "nat \<Rightarrow> real list \<Rightarrow> real" where
  "dcg_at k rels = (\<Sum>(i, rel) \<leftarrow> enumerate 0 (take k rels). rel / log 2 (real (i + 2)))"

definition relevances :: "string list \<Rightarrow> string set \<Rightarrow> nat \<Rightarrow> real list" where
  "relevances retrieved relevant k = map (\<lambda>cid. if cid \<in> relevant then 1 else 0) (take k retrieved)"

definition ndcg_at :: "string list \<Rightarrow> string set \<Rightarrow> nat \<Rightarrow> real" where
  "ndcg_at retrieved relevant k =
     (let rels = relevances retrieved relevant k; idcg = dcg_at k (rev (sort rels)) in
       if 0 < idcg then dcg_at k rels / idcg else 0)"

fun first_rank :: "nat \<Rightarrow> string list \<Rightarrow> string set \<Rightarrow> real" where
  "first_rank n [] relevant = 0"
| "first_rank n (cid # cids) relevant = (if cid \<in> relevant then 1 / real n else first_rank (Suc n) cids relevant)"

definition mrr_at :: "string list \<Rightarrow> string set \<Rightarrow> nat \<Rightarrow> real" where
  "mrr_at retrieved relevant k = first_rank 1 (take k retrieved) relevant"

definition recall_at :: "string list \<Rightarrow> string set \<Rightarrow> nat \<Rightarrow> real" where
  "recall_at retrieved relevant k =
     real (length (filter (\<lambda>cid. cid \<in> relevant) (take k retrieved))) / real (max (card relevant) 1)"

section \<open>The comparison\<close>

record eval_query =
  ev_query :: string
  ev_relevant :: "string list"

record metrics =
  mt_label :: string
  mt_mrr :: real
  mt_ndcg :: real
  mt_recall5 :: real
  mt_recall10 :: real
  mt_latency :: real

definition eval_options :: search_options where
  "eval_options = \<lparr> sp_k = 10, sp_filters = no_filters, sp_public = True, sp_rerank = True, sp_feedback = True \<rparr>"

text \<open>The runs of one reranker: what each query retrieves.\<close>

definition retrieved_ids :: "'v search_env \<Rightarrow> uuid \<Rightarrow> eval_query \<Rightarrow> exn + string list" where
  "retrieved_ids E tid q = try_bind (search E tid (ev_query q) eval_options) (\<lambda>out. Inr (map h_chunk_id (so_hits out)))"

definition mean :: "(string list \<times> string set \<Rightarrow> real) \<Rightarrow> (string list \<times> string set) list \<Rightarrow> real" where
  "mean f runs = sum_list (map f runs) / real (max (length runs) 1)"

definition evaluate_one :: "'v search_env \<Rightarrow> uuid \<Rightarrow> real list \<Rightarrow> eval_query list \<Rightarrow> string \<Rightarrow> exn + metrics" where
  "evaluate_one E tid latencies queries label =
     try_bind (try_map (\<lambda>q. try_bind (retrieved_ids E tid q) (\<lambda>ids. Inr (ids, set (ev_relevant q)))) queries) (\<lambda>runs.
       Inr \<lparr> mt_label = label, mt_mrr = mean (\<lambda>(ids, rel). mrr_at ids rel 10) runs,
         mt_ndcg = mean (\<lambda>(ids, rel). ndcg_at ids rel 10) runs, mt_recall5 = mean (\<lambda>(ids, rel). recall_at ids rel 5) runs,
         mt_recall10 = mean (\<lambda>(ids, rel). recall_at ids rel 10) runs,
         mt_latency = sum_list latencies / real (max (length queries) 1) \<rparr>)"

text \<open>The provider that a label stands for, and the model path.\<close>

definition reranker_choice :: "string \<Rightarrow> string \<times> string option" where
  "reranker_choice label =
     (if label = ''none'' then (''none'', None) else if label = ''bge'' then (''bge'', None)
      else if label = ''cohere'' then (''cohere'', None) else (''bge'', Some label))"

section \<open>Lemmas\<close>

text \<open>Sampling picks elements of the list, each position once.\<close>

lemma rng_sample_sub:
  assumes "sampler_ok R" "rng_sample R xs k g = (g', Inr ys)"
  shows "set ys \<subseteq> set xs" "length ys = nat (min k (int (length xs)))"
proof -
  define m where "m = nat (min k (int (length xs)))"
  obtain g'' ps where r: "R g (length xs) m = (g'', ps)" by (cases "R g (length xs) m")
  have k: "m \<le> length xs" by (simp add: m_def)
  have ys: "ys = map (\<lambda>i. xs ! i) ps" using assms(2) r by (auto simp: rng_sample_def Let_def m_def split: if_splits)
  have "length ps = m \<and> list_all (\<lambda>i. i < length xs) ps"
    using assms(1) k r unfolding sampler_ok_def by (metis snd_conv)
  then show "set ys \<subseteq> set xs" "length ys = nat (min k (int (length xs)))"
    by (auto simp: ys list_all_iff m_def)
qed

definition triplet_ok :: "'v stored_chunk list \<Rightarrow> triplet \<Rightarrow> bool" where
  "triplet_ok chunks t \<longleftrightarrow> tp_query t \<noteq> [] \<and> strip (tp_query t) = tp_query t \<and>
     (\<exists>p \<in> set chunks. \<exists>n \<in> set chunks. tp_positive_chunk_id t = cw_id p \<and> tp_positive t = cw_content p \<and>
        tp_document_id t = cw_document p \<and> tp_negative_chunk_id t = cw_id n \<and> tp_negative t = cw_content n \<and>
        (tp_kind t = ''same_doc'' \<and> cw_document n = cw_document p \<and> cw_id n \<noteq> cw_id p \<or>
         tp_kind t = ''random'' \<and> cw_document n \<noteq> cw_document p))"

lemma query_triplets_ok:
  assumes "sampler_ok R" "pos \<in> set chunks" "query \<noteq> []" "strip query = query"
    and "query_triplets R a chunks pos query g = (g', out, e)"
  shows "list_all (triplet_ok chunks) out"
proof -
  let ?same = "filter (\<lambda>c. cw_document c = cw_document pos \<and> cw_id c \<noteq> cw_id pos) chunks"
  let ?others = "filter (\<lambda>c. cw_document c \<noteq> cw_document pos) chunks"
  have s: "list_all (triplet_ok chunks) (map (emit query pos ''same_doc'') ys)" if "set ys \<subseteq> set ?same" for ys
    using that assms(2-4) unfolding list_all_iff triplet_ok_def emit_def by fastforce
  have o': "list_all (triplet_ok chunks) (map (emit query pos ''random'') ys)" if "set ys \<subseteq> set ?others" for ys
    using that assms(2-4) unfolding list_all_iff triplet_ok_def emit_def by fastforce
  obtain g1 r1 where r1: "rng_sample R ?same (ta_same_doc a) g = (g1, r1)" by (cases "rng_sample R ?same (ta_same_doc a) g")
  obtain g2 r2 where r2: "rng_sample R ?others (ta_random a) g1 = (g2, r2)" by (cases "rng_sample R ?others (ta_random a) g1")
  show ?thesis
  proof (cases r1)
    case (Inl x)
    then show ?thesis using assms(5) r1 by (simp add: query_triplets_def)
  next
    case same: (Inr ys)
    note sok = s [OF rng_sample_sub(1) [OF assms(1) r1 [unfolded same]]]
    show ?thesis
    proof (cases r2)
      case (Inl x)
      then show ?thesis using assms(5) r1 r2 same sok by (auto simp: query_triplets_def Let_def split: if_splits)
    next
      case (Inr zs)
      note ook = o' [OF rng_sample_sub(1) [OF assms(1) r2 [unfolded Inr]]]
      show ?thesis using assms(5) r1 r2 same Inr sok ook by (auto simp: query_triplets_def Let_def split: if_splits)
    qed
  qed
qed

lemma queries_loop_ok:
  "sampler_ok R \<Longrightarrow> pos \<in> set chunks \<Longrightarrow> list_all (\<lambda>q. q \<noteq> [] \<and> strip q = q) qs \<Longrightarrow>
   list_all (triplet_ok chunks) (fst (snd (queries_loop R a chunks pos qs g)))"
proof (induction qs arbitrary: g)
  case (Cons q qs)
  obtain g1 out e where t: "query_triplets R a chunks pos q g = (g1, out, e)" by (metis prod_cases3)
  have "list_all (triplet_ok chunks) out" using query_triplets_ok [OF Cons.prems(1,2) _ _ t] Cons.prems(3) by simp
  then show ?case using Cons t by (cases e) (simp_all add: split_beta)
qed simp

lemma clean_queries_ok: "list_all (\<lambda>q. q \<noteq> [] \<and> strip q = q) (clean_queries xs)"
  by (auto simp: clean_queries_def list_all_iff dest!: in_set_takeD split: json.splits if_splits)

lemma clean_queries_three: "length (clean_queries xs) \<le> 3"
  by (simp add: clean_queries_def)

lemma parse_queries_ok: "parse_queries raw = Inr qs \<Longrightarrow> list_all (\<lambda>q. q \<noteq> [] \<and> strip q = q) qs \<and> length qs \<le> 3"
  using clean_queries_ok clean_queries_three
  by (auto simp: parse_queries_def try_bind_eq_Inr split: option.splits sum.splits if_splits)

lemma sample_loop_ok:
  "sampler_ok R \<Longrightarrow> set cs \<subseteq> set chunks \<Longrightarrow> list_all (triplet_ok chunks) (fst (snd (sample_loop llm R a chunks cs st)))"
proof (induction cs arbitrary: st)
  case (Cons c cs)
  obtain s g where st: "st = (s, g)" by (cases st)
  obtain s1 r where m: "make_queries llm (cw_content c) s = (s1, r)" by (cases "make_queries llm (cw_content c) s")
  show ?case
  proof (cases r)
    case (Inl e)
    then show ?thesis by (simp add: st m)
  next
    case (Inr qs)
    then have "list_all (\<lambda>q. q \<noteq> [] \<and> strip q = q) qs"
      using m parse_queries_ok by (auto simp: make_queries_def try_bind_eq_Inr split: prod.splits)
    moreover obtain g1 out e where l: "queries_loop R a chunks c qs g = (g1, out, e)" by (metis prod_cases3)
    ultimately have "list_all (triplet_ok chunks) out"
      using queries_loop_ok [OF Cons.prems(1), of c chunks qs a g] Cons.prems(2) by simp
    then show ?thesis using Cons Inr by (cases e) (simp_all add: st m l split_beta)
  qed
qed simp

text \<open>Decreasing weights: the first ones have the largest sum.\<close>

definition gain :: "nat \<Rightarrow> real" where
  "gain i = 1 / log 2 (real (i + 2))"

lemma gain_pos: "0 < gain i"
  by (simp add: gain_def)

lemma gain_decreasing: "i \<le> j \<Longrightarrow> gain j \<le> gain i"
  by (simp add: gain_def frac_le)

fun weighted :: "nat \<Rightarrow> real list \<Rightarrow> real" where
  "weighted i [] = 0"
| "weighted i (x # xs) = x * gain i + weighted (Suc i) xs"

lemma enumerate_weighted: "(\<Sum>(i, rel) \<leftarrow> enumerate n xs. rel / log 2 (real (i + 2))) = weighted n xs"
  by (induction xs arbitrary: n) (simp_all add: gain_def)

lemma dcg_weighted: "dcg_at k rels = weighted 0 (take k rels)"
  by (simp only: dcg_at_def enumerate_weighted)

definition binary :: "real list \<Rightarrow> bool" where
  "binary xs = list_all (\<lambda>x. x = 0 \<or> x = 1) xs"

definition ones :: "real list \<Rightarrow> nat" where
  "ones xs = length (filter (\<lambda>x. x = 1) xs)"

lemma weighted_nonneg: "binary xs \<Longrightarrow> 0 \<le> weighted i xs"
proof (induction xs arbitrary: i)
  case (Cons x xs)
  then show ?case using gain_pos [of i] by (auto simp: binary_def)
qed (simp add: binary_def)

lemma weighted_zeros: "weighted i (replicate n 0) = 0"
  by (induction n arbitrary: i) simp_all

lemma weighted_ones_shift: "weighted (Suc i) (replicate m 1) \<le> weighted i (replicate m 1)"
  by (induction m arbitrary: i) (simp_all add: add_mono gain_decreasing)

lemma weighted_append_zeros: "weighted i (xs @ replicate n 0) = weighted i xs"
  by (induction xs arbitrary: i) (simp_all add: weighted_zeros)

lemma weighted_ideal: "binary xs \<Longrightarrow> weighted i xs \<le> weighted i (replicate (ones xs) 1)"
proof (induction xs arbitrary: i)
  case (Cons x xs)
  then have IH: "weighted (Suc i) xs \<le> weighted (Suc i) (replicate (ones xs) 1)" and x: "x = 0 \<or> x = 1"
    by (simp_all add: binary_def)
  from x show ?case
  proof
    assume "x = 1"
    then show ?thesis using IH by (simp add: ones_def)
  next
    assume "x = 0"
    then show ?thesis using IH weighted_ones_shift [of i "ones xs"] by (simp add: ones_def)
  qed
qed (simp add: ones_def)

lemma sort_binary: "binary xs \<Longrightarrow> sort xs = replicate (length xs - ones xs) 0 @ replicate (ones xs) 1"
proof (rule properties_for_sort)
  assume "binary xs"
  then show "mset (replicate (length xs - ones xs) 0 @ replicate (ones xs) 1) = mset xs"
  proof (induction xs)
    case (Cons x xs)
    have "ones xs \<le> length xs" by (simp add: ones_def)
    then show ?case using Cons by (auto simp: binary_def ones_def Suc_diff_le)
  qed (simp add: ones_def)
  show "sorted (replicate (length xs - ones xs) (0::real) @ replicate (ones xs) 1)"
    by (simp add: sorted_append)
qed

lemma ideal_weight:
  assumes "binary xs" "length xs \<le> k"
  shows "dcg_at k (rev (sort xs)) = weighted 0 (replicate (ones xs) 1)"
proof -
  have "ones xs \<le> k" using assms(2) by (simp add: ones_def le_trans [OF length_filter_le])
  then show ?thesis using assms by (simp add: dcg_weighted sort_binary weighted_append_zeros)
qed

lemma relevances_binary: "binary (relevances ids rel k)" "length (relevances ids rel k) \<le> k"
  by (auto simp: binary_def relevances_def list_all_iff)

lemma ndcg_range: "0 \<le> ndcg_at ids rel k \<and> ndcg_at ids rel k \<le> 1"
proof -
  let ?r = "relevances ids rel k"
  have "dcg_at k ?r = weighted 0 ?r" using relevances_binary(2) [of ids rel k] by (simp add: dcg_weighted)
  then show ?thesis
    using weighted_nonneg [OF relevances_binary(1) [of ids rel k], of 0] weighted_ideal [OF relevances_binary(1) [of ids rel k], of 0]
    by (simp add: ndcg_at_def Let_def ideal_weight [OF relevances_binary])
qed

lemma first_rank_range: "0 < n \<Longrightarrow> 0 \<le> first_rank n ids rel \<and> first_rank n ids rel \<le> 1"
  by (induction n ids rel rule: first_rank.induct) auto

lemma recall_range:
  assumes "distinct ids" "finite rel"
  shows "0 \<le> recall_at ids rel k \<and> recall_at ids rel k \<le> 1"
proof -
  have "length (filter (\<lambda>c. c \<in> rel) (take k ids)) = card (set (filter (\<lambda>c. c \<in> rel) (take k ids)))"
    by (rule distinct_card [symmetric]) (use assms(1) in simp)
  also have "\<dots> \<le> card rel" using assms(2) by (intro card_mono) auto
  finally show ?thesis by (auto simp: recall_at_def divide_le_eq_1 max_def)
qed

lemma mean_range: "(\<And>r. r \<in> set runs \<Longrightarrow> 0 \<le> f r \<and> f r \<le> 1) \<Longrightarrow> 0 \<le> mean f runs \<and> mean f runs \<le> 1"
proof -
  assume f: "\<And>r. r \<in> set runs \<Longrightarrow> 0 \<le> f r \<and> f r \<le> 1"
  then have "0 \<le> sum_list (map f runs) \<and> sum_list (map f runs) \<le> real (length runs)"
  proof (induction runs)
    case (Cons r runs)
    have "0 \<le> f r \<and> f r \<le> 1" using Cons.prems by simp
    moreover have "0 \<le> sum_list (map f runs) \<and> sum_list (map f runs) \<le> real (length runs)" using Cons by simp
    ultimately show ?case by simp
  qed simp
  then show ?thesis by (auto simp: mean_def divide_le_eq_1 max_def)
qed

section \<open>Properties\<close>

text \<open>
  Every triplet that is written asks a question that is not blank about a chunk of the tenant, and its negative is
  another chunk of the same document or a chunk of another document of the tenant, as its kind says; a run that ends
  returns the number of triplets it wrote.
\<close>

theorem triplets_sound:
  assumes "sampler_ok R" and "generate_triplets llm R a tid rows st = (st', out, r)"
  shows "list_all (triplet_ok (filter (\<lambda>c. cw_tenant c = tid) rows)) out \<and> (\<forall>n. r = Inr n \<longrightarrow> n = length out)"
proof -
  let ?cs = "filter (\<lambda>c. cw_tenant c = tid) rows"
  obtain g1 x where s: "rng_sample R ?cs (ta_sample a) (snd st) = (g1, x)" by (cases "rng_sample R ?cs (ta_sample a) (snd st)")
  show ?thesis
  proof (cases "?cs = [] \<or> isl x")
    case True
    then have "out = [] \<and> isl r" using assms(2) s by (cases x) (auto simp: generate_triplets_def Let_def split: if_splits)
    then show ?thesis by (cases r) simp_all
  next
    case False
    then obtain sample where x: "x = Inr sample" by (cases x) auto
    obtain st2 lines e where l: "sample_loop llm R a ?cs sample (fst st, g1) = (st2, lines, e)" by (metis prod_cases3)
    have "list_all (triplet_ok ?cs) lines"
      using sample_loop_ok [OF assms(1) rng_sample_sub(1) [OF assms(1) s [unfolded x]], of llm a "(fst st, g1)"] l by simp
    moreover have "out = lines \<and> (\<forall>n. r = Inr n \<longrightarrow> n = length lines)"
      using assms(2) False s x l by (cases e) (auto simp: generate_triplets_def Let_def)
    ultimately show ?thesis by simp
  qed
qed

text \<open>
  With either reranker, the mean reciprocal rank, the nDCG and the recalls of a comparison are between 0 and 1,
  also for an empty set of queries and for queries without relevant chunks.
\<close>

theorem metrics_range:
  assumes "se_rerank E = noop_rerank \<or> se_rerank E = bge_rerank model" and "evaluate_one E tid ls qs label = Inr m"
  shows "0 \<le> mt_mrr m \<and> mt_mrr m \<le> 1 \<and> 0 \<le> mt_ndcg m \<and> mt_ndcg m \<le> 1 \<and>
    0 \<le> mt_recall5 m \<and> mt_recall5 m \<le> 1 \<and> 0 \<le> mt_recall10 m \<and> mt_recall10 m \<le> 1"
proof -
  obtain runs where runs: "try_map (\<lambda>q. try_bind (retrieved_ids E tid q) (\<lambda>ids. Inr (ids, set (ev_relevant q)))) qs = Inr runs"
    and m: "m = \<lparr> mt_label = label, mt_mrr = mean (\<lambda>(ids, rel). mrr_at ids rel 10) runs,
         mt_ndcg = mean (\<lambda>(ids, rel). ndcg_at ids rel 10) runs, mt_recall5 = mean (\<lambda>(ids, rel). recall_at ids rel 5) runs,
         mt_recall10 = mean (\<lambda>(ids, rel). recall_at ids rel 10) runs,
         mt_latency = sum_list ls / real (max (length qs) 1) \<rparr>"
    using assms(2) by (auto simp: evaluate_one_def try_bind_eq_Inr)
  have ids: "distinct ids" if q: "retrieved_ids E tid q = Inr ids" for q ids
  proof -
    obtain out where o: "search E tid (ev_query q) eval_options = Inr out" "ids = map h_chunk_id (so_hits out)"
      using q by (auto simp: retrieved_ids_def try_bind_eq_Inr)
    have p: "0 < sp_k eval_options" "plain_keys (sp_filters eval_options)"
      by (simp_all add: eval_options_def plain_keys_def no_filters_def)
    have "outcome_ok E tid eval_options out"
      using assms(1) noop.search_outcome_ok [OF _ o(1) p] bge.search_outcome_ok [OF _ o(1) p] by blast
    then show ?thesis using o(2) by (simp add: outcome_ok_def)
  qed
  have run: "distinct (fst r) \<and> finite (snd r)" if "r \<in> set runs" for r
    using runs that by (induction qs arbitrary: runs) (fastforce simp: try_bind_eq_Inr intro: ids)+
  have "0 \<le> mean (\<lambda>(ids, rel). mrr_at ids rel 10) runs \<and> mean (\<lambda>(ids, rel). mrr_at ids rel 10) runs \<le> 1"
    by (rule mean_range) (auto simp: mrr_at_def first_rank_range)
  moreover have "0 \<le> mean (\<lambda>(ids, rel). ndcg_at ids rel 10) runs \<and> mean (\<lambda>(ids, rel). ndcg_at ids rel 10) runs \<le> 1"
    by (rule mean_range) (auto simp: ndcg_range)
  moreover have "0 \<le> mean (\<lambda>(ids, rel). recall_at ids rel k) runs \<and> mean (\<lambda>(ids, rel). recall_at ids rel k) runs \<le> 1" for k
    by (rule mean_range) (use run recall_range in \<open>fastforce split: prod.splits\<close>)
  ultimately show ?thesis by (simp add: m)
qed

text \<open>
  The nDCG of the comparison is measured against the best order of what was retrieved: relevant chunks that were
  not found make no difference to it, so that one relevant hit at the top among a hundred missing ones scores 1.
\<close>

theorem ndcg_ignores_missing:
  assumes "missing \<inter> set retrieved = {}"
  shows "ndcg_at retrieved (relevant \<union> missing) k = ndcg_at retrieved relevant k \<and>
    ndcg_at [c] (insert c missing) (Suc k) = 1"
proof -
  have "relevances retrieved (relevant \<union> missing) k = relevances retrieved relevant k"
    using assms by (auto simp: relevances_def dest: in_set_takeD)
  moreover have "ndcg_at [c] (insert c missing) (Suc k) = 1" by (simp add: ndcg_at_def relevances_def dcg_at_def)
  ultimately show ?thesis by (simp only: ndcg_at_def)
qed

section \<open>Witnesses\<close>

theorem ndcg_ignores_missing_witness:
  "ndcg_at [''a''] ({''a''} \<union> {''b'', ''c''}) 10 = 1"
  using ndcg_ignores_missing [of "{''b'', ''c''}" "[''a'']" "{''a''}" 10 "''a''"] by (simp add: ndcg_at_def relevances_def dcg_at_def)

definition first_positions :: "unit sampler" where
  "first_positions g n k = (g, [0..<k])"

lemma first_positions_ok: "sampler_ok first_positions"
  by (auto simp: sampler_ok_def first_positions_def list_all_iff)

definition mined_chunk :: "uuid \<Rightarrow> string \<Rightarrow> unit stored_chunk" where
  "mined_chunk cid t = \<lparr> cw_id = cid, cw_tenant = ''t'', cw_document = ''d'', cw_content = t, cw_embedding = (), cw_section = None,
     cw_page = None, cw_start = None, cw_end = None, cw_tokens = None, cw_metadata = [] \<rparr>"

definition asking_llm :: "unit llm" where
  "asking_llm ms n s = (s, Inr ([CHR ''['', CHR 0x22] @ ''Who?'' @ [CHR 0x22, CHR '']'']))"

lemma sample_mined:
  "snd (generate_triplets asking_llm first_positions \<lparr> ta_sample = 1, ta_same_doc = 1, ta_random = 0 \<rparr> ''t''
     [mined_chunk ''a'' ''A'', mined_chunk ''b'' ''B''] ((), ())) =
   ([\<lparr> tp_query = ''Who?'', tp_positive = ''A'', tp_negative = ''B'', tp_document_id = ''d'', tp_positive_chunk_id = ''a'',
       tp_negative_chunk_id = ''b'', tp_kind = ''same_doc'' \<rparr>], Inr 1)"
  by code_simp

theorem triplets_sound_witness:
  "list_all (triplet_ok (filter (\<lambda>c. cw_tenant c = ''t'') [mined_chunk ''a'' ''A'', mined_chunk ''b'' ''B'']))
     [\<lparr> tp_query = ''Who?'', tp_positive = ''A'', tp_negative = ''B'', tp_document_id = ''d'', tp_positive_chunk_id = ''a'',
       tp_negative_chunk_id = ''b'', tp_kind = ''same_doc'' \<rparr>]"
  using triplets_sound [OF first_positions_ok surjective_pairing [of "generate_triplets asking_llm first_positions
      \<lparr> ta_sample = 1, ta_same_doc = 1, ta_random = 0 \<rparr> ''t'' [mined_chunk ''a'' ''A'', mined_chunk ''b'' ''B''] ((), ())",
      unfolded sample_mined]]
  by simp

theorem metrics_range_witness:
  "\<exists>m. evaluate_one sample_search ''t1'' [] [] ''none'' = Inr m \<and> mt_mrr m \<le> 1"
proof -
  obtain m where m: "evaluate_one sample_search ''t1'' [] [] ''none'' = Inr m" by (simp add: evaluate_one_def)
  have "se_rerank sample_search = noop_rerank" by (simp add: sample_search_def)
  then show ?thesis using metrics_range [OF _ m, of None] m by simp
qed

end
