(* ===== verification/AuditRoutes.thy ===== *)
theory AuditRoutes
  imports Accounts PyValues
begin

text \<open>
  The audit trail: the middleware that writes a row per request (\<open>api/middleware/audit.py\<close>) and the routes that
  list, show and export the rows (\<open>api/routes/audit.py\<close>).  The parser of \<open>uuid.UUID\<close>, as the canonical
  text of an id, is a parameter.
\<close>

section \<open>Rows\<close>

text \<open>A row of the table: the audit row with its number and the latency, null or a float.\<close>

record audit_entry = audit_row +
  an_id :: nat
  an_latency :: json

definition RICH_AUDITED_PATHS :: "string list" where
  "RICH_AUDITED_PATHS = [''/v1/ask'', ''/v1/search'', ''/v1/validators/run'', ''/v1/ingest/upload'', ''/v1/auth/signup'',
     ''/v1/auth/login'', ''/v1/auth/accept-invite'']"

definition AUDITED_PATH_PREFIXES :: "string list" where
  "AUDITED_PATH_PREFIXES = [''/v1/ingest'', ''/v1/search'', ''/v1/ask'', ''/v1/documents/'']"

definition should_audit :: "string \<Rightarrow> bool" where
  "should_audit path = (path \<notin> set RICH_AUDITED_PATHS \<and> list_ex (\<lambda>p. startswith p path) AUDITED_PATH_PREFIXES)"

text \<open>The widths of the columns: PostgreSQL refuses a longer value.\<close>

definition row_fits :: "audit_entry \<Rightarrow> bool" where
  "row_fits r = (length (au_action r) \<le> 64 \<and> length (au_user_id r) \<le> 256 \<and>
     (case au_resource r of None \<Rightarrow> True | Some x \<Rightarrow> length x \<le> 256))"

record http_request =
  hq_method :: string
  hq_path :: string
  hq_query :: string

definition middleware_row :: "nat \<Rightarrow> int \<Rightarrow> rat \<Rightarrow> http_request \<Rightarrow> nat \<Rightarrow> principal \<Rightarrow> audit_entry" where
  "middleware_row n now ms rq status p =
     \<lparr> au_tenant_id = pp_tenant_id p, au_user_id = pp_user_id p, au_action = hq_method rq @ '' '' @ hq_path rq,
       au_resource = Some (hq_path rq), au_query = None, au_summary = None, au_sources = [],
       au_extra = [(''status'', JInt (int status)), (''query_string'', JStr (hq_query rq))], au_created_at = now,
       an_id = n, an_latency = decimal_json 2 ms \<rparr>"

text \<open>\<open>dispatch\<close> after the handler has run; \<open>up\<close> says whether the database can be reached.\<close>

definition audit_request ::
  "bool \<Rightarrow> nat \<Rightarrow> int \<Rightarrow> rat \<Rightarrow> http_request \<Rightarrow> nat \<Rightarrow> principal option \<Rightarrow> audit_entry list \<Rightarrow> audit_entry list" where
  "audit_request up n now ms rq status caller rows =
     (if \<not> should_audit (hq_path rq) then rows
      else case caller of
        None \<Rightarrow> rows
      | Some p \<Rightarrow>
          let r = middleware_row n now ms rq status p in
          if up \<and> row_fits r then rows @ [r] else rows)"

section \<open>Queries\<close>

definition audit_owner :: "principal \<Rightarrow> exn + principal" where
  "audit_owner p =
     (if ''*'' \<in> pp_scopes p \<or> ''owner'' \<in> pp_scopes p \<or> ''admin'' \<in> pp_scopes p then Inr p
      else Inl (HTTPError 403 ''owner or admin role required to view audit trail''))"

text \<open>\<open>LIKE\<close> with its wildcards and the backslash as escape, on texts in lower case.\<close>

fun like :: "string \<Rightarrow> string \<Rightarrow> bool" where
  "like [] s = (s = [])"
| "like (p # ps) s =
     (if p = CHR ''%'' then list_ex (\<lambda>i. like ps (drop i s)) [0..<length s + 1]
      else case s of
        [] \<Rightarrow> False
      | c # cs \<Rightarrow>
          if p = CHR ''_'' then like ps cs
          else if p = CHR 0x5C then (case ps of [] \<Rightarrow> False | q # qs \<Rightarrow> q = c \<and> like qs cs)
          else p = c \<and> like ps cs)"

definition ilike :: "string option \<Rightarrow> string \<Rightarrow> bool" where
  "ilike value pattern = (case value of None \<Rightarrow> False | Some s \<Rightarrow> like (lower pattern) (lower s))"

record audit_filter =
  af_action :: "string option"
  af_user :: "string option"
  af_text :: "string option"
  af_days :: nat
  af_limit :: nat
  af_offset :: nat

definition AUDIT_DAY :: int where "AUDIT_DAY = 86400000000"

definition recent_rows :: "int \<Rightarrow> nat \<Rightarrow> principal \<Rightarrow> audit_entry list \<Rightarrow> audit_entry list" where
  "recent_rows now days p rows =
     filter (\<lambda>r. au_tenant_id r = pp_tenant_id p \<and> now - int days * AUDIT_DAY \<le> au_created_at r) rows"

definition newest_rows :: "audit_entry list \<Rightarrow> audit_entry list" where
  "newest_rows rows = sort_key (\<lambda>r. - au_created_at r) rows"

definition matching :: "audit_filter \<Rightarrow> audit_entry \<Rightarrow> bool" where
  "matching f r =
     ((str_true (af_action f) \<longrightarrow> au_action r = lower (the (af_action f))) \<and>
      (str_true (af_user f) \<longrightarrow> au_user_id r = the (af_user f)) \<and>
      (str_true (af_text f) \<longrightarrow> (let pat = ''%'' @ the (af_text f) @ ''%'' in
         ilike (au_query r) pat \<or> ilike (au_summary r) pat)))"

record audit_item =
  ai_entry :: audit_entry
  ai_email :: "string option"
  ai_count :: nat

definition email_of :: "user list \<Rightarrow> uuid \<Rightarrow> string option" where
  "email_of users uid = map_option us_email (find (\<lambda>u. us_id u = uid) users)"

text \<open>The list asks for the users of all ids that parse and looks the rows' own ids up in the answer.\<close>

definition list_emails :: "(string \<Rightarrow> uuid option) \<Rightarrow> user list \<Rightarrow> audit_entry list \<Rightarrow> (uuid \<times> string) list" where
  "list_emails canonical users rows =
     map (\<lambda>u. (us_id u, us_email u)) (filter (\<lambda>u. Some (us_id u) \<in> (\<lambda>r. canonical (au_user_id r)) ` set rows) users)"

definition audit_view :: "(uuid \<times> string) list \<Rightarrow> audit_entry \<Rightarrow> audit_item" where
  "audit_view emails r = \<lparr> ai_entry = r, ai_email = map_of emails (au_user_id r), ai_count = length (au_sources r) \<rparr>"

definition list_audit ::
  "(string \<Rightarrow> uuid option) \<Rightarrow> int \<Rightarrow> audit_filter \<Rightarrow> principal \<Rightarrow> user list \<Rightarrow> audit_entry list \<Rightarrow>
   exn + nat \<times> audit_item list" where
  "list_audit canonical now f p users rows =
     try_bind (audit_owner p) (\<lambda>p.
       let base = filter (matching f) (recent_rows now (af_days f) p rows);
           records = take (af_limit f) (drop (af_offset f) (newest_rows base))
       in Inr (length base, map (audit_view (list_emails canonical users records)) records))"

definition get_audit ::
  "(string \<Rightarrow> uuid option) \<Rightarrow> nat \<Rightarrow> principal \<Rightarrow> user list \<Rightarrow> audit_entry list \<Rightarrow> exn + audit_item" where
  "get_audit canonical n p users rows =
     try_bind (audit_owner p) (\<lambda>p.
       case find (\<lambda>r. an_id r = n \<and> au_tenant_id r = pp_tenant_id p) rows of
         None \<Rightarrow> Inl (HTTPError 404 ''entry not found'')
       | Some r \<Rightarrow>
           Inr \<lparr> ai_entry = r, ai_email = (case canonical (au_user_id r) of None \<Rightarrow> None | Some uid \<Rightarrow> email_of users uid),
             ai_count = length (au_sources r) \<rparr>)"

section \<open>The export\<close>

text \<open>\<open>csv.writer\<close> with its defaults: a field with a comma, a quotation mark or a line end is quoted.\<close>

definition crlf :: string where
  "crlf = [CHR 0x0D, CHR 0x0A]"

definition special_char :: "char \<Rightarrow> bool" where
  "special_char c = (c = CHR '','' \<or> c = CHR 0x22 \<or> c = CHR 0x0D \<or> c = CHR 0x0A)"

definition csv_field :: "string \<Rightarrow> string" where
  "csv_field s =
     (if list_ex special_char s then [CHR 0x22] @ concat (map (\<lambda>c. if c = CHR 0x22 then [c, c] else [c]) s) @ [CHR 0x22] else s)"

definition csv_row :: "string list \<Rightarrow> string" where
  "csv_row cells = join '','' (map csv_field cells) @ crlf"

definition CSV_HEADER :: "string list" where
  "CSV_HEADER = [''id'', ''created_at'', ''user_id'', ''action'', ''resource'', ''query'', ''response_summary'', ''latency_ms'', ''source_count'']"

definition one_line :: "string option \<Rightarrow> string" where
  "one_line s = replace_char (CHR 0x0A) '' '' (case s of None \<Rightarrow> [] | Some x \<Rightarrow> x)"

definition csv_fields :: "audit_entry \<Rightarrow> string list" where
  "csv_fields r =
     [nat_str (an_id r), isoformat (au_created_at r), au_user_id r, au_action r, (case au_resource r of None \<Rightarrow> [] | Some x \<Rightarrow> x),
      one_line (au_query r), one_line (au_summary r), py_str (por (an_latency r) (JStr [])), nat_str (length (au_sources r))]"

definition export_csv :: "int \<Rightarrow> nat \<Rightarrow> principal \<Rightarrow> audit_entry list \<Rightarrow> exn + string" where
  "export_csv now days p rows =
     try_bind (audit_owner p) (\<lambda>p.
       Inr (concat (map csv_row (CSV_HEADER # map csv_fields (newest_rows (recent_rows now days p rows))))))"

section \<open>Reading the export\<close>

text \<open>
  What a reader of comma separated values makes of a text: whether it is inside of quotation marks, the field and the
  row so far.
\<close>

fun read_csv :: "bool \<Rightarrow> string \<Rightarrow> string list \<Rightarrow> string \<Rightarrow> string list list" where
  "read_csv q f r [] = (if f = [] \<and> r = [] then [] else [r @ [f]])"
| "read_csv False f r (c # s) =
     (if c = CHR '','' then read_csv False [] (r @ [f]) s
      else if c = CHR 0x22 \<and> f = [] then read_csv True [] r s
      else if c = CHR 0x0D then (case s of d # t \<Rightarrow> if d = CHR 0x0A then (r @ [f]) # read_csv False [] [] t else read_csv False (f @ [c]) r s
        | [] \<Rightarrow> read_csv False (f @ [c]) r s)
      else read_csv False (f @ [c]) r s)"
| "read_csv True f r (c # s) =
     (if c = CHR 0x22 then (case s of d # t \<Rightarrow> if d = CHR 0x22 then read_csv True (f @ [d]) r t else read_csv False f r s
        | [] \<Rightarrow> read_csv False f r s)
      else read_csv True (f @ [c]) r s)"

definition doubled :: "string \<Rightarrow> string" where
  "doubled s = concat (map (\<lambda>c. if c = CHR 0x22 then [c, c] else [c]) s)"

lemma read_quoted:
  "t \<noteq> [] \<Longrightarrow> hd t \<noteq> CHR 0x22 \<Longrightarrow> read_csv True f r (doubled s @ CHR 0x22 # t) = read_csv False (f @ s) r t"
proof (induction s arbitrary: f)
  case Nil
  then obtain d u where "t = d # u" "d \<noteq> CHR 0x22" by (cases t) auto
  then show ?case by (simp add: doubled_def)
next
  case (Cons c s)
  then show ?case by (cases "c = CHR 0x22") (simp_all add: doubled_def)
qed

lemma read_plain: "\<not> list_ex special_char s \<Longrightarrow> read_csv False f r (s @ t) = read_csv False (f @ s) r t"
  by (induction s arbitrary: f) (auto simp: special_char_def)

lemma read_field:
  assumes "t \<noteq> []" "hd t \<noteq> CHR 0x22"
  shows "read_csv False [] r (csv_field s @ t) = read_csv False s r t"
proof (cases "list_ex special_char s")
  case True
  then have "csv_field s @ t = CHR 0x22 # doubled s @ CHR 0x22 # t" by (simp add: csv_field_def doubled_def)
  then show ?thesis using read_quoted [OF assms, of "[]" r s] by simp
next
  case False
  then show ?thesis using read_plain [OF False, of "[]" r t] by (simp add: csv_field_def)
qed

lemma read_row: "fs \<noteq> [] \<Longrightarrow> read_csv False [] r (csv_row fs @ t) = (r @ fs) # read_csv False [] [] t"
proof (induction fs arbitrary: r)
  case (Cons f fs)
  show ?case
  proof (cases "fs = []")
    case True
    then show ?thesis using read_field [of "crlf @ t" r f] by (simp add: csv_row_def crlf_def)
  next
    case False
    have "csv_row (f # fs) @ t = csv_field f @ CHR '','' # csv_row fs @ t"
      using False by (simp add: csv_row_def join_Cons)
    then show ?thesis using read_field [of "CHR '','' # csv_row fs @ t" r f] Cons.IH [OF False, of "r @ [f]"] by simp
  qed
qed simp

lemma read_rows: "list_all (\<lambda>fs. fs \<noteq> []) rows \<Longrightarrow> read_csv False [] [] (concat (map csv_row rows)) = rows"
  by (induction rows) (simp_all add: read_row)

lemma set_newest [simp]: "set (newest_rows rows) = set rows"
  by (simp add: newest_rows_def)

lemma sorted_newest: "sorted_wrt (\<lambda>a b. au_created_at b \<le> au_created_at a) (newest_rows rows)"
proof -
  have "sorted (map (\<lambda>r. - au_created_at r) (newest_rows rows))" by (simp add: newest_rows_def)
  then show ?thesis by (simp add: sorted_map)
qed

section \<open>Properties\<close>

text \<open>
  C34. Whatever users wrote into their questions, a reader gets back from the export exactly the header and the fields
  of the rows of the owner's tenant in the window, newest first: no text breaks out of its cell.
\<close>

theorem export_roundtrip:
  assumes "export_csv now days p rows = Inr text'"
  shows "\<exists>rs. read_csv False [] [] text' = CSV_HEADER # map csv_fields rs \<and>
    set rs = {r \<in> set rows. au_tenant_id r = pp_tenant_id p \<and> now - int days * AUDIT_DAY \<le> au_created_at r} \<and>
    sorted_wrt (\<lambda>a b. au_created_at b \<le> au_created_at a) rs"
proof (intro exI conjI)
  let ?rs = "newest_rows (recent_rows now days p rows)"
  have t: "text' = concat (map csv_row (CSV_HEADER # map csv_fields ?rs))"
    using assms by (auto simp: export_csv_def audit_owner_def try_bind_eq_Inr split: if_splits)
  have "list_all (\<lambda>fs. fs \<noteq> []) (CSV_HEADER # map csv_fields ?rs)"
    by (auto simp: CSV_HEADER_def csv_fields_def list_all_iff)
  then show "read_csv False [] [] text' = CSV_HEADER # map csv_fields ?rs" unfolding t by (rule read_rows)
  show "set ?rs = {r \<in> set rows. au_tenant_id r = pp_tenant_id p \<and> now - int days * AUDIT_DAY \<le> au_created_at r}"
    by (auto simp: recent_rows_def)
  show "sorted_wrt (\<lambda>a b. au_created_at b \<le> au_created_at a) ?rs" by (rule sorted_newest)
qed

text \<open>
  The audit trail is read by owners and administrators only, and nothing they see depends on the rows of other
  tenants: the page with its total, a single entry and the export are the same without them.
\<close>

theorem audit_isolated:
  assumes "filter (\<lambda>r. au_tenant_id r = pp_tenant_id p) rows = filter (\<lambda>r. au_tenant_id r = pp_tenant_id p) rows'"
  shows "list_audit canonical now f p users rows = list_audit canonical now f p users rows' \<and>
    get_audit canonical n p users rows = get_audit canonical n p users rows' \<and>
    export_csv now days p rows = export_csv now days p rows' \<and>
    (pp_scopes p \<inter> {''*'', ''owner'', ''admin''} = {} \<longrightarrow>
      isl (list_audit canonical now f p users rows) \<and> isl (get_audit canonical n p users rows) \<and> isl (export_csv now days p rows))"
proof -
  have recent: "recent_rows now d p rows = recent_rows now d p rows'" for d
  proof -
    have "recent_rows now d p xs = filter (\<lambda>r. now - int d * AUDIT_DAY \<le> au_created_at r) (filter (\<lambda>r. au_tenant_id r = pp_tenant_id p) xs)" for xs
      by (simp add: recent_rows_def conj_commute)
    from this [of rows] this [of rows'] show ?thesis by (simp only: assms)
  qed
  have one: "find (\<lambda>r. an_id r = n \<and> au_tenant_id r = pp_tenant_id p) xs =
      find (\<lambda>r. an_id r = n) (filter (\<lambda>r. au_tenant_id r = pp_tenant_id p) xs)" for xs
    by (induction xs) auto
  have own: "audit_owner p = Inr p \<or> (\<exists>e. audit_owner p = Inl e)" by (simp add: audit_owner_def)
  have "list_audit canonical now f p users rows = list_audit canonical now f p users rows'"
    using own by (auto simp: list_audit_def recent)
  moreover have "get_audit canonical n p users rows = get_audit canonical n p users rows'"
    using own by (auto simp: get_audit_def one assms)
  moreover have "export_csv now days p rows = export_csv now days p rows'"
    using own by (auto simp: export_csv_def recent)
  moreover have "isl (list_audit canonical now f p users rows) \<and> isl (get_audit canonical n p users rows) \<and> isl (export_csv now days p rows)"
    if "pp_scopes p \<inter> {''*'', ''owner'', ''admin''} = {}"
  proof -
    have "audit_owner p = Inl (HTTPError 403 ''owner or admin role required to view audit trail'')"
      using that unfolding audit_owner_def by (intro if_not_P) blast
    then show ?thesis by (simp add: list_audit_def get_audit_def export_csv_def)
  qed
  ultimately show ?thesis by blast
qed

text \<open>
  The middleware leaves no trace of a request whose method and path have more than 64 characters: the
  column refuses the row and the exception is swallowed.
\<close>

theorem long_paths_unaudited:
  assumes "64 < length (hq_method rq) + 1 + length (hq_path rq)"
  shows "audit_request up n now ms rq status caller rows = rows"
  using assms by (simp add: audit_request_def Let_def row_fits_def middleware_row_def split: option.split)

section \<open>Witnesses\<close>

definition owner_principal :: principal where
  "owner_principal = \<lparr> pp_user_id = ''u'', pp_tenant_id = ''t'', pp_tenant_slug = ''acme'', pp_scopes = {''owner''}, pp_email = JNull \<rparr>"

definition question_row :: "uuid \<Rightarrow> string \<Rightarrow> audit_entry" where
  "question_row tid q =
     \<lparr> au_tenant_id = tid, au_user_id = ''u'', au_action = ''ask'', au_resource = None, au_query = Some q, au_summary = None,
       au_sources = [], au_extra = [], au_created_at = 0, an_id = 1, an_latency = JNull \<rparr>"

theorem export_roundtrip_witness:
  "\<exists>t rs. export_csv 0 30 owner_principal [question_row ''t'' ''a, or [b]?'', question_row ''s'' ''c''] = Inr t \<and>
    read_csv False [] [] t = CSV_HEADER # map csv_fields rs \<and> set rs = {question_row ''t'' ''a, or [b]?''}"
proof -
  have "audit_owner owner_principal = Inr owner_principal" by (simp add: audit_owner_def owner_principal_def)
  then obtain t where t: "export_csv 0 30 owner_principal [question_row ''t'' ''a, or [b]?'', question_row ''s'' ''c''] = Inr t"
    by (simp add: export_csv_def)
  have "{r \<in> set [question_row ''t'' ''a, or [b]?'', question_row ''s'' ''c'']. au_tenant_id r = pp_tenant_id owner_principal \<and>
      0 - int 30 * AUDIT_DAY \<le> au_created_at r} = {question_row ''t'' ''a, or [b]?''}"
    by (auto simp: question_row_def owner_principal_def AUDIT_DAY_def)
  then show ?thesis using export_roundtrip [OF t] t by metis
qed

theorem audit_isolated_witness:
  "export_csv 0 30 owner_principal [question_row ''t'' ''a'', question_row ''s'' ''c''] =
   export_csv 0 30 owner_principal [question_row ''t'' ''a'', question_row ''s'' ''d'']"
  by (rule audit_isolated [THEN conjunct2, THEN conjunct2, THEN conjunct1]) (simp add: question_row_def owner_principal_def)

definition run_request :: http_request where
  "run_request = \<lparr> hq_method = ''POST'', hq_path = ''/v1/ingestion/indexers/00000000-0000-0000-0000-000000000000/run'', hq_query = [] \<rparr>"

theorem long_paths_unaudited_witness:
  "should_audit (hq_path run_request) \<and> audit_request True 1 0 0 run_request 200 (Some owner_principal) [] = []"
proof
  show "should_audit (hq_path run_request)" by code_simp
  have "64 < length (hq_method run_request) + 1 + length (hq_path run_request)" by (simp add: run_request_def)
  then show "audit_request True 1 0 0 run_request 200 (Some owner_principal) [] = []" by (rule long_paths_unaudited)
qed

end
