(* ===== verification/Embeddings.thy ===== *)
theory Embeddings
  imports LlmAdapters IngestPipeline GatewayRouting
begin

text \<open>
  The embedding adapters (\<open>indexing/adapters/embeddings_openai.py\<close>, \<open>embeddings_ollama.py\<close>): batches of texts
  become vectors of the configured dimension, or an \<open>EmbeddingError\<close> that the retry decorator answers with another
  attempt.  The OpenAI SDK and the HTTP client are parameters: the answer to a request may depend on the number of
  requests before it.  The trace of requests is part of the state.  The waiting between attempts is not modelled.
\<close>

section \<open>The retry decorator\<close>

fun is_EmbeddingError :: "exn \<Rightarrow> bool" where
  "is_EmbeddingError (EmbeddingError _) = True"
| "is_EmbeddingError _ = False"

text \<open>One attempt and up to \<open>n\<close> more, each after an \<open>EmbeddingError\<close>; the last exception is raised again.\<close>

fun retry_embedding :: "nat \<Rightarrow> ('t \<Rightarrow> 't \<times> (exn + 'a)) \<Rightarrow> 't \<Rightarrow> 't \<times> (exn + 'a)" where
  "retry_embedding 0 f t = f t"
| "retry_embedding (Suc n) f t =
     (case f t of
        (t', Inl e) \<Rightarrow> if is_EmbeddingError e then retry_embedding n f t' else (t', Inl e)
      | (t', Inr x) \<Rightarrow> (t', Inr x))"

definition EMBED_ATTEMPTS :: nat where
  "EMBED_ATTEMPTS = 4"

section \<open>OpenAI\<close>

text \<open>What can be sent in a header.\<close>

definition clean_key :: "string option \<Rightarrow> string option" where
  "clean_key k =
     (case k of None \<Rightarrow> None
      | Some s \<Rightarrow> or_none (filter (\<lambda>c. 32 \<le> code c \<and> code c < 127) (strip s)))"

definition build_embed_client :: "settings \<Rightarrow> string option \<Rightarrow> exn + client" where
  "build_embed_client s api_key =
     (let key = clean_key api_key in
       if embeddings_provider s = ''azure''
       then if \<not> (str_true (azure_openai_endpoint s) \<and> str_true (sor key (azure_openai_api_key s)))
            then Inl (EmbeddingError (''AZURE_OPENAI_ENDPOINT and a key must be set '' @
                   ''(via Settings or X-OpenAI-API-Key header)''))
            else Inr (AzureClient (azure_openai_endpoint s) (sor key (azure_openai_api_key s))
                   (azure_openai_api_version s))
       else if \<not> str_true key
       then Inl (EmbeddingError (''No OpenAI API key - set OPENAI_API_KEY or send '' @
              ''X-OpenAI-API-Key header (BYOK).''))
       else Inr (OpenAIClient key (embeddings_base_url s)))"

text \<open>The cached default client is built from settings that never change, so building it anew gives the same one.\<close>

definition active_embed_client :: "settings \<Rightarrow> request_secrets option \<Rightarrow> exn + client" where
  "active_embed_client s secrets =
     (case secrets of
        Some rs \<Rightarrow>
          if str_true (rs_openai_api_key rs) then build_embed_client s (rs_openai_api_key rs)
          else build_embed_client s (openai_api_key s)
      | None \<Rightarrow> build_embed_client s (openai_api_key s))"

record embed_call =
  ec_client :: client
  ec_model :: string
  ec_input :: "string list"
  ec_dimensions :: "nat option"

definition embed_call_for :: "settings \<Rightarrow> string list \<Rightarrow> client \<Rightarrow> embed_call" where
  "embed_call_for s texts cl =
     \<lparr> ec_client = cl, ec_model = embeddings_model s, ec_input = texts,
       ec_dimensions = (if startswith ''text-embedding-3'' (embeddings_model s) then Some (embeddings_dim s) else None) \<rparr>"

text \<open>One attempt.  The client is built inside the \<open>try\<close>; the check of the dimensions comes after it.\<close>

definition openai_embed_once ::
  "(nat \<Rightarrow> embed_call \<Rightarrow> string + 'a list list) \<Rightarrow> settings \<Rightarrow> request_secrets option \<Rightarrow> string list \<Rightarrow>
   embed_call list \<Rightarrow> embed_call list \<times> (exn + 'a list list)"
where
  "openai_embed_once sdk s secrets texts tr =
     (if texts = [] then (tr, Inr [])
      else case active_embed_client s secrets of
        Inl e \<Rightarrow> (tr, Inl (EmbeddingError (''OpenAI embeddings call failed: '' @ exn_message e)))
      | Inr cl \<Rightarrow>
          let c = embed_call_for s texts cl in
          (tr @ [c],
           case sdk (length tr) c of
             Inl m \<Rightarrow> Inl (EmbeddingError (''OpenAI embeddings call failed: '' @ m))
           | Inr vectors \<Rightarrow>
               if list_ex (\<lambda>v. length v \<noteq> embeddings_dim s) vectors
               then Inl (EmbeddingError (''OpenAI returned vectors with dimension != '' @ nat_str (embeddings_dim s) @
                      ''; check EMBEDDINGS_MODEL / EMBEDDINGS_DIM agreement''))
               else Inr vectors))"

definition openai_embed_batch ::
  "(nat \<Rightarrow> embed_call \<Rightarrow> string + 'a list list) \<Rightarrow> settings \<Rightarrow> request_secrets option \<Rightarrow> string list \<Rightarrow>
   embed_call list \<Rightarrow> embed_call list \<times> (exn + 'a list list)"
where
  "openai_embed_batch sdk s secrets texts =
     retry_embedding (EMBED_ATTEMPTS - 1) (openai_embed_once sdk s secrets texts)"

text \<open>\<open>embed\<close> of either adapter: \<open>result[0]\<close>.\<close>

definition first_vector :: "'t \<times> (exn + 'v list) \<Rightarrow> 't \<times> (exn + 'v)" where
  "first_vector r =
     (fst r, try_bind (snd r) (\<lambda>vs. case vs of [] \<Rightarrow> Inl (PyExc IndexError) | v # _ \<Rightarrow> Inr v))"

definition openai_embed ::
  "(nat \<Rightarrow> embed_call \<Rightarrow> string + 'a list list) \<Rightarrow> settings \<Rightarrow> request_secrets option \<Rightarrow> string \<Rightarrow>
   embed_call list \<Rightarrow> embed_call list \<times> (exn + 'a list)"
where
  "openai_embed sdk s secrets t tr = first_vector (openai_embed_batch sdk s secrets [t] tr)"

section \<open>Ollama\<close>

text \<open>\<open>len(x)\<close> and \<open>x[0]\<close> of a JSON value.\<close>

fun py_len :: "json \<Rightarrow> exn + nat" where
  "py_len (JStr s) = Inr (length s)"
| "py_len (JList xs) = Inr (length xs)"
| "py_len (JObj d) = Inr (length d)"
| "py_len _ = Inl (PyExc TypeError)"

fun py_first :: "json \<Rightarrow> exn + json" where
  "py_first (JStr []) = Inl (PyExc IndexError)"
| "py_first (JStr (c # _)) = Inr (JStr [c])"
| "py_first (JList []) = Inl (PyExc IndexError)"
| "py_first (JList (x # _)) = Inr x"
| "py_first (JObj _) = Inl (PyExc (KeyError ''0''))"
| "py_first _ = Inl (PyExc TypeError)"

text \<open>\<open>any(len(v) != dim for v in vectors)\<close>, which stops at the first vector that differs.\<close>

fun any_other_len :: "nat \<Rightarrow> json list \<Rightarrow> exn + bool" where
  "any_other_len d [] = Inr False"
| "any_other_len d (v # vs) =
     try_bind (py_len v) (\<lambda>n. if n \<noteq> d then Inr True else any_other_len d vs)"

definition ollama_check_dim :: "settings \<Rightarrow> json \<Rightarrow> exn + unit" where
  "ollama_check_dim s vectors =
     try_bind (py_iter vectors) (\<lambda>vs.
     try_bind (any_other_len (embeddings_dim s) vs) (\<lambda>bad.
       if \<not> bad then Inr ()
       else
         try_bind (if truthy vectors then py_first vectors else Inr (JList [])) (\<lambda>actual.
         try_bind (py_len actual) (\<lambda>n.
           Inl (EmbeddingError (''Embedding dim mismatch: model returned '' @ nat_str n @
             '', EMBEDDINGS_DIM='' @ nat_str (embeddings_dim s) @
             ''. Update .env + run the 0003_change_embedding_dim migration + re-ingest.''))))))"

definition embed_check_status :: "http_response \<Rightarrow> exn + unit" where
  "embed_check_status r =
     (if hr_status r \<ge> 400
      then let detail =
             (case hr_json r of
                None \<Rightarrow> hr_text r
              | Some j \<Rightarrow>
                  (case jget j ''error'' of
                     Inl _ \<Rightarrow> hr_text r
                   | Inr v \<Rightarrow> if truthy v then py_str v else hr_text r))
           in Inl (EmbeddingError (''Ollama HTTP '' @ nat_str (hr_status r) @ '': '' @ detail))
      else Inr ())"

fun failure_text :: "http_failure \<Rightarrow> string" where
  "failure_text (HTimeout m) = m"
| "failure_text (HTransport m) = m"

definition response_json :: "http_response \<Rightarrow> exn + json" where
  "response_json r = (case hr_json r of None \<Rightarrow> Inl (PyExc ValueError) | Some j \<Rightarrow> Inr j)"

type_synonym posts = "(string \<times> jdict) list"
type_synonym http_post = "nat \<Rightarrow> string \<Rightarrow> jdict \<Rightarrow> http_failure + http_response"

definition transport_error :: "http_failure \<Rightarrow> exn" where
  "transport_error f = EmbeddingError (''Ollama transport error: '' @ failure_text f)"

text \<open>The older endpoint, one text at a time; the dimensions are checked at the end.\<close>

definition legacy_vector :: "http_failure + http_response \<Rightarrow> exn + json list" where
  "legacy_vector resp =
     (case resp of
        Inl f \<Rightarrow> Inl (transport_error f)
      | Inr r \<Rightarrow>
          try_bind (embed_check_status r) (\<lambda>_.
          try_bind (response_json r) (\<lambda>data.
          try_bind (jget data ''embedding'') (\<lambda>v.
            if \<not> truthy v then Inl (EmbeddingError ''Ollama returned empty embedding'')
            else py_iter v))))"

definition legacy_payload :: "settings \<Rightarrow> string \<Rightarrow> string \<times> jdict" where
  "legacy_payload s t = (''/api/embeddings'', [(''model'', JStr (embeddings_model s)), (''prompt'', JStr t)])"

fun legacy_loop :: "http_post \<Rightarrow> settings \<Rightarrow> string list \<Rightarrow> posts \<Rightarrow> posts \<times> (exn + json list list)" where
  "legacy_loop post s [] tr = (tr, Inr [])"
| "legacy_loop post s (t # ts) tr =
     (let q = legacy_payload s t; tr1 = tr @ [q] in
       case legacy_vector (post (length tr) (fst q) (snd q)) of
         Inl e \<Rightarrow> (tr1, Inl e)
       | Inr v \<Rightarrow> (case legacy_loop post s ts tr1 of (tr2, res) \<Rightarrow> (tr2, try_bind res (\<lambda>vs. Inr (v # vs)))))"

definition embed_batch_legacy ::
  "http_post \<Rightarrow> settings \<Rightarrow> string list \<Rightarrow> posts \<Rightarrow> posts \<times> (exn + json list list)" where
  "embed_batch_legacy post s texts tr =
     (case legacy_loop post s texts tr of (tr', res) \<Rightarrow>
        (tr', try_bind res (\<lambda>out. try_bind (ollama_check_dim s (JList (map JList out))) (\<lambda>_. Inr out))))"

definition batch_payload :: "settings \<Rightarrow> string list \<Rightarrow> string \<times> jdict" where
  "batch_payload s texts =
     (''/api/embed'', [(''model'', JStr (embeddings_model s)), (''input'', JList (map JStr texts))])"

definition batch_vectors :: "settings \<Rightarrow> string list \<Rightarrow> http_response \<Rightarrow> exn + json list list" where
  "batch_vectors s texts r =
     try_bind (embed_check_status r) (\<lambda>_.
     try_bind (response_json r) (\<lambda>data.
     try_bind (jget data ''embeddings'') (\<lambda>e.
       let vectors = por e (JList []) in
       try_bind (py_len vectors) (\<lambda>n.
         if n \<noteq> length texts
         then Inl (EmbeddingError (''Ollama returned '' @ nat_str n @ '' vectors for '' @ nat_str (length texts) @ '' inputs''))
         else
           try_bind (ollama_check_dim s vectors) (\<lambda>_.
           try_bind (py_iter vectors) (try_map py_iter))))))"

definition ollama_embed_once ::
  "http_post \<Rightarrow> settings \<Rightarrow> string list \<Rightarrow> posts \<Rightarrow> posts \<times> (exn + json list list)" where
  "ollama_embed_once post s texts tr =
     (if texts = [] then (tr, Inr [])
      else
        let q = batch_payload s texts; tr1 = tr @ [q] in
        case post (length tr) (fst q) (snd q) of
          Inl f \<Rightarrow> (tr1, Inl (transport_error f))
        | Inr r \<Rightarrow>
            if hr_status r = 404 then embed_batch_legacy post s texts tr1
            else (tr1, batch_vectors s texts r))"

definition ollama_embed_batch ::
  "http_post \<Rightarrow> settings \<Rightarrow> string list \<Rightarrow> posts \<Rightarrow> posts \<times> (exn + json list list)" where
  "ollama_embed_batch post s texts = retry_embedding (EMBED_ATTEMPTS - 1) (ollama_embed_once post s texts)"

definition ollama_embed :: "http_post \<Rightarrow> settings \<Rightarrow> string \<Rightarrow> posts \<Rightarrow> posts \<times> (exn + json list)" where
  "ollama_embed post s t tr = first_vector (ollama_embed_batch post s [t] tr)"


section \<open>The adapter of the factory\<close>

record embed_env =
  em_sdk :: "nat \<Rightarrow> embed_call \<Rightarrow> string + json list list"
  em_post :: http_post
  em_secrets :: "request_secrets option"

text \<open>What the pipeline sees of the adapter that \<open>get_embeddings\<close> picks.\<close>

definition adapter_embed :: "embed_env \<Rightarrow> embeddings_adapter \<Rightarrow> string list \<Rightarrow> exn + json list list" where
  "adapter_embed M a texts =
     (case a of
        OpenAIEmbeddings s \<Rightarrow> snd (openai_embed_batch (em_sdk M) s (em_secrets M) texts [])
      | OllamaEmbeddings s \<Rightarrow> snd (ollama_embed_batch (em_post M) s texts []))"

section \<open>Lemmas\<close>

lemma retry_embedding_Inr:
  assumes "\<And>t t' x. f t = (t', Inr x) \<Longrightarrow> P x"
  shows "retry_embedding n f t = (t', Inr x) \<Longrightarrow> P x"
  by (induction n arbitrary: t) (auto split: prod.splits sum.splits if_splits dest: assms)

lemma retry_embedding_Inl:
  assumes "\<And>t t' e. f t = (t', Inl e) \<Longrightarrow> P e"
  shows "retry_embedding n f t = (t', Inl e) \<Longrightarrow> P e"
  by (induction n arbitrary: t) (auto split: prod.splits sum.splits if_splits dest: assms)

lemma retry_embedding_requests:
  assumes "\<And>t. length (fst (f t)) \<le> length t + k"
  shows "length (fst (retry_embedding n f t)) \<le> length t + Suc n * k"
proof (induction n arbitrary: t)
  case (Suc n)
  show ?case
  proof (cases "f t")
    case (Pair t' r)
    then have "length t' \<le> length t + k" using assms [of t] by simp
    then show ?thesis using Suc.IH [of t'] Pair by (auto split: sum.split)
  qed
qed (use assms in simp)

text \<open>If every attempt fails with an \<open>EmbeddingError\<close>, all of them are made.\<close>

lemma retry_embedding_exhausts:
  assumes "\<And>t. \<exists>q. f t = (t @ [q], Inl (g t)) \<and> is_EmbeddingError (g t)"
  shows "\<exists>new t'. retry_embedding n f t = (t @ new, Inl (g t')) \<and> length new = Suc n"
proof (induction n arbitrary: t)
  case 0
  then show ?case using assms [of t] by auto
next
  case (Suc n)
  obtain q where q: "f t = (t @ [q], Inl (g t))" "is_EmbeddingError (g t)" using assms by blast
  obtain new t' where "retry_embedding n f (t @ [q]) = ((t @ [q]) @ new, Inl (g t'))" "length new = Suc n"
    using Suc.IH by blast
  then show ?case using q by (intro exI [of _ "q # new"] exI [of _ t']) simp
qed

lemma openai_once_dims:
  "openai_embed_once sdk s secrets ts tr = (tr', Inr vs) \<Longrightarrow> \<forall>v\<in>set vs. length v = embeddings_dim s"
  by (auto simp: openai_embed_once_def Let_def list_ex_iff split: if_splits sum.splits)

lemma py_iter_len: "py_len j = Inr n \<Longrightarrow> py_iter j = Inr xs \<Longrightarrow> length xs = n"
  by (cases j) auto

lemma any_other_len_none: "any_other_len d vs = Inr False \<Longrightarrow> v \<in> set vs \<Longrightarrow> py_len v = Inr d"
  by (induction d vs rule: any_other_len.induct) (auto simp: try_bind_eq_Inr split: if_splits)

lemma check_dim_ok:
  "ollama_check_dim s j = Inr u \<Longrightarrow> py_iter j = Inr vs \<Longrightarrow> v \<in> set vs \<Longrightarrow> py_len v = Inr (embeddings_dim s)"
  by (auto simp: ollama_check_dim_def try_bind_eq_Inr split: if_splits intro: any_other_len_none)

lemma try_map_mem: "try_map f xs = Inr ys \<Longrightarrow> y \<in> set ys \<Longrightarrow> \<exists>x\<in>set xs. f x = Inr y"
  by (induction xs arbitrary: ys) (auto simp: try_bind_eq_Inr)

lemma batch_vectors_ok:
  assumes "batch_vectors s texts r = Inr vs"
  shows "length vs = length texts" "\<forall>v\<in>set vs. length v = embeddings_dim s"
proof -
  obtain j xs where j: "py_len j = Inr (length texts)" "ollama_check_dim s j = Inr ()" "py_iter j = Inr xs"
    "try_map py_iter xs = Inr vs"
    using assms by (auto simp: batch_vectors_def try_bind_eq_Inr Let_def split: if_splits)
  show "length vs = length texts" using try_map_length [OF j(4)] py_iter_len [OF j(1,3)] by simp
  show "\<forall>v\<in>set vs. length v = embeddings_dim s"
  proof
    fix v assume "v \<in> set vs"
    then obtain x where x: "x \<in> set xs" "py_iter x = Inr v" using try_map_mem [OF j(4)] by blast
    show "length v = embeddings_dim s" using py_iter_len [OF check_dim_ok [OF j(2,3) x(1)] x(2)] .
  qed
qed

lemma legacy_loop_count: "legacy_loop post s ts tr = (tr', Inr vs) \<Longrightarrow> length vs = length ts"
  by (induction ts arbitrary: tr tr' vs) (auto simp: Let_def try_bind_eq_Inr split: sum.splits prod.splits)

lemma legacy_ok:
  assumes "embed_batch_legacy post s ts tr = (tr', Inr vs)"
  shows "length vs = length ts" "\<forall>v\<in>set vs. length v = embeddings_dim s"
proof -
  have l: "legacy_loop post s ts tr = (tr', Inr vs)" and c: "ollama_check_dim s (JList (map JList vs)) = Inr ()"
    using assms by (auto simp: embed_batch_legacy_def try_bind_eq_Inr split: prod.splits)
  show "length vs = length ts" using legacy_loop_count [OF l] .
  show "\<forall>v\<in>set vs. length v = embeddings_dim s"
  proof
    fix v assume "v \<in> set vs"
    then have "py_len (JList v) = Inr (embeddings_dim s)" by (intro check_dim_ok [OF c]) auto
    then show "length v = embeddings_dim s" by simp
  qed
qed

lemma ollama_once_ok:
  assumes "ollama_embed_once post s ts tr = (tr', Inr vs)"
  shows "length vs = length ts \<and> (\<forall>v\<in>set vs. length v = embeddings_dim s)"
  using assms legacy_ok [of post s ts] batch_vectors_ok [of s ts]
  by (auto simp: ollama_embed_once_def Let_def split: if_splits sum.splits)

lemma legacy_requests: "length (fst (legacy_loop post s ts tr)) \<le> length tr + length ts"
proof (induction ts arbitrary: tr)
  case (Cons t ts)
  then show ?case using Cons.IH [of "tr @ [legacy_payload s t]"]
    by (auto simp: Let_def split: sum.split prod.split)
qed simp

lemma ollama_once_requests: "length (fst (ollama_embed_once post s ts tr)) \<le> length tr + (1 + length ts)"
  using legacy_requests [of post s ts "tr @ [batch_payload s ts]"]
  by (auto simp: ollama_embed_once_def embed_batch_legacy_def Let_def split_def split: sum.split)

section \<open>What the pipeline stores\<close>

definition dims_ok :: "nat \<Rightarrow> 'a list store \<Rightarrow> bool" where
  "dims_ok d st \<longleftrightarrow> (\<forall>c\<in>set (so_chunks st). length (cw_embedding c) = d)"

lemma index_document_chunks:
  assumes w: "\<And>d n cs rows r. write_chunks E tid d n cs = Inr rows \<Longrightarrow> r \<in> set rows \<Longrightarrow> P r"
    and old: "\<forall>c\<in>set (so_chunks st). P c"
  shows "\<forall>c\<in>set (so_chunks (fst (index_document E tid src n d st))). P c"
proof (cases "ie_put E (or_str (dc_storage_key d) []) (sd_data src)")
  case None
  then show ?thesis
  proof (cases "parse_source E src")
    case (Inr p)
    then show ?thesis
      using w [of "apply_parsed src p d" "n + 2"] old None
      by (auto simp: index_document_def fail_def finish_def Let_def try_bind_eq_Inr split: sum.split option.split)
  qed (use old None in \<open>simp add: index_document_def fail_def Let_def\<close>)
qed (use old in \<open>simp add: index_document_def fail_def\<close>)

lemma ingest_one_chunks:
  assumes w: "\<And>d n cs rows r. write_chunks E tid d n cs = Inr rows \<Longrightarrow> r \<in> set rows \<Longrightarrow> P r"
    and old: "\<forall>c\<in>set (so_chunks st). P c"
  shows "\<forall>c\<in>set (so_chunks (fst (ingest_one E tid src st))). P c"
proof -
  have ix: "\<forall>c\<in>set (so_chunks (fst (index_document E tid src n d st'))). P c"
    if "\<forall>c\<in>set (so_chunks st'). P c" for n d st'
    using w that by (rule index_document_chunks)
  have del: "\<forall>c\<in>set (so_chunks (delete_chunks tid i st)). P c" for i
    using old by (auto simp: delete_chunks_def)
  show ?thesis
  proof (cases "one_or_none (docs_at st tid (sd_uri src))")
    case (Inr found)
    then show ?thesis
      using old ix [OF old] ix [OF del]
      by (cases found) (simp_all add: ingest_one_def fail_def Let_def split: option.split)
  qed (use old in \<open>simp add: ingest_one_def fail_def Let_def\<close>)
qed

lemma ingest_chunks:
  assumes w: "\<And>d n cs rows r. write_chunks E tid d n cs = Inr rows \<Longrightarrow> r \<in> set rows \<Longrightarrow> P r"
  shows "\<forall>c\<in>set (so_chunks st). P c \<Longrightarrow> \<forall>c\<in>set (so_chunks (fst (ingest E tid srcs st))). P c"
proof (induction srcs arbitrary: st)
  case (Cons s srcs)
  obtain st1 r where one: "ingest_one E tid s st = (st1, r)" by fastforce
  have k: "\<forall>c\<in>set (so_chunks (fst (ingest_one E tid s st))). P c"
    using w Cons.prems by (rule ingest_one_chunks)
  then show ?case
    using Cons.IH [of st1] Cons.IH [of "st1\<lparr> so_drawn := so_drawn st1 + 2 \<rparr>"] one
    by (auto simp: Let_def split: sum.split prod.split)
qed simp

section \<open>The contract of an embeddings adapter\<close>

text \<open>
  \<open>core/adapters/embeddings.py\<close>: vectors have the dimension \<open>dim\<close>.  No text costs no request.
\<close>

locale embeddings_contract =
  fixes embed_batch :: "string list \<Rightarrow> 't \<Rightarrow> 't \<times> (exn + 'a list list)" and vdim :: nat
  assumes no_texts: "embed_batch [] tr = (tr, Inr [])"
    and dims: "embed_batch ts tr = (tr', Inr vs) \<Longrightarrow> v \<in> set vs \<Longrightarrow> length v = vdim"
begin

lemma rows_dim:
  assumes "ie_embed E = (\<lambda>ts. snd (embed_batch ts tr))"
  shows "embed_rows E rs = Inr out \<Longrightarrow> r \<in> set out \<Longrightarrow> length (cw_embedding r) = vdim"
  using assms
proof (induction E rs arbitrary: out rule: embed_rows.induct)
  case (2 E r' rs)
  let ?b = "take EMBED_BATCH_SIZE (r' # rs)" and ?d = "drop EMBED_BATCH_SIZE (r' # rs)"
  obtain vs rest where vs: "ie_embed E (map cw_content ?b) = Inr vs" "length vs = length ?b"
    "embed_rows E ?d = Inr rest"
    "out = map (\<lambda>(b, v). b\<lparr> cw_embedding := v \<rparr>) (zip ?b vs) @ rest"
    using "2.prems"(1) by (auto simp: try_bind_eq_Inr Let_def split: if_splits)
  have "\<exists>tr'. embed_batch (map cw_content ?b) tr = (tr', Inr vs)"
    using vs(1) "2.prems"(3) by (simp add: prod_eq_iff)
  then have d: "v \<in> set vs \<Longrightarrow> length v = vdim" for v using dims by blast
  show ?case
  proof (cases "r \<in> set rest")
    case True
    then show ?thesis using "2.IH" [OF refl, of vs rest] vs "2.prems"(3) by auto
  next
    case False
    then obtain b v where "(b, v) \<in> set (zip ?b vs)" "r = b\<lparr> cw_embedding := v \<rparr>"
      using "2.prems"(2) vs(4) by auto
    then show ?thesis using d by (auto dest: set_zip_rightD)
  qed
qed simp

lemma written_dim:
  assumes "ie_embed E = (\<lambda>ts. snd (embed_batch ts tr))"
  shows "write_chunks E tid d n cs = Inr rows \<Longrightarrow> r \<in> set rows \<Longrightarrow> length (cw_embedding r) = vdim"
  using rows_dim [OF assms] by (auto simp: write_chunks_def Let_def split: if_splits option.splits)

lemma ingest_dims:
  "ie_embed E = (\<lambda>ts. snd (embed_batch ts tr)) \<Longrightarrow> dims_ok vdim st \<Longrightarrow> dims_ok vdim (fst (ingest E tid srcs st))"
  unfolding dims_ok_def by (rule ingest_chunks) (rule written_dim)

end

interpretation openai_embeddings:
  embeddings_contract "openai_embed_batch sdk s secrets" "embeddings_dim s"
  for sdk :: "nat \<Rightarrow> embed_call \<Rightarrow> string + 'a list list" and s :: settings and secrets :: "request_secrets option"
proof
  fix ts :: "string list" and tr tr' :: "embed_call list" and vs :: "'a list list" and v
  show "openai_embed_batch sdk s secrets [] tr = (tr, Inr [])"
    by (simp add: openai_embed_batch_def EMBED_ATTEMPTS_def numeral_3_eq_3 openai_embed_once_def)
  assume r: "openai_embed_batch sdk s secrets ts tr = (tr', Inr vs)" and v: "v \<in> set vs"
  have "\<forall>v\<in>set vs. length v = embeddings_dim s"
    using r unfolding openai_embed_batch_def
    by (rule retry_embedding_Inr [rotated]) (rule openai_once_dims)
  then show "length v = embeddings_dim s" using v by blast
qed

interpretation ollama_embeddings:
  embeddings_contract "ollama_embed_batch post s" "embeddings_dim s"
  for post :: http_post and s :: settings
proof
  fix ts :: "string list" and tr tr' :: posts and vs :: "json list list" and v
  show "ollama_embed_batch post s [] tr = (tr, Inr [])"
    by (simp add: ollama_embed_batch_def EMBED_ATTEMPTS_def numeral_3_eq_3 ollama_embed_once_def)
  assume r: "ollama_embed_batch post s ts tr = (tr', Inr vs)" and v: "v \<in> set vs"
  have "length vs = length ts \<and> (\<forall>v\<in>set vs. length v = embeddings_dim s)"
    using r unfolding ollama_embed_batch_def
    by (rule retry_embedding_Inr [rotated]) (rule ollama_once_ok)
  then show "length v = embeddings_dim s" using v by blast
qed

section \<open>Properties\<close>

text \<open>C36. Whichever adapter the factory picks for the settings, a run of the pipeline stores only vectors of the
  configured dimension: a model that answers with another one never reaches the table of chunks.\<close>

theorem stored_vectors_fit:
  assumes "get_embeddings s = Inr a" "ie_embed E = adapter_embed M a" "dims_ok (embeddings_dim s) st"
  shows "dims_ok (embeddings_dim s) (fst (ingest E tid srcs st))"
proof (cases a)
  case (OpenAIEmbeddings s')
  then have "s' = s" using assms(1) by (auto simp: get_embeddings_def split: if_splits)
  then have "ie_embed E = (\<lambda>ts. snd (openai_embed_batch (em_sdk M) s (em_secrets M) ts []))"
    using assms(2) OpenAIEmbeddings by (simp add: adapter_embed_def fun_eq_iff)
  then show ?thesis using assms(3) by (rule openai_embeddings.ingest_dims)
next
  case (OllamaEmbeddings s')
  then have "s' = s" using assms(1) by (auto simp: get_embeddings_def split: if_splits)
  then have "ie_embed E = (\<lambda>ts. snd (ollama_embed_batch (em_post M) s ts []))"
    using assms(2) OllamaEmbeddings by (simp add: adapter_embed_def fun_eq_iff)
  then show ?thesis using assms(3) by (rule ollama_embeddings.ingest_dims)
qed

text \<open>A batch costs at most four requests to OpenAI, and four for the batch and each of its texts to Ollama; a model
  whose vectors have another dimension than the configured one is asked, and paid for, all four times before the error.\<close>

theorem embedding_requests_bounded:
  "length (fst (openai_embed_batch sdk s secrets ts tr)) \<le> length tr + 4 \<and>
   length (fst (ollama_embed_batch post s ts ps)) \<le> length ps + 4 * (1 + length ts) \<and>
   (ts \<noteq> [] \<longrightarrow> active_embed_client s secrets = Inr cl \<longrightarrow>
      (\<forall>n c. \<exists>vs v. sdk n c = Inr (v # vs) \<and> length v \<noteq> embeddings_dim s) \<longrightarrow>
      (\<exists>new m. openai_embed_batch sdk s secrets ts tr = (tr @ new, Inl (EmbeddingError m)) \<and> length new = 4))"
proof (intro conjI impI)
  have "length (fst (openai_embed_once sdk s secrets ts t)) \<le> length t + 1" for t
    by (simp add: openai_embed_once_def Let_def split: sum.split)
  from retry_embedding_requests [OF this, of 3 tr]
  show "length (fst (openai_embed_batch sdk s secrets ts tr)) \<le> length tr + 4"
    by (simp add: openai_embed_batch_def EMBED_ATTEMPTS_def)
  show "length (fst (ollama_embed_batch post s ts ps)) \<le> length ps + 4 * (1 + length ts)"
    using retry_embedding_requests [where f = "ollama_embed_once post s ts" and n = 3 and t = ps, OF ollama_once_requests]
    by (simp add: ollama_embed_batch_def EMBED_ATTEMPTS_def)
  let ?e = "EmbeddingError (''OpenAI returned vectors with dimension != '' @ nat_str (embeddings_dim s) @
    ''; check EMBEDDINGS_MODEL / EMBEDDINGS_DIM agreement'')"
  assume a: "ts \<noteq> []" "active_embed_client s secrets = Inr cl"
    "\<forall>n c. \<exists>vs v. sdk n c = Inr (v # vs) \<and> length v \<noteq> embeddings_dim s"
  have "\<exists>q. openai_embed_once sdk s secrets ts t = (t @ [q], Inl ?e) \<and> is_EmbeddingError ?e" for t
  proof -
    obtain vs v where "sdk (length t) (embed_call_for s ts cl) = Inr (v # vs)" "length v \<noteq> embeddings_dim s"
      using a(3) by blast
    then show ?thesis using a(1,2) by (simp add: openai_embed_once_def Let_def)
  qed
  from retry_embedding_exhausts [where n = 3 and t = tr, OF this]
  show "\<exists>new m. openai_embed_batch sdk s secrets ts tr = (tr @ new, Inl (EmbeddingError m)) \<and> length new = 4"
    by (auto simp: openai_embed_batch_def EMBED_ATTEMPTS_def)
qed

text \<open>Where Ollama answers, it answers once per text.\<close>

theorem ollama_one_per_text:
  "ollama_embed_batch post s ts tr = (tr', Inr vs) \<Longrightarrow> length vs = length ts"
  unfolding ollama_embed_batch_def
  by (drule retry_embedding_Inr [rotated, where P = "\<lambda>vs. length vs = length ts"]) (auto dest: ollama_once_ok)

section \<open>Witnesses\<close>

text \<open>Ollama at two numbers per text, answering every batch by one vector.\<close>

definition two_numbers :: settings where
  "two_numbers = default_settings\<lparr> embeddings_provider := ''ollama'', embeddings_dim := 2, openai_api_key := Some ''k'' \<rparr>"

definition sample_embed_env :: embed_env where
  "sample_embed_env = \<lparr> em_sdk = (\<lambda>n c. Inr [[JInt 1]]),
     em_post = (\<lambda>n p d. Inr \<lparr> hr_status = 200, hr_text = [],
       hr_json = Some (JObj [(''embeddings'', JList [JList [JInt 1, JInt 0]])]) \<rparr>),
     em_secrets = None \<rparr>"

definition embedding_ingest :: "json list ingest_env" where
  "embedding_ingest = \<lparr> ie_uuid = sample_ids, ie_clock = int, ie_hash = (\<lambda>s. s), ie_guess = (\<lambda>f. None),
     ie_parse = (\<lambda>p t f. Inr (parse_markdown t f)), ie_chunking = sample_chunk_env,
     ie_embed = adapter_embed sample_embed_env (OllamaEmbeddings two_numbers), ie_zero = [],
     ie_flush_doc = (\<lambda>d. None), ie_flush_rows = (\<lambda>rs. None), ie_put = (\<lambda>k v. None),
     ie_broker_up = True, ie_tenants = [], ie_default_enrich = True \<rparr>"

definition embedded_store :: "json list store" where
  "embedded_store = fst (ingest embedding_ingest ''t'' [sample_source ''one''] no_store)"

theorem stored_vectors_fit_witness:
  "dims_ok 2 embedded_store \<and> length (so_chunks embedded_store) = 1"
proof
  have "get_embeddings two_numbers = Inr (OllamaEmbeddings two_numbers)"
    by (simp add: get_embeddings_def two_numbers_def)
  from stored_vectors_fit [OF this, of embedding_ingest sample_embed_env no_store "''t''" "[sample_source ''one'']"]
  show "dims_ok 2 embedded_store"
    by (simp add: embedding_ingest_def embedded_store_def dims_ok_def no_store_def two_numbers_def)
  show "length (so_chunks embedded_store) = 1" by code_simp
qed

theorem embedding_requests_bounded_witness:
  "\<exists>new m. openai_embed_batch (em_sdk sample_embed_env) two_numbers None [''a''] [] =
     (new, Inl (EmbeddingError m)) \<and> length new = 4"
proof -
  have "active_embed_client two_numbers None = Inr (OpenAIClient (Some ''k'') None)"
    by code_simp
  then show ?thesis
    using embedding_requests_bounded [of "em_sdk sample_embed_env" two_numbers None "[''a'']" "[]"]
    by (simp add: sample_embed_env_def two_numbers_def)
qed

theorem ollama_one_per_text_witness:
  "\<exists>tr' v. ollama_embed_batch (em_post sample_embed_env) two_numbers [''a''] [] = (tr', Inr [v])"
proof -
  have "isl (snd (ollama_embed_batch (em_post sample_embed_env) two_numbers [''a''] [])) = False" by code_simp
  then obtain tr' vs where r: "ollama_embed_batch (em_post sample_embed_env) two_numbers [''a''] [] = (tr', Inr vs)"
    by (metis isl_def prod.collapse sum.exhaust)
  from ollama_one_per_text [OF r] have "length vs = 1" by simp
  then show ?thesis using r by (cases vs) auto
qed

end
