(* ===== verification/Storage.thy ===== *)
theory Storage
  imports IngestPipeline
begin

text \<open>
  The object storage (\<open>indexing/adapters/storage_minio.py\<close>) and the vector store
  (\<open>indexing/adapters/vector_pgvector.py\<close>).  The S3 server is a parameter, with its documented laws as hypotheses;
  the table of chunks is a list of rows, its vectors and their distance are parameters.
\<close>

section \<open>Object storage\<close>

text \<open>A \<open>ClientError\<close>: its code, if the response has one, and its text.\<close>

record client_error =
  xe_code :: "string option"
  xe_text :: string

text \<open>The operations of the server on one bucket: reads answer, writes change the state too.\<close>

record 's s3_server =
  s3_head_bucket :: "'s \<Rightarrow> client_error option"
  s3_create_bucket :: "'s \<Rightarrow> 's \<times> client_error option"
  s3_head_object :: "'s \<Rightarrow> string \<Rightarrow> client_error option"
  s3_get_object :: "'s \<Rightarrow> string \<Rightarrow> client_error + string"
  s3_put_object :: "'s \<Rightarrow> string \<Rightarrow> string \<Rightarrow> string option \<Rightarrow> 's \<times> client_error option"
  s3_delete_object :: "'s \<Rightarrow> string \<Rightarrow> 's \<times> client_error option"

datatype storage_error = StorageObjectNotFoundError string | ClientError client_error

text \<open>The adapter: the flag of the bucket and the server behind it.\<close>

record 's minio =
  mi_bucket_ensured :: bool
  mi_server :: 's

definition failed_write :: "'s \<times> client_error option \<Rightarrow> 's minio \<Rightarrow> 's minio \<times> (storage_error + unit)" where
  "failed_write r st =
     (st\<lparr> mi_server := fst r \<rparr>, case snd r of Some e \<Rightarrow> Inl (ClientError e) | None \<Rightarrow> Inr ())"

definition ensure_bucket :: "'s s3_server \<Rightarrow> 's minio \<Rightarrow> 's minio \<times> (storage_error + unit)" where
  "ensure_bucket S st =
     (if mi_bucket_ensured st then (st, Inr ())
      else
        let (st', r) =
          (case s3_head_bucket S (mi_server st) of
             None \<Rightarrow> (st, Inr ())
           | Some e \<Rightarrow>
               if xe_code e \<in> {Some ''404'', Some ''NoSuchBucket'', Some ''NotFound''}
               then failed_write (s3_create_bucket S (mi_server st)) st
               else (st, Inl (ClientError e)))
        in (case r of Inl e \<Rightarrow> (st', Inl e) | Inr _ \<Rightarrow> (st'\<lparr> mi_bucket_ensured := True \<rparr>, Inr ())))"

definition storage_get :: "'s s3_server \<Rightarrow> string \<Rightarrow> 's minio \<Rightarrow> storage_error + string" where
  "storage_get S key st =
     (case s3_get_object S (mi_server st) key of
        Inr d \<Rightarrow> Inr d
      | Inl e \<Rightarrow>
          if xe_code e \<in> {Some ''NoSuchKey'', Some ''404''} then Inl (StorageObjectNotFoundError key)
          else Inl (ClientError e))"

definition storage_put ::
  "'s s3_server \<Rightarrow> string \<Rightarrow> string \<Rightarrow> string option \<Rightarrow> 's minio \<Rightarrow> 's minio \<times> (storage_error + unit)" where
  "storage_put S key data content_type st =
     (case ensure_bucket S st of
        (st1, Inl e) \<Rightarrow> (st1, Inl e)
      | (st1, Inr _) \<Rightarrow>
          failed_write (s3_put_object S (mi_server st1) key data
            (if str_true content_type then content_type else None)) st1)"

definition storage_delete :: "'s s3_server \<Rightarrow> string \<Rightarrow> 's minio \<Rightarrow> 's minio \<times> (storage_error + unit)" where
  "storage_delete S key st = failed_write (s3_delete_object S (mi_server st) key) st"

definition storage_exists :: "'s s3_server \<Rightarrow> string \<Rightarrow> 's minio \<Rightarrow> storage_error + bool" where
  "storage_exists S key st =
     (case s3_head_object S (mi_server st) key of
        None \<Rightarrow> Inr True
      | Some e \<Rightarrow>
          if xe_code e \<in> {Some ''404'', Some ''NoSuchKey'', Some ''NotFound''} then Inr False
          else Inl (ClientError e))"

text \<open>
  What S3 documents, for a server without failures: \<open>view\<close> is the content of the bucket, if there is one.
\<close>

definition s3_laws :: "'s s3_server \<Rightarrow> ('s \<Rightarrow> (string \<rightharpoonup> string \<times> string option) option) \<Rightarrow> bool" where
  "s3_laws S view \<longleftrightarrow>
     (\<forall>s. case view s of
        None \<Rightarrow>
          map_option xe_code (s3_head_bucket S s) = Some (Some ''404'') \<and>
          snd (s3_create_bucket S s) = None \<and> view (fst (s3_create_bucket S s)) = Some Map.empty \<and>
          (\<forall>k. map_option xe_code (s3_head_object S s k) = Some (Some ''404'') \<and>
             (\<exists>e. s3_get_object S s k = Inl e \<and> xe_code e = Some ''NoSuchBucket''))
      | Some m \<Rightarrow>
          s3_head_bucket S s = None \<and>
          (\<forall>k.
             (case m k of
                None \<Rightarrow> map_option xe_code (s3_head_object S s k) = Some (Some ''404'') \<and>
                  (\<exists>e. s3_get_object S s k = Inl e \<and> xe_code e = Some ''NoSuchKey'')
              | Some (d, c) \<Rightarrow> s3_head_object S s k = None \<and> s3_get_object S s k = Inr d) \<and>
             (\<forall>d c. snd (s3_put_object S s k d c) = None \<and>
                view (fst (s3_put_object S s k d c)) = Some (m(k \<mapsto> (d, c)))) \<and>
             snd (s3_delete_object S s k) = None \<and>
             view (fst (s3_delete_object S s k)) = Some (m(k := None))))"

text \<open>What the storage holds, as the clients of the adapter see it; a missing bucket is an empty one.\<close>

definition contents :: "('s \<Rightarrow> (string \<rightharpoonup> string \<times> string option) option) \<Rightarrow> 's minio \<Rightarrow> string \<rightharpoonup> string \<times> string option" where
  "contents view st = (case view (mi_server st) of None \<Rightarrow> Map.empty | Some m \<Rightarrow> m)"

text \<open>A flag that is set is right.\<close>

definition minio_ok :: "('s \<Rightarrow> (string \<rightharpoonup> string \<times> string option) option) \<Rightarrow> 's minio \<Rightarrow> bool" where
  "minio_ok view st \<longleftrightarrow> (mi_bucket_ensured st \<longrightarrow> view (mi_server st) \<noteq> None)"

lemma s3_lawsD_none:
  assumes "s3_laws S view" "view s = None"
  shows "\<exists>e. s3_head_bucket S s = Some e \<and> xe_code e = Some ''404''"
    "snd (s3_create_bucket S s) = None" "view (fst (s3_create_bucket S s)) = Some Map.empty"
    "\<exists>e. s3_head_object S s k = Some e \<and> xe_code e = Some ''404''"
    "\<exists>e. s3_get_object S s k = Inl e \<and> xe_code e = Some ''NoSuchBucket''"
  using assms unfolding s3_laws_def by (auto dest!: spec [of _ s])

lemma s3_lawsD_some:
  assumes "s3_laws S view" "view s = Some m"
  shows "s3_head_bucket S s = None"
    "m k = None \<Longrightarrow> \<exists>e. s3_head_object S s k = Some e \<and> xe_code e = Some ''404''"
    "m k = None \<Longrightarrow> \<exists>e. s3_get_object S s k = Inl e \<and> xe_code e = Some ''NoSuchKey''"
    "m k = Some (d, c) \<Longrightarrow> s3_head_object S s k = None \<and> s3_get_object S s k = Inr d"
    "snd (s3_put_object S s k d c) = None \<and> view (fst (s3_put_object S s k d c)) = Some (m(k \<mapsto> (d, c)))"
    "snd (s3_delete_object S s k) = None \<and> view (fst (s3_delete_object S s k)) = Some (m(k := None))"
proof -
  have all: "s3_head_bucket S s = None \<and>
      (case m k of
          None \<Rightarrow> map_option xe_code (s3_head_object S s k) = Some (Some ''404'') \<and>
            (\<exists>e. s3_get_object S s k = Inl e \<and> xe_code e = Some ''NoSuchKey'')
        | Some (d, c) \<Rightarrow> s3_head_object S s k = None \<and> s3_get_object S s k = Inr d) \<and>
      (\<forall>d c. snd (s3_put_object S s k d c) = None \<and>
          view (fst (s3_put_object S s k d c)) = Some (m(k \<mapsto> (d, c)))) \<and>
      snd (s3_delete_object S s k) = None \<and> view (fst (s3_delete_object S s k)) = Some (m(k := None))"
    using assms(1) unfolding s3_laws_def by (auto simp: assms(2) dest!: spec [of _ s])
  then show "s3_head_bucket S s = None"
    "m k = None \<Longrightarrow> \<exists>e. s3_head_object S s k = Some e \<and> xe_code e = Some ''404''"
    "m k = None \<Longrightarrow> \<exists>e. s3_get_object S s k = Inl e \<and> xe_code e = Some ''NoSuchKey''"
    "m k = Some (d, c) \<Longrightarrow> s3_head_object S s k = None \<and> s3_get_object S s k = Inr d"
    "snd (s3_put_object S s k d c) = None \<and> view (fst (s3_put_object S s k d c)) = Some (m(k \<mapsto> (d, c)))"
    "snd (s3_delete_object S s k) = None \<and> view (fst (s3_delete_object S s k)) = Some (m(k := None))"
    by (auto split: option.splits)
qed

lemma ensure_bucket_ok:
  assumes "s3_laws S view" "minio_ok view st"
  shows "\<exists>st'. ensure_bucket S st = (st', Inr ()) \<and> view (mi_server st') = Some (contents view st)"
proof (cases "view (mi_server st)")
  case None
  then have "\<not> mi_bucket_ensured st" using assms(2) by (auto simp: minio_ok_def)
  moreover obtain e where "s3_head_bucket S (mi_server st) = Some e" "xe_code e = Some ''404''"
    using s3_lawsD_none(1) [OF assms(1) None] by blast
  ultimately show ?thesis
    using s3_lawsD_none(2,3) [OF assms(1) None] None
    by (simp add: ensure_bucket_def failed_write_def contents_def)
next
  case (Some m)
  then show ?thesis using s3_lawsD_some(1) [OF assms(1) Some]
    by (auto simp: ensure_bucket_def contents_def)
qed

lemma storage_put_replaces:
  assumes laws: "s3_laws S view" and ok: "minio_ok view st"
  shows "\<exists>st'. storage_put S k d c st = (st', Inr ()) \<and> minio_ok view st' \<and> storage_get S k st' = Inr d \<and>
     contents view st' = (contents view st)(k \<mapsto> (d, if str_true c then c else None))"
proof -
  let ?c = "if str_true c then c else None"
  obtain st1 where st1: "ensure_bucket S st = (st1, Inr ())" "view (mi_server st1) = Some (contents view st)"
    using ensure_bucket_ok [OF laws ok] by blast
  let ?s2 = "fst (s3_put_object S (mi_server st1) k d ?c)"
  have put: "snd (s3_put_object S (mi_server st1) k d ?c) = None"
    "view ?s2 = Some ((contents view st)(k \<mapsto> (d, ?c)))"
    using s3_lawsD_some(5) [OF laws st1(2), of k d ?c] by blast+
  have "s3_get_object S ?s2 k = Inr d" using s3_lawsD_some(4) [OF laws put(2), of k d ?c] by simp
  then show ?thesis
    using st1(1) put by (auto simp: storage_put_def failed_write_def minio_ok_def contents_def storage_get_def)
qed

lemma storage_exists_iff:
  assumes laws: "s3_laws S view"
  shows "storage_exists S k st = Inr (k \<in> dom (contents view st))"
proof (cases "view (mi_server st)")
  case None
  then show ?thesis using s3_lawsD_none(4) [OF laws None, of k]
    by (auto simp: storage_exists_def contents_def)
next
  case (Some m)
  then show ?thesis using s3_lawsD_some(2,4) [OF laws Some, of k]
    by (cases "m k") (auto simp: storage_exists_def contents_def)
qed

lemma storage_get_reads:
  assumes laws: "s3_laws S view" and m: "view (mi_server st) = Some m"
  shows "storage_get S k st =
     (case m k of None \<Rightarrow> Inl (StorageObjectNotFoundError k) | Some (d, c) \<Rightarrow> Inr d)"
  using s3_lawsD_some(3,4) [OF laws m, of k] by (cases "m k") (auto simp: storage_get_def)

lemma storage_delete_removes:
  assumes laws: "s3_laws S view" and m: "view (mi_server st) = Some m"
  shows "\<exists>st'. storage_delete S k st = (st', Inr ()) \<and> minio_ok view st' \<and> contents view st' = m(k := None)"
  using s3_lawsD_some(6) [OF laws m, of k]
  by (auto simp: storage_delete_def failed_write_def minio_ok_def contents_def)

section \<open>Vector store\<close>

record 'v vchunk =
  vc_id :: uuid
  vc_tenant :: uuid
  vc_document :: uuid
  vc_embedding :: 'v
  vc_metadata :: json

record 'v vector_item =
  vi_chunk :: uuid
  vi_embedding :: 'v
  vi_metadata :: json

record vector_hit =
  vh_chunk :: uuid
  vh_document :: uuid
  vh_tenant :: uuid
  vh_score :: rat
  vh_metadata :: json

text \<open>
  The dimension of a vector and the configured one, the distance \<open><=>\<close>, the text of a JSON number, list or object
  under \<open>->>\<close>, and what the database says to a limit below zero and to a filter whose key is no identifier.
\<close>

record 'v vector_env =
  ve_len :: "'v \<Rightarrow> nat"
  ve_dim :: nat
  ve_distance :: "'v \<Rightarrow> 'v \<Rightarrow> rat"
  ve_json_text :: "json \<Rightarrow> string"
  ve_bad_limit :: exn
  ve_odd_key :: exn

text \<open>One \<open>UPDATE\<close>.  A \<open>None\<close> bound as JSONB is the JSON null, which \<open>COALESCE\<close> keeps.\<close>

definition update_chunk :: "uuid \<Rightarrow> 'v vector_item \<Rightarrow> 'v vchunk list \<Rightarrow> 'v vchunk list" where
  "update_chunk tid it rows =
     map (\<lambda>r. if vc_id r = vi_chunk it \<and> vc_tenant r = tid
       then r\<lparr> vc_embedding := vi_embedding it, vc_metadata := vi_metadata it \<rparr> else r) rows"

definition upsert_batch ::
  "'v vector_env \<Rightarrow> uuid \<Rightarrow> 'v vector_item list \<Rightarrow> 'v vchunk list \<Rightarrow> exn + 'v vchunk list" where
  "upsert_batch V tid items rows =
     (if items = [] then Inr rows
      else if list_ex (\<lambda>it. ve_len V (vi_embedding it) \<noteq> ve_dim V) items then Inl (PyExc ValueError)
      else Inr (fold (update_chunk tid) items rows))"

definition upsert ::
  "'v vector_env \<Rightarrow> uuid \<Rightarrow> uuid \<Rightarrow> 'v \<Rightarrow> jdict option \<Rightarrow> 'v vchunk list \<Rightarrow> exn + 'v vchunk list" where
  "upsert V tid cid v md rows =
     upsert_batch V tid [\<lparr> vi_chunk = cid, vi_embedding = v,
       vi_metadata = JObj (case md of None \<Rightarrow> [] | Some d \<Rightarrow> d) \<rparr>] rows"

text \<open>\<open>metadata ->> key\<close>: NULL unless the metadata is an object with another value than null at the key.\<close>

definition json_text :: "'v vector_env \<Rightarrow> json \<Rightarrow> string option" where
  "json_text V j =
     (case j of JNull \<Rightarrow> None | JStr s \<Rightarrow> Some s
      | JBool b \<Rightarrow> Some (if b then ''true'' else ''false'')
      | JInt i \<Rightarrow> Some (int_str i) | _ \<Rightarrow> Some (ve_json_text V j))"

definition metadata_text :: "'v vector_env \<Rightarrow> json \<Rightarrow> string \<Rightarrow> string option" where
  "metadata_text V md key =
     (case md of JObj d \<Rightarrow> (case map_of d key of None \<Rightarrow> None | Some j \<Rightarrow> json_text V j) | _ \<Rightarrow> None)"

definition row_matches :: "'v vector_env \<Rightarrow> uuid \<Rightarrow> jdict \<Rightarrow> 'v vchunk \<Rightarrow> bool" where
  "row_matches V tid filters r \<longleftrightarrow>
     vc_tenant r = tid \<and> list_all (\<lambda>(k, v). metadata_text V (vc_metadata r) k = Some (py_str v)) filters"

definition hit_of :: "'v vector_env \<Rightarrow> 'v \<Rightarrow> 'v vchunk \<Rightarrow> vector_hit" where
  "hit_of V q r =
     \<lparr> vh_chunk = vc_id r, vh_document = vc_document r, vh_tenant = vc_tenant r,
       vh_score = 1 - ve_distance V (vc_embedding r) q, vh_metadata = por (vc_metadata r) (JObj []) \<rparr>"

definition vector_query ::
  "'v vector_env \<Rightarrow> uuid \<Rightarrow> 'v \<Rightarrow> int \<Rightarrow> jdict option \<Rightarrow> 'v vchunk list \<Rightarrow> exn + vector_hit list" where
  "vector_query V tid q k filters rows =
     (let fs = (case filters of None \<Rightarrow> [] | Some d \<Rightarrow> d) in
       if ve_len V q \<noteq> ve_dim V then Inl (PyExc ValueError)
       else if \<not> list_all (\<lambda>(key, _). list_all is_word key) fs then Inl (ve_odd_key V)
       else if k < 0 then Inl (ve_bad_limit V)
       else Inr (map (hit_of V q)
         (take (nat k) (sort_key (\<lambda>r. ve_distance V (vc_embedding r) q) (filter (row_matches V tid fs) rows)))))"

definition delete_document_chunks :: "uuid \<Rightarrow> uuid \<Rightarrow> 'v vchunk list \<Rightarrow> 'v vchunk list" where
  "delete_document_chunks tid did rows = filter (\<lambda>r. \<not> (vc_document r = did \<and> vc_tenant r = tid)) rows"

section \<open>Lemmas on the vector store\<close>

definition vc_key :: "'v vchunk \<Rightarrow> uuid \<times> uuid \<times> uuid" where
  "vc_key r = (vc_id r, vc_tenant r, vc_document r)"

lemma update_chunk_keys: "map vc_key (update_chunk tid it rows) = map vc_key rows"
  by (simp add: update_chunk_def vc_key_def)

lemma fold_update_keys: "map vc_key (fold (update_chunk tid) items rows) = map vc_key rows"
  by (induction items arbitrary: rows) (simp_all add: update_chunk_keys)

lemma fold_update_row:
  "fold (update_chunk tid) items rows =
     map (\<lambda>r. if vc_tenant r = tid then
       (case find (\<lambda>it. vi_chunk it = vc_id r) (rev items) of None \<Rightarrow> r
        | Some it \<Rightarrow> r\<lparr> vc_embedding := vi_embedding it, vc_metadata := vi_metadata it \<rparr>) else r) rows"
proof (induction items rule: rev_induct)
  case (snoc it items)
  then show ?case by (auto simp: update_chunk_def split: option.split)
qed (simp add: map_idI)

lemma sorted_take_rest:
  assumes "x \<in> set (take n (sort_key f xs))" "y \<in> set xs" "y \<notin> set (take n (sort_key f xs))"
  shows "f x \<le> f y"
proof -
  let ?s = "sort_key f xs"
  have "y \<in> set (drop n ?s)"
    using assms(2,3) by (metis Un_iff append_take_drop_id set_append set_sort)
  moreover have "sorted (map f (take n ?s) @ map f (drop n ?s))"
    by (metis append_take_drop_id map_append sorted_sort_key)
  ultimately show ?thesis using assms(1) by (auto simp: sorted_append)
qed

section \<open>Properties\<close>

text \<open>On a server that keeps the laws of S3, the adapter is a map from keys to objects, operation by operation:
  \<open>put\<close> (which makes the bucket when there is none) replaces the object, which \<open>get\<close> then reads; \<open>exists\<close> tells whether
  a key is there; with a bucket, \<open>get\<close> of a missing key raises \<open>StorageObjectNotFoundError\<close> and \<open>delete\<close> removes a
  key, silently if it is missing.\<close>

theorem storage_is_map:
  assumes "s3_laws S view" "minio_ok view st"
  shows "(\<exists>st'. storage_put S k d c st = (st', Inr ()) \<and> minio_ok view st' \<and> storage_get S k st' = Inr d \<and>
      contents view st' = (contents view st)(k \<mapsto> (d, if str_true c then c else None))) \<and>
    storage_exists S k st = Inr (k \<in> dom (contents view st)) \<and>
    (view (mi_server st) \<noteq> None \<longrightarrow>
      storage_get S k st = (case contents view st k of
        None \<Rightarrow> Inl (StorageObjectNotFoundError k) | Some (d, c) \<Rightarrow> Inr d) \<and>
      (\<exists>st'. storage_delete S k st = (st', Inr ()) \<and> minio_ok view st' \<and>
        contents view st' = (contents view st)(k := None)))"
  using storage_put_replaces [OF assms, of k d c] storage_exists_iff [OF assms(1), of k st]
    storage_get_reads [OF assms(1), of st _ k] storage_delete_removes [OF assms(1), of st _ k]
  by (auto simp: contents_def)

text \<open>A similarity query returns the \<open>k\<close> nearest among the chunks of the tenant that match every filter, the
  nearest first: a chunk left out is at least as far as any returned, and none is of another tenant.\<close>

theorem vector_query_nearest:
  assumes "vector_query V tid q k filters rows = Inr hits"
  defines "match \<equiv> filter (row_matches V tid (case filters of None \<Rightarrow> [] | Some d \<Rightarrow> d)) rows"
  shows "\<exists>rs. hits = map (hit_of V q) rs \<and> set rs \<subseteq> set match \<and> length rs = min (nat k) (length match) \<and>
    sorted (map (\<lambda>r. ve_distance V (vc_embedding r) q) rs) \<and>
    (\<forall>r\<in>set rs. \<forall>r'\<in>set match - set rs. ve_distance V (vc_embedding r) q \<le> ve_distance V (vc_embedding r') q) \<and>
    (\<forall>h\<in>set hits. vh_tenant h = tid)"
proof -
  let ?f = "\<lambda>r. ve_distance V (vc_embedding r) q"
  let ?rs = "take (nat k) (sort_key ?f match)"
  have h: "hits = map (hit_of V q) ?rs"
    using assms(1) by (auto simp: vector_query_def match_def Let_def split: if_splits)
  have sub: "set ?rs \<subseteq> set match" by (metis set_sort set_take_subset)
  have "sorted (map ?f ?rs)" by (metis sorted_sort_key sorted_wrt_take take_map)
  moreover have "\<forall>h\<in>set hits. vh_tenant h = tid"
    using h sub by (auto simp: hit_of_def match_def row_matches_def)
  ultimately show ?thesis
    using h sub by (intro exI [of _ ?rs]) (auto intro: sorted_take_rest)
qed

text \<open>A batch of embeddings with the configured dimension updates, for each chunk of the tenant, the row by the last item
  for it, and nothing else: no row is added for an unknown chunk, and the rows of other tenants stay.\<close>

theorem upsert_updates_only:
  assumes "upsert_batch V tid items rows = Inr rows'"
  shows "rows' = map (\<lambda>r. if vc_tenant r = tid then
       (case find (\<lambda>it. vi_chunk it = vc_id r) (rev items) of None \<Rightarrow> r
        | Some it \<Rightarrow> r\<lparr> vc_embedding := vi_embedding it, vc_metadata := vi_metadata it \<rparr>) else r) rows \<and>
    map vc_key rows' = map vc_key rows \<and>
    ((\<forall>r\<in>set rows. ve_len V (vc_embedding r) = ve_dim V) \<longrightarrow> (\<forall>r\<in>set rows'. ve_len V (vc_embedding r) = ve_dim V))"
proof -
  have r: "rows' = fold (update_chunk tid) items rows"
    and d: "it \<in> set items \<Longrightarrow> ve_len V (vi_embedding it) = ve_dim V" for it
    using assms by (auto simp: upsert_batch_def list_ex_iff split: if_splits)
  have "find P (rev items) = Some it \<Longrightarrow> it \<in> set items" for P it
    by (auto simp: find_Some_iff) (metis length_rev nth_mem set_rev)
  then have "(\<forall>r\<in>set rows. ve_len V (vc_embedding r) = ve_dim V) \<longrightarrow>
      (\<forall>r\<in>set rows'. ve_len V (vc_embedding r) = ve_dim V)"
    unfolding r fold_update_row using d by (auto split: option.split)
  then show ?thesis using r fold_update_keys fold_update_row by blast
qed

text \<open>Among chunks whose metadata holds a truth value at a key, a filter on a truth value at that key finds nothing:
  the database prints \<open>true\<close> where \<open>str\<close> prints \<open>True\<close>.\<close>

theorem bool_filter_finds_nothing:
  assumes "\<forall>r\<in>set rows. \<exists>d. vc_metadata r = JObj d \<and> is_bool (dget d key)" "list_all is_word key"
    "ve_len V q = ve_dim V" "0 \<le> k"
  shows "vector_query V tid q k (Some [(key, JBool b)]) rows = Inr []"
proof -
  have "metadata_text V (vc_metadata r) key \<noteq> Some (py_str (JBool b))" if r: "r \<in> set rows" for r
  proof -
    obtain d where d: "vc_metadata r = JObj d" "is_bool (dget d key)" using r assms(1) by blast
    then obtain c where "map_of d key = Some (JBool c)"
      by (auto simp: is_bool_def dget_def dget_or_def split: option.splits json.splits)
    then show ?thesis using d(1) by (simp add: metadata_text_def json_text_def)
  qed
  then have "filter (row_matches V tid [(key, JBool b)]) rows = []"
    by (auto simp: row_matches_def filter_empty_conv)
  then show ?thesis using assms(2-4) by (simp add: vector_query_def Let_def)
qed

section \<open>Witnesses\<close>

text \<open>A server in memory, and a table of three chunks of two tenants.\<close>

type_synonym memory = "(string \<rightharpoonup> string \<times> string option) option"

definition missing_code :: "string \<Rightarrow> client_error" where
  "missing_code c = \<lparr> xe_code = Some c, xe_text = c \<rparr>"

definition memory_server :: "memory s3_server" where
  "memory_server = \<lparr>
     s3_head_bucket = (\<lambda>s. if s = None then Some (missing_code ''404'') else None),
     s3_create_bucket = (\<lambda>s. (Some Map.empty, None)),
     s3_head_object = (\<lambda>s k. if s = None \<or> the s k = None then Some (missing_code ''404'') else None),
     s3_get_object = (\<lambda>s k. case s of None \<Rightarrow> Inl (missing_code ''NoSuchBucket'')
       | Some m \<Rightarrow> (case m k of None \<Rightarrow> Inl (missing_code ''NoSuchKey'') | Some (d, c) \<Rightarrow> Inr d)),
     s3_put_object = (\<lambda>s k d c. (Some ((the s)(k \<mapsto> (d, c))), None)),
     s3_delete_object = (\<lambda>s k. (Some ((the s)(k := None)), None)) \<rparr>"

lemma memory_laws: "s3_laws memory_server id"
  by (auto simp: s3_laws_def memory_server_def missing_code_def split: option.split)

theorem storage_is_map_witness:
  "\<exists>st. storage_put memory_server ''k'' ''data'' None \<lparr> mi_bucket_ensured = False, mi_server = None \<rparr> = (st, Inr ()) \<and>
     storage_get memory_server ''k'' st = Inr ''data'' \<and>
     storage_get memory_server ''l'' st = Inl (StorageObjectNotFoundError ''l'')"
proof -
  let ?st = "\<lparr> mi_bucket_ensured = False, mi_server = None \<rparr> :: memory minio"
  have "minio_ok id ?st" by (simp add: minio_ok_def)
  from storage_is_map [OF memory_laws this, of "''k''" "''data''" None] obtain st where
    st: "storage_put memory_server ''k'' ''data'' None ?st = (st, Inr ())" "minio_ok id st"
      "storage_get memory_server ''k'' st = Inr ''data''"
      "contents id st = (contents id ?st)(''k'' \<mapsto> (''data'', None))"
    by auto
  have "contents id st ''k'' \<noteq> None" using st(4) by simp
  then have "id (mi_server st) \<noteq> None" by (auto simp: contents_def split: option.splits)
  moreover have "contents id st ''l'' = None" using st(4) by (simp add: contents_def)
  ultimately have "storage_get memory_server ''l'' st = Inl (StorageObjectNotFoundError ''l'')"
    using storage_is_map [OF memory_laws st(2), of "''l''" "''data''" None] by simp
  then show ?thesis using st by blast
qed

definition sample_vectors :: "rat vector_env" where
  "sample_vectors = \<lparr> ve_len = (\<lambda>v. 1), ve_dim = 1, ve_distance = (\<lambda>u v. \<bar>u - v\<bar>), ve_json_text = (\<lambda>j. []),
     ve_bad_limit = OtherExc [], ve_odd_key = OtherExc [] \<rparr>"

definition sample_rows :: "rat vchunk list" where
  "sample_rows =
     [\<lparr> vc_id = ''a'', vc_tenant = ''t'', vc_document = ''d'', vc_embedding = 5, vc_metadata = JObj [(''live'', JBool True)] \<rparr>,
      \<lparr> vc_id = ''b'', vc_tenant = ''t'', vc_document = ''d'', vc_embedding = 1, vc_metadata = JObj [(''live'', JBool True)] \<rparr>,
      \<lparr> vc_id = ''c'', vc_tenant = ''u'', vc_document = ''e'', vc_embedding = 0, vc_metadata = JObj [(''live'', JBool True)] \<rparr>]"

theorem vector_query_nearest_witness:
  "\<exists>hits. vector_query sample_vectors ''t'' 0 1 None sample_rows = Inr hits \<and> map vh_chunk hits = [''b''] \<and>
     (\<forall>h\<in>set hits. vh_tenant h = ''t'')"
proof -
  obtain hits where h: "vector_query sample_vectors ''t'' 0 1 None sample_rows = Inr hits" "map vh_chunk hits = [''b'']"
    by (simp add: vector_query_def sample_vectors_def sample_rows_def row_matches_def hit_of_def)
  have "\<forall>h\<in>set hits. vh_tenant h = ''t''" using vector_query_nearest [OF h(1)] by (elim exE conjE)
  then show ?thesis by (intro exI [of _ hits] conjI h)
qed

theorem upsert_updates_only_witness:
  "\<exists>rows. upsert sample_vectors ''t'' ''c'' 7 None sample_rows = Inr rows \<and> map vc_key rows = map vc_key sample_rows \<and>
     rows = sample_rows"
proof -
  have u: "upsert sample_vectors ''t'' ''c'' 7 None sample_rows = Inr sample_rows"
    by (simp add: upsert_def upsert_batch_def update_chunk_def sample_vectors_def sample_rows_def)
  then show ?thesis using upsert_updates_only [OF u [unfolded upsert_def]] by blast
qed

theorem bool_filter_finds_nothing_witness:
  "vector_query sample_vectors ''t'' 0 5 (Some [(''live'', JBool True)]) sample_rows = Inr []"
proof (rule bool_filter_finds_nothing)
  show "list_all is_word ''live''" by code_simp
qed (auto simp: sample_vectors_def sample_rows_def is_bool_def dget_def dget_or_def)

end
