(* ===== verification/Uploads.thy ===== *)
theory Uploads
  imports Workers Auth
begin

text \<open>
  Two ways into the pipeline: the upload route (\<open>api/routes/ingest.py\<close>), and the command line over a directory
  (\<open>indexing/cli.py\<close> with \<open>indexing/connectors/filesystem.py\<close>).  The class names and built-in texts of
  exceptions, the file system and the parser of UUIDs are parameters; what the command line prints is not modelled.
\<close>

section \<open>The upload route\<close>

record upload_file =
  uf_data :: string
  uf_filename :: "string option"
  uf_content_type :: "string option"

record upload_env =
  ue_tenants :: "tenant list"
  ue_now :: int
  ue_audit_ok :: bool
  ue_class_name :: "exn \<Rightarrow> string"
  ue_text :: "exn \<Rightarrow> string"

record upload_response =
  up_status :: string
  up_document_id :: uuid
  up_job_id :: uuid
  up_chunks :: nat
  up_note :: string

text \<open>\<open>str(exc)\<close>: the message an exception carries; a built-in one has its own text.\<close>

definition exc_str :: "upload_env \<Rightarrow> exn \<Rightarrow> string" where
  "exc_str U e = (case e of PyExc _ \<Rightarrow> ue_text U e | _ \<Rightarrow> exn_message e)"

definition friendly :: "upload_env \<Rightarrow> exn \<Rightarrow> string" where
  "friendly U e =
     (let msg = exc_str U e in
       case e of
         ParserError _ \<Rightarrow>
           if contains ''no text blocks'' (lower msg) \<or> contains ''scanned'' (lower msg)
           then ''This PDF appears to be scanned (image-based). OCR fallback '' @
             ''isn't enabled in this build - try a born-digital PDF, or '' @ ''OCR the file yourself first.''
           else ''Could not parse the document: '' @ msg
       | EmbeddingError _ \<Rightarrow> ''Embedding the document failed: '' @ msg
       | IndexingError _ \<Rightarrow> ''Indexing failed: '' @ msg
       | _ \<Rightarrow> ''Unexpected error: '' @ ue_class_name U e @ '': '' @ msg)"

text \<open>\<open>f"{n:,}"\<close>\<close>

fun thousands :: "nat \<Rightarrow> string" where
  "thousands n = (if n < 1000 then nat_str n else thousands (n div 1000) @ '','' @ pad_int 3 (int (n mod 1000)))"

declare thousands.simps [simp del]

definition upload_name :: "upload_file \<Rightarrow> string" where
  "upload_name f = or_str (uf_filename f) ''upload.bin''"

definition upload_source :: "(string \<Rightarrow> string option) \<Rightarrow> principal \<Rightarrow> upload_file \<Rightarrow> source_document" where
  "upload_source guess p f =
     \<lparr> sd_uri = ''upload://'' @ pp_tenant_slug p @ ''/'' @ upload_name f, sd_data = uf_data f,
       sd_filename = Some (upload_name f),
       sd_content_type = Some (or_str (uf_content_type f) (detect_content_type guess (Some (upload_name f)))),
       sd_title = None,
       sd_metadata = [(''size_bytes'', JInt (int (length (uf_data f)))), (''uploaded_by'', JStr (pp_user_id p))] \<rparr>"

definition upload_status :: "ingestion_result \<Rightarrow> string" where
  "upload_status r =
     (if ir_skipped r \<and> startswith ''error:'' (ir_note r) then ''failed''
      else if ir_skipped r then ''skipped'' else ''ok'')"

definition dot_sep :: string where
  "dot_sep = [CHR '' '', CHR 0xB7, CHR '' '']"

definition upload_audit ::
  "upload_env \<Rightarrow> principal \<Rightarrow> upload_file \<Rightarrow> source_document \<Rightarrow> ingestion_result \<Rightarrow> audit_log \<Rightarrow> audit_log" where
  "upload_audit U p f src r rows =
     record_action (ue_audit_ok U) (ue_now U) p ''upload'' (Some ''/v1/ingest/upload'')
       (Some (''Uploaded '' @ [CHR 0x22] @ upload_name f @ [CHR 0x22] @ '' ('' @
          thousands (length (uf_data f)) @ '' bytes)''))
       (Some (''status='' @ upload_status r @ dot_sep @ nat_str (ir_chunks_written r) @ '' chunks written'' @
          (if ir_note r = [] then [] else dot_sep @ ir_note r)))
       [JObj [(''document_id'', JStr (ir_document_id r)), (''filename'', JStr (upload_name f))]]
       [(''size_bytes'', JInt (int (length (uf_data f)))), (''content_type'', opt_str (sd_content_type src))] rows"

text \<open>The form field \<open>title\<close> is an argument of the handler, as in the status.\<close>

definition ingest_upload ::
  "upload_env \<Rightarrow> 'v ingest_env \<Rightarrow> principal \<Rightarrow> upload_file \<Rightarrow> string option \<Rightarrow> 'v store \<times> audit_log \<Rightarrow>
   ('v store \<times> audit_log) \<times> (exn + upload_response)" where
  "ingest_upload U E pr f title st =
     (case require_active_trial (ue_tenants U) (ue_now U) pr of
        Inl e \<Rightarrow> (st, Inl e)
      | Inr p \<Rightarrow>
          if uf_data f = [] then (st, Inl (HTTPError 400 ''empty upload''))
          else
            let src = upload_source (ie_guess E) p f in
            (case ingest_one E (pp_tenant_id p) src (fst st) of
               (db, Inl e) \<Rightarrow>
                 ((db, snd st), Inl (HTTPError (if is_IndexingError e then 422 else 500) (friendly U e)))
             | (db, Inr r) \<Rightarrow>
                 ((db, upload_audit U p f src r (snd st)),
                  Inr \<lparr> up_status = upload_status r, up_document_id = ir_document_id r,
                    up_job_id = ir_job_id r, up_chunks = ir_chunks_written r, up_note = ir_note r \<rparr>)))"

section \<open>The directory connector\<close>

text \<open>What \<open>glob\<close> lists, in sorted order: files with their bytes or the exception of reading them.\<close>

record fs_entry =
  fs_is_file :: bool
  fs_name :: string
  fs_uri :: string
  fs_data :: "exn + string"
  fs_size :: nat

record file_system =
  fsys_exists :: "string \<Rightarrow> bool"
  fsys_glob :: "string \<Rightarrow> bool \<Rightarrow> fs_entry list"
  fsys_missing :: "string \<Rightarrow> exn"

definition DEFAULT_EXTENSIONS :: "string list" where
  "DEFAULT_EXTENSIONS = [''.pdf'', ''.docx'', ''.html'', ''.htm'', ''.md'', ''.markdown'']"

text \<open>\<open>Path.suffix\<close>: from the last point on, unless it begins or ends the name.\<close>

definition path_suffix :: "string \<Rightarrow> string" where
  "path_suffix name =
     (case rfind_char (CHR ''.'') name of
        None \<Rightarrow> []
      | Some i \<Rightarrow> if 0 < i \<and> i < length name - 1 then drop i name else [])"

definition wanted_entry :: "fs_entry \<Rightarrow> bool" where
  "wanted_entry x \<longleftrightarrow> fs_is_file x \<and> lower (path_suffix (fs_name x)) \<in> set DEFAULT_EXTENSIONS"

definition file_document :: "(string \<Rightarrow> string option) \<Rightarrow> fs_entry \<Rightarrow> string \<Rightarrow> source_document" where
  "file_document guess x d =
     \<lparr> sd_uri = fs_uri x, sd_data = d, sd_filename = Some (fs_name x),
       sd_content_type = Some (detect_content_type guess (Some (fs_name x))), sd_title = None,
       sd_metadata = [(''size_bytes'', JInt (int (fs_size x)))] \<rparr>"

text \<open>The documents up to a file that cannot be read, and its exception.\<close>

fun read_entries :: "(string \<Rightarrow> string option) \<Rightarrow> fs_entry list \<Rightarrow> source_document list \<times> exn option" where
  "read_entries guess [] = ([], None)"
| "read_entries guess (x # xs) =
     (if \<not> wanted_entry x then read_entries guess xs
      else case fs_data x of
        Inl e \<Rightarrow> ([], Some e)
      | Inr d \<Rightarrow> (case read_entries guess xs of (ds, e) \<Rightarrow> (file_document guess x d # ds, e)))"

definition iter_documents ::
  "(string \<Rightarrow> string option) \<Rightarrow> file_system \<Rightarrow> string \<Rightarrow> bool \<Rightarrow> source_document list \<times> exn option" where
  "iter_documents guess F base recursive =
     (if \<not> fsys_exists F base then ([], Some (fsys_missing F base))
      else read_entries guess (fsys_glob F base recursive))"

section \<open>The command line\<close>

definition resolve_tenant :: "(string \<Rightarrow> uuid option) \<Rightarrow> tenant list \<Rightarrow> string \<Rightarrow> exn + uuid" where
  "resolve_tenant parse_uuid ts s =
     (case parse_uuid s of
        Some u \<Rightarrow> Inr u
      | None \<Rightarrow>
          (case filter (\<lambda>t. tn_slug t = s) ts of
             [] \<Rightarrow> Inl (OtherExc (''No tenant matches slug/uuid: '' @ str_repr s))
           | [t] \<Rightarrow> Inr (tn_id t)
           | _ \<Rightarrow> Inl (OtherExc ''MultipleResultsFound'')))"

text \<open>Ingested, skipped, failed.\<close>

fun count_result :: "nat \<times> nat \<times> nat \<Rightarrow> ingestion_result \<Rightarrow> nat \<times> nat \<times> nat" where
  "count_result (n, skip, fails) r =
     (if ir_skipped r \<and> startswith ''error:'' (ir_note r) then (n, skip, fails + 1)
      else if ir_skipped r then (n, skip + 1, fails) else (n + 1, skip, fails))"

definition cli_ingest ::
  "(string \<Rightarrow> uuid option) \<Rightarrow> file_system \<Rightarrow> 'v ingest_env \<Rightarrow> string \<Rightarrow> string \<Rightarrow> bool \<Rightarrow> 'v store \<Rightarrow>
   'v store \<times> (exn + (nat \<times> nat \<times> nat) \<times> int)" where
  "cli_ingest parse_uuid F E tenant path no_recurse st =
     (case resolve_tenant parse_uuid (ie_tenants E) tenant of
        Inl e \<Rightarrow> (st, Inl e)
      | Inr tid \<Rightarrow>
          (case iter_documents (ie_guess E) F path (\<not> no_recurse) of (docs, err) \<Rightarrow>
             (case ingest E tid docs st of (st', rs) \<Rightarrow>
                (st', case err of
                   Some e \<Rightarrow> Inl e
                 | None \<Rightarrow>
                     (let (t, s, f) = foldl count_result (0, 0, 0) rs in Inr ((t, s, f), if f = 0 then 0 else 1))))))"

section \<open>Lemmas\<close>

lemma ingest_one_note: "ingest_one E tid src st = (st', Inr r) \<Longrightarrow> ir_note r \<in> {[], ''already up to date''}"
  by (erule ingest_one_cases) auto

lemma upload_status_cases:
  "ingest_one E tid src st = (st', Inr r) \<Longrightarrow> upload_status r = (if ir_skipped r then ''skipped'' else ''ok'')"
  using ingest_one_note [of E tid src st st' r] by (auto simp: upload_status_def startswith_def)

lemma ingest_results:
  "ingest E tid srcs st = (st', rs) \<Longrightarrow> length rs = length srcs \<and>
     list_all (\<lambda>r. \<not> ir_skipped r \<longrightarrow> \<not> startswith ''error:'' (ir_note r)) rs"
proof (induction srcs arbitrary: st st' rs)
  case (Cons s srcs)
  obtain st1 x where one: "ingest_one E tid s st = (st1, x)" by fastforce
  show ?case
  proof (cases x)
    case (Inl e)
    obtain st2 rs2 where r: "ingest E tid srcs (st1\<lparr> so_drawn := so_drawn st1 + 2 \<rparr>) = (st2, rs2)" by fastforce
    then show ?thesis using Cons.prems one Inl Cons.IH [OF r] by (auto simp: Let_def)
  next
    case (Inr r)
    obtain st2 rs2 where r2: "ingest E tid srcs st1 = (st2, rs2)" by fastforce
    have "ir_note r \<in> {[], ''already up to date''}" using one Inr ingest_one_note by blast
    then show ?thesis using Cons.prems one Inr r2 Cons.IH [OF r2] by (auto simp: startswith_def)
  qed
qed simp

lemma count_results:
  "foldl count_result (t, s, f) rs =
     (t + length (filter (\<lambda>r. \<not> ir_skipped r) rs),
      s + length (filter (\<lambda>r. ir_skipped r \<and> \<not> startswith ''error:'' (ir_note r)) rs),
      f + length (filter (\<lambda>r. ir_skipped r \<and> startswith ''error:'' (ir_note r)) rs))"
  by (induction rs arbitrary: t s f) auto

lemma filters_partition:
  "length (filter (\<lambda>r. \<not> P r) rs) + length (filter (\<lambda>r. P r \<and> \<not> Q r) rs) + length (filter (\<lambda>r. P r \<and> Q r) rs) = length rs"
  by (induction rs) auto

lemma active_trial_same: "require_active_trial ts now pr = Inr p \<Longrightarrow> p = pr"
  by (auto simp: require_active_trial_def split: if_splits option.splits)

lemma inactive_trial_402: "require_active_trial ts now pr = Inl e \<Longrightarrow> \<exists>m. e = HTTPError 402 m"
  by (auto simp: require_active_trial_def split: if_splits option.splits)

section \<open>Properties\<close>

text \<open>
  What an upload comes to: a refused one (an ended trial, an empty file, a failing ingestion with status 422 for the errors
  of the indexing and 500 for any other) leaves the audit rows as it was; an accepted one is the ingestion of exactly these
  bytes under the tenant's upload address, skipped when it is up to date, and never has the status ``failed'' that the
  response declares.
\<close>

theorem upload_outcomes:
  assumes "ingest_upload U E pr f title st = ((db, rows), r)"
  shows "case r of
      Inl e \<Rightarrow> rows = snd st \<and>
        ((\<exists>m. e = HTTPError 402 m) \<and> db = fst st \<or>
         e = HTTPError 400 ''empty upload'' \<and> uf_data f = [] \<and> db = fst st \<or>
         (\<exists>x. e = HTTPError (if is_IndexingError x then 422 else 500) (friendly U x) \<and>
            ingest_one E (pp_tenant_id pr) (upload_source (ie_guess E) pr f) (fst st) = (db, Inl x)))
    | Inr v \<Rightarrow> uf_data f \<noteq> [] \<and> (\<exists>ir. ingest_one E (pp_tenant_id pr) (upload_source (ie_guess E) pr f) (fst st) = (db, Inr ir) \<and>
        up_chunks v = ir_chunks_written ir \<and> up_status v = (if ir_skipped ir then ''skipped'' else ''ok'') \<and>
        rows = upload_audit U pr f (upload_source (ie_guess E) pr f) ir (snd st))"
proof (cases "require_active_trial (ue_tenants U) (ue_now U) pr")
  case (Inl e)
  then show ?thesis using assms inactive_trial_402 [OF Inl] by (auto simp: ingest_upload_def)
next
  case (Inr p)
  note p = active_trial_same [OF Inr]
  show ?thesis
  proof (cases "uf_data f = []")
    case True
    then show ?thesis using assms Inr by (auto simp: ingest_upload_def)
  next
    case False
    obtain db' x where one: "ingest_one E (pp_tenant_id pr) (upload_source (ie_guess E) pr f) (fst st) = (db', x)" by fastforce
    show ?thesis
    proof (cases x)
      case x: (Inl e)
      then show ?thesis using assms Inr p False one by (auto simp: ingest_upload_def Let_def)
    next
      case x: (Inr ir)
      then show ?thesis using assms Inr p False one upload_status_cases [OF one [unfolded x]]
        by (auto simp: ingest_upload_def Let_def)
    qed
  qed
qed

text \<open>
  The counts of the command line add up to the files it read, and its exit code is nought exactly when no file failed.
\<close>

theorem cli_counts:
  assumes "cli_ingest parse_uuid F E tenant path no_recurse st = (st', Inr ((t, s, f), status))"
  shows "\<exists>tid docs rs. resolve_tenant parse_uuid (ie_tenants E) tenant = Inr tid \<and>
    iter_documents (ie_guess E) F path (\<not> no_recurse) = (docs, None) \<and> ingest E tid docs st = (st', rs) \<and>
    t + s + f = length docs \<and> t = length (filter (\<lambda>r. \<not> ir_skipped r) rs) \<and>
    (status = 0 \<longleftrightarrow> list_all (\<lambda>r. \<not> startswith ''error:'' (ir_note r)) rs)"
proof -
  obtain tid where tid: "resolve_tenant parse_uuid (ie_tenants E) tenant = Inr tid"
    using assms by (auto simp: cli_ingest_def split: sum.splits)
  obtain docs err where d: "iter_documents (ie_guess E) F path (\<not> no_recurse) = (docs, err)" by fastforce
  obtain st2 rs where i: "ingest E tid docs st = (st2, rs)" by fastforce
  have "err = None" using assms tid d i by (auto simp: cli_ingest_def split: option.splits)
  then have c: "st2 = st'" "foldl count_result (0, 0, 0) rs = (t, s, f)" "status = (if f = 0 then 0 else 1)"
    using assms tid d i by (auto simp: cli_ingest_def split: prod.splits)
  note n = count_results [of 0 0 0 rs, unfolded c(2)]
  have "t + s + f = length docs"
    using n filters_partition [of ir_skipped rs "\<lambda>r. startswith ''error:'' (ir_note r)"] ingest_results [OF i] by simp
  moreover have "status = 0 \<longleftrightarrow> list_all (\<lambda>r. \<not> startswith ''error:'' (ir_note r)) rs"
    using n c(3) ingest_results [OF i] by (auto simp: filter_empty_conv list_all_iff)
  ultimately show ?thesis using tid d i n c(1) \<open>err = None\<close> by auto
qed

section \<open>Witnesses\<close>

definition sample_upload :: "string \<Rightarrow> upload_file" where
  "sample_upload d = \<lparr> uf_data = d, uf_filename = Some ''a.md'', uf_content_type = Some ''text/markdown'' \<rparr>"

definition sample_upload_env :: upload_env where
  "sample_upload_env = \<lparr> ue_tenants = [], ue_now = 0, ue_audit_ok = True, ue_class_name = (\<lambda>e. ''RuntimeError''),
     ue_text = (\<lambda>e. ''boom'') \<rparr>"

theorem upload_outcomes_witness:
  "\<exists>db rows v. ingest_upload sample_upload_env sample_ingest sample_principal (sample_upload ''one'') None (no_store, []) =
     ((db, rows), Inr v) \<and> up_status v = ''ok'' \<and> length rows = 1"
proof -
  have k: "case ingest_upload sample_upload_env sample_ingest sample_principal (sample_upload ''one'') None (no_store, []) of
      ((db, rows), Inl e) \<Rightarrow> False | ((db, rows), Inr v) \<Rightarrow> length rows = 1 \<and> 0 < up_chunks v" by code_simp
  obtain db rows r where u: "ingest_upload sample_upload_env sample_ingest sample_principal (sample_upload ''one'') None
      (no_store, []) = ((db, rows), r)" by (metis prod.exhaust)
  then obtain v where r: "r = Inr v" using k by (cases r) auto
  have s: "case ingest_one sample_ingest (pp_tenant_id sample_principal)
      (upload_source (ie_guess sample_ingest) sample_principal (sample_upload ''one'')) no_store of
      (db, Inl e) \<Rightarrow> False | (db, Inr ir) \<Rightarrow> \<not> ir_skipped ir" by code_simp
  have "up_status v = ''ok''" using upload_outcomes [OF u] s by (auto simp: r)
  then show ?thesis using u r k by auto
qed

definition sample_files :: file_system where
  "sample_files = \<lparr> fsys_exists = (\<lambda>b. b = ''/docs''), fsys_glob = (\<lambda>b rec.
     [\<lparr> fs_is_file = True, fs_name = ''a.md'', fs_uri = ''file:///docs/a.md'', fs_data = Inr ''one'', fs_size = 3 \<rparr>,
      \<lparr> fs_is_file = True, fs_name = ''a.png'', fs_uri = ''file:///docs/a.png'', fs_data = Inr ''png'', fs_size = 3 \<rparr>]),
     fsys_missing = (\<lambda>b. OtherExc ''FileNotFoundError'') \<rparr>"

theorem cli_counts_witness:
  "\<exists>st t s f status. cli_ingest Some sample_files sample_ingest ''t'' ''/docs'' False no_store = (st, Inr ((t, s, f), status)) \<and>
     t + s + f = 1 \<and> status = 0"
proof -
  have k: "case cli_ingest Some sample_files sample_ingest ''t'' ''/docs'' False no_store of
      (st, Inl e) \<Rightarrow> False | (st, Inr ((t, s, f), status)) \<Rightarrow> status = 0" by code_simp
  obtain st x where x: "cli_ingest Some sample_files sample_ingest ''t'' ''/docs'' False no_store = (st, x)" by fastforce
  then obtain t s f status where r: "x = Inr ((t, s, f), status)" using k by (cases x) auto
  have "length (fst (iter_documents (ie_guess sample_ingest) sample_files ''/docs'' (\<not> False))) = 1" by code_simp
  then have "t + s + f = 1" using cli_counts [OF x [unfolded r]] by auto
  then show ?thesis using x r k by auto
qed

end
