(* ===== verification/Spec2Isabelle.thy ===== *)
theory Spec2Isabelle
  imports GatewayGovernance Prompts Auth Accounts Retrieval SearchService GatewayAdmin PyValues Connectors WebCrawl Parsing Chunking IngestPipeline Ingestion Workers IngestionDb FolderSources AskService AskRoutes JsonText RulePacks Validators Summarisation Training Grading TrainingRoutes WatcherFeeds Watcher Documents McpTools Agent Parsers HandbookCorpus FosCorpus DemoCorpus RetrievalTraining AuditRoutes Embeddings Storage Uploads
begin

text \<open>
  A verification development of FaastLab AskAi, a document-intelligence platform: documents are indexed
  as chunks, searched by vector and keyword, and answered from by language models, for many tenants
  behind one API.  The theories model the Python packages under \<open>src/packages\<close>.

  \<^bold>\<open>Parts and interaction.\<close>  A request arrives with a session token; \<open>Auth\<close> turns it into a
  principal and the guards check scopes, trial, policy and quota.  \<open>Accounts\<close> holds the users, tenants
  and invites those tokens are minted for.  A search (\<open>SearchService\<close>) reads the chunks of the caller's
  tenant and of the public corpus through the retrievers of \<open>Retrieval\<close>, reranks them and nudges them by
  feedback.  The model calls of a tenant's requests go through the gateway (\<open>GatewayService\<close>), except those of
  the summary worker and of triplet mining, which build an adapter of their own (embedding and reranking requests
  do not pass the gateway either): the gateway reads the tenant's policy,
  checks the quota against the usage ledger, builds the chain of model targets, screens the prompt, calls
  the adapters of \<open>LlmAdapters\<close> target by target and writes the ledger.  The owner's routes
  (\<open>GatewayAdmin\<close>) change the policy, routing and prompts (\<open>Prompts\<close>) those calls read.  Documents come in
  through connectors, uploads, the watcher and the corpus loaders, are parsed and chunked, and the pipeline stores
  them; asking, validation, training and the agent compose search and gateway.

  \<^bold>\<open>Theories.\<close>
  \<^item> \<open>PyPrelude\<close>, \<open>PyJson\<close>, \<open>Rx\<close>, \<open>Errors\<close>: what the source uses of Python -- exceptions as the left
    of a sum (\<open>try_bind\<close>), strings and their methods, rounding, JSON values and their truth,
    regular expressions (\<open>rx_search_iff\<close> relates the matcher to the declarative \<open>rx_occurs\<close>) --
    and the exceptions of \<open>core/exceptions.py\<close>.
  \<^item> \<open>Config\<close>: \<open>core/config/settings.py\<close>, the fields the model reads.
  \<^item> \<open>GatewayPolicy\<close>, \<open>GatewayRouting\<close>, \<open>GatewayUsage\<close>, \<open>GatewayGuard\<close>: \<open>core/gateway\<close>
    \<open>policy.py\<close>, \<open>targets.py\<close> and \<open>router.py\<close>, \<open>usage.py\<close> and \<open>quota.py\<close>, \<open>guard.py\<close>.
  \<^item> \<open>LlmAdapters\<close>: \<open>core/adapters/llm.py\<close>, \<open>core/byok.py\<close> and the OpenAI and Ollama adapters of
    \<open>askai/adapters\<close>.  The remote services are parameters: a function from the calls made so far to
    an answer.  The trace of calls is part of the state, so the theorems can speak of what was sent.
  \<^item> \<open>GatewayService\<close>: \<open>core/gateway/service.py\<close> and \<open>llm_adapter.py\<close>.  The state holds the ledger, the
    trace and the count of ledger writes; the loops over the chain are structural recursions.
  \<^item> \<open>GatewayGovernance\<close>: the locale \<open>governed_entry\<close> states what every entry point of the gateway
    promises (it acts only through the gate and its chain); it is interpreted for completions, streams and
    tool calls, and the governance properties rest on its facts.
  \<^item> \<open>Prompts\<close>: \<open>core/gateway/prompts.py\<close>, the registry as a state machine with reachability.
  \<^item> \<open>Auth\<close>: \<open>api/middleware\<close> and \<open>api/security.py\<close>; JWT and bcrypt are parameters with the documented
    laws as hypotheses, and a concrete instance shows that they can hold; the refusal of passwords over 72 bytes is a branch.
  \<^item> \<open>Accounts\<close>: \<open>api/routes/auth.py\<close> and \<open>admin.py\<close>, with reachability of account databases.
  \<^item> \<open>Retrieval\<close>: \<open>search/filters.py\<close>, \<open>retrievers\<close> and \<open>rerankers\<close>; SQL clauses are a datatype with
    their text and their meaning on a row, and the reranker protocol is a locale.
  \<^item> \<open>SearchService\<close>: \<open>search/service.py\<close>, \<open>search/feedback.py\<close>, \<open>core/tenancy.py\<close>.
  \<^item> \<open>GatewayAdmin\<close>: \<open>api/routes/gateway.py\<close>.
  \<^item> \<open>PyValues\<close>, \<open>JsonText\<close>: floats with their range, ISO times, and \<open>json.loads\<close> (whose parser recurses on
    fuel; \<open>json_loads_fuel\<close> shows that twice the length of the text is enough).
  \<^item> \<open>Connectors\<close>, \<open>WebCrawl\<close>: \<open>core/connectors.py\<close>, \<open>api/routes/connectors.py\<close>, and the breadth-first
    crawl of \<open>indexing/connectors/web.py\<close> with its invariant.
  \<^item> \<open>Parsing\<close>, \<open>Parsers\<close>, \<open>Chunking\<close>: \<open>indexing/parsers\<close> and \<open>indexing/chunkers\<close>; the locale
    \<open>document_parser\<close> is the contract on offsets, interpreted for PDF, Word and HTML.
  \<^item> \<open>IngestPipeline\<close>: \<open>indexing/pipeline.py\<close>; a session that commits or rolls back, next to a vector store and
    an object storage that act at once.
  \<^item> \<open>Ingestion\<close>, \<open>Workers\<close>, \<open>IngestionDb\<close>, \<open>FolderSources\<close>: presets, indexers and uploads
    (\<open>core/ingestion\<close>, \<open>api/routes/ingestion.py\<close>, \<open>enrichment.py\<close>), the tasks of \<open>indexing/tasks.py\<close>, the
    invariant of their tables over all routes and runs, and the way of an upload to its indexer.
  \<^item> \<open>AskService\<close>, \<open>AskRoutes\<close>: \<open>askai/service.py\<close>, \<open>citations.py\<close>, \<open>memory.py\<close>, \<open>chains/rag.py\<close>, and
    the routes for asking, searching, sessions and feedback.
  \<^item> \<open>RulePacks\<close>, \<open>Validators\<close>, \<open>Summarisation\<close>: \<open>validators\<close> with its routes, and \<open>summarisation\<close>.
  \<^item> \<open>Training\<close>, \<open>Grading\<close>, \<open>TrainingRoutes\<close>: the generators of training material, the grader (its
    percentages are exact rationals where the code has floats), and \<open>api/routes/training.py\<close> with the invariant of its tables.
  \<^item> \<open>WatcherFeeds\<close>, \<open>Watcher\<close>: the feeds of \<open>watcher\<close>, the poll, the notifiers and the task.
  \<^item> \<open>Documents\<close>: \<open>api/routes/documents.py\<close>.
  \<^item> \<open>McpTools\<close>, \<open>Agent\<close>: the tools of \<open>mcp/server.py\<close>, the transport's bearer check, and the agent's loop,
    which recurses on the remaining steps.
  \<^item> \<open>HandbookCorpus\<close>, \<open>FosCorpus\<close>, \<open>DemoCorpus\<close>: the loaders of \<open>corpus/uk_finreg\<close> on top of the pipeline; the
    walk over a manual recurses on the remaining depth, as the code bounds it.
  \<^item> \<open>RetrievalTraining\<close>: \<open>search/training/triplets.py\<close>, the examples and metrics of \<open>training\<close>.
  \<^item> \<open>AuditRoutes\<close>: \<open>api/middleware/audit.py\<close> and \<open>api/routes/audit.py\<close>.
  \<^item> \<open>Embeddings\<close>: the adapters of \<open>indexing/adapters\<close> for OpenAI and Ollama with their retries; the locale
    \<open>embeddings_contract\<close> is what the pipeline relies on, interpreted for both.
  \<^item> \<open>Storage\<close>: \<open>storage_minio.py\<close> as a map of objects over a server with the laws of S3, and the operations of
    \<open>vector_pgvector.py\<close> on the table of chunks.
  \<^item> \<open>Uploads\<close>: \<open>api/routes/ingest.py\<close>, the directory connector and the command line of \<open>indexing\<close>.

  \<^bold>\<open>Lemma groups.\<close>  Each theory proves the behaviour of its operations on every branch; the properties,
  numbered C1 onwards in the text before each, stand at the end of the theory of their component.
  The governance group (sovereign lock, allow-list, quota, guard, metering) bounds what leaves for a model
  and what is recorded of it; the registry and account groups are invariants of reachable states; the token
  group separates sessions, invites and downloads; the retrieval group shows tenant isolation and what
  fusion and feedback do to a ranking; the ingestion group is the invariants of the stores and tables, and which
  part of a document's rows survives a failure; the answer group ties citations, reports, artefacts and grades to
  the passages and replies they come from.

  \<^bold>\<open>Conventions and bounds.\<close>  Floats are rationals or reals, with rounding written out (\<open>py_round\<close>);
  a time is an integer of microseconds.  The one definition with fuel is the JSON parser, with its bound proved
  enough; the other loops recurse on their data or on a bound of the code (retries, steps, pages, depth).  Characters beyond Latin-1 in message
  texts are written as a hyphen.  Where SQL leaves the order of equal rows open, the model takes table order.

  \<^bold>\<open>Not modelled.\<close>  A client that closes a stream early, the waiting time between retries, log lines and
  metrics; the wiring of the web application, the request and response schemas, the training loop of the neural
  reranker, database migrations, and the other components the manifest lists as not modelled, with the reason.
\<close>

end
